(* ===== verification/Py_Prelude.thy ===== *)
theory Py_Prelude
  imports Main "HOL-Library.AList" "HOL-Library.Char_ord" "HOL-Library.List_Lexorder"
begin

text \<open>
  The part of Python that every modelled module uses: exceptions as values, insertion-ordered
  dictionaries, strings and their methods, and the shape of a lifecycle (states, legal moves,
  terminal states) that several modules share.

  Strings are lists of characters whose codes are the code points 0 to 255 (Latin-1); code points
  above 255 are outside the model.
\<close>

section \<open>Collections of facts\<close>

named_theorems py_dict \<open>facts about insertion-ordered dictionaries\<close>
named_theorems py_str \<open>facts about string methods\<close>

section \<open>Exceptions\<close>

text \<open>
  A call that may raise returns \<open>Inl e\<close> for the exception and \<open>Inr v\<close> for the value.  A method
  that changes its object before it raises returns the changed state beside the sum.
\<close>

datatype py_error =
    ValueError string
  | KeyError string
  | TypeError string
  | AttributeError string
  | PermissionError string
  | InvalidOperation
  | ZeroDivisionError
  | OverflowError
  | RuntimeCoreInvariantError string
  | DuplicateRuntimeIdentifierError string

type_synonym 'a py = "py_error + 'a"

fun is_ok :: "'a py \<Rightarrow> bool" where
  "is_ok (Inr _) = True"
| "is_ok (Inl _) = False"

fun py_bind :: "'a py \<Rightarrow> ('a \<Rightarrow> 'b py) \<Rightarrow> 'b py" where
  "py_bind (Inl e) f = Inl e"
| "py_bind (Inr x) f = f x"

lemma py_bind_Inr_iff: "py_bind m f = Inr y \<longleftrightarrow> (\<exists>x. m = Inr x \<and> f x = Inr y)"
  by (cases m) auto

lemma is_ok_iff: "is_ok r \<longleftrightarrow> (\<exists>x. r = Inr x)"
  by (cases r) auto

section \<open>Dictionaries\<close>

text \<open>
  A Python dictionary keeps its keys in insertion order: assigning to a present key leaves it in
  place, assigning to a new key appends it.  That is \<open>AList.update\<close> on an association list with
  distinct keys.
\<close>

type_synonym ('k, 'v) pydict = "('k \<times> 'v) list"

abbreviation dict_get :: "('k, 'v) pydict \<Rightarrow> 'k \<Rightarrow> 'v option" where
  "dict_get d k \<equiv> map_of d k"

abbreviation dict_set :: "'k \<Rightarrow> 'v \<Rightarrow> ('k, 'v) pydict \<Rightarrow> ('k, 'v) pydict" where
  "dict_set k v d \<equiv> AList.update k v d"

abbreviation dict_pop :: "'k \<Rightarrow> ('k, 'v) pydict \<Rightarrow> ('k, 'v) pydict" where
  "dict_pop k d \<equiv> AList.delete k d"

abbreviation dict_keys :: "('k, 'v) pydict \<Rightarrow> 'k list" where
  "dict_keys d \<equiv> map fst d"

abbreviation dict_values :: "('k, 'v) pydict \<Rightarrow> 'v list" where
  "dict_values d \<equiv> map snd d"

definition wf_dict :: "('k, 'v) pydict \<Rightarrow> bool" where
  "wf_dict d \<longleftrightarrow> distinct (dict_keys d)"

lemma wf_dict_Nil [simp, py_dict]: "wf_dict []"
  by (simp add: wf_dict_def)

lemma wf_dict_set [simp, intro, py_dict]: "wf_dict d \<Longrightarrow> wf_dict (dict_set k v d)"
  by (simp add: wf_dict_def distinct_update)

lemma wf_dict_pop [simp, intro, py_dict]: "wf_dict d \<Longrightarrow> wf_dict (dict_pop k d)"
  by (simp add: wf_dict_def distinct_delete)

lemma dict_get_set [simp, py_dict]:
  "dict_get (dict_set k v d) k' = (if k' = k then Some v else dict_get d k')"
  by (simp add: update_conv')

lemma dict_get_pop [simp, py_dict]:
  "dict_get (dict_pop k d) k' = (if k' = k then None else dict_get d k')"
  by (simp add: delete_conv')

lemma dict_values_mem: "wf_dict d \<Longrightarrow> v \<in> set (dict_values d) \<longleftrightarrow> (\<exists>k. dict_get d k = Some v)"
  by (force simp: wf_dict_def map_of_eq_Some_iff)

lemma dict_get_mem: "dict_get d k = Some v \<Longrightarrow> (k, v) \<in> set d"
  by (rule map_of_SomeD)

lemma dict_mem_get: "wf_dict d \<Longrightarrow> (k, v) \<in> set d \<Longrightarrow> dict_get d k = Some v"
  by (simp add: wf_dict_def)

lemma dict_get_None_keys: "dict_get d k = None \<longleftrightarrow> k \<notin> set (dict_keys d)"
  by (simp add: map_of_eq_None_iff)

lemma dict_set_new: "dict_get d k = None \<Longrightarrow> dict_set k v d = d @ [(k, v)]"
  by (induction d) (auto split: if_splits)

lemma length_dict_set:
  "length (dict_set k v d) = (if dict_get d k = None then Suc (length d) else length d)"
  by (induction d) auto

lemma length_dict_pop_le: "length (dict_pop k d) \<le> length d"
  by (rule length_delete_le)

text \<open>
  The laws of a mapping, as an interface.  What a module needs of its dictionary (or of a store that
  behaves like one) it proves from these laws.
\<close>

locale py_mapping =
  fixes lookup :: "'m \<Rightarrow> 'k \<Rightarrow> 'v option"
    and store :: "'k \<Rightarrow> 'v \<Rightarrow> 'm \<Rightarrow> 'm"
    and wf :: "'m \<Rightarrow> bool"
  assumes lookup_store: "lookup (store k v m) k' = (if k' = k then Some v else lookup m k')"
    and wf_store: "wf m \<Longrightarrow> wf (store k v m)"
begin

lemma lookup_store_same: "lookup (store k v m) k = Some v"
  by (simp add: lookup_store)

lemma lookup_store_other: "k' \<noteq> k \<Longrightarrow> lookup (store k v m) k' = lookup m k'"
  by (simp add: lookup_store)

text \<open>A property of every stored value survives a store of a value that has it.\<close>

lemma all_values_store:
  assumes "\<forall>k v. lookup m k = Some v \<longrightarrow> P k v" and "P k v"
  shows "\<forall>k' v'. lookup (store k v m) k' = Some v' \<longrightarrow> P k' v'"
  using assms by (auto simp: lookup_store split: if_splits)

text \<open>A fold of stores looks up the last value written for the key.\<close>

lemma lookup_fold_store_notin:
  "k \<notin> f ` set xs \<Longrightarrow> lookup (fold (\<lambda>x. store (f x) (g x)) xs m) k = lookup m k"
  by (induction xs arbitrary: m) (auto simp: lookup_store)

end

interpretation dict: py_mapping map_of AList.update wf_dict
  by unfold_locales (simp_all add: wf_dict_set)

section \<open>Lifecycles\<close>

text \<open>
  A lifecycle is a set of legal moves between states.  \<open>legal_path R s p\<close> holds when the states of
  \<open>p\<close> can be visited one after the other, starting from \<open>s\<close>.
\<close>

fun legal_path :: "('s \<Rightarrow> 's \<Rightarrow> bool) \<Rightarrow> 's \<Rightarrow> 's list \<Rightarrow> bool" where
  "legal_path R s [] = True"
| "legal_path R s (t # ts) = (R s t \<and> legal_path R t ts)"

lemma legal_path_append [simp]:
  "legal_path R s (p @ q) \<longleftrightarrow> legal_path R s p \<and> legal_path R (last (s # p)) q"
  by (induction p arbitrary: s) auto

locale lifecycle =
  fixes legal :: "'s \<Rightarrow> 's \<Rightarrow> bool"
    and terminal :: "'s \<Rightarrow> bool"
  assumes terminal_stuck: "terminal s \<Longrightarrow> \<not> legal s t"
begin

lemma terminal_path: "terminal s \<Longrightarrow> legal_path legal s p \<Longrightarrow> p = []"
  by (cases p) (auto simp: terminal_stuck)

text \<open>A terminal state can only be the last state of a path.\<close>

lemma terminal_only_last:
  assumes "legal_path legal s (p @ t # q)" and "terminal t"
  shows "q = []"
  using assms terminal_path by auto

end

locale ranked_lifecycle = lifecycle +
  fixes rank :: "'a \<Rightarrow> nat"
  assumes legal_rank: "legal s t \<Longrightarrow> rank s < rank t"
begin

lemma path_rank: "legal_path legal s p \<Longrightarrow> rank s + length p \<le> rank (last (s # p))"
proof (induction p arbitrary: s)
  case (Cons t p)
  from Cons.prems have "rank s < rank t" and "legal_path legal t p"
    by (auto dest: legal_rank)
  with Cons.IH[of t] show ?case by simp
qed simp

text \<open>No state is visited twice, so a move back is impossible.\<close>

lemma path_no_return: "legal_path legal s p \<Longrightarrow> p \<noteq> [] \<Longrightarrow> last (s # p) \<noteq> s"
  using path_rank[of s p] by (cases p) auto

end

section \<open>Strings\<close>

text \<open>Decimal digits of a natural number and of an integer, as \<open>str(n)\<close> prints them.\<close>

definition digit_char :: "nat \<Rightarrow> char" where
  "digit_char d = char_of (48 + d)"

fun nat_str :: "nat \<Rightarrow> string" where
  "nat_str n = (if n < 10 then [digit_char n] else nat_str (n div 10) @ [digit_char (n mod 10)])"

declare nat_str.simps [simp del]

definition int_str :: "int \<Rightarrow> string" where
  "int_str i = (if i < 0 then CHR ''-'' # nat_str (nat (- i)) else nat_str (nat i))"

definition is_digit_char :: "char \<Rightarrow> bool" where
  "is_digit_char c \<longleftrightarrow> 48 \<le> (of_char c :: nat) \<and> (of_char c :: nat) \<le> 57"

definition digit_val :: "char \<Rightarrow> nat" where
  "digit_val c = of_char c - 48"

definition nat_of_digits :: "string \<Rightarrow> nat" where
  "nat_of_digits = foldl (\<lambda>n c. 10 * n + digit_val c) 0"

lemma of_char_digit_char [simp]: "d < 10 \<Longrightarrow> (of_char (digit_char d) :: nat) = 48 + d"
  by (simp add: digit_char_def)

lemma is_digit_digit_char [simp]: "d < 10 \<Longrightarrow> is_digit_char (digit_char d)"
  by (simp add: is_digit_char_def)

lemma digit_val_digit_char [simp]: "d < 10 \<Longrightarrow> digit_val (digit_char d) = d"
  by (simp add: digit_val_def)

lemma nat_str_nonempty [simp, py_str]: "nat_str n \<noteq> []"
  by (subst nat_str.simps) simp

lemma nat_str_digits: "\<forall>c \<in> set (nat_str n). is_digit_char c"
proof (induction n rule: nat_str.induct)
  case (1 n)
  then show ?case by (subst nat_str.simps) auto
qed

lemma nat_of_digits_snoc: "nat_of_digits (s @ [c]) = 10 * nat_of_digits s + digit_val c"
  by (simp add: nat_of_digits_def)

lemma nat_of_digits_nat_str [simp, py_str]: "nat_of_digits (nat_str n) = n"
proof (induction n rule: nat_str.induct)
  case (1 n)
  show ?case
  proof (cases "n < 10")
    case True
    then show ?thesis
      by (subst nat_str.simps) (simp add: nat_of_digits_def)
  next
    case False
    with 1 show ?thesis
      by (subst nat_str.simps) (simp add: nat_of_digits_snoc)
  qed
qed

lemma nat_str_inj [simp, py_str]: "nat_str m = nat_str n \<longleftrightarrow> m = n"
  by (metis nat_of_digits_nat_str)

lemma minus_not_digit [simp]: "\<not> is_digit_char CHR ''-''"
  by (simp add: is_digit_char_def)

lemma nat_str_no_minus: "CHR ''-'' # s \<noteq> nat_str n"
  using nat_str_digits[of n] minus_not_digit by (metis list.set_intros(1))

lemma int_str_inj [simp, py_str]: "int_str i = int_str j \<longleftrightarrow> i = j"
  using nat_str_no_minus nat_str_no_minus[symmetric] by (auto simp: int_str_def)

lemma int_str_nonempty [simp, py_str]: "int_str i \<noteq> []"
  by (simp add: int_str_def)

text \<open>
  The same digits computed on \<open>int\<close>, whose numerals the evaluator handles in binary.
\<close>

function digits_str :: "int \<Rightarrow> string" where
  "digits_str n =
     (if n < 10 then [digit_char (nat n)] else digits_str (n div 10) @ [digit_char (nat (n mod 10))])"
  by pat_completeness auto
termination
  by (relation "measure nat") auto

declare digits_str.simps [simp del]

lemma digits_str_nat_str: "digits_str n = nat_str (nat n)"
proof (induction n rule: digits_str.induct)
  case (1 n)
  show ?case
  proof (cases "n < 10")
    case True
    then show ?thesis by (simp add: digits_str.simps[of n] nat_str.simps[of "nat n"])
  next
    case False
    with 1 show ?thesis
      by (simp add: digits_str.simps[of n] nat_str.simps[of "nat n"] nat_div_distrib nat_mod_distrib)
  qed
qed

lemma nat_str_code [code]: "nat_str n = digits_str (int n)"
  by (simp add: digits_str_nat_str)

lemma int_str_code [code]:
  "int_str i = (if i < 0 then CHR ''-'' # digits_str (- i) else digits_str i)"
  by (simp add: int_str_def digits_str_nat_str)

text \<open>\<open>str.strip\<close>: the white space of the code points below 256.\<close>

definition py_isspace :: "char \<Rightarrow> bool" where
  "py_isspace c \<longleftrightarrow>
     (let n = (of_char c :: nat) in 9 \<le> n \<and> n \<le> 13 \<or> 28 \<le> n \<and> n \<le> 32 \<or> n = 133 \<or> n = 160)"

definition py_strip :: "string \<Rightarrow> string" where
  "py_strip s = rev (dropWhile py_isspace (rev (dropWhile py_isspace s)))"

text \<open>\<open>not value.strip()\<close>, the emptiness test of the contract validators.\<close>

definition blank :: "string \<Rightarrow> bool" where
  "blank s \<longleftrightarrow> py_strip s = []"

lemma blank_Nil [simp, py_str]: "blank []"
  by (simp add: blank_def py_strip_def)

lemma blank_iff [py_str]: "blank s \<longleftrightarrow> (\<forall>c \<in> set s. py_isspace c)"
  by (induction s) (auto simp: blank_def py_strip_def dropWhile_eq_Nil_conv)

definition py_removeprefix :: "string \<Rightarrow> string \<Rightarrow> string" where
  "py_removeprefix p s = (if take (length p) s = p then drop (length p) s else s)"

text \<open>\<open>s.split(c)\<close> for a one-character separator: always at least one part.\<close>

fun py_split :: "char \<Rightarrow> string \<Rightarrow> string list" where
  "py_split c [] = [[]]"
| "py_split c (x # xs) =
     (if x = c then [] # py_split c xs
      else (case py_split c xs of [] \<Rightarrow> [[x]] | p # ps \<Rightarrow> (x # p) # ps))"

text \<open>\<open>s.strip(chars)\<close> for one character.\<close>

definition py_strip_char :: "char \<Rightarrow> string \<Rightarrow> string" where
  "py_strip_char c s = rev (dropWhile (\<lambda>x. x = c) (rev (dropWhile (\<lambda>x. x = c) s)))"

text \<open>\<open>sep.join(parts)\<close>.\<close>

fun py_join :: "string \<Rightarrow> string list \<Rightarrow> string" where
  "py_join sep [] = []"
| "py_join sep [x] = x"
| "py_join sep (x # y # ys) = x @ sep @ py_join sep (y # ys)"

lemma py_split_nonempty [simp]: "py_split c s \<noteq> []"
  by (induction s) (auto split: list.splits)

lemma py_split_single [simp]: "c \<notin> set s \<Longrightarrow> py_split c s = [s]"
  by (induction s) auto

lemma py_split_sep: "c \<notin> set s \<Longrightarrow> py_split c (s @ c # t) = s # py_split c t"
  by (induction s) auto

text \<open>Splitting undoes joining when no part contains the separator.\<close>

lemma py_split_join [py_str]:
  "xs \<noteq> [] \<Longrightarrow> \<forall>x \<in> set xs. c \<notin> set x \<Longrightarrow> py_split c (py_join [c] xs) = xs"
  by (induction "[c]" xs rule: py_join.induct) (auto simp: py_split_sep)

text \<open>\<open>f"{n:06d}"\<close>: a non-negative number padded with zeros to a width.\<close>

definition zero_pad :: "nat \<Rightarrow> nat \<Rightarrow> string" where
  "zero_pad w n = (let s = nat_str n in replicate (w - length s) CHR ''0'' @ s)"

text \<open>\<open>a or b\<close> on strings.\<close>

definition str_or :: "string \<Rightarrow> string \<Rightarrow> string" where
  "str_or a b = (if a = [] then b else a)"

text \<open>\<open>xs[-n:]\<close> for a positive \<open>n\<close>.\<close>

definition last_n :: "nat \<Rightarrow> 'a list \<Rightarrow> 'a list" where
  "last_n n xs = drop (length xs - n) xs"

text \<open>\<open>xs[-n:]\<close> for any integer: with \<open>n = 0\<close> it is the whole list, as in Python.\<close>

definition py_tail :: "int \<Rightarrow> 'a list \<Rightarrow> 'a list" where
  "py_tail n xs = (if 0 < n then last_n (nat n) xs else drop (nat (- n)) xs)"

text \<open>\<open>d[k] = d.get(k, 0) + 1\<close>.\<close>

definition dict_bump :: "'k \<Rightarrow> ('k, nat) pydict \<Rightarrow> ('k, nat) pydict" where
  "dict_bump k d = dict_set k (case dict_get d k of None \<Rightarrow> 1 | Some n \<Rightarrow> Suc n) d"

lemma wf_dict_bump [simp]: "wf_dict d \<Longrightarrow> wf_dict (dict_bump k d)"
  by (simp add: dict_bump_def)

text \<open>Counting with a dictionary counts: the value of a key is its number of occurrences.\<close>

lemma dict_get_fold_bump:
  "dict_get (fold (\<lambda>x. dict_bump (f x)) xs d) k =
     (let n = length (filter (\<lambda>x. f x = k) xs)
      in if n = 0 then dict_get d k
         else Some ((case dict_get d k of None \<Rightarrow> 0 | Some m \<Rightarrow> m) + n))"
  by (induction xs arbitrary: d) (auto simp: dict_bump_def Let_def split: option.splits)

lemma length_last_n [simp]: "length (last_n n xs) = min n (length xs)"
  by (simp add: last_n_def)

lemma set_last_n: "set (last_n n xs) \<subseteq> set xs"
  by (simp add: last_n_def set_drop_subset)

end
