(* ===== verification/Tx_State.thy ===== *)
theory Tx_State
  imports Py_Prelude
begin

text \<open>
  \<open>skills/financial/core/transaction_state.py\<close>: the lifecycle of a financial transaction.  The
  transition table is a function from a state to the states it may move to; \<open>transition\<close> raises on a
  terminal source state before it looks at the table.
\<close>

datatype tx_state =
    CREATED | PENDING_APPROVAL | AUTHORIZED | CAPTURED | SETTLED
  | REFUND_PENDING | REFUNDED | FAILED | REJECTED | EXPIRED

fun tx_value :: "tx_state \<Rightarrow> string" where
  "tx_value CREATED = ''created''"
| "tx_value PENDING_APPROVAL = ''pending_approval''"
| "tx_value AUTHORIZED = ''authorized''"
| "tx_value CAPTURED = ''captured''"
| "tx_value SETTLED = ''settled''"
| "tx_value REFUND_PENDING = ''refund_pending''"
| "tx_value REFUNDED = ''refunded''"
| "tx_value FAILED = ''failed''"
| "tx_value REJECTED = ''rejected''"
| "tx_value EXPIRED = ''expired''"

lemma tx_value_inj: "tx_value s = tx_value t \<longleftrightarrow> s = t"
  by (cases s; cases t) simp_all

text \<open>A \<open>StrEnum\<close> sorts by its value.\<close>

instantiation tx_state :: linorder
begin

definition less_eq_tx_state :: "tx_state \<Rightarrow> tx_state \<Rightarrow> bool" where
  "less_eq_tx_state s t \<longleftrightarrow> tx_value s \<le> tx_value t"

definition less_tx_state :: "tx_state \<Rightarrow> tx_state \<Rightarrow> bool" where
  "less_tx_state s t \<longleftrightarrow> tx_value s < tx_value t"

instance
  by standard (auto simp: less_eq_tx_state_def less_tx_state_def less_le tx_value_inj)

end

definition TX_TERMINAL :: "tx_state list" where
  "TX_TERMINAL = [REFUNDED, FAILED, REJECTED, EXPIRED]"

fun TX_TRANSITIONS :: "tx_state \<Rightarrow> tx_state list" where
  "TX_TRANSITIONS CREATED = [PENDING_APPROVAL, AUTHORIZED, REJECTED, EXPIRED]"
| "TX_TRANSITIONS PENDING_APPROVAL = [AUTHORIZED, REJECTED, EXPIRED]"
| "TX_TRANSITIONS AUTHORIZED = [CAPTURED, FAILED, EXPIRED]"
| "TX_TRANSITIONS CAPTURED = [SETTLED, FAILED]"
| "TX_TRANSITIONS SETTLED = [REFUND_PENDING]"
| "TX_TRANSITIONS REFUND_PENDING = [REFUNDED, FAILED]"
| "TX_TRANSITIONS REFUNDED = []"
| "TX_TRANSITIONS FAILED = []"
| "TX_TRANSITIONS REJECTED = []"
| "TX_TRANSITIONS EXPIRED = []"

record tx_transition =
  tr_from :: tx_state
  tr_to :: tx_state
  tr_reason :: string
  tr_actor :: string
  tr_at :: string

datatype tx_error =
    TerminalState tx_state
  | IllegalTransition tx_state tx_state
  | TxExists string
  | TxNotFound string
  | TxKeyError string

definition is_terminal :: "tx_state \<Rightarrow> bool" where
  "is_terminal s \<longleftrightarrow> s \<in> set TX_TERMINAL"

definition validate_transition :: "tx_state \<Rightarrow> tx_state \<Rightarrow> bool" where
  "validate_transition s t \<longleftrightarrow> t \<in> set (TX_TRANSITIONS s)"

definition transition ::
  "tx_state \<Rightarrow> tx_state \<Rightarrow> string \<Rightarrow> string \<Rightarrow> string \<Rightarrow> tx_error + tx_transition" where
  "transition from_state to_state reason actor_id timestamp =
     (if is_terminal from_state then Inl (TerminalState from_state)
      else if \<not> validate_transition from_state to_state
      then Inl (IllegalTransition from_state to_state)
      else Inr \<lparr>tr_from = from_state, tr_to = to_state, tr_reason = reason, tr_actor = actor_id,
                tr_at = timestamp\<rparr>)"

definition legal_next_states :: "tx_state \<Rightarrow> tx_state list" where
  "legal_next_states s = sort (TX_TRANSITIONS s)"

section \<open>The lifecycle\<close>

text \<open>How far a state is along the lifecycle: every legal move goes strictly forward.\<close>

fun tx_rank :: "tx_state \<Rightarrow> nat" where
  "tx_rank CREATED = 0"
| "tx_rank PENDING_APPROVAL = 1"
| "tx_rank AUTHORIZED = 2"
| "tx_rank CAPTURED = 3"
| "tx_rank SETTLED = 4"
| "tx_rank REFUND_PENDING = 5"
| "tx_rank _ = 6"

interpretation tx: ranked_lifecycle validate_transition is_terminal tx_rank
proof
  show "is_terminal s \<Longrightarrow> \<not> validate_transition s t" for s t
    by (cases s) (simp_all add: is_terminal_def TX_TERMINAL_def validate_transition_def)
  show "validate_transition s t \<Longrightarrow> tx_rank s < tx_rank t" for s t
    by (cases s) (auto simp: validate_transition_def)
qed

lemma terminal_iff_no_next: "is_terminal s \<longleftrightarrow> TX_TRANSITIONS s = []"
  by (cases s) (simp_all add: is_terminal_def TX_TERMINAL_def)

lemma transition_Inr:
  "transition s t r a ts = Inr x \<longleftrightarrow>
     validate_transition s t \<and> x = \<lparr>tr_from = s, tr_to = t, tr_reason = r, tr_actor = a, tr_at = ts\<rparr>"
  using tx.terminal_stuck[of s t] by (auto simp: transition_def)

lemma validate_into [simp]:
  "validate_transition s AUTHORIZED \<longleftrightarrow> s = CREATED \<or> s = PENDING_APPROVAL"
  "validate_transition s CAPTURED \<longleftrightarrow> s = AUTHORIZED"
  "validate_transition s SETTLED \<longleftrightarrow> s = CAPTURED"
  "validate_transition s REFUND_PENDING \<longleftrightarrow> s = SETTLED"
  "validate_transition s REFUNDED \<longleftrightarrow> s = REFUND_PENDING"
  "validate_transition s PENDING_APPROVAL \<longleftrightarrow> s = CREATED"
  "\<not> validate_transition s CREATED"
  by (cases s; simp add: validate_transition_def)+

text \<open>Paths that end in a given state, read backwards.\<close>

lemma legal_path_snoc_iff:
  "legal_path R s p \<and> p \<noteq> [] \<longleftrightarrow>
     (\<exists>q t. p = q @ [t] \<and> legal_path R s q \<and> R (last (s # q)) t)"
  by (cases p rule: rev_cases) auto

lemma path_to_AUTHORIZED:
  assumes "legal_path validate_transition CREATED p" and "last (CREATED # p) = AUTHORIZED"
  shows "p = [AUTHORIZED] \<or> p = [PENDING_APPROVAL, AUTHORIZED]"
proof (cases p rule: rev_cases)
  case (snoc q t)
  with assms have t: "t = AUTHORIZED" and q: "legal_path validate_transition CREATED q"
    and l: "last (CREATED # q) = CREATED \<or> last (CREATED # q) = PENDING_APPROVAL" by auto
  have "q = [] \<or> q = [PENDING_APPROVAL]"
    using q l tx.path_no_return[OF q] by (cases q rule: rev_cases) (auto, metis append_Nil last.simps tx.path_no_return)
  with snoc t show ?thesis by auto
qed (use assms in simp)

lemma path_to_SETTLED:
  assumes "legal_path validate_transition CREATED p" and "last (CREATED # p) = SETTLED"
  shows "p = [AUTHORIZED, CAPTURED, SETTLED] \<or> p = [PENDING_APPROVAL, AUTHORIZED, CAPTURED, SETTLED]"
proof -
  obtain q where p: "p = q @ [SETTLED]" and q: "legal_path validate_transition CREATED q"
    and l: "last (CREATED # q) = CAPTURED"
    using assms by (cases p rule: rev_cases) auto
  obtain r where q': "q = r @ [CAPTURED]" and r: "legal_path validate_transition CREATED r"
    and l': "last (CREATED # r) = AUTHORIZED"
    using q l by (cases q rule: rev_cases) auto
  show ?thesis using path_to_AUTHORIZED[OF r l'] p q' by auto
qed

text \<open>
  Whatever sequence of legal transitions a transaction takes, it visits no state twice, makes at
  most six moves, and leaves no terminal state.
\<close>

theorem tx_lifecycle:
  assumes "legal_path validate_transition s p"
  shows "distinct (s # p) \<and> length p \<le> 6 - tx_rank s \<and> (\<forall>t \<in> set (butlast (s # p)). \<not> is_terminal t)"
proof (intro conjI)
  have "tx_rank t \<le> 6" for t by (cases t) simp_all
  with tx.path_rank[OF assms] show "length p \<le> 6 - tx_rank s"
    by (metis add_diff_cancel_left' diff_le_mono le_trans)
  from assms show "distinct (s # p)"
  proof (induction p arbitrary: s)
    case (Cons t p)
    have "s \<notin> set (t # p)"
    proof
      assume "s \<in> set (t # p)"
      then obtain q r where "t # p = q @ s # r" by (meson split_list)
      with Cons.prems have "legal_path validate_transition s (q @ [s])" by (metis append_Cons append_Nil append_assoc legal_path_append)
      from tx.path_no_return[OF this] show False by simp
    qed
    with Cons show ?case by auto
  qed simp
  from assms show "\<forall>t \<in> set (butlast (s # p)). \<not> is_terminal t"
    by (induction p arbitrary: s) (auto dest: tx.terminal_stuck)
qed

theorem tx_lifecycle_witness:
  "distinct [CREATED, PENDING_APPROVAL, AUTHORIZED, CAPTURED, SETTLED, REFUND_PENDING, REFUNDED] \<and>
   length [PENDING_APPROVAL, AUTHORIZED, CAPTURED, SETTLED, REFUND_PENDING, REFUNDED] \<le> 6 - tx_rank CREATED"
  using tx_lifecycle[of CREATED "[PENDING_APPROVAL, AUTHORIZED, CAPTURED, SETTLED, REFUND_PENDING, REFUNDED]"]
  by (simp add: validate_transition_def)

end
