(* ===== verification/Py_Sha256.thy ===== *)
theory Py_Sha256
  imports Py_Prelude "HOL-Library.Word"
begin

text \<open>
  \<open>hashlib.sha256(s.encode()).hexdigest()\<close>, written out: UTF-8 encoding of the code points below
  256, padding, message schedule, compression rounds and hexadecimal output.  Theorems about hash chains
  use of it that a digest is hexadecimal and not blank, and nothing else; tampering is traced to two different inputs with one digest.
\<close>

unbundle bit_operations_syntax

type_synonym u32 = "32 word"

definition utf8_char :: "char \<Rightarrow> int list" where
  "utf8_char c = (let n = (of_char c :: int)
     in if n < 128 then [n] else [192 + n div 64, 128 + n mod 64])"

definition utf8 :: "string \<Rightarrow> int list" where
  "utf8 s = concat (map utf8_char s)"

text \<open>
  The round constants, the first 32 bits of the fractional parts of the cube roots of the first 64
  primes, and the initial state, those of the square roots of the first eight primes.
\<close>

definition sha_k :: "u32 list" where
  "sha_k =
    [1116352408, 1899447441, 3049323471, 3921009573, 961987163, 1508970993, 2453635748, 2870763221,
     3624381080, 310598401, 607225278, 1426881987, 1925078388, 2162078206, 2614888103, 3248222580,
     3835390401, 4022224774, 264347078, 604807628, 770255983, 1249150122, 1555081692, 1996064986,
     2554220882, 2821834349, 2952996808, 3210313671, 3336571891, 3584528711, 113926993, 338241895,
     666307205, 773529912, 1294757372, 1396182291, 1695183700, 1986661051, 2177026350, 2456956037,
     2730485921, 2820302411, 3259730800, 3345764771, 3516065817, 3600352804, 4094571909, 275423344,
     430227734, 506948616, 659060556, 883997877, 958139571, 1322822218, 1537002063, 1747873779,
     1955562222, 2024104815, 2227730452, 2361852424, 2428436474, 2756734187, 3204031479, 3329325298]"

definition sha_h0 :: "u32 list" where
  "sha_h0 =
    [1779033703, 3144134277, 1013904242, 2773480762, 1359893119, 2600822924, 528734635, 1541459225]"

definition rotr :: "nat \<Rightarrow> u32 \<Rightarrow> u32" where
  "rotr n x = drop_bit n x OR push_bit (32 - n) x"

definition be_bytes :: "nat \<Rightarrow> int \<Rightarrow> int list" where
  "be_bytes w n = map (\<lambda>i. n div 256 ^ i mod 256) (rev [0..<w])"

definition sha_pad :: "int list \<Rightarrow> int list" where
  "sha_pad m = m @ [128] @ replicate ((119 - length m mod 64) mod 64) 0 @ be_bytes 8 (8 * int (length m))"

fun words_of :: "int list \<Rightarrow> u32 list" where
  "words_of (a # b # c # d # xs) = word_of_int (((a * 256 + b) * 256 + c) * 256 + d) # words_of xs"
| "words_of xs = []"

text \<open>The schedule, latest word first.\<close>

fun sha_extend :: "nat \<Rightarrow> u32 list \<Rightarrow> u32 list" where
  "sha_extend 0 w = w"
| "sha_extend (Suc n) w =
     (let s0 = rotr 7 (w ! 14) XOR rotr 18 (w ! 14) XOR drop_bit 3 (w ! 14);
          s1 = rotr 17 (w ! 1) XOR rotr 19 (w ! 1) XOR drop_bit 10 (w ! 1)
      in sha_extend n ((w ! 15 + s0 + w ! 6 + s1) # w))"

fun sha_round :: "u32 \<times> u32 \<Rightarrow> u32 list \<Rightarrow> u32 list" where
  "sha_round (k, w) [a, b, c, d, e, f, g, h] =
     (let s1 = rotr 6 e XOR rotr 11 e XOR rotr 25 e;
          ch = (e AND f) XOR (NOT e AND g);
          t1 = h + s1 + ch + k + w;
          s0 = rotr 2 a XOR rotr 13 a XOR rotr 22 a;
          maj = (a AND b) XOR (a AND c) XOR (b AND c)
      in [t1 + (s0 + maj), a, b, c, d + t1, e, f, g])"
| "sha_round kw xs = xs"

definition sha_block :: "u32 list \<Rightarrow> u32 list \<Rightarrow> u32 list" where
  "sha_block h ws =
     (let w = rev (sha_extend 48 (rev ws)) in map2 (+) h (fold sha_round (zip sha_k w) h))"

function sha_blocks :: "u32 list \<Rightarrow> u32 list \<Rightarrow> u32 list" where
  "sha_blocks h ws = (if ws = [] then h else sha_blocks (sha_block h (take 16 ws)) (drop 16 ws))"
  by pat_completeness auto
termination
  by (relation "measure (\<lambda>(h, ws). length ws)") auto

declare sha_blocks.simps [simp del]

definition hex_char :: "nat \<Rightarrow> char" where
  "hex_char d = char_of (if d < 10 then 48 + d else 87 + d)"

definition hex_word :: "u32 \<Rightarrow> string" where
  "hex_word x = map (\<lambda>i. hex_char (nat (uint x div 16 ^ i mod 16))) (rev [0..<8])"

definition sha256_hex :: "string \<Rightarrow> string" where
  "sha256_hex s = concat (map hex_word (sha_blocks sha_h0 (words_of (sha_pad (utf8 s)))))"

section \<open>A hash is not blank\<close>

lemma length_sha_round [simp]: "length (sha_round kw h) = length h"
  by (induction kw h rule: sha_round.induct) (auto simp: Let_def)

lemma length_sha_block [simp]: "length (sha_block h ws) = length h"
proof -
  have "length (fold sha_round ks h) = length h" for ks by (induction ks arbitrary: h) simp_all
  then show ?thesis by (simp add: sha_block_def Let_def)
qed

lemma length_sha_blocks [simp]: "length (sha_blocks h ws) = length h"
proof (induction h ws rule: sha_blocks.induct)
  case (1 h ws)
  then show ?case by (cases "ws = []") (simp_all add: sha_blocks.simps[of h])
qed

lemma hex_not_space: "d < 16 \<Longrightarrow> \<not> py_isspace (hex_char d)"
proof -
  assume "d < 16"
  then have "of_char (hex_char d) = (if d < 10 then 48 + d else 87 + d)" by (simp add: hex_char_def)
  then show ?thesis using \<open>d < 16\<close> by (auto simp: py_isspace_def)
qed

lemma sha256_hex_not_blank: "\<not> blank (sha256_hex s)"
proof -
  obtain x xs where b: "sha_blocks sha_h0 (words_of (sha_pad (utf8 s))) = x # xs"
    using length_sha_blocks[of sha_h0] by (metis length_0_conv list.exhaust sha_h0_def list.distinct(1))
  have "hex_char (nat (uint x mod 16)) \<in> set (sha256_hex s)"
    by (simp add: sha256_hex_def b hex_word_def upt_rec)
  moreover have "\<not> py_isspace (hex_char (nat (uint x mod 16)))" by (rule hex_not_space) simp
  ultimately show ?thesis by (auto simp: blank_iff)
qed

end
