(* ===== verification/Py_Json.thy ===== *)
theory Py_Json
  imports Py_Sha256
begin

text \<open>
  \<open>json.dumps(value, sort_keys=True)\<close> on the values the modules hash: null, booleans, integers,
  strings, arrays and objects (floats are not covered).  Output is ASCII, as with the default
  \<open>ensure_ascii=True\<close>; the item and key separators are parameters, because the audit trail uses the
  default ones and the identifiers use the compact ones.

  The main fact is that the encoding is injective up to the order of object keys, so that two
  different contents never have the same bytes.
\<close>

datatype json =
    JNull
  | JBool bool
  | JInt int
  | JStr string
  | JArr "json list"
  | JObj "(string \<times> json) list"

definition quote_char :: char where "quote_char = CHR 0x22"
definition backslash :: char where "backslash = CHR 0x5C"

definition json_esc :: "char \<Rightarrow> string" where
  "json_esc c =
     (let n = (of_char c :: nat) in
      if n = 34 then [backslash, quote_char]
      else if n = 92 then [backslash, backslash]
      else if n = 8 then backslash # ''b''
      else if n = 12 then backslash # ''f''
      else if n = 10 then backslash # ''n''
      else if n = 13 then backslash # ''r''
      else if n = 9 then backslash # ''t''
      else if 32 \<le> n \<and> n \<le> 126 then [c]
      else backslash # ''u00'' @ [hex_char (n div 16), hex_char (n mod 16)])"

definition json_str :: "string \<Rightarrow> string" where
  "json_str s = quote_char # concat (map json_esc s) @ [quote_char]"

primrec json_dumps :: "string \<Rightarrow> string \<Rightarrow> json \<Rightarrow> string" where
  "json_dumps isep ksep JNull = ''null''"
| "json_dumps isep ksep (JBool b) = (if b then ''true'' else ''false'')"
| "json_dumps isep ksep (JInt i) = int_str i"
| "json_dumps isep ksep (JStr s) = json_str s"
| "json_dumps isep ksep (JArr xs) = ''['' @ py_join isep (map (json_dumps isep ksep) xs) @ '']''"
| "json_dumps isep ksep (JObj kvs) =
     ''{'' @ py_join isep (map (\<lambda>(k, t). json_str k @ ksep @ t)
                (sort_key fst (map (map_prod id (json_dumps isep ksep)) kvs))) @ ''}''"

abbreviation dumps_default :: "json \<Rightarrow> string" where
  "dumps_default \<equiv> json_dumps '', '' '': ''"

abbreviation dumps_compact :: "json \<Rightarrow> string" where
  "dumps_compact \<equiv> json_dumps '','' '':''"

text \<open>The value with the keys of every object in sorted order.\<close>

primrec json_canon :: "json \<Rightarrow> json" where
  "json_canon JNull = JNull"
| "json_canon (JBool b) = JBool b"
| "json_canon (JInt i) = JInt i"
| "json_canon (JStr s) = JStr s"
| "json_canon (JArr xs) = JArr (map json_canon xs)"
| "json_canon (JObj kvs) = JObj (sort_key fst (map (map_prod id json_canon) kvs))"

section \<open>Escaping is a prefix code\<close>

definition hex_val :: "char \<Rightarrow> nat" where
  "hex_val c = (let n = (of_char c :: nat) in if n < 58 then n - 48 else n - 87)"

lemma hex_val_hex_char [simp]: "d < 16 \<Longrightarrow> hex_val (hex_char d) = d"
  by (auto simp: hex_val_def hex_char_def Let_def)

text \<open>Reading one escaped character back.\<close>

fun json_unesc :: "string \<Rightarrow> (char \<times> string) option" where
  "json_unesc [] = None"
| "json_unesc (x # xs) =
     (if x \<noteq> backslash then Some (x, xs)
      else (case xs of
          [] \<Rightarrow> None
        | y # ys \<Rightarrow>
            (if y = CHR ''b'' then Some (char_of (8::nat), ys)
             else if y = CHR ''f'' then Some (char_of (12::nat), ys)
             else if y = CHR ''n'' then Some (char_of (10::nat), ys)
             else if y = CHR ''r'' then Some (char_of (13::nat), ys)
             else if y = CHR ''t'' then Some (char_of (9::nat), ys)
             else if y = CHR ''u'' then
               (case ys of _ # _ # a # b # zs \<Rightarrow> Some (char_of (16 * hex_val a + hex_val b), zs)
                | _ \<Rightarrow> None)
             else Some (y, ys))))"

lemma char_eqI_nat: "(of_char c :: nat) = of_char d \<Longrightarrow> c = d"
  by simp

lemma json_unesc_esc: "json_unesc (json_esc c @ r) = Some (c, r)"
proof -
  let ?n = "of_char c :: nat"
  have n: "?n < 256" by simp
  have c: "c = char_of ?n" by simp
  have hx: "16 * (?n div 16) + ?n mod 16 = ?n" by simp
  have d: "?n div 16 < 16" using n by (intro less_mult_imp_div_less) simp
  show ?thesis
  proof (cases "?n \<in> {8, 9, 10, 12, 13, 34, 92}")
    case True
    then have "c \<in> char_of ` {8, 9, 10, 12, 13, 34, 92 :: nat}"
      using c by (metis imageI)
    moreover have "char_of (34 :: nat) = CHR 0x22" and "char_of (92 :: nat) = CHR 0x5C"
      by (rule char_eqI_nat, simp)+
    ultimately show ?thesis
      by (auto simp: json_esc_def quote_char_def backslash_def Let_def)
  next
    case False
    then have "c \<noteq> backslash" by (auto simp: backslash_def)
    with False d show ?thesis
      by (auto simp: json_esc_def hx Let_def backslash_def)
  qed
qed

lemma json_esc_first: "\<exists>x xs. json_esc c = x # xs \<and> x \<noteq> quote_char"
  by (auto simp: json_esc_def quote_char_def backslash_def Let_def)

lemma json_esc_inj: "json_esc c @ r = json_esc d @ r' \<Longrightarrow> c = d \<and> r = r'"
  by (metis json_unesc_esc option.inject prod.inject)

lemma json_chars_inj:
  "concat (map json_esc s) @ quote_char # r = concat (map json_esc t) @ quote_char # r'
    \<Longrightarrow> s = t \<and> r = r'"
proof (induction s arbitrary: t)
  case Nil
  then show ?case using json_esc_first by (cases t) (auto, metis append_Cons list.inject)
next
  case (Cons c s)
  show ?case
  proof (cases t)
    case Nil
    with Cons.prems json_esc_first[of c] show ?thesis by auto
  next
    case (Cons d t')
    with Cons.prems have "json_esc c @ concat (map json_esc s) @ quote_char # r
        = json_esc d @ concat (map json_esc t') @ quote_char # r'" by simp
    with json_esc_inj Cons.IH Cons show ?thesis by blast
  qed
qed

lemma json_str_inj: "json_str s @ r = json_str t @ r' \<Longrightarrow> s = t \<and> r = r'"
  using json_chars_inj[of s r t r'] by (simp add: json_str_def)

section \<open>Numbers\<close>

definition no_digit :: "string \<Rightarrow> bool" where
  "no_digit r \<longleftrightarrow> (case r of [] \<Rightarrow> True | c # _ \<Rightarrow> \<not> is_digit_char c)"

lemma takeWhile_digits:
  "\<forall>c \<in> set s. is_digit_char c \<Longrightarrow> no_digit r
    \<Longrightarrow> takeWhile is_digit_char (s @ r) = s \<and> dropWhile is_digit_char (s @ r) = r"
  by (cases r) (auto simp: no_digit_def)

lemma nat_str_append_inj:
  assumes "nat_str m @ r = nat_str n @ r'" and "no_digit r" and "no_digit r'"
  shows "m = n \<and> r = r'"
  using assms takeWhile_digits[of "nat_str m" r] takeWhile_digits[of "nat_str n" r']
    nat_str_digits[of m] nat_str_digits[of n] nat_str_inj by metis

lemma nat_str_hd: "\<exists>c s. nat_str n = c # s \<and> is_digit_char c"
  using nat_str_digits[of n] nat_str_nonempty[of n] by (cases "nat_str n") auto

lemma int_str_append_inj:
  assumes "int_str i @ r = int_str j @ r'" and "no_digit r" and "no_digit r'"
  shows "i = j \<and> r = r'"
proof -
  have *: "CHR ''-'' # s \<noteq> nat_str n @ t" for s n t
    using nat_str_hd[of n] minus_not_digit by auto
  show ?thesis
  proof (cases "i < 0")
    case True
    with assms(1) * have "j < 0" by (cases "j < 0") (auto simp: int_str_def)
    with True assms nat_str_append_inj[of "nat (- i)" r "nat (- j)" r'] show ?thesis
      by (simp add: int_str_def) linarith
  next
    case False
    with assms(1) *[symmetric] have "\<not> j < 0" by (auto simp: int_str_def)
    with False assms nat_str_append_inj[of "nat i" r "nat j" r'] show ?thesis
      by (simp add: int_str_def) linarith
  qed
qed

section \<open>Values\<close>

text \<open>The first character of an encoding tells the kind of value.\<close>

datatype json_kind = KNull | KTrue | KFalse | KNum | KStr | KArr | KObj | KNone

definition kind_of_char :: "char \<Rightarrow> json_kind" where
  "kind_of_char c =
     (if c = CHR ''n'' then KNull else if c = CHR ''t'' then KTrue
      else if c = CHR ''f'' then KFalse else if c = quote_char then KStr
      else if c = CHR ''['' then KArr else if c = CHR ''{'' then KObj
      else if c = CHR ''-'' \<or> is_digit_char c then KNum else KNone)"

fun kind_of :: "json \<Rightarrow> json_kind" where
  "kind_of JNull = KNull"
| "kind_of (JBool b) = (if b then KTrue else KFalse)"
| "kind_of (JInt i) = KNum"
| "kind_of (JStr s) = KStr"
| "kind_of (JArr xs) = KArr"
| "kind_of (JObj kvs) = KObj"

lemma digit_kind: "is_digit_char c \<Longrightarrow> kind_of_char c = KNum"
  by (auto simp: kind_of_char_def is_digit_char_def quote_char_def)

lemma minus_kind: "kind_of_char CHR ''-'' = KNum"
  by (simp add: kind_of_char_def quote_char_def)

lemma dumps_first: "\<exists>c s. json_dumps isep ksep j = c # s \<and> kind_of_char c = kind_of j"
proof (cases j)
  case (JInt i)
  then show ?thesis
    using nat_str_hd[of "nat i"] digit_kind minus_kind by (auto simp: int_str_def)
qed (auto simp: kind_of_char_def json_str_def quote_char_def)

lemma dumps_same_kind: "json_dumps isep ksep j @ r = json_dumps isep ksep j' @ r' \<Longrightarrow> kind_of j = kind_of j'"
  using dumps_first[of isep ksep j] dumps_first[of isep ksep j'] by auto

text \<open>A list of encodings between an item separator and a closing bracket.\<close>

lemma no_digit_simps [simp]:
  "no_digit (CHR '']'' # r)" "no_digit (CHR ''}'' # r)" "no_digit (CHR '','' # r)" "no_digit []"
  by (simp_all add: no_digit_def is_digit_char_def)

lemma py_join_Cons: "py_join sep (x # xs) = x @ (if xs = [] then [] else sep @ py_join sep xs)"
  by (cases xs) auto

lemma joined_inj:
  assumes inj: "\<And>x y s t. x \<in> set xs \<Longrightarrow> no_digit s \<Longrightarrow> no_digit t
      \<Longrightarrow> f x @ s = f y @ t \<Longrightarrow> g x = g y \<and> s = t"
    and ne: "\<And>x. \<exists>c s. f x = c # s \<and> c \<noteq> cl"
    and sep: "isep = CHR '','' # isep'" and cl: "cl = CHR '']'' \<or> cl = CHR ''}''"
    and eq: "py_join isep (map f xs) @ cl # r = py_join isep (map f ys) @ cl # r'"
  shows "map g xs = map g ys \<and> r = r'"
  using inj eq
proof (induction xs arbitrary: ys)
  case Nil
  then show ?case
  proof (cases ys)
    case (Cons y ys')
    with Nil ne[of y] show ?thesis by (auto simp: py_join_Cons)
  qed simp
next
  case (Cons x xs)
  show ?case
  proof (cases ys)
    case Nil
    with Cons.prems ne[of x] show ?thesis by (auto simp: py_join_Cons)
  next
    case (Cons y ys')
    let ?rest = "\<lambda>zs q. (if zs = [] then [] else isep @ py_join isep (map f zs)) @ cl # q"
    have nd: "no_digit (?rest zs q)" for zs q
      using cl by (auto simp: sep)
    have e: "f x @ ?rest xs r = f y @ ?rest ys' r'"
      using Cons.prems(2) Cons by (simp add: py_join_Cons)
    have xy: "g x = g y" and rest: "?rest xs r = ?rest ys' r'"
      using Cons.prems(1)[of x, OF _ nd nd e] by simp_all
    from rest cl have nil: "xs = [] \<longleftrightarrow> ys' = []"
      by (auto simp: sep split: if_splits)
    have "map g xs = map g ys' \<and> r = r'"
    proof (cases "xs = []")
      case True
      with rest nil show ?thesis by simp
    next
      case False
      with rest nil have "py_join isep (map f xs) @ cl # r = py_join isep (map f ys') @ cl # r'"
        by simp
      with Cons.IH[of ys'] Cons.prems(1) show ?thesis by auto
    qed
    with xy Cons show ?thesis by simp
  qed
qed

lemma sort_key_map_prod: "sort_key fst (map (map_prod id f) xs) = map (map_prod id f) (sort_key fst xs)"
proof (induction xs)
  case (Cons x xs)
  have "insort_key fst (map_prod id f x) (map (map_prod id f) ys)
      = map (map_prod id f) (insort_key fst x ys)" for ys
    by (induction ys) auto
  with Cons show ?case by (simp add: id_def)
qed simp

definition json_pair :: "string \<Rightarrow> string \<Rightarrow> string \<times> json \<Rightarrow> string" where
  "json_pair isep ksep p = json_str (fst p) @ ksep @ json_dumps isep ksep (snd p)"

lemma json_dumps_obj:
  "json_dumps isep ksep (JObj kvs) =
     ''{'' @ py_join isep (map (json_pair isep ksep) (sort_key fst kvs)) @ ''}''"
proof -
  have "(\<lambda>(k, t). json_str k @ ksep @ t) \<circ> map_prod id (json_dumps isep ksep) = json_pair isep ksep"
    by (auto simp: json_pair_def)
  then show ?thesis by (simp add: sort_key_map_prod)
qed

lemma json_dumps_append_inj:
  assumes sep: "isep = CHR '','' # isep'"
  shows "no_digit r \<Longrightarrow> no_digit r' \<Longrightarrow> json_dumps isep ksep j @ r = json_dumps isep ksep j' @ r'
    \<Longrightarrow> json_canon j = json_canon j' \<and> r = r'"
proof (induction j arbitrary: j' r r')
  case JNull
  then show ?case using dumps_same_kind[OF JNull(3)] by (cases j') (auto split: if_splits)
next
  case (JBool b)
  then show ?case using dumps_same_kind[OF JBool(3)] by (cases j') (auto split: if_splits)
next
  case (JInt i)
  then obtain k where j': "j' = JInt k"
    using dumps_same_kind[OF JInt(3)] by (cases j') (auto split: if_splits)
  with JInt have "int_str i @ r = int_str k @ r'" by simp
  with j' JInt(1,2) show ?case by (auto dest: int_str_append_inj)
next
  case (JStr s)
  then obtain t where j': "j' = JStr t"
    using dumps_same_kind[OF JStr(3)] by (cases j') (auto split: if_splits)
  with JStr have "json_str s @ r = json_str t @ r'" by simp
  with j' show ?case by (auto dest: json_str_inj)
next
  case (JArr xs)
  then obtain ys where j': "j' = JArr ys"
    using dumps_same_kind[OF JArr(4)] by (cases j') (auto split: if_splits)
  have "map json_canon xs = map json_canon ys \<and> r = r'"
  proof (rule joined_inj[where f = "json_dumps isep ksep" and cl = "CHR '']''", OF _ _ sep])
    show "\<exists>c s. json_dumps isep ksep x = c # s \<and> c \<noteq> CHR '']''" for x
    proof -
      obtain c s where "json_dumps isep ksep x = c # s" "kind_of_char c = kind_of x"
        using dumps_first by blast
      moreover have "kind_of_char CHR '']'' = KNone"
        by (simp add: kind_of_char_def quote_char_def is_digit_char_def)
      ultimately show ?thesis by (cases x) (auto split: if_splits)
    qed
  qed (use JArr j' in auto)
  with j' show ?case by simp
next
  case (JObj kvs)
  then obtain ls where j': "j' = JObj ls"
    using dumps_same_kind[OF JObj(4)] by (cases j') (auto split: if_splits)
  let ?g = "map_prod id json_canon :: string \<times> json \<Rightarrow> string \<times> json"
  have "map ?g (sort_key fst kvs) = map ?g (sort_key fst ls) \<and> r = r'"
  proof (rule joined_inj[where f = "json_pair isep ksep" and cl = "CHR ''}''", OF _ _ sep])
    fix p q s t
    assume p: "p \<in> set (sort_key fst kvs)" and nd: "no_digit s" "no_digit t"
      and e: "json_pair isep ksep p @ s = json_pair isep ksep q @ t"
    have "json_str (fst p) @ ksep @ json_dumps isep ksep (snd p) @ s
        = json_str (fst q) @ ksep @ json_dumps isep ksep (snd q) @ t"
      using e by (simp add: json_pair_def)
    then have "fst p = fst q" and "json_dumps isep ksep (snd p) @ s = json_dumps isep ksep (snd q) @ t"
      by (auto dest: json_str_inj)
    moreover have "p \<in> set kvs" using p by simp
    moreover have "snd p \<in> Basic_BNFs.snds p" by (cases p) simp
    ultimately show "?g p = ?g q \<and> s = t"
      using JObj.IH[of p "snd p" s t "snd q"] nd by (simp add: prod_eq_iff)
  next
    show "\<exists>c s. json_pair isep ksep x = c # s \<and> c \<noteq> CHR ''}''" for x
      by (simp add: json_pair_def json_str_def quote_char_def)
  qed (use JObj j' in \<open>auto simp: json_dumps_obj simp del: json_dumps.simps\<close>)
  with j' show ?case by (simp add: sort_key_map_prod)
qed

text \<open>Two values with the same encoding agree up to the order of object keys.\<close>

lemma dumps_default_inj: "dumps_default j = dumps_default j' \<Longrightarrow> json_canon j = json_canon j'"
  using json_dumps_append_inj[of "'', ''" "'' ''" "[]" "[]" "'': ''" j j'] by simp

lemma dumps_compact_inj: "dumps_compact j = dumps_compact j' \<Longrightarrow> json_canon j = json_canon j'"
  using json_dumps_append_inj[of "'',''" "[]" "[]" "[]" "'':''" j j'] by simp
end
