(* ===== verification/Py_Decimal.thy ===== *)
theory Py_Decimal
  imports Py_Prelude Complex_Main
begin

text \<open>
  Finite values of \<open>decimal.Decimal\<close> in the default context (28 significant digits,
  \<open>ROUND_HALF_EVEN\<close>): a signed coefficient and an exponent, so that \<open>1.0\<close> and \<open>1.00\<close> differ (their
  strings differ) but compare equal.  The special values (NaN, the infinities, the negative zero)
  and the exponent limits of the context are not modelled.
\<close>

datatype decimal = Dec (dec_coeff: int) (dec_exp: int)

definition dec_prec :: nat where "dec_prec = 28"

definition dec_zero :: decimal where "dec_zero = Dec 0 0"

text \<open>The rational number a decimal stands for.\<close>

definition dec_val :: "decimal \<Rightarrow> rat" where
  "dec_val d = of_int (dec_coeff d) * 10 powi dec_exp d"

section \<open>Comparison\<close>

definition dec_at :: "decimal \<Rightarrow> int \<Rightarrow> int" where
  "dec_at d m = dec_coeff d * 10 ^ nat (dec_exp d - m)"

definition dec_le :: "decimal \<Rightarrow> decimal \<Rightarrow> bool" where
  "dec_le a b = (let m = min (dec_exp a) (dec_exp b) in dec_at a m \<le> dec_at b m)"

definition dec_less :: "decimal \<Rightarrow> decimal \<Rightarrow> bool" where
  "dec_less a b = (let m = min (dec_exp a) (dec_exp b) in dec_at a m < dec_at b m)"

definition dec_eq :: "decimal \<Rightarrow> decimal \<Rightarrow> bool" where
  "dec_eq a b = (let m = min (dec_exp a) (dec_exp b) in dec_at a m = dec_at b m)"

lemma dec_val_at: "m \<le> dec_exp d \<Longrightarrow> dec_val d = of_int (dec_at d m) * 10 powi m"
proof -
  assume m: "m \<le> dec_exp d"
  have "(10 :: rat) powi dec_exp d = 10 powi (dec_exp d - m) * 10 powi m"
    using power_int_add[of "10 :: rat" "dec_exp d - m" m] by simp
  moreover have "(10 :: rat) powi (dec_exp d - m) = 10 ^ nat (dec_exp d - m)"
    using m by (simp add: power_int_def)
  ultimately show ?thesis by (simp add: dec_val_def dec_at_def)
qed

lemma dec_order_val:
  "dec_le a b \<longleftrightarrow> dec_val a \<le> dec_val b"
  "dec_less a b \<longleftrightarrow> dec_val a < dec_val b"
  "dec_eq a b \<longleftrightarrow> dec_val a = dec_val b"
proof -
  let ?m = "min (dec_exp a) (dec_exp b)"
  have *: "dec_val a = of_int (dec_at a ?m) * 10 powi ?m" "dec_val b = of_int (dec_at b ?m) * 10 powi ?m"
    by (rule dec_val_at, simp)+
  have pos: "(0 :: rat) < 10 powi ?m" by (simp add: zero_less_power_int)
  show "dec_le a b \<longleftrightarrow> dec_val a \<le> dec_val b"
    unfolding * using pos by (simp add: dec_le_def Let_def mult_le_cancel_right_pos)
  show "dec_less a b \<longleftrightarrow> dec_val a < dec_val b"
    unfolding * using pos by (simp add: dec_less_def Let_def mult_less_cancel_right_pos)
  show "dec_eq a b \<longleftrightarrow> dec_val a = dec_val b"
    unfolding * using pos by (simp add: dec_eq_def Let_def)
qed

lemma dec_not_less [simp]: "\<not> dec_less a b \<longleftrightarrow> dec_le b a"
  by (simp add: dec_order_val not_less)

lemma dec_le_trans: "dec_le a b \<Longrightarrow> dec_le b c \<Longrightarrow> dec_le a c"
  by (simp add: dec_order_val)

lemma dec_le_refl [simp]: "dec_le a a"
  by (simp add: dec_order_val)

section \<open>Arithmetic\<close>

definition ndigits :: "int \<Rightarrow> nat" where
  "ndigits n = length (digits_str n)"

text \<open>Division of non-negative integers rounded to nearest, ties to even.\<close>

definition rhe_div :: "int \<Rightarrow> int \<Rightarrow> int" where
  "rhe_div n d = (let q = n div d; r = n mod d
     in if 2 * r < d \<or> 2 * r = d \<and> even q then q else q + 1)"

text \<open>\<open>_fix\<close>: an exact result rounded to the context's precision.\<close>

definition dec_fix :: "int \<Rightarrow> int \<Rightarrow> decimal" where
  "dec_fix c e =
     (let n = ndigits \<bar>c\<bar>
      in if n \<le> dec_prec then Dec c e
         else let k = n - dec_prec; q = rhe_div \<bar>c\<bar> (10 ^ k)
              in if q = 10 ^ dec_prec then Dec (sgn c * 10 ^ (dec_prec - 1)) (e + int k + 1)
                 else Dec (sgn c * q) (e + int k))"

definition dec_add :: "decimal \<Rightarrow> decimal \<Rightarrow> decimal" where
  "dec_add a b = (let m = min (dec_exp a) (dec_exp b) in dec_fix (dec_at a m + dec_at b m) m)"

definition dec_neg :: "decimal \<Rightarrow> decimal" where
  "dec_neg d = Dec (- dec_coeff d) (dec_exp d)"

definition dec_sub :: "decimal \<Rightarrow> decimal \<Rightarrow> decimal" where
  "dec_sub a b = dec_add a (dec_neg b)"

text \<open>
  \<open>quantize(Decimal(1).scaleb(-places))\<close>: rescaling to a number of places, half to even; a
  coefficient longer than the precision raises \<open>InvalidOperation\<close>.
\<close>

definition dec_quantize :: "decimal \<Rightarrow> nat \<Rightarrow> decimal py" where
  "dec_quantize d places =
     (let e = - int places;
          a = \<bar>dec_coeff d\<bar>;
          q = (if e \<le> dec_exp d then a * 10 ^ nat (dec_exp d - e)
               else rhe_div a (10 ^ nat (e - dec_exp d)))
      in if ndigits q > dec_prec then Inl InvalidOperation
         else Inr (Dec (sgn (dec_coeff d) * q) e))"

text \<open>A sum whose exact value fits the precision is exact.\<close>

lemma ndigits_le: "0 < k \<Longrightarrow> n < 10 ^ k \<Longrightarrow> ndigits n \<le> k"
proof (induction k arbitrary: n)
  case (Suc k)
  show ?case
  proof (cases "n < 10")
    case True
    then show ?thesis by (simp add: ndigits_def digits_str.simps[of n])
  next
    case False
    with Suc.prems have k: "0 < k" by (cases k) auto
    have "n < 10 * x \<Longrightarrow> n div 10 < x" for x :: int by presburger
    with Suc.prems have "n div 10 < 10 ^ k" by simp
    with Suc.IH k have "ndigits (n div 10) \<le> k" by blast
    with False show ?thesis by (simp add: ndigits_def digits_str.simps[of n])
  qed
qed simp

definition dec_fits :: "decimal \<Rightarrow> decimal \<Rightarrow> bool" where
  "dec_fits a b \<longleftrightarrow> (let m = min (dec_exp a) (dec_exp b) in \<bar>dec_at a m + dec_at b m\<bar> < 10 ^ dec_prec)"

lemma dec_add_exact:
  assumes "dec_fits a b"
  shows "dec_val (dec_add a b) = dec_val a + dec_val b"
proof -
  let ?m = "min (dec_exp a) (dec_exp b)"
  let ?c = "dec_at a ?m + dec_at b ?m"
  have "\<bar>?c\<bar> < 10 ^ dec_prec"
    using assms by (simp add: dec_fits_def Let_def)
  then have "ndigits \<bar>?c\<bar> \<le> dec_prec"
    by (intro ndigits_le) (simp_all add: dec_prec_def)
  then have "dec_add a b = Dec ?c ?m"
    by (simp add: dec_add_def dec_fix_def Let_def)
  then show ?thesis
    using dec_val_at[of ?m a] dec_val_at[of ?m b] by (simp add: dec_val_def algebra_simps)
qed

section \<open>\<open>str(d)\<close>\<close>

definition dec_str :: "decimal \<Rightarrow> string" where
  "dec_str d =
     (let digits = digits_str \<bar>dec_coeff d\<bar>;
          sign = (if dec_coeff d < 0 then ''-'' else []);
          leftdigits = dec_exp d + int (length digits);
          dotplace = (if dec_exp d \<le> 0 \<and> - 6 < leftdigits then leftdigits else 1);
          body = (if dotplace \<le> 0 then ''0.'' @ replicate (nat (- dotplace)) CHR ''0'' @ digits
                  else if int (length digits) \<le> dotplace
                  then digits @ replicate (nat (dotplace - int (length digits))) CHR ''0''
                  else take (nat dotplace) digits @ ''.'' @ drop (nat dotplace) digits);
          ex = leftdigits - dotplace
      in sign @ body @ (if ex = 0 then [] else ''E'' @ (if 0 \<le> ex then ''+'' else []) @ int_str ex))"

end
