(* ===== verification/Tx_Ledger.thy ===== *)
theory Tx_Ledger
  imports Tx_State Py_Json Py_Decimal
begin

text \<open>
  \<open>skills/financial/core/transaction_ledger.py\<close>: the append-only double-entry ledger.  The state
  keeps the latest entry of every transaction, all entries in order, and the transitions of every
  transaction.
\<close>

record tx_entry =
  te_tx_id :: string
  te_idem_key :: string
  te_tenant_id :: string
  te_debit :: string
  te_credit :: string
  te_amount :: decimal
  te_currency :: string
  te_state :: tx_state
  te_provider :: string
  te_provider_tx_id :: string
  te_approval_id :: string
  te_proof_hash :: string
  te_audit_ref :: string
  te_description :: string
  te_created_at :: string
  te_updated_at :: string
  te_metadata :: "(string \<times> json) list"

record tx_ledger =
  lg_entries :: "(string, tx_entry) pydict"
  lg_history :: "tx_entry list"
  lg_transitions :: "(string, tx_transition list) pydict"

definition ledger_init :: tx_ledger where
  "ledger_init = \<lparr>lg_entries = [], lg_history = [], lg_transitions = []\<rparr>"

definition proof_content ::
  "string \<Rightarrow> string \<Rightarrow> string \<Rightarrow> string \<Rightarrow> decimal \<Rightarrow> string \<Rightarrow> string" where
  "proof_content tx_id tenant_id debit_account credit_account amount currency =
     py_join '':'' [tx_id, tenant_id, debit_account, credit_account, dec_str amount, currency]"

definition ledger_create ::
  "tx_ledger \<Rightarrow> string \<Rightarrow> string \<Rightarrow> string \<Rightarrow> string \<Rightarrow> string \<Rightarrow> decimal \<Rightarrow> string \<Rightarrow> string
    \<Rightarrow> string \<Rightarrow> string \<Rightarrow> (tx_error + tx_entry) \<times> tx_ledger" where
  "ledger_create l tx_id idempotency_key tenant_id debit_account credit_account amount currency
     provider description created_at =
     (if dict_get (lg_entries l) tx_id \<noteq> None then (Inl (TxExists tx_id), l)
      else
        let entry = \<lparr>te_tx_id = tx_id, te_idem_key = idempotency_key, te_tenant_id = tenant_id,
              te_debit = debit_account, te_credit = credit_account, te_amount = amount,
              te_currency = currency, te_state = CREATED, te_provider = provider,
              te_provider_tx_id = [], te_approval_id = [],
              te_proof_hash = sha256_hex
                (proof_content tx_id tenant_id debit_account credit_account amount currency),
              te_audit_ref = [], te_description = description, te_created_at = created_at,
              te_updated_at = created_at, te_metadata = []\<rparr>
        in (Inr entry,
            l\<lparr>lg_entries := dict_set tx_id entry (lg_entries l),
              lg_history := lg_history l @ [entry],
              lg_transitions := dict_set tx_id [] (lg_transitions l)\<rparr>))"

definition ledger_advance ::
  "tx_ledger \<Rightarrow> string \<Rightarrow> tx_state \<Rightarrow> string \<Rightarrow> string \<Rightarrow> string \<Rightarrow> string \<Rightarrow> string
    \<Rightarrow> (tx_error + tx_entry) \<times> tx_ledger" where
  "ledger_advance l tx_id to_state reason actor_id timestamp provider_tx_id approval_record_id =
     (case dict_get (lg_entries l) tx_id of
        None \<Rightarrow> (Inl (TxNotFound tx_id), l)
      | Some current \<Rightarrow>
          (case transition (te_state current) to_state reason actor_id timestamp of
             Inl e \<Rightarrow> (Inl e, l)
           | Inr t \<Rightarrow>
               (case dict_get (lg_transitions l) tx_id of
                  None \<Rightarrow> (Inl (TxKeyError tx_id), l)
                | Some ts \<Rightarrow>
                    let updated = current\<lparr>te_state := to_state,
                          te_provider_tx_id := str_or provider_tx_id (te_provider_tx_id current),
                          te_approval_id := str_or approval_record_id (te_approval_id current),
                          te_updated_at := timestamp\<rparr>
                    in (Inr updated,
                        l\<lparr>lg_entries := dict_set tx_id updated (lg_entries l),
                          lg_history := lg_history l @ [updated],
                          lg_transitions := dict_set tx_id (ts @ [t]) (lg_transitions l)\<rparr>))))"

definition ledger_get :: "tx_ledger \<Rightarrow> string \<Rightarrow> tx_entry option" where
  "ledger_get l tx_id = dict_get (lg_entries l) tx_id"

definition get_transitions :: "tx_ledger \<Rightarrow> string \<Rightarrow> tx_transition list" where
  "get_transitions l tx_id =
     (case dict_get (lg_transitions l) tx_id of None \<Rightarrow> [] | Some ts \<Rightarrow> ts)"

definition ledger_query :: "tx_ledger \<Rightarrow> string \<Rightarrow> tx_state option \<Rightarrow> int \<Rightarrow> tx_entry list" where
  "ledger_query l tenant_id state limit =
     (let results = dict_values (lg_entries l);
          results = (if tenant_id \<noteq> [] then filter (\<lambda>e. te_tenant_id e = tenant_id) results else results);
          results = (case state of None \<Rightarrow> results | Some s \<Rightarrow> filter (\<lambda>e. te_state e = s) results)
      in py_tail limit results)"

definition transaction_count :: "tx_ledger \<Rightarrow> nat" where
  "transaction_count l = length (lg_entries l)"

definition entry_count :: "tx_ledger \<Rightarrow> nat" where
  "entry_count l = length (lg_history l)"

text \<open>A dictionary of counters, in the order in which the keys were first seen.\<close>

definition state_counts :: "tx_ledger \<Rightarrow> (string, nat) pydict" where
  "state_counts l = fold (\<lambda>e. dict_bump (tx_value (te_state e))) (dict_values (lg_entries l)) []"

section \<open>Well-formed ledgers\<close>

text \<open>
  The transitions of a transaction are a legal path from \<open>CREATED\<close> to its current state, each
  starting where the one before ended.
\<close>

fun tx_chain :: "tx_state \<Rightarrow> tx_transition list \<Rightarrow> tx_state \<Rightarrow> bool" where
  "tx_chain s [] t \<longleftrightarrow> s = t"
| "tx_chain s (x # xs) t \<longleftrightarrow>
     tr_from x = s \<and> validate_transition s (tr_to x) \<and> tx_chain (tr_to x) xs t"

definition ledger_inv :: "tx_ledger \<Rightarrow> bool" where
  "ledger_inv l \<longleftrightarrow> wf_dict (lg_entries l) \<and> wf_dict (lg_transitions l) \<and>
     (\<forall>k e. dict_get (lg_entries l) k = Some e \<longrightarrow>
        te_tx_id e = k \<and> e \<in> set (lg_history l) \<and>
        te_proof_hash e = sha256_hex (proof_content k (te_tenant_id e) (te_debit e) (te_credit e)
                                       (te_amount e) (te_currency e)) \<and>
        (\<exists>ts. dict_get (lg_transitions l) k = Some ts \<and> tx_chain CREATED ts (te_state e)))"

lemma tx_chain_snoc: "tx_chain s (xs @ [x]) t \<longleftrightarrow>
    tx_chain s xs (tr_from x) \<and> validate_transition (tr_from x) (tr_to x) \<and> t = tr_to x"
  by (induction xs arbitrary: s) auto

lemma tx_chain_path:
  "tx_chain s ts t \<Longrightarrow> legal_path validate_transition s (map tr_to ts) \<and> last (s # map tr_to ts) = t"
  by (induction ts arbitrary: s) auto

lemma ledger_inv_init [simp]: "ledger_inv ledger_init"
  by (simp add: ledger_inv_def ledger_init_def)

lemma ledger_create_inv: "ledger_inv l \<Longrightarrow>
    ledger_inv (snd (ledger_create l tid ik ten d c a cur p desc cat))"
  by (auto simp: ledger_inv_def ledger_create_def Let_def)

text \<open>The one way in which an advance succeeds, and what it changes.\<close>

lemma ledger_advance_Inr:
  assumes "ledger_advance l k s r a ts p ap = (Inr e', l')"
  obtains e trs where "ledger_get l k = Some e" and "validate_transition (te_state e) s"
    and "e' = e\<lparr>te_state := s, te_provider_tx_id := str_or p (te_provider_tx_id e),
                te_approval_id := str_or ap (te_approval_id e), te_updated_at := ts\<rparr>"
    and "dict_get (lg_transitions l) k = Some trs"
    and "l' = l\<lparr>lg_entries := dict_set k e' (lg_entries l), lg_history := lg_history l @ [e'],
           lg_transitions := dict_set k (trs @ [\<lparr>tr_from = te_state e, tr_to = s, tr_reason = r,
             tr_actor = a, tr_at = ts\<rparr>]) (lg_transitions l)\<rparr>"
  using assms
  by (auto simp: ledger_advance_def ledger_get_def Let_def transition_Inr
           split: option.splits sum.splits)

lemma ledger_advance_Inl: "ledger_advance l k s r a ts p ap = (Inl x, l') \<Longrightarrow> l' = l"
  by (auto simp: ledger_advance_def Let_def split: option.splits sum.splits)

lemma ledger_advance_inv:
  assumes inv: "ledger_inv l"
  shows "ledger_inv (snd (ledger_advance l k s r a ts p ap))"
proof (cases "ledger_advance l k s r a ts p ap")
  case (Pair res l')
  show ?thesis
  proof (cases res)
    case (Inl x)
    with Pair inv show ?thesis by (auto dest: ledger_advance_Inl)
  next
    case (Inr e')
    with Pair obtain e trs where *: "ledger_get l k = Some e" "validate_transition (te_state e) s"
      "dict_get (lg_transitions l) k = Some trs"
      and e': "e' = e\<lparr>te_state := s, te_provider_tx_id := str_or p (te_provider_tx_id e),
                te_approval_id := str_or ap (te_approval_id e), te_updated_at := ts\<rparr>"
      and l': "l' = l\<lparr>lg_entries := dict_set k e' (lg_entries l), lg_history := lg_history l @ [e'],
           lg_transitions := dict_set k (trs @ [\<lparr>tr_from = te_state e, tr_to = s, tr_reason = r,
             tr_actor = a, tr_at = ts\<rparr>]) (lg_transitions l)\<rparr>"
      by (auto elim: ledger_advance_Inr)
    have "tx_chain CREATED trs (te_state e)"
      using inv *(1,3) by (fastforce simp: ledger_inv_def ledger_get_def)
    then show ?thesis
      using inv * unfolding Pair l' e' ledger_get_def ledger_inv_def
      by (auto simp: tx_chain_snoc)
  qed
qed

text \<open>An advance that the lifecycle allows succeeds on a well-formed ledger.\<close>

lemma ledger_advance_ok:
  assumes "ledger_inv l" and "ledger_get l k = Some e" and "validate_transition (te_state e) s"
  shows "\<exists>e' l'. ledger_advance l k s r a ts p ap = (Inr e', l')"
proof -
  from assms obtain trs where "dict_get (lg_transitions l) k = Some trs"
    by (auto simp: ledger_inv_def ledger_get_def)
  with assms show ?thesis
    using tx.terminal_stuck[of "te_state e" s]
    by (auto simp: ledger_advance_def ledger_get_def transition_def Let_def)
qed

lemma ledger_get_create:
  "ledger_create l tid ik ten d c a cur p desc cat = (Inr e, l') \<Longrightarrow>
     ledger_get l' k = (if k = tid then Some e else ledger_get l k) \<and> ledger_get l tid = None \<and>
     te_state e = CREATED \<and> te_idem_key e = ik \<and> te_tx_id e = tid \<and> te_tenant_id e = ten \<and>
     te_amount e = a \<and> te_currency e = cur \<and> te_provider_tx_id e = [] \<and> te_description e = desc"
  by (auto simp: ledger_create_def ledger_get_def Let_def split: if_splits)

lemma ledger_get_advance:
  assumes "ledger_advance l k s r a ts p ap = (Inr e', l')"
  shows "ledger_get l' k' = (if k' = k then Some e' else ledger_get l k')"
  using assms by (auto elim!: ledger_advance_Inr simp: ledger_get_def)

end
