(* ===== verification/Idempotency.thy ===== *)
theory Idempotency
  imports Py_Json
begin

text \<open>
  \<open>skills/financial/core/idempotency.py\<close>: the idempotency key of a request and the in-memory store
  of keys.  The cached result of a completed key is of any type \<open>'r\<close>.
\<close>

datatype idempotency_status = IdemNew | IdemCompleted | IdemInFlight | IdemExpired

record 'r idempotency_record =
  ir_key :: string
  ir_status :: idempotency_status
  ir_result :: "'r option"
  ir_created_at :: string
  ir_completed_at :: string

type_synonym 'r idempotency_store = "(string, 'r idempotency_record) pydict"

definition compute_key ::
  "string \<Rightarrow> string \<Rightarrow> string \<Rightarrow> string \<Rightarrow> string \<Rightarrow> string \<Rightarrow> string" where
  "compute_key tenant_id action destination amount currency reference =
     ''idem-'' @ take 24 (sha256_hex
       (py_join '':'' [tenant_id, action, destination, amount, currency, reference]))"

definition MAX_RECORDS :: nat where "MAX_RECORDS = 100000"

definition idem_check :: "'r idempotency_store \<Rightarrow> string \<Rightarrow> 'r idempotency_record option" where
  "idem_check st key = dict_get st key"

definition mark_in_flight ::
  "'r idempotency_store \<Rightarrow> string \<Rightarrow> string \<Rightarrow> 'r idempotency_record py \<times> 'r idempotency_store" where
  "mark_in_flight st key created_at =
     (let proceed =
        (let st' = (if MAX_RECORDS \<le> length st then tl st else st);
             rec = \<lparr>ir_key = key, ir_status = IdemInFlight, ir_result = None,
                    ir_created_at = created_at, ir_completed_at = []\<rparr>
         in (Inr rec, dict_set key rec st'))
      in case idem_check st key of
           None \<Rightarrow> proceed
         | Some existing \<Rightarrow>
             (if ir_status existing = IdemInFlight
              then (Inl (ValueError (''idempotency key '' @ key @ '' already in-flight'')), st)
              else if ir_status existing = IdemCompleted
              then (Inl (ValueError (''idempotency key '' @ key @ '' already completed'')), st)
              else proceed))"

definition mark_completed ::
  "'r idempotency_store \<Rightarrow> string \<Rightarrow> 'r \<Rightarrow> string \<Rightarrow> 'r idempotency_record \<times> 'r idempotency_store" where
  "mark_completed st key result completed_at =
     (let rec = \<lparr>ir_key = key, ir_status = IdemCompleted, ir_result = Some result,
            ir_created_at = (case idem_check st key of None \<Rightarrow> completed_at
                             | Some existing \<Rightarrow> ir_created_at existing),
            ir_completed_at = completed_at\<rparr>
      in (rec, dict_set key rec st))"

definition mark_failed :: "'r idempotency_store \<Rightarrow> string \<Rightarrow> 'r idempotency_store" where
  "mark_failed st key = dict_pop key st"

definition record_count :: "'r idempotency_store \<Rightarrow> nat" where
  "record_count st = length st"

section \<open>What the store promises\<close>

definition idem_inv :: "'r idempotency_store \<Rightarrow> bool" where
  "idem_inv st \<longleftrightarrow> wf_dict st \<and>
     (\<forall>k r. dict_get st k = Some r \<longrightarrow> ir_key r = k \<and>
        (ir_status r = IdemInFlight \<and> ir_result r = None \<or>
         ir_status r = IdemCompleted \<and> ir_result r \<noteq> None))"

text \<open>A key that is in the store, in flight or completed, refuses a second start.\<close>

lemma mark_in_flight_Inl_iff:
  assumes "idem_inv st"
  shows "(\<exists>e. fst (mark_in_flight st k t) = Inl e) \<longleftrightarrow> idem_check st k \<noteq> None"
  using assms
  by (auto simp: mark_in_flight_def idem_inv_def idem_check_def Let_def split: option.splits)

lemma mark_in_flight_Inr:
  assumes "mark_in_flight st k t = (Inr r, st')" and "idem_inv st"
  shows "idem_check st k = None \<and> r = \<lparr>ir_key = k, ir_status = IdemInFlight, ir_result = None,
           ir_created_at = t, ir_completed_at = []\<rparr> \<and>
         st' = dict_set k r (if MAX_RECORDS \<le> length st then tl st else st)"
  using assms
  by (auto simp: mark_in_flight_def idem_inv_def idem_check_def Let_def
           split: option.splits if_splits)

lemma wf_dict_tl: "wf_dict st \<Longrightarrow> wf_dict (tl st)"
  by (cases st) (auto simp: wf_dict_def)

lemma dict_get_tl: "wf_dict st \<Longrightarrow> dict_get (tl st) k = Some r \<Longrightarrow> dict_get st k = Some r"
  by (cases st) (auto simp: wf_dict_def rev_image_eqI dest: map_of_SomeD)

lemma mark_in_flight_inv:
  assumes "idem_inv st"
  shows "idem_inv (snd (mark_in_flight st k t))"
proof (cases "mark_in_flight st k t")
  case (Pair res st')
  show ?thesis
  proof (cases res)
    case (Inl e)
    then have "st' = st"
      using Pair by (auto simp: mark_in_flight_def Let_def split: option.splits if_splits)
    with Pair assms show ?thesis by simp
  next
    case (Inr r)
    with Pair assms mark_in_flight_Inr[of st k t r st'] show ?thesis
      by (auto simp: idem_inv_def wf_dict_tl dest: dict_get_tl)
  qed
qed

lemma mark_completed_inv: "idem_inv st \<Longrightarrow> idem_inv (snd (mark_completed st k r t))"
  by (auto simp: idem_inv_def mark_completed_def Let_def)

lemma mark_failed_inv: "idem_inv st \<Longrightarrow> idem_inv (mark_failed st k)"
  by (auto simp: idem_inv_def mark_failed_def)

lemma mark_in_flight_bound:
  assumes "idem_inv st" and "record_count st \<le> MAX_RECORDS"
  shows "record_count (snd (mark_in_flight st k t)) \<le> MAX_RECORDS"
proof (cases "mark_in_flight st k t")
  case (Pair res st')
  show ?thesis
  proof (cases res)
    case (Inl e)
    then have "st' = st"
      using Pair by (auto simp: mark_in_flight_def Let_def split: option.splits if_splits)
    with Pair assms show ?thesis by simp
  next
    case (Inr r)
    with Pair assms mark_in_flight_Inr[of st k t r st'] show ?thesis
      by (auto simp: record_count_def length_dict_set MAX_RECORDS_def)
  qed
qed

section \<open>What the key stands for\<close>

text \<open>
  Two different requests without a colon in their fields are keyed by different texts, so that
  they share a key exactly when these texts are a collision of the truncated SHA-256.
\<close>

theorem compute_key_collision:
  assumes "\<forall>x \<in> set [t, act, d, a, c, r, t', act', d', a', c', r']. CHR '':'' \<notin> set x"
    and "[t, act, d, a, c, r] \<noteq> [t', act', d', a', c', r']"
  shows "py_join '':'' [t, act, d, a, c, r] \<noteq> py_join '':'' [t', act', d', a', c', r'] \<and>
    (compute_key t act d a c r = compute_key t' act' d' a' c' r' \<longleftrightarrow>
     take 24 (sha256_hex (py_join '':'' [t, act, d, a, c, r])) =
     take 24 (sha256_hex (py_join '':'' [t', act', d', a', c', r'])))"
proof -
  let ?x = "[t, act, d, a, c, r]" and ?y = "[t', act', d', a', c', r']"
  have "py_split CHR '':'' (py_join '':'' ?x) = ?x" "py_split CHR '':'' (py_join '':'' ?y) = ?y"
    using assms(1) by (intro py_split_join; simp)+
  with assms(2) have "py_join '':'' ?x \<noteq> py_join '':'' ?y" by metis
  then show ?thesis by (simp add: compute_key_def del: py_join.simps)
qed

theorem compute_key_collision_witness:
  "compute_key ''acme'' ''send_payment'' ''v'' ''60'' ''USD'' [] =
     compute_key ''acme'' ''send_payment'' ''w'' ''60'' ''USD'' [] \<longleftrightarrow>
   take 24 (sha256_hex ''acme:send_payment:v:60:USD:'') =
     take 24 (sha256_hex ''acme:send_payment:w:60:USD:'')"
  using compute_key_collision[of "''acme''" "''send_payment''" "''v''" "''60''" "''USD''" "[]"
      "''acme''" "''send_payment''" "''w''" "''60''" "''USD''" "[]"] by simp

text \<open>
  The fields are joined without escaping, so with a colon in a field the requests of two tenants
  can share a key: the tenant \<open>a\<close> paying \<open>b:send_payment:c\<close> and the tenant \<open>a:send_payment:b\<close>
  paying \<open>c\<close>.
\<close>

theorem compute_key_ambiguous:
  "compute_key ''a'' ''send_payment'' ''b:send_payment:c'' amount currency reference =
   compute_key ''a:send_payment:b'' ''send_payment'' ''c'' amount currency reference"
  by (simp add: compute_key_def)

end
