(* ===== verification/Spend_Budget.thy ===== *)
theory Spend_Budget
  imports Py_Decimal
begin

text \<open>
  \<open>skills/financial/core/spend_budget.py\<close>: real-money budgets per tenant, checked before a provider
  is called.  The manager is a dictionary from tenants to budgets; a clock, when it has one, is the
  reading \<open>now\<close> passed to \<open>check\<close>.
\<close>

record spend_budget =
  sb_budget_id :: string
  sb_tenant_id :: string
  sb_currency :: string
  sb_per_tx_limit :: decimal
  sb_daily_limit :: decimal
  sb_weekly_limit :: decimal
  sb_monthly_limit :: decimal
  sb_today :: decimal
  sb_week :: decimal
  sb_month :: decimal
  sb_last_reset_at :: string

record spend_check_result =
  sc_allowed :: bool
  sc_reason :: string
  sc_budget_id :: string
  sc_remaining_daily :: decimal
  sc_remaining_monthly :: decimal

type_synonym spend_mgr = "(string, spend_budget) pydict"

definition spend_register :: "spend_mgr \<Rightarrow> spend_budget \<Rightarrow> spend_mgr" where
  "spend_register m b = dict_set (sb_tenant_id b) b m"

definition spend_get :: "spend_mgr \<Rightarrow> string \<Rightarrow> spend_budget option" where
  "spend_get m tenant_id = dict_get m tenant_id"

definition maybe_reset :: "spend_mgr \<Rightarrow> spend_budget \<Rightarrow> string \<Rightarrow> spend_budget \<times> spend_mgr" where
  "maybe_reset m budget now =
     (if now = [] \<or> sb_last_reset_at budget = [] then (budget, m)
      else if take 10 now = take 10 (sb_last_reset_at budget) then (budget, m)
      else
        let new_month = (take 7 now \<noteq> take 7 (sb_last_reset_at budget));
            updated = budget\<lparr>sb_today := dec_zero,
              sb_week := (if new_month then dec_zero else sb_week budget),
              sb_month := (if new_month then dec_zero else sb_month budget),
              sb_last_reset_at := now\<rparr>
        in (updated, dict_set (sb_tenant_id budget) updated m))"

definition spend_denied :: "string \<Rightarrow> string \<Rightarrow> spend_check_result" where
  "spend_denied reason budget_id = \<lparr>sc_allowed = False, sc_reason = reason,
     sc_budget_id = budget_id, sc_remaining_daily = dec_zero, sc_remaining_monthly = dec_zero\<rparr>"

definition check_limits :: "spend_budget \<Rightarrow> decimal \<Rightarrow> string \<Rightarrow> spend_check_result" where
  "check_limits budget amount currency =
     (if currency \<noteq> sb_currency budget
      then spend_denied (''currency mismatch: budget is '' @ sb_currency budget
             @ '', request is '' @ currency) (sb_budget_id budget)
      else if dec_less (sb_per_tx_limit budget) amount
      then spend_denied (''per-transaction limit exceeded: '' @ dec_str amount @ '' > ''
             @ dec_str (sb_per_tx_limit budget)) (sb_budget_id budget)
      else if dec_less (sb_daily_limit budget) (dec_add (sb_today budget) amount)
      then (spend_denied (''daily limit would be exceeded: '' @ dec_str (sb_today budget) @ '' + ''
             @ dec_str amount @ '' > '' @ dec_str (sb_daily_limit budget)) (sb_budget_id budget))
             \<lparr>sc_remaining_daily := dec_sub (sb_daily_limit budget) (sb_today budget)\<rparr>
      else if dec_less (sb_weekly_limit budget) (dec_add (sb_week budget) amount)
      then spend_denied ''weekly limit would be exceeded'' (sb_budget_id budget)
      else if dec_less (sb_monthly_limit budget) (dec_add (sb_month budget) amount)
      then (spend_denied ''monthly limit would be exceeded'' (sb_budget_id budget))
             \<lparr>sc_remaining_monthly := dec_sub (sb_monthly_limit budget) (sb_month budget)\<rparr>
      else \<lparr>sc_allowed = True, sc_reason = [], sc_budget_id = sb_budget_id budget,
            sc_remaining_daily = dec_sub (dec_sub (sb_daily_limit budget) (sb_today budget)) amount,
            sc_remaining_monthly =
              dec_sub (dec_sub (sb_monthly_limit budget) (sb_month budget)) amount\<rparr>)"

definition spend_check ::
  "spend_mgr \<Rightarrow> string option \<Rightarrow> string \<Rightarrow> decimal \<Rightarrow> string \<Rightarrow> spend_check_result \<times> spend_mgr" where
  "spend_check m now tenant_id amount currency =
     (case dict_get m tenant_id of
        None \<Rightarrow> (spend_denied ''no spend budget registered'' [], m)
      | Some b \<Rightarrow>
          (let (budget, m') = (case now of None \<Rightarrow> (b, m) | Some t \<Rightarrow> maybe_reset m b t)
           in (check_limits budget amount currency, m')))"

definition record_spend :: "spend_mgr \<Rightarrow> string \<Rightarrow> decimal \<Rightarrow> spend_budget py \<times> spend_mgr" where
  "record_spend m tenant_id amount =
     (case dict_get m tenant_id of
        None \<Rightarrow> (Inl (ValueError (''no spend budget for tenant '' @ tenant_id)), m)
      | Some budget \<Rightarrow>
          (let updated = budget\<lparr>sb_today := dec_add (sb_today budget) amount,
                 sb_week := dec_add (sb_week budget) amount,
                 sb_month := dec_add (sb_month budget) amount\<rparr>
           in (Inr updated, dict_set tenant_id updated m)))"

section \<open>What a check means\<close>

text \<open>The four limits, on the values the manager compares.\<close>

definition within_limits :: "spend_budget \<Rightarrow> decimal \<Rightarrow> string \<Rightarrow> bool" where
  "within_limits b amount currency \<longleftrightarrow>
     currency = sb_currency b \<and> dec_le amount (sb_per_tx_limit b) \<and>
     dec_le (dec_add (sb_today b) amount) (sb_daily_limit b) \<and>
     dec_le (dec_add (sb_week b) amount) (sb_weekly_limit b) \<and>
     dec_le (dec_add (sb_month b) amount) (sb_monthly_limit b)"

lemma dec_le_iff: "dec_le b a \<longleftrightarrow> \<not> dec_less a b"
  by simp

lemma check_limits_allowed: "sc_allowed (check_limits b a c) \<longleftrightarrow> within_limits b a c"
  by (simp add: check_limits_def within_limits_def spend_denied_def dec_le_iff del: dec_not_less)

definition within_budget :: "spend_budget \<Rightarrow> bool" where
  "within_budget b \<longleftrightarrow> dec_le (sb_today b) (sb_daily_limit b) \<and>
     dec_le (sb_week b) (sb_weekly_limit b) \<and> dec_le (sb_month b) (sb_monthly_limit b)"

definition spend_inv :: "spend_mgr \<Rightarrow> bool" where
  "spend_inv m \<longleftrightarrow> wf_dict m \<and> (\<forall>k b. dict_get m k = Some b \<longrightarrow> sb_tenant_id b = k)"

lemma maybe_reset_frame:
  "maybe_reset m b now = (b', m') \<Longrightarrow>
     sb_tenant_id b' = sb_tenant_id b \<and> sb_currency b' = sb_currency b \<and>
     sb_per_tx_limit b' = sb_per_tx_limit b \<and> sb_daily_limit b' = sb_daily_limit b \<and>
     sb_weekly_limit b' = sb_weekly_limit b \<and> sb_monthly_limit b' = sb_monthly_limit b \<and>
     (\<forall>k. k \<noteq> sb_tenant_id b \<longrightarrow> dict_get m' k = dict_get m k) \<and>
     (dict_get m (sb_tenant_id b) = Some b \<longrightarrow> dict_get m' (sb_tenant_id b) = Some b')"
  by (auto simp: maybe_reset_def Let_def split: if_splits)

lemma spend_check_inv: "spend_inv m \<Longrightarrow> spend_inv (snd (spend_check m now t a c))"
  by (auto simp: spend_inv_def spend_check_def maybe_reset_def Let_def
           split: option.splits if_splits)

lemma record_spend_inv: "spend_inv m \<Longrightarrow> spend_inv (snd (record_spend m t a))"
  by (auto simp: spend_inv_def record_spend_def Let_def split: option.splits)

text \<open>After a check the manager holds the budget the limits were compared with.\<close>

lemma spend_check_allowed:
  assumes "spend_check m now t a c = (r, m')" and "spend_inv m" and "sc_allowed r"
  obtains b where "dict_get m' t = Some b" and "within_limits b a c"
    and "\<And>k. k \<noteq> t \<Longrightarrow> dict_get m' k = dict_get m k"
proof -
  from assms obtain b where b: "dict_get m t = Some b"
    by (auto simp: spend_check_def spend_denied_def split: option.splits)
  with assms(2) have t: "sb_tenant_id b = t" by (auto simp: spend_inv_def)
  obtain b' m'' where r: "(case now of None \<Rightarrow> (b, m) | Some s \<Rightarrow> maybe_reset m b s) = (b', m'')"
    by fastforce
  with assms b have "m'' = m'" and "within_limits b' a c"
    by (auto simp: spend_check_def check_limits_allowed)
  moreover have "dict_get m'' t = Some b' \<and> (\<forall>k. k \<noteq> t \<longrightarrow> dict_get m'' k = dict_get m k)"
    using r b t maybe_reset_frame[of m b] by (auto split: option.splits)
  ultimately show thesis using that by blast
qed

section \<open>A sequence of spends\<close>

text \<open>A spend that is recorded when, and only when, its check allows it.\<close>

definition checked_spend ::
  "string option \<times> string \<times> decimal \<times> string \<Rightarrow> spend_mgr \<Rightarrow> spend_mgr" where
  "checked_spend req m = (case req of (now, t, a, c) \<Rightarrow>
     (let (r, m') = spend_check m now t a c
      in if sc_allowed r then snd (record_spend m' t a) else m'))"

definition budgets_ok :: "spend_mgr \<Rightarrow> bool" where
  "budgets_ok m \<longleftrightarrow> (\<forall>t b. dict_get m t = Some b \<longrightarrow> within_budget b \<and>
     dec_le dec_zero (sb_daily_limit b) \<and> dec_le dec_zero (sb_weekly_limit b) \<and>
     dec_le dec_zero (sb_monthly_limit b))"

lemma spend_check_budgets_ok:
  "spend_inv m \<Longrightarrow> budgets_ok m \<Longrightarrow> budgets_ok (snd (spend_check m now t a c))"
  by (auto simp: budgets_ok_def within_budget_def spend_check_def maybe_reset_def Let_def spend_inv_def
           split: option.splits if_splits)

lemma checked_spend_ok:
  assumes "spend_inv m" and "budgets_ok m"
  shows "spend_inv (checked_spend req m) \<and> budgets_ok (checked_spend req m)"
proof -
  obtain now t a c where req: "req = (now, t, a, c)" by (cases req)
  obtain r m' where ch: "spend_check m now t a c = (r, m')" by fastforce
  have inv: "spend_inv m'" and ok: "budgets_ok m'"
    using spend_check_inv[OF assms(1), of now t a c] spend_check_budgets_ok[OF assms, of now t a c] ch
    by simp_all
  show ?thesis
  proof (cases "sc_allowed r")
    case True
    obtain b where b: "dict_get m' t = Some b" and lim: "within_limits b a c"
      by (rule spend_check_allowed[OF ch assms(1) True])
    have "budgets_ok (snd (record_spend m' t a))"
      using ok lim b
      by (auto simp: budgets_ok_def record_spend_def Let_def within_budget_def within_limits_def)
    with record_spend_inv[OF inv, of t a] True ch show ?thesis by (simp add: checked_spend_def req)
  next
    case False
    with inv ok ch show ?thesis by (simp add: checked_spend_def req)
  qed
qed

text \<open>
  C5: When every spend is recorded right after the check that allowed it, with nothing in between, no sequence of spends, of
  any tenants and at any times, takes the day's, the week's or the month's total of a budget beyond
  its limit.
\<close>

theorem checked_spends_within_budget:
  assumes "spend_inv m" and "budgets_ok m" and "dict_get (fold checked_spend reqs m) t = Some b"
  shows "dec_val (sb_today b) \<le> dec_val (sb_daily_limit b) \<and>
    dec_val (sb_week b) \<le> dec_val (sb_weekly_limit b) \<and>
    dec_val (sb_month b) \<le> dec_val (sb_monthly_limit b)"
proof -
  have "spend_inv (fold checked_spend reqs m) \<and> budgets_ok (fold checked_spend reqs m)"
    using assms(1,2) by (induction reqs arbitrary: m) (simp_all add: checked_spend_ok)
  with assms(3) show ?thesis by (auto simp: budgets_ok_def within_budget_def dec_order_val)
qed

definition sample_budget :: spend_budget where
  "sample_budget = \<lparr>sb_budget_id = ''b1'', sb_tenant_id = ''acme'', sb_currency = ''USD'',
     sb_per_tx_limit = Dec 100 0, sb_daily_limit = Dec 100 0, sb_weekly_limit = Dec 300 0,
     sb_monthly_limit = Dec 900 0, sb_today = Dec 80 0, sb_week = Dec 200 0, sb_month = Dec 200 0,
     sb_last_reset_at = ''2024-03-01''\<rparr>"

lemma sample_spends:
  "fold checked_spend [(None, ''acme'', Dec 15 0, ''USD''), (None, ''acme'', Dec 60 0, ''USD'')]
     [(''acme'', sample_budget)] =
   [(''acme'', sample_budget\<lparr>sb_today := Dec 95 0, sb_week := Dec 215 0, sb_month := Dec 215 0\<rparr>)]"
  by code_simp

theorem checked_spends_within_budget_witness:
  "dec_val (Dec 95 0) \<le> dec_val (sb_daily_limit sample_budget)"
  using checked_spends_within_budget[of "[(''acme'', sample_budget)]"
      "[(None, ''acme'', Dec 15 0, ''USD''), (None, ''acme'', Dec 60 0, ''USD'')]" "''acme''"]
  by (simp add: sample_spends spend_inv_def wf_dict_def budgets_ok_def within_budget_def sample_budget_def
      dec_order_val dec_val_def dec_zero_def)

text \<open>
  The week's total is reset only together with the month's: however many days have passed, a
  reading of the clock in the same month leaves it as it was.
\<close>

theorem weekly_total_kept_within_month:
  assumes "take 7 now = take 7 (sb_last_reset_at b)"
  shows "sb_week (fst (maybe_reset m b now)) = sb_week b"
  using assms by (simp add: maybe_reset_def Let_def)

theorem weekly_total_kept_within_month_witness:
  "sb_week (fst (maybe_reset [] sample_budget ''2024-03-29'')) = Dec 200 0 \<and>
   sb_today (fst (maybe_reset [] sample_budget ''2024-03-29'')) = dec_zero"
proof -
  have "sb_week (fst (maybe_reset [] sample_budget ''2024-03-29'')) = sb_week sample_budget"
    by (rule weekly_total_kept_within_month) (simp add: sample_budget_def)
  then show ?thesis by (simp add: sample_budget_def maybe_reset_def Let_def)
qed

end
