(* ===== verification/Stripe_Provider.thy ===== *)
theory Stripe_Provider
  imports Py_Json Py_Decimal
begin

text \<open>
  \<open>skills/financial/providers/stripe_provider.py\<close>: the Stripe adapter as it is in the repository, a
  deterministic stub in test mode and a refusal in production mode.  The state is the mode and the
  number of calls.  \<open>api_key\<close> is an argument of every operation that no operation reads.
\<close>

record payment_result =
  pr_success :: bool
  pr_provider :: string
  pr_tx_id :: string
  pr_status :: string
  pr_amount :: decimal
  pr_currency :: string
  pr_url :: string
  pr_error :: string
  pr_metadata :: "(string \<times> json) list"

record stripe =
  sp_test_mode :: bool
  sp_call_count :: nat

definition stripe_provider_name :: string where "stripe_provider_name = ''stripe''"

definition pr_default :: payment_result where
  "pr_default = \<lparr>pr_success = False, pr_provider = ''stripe'', pr_tx_id = [], pr_status = [],
     pr_amount = dec_zero, pr_currency = [], pr_url = [], pr_error = [], pr_metadata = []\<rparr>"

definition pr_fail :: "string \<Rightarrow> payment_result" where
  "pr_fail msg = pr_default\<lparr>pr_error := msg\<rparr>"

definition pr_ok ::
  "string \<Rightarrow> string \<Rightarrow> decimal \<Rightarrow> string \<Rightarrow> (string \<times> json) list \<Rightarrow> payment_result" where
  "pr_ok tx_id status amount currency metadata = pr_default\<lparr>pr_success := True, pr_tx_id := tx_id,
     pr_status := status, pr_amount := amount, pr_currency := currency, pr_metadata := metadata\<rparr>"

definition stripe_init :: "bool \<Rightarrow> stripe" where
  "stripe_init test_mode = \<lparr>sp_test_mode = test_mode, sp_call_count = 0\<rparr>"

definition count_call :: "stripe \<Rightarrow> stripe" where
  "count_call s = s\<lparr>sp_call_count := Suc (sp_call_count s)\<rparr>"

definition not_implemented :: payment_result where
  "not_implemented = pr_fail ''production mode not yet implemented''"

text \<open>\<open>amount or Decimal("0")\<close>: a zero of any exponent is false.\<close>

definition dec_or_zero :: "decimal option \<Rightarrow> decimal" where
  "dec_or_zero a = (case a of None \<Rightarrow> dec_zero
                    | Some d \<Rightarrow> if dec_coeff d = 0 then dec_zero else d)"

definition create_payment_link ::
  "stripe \<Rightarrow> decimal \<Rightarrow> string \<Rightarrow> string \<Rightarrow> string \<Rightarrow> string \<Rightarrow> payment_result \<times> stripe" where
  "create_payment_link s amount currency description idempotency_key api_key =
     (let s = count_call s
      in if dec_le amount dec_zero then (pr_fail ''amount must be positive'', s)
         else if sp_test_mode s
         then ((pr_ok (''pl_test_'' @ (if idempotency_key \<noteq> [] then take 12 idempotency_key else ''stub''))
                  ''active'' amount currency [])
                 \<lparr>pr_url := ''https://pay.stripe.com/test/'' @
                    (if idempotency_key \<noteq> [] then take 8 idempotency_key else ''link'')\<rparr>, s)
         else (not_implemented, s))"

definition create_invoice ::
  "stripe \<Rightarrow> decimal \<Rightarrow> string \<Rightarrow> string \<Rightarrow> string \<Rightarrow> string \<Rightarrow> string \<Rightarrow> payment_result \<times> stripe" where
  "create_invoice s amount currency customer_email description idempotency_key api_key =
     (let s = count_call s
      in if dec_le amount dec_zero then (pr_fail ''amount must be positive'', s)
         else if sp_test_mode s
         then (pr_ok (''inv_test_'' @ (if idempotency_key \<noteq> [] then take 12 idempotency_key else ''stub''))
                 ''draft'' amount currency [(''customer_email'', JStr customer_email)], s)
         else (not_implemented, s))"

definition process_refund ::
  "stripe \<Rightarrow> string \<Rightarrow> decimal option \<Rightarrow> string \<Rightarrow> string \<Rightarrow> string \<Rightarrow> payment_result \<times> stripe" where
  "process_refund s provider_tx_id amount reason idempotency_key api_key =
     (let s = count_call s
      in if provider_tx_id = [] then (pr_fail ''provider_tx_id required for refund'', s)
         else if sp_test_mode s
         then (pr_ok (''re_test_'' @ (if idempotency_key \<noteq> [] then take 12 idempotency_key else ''stub''))
                 ''succeeded'' (dec_or_zero amount) []
                 [(''original_tx'', JStr provider_tx_id), (''reason'', JStr reason)], s)
         else (not_implemented, s))"

definition send_payout ::
  "stripe \<Rightarrow> decimal \<Rightarrow> string \<Rightarrow> string \<Rightarrow> string \<Rightarrow> string \<Rightarrow> string \<Rightarrow> payment_result \<times> stripe" where
  "send_payout s amount currency destination description idempotency_key api_key =
     (let s = count_call s
      in if dec_le amount dec_zero then (pr_fail ''amount must be positive'', s)
         else if destination = [] then (pr_fail ''destination required'', s)
         else if sp_test_mode s
         then (pr_ok (''po_test_'' @ (if idempotency_key \<noteq> [] then take 12 idempotency_key else ''stub''))
                 ''pending'' amount currency [(''destination'', JStr destination)], s)
         else (not_implemented, s))"

section \<open>The contract of a gateway operation\<close>

text \<open>
  A gateway operation answers a request: it counts the call, it succeeds exactly on the valid
  requests of its mode, and a success carries an identifier.
\<close>

locale gateway_op =
  fixes call :: "stripe \<Rightarrow> 'req \<Rightarrow> payment_result \<times> stripe"
    and valid :: "'req \<Rightarrow> bool"
  assumes call_state: "snd (call s r) = count_call s"
    and call_success: "pr_success (fst (call s r)) \<longleftrightarrow> sp_test_mode s \<and> valid r"
    and call_id: "pr_success (fst (call s r)) \<Longrightarrow> pr_tx_id (fst (call s r)) \<noteq> []"
    and call_error: "\<not> pr_success (fst (call s r)) \<Longrightarrow> pr_error (fst (call s r)) \<noteq> []"
begin

definition gw_run :: "stripe \<Rightarrow> 'req list \<Rightarrow> stripe" where
  "gw_run s rs = fold (\<lambda>r s. snd (call s r)) rs s"

lemma gw_run_count: "sp_call_count (gw_run s rs) = sp_call_count s + length rs"
  by (induction rs arbitrary: s) (simp_all add: gw_run_def call_state count_call_def)

lemma gw_run_mode: "sp_test_mode (gw_run s rs) = sp_test_mode s"
  by (induction rs arbitrary: s) (simp_all add: gw_run_def call_state count_call_def)

text \<open>An operation of a provider in production mode never succeeds, whatever came before.\<close>

lemma production_refuses: "\<not> sp_test_mode s \<Longrightarrow> \<not> pr_success (fst (call (gw_run s rs) r))"
  by (simp add: call_success gw_run_mode)

end

interpretation link: gateway_op
  "\<lambda>s (a, c, d, k, ak). create_payment_link s a c d k ak" "\<lambda>(a, _). dec_less dec_zero a"
  by unfold_locales (auto simp: create_payment_link_def Let_def pr_fail_def pr_ok_def pr_default_def
       not_implemented_def count_call_def dec_order_val split: if_splits)

interpretation invoice: gateway_op
  "\<lambda>s (a, c, m, d, k, ak). create_invoice s a c m d k ak" "\<lambda>(a, _). dec_less dec_zero a"
  by unfold_locales (auto simp: create_invoice_def Let_def pr_fail_def pr_ok_def pr_default_def
       not_implemented_def count_call_def dec_order_val split: if_splits)

interpretation refund: gateway_op
  "\<lambda>s (t, a, r, k, ak). process_refund s t a r k ak" "\<lambda>(t, _). t \<noteq> []"
  by unfold_locales (auto simp: process_refund_def Let_def pr_fail_def pr_ok_def pr_default_def
       not_implemented_def count_call_def split: if_splits)

interpretation payout: gateway_op
  "\<lambda>s (a, c, dst, d, k, ak). send_payout s a c dst d k ak"
  "\<lambda>(a, _, dst, _). dec_less dec_zero a \<and> dst \<noteq> []"
  by unfold_locales (auto simp: send_payout_def Let_def pr_fail_def pr_ok_def pr_default_def
       not_implemented_def count_call_def dec_order_val split: if_splits)

lemma create_payment_link_result:
  "create_payment_link s a c d k ak = (r, s') \<Longrightarrow> s' = count_call s \<and>
     (pr_success r \<longleftrightarrow> sp_test_mode s \<and> dec_less dec_zero a) \<and> (pr_success r \<longrightarrow> pr_tx_id r \<noteq> [])"
  using link.call_state[of s "(a, c, d, k, ak)"] link.call_success[of s "(a, c, d, k, ak)"]
    link.call_id[of s "(a, c, d, k, ak)"] by simp

lemma process_refund_result:
  "process_refund s t a r k ak = (x, s') \<Longrightarrow> s' = count_call s \<and>
     (pr_success x \<longleftrightarrow> sp_test_mode s \<and> t \<noteq> [])"
  using refund.call_state[of s "(t, a, r, k, ak)"] refund.call_success[of s "(t, a, r, k, ak)"]
  by simp

end
