(* ===== verification/Governed_Payment.thy ===== *)
theory Governed_Payment
  imports Tx_Ledger Idempotency Spend_Budget Stripe_Provider
begin

text \<open>
  \<open>skills/financial/skills/governed_payment.py\<close>: the payment executor.  Its state is the provider,
  the budget manager, the ledger, the idempotency store and two counters; every operation returns
  the new state beside its result or the exception it raises.

  An operation takes the readings of its clock as arguments: \<open>now\<close> for the executor's clock and
  \<open>bclock\<close> for the budget manager's, when that has one.  The approval callback is the argument
  \<open>notify\<close>: whether the callback raises on its arguments, when there is one.  A callback that calls
  the executor again is not modelled.
\<close>

record gp_result =
  gr_success :: bool
  gr_tx_id :: string
  gr_state :: string
  gr_provider_tx_id :: string
  gr_amount :: string
  gr_currency :: string
  gr_error :: string
  gr_requires_approval :: bool
  gr_approval_id :: string
  gr_metadata :: "(string \<times> json) list"

text \<open>The cached result of a completed payment is the dictionary of two strings the executor stores.\<close>

type_synonym gp_cached = "(string, string) pydict"

record gp_state =
  gp_provider :: stripe
  gp_spend :: spend_mgr
  gp_ledger :: tx_ledger
  gp_idem :: "gp_cached idempotency_store"
  gp_counter :: nat
  gp_notify_failures :: nat

datatype gp_exc = ExcTx tx_error | ExcPy py_error

type_synonym 'a gp = "(gp_exc + 'a) \<times> gp_state"

text \<open>Statements in sequence: an exception keeps the state it was raised in.\<close>

fun gp_bind :: "'a gp \<Rightarrow> ('a \<Rightarrow> gp_state \<Rightarrow> 'b gp) \<Rightarrow> 'b gp" where
  "gp_bind (Inl e, s) f = (Inl e, s)"
| "gp_bind (Inr x, s) f = f x s"

definition gr_default :: gp_result where
  "gr_default = \<lparr>gr_success = False, gr_tx_id = [], gr_state = [], gr_provider_tx_id = [],
     gr_amount = [], gr_currency = [], gr_error = [], gr_requires_approval = False,
     gr_approval_id = [], gr_metadata = []\<rparr>"

definition gr_fail :: "string \<Rightarrow> gp_result" where
  "gr_fail msg = gr_default\<lparr>gr_error := msg\<rparr>"

definition gp_init :: "stripe \<Rightarrow> spend_mgr \<Rightarrow> gp_state" where
  "gp_init provider mgr = \<lparr>gp_provider = provider, gp_spend = mgr, gp_ledger = ledger_init,
     gp_idem = [], gp_counter = 0, gp_notify_failures = 0\<rparr>"

definition gp_advance ::
  "gp_state \<Rightarrow> string \<Rightarrow> tx_state \<Rightarrow> string \<Rightarrow> string \<Rightarrow> string \<Rightarrow> string \<Rightarrow> tx_entry gp" where
  "gp_advance s tx_id to_state reason actor_id timestamp provider_tx_id =
     (case ledger_advance (gp_ledger s) tx_id to_state reason actor_id timestamp provider_tx_id [] of
        (Inl e, l) \<Rightarrow> (Inl (ExcTx e), s\<lparr>gp_ledger := l\<rparr>)
      | (Inr entry, l) \<Rightarrow> (Inr entry, s\<lparr>gp_ledger := l\<rparr>))"

definition gp_record_spend :: "gp_state \<Rightarrow> string \<Rightarrow> decimal \<Rightarrow> spend_budget gp" where
  "gp_record_spend s tenant_id amount =
     (case record_spend (gp_spend s) tenant_id amount of
        (Inl e, m) \<Rightarrow> (Inl (ExcPy e), s\<lparr>gp_spend := m\<rparr>)
      | (Inr b, m) \<Rightarrow> (Inr b, s\<lparr>gp_spend := m\<rparr>))"

definition gp_tx_id :: "string \<Rightarrow> string \<Rightarrow> nat \<Rightarrow> string" where
  "gp_tx_id tenant_id idem_key counter =
     ''tx-'' @ take 12 (sha256_hex (py_join '':'' [tenant_id, idem_key, nat_str counter]))"

text \<open>
  \<open>compute_key\<close> as the executor calls it: the action is \<open>send_payment\<close> and the reference is empty.
\<close>

definition gp_key :: "string \<Rightarrow> decimal \<Rightarrow> string \<Rightarrow> string \<Rightarrow> string" where
  "gp_key tenant_id amount currency destination =
     compute_key tenant_id ''send_payment'' destination (dec_str amount) currency []"

text \<open>Steps 4 and 5 of an initiation, once the key is in flight.\<close>

definition gp_open ::
  "gp_state \<Rightarrow> (string \<Rightarrow> string \<Rightarrow> string \<Rightarrow> string \<Rightarrow> bool) option \<Rightarrow> string \<Rightarrow> string \<Rightarrow> string
    \<Rightarrow> decimal \<Rightarrow> string \<Rightarrow> string \<Rightarrow> string \<Rightarrow> string \<Rightarrow> gp_result gp" where
  "gp_open s notify now idem_key tenant_id amount currency destination description actor_id =
     (let s = s\<lparr>gp_counter := Suc (gp_counter s)\<rparr>;
          tx_id = gp_tx_id tenant_id idem_key (gp_counter s)
      in case ledger_create (gp_ledger s) tx_id idem_key tenant_id (''tenant:'' @ tenant_id)
                (''dest:'' @ destination) amount currency stripe_provider_name description now of
           (Inl e, l) \<Rightarrow>
             (Inr (gr_fail ''failed to create transaction''),
              s\<lparr>gp_ledger := l, gp_idem := mark_failed (gp_idem s) idem_key\<rparr>)
         | (Inr entry, l) \<Rightarrow>
             gp_bind (gp_advance (s\<lparr>gp_ledger := l\<rparr>) tx_id PENDING_APPROVAL
                        ''requires human approval'' actor_id now [])
               (\<lambda>_ s.
                  let raised = (case notify of None \<Rightarrow> False
                                | Some f \<Rightarrow> f tx_id tenant_id (dec_str amount) currency)
                  in (Inr (gr_default\<lparr>gr_success := True, gr_tx_id := tx_id,
                         gr_state := tx_value PENDING_APPROVAL, gr_amount := dec_str amount,
                         gr_currency := currency, gr_requires_approval := True,
                         gr_metadata := [(''approval_notification_failed'', JBool raised)]\<rparr>),
                      if raised then s\<lparr>gp_notify_failures := Suc (gp_notify_failures s)\<rparr> else s)))"

definition initiate_payment ::
  "gp_state \<Rightarrow> (string \<Rightarrow> string \<Rightarrow> string \<Rightarrow> string \<Rightarrow> bool) option \<Rightarrow> string \<Rightarrow> string option
    \<Rightarrow> string \<Rightarrow> decimal \<Rightarrow> string \<Rightarrow> string \<Rightarrow> string \<Rightarrow> string \<Rightarrow> gp_result gp" where
  "initiate_payment s notify now bclock tenant_id amount currency destination description actor_id =
     (let (budget_check, m) = spend_check (gp_spend s) bclock tenant_id amount currency;
          s = s\<lparr>gp_spend := m\<rparr>
      in if \<not> sc_allowed budget_check
         then (Inr (gr_fail (''spend budget denied: '' @ sc_reason budget_check)), s)
         else
           let idem_key = gp_key tenant_id amount currency destination;
               start = (case mark_in_flight (gp_idem s) idem_key now of
                   (Inl _, st) \<Rightarrow>
                     (Inr (gr_fail ''payment already in progress (race condition)''),
                      s\<lparr>gp_idem := st\<rparr>)
                 | (Inr _, st) \<Rightarrow>
                     gp_open (s\<lparr>gp_idem := st\<rparr>) notify now idem_key tenant_id amount currency
                       destination description actor_id)
           in case idem_check (gp_idem s) idem_key of
                None \<Rightarrow> start
              | Some existing \<Rightarrow>
                  (if ir_status existing = IdemCompleted
                   then (case ir_result existing of
                           None \<Rightarrow> (Inl (ExcPy (AttributeError ''get'')), s)
                         | Some r \<Rightarrow>
                             (Inr (gr_default\<lparr>gr_success := True,
                                gr_tx_id := (case dict_get r ''tx_id'' of None \<Rightarrow> [] | Some t \<Rightarrow> t),
                                gr_state := ''completed_duplicate'',
                                gr_metadata := [(''idempotency'', JStr ''returned_cached'')]\<rparr>), s))
                   else if ir_status existing = IdemInFlight
                   then (Inr ((gr_fail ''payment already in progress'')
                           \<lparr>gr_metadata := [(''idempotency'', JStr ''in_flight'')]\<rparr>), s)
                   else start))"

definition approve_and_execute ::
  "gp_state \<Rightarrow> string \<Rightarrow> string \<Rightarrow> string \<Rightarrow> string \<Rightarrow> gp_result gp" where
  "approve_and_execute s now tx_id approver_id api_key =
     (case ledger_get (gp_ledger s) tx_id of
        None \<Rightarrow> (Inr (gr_fail (''transaction '' @ tx_id @ '' not found'')), s)
      | Some entry \<Rightarrow>
          if te_state entry \<noteq> PENDING_APPROVAL
          then (Inr (gr_fail (''transaction not in PENDING_APPROVAL state (is ''
                   @ tx_value (te_state entry) @ '')'')), s)
          else gp_bind (gp_advance s tx_id AUTHORIZED ''approved'' approver_id now []) (\<lambda>_ s.
            let (res, p) = create_payment_link (gp_provider s) (te_amount entry) (te_currency entry)
                             (te_description entry) (te_idem_key entry) api_key;
                s = s\<lparr>gp_provider := p\<rparr>
            in if \<not> pr_success res
               then gp_bind (gp_advance s tx_id FAILED (''provider error: '' @ pr_error res) [] now [])
                 (\<lambda>_ s. (Inr ((gr_fail (pr_error res))
                             \<lparr>gr_tx_id := tx_id, gr_state := tx_value FAILED\<rparr>),
                          s\<lparr>gp_idem := mark_failed (gp_idem s) (te_idem_key entry)\<rparr>))
               else gp_bind (gp_advance s tx_id CAPTURED [] [] now (pr_tx_id res)) (\<lambda>_ s.
                 gp_bind (gp_advance s tx_id SETTLED ''provider confirmed'' [] now []) (\<lambda>_ s.
                 gp_bind (gp_record_spend s (te_tenant_id entry) (te_amount entry)) (\<lambda>_ s.
                   (Inr (gr_default\<lparr>gr_success := True, gr_tx_id := tx_id,
                      gr_state := tx_value SETTLED, gr_provider_tx_id := pr_tx_id res,
                      gr_amount := dec_str (te_amount entry), gr_currency := te_currency entry,
                      gr_metadata :=
                        [(''ledger_hash'', JStr (te_proof_hash entry)),
                         (''recipient_ref'', JStr (te_credit entry)),
                         (''recipient_hash'', JStr (sha256_hex (te_credit entry))),
                         (''debit_account'', JStr (te_debit entry)),
                         (''credit_account'', JStr (te_credit entry)),
                         (''approval_actor_id'', JStr approver_id)]\<rparr>),
                    s\<lparr>gp_idem := snd (mark_completed (gp_idem s) (te_idem_key entry)
                        [(''tx_id'', tx_id), (''provider_tx_id'', pr_tx_id res)] now)\<rparr>))))))"

definition deny ::
  "gp_state \<Rightarrow> string \<Rightarrow> string \<Rightarrow> string \<Rightarrow> string \<Rightarrow> gp_result gp" where
  "deny s now tx_id reason actor_id =
     (case ledger_get (gp_ledger s) tx_id of
        None \<Rightarrow> (Inr (gr_fail (''transaction '' @ tx_id @ '' not found'')), s)
      | Some entry \<Rightarrow>
          gp_bind (gp_advance s tx_id REJECTED (str_or reason ''denied by approver'') actor_id now [])
            (\<lambda>_ s. (Inr (gr_default\<lparr>gr_success := True, gr_tx_id := tx_id,
                          gr_state := tx_value REJECTED\<rparr>),
                     s\<lparr>gp_idem := mark_failed (gp_idem s) (te_idem_key entry)\<rparr>)))"

definition gp_refund ::
  "gp_state \<Rightarrow> string \<Rightarrow> string \<Rightarrow> string \<Rightarrow> string \<Rightarrow> string \<Rightarrow> gp_result gp" where
  "gp_refund s now tx_id reason actor_id api_key =
     (case ledger_get (gp_ledger s) tx_id of
        None \<Rightarrow> (Inr (gr_fail (''transaction '' @ tx_id @ '' not found'')), s)
      | Some entry \<Rightarrow>
          if te_state entry \<noteq> SETTLED
          then (Inr (gr_fail (''can only refund SETTLED transactions (is ''
                   @ tx_value (te_state entry) @ '')'')), s)
          else gp_bind (gp_advance s tx_id REFUND_PENDING reason actor_id now []) (\<lambda>_ s.
            let (res, p) = process_refund (gp_provider s) (te_provider_tx_id entry)
                             (Some (te_amount entry)) reason [] api_key;
                s = s\<lparr>gp_provider := p\<rparr>
            in if \<not> pr_success res
               then gp_bind (gp_advance s tx_id FAILED (''refund failed: '' @ pr_error res) [] now [])
                 (\<lambda>_ s. (Inr ((gr_fail (pr_error res))
                             \<lparr>gr_tx_id := tx_id, gr_state := tx_value FAILED\<rparr>), s))
               else gp_bind (gp_advance s tx_id REFUNDED ''refund processed'' [] now []) (\<lambda>_ s.
                 let ledger_hash = (case ledger_get (gp_ledger s) tx_id of
                       Some refunded \<Rightarrow> te_proof_hash refunded | None \<Rightarrow> te_proof_hash entry)
                 in (Inr (gr_default\<lparr>gr_success := True, gr_tx_id := tx_id,
                       gr_state := tx_value REFUNDED, gr_provider_tx_id := pr_tx_id res,
                       gr_amount := dec_str (te_amount entry), gr_currency := te_currency entry,
                       gr_metadata :=
                         [(''ledger_hash'', JStr ledger_hash),
                          (''refund_provider_tx_id'', JStr (pr_tx_id res)),
                          (''original_provider_tx_id'', JStr (te_provider_tx_id entry)),
                          (''recipient_ref'', JStr (te_credit entry)),
                          (''recipient_hash'', JStr (sha256_hex (te_credit entry))),
                          (''refund_actor_id'', JStr actor_id)]\<rparr>), s))))"


section \<open>Moves of the ledger\<close>

text \<open>
  \<open>ledger_moved l k e path l'\<close>: from \<open>l\<close> to \<open>l'\<close> the transaction \<open>k\<close> went through the states
  \<open>path\<close> and ended as \<open>e\<close>, and no other transaction changed.
\<close>

definition ledger_moved ::
  "tx_ledger \<Rightarrow> string \<Rightarrow> tx_entry \<Rightarrow> tx_state list \<Rightarrow> tx_ledger \<Rightarrow> bool" where
  "ledger_moved l k e path l' \<longleftrightarrow> ledger_inv l' \<and>
     (\<forall>k'. ledger_get l' k' = (if k' = k then Some e else ledger_get l k')) \<and>
     (\<forall>k'. map tr_to (get_transitions l' k') =
        map tr_to (get_transitions l k') @ (if k' = k then path else []))"

lemma ledger_moved_trans:
  "ledger_moved l k e p l' \<Longrightarrow> ledger_moved l' k e' p' l'' \<Longrightarrow> ledger_moved l k e' (p @ p') l''"
  by (auto simp: ledger_moved_def)

lemma ledger_moved_inv: "ledger_moved l k e p l' \<Longrightarrow> ledger_inv l'"
  by (simp add: ledger_moved_def)

lemma ledger_moved_get: "ledger_moved l k e p l' \<Longrightarrow> ledger_get l' k = Some e"
  by (simp add: ledger_moved_def)

definition advanced :: "tx_entry \<Rightarrow> tx_state \<Rightarrow> string \<Rightarrow> string \<Rightarrow> tx_entry" where
  "advanced e st ts p = e\<lparr>te_state := st, te_provider_tx_id := str_or p (te_provider_tx_id e),
     te_updated_at := ts\<rparr>"

lemma advanced_sel [simp]:
  "te_state (advanced e st ts p) = st"
  "te_idem_key (advanced e st ts p) = te_idem_key e"
  "te_tenant_id (advanced e st ts p) = te_tenant_id e"
  "te_amount (advanced e st ts p) = te_amount e"
  "te_currency (advanced e st ts p) = te_currency e"
  "te_debit (advanced e st ts p) = te_debit e"
  "te_credit (advanced e st ts p) = te_credit e"
  "te_proof_hash (advanced e st ts p) = te_proof_hash e"
  "te_provider_tx_id (advanced e st ts p) = str_or p (te_provider_tx_id e)"
  by (simp_all add: advanced_def)

lemma gp_advance_ok:
  assumes inv: "ledger_inv (gp_ledger s)" and e: "ledger_get (gp_ledger s) k = Some e"
    and v: "validate_transition (te_state e) st"
  obtains l where "gp_advance s k st r a ts p = (Inr (advanced e st ts p), s\<lparr>gp_ledger := l\<rparr>)"
    and "ledger_moved (gp_ledger s) k (advanced e st ts p) [st] l"
proof -
  obtain e' l where adv: "ledger_advance (gp_ledger s) k st r a ts p [] = (Inr e', l)"
    using ledger_advance_ok[OF assms] by blast
  then have e': "e' = advanced e st ts p"
    using e by (auto elim!: ledger_advance_Inr simp: advanced_def str_or_def)
  have "ledger_inv l"
    using ledger_advance_inv[OF inv, of k st r a ts p "[]"] adv by simp
  moreover have "map tr_to (get_transitions l k') =
      map tr_to (get_transitions (gp_ledger s) k') @ (if k' = k then [st] else [])" for k'
    using adv by (auto elim!: ledger_advance_Inr simp: get_transitions_def split: option.splits)
  moreover have "ledger_get l k' = (if k' = k then Some e' else ledger_get (gp_ledger s) k')" for k'
    by (rule ledger_get_advance[OF adv])
  ultimately have "ledger_moved (gp_ledger s) k (advanced e st ts p) [st] l"
    by (simp add: ledger_moved_def e')
  with that adv e' show thesis by (simp add: gp_advance_def)
qed

lemma gp_advance_Inl:
  assumes "ledger_get (gp_ledger s) k = Some e" and "\<not> validate_transition (te_state e) st"
  shows "\<exists>x. gp_advance s k st r a ts p = (Inl (ExcTx x), s)"
  using assms by (auto simp: gp_advance_def ledger_advance_def ledger_get_def transition_def)

section \<open>The invariant of the executor\<close>

text \<open>Between two operations no transaction is in an intermediate state.\<close>

definition gp_settled :: "tx_state set" where
  "gp_settled = {SETTLED, REFUNDED}"

definition gp_live :: "tx_state set" where
  "gp_live = {PENDING_APPROVAL, SETTLED, REFUNDED}"

definition gp_stable :: "tx_state set" where
  "gp_stable = {PENDING_APPROVAL, SETTLED, REFUNDED, FAILED, REJECTED}"

definition gp_entry_ok :: "gp_state \<Rightarrow> string \<Rightarrow> tx_entry \<Rightarrow> bool" where
  "gp_entry_ok s k e \<longleftrightarrow> te_state e \<in> gp_stable \<and>
     (\<exists>p. map tr_to (get_transitions (gp_ledger s) k) = PENDING_APPROVAL # p) \<and>
     dict_get (gp_spend s) (te_tenant_id e) \<noteq> None \<and>
     (te_state e \<in> gp_settled \<longrightarrow> te_provider_tx_id e \<noteq> [] \<and> dec_less dec_zero (te_amount e) \<and>
        sp_test_mode (gp_provider s))"

text \<open>A live transaction holds its key: in flight while it is pending, completed afterwards.\<close>

definition gp_key_ok :: "gp_cached idempotency_store \<Rightarrow> string \<Rightarrow> tx_entry \<Rightarrow> bool" where
  "gp_key_ok st k e \<longleftrightarrow>
     (te_state e = PENDING_APPROVAL \<longrightarrow>
        (\<exists>r. dict_get st (te_idem_key e) = Some r \<and> ir_status r = IdemInFlight)) \<and>
     (te_state e \<in> gp_settled \<longrightarrow>
        (\<exists>r c. dict_get st (te_idem_key e) = Some r \<and> ir_status r = IdemCompleted \<and>
           ir_result r = Some c \<and> dict_get c ''tx_id'' = Some k))"

definition gp_keys :: "gp_state \<Rightarrow> bool" where
  "gp_keys s \<longleftrightarrow>
     (\<forall>k e. ledger_get (gp_ledger s) k = Some e \<longrightarrow> gp_key_ok (gp_idem s) k e) \<and>
     (\<forall>k k' e e'. ledger_get (gp_ledger s) k = Some e \<longrightarrow> ledger_get (gp_ledger s) k' = Some e' \<longrightarrow>
        te_state e \<in> gp_live \<longrightarrow> te_state e' \<in> gp_live \<longrightarrow> te_idem_key e = te_idem_key e' \<longrightarrow>
        k = k')"

definition gp_inv :: "gp_state \<Rightarrow> bool" where
  "gp_inv s \<longleftrightarrow> ledger_inv (gp_ledger s) \<and> idem_inv (gp_idem s) \<and> spend_inv (gp_spend s) \<and>
     (\<forall>k e. ledger_get (gp_ledger s) k = Some e \<longrightarrow> gp_entry_ok s k e) \<and>
     (gp_counter s \<le> MAX_RECORDS \<longrightarrow> gp_keys s \<and> length (gp_idem s) \<le> gp_counter s)"

named_theorems gp_defs \<open>the sets and predicates of the executor's invariant\<close>
declare gp_settled_def [gp_defs] gp_live_def [gp_defs] gp_stable_def [gp_defs]
  gp_entry_ok_def [gp_defs] gp_key_ok_def [gp_defs]

lemma ledger_get_init [simp]: "ledger_get ledger_init k = None"
  by (simp add: ledger_get_def ledger_init_def)

lemma gp_inv_init: "spend_inv m \<Longrightarrow> gp_inv (gp_init p m)"
  by (simp add: gp_inv_def gp_init_def idem_inv_def gp_keys_def)

text \<open>
  The general step: transaction \<open>k\<close> moves along a path to a stable state, keeping its key and
  tenant, the store changes at its key only, and budgets are not removed.
\<close>

lemma gp_inv_move:
  assumes inv: "gp_inv s" and e: "ledger_get (gp_ledger s) k = Some e"
    and mv: "ledger_moved (gp_ledger s) k e' path (gp_ledger s')"
    and same: "te_idem_key e' = te_idem_key e" "te_tenant_id e' = te_tenant_id e"
    and live: "te_state e \<in> gp_live"
    and ok: "te_state e' \<in> gp_stable" "te_state e' \<in> gp_settled \<Longrightarrow>
      te_provider_tx_id e' \<noteq> [] \<and> dec_less dec_zero (te_amount e') \<and> sp_test_mode (gp_provider s')"
    and idem: "idem_inv (gp_idem s')"
      "\<And>x. x \<noteq> te_idem_key e \<Longrightarrow> dict_get (gp_idem s') x = dict_get (gp_idem s) x"
    and key: "gp_keys s \<Longrightarrow> length (gp_idem s) \<le> gp_counter s \<Longrightarrow>
      gp_key_ok (gp_idem s') k e' \<and> length (gp_idem s') \<le> gp_counter s"
    and pending: "te_state e' \<noteq> PENDING_APPROVAL"
    and rest: "gp_counter s' = gp_counter s" "sp_test_mode (gp_provider s') = sp_test_mode (gp_provider s)"
      "spend_inv (gp_spend s')"
      "\<And>t. dict_get (gp_spend s) t \<noteq> None \<Longrightarrow> dict_get (gp_spend s') t \<noteq> None"
  shows "gp_inv s'"
proof -
  have get': "ledger_get (gp_ledger s') x = (if x = k then Some e' else ledger_get (gp_ledger s) x)"
    and tr': "map tr_to (get_transitions (gp_ledger s') x) =
      map tr_to (get_transitions (gp_ledger s) x) @ (if x = k then path else [])" for x
    using mv by (simp_all add: ledger_moved_def)
  have entry: "gp_entry_ok s' x y" if "ledger_get (gp_ledger s') x = Some y" for x y
  proof (cases "x = k")
    case True
    with that get' have y: "y = e'" by simp
    have "gp_entry_ok s k e" using inv e by (simp add: gp_inv_def)
    then show ?thesis
      unfolding True y using tr'[of k] same ok rest(4) by (auto simp: gp_entry_ok_def)
  next
    case False
    with that get' have "ledger_get (gp_ledger s) x = Some y" by simp
    with inv have "gp_entry_ok s x y" by (simp add: gp_inv_def)
    with tr'[of x] False rest(2,4) show ?thesis by (auto simp: gp_entry_ok_def)
  qed
  have keys: "gp_keys s'" if K: "gp_keys s" and C: "length (gp_idem s) \<le> gp_counter s"
    unfolding gp_keys_def
  proof (intro conjI allI impI)
    have uniq: "x = k" if "ledger_get (gp_ledger s) x = Some y" "te_state y \<in> gp_live"
      "te_idem_key y = te_idem_key e" for x y
      using K e live that unfolding gp_keys_def by blast
    fix x y
    assume xy: "ledger_get (gp_ledger s') x = Some y"
    show "gp_key_ok (gp_idem s') x y"
    proof (cases "x = k")
      case True
      with xy get' key[OF K C] show ?thesis by simp
    next
      case False
      with xy get' have old: "ledger_get (gp_ledger s) x = Some y" by simp
      with K have ok: "gp_key_ok (gp_idem s) x y" by (simp add: gp_keys_def)
      show ?thesis
      proof (cases "te_state y \<in> gp_live")
        case True
        with uniq[OF old] False have "te_idem_key y \<noteq> te_idem_key e" by blast
        with ok idem(2) show ?thesis by (simp add: gp_key_ok_def)
      next
        case False
        then show ?thesis by (auto simp: gp_key_ok_def gp_live_def gp_settled_def)
      qed
    qed
  next
    fix x x' y y'
    assume a: "ledger_get (gp_ledger s') x = Some y" "ledger_get (gp_ledger s') x' = Some y'"
      "te_state y \<in> gp_live" "te_state y' \<in> gp_live" "te_idem_key y = te_idem_key y'"
    have "\<exists>z. ledger_get (gp_ledger s) u = Some z \<and> te_state z \<in> gp_live \<and> te_idem_key z = te_idem_key w"
      if "ledger_get (gp_ledger s') u = Some w" "te_state w \<in> gp_live" for u w
      using that get'[of u] e live same by (auto split: if_splits)
    from this[OF a(1,3)] this[OF a(2,4)] a(5) K show "x = x'"
      unfolding gp_keys_def by metis
  qed
  show ?thesis
    using inv mv entry keys key idem rest by (auto simp: gp_inv_def dest: ledger_moved_inv)
qed


section \<open>What each operation does\<close>

text \<open>The provider accepts the payment of an entry.\<close>

definition gp_accepts :: "gp_state \<Rightarrow> tx_entry \<Rightarrow> bool" where
  "gp_accepts s e \<longleftrightarrow> sp_test_mode (gp_provider s) \<and> dec_less dec_zero (te_amount e)"

lemma gp_record_spend_ok:
  assumes "dict_get (gp_spend s) t = Some b"
  shows "gp_record_spend s t a = (Inr (b\<lparr>sb_today := dec_add (sb_today b) a,
      sb_week := dec_add (sb_week b) a, sb_month := dec_add (sb_month b) a\<rparr>),
    s\<lparr>gp_spend := dict_set t (b\<lparr>sb_today := dec_add (sb_today b) a,
      sb_week := dec_add (sb_week b) a, sb_month := dec_add (sb_month b) a\<rparr>) (gp_spend s)\<rparr>)"
  using assms by (simp add: gp_record_spend_def record_spend_def Let_def)

lemma approve_settles:
  assumes inv: "ledger_inv (gp_ledger s)" and e: "ledger_get (gp_ledger s) k = Some e"
    and st: "te_state e = PENDING_APPROVAL" and acc: "gp_accepts s e"
    and b: "dict_get (gp_spend s) (te_tenant_id e) = Some b"
  obtains res ptx e' l where "ptx \<noteq> []" and "gr_success res" and "gr_state res = tx_value SETTLED"
    and "gr_provider_tx_id res = ptx" and "gr_tx_id res = k"
    and "te_state e' = SETTLED" and "te_idem_key e' = te_idem_key e"
    and "te_tenant_id e' = te_tenant_id e" and "te_amount e' = te_amount e"
    and "te_provider_tx_id e' = ptx"
    and "ledger_moved (gp_ledger s) k e' [AUTHORIZED, CAPTURED, SETTLED] l"
    and "approve_and_execute s now k approver ak = (Inr res, s
      \<lparr>gp_provider := count_call (gp_provider s), gp_ledger := l,
       gp_spend := dict_set (te_tenant_id e) (b\<lparr>sb_today := dec_add (sb_today b) (te_amount e),
         sb_week := dec_add (sb_week b) (te_amount e),
         sb_month := dec_add (sb_month b) (te_amount e)\<rparr>) (gp_spend s),
       gp_idem := snd (mark_completed (gp_idem s) (te_idem_key e)
         [(''tx_id'', k), (''provider_tx_id'', ptx)] now)\<rparr>)"
proof -
  obtain pr p where pr: "create_payment_link (gp_provider s) (te_amount e) (te_currency e)
      (te_description e) (te_idem_key e) ak = (pr, p)" by fastforce
  from create_payment_link_result[OF this] acc
  have p: "p = count_call (gp_provider s)" and ok: "pr_success pr" and id: "pr_tx_id pr \<noteq> []"
    by (auto simp: gp_accepts_def)
  define e1 where "e1 = advanced e AUTHORIZED now []"
  define e2 where "e2 = advanced e1 CAPTURED now (pr_tx_id pr)"
  define e3 where "e3 = advanced e2 SETTLED now []"
  obtain l1 where l1: "gp_advance s k AUTHORIZED ''approved'' approver now [] =
      (Inr e1, s\<lparr>gp_ledger := l1\<rparr>)" and m1: "ledger_moved (gp_ledger s) k e1 [AUTHORIZED] l1"
    using gp_advance_ok[OF inv e, of AUTHORIZED] st unfolding e1_def by (metis validate_into(1))
  let ?s1 = "s\<lparr>gp_ledger := l1, gp_provider := p\<rparr>"
  have i1: "ledger_inv (gp_ledger ?s1)" "ledger_get (gp_ledger ?s1) k = Some e1"
    using m1 by (simp_all add: ledger_moved_inv ledger_moved_get)
  obtain l2 where l2: "gp_advance ?s1 k CAPTURED [] [] now (pr_tx_id pr) =
      (Inr e2, ?s1\<lparr>gp_ledger := l2\<rparr>)" and m2: "ledger_moved l1 k e2 [CAPTURED] l2"
    using gp_advance_ok[OF i1, of CAPTURED "[]" "[]" now "pr_tx_id pr"]
    unfolding e2_def by (auto simp: e1_def)
  let ?s2 = "?s1\<lparr>gp_ledger := l2\<rparr>"
  have i2: "ledger_inv (gp_ledger ?s2)" "ledger_get (gp_ledger ?s2) k = Some e2"
    using m2 by (simp_all add: ledger_moved_inv ledger_moved_get)
  obtain l3 where l3: "gp_advance ?s2 k SETTLED ''provider confirmed'' [] now [] =
      (Inr e3, ?s2\<lparr>gp_ledger := l3\<rparr>)" and m3: "ledger_moved l2 k e3 [SETTLED] l3"
    using gp_advance_ok[OF i2, of SETTLED "''provider confirmed''" "[]" now "[]"]
    unfolding e3_def by (auto simp: e2_def)
  have m: "ledger_moved (gp_ledger s) k e3 [AUTHORIZED, CAPTURED, SETTLED] l3"
    using ledger_moved_trans[OF ledger_moved_trans[OF m1 m2] m3] by simp
  let ?res = "fst (approve_and_execute s now k approver ak)"
  obtain res where "approve_and_execute s now k approver ak = (Inr res, s
      \<lparr>gp_provider := count_call (gp_provider s), gp_ledger := l3,
       gp_spend := dict_set (te_tenant_id e) (b\<lparr>sb_today := dec_add (sb_today b) (te_amount e),
         sb_week := dec_add (sb_week b) (te_amount e),
         sb_month := dec_add (sb_month b) (te_amount e)\<rparr>) (gp_spend s),
       gp_idem := snd (mark_completed (gp_idem s) (te_idem_key e)
         [(''tx_id'', k), (''provider_tx_id'', pr_tx_id pr)] now)\<rparr>)"
    and "gr_success res" "gr_state res = tx_value SETTLED" "gr_provider_tx_id res = pr_tx_id pr"
      "gr_tx_id res = k"
    using e st pr ok l1 l2 l3 b
    by (simp add: approve_and_execute_def gp_record_spend_ok p gr_default_def)
  with that[of "pr_tx_id pr" res e3 l3] id m show thesis
    by (simp add: e1_def e2_def e3_def str_or_def)
qed

lemma approve_fails:
  assumes inv: "ledger_inv (gp_ledger s)" and e: "ledger_get (gp_ledger s) k = Some e"
    and st: "te_state e = PENDING_APPROVAL" and acc: "\<not> gp_accepts s e"
  obtains res e' l where "\<not> gr_success res" and "gr_state res = tx_value FAILED"
    and "te_state e' = FAILED" and "te_idem_key e' = te_idem_key e"
    and "te_tenant_id e' = te_tenant_id e"
    and "ledger_moved (gp_ledger s) k e' [AUTHORIZED, FAILED] l"
    and "approve_and_execute s now k approver ak = (Inr res, s
      \<lparr>gp_provider := count_call (gp_provider s), gp_ledger := l,
       gp_idem := mark_failed (gp_idem s) (te_idem_key e)\<rparr>)"
proof -
  obtain pr p where pr: "create_payment_link (gp_provider s) (te_amount e) (te_currency e)
      (te_description e) (te_idem_key e) ak = (pr, p)" by fastforce
  from create_payment_link_result[OF this] acc
  have p: "p = count_call (gp_provider s)" and bad: "\<not> pr_success pr"
    by (auto simp: gp_accepts_def)
  define e1 where "e1 = advanced e AUTHORIZED now []"
  define e2 where "e2 = advanced e1 FAILED now []"
  obtain l1 where l1: "gp_advance s k AUTHORIZED ''approved'' approver now [] =
      (Inr e1, s\<lparr>gp_ledger := l1\<rparr>)" and m1: "ledger_moved (gp_ledger s) k e1 [AUTHORIZED] l1"
    using gp_advance_ok[OF inv e, of AUTHORIZED] st unfolding e1_def by (metis validate_into(1))
  let ?s1 = "s\<lparr>gp_ledger := l1, gp_provider := p\<rparr>"
  have i1: "ledger_inv (gp_ledger ?s1)" "ledger_get (gp_ledger ?s1) k = Some e1"
    using m1 by (simp_all add: ledger_moved_inv ledger_moved_get)
  obtain l2 where l2: "gp_advance ?s1 k FAILED (''provider error: '' @ pr_error pr) [] now [] =
      (Inr e2, ?s1\<lparr>gp_ledger := l2\<rparr>)" and m2: "ledger_moved l1 k e2 [FAILED] l2"
    using gp_advance_ok[OF i1, of FAILED "''provider error: '' @ pr_error pr" "[]" now "[]"]
    unfolding e2_def by (auto simp: e1_def validate_transition_def)
  have m: "ledger_moved (gp_ledger s) k e2 [AUTHORIZED, FAILED] l2"
    using ledger_moved_trans[OF m1 m2] by simp
  obtain res where "approve_and_execute s now k approver ak = (Inr res, s
      \<lparr>gp_provider := count_call (gp_provider s), gp_ledger := l2,
       gp_idem := mark_failed (gp_idem s) (te_idem_key e)\<rparr>)"
    and "\<not> gr_success res" "gr_state res = tx_value FAILED"
    using e st pr bad l1 l2
    by (simp add: approve_and_execute_def p gr_fail_def gr_default_def)
  with that[of res e2 l2] m show thesis by (simp add: e1_def e2_def)
qed

lemma deny_rejects:
  assumes inv: "ledger_inv (gp_ledger s)" and e: "ledger_get (gp_ledger s) k = Some e"
    and st: "te_state e = PENDING_APPROVAL"
  obtains e' l where "te_state e' = REJECTED" and "te_idem_key e' = te_idem_key e"
    and "te_tenant_id e' = te_tenant_id e" and "ledger_moved (gp_ledger s) k e' [REJECTED] l"
    and "deny s now k r a = (Inr (gr_default\<lparr>gr_success := True, gr_tx_id := k,
        gr_state := tx_value REJECTED\<rparr>), s\<lparr>gp_ledger := l,
        gp_idem := mark_failed (gp_idem s) (te_idem_key e)\<rparr>)"
proof -
  have v: "validate_transition (te_state e) REJECTED" by (simp add: st validate_transition_def)
  obtain l where "gp_advance s k REJECTED (str_or r ''denied by approver'') a now [] =
      (Inr (advanced e REJECTED now []), s\<lparr>gp_ledger := l\<rparr>)"
    and "ledger_moved (gp_ledger s) k (advanced e REJECTED now []) [REJECTED] l"
    by (rule gp_advance_ok[OF inv e v])
  with that[of "advanced e REJECTED now []" l] e show thesis by (simp add: deny_def)
qed

text \<open>Denying anything but a pending transaction raises, without an effect.\<close>

lemma deny_raises:
  assumes "ledger_get (gp_ledger s) k = Some e"
    and "te_state e \<in> gp_stable" and "te_state e \<noteq> PENDING_APPROVAL"
  shows "\<exists>x. deny s now k r a = (Inl (ExcTx x), s)"
proof -
  have "\<not> validate_transition (te_state e) REJECTED"
    using assms(2,3) by (auto simp: gp_stable_def validate_transition_def)
  from gp_advance_Inl[OF assms(1) this] obtain x where
    "gp_advance s k REJECTED (str_or r ''denied by approver'') a now [] = (Inl (ExcTx x), s)"
    by blast
  with assms(1) show ?thesis by (simp add: deny_def)
qed

lemma refund_refunds:
  assumes inv: "ledger_inv (gp_ledger s)" and e: "ledger_get (gp_ledger s) k = Some e"
    and st: "te_state e = SETTLED" and ok: "sp_test_mode (gp_provider s)" "te_provider_tx_id e \<noteq> []"
  obtains res e' l where "gr_success res" and "gr_state res = tx_value REFUNDED"
    and "te_state e' = REFUNDED" and "te_idem_key e' = te_idem_key e"
    and "te_tenant_id e' = te_tenant_id e" and "te_amount e' = te_amount e"
    and "te_provider_tx_id e' = te_provider_tx_id e"
    and "ledger_moved (gp_ledger s) k e' [REFUND_PENDING, REFUNDED] l"
    and "gp_refund s now k r a ak = (Inr res, s\<lparr>gp_provider := count_call (gp_provider s),
        gp_ledger := l\<rparr>)"
proof -
  obtain pr p where pr: "process_refund (gp_provider s) (te_provider_tx_id e)
      (Some (te_amount e)) r [] ak = (pr, p)" by fastforce
  from process_refund_result[OF this] ok
  have p: "p = count_call (gp_provider s)" and suc: "pr_success pr" by auto
  define e1 where "e1 = advanced e REFUND_PENDING now []"
  define e2 where "e2 = advanced e1 REFUNDED now []"
  obtain l1 where l1: "gp_advance s k REFUND_PENDING r a now [] =
      (Inr e1, s\<lparr>gp_ledger := l1\<rparr>)" and m1: "ledger_moved (gp_ledger s) k e1 [REFUND_PENDING] l1"
    using gp_advance_ok[OF inv e, of REFUND_PENDING] st unfolding e1_def by (metis validate_into(4))
  let ?s1 = "s\<lparr>gp_ledger := l1, gp_provider := p\<rparr>"
  have i1: "ledger_inv (gp_ledger ?s1)" "ledger_get (gp_ledger ?s1) k = Some e1"
    using m1 by (simp_all add: ledger_moved_inv ledger_moved_get)
  obtain l2 where l2: "gp_advance ?s1 k REFUNDED ''refund processed'' [] now [] =
      (Inr e2, ?s1\<lparr>gp_ledger := l2\<rparr>)" and m2: "ledger_moved l1 k e2 [REFUNDED] l2"
    using gp_advance_ok[OF i1, of REFUNDED "''refund processed''" "[]" now "[]"]
    unfolding e2_def by (auto simp: e1_def)
  have m: "ledger_moved (gp_ledger s) k e2 [REFUND_PENDING, REFUNDED] l2"
    using ledger_moved_trans[OF m1 m2] by simp
  obtain res where "gp_refund s now k r a ak = (Inr res,
      s\<lparr>gp_provider := count_call (gp_provider s), gp_ledger := l2\<rparr>)"
    and "gr_success res" "gr_state res = tx_value REFUNDED"
    using e st pr suc l1 l2 by (simp add: gp_refund_def p gr_default_def Let_def)
  with that[of res e2 l2] m show thesis by (simp add: e1_def e2_def str_or_def)
qed


lemma get_transitions_create:
  assumes "ledger_create l tid ik ten d c a cur p desc cat = (Inr e, l')"
  shows "get_transitions l' k = (if k = tid then [] else get_transitions l k)"
  using assms by (auto simp: ledger_create_def get_transitions_def Let_def split: if_splits)

text \<open>The state after an accepted initiation, with the new transaction.\<close>

definition gp_opened ::
  "gp_state \<Rightarrow> string \<Rightarrow> string \<Rightarrow> decimal \<Rightarrow> string \<Rightarrow> string \<Rightarrow> tx_entry \<Rightarrow> gp_state \<Rightarrow> bool" where
  "gp_opened s idem_key tenant_id amount currency destination e s' \<longleftrightarrow>
     (let k = gp_tx_id tenant_id idem_key (Suc (gp_counter s))
      in ledger_get (gp_ledger s) k = None \<and> ledger_inv (gp_ledger s') \<and>
         (\<forall>k'. ledger_get (gp_ledger s') k' = (if k' = k then Some e else ledger_get (gp_ledger s) k')) \<and>
         (\<forall>k'. map tr_to (get_transitions (gp_ledger s') k') =
            (if k' = k then [PENDING_APPROVAL] else map tr_to (get_transitions (gp_ledger s) k'))) \<and>
         te_state e = PENDING_APPROVAL \<and> te_idem_key e = idem_key \<and> te_tenant_id e = tenant_id \<and>
         te_amount e = amount \<and> te_currency e = currency \<and> te_credit e = ''dest:'' @ destination \<and>
         gp_counter s' = Suc (gp_counter s) \<and> gp_idem s' = gp_idem s \<and>
         gp_spend s' = gp_spend s \<and> gp_provider s' = gp_provider s)"

lemma gp_open_ok:
  assumes inv: "ledger_inv (gp_ledger s)"
    and fresh: "ledger_get (gp_ledger s) (gp_tx_id t key (Suc (gp_counter s))) = None"
  obtains res e s' where "gp_open s notify now key t a c dst desc actor = (Inr res, s')"
    and "gr_success res" and "gr_requires_approval res" and "gr_state res = tx_value PENDING_APPROVAL"
    and "gr_tx_id res = gp_tx_id t key (Suc (gp_counter s))"
    and "gp_opened s key t a c dst e s'"
proof -
  let ?k = "gp_tx_id t key (Suc (gp_counter s))"
  let ?s = "s\<lparr>gp_counter := Suc (gp_counter s)\<rparr>"
  obtain e0 l where cr: "ledger_create (gp_ledger s) ?k key t (''tenant:'' @ t) (''dest:'' @ dst)
      a c stripe_provider_name desc now = (Inr e0, l)"
    using fresh by (simp add: ledger_create_def ledger_get_def Let_def)
  have li: "ledger_inv l"
    using ledger_create_inv[OF inv, of ?k key t "''tenant:'' @ t" "''dest:'' @ dst" a c
        stripe_provider_name desc now] cr by simp
  have get: "ledger_get l k' = (if k' = ?k then Some e0 else ledger_get (gp_ledger s) k')" for k'
    using ledger_get_create[OF cr] by blast
  have e0: "te_state e0 = CREATED" "te_idem_key e0 = key" "te_tenant_id e0 = t" "te_amount e0 = a"
    "te_currency e0 = c" "te_credit e0 = ''dest:'' @ dst"
    using cr by (auto simp: ledger_create_def Let_def split: if_splits)
  let ?s1 = "?s\<lparr>gp_ledger := l\<rparr>"
  have v: "validate_transition (te_state e0) PENDING_APPROVAL" by (simp add: e0)
  have i1: "ledger_inv (gp_ledger ?s1)" "ledger_get (gp_ledger ?s1) ?k = Some e0"
    using li get by simp_all
  obtain l1 where adv: "gp_advance ?s1 ?k PENDING_APPROVAL ''requires human approval'' actor now [] =
      (Inr (advanced e0 PENDING_APPROVAL now []), ?s1\<lparr>gp_ledger := l1\<rparr>)"
    and mv: "ledger_moved l ?k (advanced e0 PENDING_APPROVAL now []) [PENDING_APPROVAL] l1"
    using gp_advance_ok[OF i1 v, of "''requires human approval''" actor now "[]"] by auto
  obtain res s' where op: "gp_open s notify now key t a c dst desc actor = (Inr res, s')"
    and res: "gr_success res" "gr_requires_approval res" "gr_state res = tx_value PENDING_APPROVAL"
      "gr_tx_id res = ?k"
    and s': "gp_ledger s' = l1" "gp_counter s' = Suc (gp_counter s)" "gp_idem s' = gp_idem s"
      "gp_spend s' = gp_spend s" "gp_provider s' = gp_provider s"
    using cr adv by (simp add: gp_open_def Let_def gr_default_def)
  have "gp_opened s key t a c dst (advanced e0 PENDING_APPROVAL now []) s'"
    using mv get fresh s' e0 get_transitions_create[OF cr]
    by (auto simp: gp_opened_def ledger_moved_def Let_def)
  with that op res show thesis by blast
qed

lemma gp_open_collision:
  assumes "ledger_get (gp_ledger s) (gp_tx_id t key (Suc (gp_counter s))) \<noteq> None"
  shows "gp_open s notify now key t a c dst desc actor =
    (Inr (gr_fail ''failed to create transaction''),
     s\<lparr>gp_counter := Suc (gp_counter s), gp_idem := mark_failed (gp_idem s) key\<rparr>)"
  using assms by (auto simp: gp_open_def ledger_create_def ledger_get_def Let_def)

section \<open>The operations keep the invariant\<close>

lemma gp_key_pending:
  assumes "gp_keys s" and "ledger_get (gp_ledger s) k = Some e" and "te_state e = PENDING_APPROVAL"
  obtains r where "dict_get (gp_idem s) (te_idem_key e) = Some r" and "ir_status r = IdemInFlight"
  using assms unfolding gp_keys_def gp_key_ok_def by blast

lemma gp_key_live:
  assumes "gp_keys s" and "ledger_get (gp_ledger s) k = Some e" and "te_state e \<in> gp_live"
  shows "dict_get (gp_idem s) (te_idem_key e) \<noteq> None"
proof -
  have "gp_key_ok (gp_idem s) k e" using assms(1,2) by (simp add: gp_keys_def)
  with assms(3) show ?thesis by (auto simp: gp_key_ok_def gp_live_def gp_settled_def)
qed

lemma gp_invD:
  assumes "gp_inv s"
  shows "ledger_inv (gp_ledger s)" and "idem_inv (gp_idem s)" and "spend_inv (gp_spend s)"
    and "ledger_get (gp_ledger s) k = Some e \<Longrightarrow> gp_entry_ok s k e"
  using assms by (simp_all add: gp_inv_def)

lemma gp_inv_approve:
  assumes inv: "gp_inv s"
  shows "gp_inv (snd (approve_and_execute s now k approver ak))"
proof (cases "\<exists>e. ledger_get (gp_ledger s) k = Some e \<and> te_state e = PENDING_APPROVAL")
  case False
  then show ?thesis
    using inv by (auto simp: approve_and_execute_def split: option.splits)
next
  case True
  then obtain e where e: "ledger_get (gp_ledger s) k = Some e" and st: "te_state e = PENDING_APPROVAL"
    by blast
  note [simp] = gp_invD(2,3)[OF inv]
  have live: "te_state e \<in> gp_live" by (simp add: st gp_live_def)
  show ?thesis
  proof (cases "gp_accepts s e")
    case True
    from gp_invD(4)[OF inv e] obtain b where b: "dict_get (gp_spend s) (te_tenant_id e) = Some b"
      by (auto simp: gp_entry_ok_def)
    have bt: "sb_tenant_id b = te_tenant_id e"
      using b gp_invD(3)[OF inv] by (auto simp: spend_inv_def)
    show ?thesis
    proof (rule approve_settles[OF gp_invD(1)[OF inv] e st True b, of now approver ak], goal_cases)
      case (1 res ptx e' l)
      show ?case
        unfolding 1(12)
      proof (rule gp_inv_move[OF inv e, where e' = e'], goal_cases)
        case 9
        then show ?case
          using gp_key_pending[OF _ e st] 1
          by (fastforce simp: gp_key_ok_def mark_completed_def Let_def length_dict_set)
      qed (use 1 live True b bt gp_invD(2,3)[OF inv] in
        \<open>auto simp: gp_stable_def gp_accepts_def count_call_def spend_inv_def
          mark_completed_inv mark_completed_def Let_def idem_inv_def\<close>)
    qed
  next
    case False
    show ?thesis
    proof (rule approve_fails[OF gp_invD(1)[OF inv] e st False, of now approver ak], goal_cases)
      case (1 res e' l)
      show ?case
        unfolding 1(7)
        by (rule gp_inv_move[OF inv e, where e' = e'])
        (use 1 live length_dict_pop_le[of "te_idem_key e" "gp_idem s"] in
        \<open>auto simp: gp_stable_def gp_settled_def count_call_def gp_key_ok_def
          mark_failed_inv[unfolded mark_failed_def] mark_failed_def\<close>)
    qed
  qed
qed

lemma gp_inv_deny:
  assumes inv: "gp_inv s"
  shows "gp_inv (snd (deny s now k r a))"
proof (cases "ledger_get (gp_ledger s) k")
  case None
  then show ?thesis using inv by (simp add: deny_def)
next
  case (Some e)
  note [simp] = gp_invD(2,3)[OF inv]
  show ?thesis
  proof (cases "te_state e = PENDING_APPROVAL")
    case True
    then have live: "te_state e \<in> gp_live" by (simp add: gp_live_def)
    show ?thesis
    proof (rule deny_rejects[OF gp_invD(1)[OF inv] Some True, of now r a], goal_cases)
      case (1 e' l)
      show ?case
        unfolding 1(5)
        by (rule gp_inv_move[OF inv Some, where e' = e'])
          (use 1 live length_dict_pop_le[of "te_idem_key e" "gp_idem s"] in
          \<open>auto simp: gp_stable_def gp_settled_def gp_key_ok_def mark_failed_inv[unfolded mark_failed_def] mark_failed_def\<close>)
    qed
  next
    case False
    with deny_raises[OF Some] gp_invD(4)[OF inv Some] obtain x where
      "deny s now k r a = (Inl (ExcTx x), s)" by (fastforce simp: gp_entry_ok_def)
    with inv show ?thesis by simp
  qed
qed

lemma gp_inv_refund:
  assumes inv: "gp_inv s"
  shows "gp_inv (snd (gp_refund s now k r a ak))"
proof (cases "\<exists>e. ledger_get (gp_ledger s) k = Some e \<and> te_state e = SETTLED")
  case False
  then show ?thesis
    using inv by (auto simp: gp_refund_def split: option.splits)
next
  case True
  then obtain e where e: "ledger_get (gp_ledger s) k = Some e" and st: "te_state e = SETTLED"
    by blast
  note [simp] = gp_invD(2,3)[OF inv]
  have live: "te_state e \<in> gp_live" by (simp add: st gp_live_def)
  have ok: "te_provider_tx_id e \<noteq> []" "dec_less dec_zero (te_amount e)" "sp_test_mode (gp_provider s)"
    using gp_invD(4)[OF inv e] st by (auto simp: gp_entry_ok_def gp_settled_def)
  show ?thesis
  proof (rule refund_refunds[OF gp_invD(1)[OF inv] e st ok(3,1), of now r a ak], goal_cases)
    case (1 res e' l)
    show ?case
      unfolding 1(9)
    proof (rule gp_inv_move[OF inv e, where e' = e'], goal_cases)
      case 9
      then show ?case
        using e st 1 by (auto simp: gp_keys_def gp_key_ok_def gp_settled_def)
    qed (use 1 live ok in \<open>auto simp: gp_stable_def gp_settled_def count_call_def\<close>)
  qed
qed


text \<open>
  An initiation either leaves ledger, store and provider as they were, or hits an identifier that is
  taken, or opens one new transaction under its key.
\<close>

lemma initiate_cases:
  assumes "gp_inv s"
  obtains
    (unchanged) r m where "initiate_payment s notify now bclock t a c dst desc actor =
        (Inr r, s\<lparr>gp_spend := m\<rparr>)"
      and "m = snd (spend_check (gp_spend s) bclock t a c)"
      and "\<not> gr_success r \<or> gr_state r = ''completed_duplicate''"
  | (starts) m st x where "m = snd (spend_check (gp_spend s) bclock t a c)"
      and "sc_allowed (fst (spend_check (gp_spend s) bclock t a c))"
      and "idem_check (gp_idem s) (gp_key t a c dst) = None"
      and "mark_in_flight (gp_idem s) (gp_key t a c dst) now = (Inr x, st)"
      and "initiate_payment s notify now bclock t a c dst desc actor =
        gp_open (s\<lparr>gp_spend := m, gp_idem := st\<rparr>) notify now (gp_key t a c dst) t a c dst desc actor"
proof -
  obtain bc m where bc: "spend_check (gp_spend s) bclock t a c = (bc, m)" by fastforce
  have ii: "idem_inv (gp_idem s)" by (rule gp_invD(2)[OF assms])
  let ?k = "gp_key t a c dst"
  show thesis
  proof (cases "sc_allowed bc")
    case False
    with bc unchanged show thesis
      by (simp add: initiate_payment_def gr_fail_def gr_default_def)
  next
    case True
    show thesis
    proof (cases "idem_check (gp_idem s) ?k")
      case None
      obtain r st where mf: "mark_in_flight (gp_idem s) ?k now = (r, st)" by fastforce
      obtain x where "r = Inr x"
        using mark_in_flight_Inl_iff[OF ii, of ?k now] mf None by (cases r) auto
      with starts[of m x st] True bc None mf show thesis by (simp add: initiate_payment_def)
    next
      case (Some ex)
      then have "ir_status ex = IdemInFlight \<or> ir_status ex = IdemCompleted \<and> ir_result ex \<noteq> None"
        using ii by (auto simp: idem_inv_def idem_check_def)
      then consider "ir_status ex = IdemInFlight"
        | cr where "ir_status ex = IdemCompleted" "ir_result ex = Some cr" by blast
      then show thesis
        using True bc Some unchanged
        by cases (simp_all add: initiate_payment_def gr_fail_def gr_default_def)
    qed
  qed
qed

lemma spend_check_keeps: "dict_get m x \<noteq> None \<Longrightarrow> dict_get (snd (spend_check m now t a c)) x \<noteq> None"
  by (auto simp: spend_check_def maybe_reset_def Let_def split: option.splits if_splits)

text \<open>A change of the budgets that removes none keeps the invariant.\<close>

lemma gp_inv_spend:
  assumes "gp_inv s" and "spend_inv m"
    and "\<And>x. dict_get (gp_spend s) x \<noteq> None \<Longrightarrow> dict_get m x \<noteq> None"
  shows "gp_inv (s\<lparr>gp_spend := m\<rparr>)"
  using assms by (auto simp: gp_inv_def gp_entry_ok_def gp_keys_def)

lemma gp_inv_opened:
  assumes inv: "gp_inv s" and none: "dict_get (gp_idem s) key = None"
    and mf: "mark_in_flight (gp_idem s) key now = (Inr x, gp_idem s1)"
    and s1: "s1 = s\<lparr>gp_idem := gp_idem s1\<rparr>"
    and op: "gp_opened s1 key t a c dst e s'" and bud: "dict_get (gp_spend s) t \<noteq> None"
  shows "gp_inv s'"
proof -
  let ?k = "gp_tx_id t key (Suc (gp_counter s))"
  have eq: "gp_ledger s1 = gp_ledger s" "gp_counter s1 = gp_counter s" "gp_spend s1 = gp_spend s"
    "gp_provider s1 = gp_provider s"
    by (subst s1, simp)+
  have o: "ledger_get (gp_ledger s) ?k = None" "ledger_inv (gp_ledger s')"
    "ledger_get (gp_ledger s') k' = (if k' = ?k then Some e else ledger_get (gp_ledger s) k')"
    "map tr_to (get_transitions (gp_ledger s') k') =
      (if k' = ?k then [PENDING_APPROVAL] else map tr_to (get_transitions (gp_ledger s) k'))"
    "te_state e = PENDING_APPROVAL" "te_idem_key e = key" "te_tenant_id e = t"
    "gp_counter s' = Suc (gp_counter s)" "gp_idem s' = gp_idem s1" "gp_spend s' = gp_spend s"
    "gp_provider s' = gp_provider s" for k'
    using op by (simp_all add: gp_opened_def Let_def eq)
  have ii: "idem_inv (gp_idem s')"
    using mark_in_flight_inv[OF gp_invD(2)[OF inv], of key now] mf o(9) by simp
  have entry: "gp_entry_ok s' k' e'" if "ledger_get (gp_ledger s') k' = Some e'" for k' e'
  proof (cases "k' = ?k")
    case True
    with that o(3) have "e' = e" by simp
    with True o bud show ?thesis by (auto simp: gp_entry_ok_def gp_stable_def gp_settled_def)
  next
    case False
    with that o(3) have "gp_entry_ok s k' e'" using gp_invD(4)[OF inv] by simp
    with False show ?thesis by (auto simp: gp_entry_ok_def o)
  qed
  have "gp_keys s' \<and> length (gp_idem s') \<le> gp_counter s'" if c: "gp_counter s' \<le> MAX_RECORDS"
  proof -
    have K: "gp_keys s" and len: "length (gp_idem s) \<le> gp_counter s"
      using inv c o(8) by (simp_all add: gp_inv_def)
    with c o(8) have "\<not> MAX_RECORDS \<le> length (gp_idem s)" by simp
    with mark_in_flight_Inr[OF mf gp_invD(2)[OF inv]] o(9)
    have st: "gp_idem s' = dict_set key x (gp_idem s)" and x: "ir_status x = IdemInFlight"
      by auto
    have old: "te_idem_key e' \<noteq> key"
      if "ledger_get (gp_ledger s) k' = Some e'" and "te_state e' \<in> gp_live" for k' e'
      using gp_key_live[OF K that] none by auto
    have "gp_keys s'"
      unfolding gp_keys_def
    proof (intro conjI allI impI)
      fix k' e'
      assume get: "ledger_get (gp_ledger s') k' = Some e'"
      show "gp_key_ok (gp_idem s') k' e'"
      proof (cases "k' = ?k")
        case True
        with get o(3) have "e' = e" by simp
        with o(5,6) x show ?thesis by (simp add: gp_key_ok_def st gp_settled_def)
      next
        case False
        with get o(3) have get': "ledger_get (gp_ledger s) k' = Some e'" by simp
        with K have "gp_key_ok (gp_idem s) k' e'" by (simp add: gp_keys_def)
        with old[OF get'] none show ?thesis
          by (auto simp: gp_key_ok_def st gp_live_def gp_settled_def)
      qed
    next
      fix k1 k2 e1 e2
      assume "ledger_get (gp_ledger s') k1 = Some e1" "ledger_get (gp_ledger s') k2 = Some e2"
        "te_state e1 \<in> gp_live" "te_state e2 \<in> gp_live" "te_idem_key e1 = te_idem_key e2"
      with K old o(6) show "k1 = k2"
        unfolding o(3) gp_keys_def by (metis option.inject)
    qed
    with len none o(8) show ?thesis by (simp add: st length_dict_set)
  qed
  with o ii entry gp_invD(3)[OF inv] show ?thesis by (simp add: gp_inv_def)
qed

lemma gp_inv_initiate:
  assumes inv: "gp_inv s"
  shows "gp_inv (snd (initiate_payment s notify now bclock t a c dst desc actor))"
proof -
  let ?m = "snd (spend_check (gp_spend s) bclock t a c)"
  have inv': "gp_inv (s\<lparr>gp_spend := ?m\<rparr>)"
    by (rule gp_inv_spend[OF inv spend_check_inv[OF gp_invD(3)[OF inv]] spend_check_keeps])
  show ?thesis
  proof (rule initiate_cases[OF inv, of notify now bclock t a c dst desc actor], goal_cases)
    case (1 r m)
    then show ?case using inv' by simp
  next
    case (2 m st x)
    let ?s0 = "s\<lparr>gp_spend := ?m\<rparr>"
    let ?s = "s\<lparr>gp_spend := m, gp_idem := st\<rparr>"
    let ?key = "gp_key t a c dst"
    have none: "dict_get (gp_idem s) ?key = None" using 2(3) by (simp add: idem_check_def)
    have li: "ledger_inv (gp_ledger ?s)" using gp_invD(1)[OF inv] by simp
    show ?case
    proof (cases "ledger_get (gp_ledger ?s) (gp_tx_id t ?key (Suc (gp_counter ?s)))")
      case None
      show ?thesis
      proof (rule gp_open_ok[OF li None, of notify now a c dst desc actor], goal_cases)
        case (1 res e s')
        have "dict_get ?m t \<noteq> None"
          using 2(2) spend_check_keeps by (fastforce simp: spend_check_def spend_denied_def split: option.splits)
        with gp_inv_opened[OF inv', of ?key now x ?s t a c dst e s'] 2 1 none show ?case by simp
      qed
    next
      case (Some y)
      have "x = \<lparr>ir_key = ?key, ir_status = IdemInFlight, ir_result = None, ir_created_at = now,
          ir_completed_at = []\<rparr>"
        and st: "st = dict_set ?key x (if MAX_RECORDS \<le> length (gp_idem s) then tl (gp_idem s) else gp_idem s)"
        using mark_in_flight_Inr[OF 2(4) gp_invD(2)[OF inv]] by auto
      have "idem_inv (mark_failed st ?key)"
        using mark_failed_inv mark_in_flight_inv[OF gp_invD(2)[OF inv], of ?key now] 2(4) by simp
      moreover have "gp_keys (?s\<lparr>gp_counter := Suc (gp_counter s), gp_idem := mark_failed st ?key\<rparr>) \<and>
          length (mark_failed st ?key) \<le> Suc (gp_counter s)"
        if "Suc (gp_counter s) \<le> MAX_RECORDS"
      proof -
        have K: "gp_keys s" and len: "length (gp_idem s) \<le> gp_counter s"
          using inv that by (simp_all add: gp_inv_def)
        then have "st = dict_set ?key x (gp_idem s)" using st that by simp
        then have "mark_failed st ?key = gp_idem s"
          using none by (simp add: mark_failed_def delete_update_same map_of_eq_None_iff)
        with K len show ?thesis by (simp add: gp_keys_def)
      qed
      ultimately show ?thesis
        using 2 Some inv' gp_open_collision[of ?s t ?key notify now a c dst desc actor]
        by (auto simp: gp_inv_def gp_entry_ok_def)
    qed
  qed
qed

section \<open>Executions\<close>

text \<open>
  The operations in any order, with any arguments and clock readings; the owner of the budget
  manager may register a budget at any time.  An exception leaves the state it was raised in.
\<close>

inductive gp_step :: "gp_state \<Rightarrow> gp_state \<Rightarrow> bool" where
  step_initiate: "initiate_payment s notify now bclock t a c dst desc actor = (r, s') \<Longrightarrow> gp_step s s'"
| step_approve: "approve_and_execute s now k approver ak = (r, s') \<Longrightarrow> gp_step s s'"
| step_deny: "deny s now k why actor = (r, s') \<Longrightarrow> gp_step s s'"
| step_refund: "gp_refund s now k why actor ak = (r, s') \<Longrightarrow> gp_step s s'"
| step_register: "gp_step s (s\<lparr>gp_spend := spend_register (gp_spend s) b\<rparr>)"

inductive gp_reachable :: "gp_state \<Rightarrow> bool" where
  reach_init: "gp_reachable (gp_init (stripe_init test_mode) [])"
| reach_step: "gp_reachable s \<Longrightarrow> gp_step s s' \<Longrightarrow> gp_reachable s'"

inductive_cases gp_stepE: "gp_step s s'"

lemma gp_step_inv: "gp_step s s' \<Longrightarrow> gp_inv s \<Longrightarrow> gp_inv s'"
proof (erule gp_stepE)
  fix notify now bclock t a c dst desc actor r
  show "gp_inv s \<Longrightarrow> initiate_payment s notify now bclock t a c dst desc actor = (r, s') \<Longrightarrow> gp_inv s'"
    using gp_inv_initiate[of s notify now bclock t a c dst desc actor] by simp
next
  fix now k approver ak r
  show "gp_inv s \<Longrightarrow> approve_and_execute s now k approver ak = (r, s') \<Longrightarrow> gp_inv s'"
    using gp_inv_approve[of s now k approver ak] by simp
next
  fix now k why actor r
  show "gp_inv s \<Longrightarrow> deny s now k why actor = (r, s') \<Longrightarrow> gp_inv s'"
    using gp_inv_deny[of s now k why actor] by simp
next
  fix now k why actor ak r
  show "gp_inv s \<Longrightarrow> gp_refund s now k why actor ak = (r, s') \<Longrightarrow> gp_inv s'"
    using gp_inv_refund[of s now k why actor ak] by simp
next
  fix b
  show "gp_inv s \<Longrightarrow> s' = s\<lparr>gp_spend := spend_register (gp_spend s) b\<rparr> \<Longrightarrow> gp_inv s'"
    by (simp only:) (rule gp_inv_spend; auto simp: spend_register_def spend_inv_def dest: gp_invD(3))
qed

lemma gp_reachable_inv: "gp_reachable s \<Longrightarrow> gp_inv s"
  by (induction rule: gp_reachable.induct)
     (simp_all add: gp_inv_init spend_inv_def gp_step_inv)


section \<open>What no operation changes\<close>

text \<open>
  The ledger is append-only: the history grows at its end, a transaction never disappears, keeps
  what it was created with, only adds transitions, and does not change once it is terminal.
\<close>

definition same_origin :: "tx_entry \<Rightarrow> tx_entry \<Rightarrow> bool" where
  "same_origin e e' \<longleftrightarrow> te_tx_id e' = te_tx_id e \<and> te_idem_key e' = te_idem_key e \<and>
     te_tenant_id e' = te_tenant_id e \<and> te_debit e' = te_debit e \<and> te_credit e' = te_credit e \<and>
     te_amount e' = te_amount e \<and> te_currency e' = te_currency e \<and>
     te_provider e' = te_provider e \<and> te_proof_hash e' = te_proof_hash e \<and>
     te_description e' = te_description e \<and> te_created_at e' = te_created_at e"

definition ledger_extends :: "tx_ledger \<Rightarrow> tx_ledger \<Rightarrow> bool" where
  "ledger_extends l l' \<longleftrightarrow> (\<exists>h. lg_history l' = lg_history l @ h) \<and>
     (\<forall>k e. ledger_get l k = Some e \<longrightarrow>
        (\<exists>e'. ledger_get l' k = Some e' \<and> same_origin e e' \<and> (is_terminal (te_state e) \<longrightarrow> e' = e) \<and>
          (\<exists>ts. get_transitions l' k = get_transitions l k @ ts)))"

lemma ledger_extends_refl [simp]: "ledger_extends l l"
  by (simp add: ledger_extends_def same_origin_def)

lemma ledger_extends_trans:
  assumes "ledger_extends l l'" and "ledger_extends l' l''"
  shows "ledger_extends l l''"
  unfolding ledger_extends_def
proof (intro conjI allI impI)
  show "\<exists>h. lg_history l'' = lg_history l @ h"
    using assms unfolding ledger_extends_def by (metis append.assoc)
next
  fix k e
  assume "ledger_get l k = Some e"
  with assms(1) obtain e' ts where 1: "ledger_get l' k = Some e'" "same_origin e e'"
    "is_terminal (te_state e) \<longrightarrow> e' = e" "get_transitions l' k = get_transitions l k @ ts"
    unfolding ledger_extends_def by blast
  with assms(2) obtain e'' ts' where "ledger_get l'' k = Some e''" "same_origin e' e''"
    "is_terminal (te_state e') \<longrightarrow> e'' = e'" "get_transitions l'' k = get_transitions l' k @ ts'"
    unfolding ledger_extends_def by blast
  with 1 show "\<exists>e'. ledger_get l'' k = Some e' \<and> same_origin e e' \<and>
      (is_terminal (te_state e) \<longrightarrow> e' = e) \<and> (\<exists>ts. get_transitions l'' k = get_transitions l k @ ts)"
    by (auto simp: same_origin_def)
qed

lemma ledger_extends_create: "ledger_extends l (snd (ledger_create l t ik ten d c a cur p desc cat))"
  by (auto simp: ledger_extends_def ledger_create_def ledger_get_def get_transitions_def Let_def
           same_origin_def)

lemma ledger_extends_advance: "ledger_extends l (snd (ledger_advance l k st r a ts p ap))"
proof (cases "ledger_advance l k st r a ts p ap")
  case (Pair res l')
  show ?thesis
  proof (cases res)
    case (Inl x)
    with Pair show ?thesis by (auto dest: ledger_advance_Inl)
  next
    case (Inr e')
    with Pair obtain e trs where *: "ledger_get l k = Some e" "validate_transition (te_state e) st"
      "dict_get (lg_transitions l) k = Some trs"
      and e': "e' = e\<lparr>te_state := st, te_provider_tx_id := str_or p (te_provider_tx_id e),
                te_approval_id := str_or ap (te_approval_id e), te_updated_at := ts\<rparr>"
      and l': "l' = l\<lparr>lg_entries := dict_set k e' (lg_entries l), lg_history := lg_history l @ [e'],
           lg_transitions := dict_set k (trs @ [\<lparr>tr_from = te_state e, tr_to = st, tr_reason = r,
             tr_actor = a, tr_at = ts\<rparr>]) (lg_transitions l)\<rparr>"
      by (auto elim: ledger_advance_Inr)
    have "\<not> is_terminal (te_state e)" using *(2) tx.terminal_stuck by blast
    then show ?thesis
      using * by (auto simp: Pair l' ledger_extends_def ledger_get_def get_transitions_def
          same_origin_def e')
  qed
qed

lemma gp_advance_extends [intro!]:
  assumes "ledger_extends l (gp_ledger s)"
  shows "ledger_extends l (gp_ledger (snd (gp_advance s k st r a ts p)))"
proof -
  have "gp_ledger (snd (gp_advance s k st r a ts p)) =
      snd (ledger_advance (gp_ledger s) k st r a ts p [])"
    by (auto simp: gp_advance_def split: prod.splits sum.splits)
  with ledger_extends_trans[OF assms ledger_extends_advance] show ?thesis by simp
qed

lemma gp_bind_extends [intro!]:
  assumes "ledger_extends l (gp_ledger (snd m))"
    and "\<And>x s. ledger_extends l (gp_ledger s) \<Longrightarrow> ledger_extends l (gp_ledger (snd (f x s)))"
  shows "ledger_extends l (gp_ledger (snd (gp_bind m f)))"
proof (cases m)
  case (Pair r s)
  with assms show ?thesis by (cases r) auto
qed

lemma gp_record_spend_ledger [simp]: "gp_ledger (snd (gp_record_spend s t a)) = gp_ledger s"
  by (auto simp: gp_record_spend_def split: prod.splits sum.splits)

lemma gp_open_extends:
  "ledger_extends (gp_ledger s) (gp_ledger (snd (gp_open s notify now key t a c dst desc actor)))"
proof -
  obtain r l where cr: "ledger_create (gp_ledger s) (gp_tx_id t key (Suc (gp_counter s))) key t
      (''tenant:'' @ t) (''dest:'' @ dst) a c stripe_provider_name desc now = (r, l)"
    by fastforce
  then have "ledger_extends (gp_ledger s) l"
    using ledger_extends_create by (metis snd_conv)
  then show ?thesis
    by (auto simp: gp_open_def Let_def cr simp del: append.simps split: sum.splits)
qed

lemma initiate_extends:
  "ledger_extends (gp_ledger s)
     (gp_ledger (snd (initiate_payment s notify now bclock t a c dst desc actor)))"
proof -
  have "ledger_extends (gp_ledger s)
     (gp_ledger (snd (gp_open (s\<lparr>gp_spend := m, gp_idem := st\<rparr>) notify now key t a c dst desc actor)))"
    for m st key
    using gp_open_extends[of "s\<lparr>gp_spend := m, gp_idem := st\<rparr>" notify now key t a c dst desc actor]
    by simp
  then show ?thesis
    by (auto simp: initiate_payment_def Let_def split: prod.splits option.splits sum.splits)
qed

lemma approve_extends:
  "ledger_extends (gp_ledger s) (gp_ledger (snd (approve_and_execute s now k approver ak)))"
  by (auto simp: approve_and_execute_def Let_def split: prod.splits option.splits)

lemma deny_extends: "ledger_extends (gp_ledger s) (gp_ledger (snd (deny s now k why actor)))"
  by (auto simp: deny_def split: option.splits)

lemma refund_extends:
  "ledger_extends (gp_ledger s) (gp_ledger (snd (gp_refund s now k why actor ak)))"
  by (auto simp: gp_refund_def Let_def split: prod.splits option.splits)

lemma gp_step_extends: "gp_step s s' \<Longrightarrow> ledger_extends (gp_ledger s) (gp_ledger s')"
  by (erule gp_stepE)
     (metis snd_conv initiate_extends approve_extends deny_extends refund_extends | simp)+

end
