(* ===== verification/Payment_Properties.thy ===== *)
theory Payment_Properties
  imports Governed_Payment
begin

section \<open>A worked execution\<close>

definition demo_budget :: "decimal \<Rightarrow> spend_budget" where
  "demo_budget daily = \<lparr>sb_budget_id = ''b1'', sb_tenant_id = ''acme'', sb_currency = ''USD'',
     sb_per_tx_limit = Dec 500 0, sb_daily_limit = daily, sb_weekly_limit = Dec 5000 0,
     sb_monthly_limit = Dec 10000 0, sb_today = dec_zero, sb_week = dec_zero, sb_month = dec_zero,
     sb_last_reset_at = []\<rparr>"

definition demo_key :: string where
  "demo_key = gp_key ''acme'' (Dec 60 0) ''USD'' ''vendor''"

definition demo_tx :: string where
  "demo_tx = gp_tx_id ''acme'' demo_key 1"

definition demo_registered :: gp_state where
  "demo_registered = (gp_init (stripe_init True) [])
     \<lparr>gp_spend := spend_register [] (demo_budget (Dec 1000 0))\<rparr>"

definition demo_pending :: gp_state where
  "demo_pending = snd (initiate_payment demo_registered None ''t1'' None ''acme'' (Dec 60 0) ''USD''
     ''vendor'' ''invoice 7'' ''ann'')"

definition demo_settled :: gp_state where
  "demo_settled = snd (approve_and_execute demo_pending ''t2'' demo_tx ''bob'' [])"

definition demo_refunded :: gp_state where
  "demo_refunded = snd (gp_refund demo_settled ''t3'' demo_tx ''returned'' ''bob'' [])"

lemma demo_reachable:
  "gp_reachable demo_registered" "gp_reachable demo_pending" "gp_reachable demo_settled"
  "gp_reachable demo_refunded"
proof -
  show 1: "gp_reachable demo_registered"
    using reach_step[OF reach_init step_register, of True "demo_budget (Dec 1000 0)"]
    by (simp add: demo_registered_def gp_init_def)
  show 2: "gp_reachable demo_pending"
    unfolding demo_pending_def by (rule reach_step[OF 1]) (rule step_initiate, rule prod.collapse[symmetric])
  show 3: "gp_reachable demo_settled"
    unfolding demo_settled_def by (rule reach_step[OF 2]) (rule step_approve, rule prod.collapse[symmetric])
  show "gp_reachable demo_refunded"
    unfolding demo_refunded_def by (rule reach_step[OF 3]) (rule step_refund, rule prod.collapse[symmetric])
qed

lemma demo_check:
  "spend_check (spend_register [] (demo_budget (Dec 1000 0))) None ''acme'' (Dec 60 0) ''USD'' =
     (\<lparr>sc_allowed = True, sc_reason = [], sc_budget_id = ''b1'', sc_remaining_daily = Dec 940 0,
       sc_remaining_monthly = Dec 9940 0\<rparr>, spend_register [] (demo_budget (Dec 1000 0)))"
  by code_simp

lemma demo_mark: "mark_in_flight [] k t = (Inr \<lparr>ir_key = k, ir_status = IdemInFlight, ir_result = None,
    ir_created_at = t, ir_completed_at = []\<rparr>, [(k, \<lparr>ir_key = k, ir_status = IdemInFlight,
    ir_result = None, ir_created_at = t, ir_completed_at = []\<rparr>)])"
  by (simp add: mark_in_flight_def idem_check_def Let_def MAX_RECORDS_def)

lemma demo_pending_opened:
  obtains e where "gp_opened (demo_registered\<lparr>gp_idem := gp_idem demo_pending\<rparr>) demo_key ''acme''
      (Dec 60 0) ''USD'' ''vendor'' e demo_pending"
    and "ir_status (the (dict_get (gp_idem demo_pending) demo_key)) = IdemInFlight"
proof -
  let ?st = "[(demo_key, \<lparr>ir_key = demo_key, ir_status = IdemInFlight, ir_result = None,
    ir_created_at = ''t1'', ir_completed_at = []\<rparr>)]"
  let ?s = "demo_registered\<lparr>gp_idem := ?st\<rparr>"
  have li: "ledger_inv (gp_ledger ?s)"
    and none: "ledger_get (gp_ledger ?s) (gp_tx_id ''acme'' demo_key (Suc (gp_counter ?s))) = None"
    by (simp_all add: demo_registered_def gp_init_def)
  have eq: "demo_pending = snd (gp_open ?s None ''t1'' demo_key ''acme'' (Dec 60 0) ''USD'' ''vendor''
      ''invoice 7'' ''ann'')"
    unfolding demo_pending_def initiate_payment_def
    by (simp add: demo_registered_def gp_init_def demo_check demo_mark idem_check_def demo_key_def Let_def)
  obtain res e s' where "gp_open ?s None ''t1'' demo_key ''acme'' (Dec 60 0) ''USD'' ''vendor''
      ''invoice 7'' ''ann'' = (Inr res, s')" and
    op: "gp_opened ?s demo_key ''acme'' (Dec 60 0) ''USD'' ''vendor'' e s'"
    using gp_open_ok[OF li none] by metis
  with eq have s': "s' = demo_pending" by simp
  have "gp_idem demo_pending = ?st" using op by (simp add: s' gp_opened_def Let_def)
  with that op s' show thesis by simp
qed

lemma demo_pending_entry:
  obtains e where "ledger_get (gp_ledger demo_pending) demo_tx = Some e"
    and "te_state e = PENDING_APPROVAL" and "te_amount e = Dec 60 0" and "te_tenant_id e = ''acme''"
    and "te_idem_key e = demo_key" and "gp_counter demo_pending = 1"
    and "gp_spend demo_pending = gp_spend demo_registered" and "gp_accepts demo_pending e"
proof -
  obtain e where "gp_opened (demo_registered\<lparr>gp_idem := gp_idem demo_pending\<rparr>) demo_key ''acme''
      (Dec 60 0) ''USD'' ''vendor'' e demo_pending"
    by (rule demo_pending_opened)
  with that show thesis
    by (auto simp: gp_opened_def Let_def demo_registered_def gp_init_def demo_tx_def gp_accepts_def
        stripe_init_def dec_order_val dec_val_def dec_zero_def)
qed

lemma demo_settled_entry:
  obtains e where "ledger_get (gp_ledger demo_settled) demo_tx = Some e"
    and "te_state e = SETTLED" and "te_idem_key e = demo_key" and "gp_counter demo_settled = 1"
proof -
  obtain e where e: "ledger_get (gp_ledger demo_pending) demo_tx = Some e"
      "te_state e = PENDING_APPROVAL" "te_tenant_id e = ''acme''" "te_idem_key e = demo_key"
    and c: "gp_counter demo_pending = 1" and sp: "gp_spend demo_pending = gp_spend demo_registered"
    and acc: "gp_accepts demo_pending e"
    by (rule demo_pending_entry)
  have inv: "ledger_inv (gp_ledger demo_pending)"
    using gp_invD(1) gp_reachable_inv demo_reachable(2) by blast
  have b: "dict_get (gp_spend demo_pending) (te_tenant_id e) = Some (demo_budget (Dec 1000 0))"
    by (simp add: e sp demo_registered_def spend_register_def demo_budget_def)
  show thesis
    by (rule approve_settles[OF inv e(1,2) acc b, of "''t2''" "''bob''" "[]"])
       (rule that, auto simp: demo_settled_def ledger_moved_get e c)
qed


section \<open>Properties\<close>

lemma ledger_path:
  assumes "ledger_inv l" and "ledger_get l k = Some e"
  shows "legal_path validate_transition CREATED (map tr_to (get_transitions l k)) \<and>
    last (CREATED # map tr_to (get_transitions l k)) = te_state e"
  using assms tx_chain_path by (fastforce simp: ledger_inv_def ledger_get_def get_transitions_def)

text \<open>
  C1: In every reachable state of the executor, a payment whose money was moved (settled, or
  refunded afterwards) went through the states pending approval, authorized, captured and settled,
  in this order: no payment skips its approval.
\<close>

theorem settled_via_approval:
  assumes "gp_reachable s" and "ledger_get (gp_ledger s) k = Some e"
    and "te_state e = SETTLED \<or> te_state e = REFUNDED"
  shows "\<exists>p. map tr_to (get_transitions (gp_ledger s) k) =
    [PENDING_APPROVAL, AUTHORIZED, CAPTURED, SETTLED] @ p"
proof -
  have inv: "gp_inv s" by (rule gp_reachable_inv[OF assms(1)])
  let ?p = "map tr_to (get_transitions (gp_ledger s) k)"
  note path = ledger_path[OF gp_invD(1)[OF inv] assms(2)]
  obtain q where q: "?p = PENDING_APPROVAL # q"
    using gp_invD(4)[OF inv assms(2)] by (auto simp: gp_entry_ok_def)
  have settled: "r = [PENDING_APPROVAL, AUTHORIZED, CAPTURED, SETTLED]"
    if "legal_path validate_transition CREATED r" "last (CREATED # r) = SETTLED"
      "r = PENDING_APPROVAL # r'" for r r'
    using path_to_SETTLED[OF that(1,2)] that(3) by auto
  from assms(3) show ?thesis
  proof
    assume "te_state e = SETTLED"
    with settled[of ?p q] path q show ?thesis by simp
  next
    assume R: "te_state e = REFUNDED"
    obtain r where r: "?p = r @ [REFUNDED]" and lr: "last (CREATED # r) = REFUND_PENDING"
      and pr: "legal_path validate_transition CREATED r"
      using path R by (cases ?p rule: rev_cases) auto
    obtain r' where r': "r = r' @ [REFUND_PENDING]" and lr': "last (CREATED # r') = SETTLED"
      and pr': "legal_path validate_transition CREATED r'"
      using pr lr by (cases r rule: rev_cases) auto
    have "\<exists>x. r' = PENDING_APPROVAL # x"
      using q r r' lr' by (cases r') auto
    with settled[OF pr' lr'] r r' show ?thesis by auto
  qed
qed

theorem settled_via_approval_witness:
  "\<exists>e p. ledger_get (gp_ledger demo_settled) demo_tx = Some e \<and>
     map tr_to (get_transitions (gp_ledger demo_settled) demo_tx) =
       [PENDING_APPROVAL, AUTHORIZED, CAPTURED, SETTLED] @ p"
proof -
  obtain e where e: "ledger_get (gp_ledger demo_settled) demo_tx = Some e" "te_state e = SETTLED"
    by (rule demo_settled_entry)
  with settled_via_approval[OF demo_reachable(3) e(1)] show ?thesis by blast
qed

text \<open>
  C2: As long as the executor has opened at most \<open>MAX_RECORDS\<close> payments (so that the store has
  evicted no key), two payments with the same idempotency key are never both live, that is pending,
  settled or refunded: the same request is paid at most once.
\<close>

theorem one_live_payment_per_key:
  assumes "gp_reachable s" and "gp_counter s \<le> MAX_RECORDS"
    and "ledger_get (gp_ledger s) k = Some e" and "ledger_get (gp_ledger s) k' = Some e'"
    and "te_state e \<in> {PENDING_APPROVAL, SETTLED, REFUNDED}"
    and "te_state e' \<in> {PENDING_APPROVAL, SETTLED, REFUNDED}"
    and "te_idem_key e = te_idem_key e'"
  shows "k = k'"
proof -
  have "gp_keys s" using gp_reachable_inv[OF assms(1)] assms(2) by (simp add: gp_inv_def)
  with assms(3-) show ?thesis unfolding gp_keys_def gp_live_def by blast
qed

theorem one_live_payment_per_key_witness:
  "\<exists>e. ledger_get (gp_ledger demo_settled) demo_tx = Some e \<and> te_state e = SETTLED \<and>
     (\<forall>k' e'. ledger_get (gp_ledger demo_settled) k' = Some e' \<and> te_state e' = SETTLED \<and>
        te_idem_key e' = demo_key \<longrightarrow> k' = demo_tx)"
proof -
  obtain e where e: "ledger_get (gp_ledger demo_settled) demo_tx = Some e" "te_state e = SETTLED"
    "te_idem_key e = demo_key" "gp_counter demo_settled = 1"
    by (rule demo_settled_entry)
  then have "gp_counter demo_settled \<le> MAX_RECORDS" by (simp add: MAX_RECORDS_def)
  with one_live_payment_per_key[OF demo_reachable(3) _ e(1)] e show ?thesis by fastforce
qed

text \<open>
  C3: Approving a pending payment of a reachable state always returns (it raises nothing) and calls
  the provider exactly once.  When the provider accepts the payment it is settled and the amount is
  added to the three counters of the tenant's budget; when it does not, the payment is failed, its
  key is free again and no budget changes.  Approving anything else changes nothing.
\<close>

theorem approve_outcome:
  assumes "gp_reachable s" and "approve_and_execute s now k approver ak = (r, s')"
  shows "case ledger_get (gp_ledger s) k of
      None \<Rightarrow> s' = s \<and> (\<exists>x. r = Inr x \<and> \<not> gr_success x)
    | Some e \<Rightarrow>
        if te_state e \<noteq> PENDING_APPROVAL then s' = s \<and> (\<exists>x. r = Inr x \<and> \<not> gr_success x)
        else sp_call_count (gp_provider s') = Suc (sp_call_count (gp_provider s)) \<and>
          (\<exists>x e' b. r = Inr x \<and> ledger_get (gp_ledger s') k = Some e' \<and>
             dict_get (gp_spend s) (te_tenant_id e) = Some b \<and>
             (if gp_accepts s e
              then gr_success x \<and> te_state e' = SETTLED \<and>
                dict_get (gp_spend s') (te_tenant_id e) = Some (b
                  \<lparr>sb_today := dec_add (sb_today b) (te_amount e),
                   sb_week := dec_add (sb_week b) (te_amount e),
                   sb_month := dec_add (sb_month b) (te_amount e)\<rparr>)
              else \<not> gr_success x \<and> te_state e' = FAILED \<and> gp_spend s' = gp_spend s \<and>
                idem_check (gp_idem s') (te_idem_key e) = None))"
proof (cases "ledger_get (gp_ledger s) k")
  case None
  with assms(2) show ?thesis by (auto simp: approve_and_execute_def gr_fail_def gr_default_def)
next
  case (Some e)
  have inv: "gp_inv s" by (rule gp_reachable_inv[OF assms(1)])
  obtain b where b: "dict_get (gp_spend s) (te_tenant_id e) = Some b"
    using gp_invD(4)[OF inv Some] by (auto simp: gp_entry_ok_def)
  show ?thesis
  proof (cases "te_state e = PENDING_APPROVAL")
    case False
    with Some assms(2) show ?thesis
      by (auto simp: approve_and_execute_def gr_fail_def gr_default_def)
  next
    case st: True
    show ?thesis
    proof (cases "gp_accepts s e")
      case True
      show ?thesis
        by (rule approve_settles[OF gp_invD(1)[OF inv] Some st True b, of now approver ak])
           (use Some st True b assms(2) in \<open>auto simp: count_call_def ledger_moved_get\<close>)
    next
      case False
      show ?thesis
        by (rule approve_fails[OF gp_invD(1)[OF inv] Some st False, of now approver ak])
           (use Some st False b assms(2) in
             \<open>auto simp: count_call_def ledger_moved_get idem_check_def mark_failed_def\<close>)
    qed
  qed
qed

theorem approve_outcome_witness:
  "sp_call_count (gp_provider demo_settled) = Suc (sp_call_count (gp_provider demo_pending)) \<and>
   (\<exists>e'. ledger_get (gp_ledger demo_settled) demo_tx = Some e' \<and> te_state e' = SETTLED)"
proof -
  obtain r where r: "approve_and_execute demo_pending ''t2'' demo_tx ''bob'' [] = (r, demo_settled)"
    unfolding demo_settled_def by (metis prod.collapse)
  obtain e where "ledger_get (gp_ledger demo_pending) demo_tx = Some e"
      "te_state e = PENDING_APPROVAL" "gp_accepts demo_pending e"
    by (rule demo_pending_entry)
  with approve_outcome[OF demo_reachable(2) r] show ?thesis by auto
qed


text \<open>
  An initiation that the budget refuses is denied before anything else happens: the ledger, the
  idempotency store, the provider and the transaction counter stay as they were.
\<close>

theorem over_budget_denied:
  assumes "\<not> sc_allowed (fst (spend_check (gp_spend s) bclock t a c))"
  shows "\<exists>x m. initiate_payment s notify now bclock t a c dst desc actor = (Inr x, s\<lparr>gp_spend := m\<rparr>) \<and>
    \<not> gr_success x \<and> take 20 (gr_error x) = ''spend budget denied:''"
  using assms by (auto simp: initiate_payment_def gr_fail_def gr_default_def split: prod.splits)

theorem over_budget_denied_witness:
  "\<exists>x m. initiate_payment demo_registered None ''t1'' None ''acme'' (Dec 501 0) ''USD'' ''v'' [] [] =
     (Inr x, demo_registered\<lparr>gp_spend := m\<rparr>) \<and> \<not> gr_success x"
proof -
  have "\<not> sc_allowed (fst (spend_check (gp_spend demo_registered) None ''acme'' (Dec 501 0) ''USD''))"
    by code_simp
  from over_budget_denied[OF this] show ?thesis by blast
qed

text \<open>
  A request that repeats a settled payment (the budget still allowing it) is answered with the
  identifier of that payment and changes neither the ledger nor the store nor the provider; one that
  repeats a pending payment is refused, with the same frame.
\<close>

theorem repeated_request:
  assumes "gp_reachable s" and "gp_counter s \<le> MAX_RECORDS"
    and "ledger_get (gp_ledger s) k = Some e" and "te_state e \<in> {PENDING_APPROVAL, SETTLED, REFUNDED}"
    and "te_idem_key e = gp_key t a c dst"
    and "sc_allowed (fst (spend_check (gp_spend s) bclock t a c))"
  shows "\<exists>x m. initiate_payment s notify now bclock t a c dst desc actor = (Inr x, s\<lparr>gp_spend := m\<rparr>) \<and>
    (if te_state e = PENDING_APPROVAL then \<not> gr_success x
     else gr_success x \<and> gr_state x = ''completed_duplicate'' \<and> gr_tx_id x = k)"
proof -
  have "gp_keys s" using gp_reachable_inv[OF assms(1)] assms(2) by (simp add: gp_inv_def)
  with assms(3) have "gp_key_ok (gp_idem s) k e" by (simp add: gp_keys_def)
  with assms(4-6) show ?thesis
    by (auto simp: gp_key_ok_def gp_settled_def initiate_payment_def idem_check_def gr_fail_def
        gr_default_def split: prod.splits)
qed

theorem repeated_request_witness:
  "\<exists>x m. initiate_payment demo_pending None ''t9'' None ''acme'' (Dec 60 0) ''USD'' ''vendor'' [] [] =
     (Inr x, demo_pending\<lparr>gp_spend := m\<rparr>) \<and> \<not> gr_success x"
proof -
  obtain e where e: "ledger_get (gp_ledger demo_pending) demo_tx = Some e"
      "te_state e = PENDING_APPROVAL" "te_idem_key e = demo_key" "gp_counter demo_pending = 1"
    and sp: "gp_spend demo_pending = gp_spend demo_registered"
    by (rule demo_pending_entry)
  have "gp_counter demo_pending \<le> MAX_RECORDS" by (simp add: e MAX_RECORDS_def)
  moreover have "sc_allowed (fst (spend_check (gp_spend demo_pending) None ''acme'' (Dec 60 0) ''USD''))"
    by (simp add: sp demo_registered_def demo_check)
  ultimately show ?thesis
    using repeated_request[OF demo_reachable(2) _ e(1), of "''acme''" "Dec 60 0" "''USD''" "''vendor''"]
      e by (simp add: demo_key_def)
qed

text \<open>
  Denying a pending payment rejects it and frees its key, without calling the provider; denying
  any other known payment raises an exception and leaves the whole state as it was.
\<close>

theorem deny_outcome:
  assumes "gp_reachable s" and "ledger_get (gp_ledger s) k = Some e"
    and "deny s now k why actor = (r, s')"
  shows "if te_state e = PENDING_APPROVAL
    then (\<exists>x e'. r = Inr x \<and> gr_success x \<and> ledger_get (gp_ledger s') k = Some e' \<and>
            te_state e' = REJECTED) \<and>
         idem_check (gp_idem s') (te_idem_key e) = None \<and> gp_provider s' = gp_provider s
    else (\<exists>x. r = Inl x) \<and> s' = s"
proof -
  have inv: "gp_inv s" by (rule gp_reachable_inv[OF assms(1)])
  show ?thesis
  proof (cases "te_state e = PENDING_APPROVAL")
    case True
    show ?thesis
      by (rule deny_rejects[OF gp_invD(1)[OF inv] assms(2) True, of now why actor])
         (use assms(3) True in \<open>auto simp: ledger_moved_get idem_check_def mark_failed_def gr_default_def\<close>)
  next
    case False
    have "te_state e \<in> gp_stable" using gp_invD(4)[OF inv assms(2)] by (simp add: gp_entry_ok_def)
    from deny_raises[OF assms(2) this False] obtain x where "deny s now k why actor = (Inl (ExcTx x), s)"
      by blast
    with assms(3) False show ?thesis by auto
  qed
qed

theorem deny_outcome_witness:
  "(\<exists>x. fst (deny demo_settled ''t4'' demo_tx [] ''eve'') = Inl x) \<and>
   snd (deny demo_settled ''t4'' demo_tx [] ''eve'') = demo_settled"
proof -
  obtain e where e: "ledger_get (gp_ledger demo_settled) demo_tx = Some e" "te_state e = SETTLED"
    by (rule demo_settled_entry)
  with deny_outcome[OF demo_reachable(3) e(1) prod.collapse[symmetric], of "''t4''" "[]" "''eve''"]
  show ?thesis by simp
qed

text \<open>
  A settled payment of a reachable state can always be refunded: the refund returns, makes one
  provider call, ends in the state refunded and leaves budgets and keys alone.  Any other payment is
  refused without an effect.
\<close>

theorem refund_outcome:
  assumes "gp_reachable s" and "ledger_get (gp_ledger s) k = Some e"
    and "gp_refund s now k why actor ak = (r, s')"
  shows "if te_state e = SETTLED
    then (\<exists>x e'. r = Inr x \<and> gr_success x \<and> ledger_get (gp_ledger s') k = Some e' \<and>
            te_state e' = REFUNDED \<and> te_amount e' = te_amount e) \<and>
         sp_call_count (gp_provider s') = Suc (sp_call_count (gp_provider s)) \<and>
         gp_idem s' = gp_idem s \<and> gp_spend s' = gp_spend s
    else (\<exists>x. r = Inr x \<and> \<not> gr_success x) \<and> s' = s"
proof -
  have inv: "gp_inv s" by (rule gp_reachable_inv[OF assms(1)])
  show ?thesis
  proof (cases "te_state e = SETTLED")
    case True
    then have ok: "sp_test_mode (gp_provider s)" "te_provider_tx_id e \<noteq> []"
      using gp_invD(4)[OF inv assms(2)] by (simp_all add: gp_entry_ok_def gp_settled_def)
    show ?thesis
      by (rule refund_refunds[OF gp_invD(1)[OF inv] assms(2) True ok, of now why actor ak])
         (use assms(3) True in \<open>auto simp: ledger_moved_get count_call_def\<close>)
  next
    case False
    with assms show ?thesis by (auto simp: gp_refund_def gr_fail_def gr_default_def)
  qed
qed

theorem refund_outcome_witness:
  "\<exists>e'. ledger_get (gp_ledger demo_refunded) demo_tx = Some e' \<and> te_state e' = REFUNDED"
proof -
  obtain e where e: "ledger_get (gp_ledger demo_settled) demo_tx = Some e" "te_state e = SETTLED"
    by (rule demo_settled_entry)
  obtain r where r: "gp_refund demo_settled ''t3'' demo_tx ''returned'' ''bob'' [] = (r, demo_refunded)"
    unfolding demo_refunded_def by (metis prod.collapse)
  from refund_outcome[OF demo_reachable(3) e(1) r] e(2) show ?thesis by auto
qed

text \<open>
  C4: The ledger is append-only under every operation: the history grows at its end, a transaction
  keeps its identifier, parties, amount, currency and proof hash for ever, its transitions only grow,
  and once it is terminal it never changes.
\<close>

theorem ledger_append_only:
  assumes "gp_step s s'"
  shows "(\<exists>h. lg_history (gp_ledger s') = lg_history (gp_ledger s) @ h) \<and>
    (\<forall>k e. ledger_get (gp_ledger s) k = Some e \<longrightarrow>
       (\<exists>e' ts. ledger_get (gp_ledger s') k = Some e' \<and>
          get_transitions (gp_ledger s') k = get_transitions (gp_ledger s) k @ ts \<and>
          te_tx_id e' = te_tx_id e \<and> te_idem_key e' = te_idem_key e \<and>
          te_tenant_id e' = te_tenant_id e \<and> te_debit e' = te_debit e \<and>
          te_credit e' = te_credit e \<and> te_amount e' = te_amount e \<and>
          te_currency e' = te_currency e \<and> te_proof_hash e' = te_proof_hash e \<and>
          (is_terminal (te_state e) \<longrightarrow> e' = e)))"
  using gp_step_extends[OF assms] unfolding ledger_extends_def same_origin_def by fast

theorem ledger_append_only_witness:
  "\<exists>h. lg_history (gp_ledger demo_settled) = lg_history (gp_ledger demo_pending) @ h"
proof -
  have "gp_step demo_pending demo_settled"
    unfolding demo_settled_def by (rule step_approve, rule prod.collapse[symmetric])
  from ledger_append_only[OF this] show ?thesis by blast
qed

text \<open>
  The budget is consulted when a payment is initiated and not when it is approved: a pending
  payment that the provider accepts is settled whatever the limits say, so that approvals can take
  the day's total beyond the daily limit.
\<close>

theorem approval_overruns_budget:
  assumes "gp_reachable s" and "ledger_get (gp_ledger s) k = Some e"
    and "te_state e = PENDING_APPROVAL" and "gp_accepts s e"
    and "dict_get (gp_spend s) (te_tenant_id e) = Some b"
    and "dec_less (sb_daily_limit b) (dec_add (sb_today b) (te_amount e))"
  shows "\<exists>x b'. fst (approve_and_execute s now k approver ak) = Inr x \<and> gr_success x \<and>
    dict_get (gp_spend (snd (approve_and_execute s now k approver ak))) (te_tenant_id e) = Some b' \<and>
    sb_daily_limit b' = sb_daily_limit b \<and> \<not> within_budget b'"
proof -
  have inv: "gp_inv s" by (rule gp_reachable_inv[OF assms(1)])
  have "\<not> dec_le (dec_add (sb_today b) (te_amount e)) (sb_daily_limit b)"
    using assms(6) by (simp add: dec_order_val)
  then show ?thesis
    by - (rule approve_settles[OF gp_invD(1)[OF inv] assms(2-5), of now approver ak],
        auto simp: within_budget_def)
qed

text \<open>The tenant's limit was lowered between the initiation and the approval.\<close>

definition demo_lowered :: gp_state where
  "demo_lowered = demo_pending
     \<lparr>gp_spend := spend_register (gp_spend demo_pending) (demo_budget (Dec 50 0))\<rparr>"

theorem approval_overruns_budget_witness:
  "\<exists>x b'. fst (approve_and_execute demo_lowered ''t2'' demo_tx ''bob'' []) = Inr x \<and> gr_success x \<and>
    dict_get (gp_spend (snd (approve_and_execute demo_lowered ''t2'' demo_tx ''bob'' []))) ''acme'' =
      Some b' \<and> sb_daily_limit b' = Dec 50 0 \<and> \<not> within_budget b'"
proof -
  obtain e where e: "ledger_get (gp_ledger demo_pending) demo_tx = Some e"
      "te_state e = PENDING_APPROVAL" "te_amount e = Dec 60 0" "te_tenant_id e = ''acme''"
    and acc: "gp_accepts demo_pending e"
    by (rule demo_pending_entry)
  have r: "gp_reachable demo_lowered"
    unfolding demo_lowered_def by (rule reach_step[OF demo_reachable(2) step_register])
  have e': "ledger_get (gp_ledger demo_lowered) demo_tx = Some e" "gp_accepts demo_lowered e"
    using e acc by (simp_all add: demo_lowered_def gp_accepts_def)
  have b: "dict_get (gp_spend demo_lowered) (te_tenant_id e) = Some (demo_budget (Dec 50 0))"
    by (simp add: e demo_lowered_def spend_register_def demo_budget_def)
  have "dec_less (sb_daily_limit (demo_budget (Dec 50 0)))
      (dec_add (sb_today (demo_budget (Dec 50 0))) (Dec 60 0))"
    by code_simp
  with approval_overruns_budget[OF r e'(1) e(2) e'(2) b, of "''t2''" "''bob''" "[]"] e(3,4)
  show ?thesis by (simp add: demo_budget_def)
qed

end
