(* ===== verification/Payment_Router.thy ===== *)
theory Payment_Router
  imports Py_Prelude
begin

text \<open>
  \<open>skills/financial/providers/payment_provider.py\<close>: the payment backends and the router over them.

  A backend is an object with its own state of some type \<open>'p\<close> and the methods of the class
  \<open>PaymentProvider\<close>, given as a record of functions; a method that raises answers with the name of
  the exception's type.  The three classes of the module are the datatype \<open>builtin_provider\<close>.  The
  router runs each method under its lock only where it copies or counts, so a call is modelled as
  one step; a backend object that is registered twice is modelled as two objects.
\<close>

datatype payment_status = PayPending | PayCompleted | PayFailed | PayDeclined | PayRefunded

record payment_request =
  pq_request_id :: string
  pq_tenant_id :: string
  pq_amount_cents :: int
  pq_currency :: string
  pq_description :: string

record payment_response =
  ps_request_id :: string
  ps_provider :: string
  ps_status :: payment_status
  ps_transaction_id :: string
  ps_error :: string

record 'p provider_ops =
  po_name :: "'p \<Rightarrow> string"
  po_charge :: "'p \<Rightarrow> payment_request \<Rightarrow> (string + payment_response) \<times> 'p"
  po_refund :: "'p \<Rightarrow> string \<Rightarrow> int \<Rightarrow> (string + payment_response) \<times> 'p"
  po_health :: "'p \<Rightarrow> bool"

section \<open>The classes of the module\<close>

datatype builtin_provider =
    BaseProvider
  | StubProvider (charge_count: nat) (refund_count: nat)
  | FailingProvider

fun bp_name :: "builtin_provider \<Rightarrow> string" where
  "bp_name BaseProvider = ''base''"
| "bp_name (StubProvider _ _) = ''stub''"
| "bp_name FailingProvider = ''failing''"

definition failed_response :: "string \<Rightarrow> string \<Rightarrow> string \<Rightarrow> payment_response" where
  "failed_response request_id provider err = \<lparr>ps_request_id = request_id, ps_provider = provider,
     ps_status = PayFailed, ps_transaction_id = [], ps_error = err\<rparr>"

fun bp_charge ::
  "builtin_provider \<Rightarrow> payment_request \<Rightarrow> (string + payment_response) \<times> builtin_provider" where
  "bp_charge BaseProvider q =
     (Inr (failed_response (pq_request_id q) ''base'' ''provider not implemented''), BaseProvider)"
| "bp_charge (StubProvider c r) q =
     (Inr \<lparr>ps_request_id = pq_request_id q, ps_provider = ''stub'', ps_status = PayCompleted,
        ps_transaction_id = ''stub-tx-'' @ nat_str (Suc c), ps_error = []\<rparr>, StubProvider (Suc c) r)"
| "bp_charge FailingProvider q =
     (Inr (failed_response (pq_request_id q) ''failing'' ''provider unavailable''), FailingProvider)"

fun bp_refund ::
  "builtin_provider \<Rightarrow> string \<Rightarrow> int \<Rightarrow> (string + payment_response) \<times> builtin_provider" where
  "bp_refund (StubProvider c r) transaction_id amount_cents =
     (Inr \<lparr>ps_request_id = [], ps_provider = ''stub'', ps_status = PayRefunded,
        ps_transaction_id = transaction_id, ps_error = []\<rparr>, StubProvider c (Suc r))"
| "bp_refund p transaction_id amount_cents =
     (Inr (failed_response [] (bp_name p) ''refund not implemented''), p)"

fun bp_health :: "builtin_provider \<Rightarrow> bool" where
  "bp_health (StubProvider _ _) = True"
| "bp_health _ = False"

definition builtin_ops :: "builtin_provider provider_ops" where
  "builtin_ops = \<lparr>po_name = bp_name, po_charge = bp_charge, po_refund = bp_refund, po_health = bp_health\<rparr>"

section \<open>The router\<close>

record 'p router =
  ro_providers :: "(int \<times> 'p) list"
  ro_total_charges :: nat
  ro_total_failures :: nat
  ro_total_refunds :: nat

definition router_init :: "'p router" where
  "router_init = \<lparr>ro_providers = [], ro_total_charges = 0, ro_total_failures = 0, ro_total_refunds = 0\<rparr>"

definition router_register :: "'p router \<Rightarrow> 'p \<Rightarrow> int \<Rightarrow> 'p router" where
  "router_register r provider priority =
     r\<lparr>ro_providers := sort_key fst (ro_providers r @ [(priority, provider)])\<rparr>"

text \<open>
  The loop of \<open>charge\<close>: the backends in order until one completes; the error of the last one that
  did not.
\<close>

fun charge_loop ::
  "'p provider_ops \<Rightarrow> payment_request \<Rightarrow> string \<Rightarrow> (int \<times> 'p) list
     \<Rightarrow> (string + payment_response) \<times> (int \<times> 'p) list" where
  "charge_loop ops q last_error [] = (Inl last_error, [])"
| "charge_loop ops q last_error ((prio, p) # ps) =
     (case po_charge ops p q of
        (Inl exc_type, p') \<Rightarrow>
          (let (r, ps') = charge_loop ops q (''provider error ('' @ exc_type @ '')'') ps
           in (r, (prio, p') # ps'))
      | (Inr response, p') \<Rightarrow>
          if ps_status response = PayCompleted then (Inr response, (prio, p') # ps)
          else (let (r, ps') = charge_loop ops q (str_or (ps_error response) ''payment not completed'') ps
                in (r, (prio, p') # ps')))"

definition router_charge ::
  "'p provider_ops \<Rightarrow> 'p router \<Rightarrow> payment_request \<Rightarrow> payment_response \<times> 'p router" where
  "router_charge ops r q =
     (case charge_loop ops q ''no providers registered'' (ro_providers r) of
        (Inr response, ps) \<Rightarrow>
          (response, r\<lparr>ro_providers := ps, ro_total_charges := Suc (ro_total_charges r)\<rparr>)
      | (Inl last_error, ps) \<Rightarrow>
          (failed_response (pq_request_id q) ''none'' last_error,
           r\<lparr>ro_providers := ps, ro_total_failures := Suc (ro_total_failures r)\<rparr>))"

text \<open>The loop of \<open>refund\<close>: the first backend with the name.\<close>

fun refund_loop ::
  "'p provider_ops \<Rightarrow> string \<Rightarrow> string \<Rightarrow> int \<Rightarrow> (int \<times> 'p) list
     \<Rightarrow> payment_response option \<times> (int \<times> 'p) list" where
  "refund_loop ops name tx cents [] = (None, [])"
| "refund_loop ops name tx cents ((prio, p) # ps) =
     (if po_name ops p = name then
        (case po_refund ops p tx cents of
           (Inl exc_type, p') \<Rightarrow>
             (Some (failed_response [] name (''refund error ('' @ exc_type @ '')'')), (prio, p') # ps)
         | (Inr response, p') \<Rightarrow> (Some response, (prio, p') # ps))
      else (let (r, ps') = refund_loop ops name tx cents ps in (r, (prio, p) # ps')))"

definition router_refund ::
  "'p provider_ops \<Rightarrow> 'p router \<Rightarrow> string \<Rightarrow> string \<Rightarrow> int \<Rightarrow> payment_response \<times> 'p router" where
  "router_refund ops r provider_name transaction_id amount_cents =
     (case refund_loop ops provider_name transaction_id amount_cents (ro_providers r) of
        (Some response, ps) \<Rightarrow>
          (response, r\<lparr>ro_providers := ps, ro_total_refunds :=
             (if ps_status response = PayRefunded then Suc (ro_total_refunds r)
              else ro_total_refunds r)\<rparr>)
      | (None, ps) \<Rightarrow>
          (failed_response [] provider_name (''provider '' @ provider_name @ '' not found''), r))"

definition list_providers :: "'p provider_ops \<Rightarrow> 'p router \<Rightarrow> (string \<times> int \<times> bool) list" where
  "list_providers ops r = map (\<lambda>(prio, p). (po_name ops p, prio, po_health ops p)) (ro_providers r)"

section \<open>What routing does\<close>

definition completes :: "'p provider_ops \<Rightarrow> payment_request \<Rightarrow> 'p \<Rightarrow> bool" where
  "completes ops q p \<longleftrightarrow> (\<exists>x. fst (po_charge ops p q) = Inr x \<and> ps_status x = PayCompleted)"

abbreviation after_charge :: "'p provider_ops \<Rightarrow> payment_request \<Rightarrow> int \<times> 'p \<Rightarrow> int \<times> 'p" where
  "after_charge ops q pp \<equiv> (fst pp, snd (po_charge ops (snd pp) q))"

lemma charge_loop_miss:
  assumes "\<not> completes ops q p"
  obtains e where "\<And>ps. charge_loop ops q err ((prio, p) # ps) =
    (fst (charge_loop ops q e ps), after_charge ops q (prio, p) # snd (charge_loop ops q e ps))"
proof (cases "po_charge ops p q")
  case (Pair res p')
  show thesis
  proof (cases res)
    case (Inl exc)
    show thesis
      by (rule that[of "''provider error ('' @ exc @ '')''"]) (simp add: Pair Inl split_def Let_def)
  next
    case (Inr x)
    then have "ps_status x \<noteq> PayCompleted" using assms by (auto simp: completes_def Pair)
    then show thesis
      by (intro that[of "str_or (ps_error x) ''payment not completed''"])
         (simp add: Pair Inr split_def Let_def)
  qed
qed

lemma charge_loop_skip:
  assumes "\<forall>pp \<in> set xs. \<not> completes ops q (snd pp)"
  shows "\<exists>e. charge_loop ops q err (xs @ ys) =
    (fst (charge_loop ops q e ys), map (after_charge ops q) xs @ snd (charge_loop ops q e ys))"
  using assms
proof (induction xs arbitrary: err)
  case (Cons pp xs)
  then have "\<not> completes ops q (snd pp)" by simp
  then obtain e where e: "\<And>ps. charge_loop ops q err ((fst pp, snd pp) # ps) =
      (fst (charge_loop ops q e ps), after_charge ops q pp # snd (charge_loop ops q e ps))"
    using charge_loop_miss[of ops q "snd pp" err "fst pp"] by auto
  from Cons obtain e' where "charge_loop ops q e (xs @ ys) =
      (fst (charge_loop ops q e' ys), map (after_charge ops q) xs @ snd (charge_loop ops q e' ys))"
    by force
  with e[of "xs @ ys"] show ?case by auto
qed auto

lemma charge_loop_hit:
  assumes "completes ops q p"
  shows "\<exists>x. charge_loop ops q err ((prio, p) # ys) = (Inr x, after_charge ops q (prio, p) # ys) \<and>
    fst (po_charge ops p q) = Inr x \<and> ps_status x = PayCompleted"
  using assms by (cases "po_charge ops p q") (auto simp: completes_def)

text \<open>What the router relies on: a completed response answers the request and has a reference.\<close>

locale honest_backend =
  fixes ops :: "'p provider_ops"
  assumes completed_id: "fst (po_charge ops p q) = Inr x \<Longrightarrow> ps_status x = PayCompleted \<Longrightarrow>
      ps_request_id x = pq_request_id q \<and> ps_transaction_id x \<noteq> []"
begin

lemma charge_loop_id:
  "fst (charge_loop ops q err ps) = Inr x \<Longrightarrow> ps_request_id x = pq_request_id q \<and> ps_transaction_id x \<noteq> []"
proof (induction ps arbitrary: err)
  case (Cons pp ps)
  obtain prio p where pp: "pp = (prio, p)" by fastforce
  show ?case
  proof (cases "completes ops q p")
    case True
    from charge_loop_hit[OF this, of err prio ps] Cons.prems completed_id show ?thesis
      by (auto simp: pp)
  next
    case False
    then obtain e where "fst (charge_loop ops q err (pp # ps)) = fst (charge_loop ops q e ps)"
      using charge_loop_miss[of ops q p err prio] pp by (metis fst_conv)
    with Cons show ?thesis by metis
  qed
qed simp

lemma router_charge_id: "ps_request_id (fst (router_charge ops r q)) = pq_request_id q"
proof (cases "charge_loop ops q ''no providers registered'' (ro_providers r)")
  case (Pair res ps)
  show ?thesis
  proof (cases res)
    case (Inl e)
    then show ?thesis by (simp add: router_charge_def failed_response_def Pair)
  next
    case (Inr x)
    with charge_loop_id[of q "''no providers registered''" "ro_providers r" x] Pair
    show ?thesis by (simp add: router_charge_def)
  qed
qed

end

interpretation builtin: honest_backend builtin_ops
proof
  fix p q x
  show "fst (po_charge builtin_ops p q) = Inr x \<Longrightarrow> ps_status x = PayCompleted \<Longrightarrow>
      ps_request_id x = pq_request_id q \<and> ps_transaction_id x \<noteq> []"
    by (cases p) (auto simp: builtin_ops_def failed_response_def)
qed

lemma router_register_sorted:
  "sorted (map fst (ro_providers (router_register r p prio)))"
  by (simp add: router_register_def)

lemma router_charge_hit:
  assumes "ro_providers r = xs @ (prio, p) # ys" and "\<forall>pp \<in> set xs. \<not> completes ops q (snd pp)"
    and "completes ops q p"
  shows "fst (po_charge ops p q) = Inr (fst (router_charge ops r q)) \<and>
    snd (router_charge ops r q) = r\<lparr>ro_total_charges := Suc (ro_total_charges r),
      ro_providers := map (\<lambda>(i, b). (i, snd (po_charge ops b q))) (xs @ [(prio, p)]) @ ys\<rparr>"
proof -
  obtain err where "charge_loop ops q ''no providers registered'' (ro_providers r) =
      (fst (charge_loop ops q err ((prio, p) # ys)),
       map (after_charge ops q) xs @ snd (charge_loop ops q err ((prio, p) # ys)))"
    using charge_loop_skip[OF assms(2), of "''no providers registered''" "(prio, p) # ys"]
    unfolding assms(1) by blast
  moreover obtain x where "charge_loop ops q err ((prio, p) # ys) =
      (Inr x, after_charge ops q (prio, p) # ys)" "fst (po_charge ops p q) = Inr x"
    using charge_loop_hit[OF assms(3), of err prio ys] by blast
  ultimately show ?thesis
    by (simp add: router_charge_def split_def)
qed

text \<open>
  The router charges the backends in the order of priority up to the first that completes the
  payment: that one's response is the answer, the ones before it were called once each, and the ones
  behind it were not called.
\<close>

theorem router_first_completing:
  assumes "ro_providers r = xs @ (prio, p) # ys" and "\<forall>pp \<in> set xs. \<not> completes ops q (snd pp)"
    and "completes ops q p"
  shows "fst (po_charge ops p q) = Inr (fst (router_charge ops r q)) \<and>
    snd (router_charge ops r q) = r\<lparr>ro_total_charges := Suc (ro_total_charges r),
      ro_providers := map (\<lambda>(i, b). (i, snd (po_charge ops b q))) (xs @ [(prio, p)]) @ ys\<rparr>"
  by (rule router_charge_hit[OF assms])

definition sample_request :: payment_request where
  "sample_request = \<lparr>pq_request_id = ''r1'', pq_tenant_id = ''acme'', pq_amount_cents = 500,
     pq_currency = ''USD'', pq_description = []\<rparr>"

definition sample_router :: "builtin_provider router" where
  "sample_router = router_register (router_register (router_register router_init
     (StubProvider 0 0) 2) FailingProvider 1) (StubProvider 7 0) 3"

theorem router_first_completing_witness:
  "ps_transaction_id (fst (router_charge builtin_ops sample_router sample_request)) = ''stub-tx-1'' \<and>
   ro_providers (snd (router_charge builtin_ops sample_router sample_request)) =
     [(1, FailingProvider), (2, StubProvider 1 0), (3, StubProvider 7 0)]"
proof -
  have r: "ro_providers sample_router =
      [(1, FailingProvider)] @ (2, StubProvider 0 0) # [(3, StubProvider 7 0)]"
    by code_simp
  have x: "fst (bp_charge (StubProvider 0 0) sample_request) =
      Inr \<lparr>ps_request_id = ''r1'', ps_provider = ''stub'', ps_status = PayCompleted,
        ps_transaction_id = ''stub-tx-1'', ps_error = []\<rparr>"
    by code_simp
  have fail: "\<forall>pp \<in> set [(1 :: int, FailingProvider)]. \<not> completes builtin_ops sample_request (snd pp)"
    by (simp add: completes_def builtin_ops_def failed_response_def)
  have ok: "completes builtin_ops sample_request (StubProvider 0 0)"
    by (simp add: completes_def builtin_ops_def)
  from router_first_completing[OF r fail ok] x show ?thesis
    by (simp add: builtin_ops_def)
qed

text \<open>
  When no backend completes the payment, every backend was called once, the answer is a failure
  of the request and exactly one failure is counted.
\<close>

theorem router_all_fail:
  assumes "\<forall>pp \<in> set (ro_providers r). \<not> completes ops q (snd pp)"
  shows "ps_status (fst (router_charge ops r q)) = PayFailed \<and>
    ps_provider (fst (router_charge ops r q)) = ''none'' \<and>
    ps_request_id (fst (router_charge ops r q)) = pq_request_id q \<and>
    snd (router_charge ops r q) = r\<lparr>ro_total_failures := Suc (ro_total_failures r),
      ro_providers := map (\<lambda>(i, b). (i, snd (po_charge ops b q))) (ro_providers r)\<rparr>"
  using charge_loop_skip[OF assms, of "''no providers registered''" "[]"]
  by (auto simp: router_charge_def failed_response_def split_def)

theorem router_all_fail_witness:
  "ps_status (fst (router_charge builtin_ops (router_register router_init FailingProvider 1)
     sample_request)) = PayFailed"
  using router_all_fail[of "router_register router_init FailingProvider 1" builtin_ops sample_request]
  by (simp add: router_register_def router_init_def completes_def builtin_ops_def failed_response_def)

text \<open>
  A backend that answers with the status pending has taken the payment and is still passed over:
  the router charges the next backend for the same request.
\<close>

theorem pending_charged_again:
  assumes "ro_providers r = [(i, p), (j, p')]" and "po_charge ops p q = (Inr x, b)"
    and "ps_status x = PayPending" and "completes ops q p'"
  shows "ro_providers (snd (router_charge ops r q)) = [(i, b), (j, snd (po_charge ops p' q))] \<and>
    fst (po_charge ops p' q) = Inr (fst (router_charge ops r q))"
proof -
  have "\<not> completes ops q p" using assms(2,3) by (simp add: completes_def)
  with router_charge_hit[of r "[(i, p)]" j p' "[]" ops q] assms show ?thesis
    by simp
qed

text \<open>A backend that acknowledges a payment and settles it later, and one that settles it at once.\<close>

definition slow_ops :: "bool provider_ops" where
  "slow_ops = \<lparr>po_name = (\<lambda>_. ''bank''),
     po_charge = (\<lambda>slow q. (Inr \<lparr>ps_request_id = pq_request_id q, ps_provider = ''bank'',
       ps_status = (if slow then PayPending else PayCompleted), ps_transaction_id = ''t'',
       ps_error = []\<rparr>, slow)),
     po_refund = (\<lambda>p t c. (Inr (failed_response [] ''bank'' []), p)), po_health = (\<lambda>_. True)\<rparr>"

theorem pending_charged_again_witness:
  "fst (po_charge slow_ops False sample_request) =
   Inr (fst (router_charge slow_ops (router_init\<lparr>ro_providers := [(1, True), (2, False)]\<rparr>) sample_request))"
  using pending_charged_again[of "router_init\<lparr>ro_providers := [(1, True), (2, False)]\<rparr>" 1 True 2 False
      slow_ops sample_request]
  by (simp add: slow_ops_def completes_def)

end
