(* ===== verification/Currency_Money.thy ===== *)
theory Currency_Money
  imports Py_Decimal
begin

text \<open>
  \<open>skills/financial/core/currency.py\<close>: money values with a currency, rounding to the currency's
  minor units and arithmetic that refuses to mix currencies.  An amount is a \<open>Decimal\<close> already: the
  coercion of other types in \<open>__post_init__\<close> and the parsing of \<open>from_str\<close> are not modelled.
\<close>

record money =
  mo_amount :: decimal
  mo_currency :: string

definition MINOR_DECIMALS :: "(string, nat) pydict" where
  "MINOR_DECIMALS = [(''JPY'', 0), (''BTC'', 8), (''ETH'', 18), (''USDC'', 6)]"

definition minor_units :: "string \<Rightarrow> nat" where
  "minor_units currency = (case dict_get MINOR_DECIMALS currency of None \<Rightarrow> 2 | Some n \<Rightarrow> n)"

definition mk_money :: "decimal \<Rightarrow> string \<Rightarrow> money py" where
  "mk_money amount currency =
     (if currency = [] then Inl (ValueError ''currency must not be empty'')
      else Inr \<lparr>mo_amount = amount, mo_currency = currency\<rparr>)"

definition money_rounded :: "money \<Rightarrow> money py" where
  "money_rounded m = py_bind (dec_quantize (mo_amount m) (minor_units (mo_currency m)))
     (\<lambda>a. mk_money a (mo_currency m))"

text \<open>The guard of the binary operations.\<close>

definition same_currency :: "string \<Rightarrow> string \<Rightarrow> money \<Rightarrow> money \<Rightarrow> 'a py \<Rightarrow> 'a py" where
  "same_currency verb sign m n r =
     (if mo_currency m \<noteq> mo_currency n
      then Inl (ValueError (''cannot '' @ verb @ '' '' @ mo_currency m @ sign @ mo_currency n))
      else r)"

definition money_add :: "money \<Rightarrow> money \<Rightarrow> money py" where
  "money_add m n = same_currency ''add'' '' + '' m n
     (mk_money (dec_add (mo_amount m) (mo_amount n)) (mo_currency m))"

definition money_sub :: "money \<Rightarrow> money \<Rightarrow> money py" where
  "money_sub m n = same_currency ''subtract'' '' - '' m n
     (mk_money (dec_sub (mo_amount m) (mo_amount n)) (mo_currency m))"

definition money_lt :: "money \<Rightarrow> money \<Rightarrow> bool py" where
  "money_lt m n = same_currency ''compare'' '' < '' m n (Inr (dec_less (mo_amount m) (mo_amount n)))"

definition money_le :: "money \<Rightarrow> money \<Rightarrow> bool py" where
  "money_le m n = same_currency ''compare'' '' <= '' m n (Inr (dec_le (mo_amount m) (mo_amount n)))"

definition money_gt :: "money \<Rightarrow> money \<Rightarrow> bool py" where
  "money_gt m n = py_bind (money_le m n) (\<lambda>b. Inr (\<not> b))"

definition money_ge :: "money \<Rightarrow> money \<Rightarrow> bool py" where
  "money_ge m n = py_bind (money_lt m n) (\<lambda>b. Inr (\<not> b))"

definition is_positive :: "money \<Rightarrow> bool" where
  "is_positive m \<longleftrightarrow> dec_less dec_zero (mo_amount m)"

definition is_zero :: "money \<Rightarrow> bool" where
  "is_zero m \<longleftrightarrow> dec_eq (mo_amount m) dec_zero"

definition money_zero :: "string \<Rightarrow> money py" where
  "money_zero currency = mk_money dec_zero currency"

text \<open>\<open>f"{amount:,.{places}f}"\<close>: rounded half to even, digits grouped by three.\<close>

definition rescale_coeff :: "decimal \<Rightarrow> nat \<Rightarrow> int" where
  "rescale_coeff d places =
     (let e = - int places; a = \<bar>dec_coeff d\<bar>
      in if e \<le> dec_exp d then a * 10 ^ nat (dec_exp d - e) else rhe_div a (10 ^ nat (e - dec_exp d)))"

fun group3 :: "string \<Rightarrow> string" where
  "group3 (a # b # c # d # xs) = a # b # c # CHR '','' # group3 (d # xs)"
| "group3 xs = xs"

definition money_display :: "money \<Rightarrow> string" where
  "money_display m =
     (let places = minor_units (mo_currency m);
          digits = digits_str (rescale_coeff (mo_amount m) places);
          digits = replicate (Suc places - length digits) CHR ''0'' @ digits;
          whole = rev (group3 (rev (take (length digits - places) digits)));
          frac = drop (length digits - places) digits
      in mo_currency m @ '' '' @ (if dec_coeff (mo_amount m) < 0 then ''-'' else [])
         @ whole @ (if places = 0 then [] else CHR ''.'' # frac))"

lemma display_examples:
  "money_display \<lparr>mo_amount = Dec 1234565 (-3), mo_currency = ''USD''\<rparr> = ''USD 1,234.56''"
  "money_display \<lparr>mo_amount = Dec (-1) (-1), mo_currency = ''JPY''\<rparr> = ''JPY -0''"
  "money_display \<lparr>mo_amount = Dec 5 6, mo_currency = ''JPY''\<rparr> = ''JPY 5,000,000''"
  "money_display \<lparr>mo_amount = Dec 7 (-2), mo_currency = ''ETB''\<rparr> = ''ETB 0.07''"
  by code_simp+

section \<open>Rounding\<close>

lemma rhe_div_error:
  assumes "0 < d" shows "\<bar>2 * (n - rhe_div n d * d)\<bar> \<le> d"
proof -
  define q r where "q = n div d" and "r = n mod d"
  have n: "n = q * d + r" and r: "0 \<le> r" "r < d"
    using assms by (simp_all add: q_def r_def)
  show ?thesis
  proof (cases "2 * r < d \<or> 2 * r = d \<and> even q")
    case True
    then have "rhe_div n d = q" by (simp add: rhe_div_def Let_def q_def r_def)
    with n r True show ?thesis by auto
  next
    case False
    then have "rhe_div n d = q + 1" by (simp add: rhe_div_def Let_def q_def r_def)
    moreover have "d \<le> 2 * r" using False by auto
    ultimately show ?thesis using n r by (simp add: algebra_simps)
  qed
qed

lemma quantize_value:
  assumes "dec_quantize d places = Inr q"
  shows "dec_exp q = - int places \<and> \<bar>2 * (dec_val q - dec_val d)\<bar> \<le> 10 powi (- int places)"
proof -
  let ?e = "- int places"
  let ?c = "rescale_coeff d places"
  have q: "q = Dec (sgn (dec_coeff d) * ?c) ?e"
    using assms by (simp add: dec_quantize_def rescale_coeff_def Let_def split: if_splits)
  have "\<bar>2 * (dec_val q - dec_val d)\<bar> \<le> 10 powi ?e"
  proof (cases "?e \<le> dec_exp d")
    case True
    let ?k = "nat (dec_exp d - ?e)"
    have "dec_exp d = ?e + int ?k" using True by simp
    then have p: "(10 :: rat) powi dec_exp d = 10 powi ?e * 10 ^ ?k"
      by (metis power_int_add power_int_of_nat zero_neq_numeral)
    have "sgn (dec_coeff d) * ?c = dec_coeff d * 10 ^ ?k"
      using True by (simp add: rescale_coeff_def Let_def abs_mult_sgn mult.assoc[symmetric] mult.commute[of "sgn _"])
    then have "dec_val q = dec_val d" by (simp add: q dec_val_def p algebra_simps)
    then show ?thesis by simp
  next
    case False
    let ?k = "nat (?e - dec_exp d)"
    have "?e = dec_exp d + int ?k" using False by simp
    then have p: "(10 :: rat) powi ?e = 10 powi dec_exp d * 10 ^ ?k"
      by (metis power_int_add power_int_of_nat zero_neq_numeral)
    have c: "?c = rhe_div \<bar>dec_coeff d\<bar> (10 ^ ?k)"
      using False by (simp add: rescale_coeff_def Let_def)
    have "\<bar>2 * (\<bar>dec_coeff d\<bar> - ?c * 10 ^ ?k)\<bar> \<le> 10 ^ ?k"
      unfolding c by (rule rhe_div_error) simp
    moreover have "\<bar>2 * (sgn (dec_coeff d) * ?c * 10 ^ ?k - dec_coeff d)\<bar> =
        \<bar>2 * (\<bar>dec_coeff d\<bar> - ?c * 10 ^ ?k)\<bar>" if "dec_coeff d \<noteq> 0"
      using that by (cases "dec_coeff d < 0") (simp_all add: sgn_if abs_if)
    moreover have "\<bar>2 * (sgn (dec_coeff d) * ?c * 10 ^ ?k - dec_coeff d)\<bar> \<le> 10 ^ ?k"
      if "dec_coeff d = 0" using that by simp
    ultimately have "\<bar>2 * (sgn (dec_coeff d) * ?c * 10 ^ ?k - dec_coeff d)\<bar> \<le> 10 ^ ?k" by fastforce
    then have b: "\<bar>2 * (rat_of_int (sgn (dec_coeff d) * ?c) * 10 ^ ?k - rat_of_int (dec_coeff d))\<bar> \<le> 10 ^ ?k"
      by (metis (mono_tags, opaque_lifting) of_int_abs of_int_diff of_int_le_iff of_int_mult of_int_numeral of_int_power)
    have "dec_val q - dec_val d =
        (rat_of_int (sgn (dec_coeff d) * ?c) * 10 ^ ?k - rat_of_int (dec_coeff d)) * 10 powi dec_exp d"
      by (simp add: q dec_val_def p algebra_simps)
    then have "\<bar>2 * (dec_val q - dec_val d)\<bar> =
        \<bar>2 * (rat_of_int (sgn (dec_coeff d) * ?c) * 10 ^ ?k - rat_of_int (dec_coeff d))\<bar> * 10 powi dec_exp d"
      by (simp only: abs_mult mult.assoc) simp
    also have "\<dots> \<le> 10 ^ ?k * 10 powi dec_exp d" by (rule mult_right_mono[OF b]) simp
    finally show ?thesis by (simp add: p mult.commute)
  qed
  with q show ?thesis by simp
qed

lemma quantize_idem:
  assumes "dec_quantize d places = Inr q" shows "dec_quantize q places = Inr q"
proof -
  let ?c = "rescale_coeff d places"
  have q: "q = Dec (sgn (dec_coeff d) * ?c) (- int places)" and n: "ndigits ?c \<le> dec_prec"
    using assms by (simp_all add: dec_quantize_def rescale_coeff_def Let_def split: if_splits)
  have c0: "0 \<le> ?c"
    by (auto simp: rescale_coeff_def rhe_div_def Let_def pos_imp_zdiv_nonneg_iff)
  have z: "dec_coeff d = 0 \<Longrightarrow> ?c = 0"
    by (simp add: rescale_coeff_def rhe_div_def Let_def)
  have "\<bar>sgn (dec_coeff d) * ?c\<bar> = ?c"
    using c0 z by (cases "dec_coeff d = 0") (simp_all add: abs_mult abs_sgn_eq)
  moreover have "sgn (sgn (dec_coeff d) * ?c) * ?c = sgn (dec_coeff d) * ?c"
    using c0 by (cases "?c = 0") (simp_all add: sgn_mult)
  ultimately show ?thesis using n by (simp add: q dec_quantize_def Let_def)
qed

text \<open>
  Rounding money keeps the currency, gives exactly the currency's number of places, moves the
  value by at most half a minor unit, and rounding again changes nothing.
\<close>

theorem money_rounding:
  assumes "money_rounded m = Inr r"
  shows "mo_currency r = mo_currency m \<and> dec_exp (mo_amount r) = - int (minor_units (mo_currency m)) \<and>
    \<bar>2 * (dec_val (mo_amount r) - dec_val (mo_amount m))\<bar> \<le> 10 powi (- int (minor_units (mo_currency m))) \<and>
    money_rounded r = Inr r"
proof -
  from assms obtain a where a: "dec_quantize (mo_amount m) (minor_units (mo_currency m)) = Inr a"
    and r: "r = \<lparr>mo_amount = a, mo_currency = mo_currency m\<rparr>" and c: "mo_currency m \<noteq> []"
    by (auto simp: money_rounded_def py_bind_Inr_iff mk_money_def split: if_splits)
  show ?thesis
    using quantize_value[OF a] quantize_idem[OF a] c by (simp add: r money_rounded_def mk_money_def)
qed

theorem money_rounding_witness:
  "\<bar>2 * (dec_val (Dec 1234 (-2)) - dec_val (Dec 12345 (-3)))\<bar> \<le> 10 powi (- 2)"
proof -
  have "money_rounded \<lparr>mo_amount = Dec 12345 (-3), mo_currency = ''USD''\<rparr> =
      Inr \<lparr>mo_amount = Dec 1234 (-2), mo_currency = ''USD''\<rparr>"
    by code_simp
  from money_rounding[OF this] show ?thesis by (simp add: minor_units_def MINOR_DECIMALS_def)
qed

text \<open>
  Money of different currencies is never added, subtracted or compared, each of the six
  operations raises; on one currency addition and subtraction are those of the amounts, exact while
  the result has at most 28 digits, and exactly one of less and greater-or-equal holds.
\<close>

theorem money_arithmetic:
  assumes "mo_currency m \<noteq> []"
  shows "if mo_currency m = mo_currency n
    then (dec_fits (mo_amount m) (mo_amount n) \<longrightarrow>
            (\<exists>r. money_add m n = Inr r \<and> mo_currency r = mo_currency m \<and>
              dec_val (mo_amount r) = dec_val (mo_amount m) + dec_val (mo_amount n))) \<and>
         (\<exists>b. money_lt m n = Inr b \<and> money_ge m n = Inr (\<not> b) \<and>
            b = (dec_val (mo_amount m) < dec_val (mo_amount n))) \<and>
         (\<exists>b. money_le m n = Inr b \<and> money_gt m n = Inr (\<not> b) \<and>
            b = (dec_val (mo_amount m) \<le> dec_val (mo_amount n)))
    else \<not> is_ok (money_add m n) \<and> \<not> is_ok (money_sub m n) \<and> \<not> is_ok (money_lt m n) \<and>
      \<not> is_ok (money_le m n) \<and> \<not> is_ok (money_gt m n) \<and> \<not> is_ok (money_ge m n)"
  using assms dec_add_exact
  by (simp add: money_add_def money_sub_def money_lt_def money_le_def money_gt_def money_ge_def
      same_currency_def mk_money_def dec_order_val(1,2))

theorem money_arithmetic_witness:
  "\<not> is_ok (money_add \<lparr>mo_amount = Dec 1 0, mo_currency = ''USD''\<rparr>
                       \<lparr>mo_amount = Dec 1 0, mo_currency = ''EUR''\<rparr>)"
  using money_arithmetic[of "\<lparr>mo_amount = Dec 1 0, mo_currency = ''USD''\<rparr>"
      "\<lparr>mo_amount = Dec 1 0, mo_currency = ''EUR''\<rparr>"] by simp

end
