(* ===== verification/Compliance_Export.thy ===== *)
theory Compliance_Export
  imports Governed_Payment
begin

text \<open>
  \<open>skills/financial/core/compliance_export.py\<close>: audit packages of single transactions and the
  report of a tenant.  The two \<open>to_dict\<close> methods are the records as JSON values.
\<close>

record audit_package =
  ap_tx_id :: string
  ap_tenant_id :: string
  ap_amount :: string
  ap_currency :: string
  ap_state :: string
  ap_provider :: string
  ap_provider_tx_id :: string
  ap_transitions :: "(string \<times> json) list list"
  ap_proof_hash :: string
  ap_idempotency_key :: string
  ap_created_at :: string
  ap_settled_at :: string
  ap_package_hash :: string

record compliance_report =
  cr_tenant_id :: string
  cr_total_transactions :: nat
  cr_total_settled :: nat
  cr_total_refunded :: nat
  cr_total_failed :: nat
  cr_total_pending :: nat
  cr_amount_settled :: string
  cr_amount_refunded :: string
  cr_packages :: "audit_package list"
  cr_report_hash :: string
  cr_generated_at :: string

definition package_to_dict :: "audit_package \<Rightarrow> json" where
  "package_to_dict p = JObj
     [(''tx_id'', JStr (ap_tx_id p)), (''tenant_id'', JStr (ap_tenant_id p)),
      (''amount'', JStr (ap_amount p)), (''currency'', JStr (ap_currency p)),
      (''state'', JStr (ap_state p)), (''provider'', JStr (ap_provider p)),
      (''provider_tx_id'', JStr (ap_provider_tx_id p)),
      (''transitions'', JArr (map JObj (ap_transitions p))),
      (''proof_hash'', JStr (ap_proof_hash p)), (''idempotency_key'', JStr (ap_idempotency_key p)),
      (''created_at'', JStr (ap_created_at p)), (''settled_at'', JStr (ap_settled_at p)),
      (''package_hash'', JStr (ap_package_hash p))]"

definition report_to_dict :: "compliance_report \<Rightarrow> json" where
  "report_to_dict r = JObj
     [(''tenant_id'', JStr (cr_tenant_id r)),
      (''total_transactions'', JInt (int (cr_total_transactions r))),
      (''total_settled'', JInt (int (cr_total_settled r))),
      (''total_refunded'', JInt (int (cr_total_refunded r))),
      (''total_failed'', JInt (int (cr_total_failed r))),
      (''total_pending'', JInt (int (cr_total_pending r))),
      (''total_amount_settled'', JStr (cr_amount_settled r)),
      (''total_amount_refunded'', JStr (cr_amount_refunded r)),
      (''packages'', JArr (map package_to_dict (cr_packages r))),
      (''report_hash'', JStr (cr_report_hash r)), (''generated_at'', JStr (cr_generated_at r))]"

definition transition_dict :: "tx_transition \<Rightarrow> (string \<times> json) list" where
  "transition_dict t = [(''from'', JStr (tx_value (tr_from t))), (''to'', JStr (tx_value (tr_to t))),
     (''reason'', JStr (tr_reason t)), (''actor'', JStr (tr_actor t)), (''at'', JStr (tr_at t))]"

text \<open>The time of the last transition into \<open>SETTLED\<close>, empty when there is none.\<close>

definition settled_time :: "tx_transition list \<Rightarrow> string" where
  "settled_time ts = fold (\<lambda>t acc. if tr_to t = SETTLED then tr_at t else acc) ts []"

definition package_content :: "tx_entry \<Rightarrow> tx_transition list \<Rightarrow> string" where
  "package_content entry ts = dumps_default (JObj
     [(''tx_id'', JStr (te_tx_id entry)), (''tenant_id'', JStr (te_tenant_id entry)),
      (''amount'', JStr (dec_str (te_amount entry))), (''currency'', JStr (te_currency entry)),
      (''state'', JStr (tx_value (te_state entry))), (''proof_hash'', JStr (te_proof_hash entry)),
      (''transitions'', JArr (map (\<lambda>t. JObj (transition_dict t)) ts))])"

definition export_transaction :: "tx_ledger \<Rightarrow> string \<Rightarrow> audit_package option" where
  "export_transaction l tx_id =
     (case ledger_get l tx_id of
        None \<Rightarrow> None
      | Some entry \<Rightarrow>
          (let ts = get_transitions l tx_id
           in Some \<lparr>ap_tx_id = te_tx_id entry, ap_tenant_id = te_tenant_id entry,
                ap_amount = dec_str (te_amount entry), ap_currency = te_currency entry,
                ap_state = tx_value (te_state entry), ap_provider = te_provider entry,
                ap_provider_tx_id = te_provider_tx_id entry,
                ap_transitions = map transition_dict ts, ap_proof_hash = te_proof_hash entry,
                ap_idempotency_key = te_idem_key entry, ap_created_at = te_created_at entry,
                ap_settled_at = settled_time ts,
                ap_package_hash = sha256_hex (package_content entry ts)\<rparr>))"

text \<open>The counters of the report's loop.\<close>

record report_acc =
  ra_packages :: "audit_package list"
  ra_amount_settled :: decimal
  ra_amount_refunded :: decimal
  ra_settled :: nat
  ra_refunded :: nat
  ra_failed :: nat
  ra_pending :: nat

definition report_acc0 :: report_acc where
  "report_acc0 = \<lparr>ra_packages = [], ra_amount_settled = dec_zero, ra_amount_refunded = dec_zero,
     ra_settled = 0, ra_refunded = 0, ra_failed = 0, ra_pending = 0\<rparr>"

definition report_step :: "tx_ledger \<Rightarrow> tx_entry \<Rightarrow> report_acc \<Rightarrow> report_acc" where
  "report_step l entry a =
     (let a = (case export_transaction l (te_tx_id entry) of
                 None \<Rightarrow> a | Some pkg \<Rightarrow> a\<lparr>ra_packages := ra_packages a @ [pkg]\<rparr>)
      in if te_state entry = SETTLED
         then a\<lparr>ra_settled := Suc (ra_settled a),
                ra_amount_settled := dec_add (ra_amount_settled a) (te_amount entry)\<rparr>
         else if te_state entry = REFUNDED
         then a\<lparr>ra_refunded := Suc (ra_refunded a),
                ra_amount_refunded := dec_add (ra_amount_refunded a) (te_amount entry)\<rparr>
         else if te_state entry \<in> set [FAILED, REJECTED, EXPIRED]
         then a\<lparr>ra_failed := Suc (ra_failed a)\<rparr>
         else if te_state entry \<in> set [CREATED, PENDING_APPROVAL, AUTHORIZED, CAPTURED]
         then a\<lparr>ra_pending := Suc (ra_pending a)\<rparr>
         else a)"

definition export_tenant_report :: "tx_ledger \<Rightarrow> string \<Rightarrow> string \<Rightarrow> compliance_report" where
  "export_tenant_report l tenant_id generated_at =
     (let entries = ledger_query l tenant_id None 10000;
          a = fold (report_step l) entries report_acc0;
          report_content = dumps_default (JObj
            [(''tenant_id'', JStr tenant_id), (''count'', JInt (int (length entries))),
             (''settled'', JStr (dec_str (ra_amount_settled a))),
             (''refunded'', JStr (dec_str (ra_amount_refunded a)))])
      in \<lparr>cr_tenant_id = tenant_id, cr_total_transactions = length entries,
          cr_total_settled = ra_settled a, cr_total_refunded = ra_refunded a,
          cr_total_failed = ra_failed a, cr_total_pending = ra_pending a,
          cr_amount_settled = dec_str (ra_amount_settled a),
          cr_amount_refunded = dec_str (ra_amount_refunded a), cr_packages = ra_packages a,
          cr_report_hash = sha256_hex report_content, cr_generated_at = generated_at\<rparr>)"

section \<open>The report\<close>

lemma query_members:
  assumes "wf_dict (lg_entries l)" and "e \<in> set (ledger_query l t st n)"
  shows "\<exists>k. ledger_get l k = Some e \<and> (t \<noteq> [] \<longrightarrow> te_tenant_id e = t)"
proof -
  have tl: "e \<in> set (py_tail n xs) \<Longrightarrow> e \<in> set xs" for xs :: "tx_entry list"
    by (simp add: py_tail_def last_n_def split: if_splits) (auto dest: in_set_dropD)
  have "e \<in> set (dict_values (lg_entries l)) \<and> (t \<noteq> [] \<longrightarrow> te_tenant_id e = t)"
    using assms(2) by (auto simp: ledger_query_def Let_def dest: tl split: option.splits if_splits)
  with dict_values_mem[OF assms(1)] show ?thesis by (auto simp: ledger_get_def)
qed

definition state_count :: "tx_state set \<Rightarrow> tx_entry list \<Rightarrow> nat" where
  "state_count S es = length (filter (\<lambda>e. te_state e \<in> S) es)"

lemma report_counts:
  "ra_settled (fold (report_step l) es a) = ra_settled a + state_count {SETTLED} es"
  "ra_refunded (fold (report_step l) es a) = ra_refunded a + state_count {REFUNDED} es"
  "ra_failed (fold (report_step l) es a) = ra_failed a + state_count {FAILED, REJECTED, EXPIRED} es"
  "ra_pending (fold (report_step l) es a) =
     ra_pending a + state_count {CREATED, PENDING_APPROVAL, AUTHORIZED, CAPTURED} es"
  by (induction es arbitrary: a)
     (auto simp: report_step_def state_count_def Let_def split: option.splits)

lemma report_packages:
  assumes "\<forall>e \<in> set es. ledger_get l (te_tx_id e) \<noteq> None"
  shows "map ap_tx_id (ra_packages (fold (report_step l) es a)) =
    map ap_tx_id (ra_packages a) @ map (\<lambda>e. te_tx_id (the (ledger_get l (te_tx_id e)))) es"
  using assms
  by (induction es arbitrary: a)
     (auto simp: report_step_def export_transaction_def Let_def split: option.splits)

lemma state_count_all:
  "length es = state_count {SETTLED} es + state_count {REFUNDED} es +
     state_count {FAILED, REJECTED, EXPIRED} es +
     state_count {CREATED, PENDING_APPROVAL, AUTHORIZED, CAPTURED} es + state_count {REFUND_PENDING} es"
proof (induction es)
  case (Cons e es)
  then show ?case by (cases "te_state e") (simp_all add: state_count_def)
qed (simp add: state_count_def)

text \<open>
  The report of a tenant on the ledger of a reachable executor is complete and consistent: it
  has one package per counted transaction, in the ledger's order and of that tenant, and the four
  counters add up to the number of transactions.
\<close>

theorem tenant_report_complete:
  assumes "gp_reachable s" and "t \<noteq> []"
  shows "map ap_tx_id (cr_packages (export_tenant_report (gp_ledger s) t now)) =
      map te_tx_id (ledger_query (gp_ledger s) t None 10000) \<and>
    (\<forall>e \<in> set (ledger_query (gp_ledger s) t None 10000). te_tenant_id e = t) \<and>
    cr_total_transactions (export_tenant_report (gp_ledger s) t now) =
      cr_total_settled (export_tenant_report (gp_ledger s) t now) +
      cr_total_refunded (export_tenant_report (gp_ledger s) t now) +
      cr_total_failed (export_tenant_report (gp_ledger s) t now) +
      cr_total_pending (export_tenant_report (gp_ledger s) t now)"
proof -
  let ?es = "ledger_query (gp_ledger s) t None 10000"
  have inv: "gp_inv s" by (rule gp_reachable_inv[OF assms(1)])
  then have li: "ledger_inv (gp_ledger s)" by (rule gp_invD(1))
  have mem: "ledger_get (gp_ledger s) (te_tx_id e) = Some e \<and> te_tenant_id e = t \<and>
      te_state e \<in> gp_stable" if q: "e \<in> set ?es" for e
  proof -
    obtain k where k: "ledger_get (gp_ledger s) k = Some e" "te_tenant_id e = t"
      using query_members[OF _ q] li assms(2) by (auto simp: ledger_inv_def)
    moreover have "te_tx_id e = k" using li k by (auto simp: ledger_inv_def ledger_get_def)
    ultimately show ?thesis using gp_invD(4)[OF inv k(1)] by (simp add: gp_entry_ok_def)
  qed
  have "map ap_tx_id (cr_packages (export_tenant_report (gp_ledger s) t now)) = map te_tx_id ?es"
    using report_packages[of ?es "gp_ledger s" report_acc0] mem
    by (auto simp: export_tenant_report_def Let_def report_acc0_def intro!: map_cong)
  moreover have "state_count {REFUND_PENDING} ?es = 0"
    using mem by (fastforce simp: state_count_def gp_stable_def filter_empty_conv)
  ultimately show ?thesis
    using mem state_count_all[of ?es]
    by (simp add: export_tenant_report_def Let_def report_counts report_acc0_def)
qed

theorem tenant_report_complete_witness:
  "cr_total_transactions (export_tenant_report (gp_ledger (gp_init (stripe_init True) [])) ''acme'' []) =
   cr_total_settled (export_tenant_report (gp_ledger (gp_init (stripe_init True) [])) ''acme'' []) +
   cr_total_refunded (export_tenant_report (gp_ledger (gp_init (stripe_init True) [])) ''acme'' []) +
   cr_total_failed (export_tenant_report (gp_ledger (gp_init (stripe_init True) [])) ''acme'' []) +
   cr_total_pending (export_tenant_report (gp_ledger (gp_init (stripe_init True) [])) ''acme'' [])"
  using tenant_report_complete[OF reach_init[of True], of "''acme''" "[]"] by simp

text \<open>
  In general, a ledger with a refund in progress has a report whose four counters fall short of
  the number of transactions by exactly the transactions in that state.
\<close>

theorem report_misses_refund_pending:
  "cr_total_transactions (export_tenant_report l t now) =
     cr_total_settled (export_tenant_report l t now) + cr_total_refunded (export_tenant_report l t now) +
     cr_total_failed (export_tenant_report l t now) + cr_total_pending (export_tenant_report l t now) +
     length (filter (\<lambda>e. te_state e = REFUND_PENDING) (ledger_query l t None 10000))"
  using state_count_all[of "ledger_query l t None 10000"]
  by (simp add: export_tenant_report_def Let_def report_counts report_acc0_def state_count_def)

section \<open>What the package hash covers\<close>

lemma transition_dict_inj:
  "json_canon (JObj (transition_dict t)) = json_canon (JObj (transition_dict u)) \<longleftrightarrow> t = u"
  by (cases t; cases u) (auto simp: transition_dict_def tx_value_inj)

lemma transition_dicts_inj:
  "map (json_canon \<circ> (\<lambda>t. JObj (transition_dict t))) ts =
     map (json_canon \<circ> (\<lambda>t. JObj (transition_dict t))) us \<longleftrightarrow> ts = us"
  by (rule inj_map_eq_map) (simp add: inj_def transition_dict_inj del: json_canon.simps)

text \<open>
  The package hash binds the identifier, tenant, amount, currency, state, proof hash and the
  whole list of transitions: two packages are hashed from the same text exactly when they agree on
  these, so any difference in them with equal hashes is a collision of SHA-256.
\<close>

theorem package_content_binds:
  "package_content e ts = package_content e' ts' \<longleftrightarrow>
     te_tx_id e = te_tx_id e' \<and> te_tenant_id e = te_tenant_id e' \<and>
     dec_str (te_amount e) = dec_str (te_amount e') \<and> te_currency e = te_currency e' \<and>
     te_state e = te_state e' \<and> te_proof_hash e = te_proof_hash e' \<and> ts = ts'"
proof
  assume "package_content e ts = package_content e' ts'"
  then have "json_canon (JObj
     [(''tx_id'', JStr (te_tx_id e)), (''tenant_id'', JStr (te_tenant_id e)),
      (''amount'', JStr (dec_str (te_amount e))), (''currency'', JStr (te_currency e)),
      (''state'', JStr (tx_value (te_state e))), (''proof_hash'', JStr (te_proof_hash e)),
      (''transitions'', JArr (map (\<lambda>t. JObj (transition_dict t)) ts))]) = json_canon (JObj
     [(''tx_id'', JStr (te_tx_id e')), (''tenant_id'', JStr (te_tenant_id e')),
      (''amount'', JStr (dec_str (te_amount e'))), (''currency'', JStr (te_currency e')),
      (''state'', JStr (tx_value (te_state e'))), (''proof_hash'', JStr (te_proof_hash e')),
      (''transitions'', JArr (map (\<lambda>t. JObj (transition_dict t)) ts'))])"
    unfolding package_content_def by (rule dumps_default_inj)
  then have "(te_tx_id e, te_tenant_id e, dec_str (te_amount e), te_currency e, tx_value (te_state e),
      te_proof_hash e, map (json_canon \<circ> (\<lambda>t. JObj (transition_dict t))) ts) =
    (te_tx_id e', te_tenant_id e', dec_str (te_amount e'), te_currency e', tx_value (te_state e'),
      te_proof_hash e', map (json_canon \<circ> (\<lambda>t. JObj (transition_dict t))) ts')"
    by simp
  then show "te_tx_id e = te_tx_id e' \<and> te_tenant_id e = te_tenant_id e' \<and>
     dec_str (te_amount e) = dec_str (te_amount e') \<and> te_currency e = te_currency e' \<and>
     te_state e = te_state e' \<and> te_proof_hash e = te_proof_hash e' \<and> ts = ts'"
    unfolding prod.inject transition_dicts_inj tx_value_inj .
qed (simp add: package_content_def)

text \<open>
  The package hash does not cover the provider's reference, the idempotency key or the creation
  time: a package in which they were changed carries the same hash.
\<close>

theorem package_hash_ignores:
  assumes "ledger_get l k = Some e"
    and "l' = l\<lparr>lg_entries := dict_set k (e\<lparr>te_provider := p, te_provider_tx_id := ptx,
      te_idem_key := ik, te_created_at := c\<rparr>) (lg_entries l)\<rparr>"
  shows "\<exists>a b. export_transaction l k = Some a \<and> export_transaction l' k = Some b \<and>
    ap_package_hash a = ap_package_hash b \<and> ap_provider_tx_id b = ptx \<and> ap_idempotency_key b = ik \<and>
    ap_created_at b = c \<and> ap_provider b = p"
proof -
  have "ledger_get l' k = Some (e\<lparr>te_provider := p, te_provider_tx_id := ptx, te_idem_key := ik,
      te_created_at := c\<rparr>)" and "get_transitions l' k = get_transitions l k"
    by (simp_all add: assms(2) ledger_get_def get_transitions_def)
  with assms(1) show ?thesis
    by (simp add: export_transaction_def Let_def package_content_def)
qed

definition sample_entry :: tx_entry where
  "sample_entry = \<lparr>te_tx_id = ''tx-1'', te_idem_key = ''idem-1'', te_tenant_id = ''acme'',
     te_debit = ''tenant:acme'', te_credit = ''dest:v'', te_amount = Dec 60 0, te_currency = ''USD'',
     te_state = SETTLED, te_provider = ''stripe'', te_provider_tx_id = ''pl_1'', te_approval_id = [],
     te_proof_hash = [], te_audit_ref = [], te_description = [], te_created_at = ''t1'',
     te_updated_at = ''t2'', te_metadata = []\<rparr>"

theorem package_hash_ignores_witness:
  "\<exists>a b :: audit_package. export_transaction (ledger_init\<lparr>lg_entries := [(''tx-1'', sample_entry)]\<rparr>) ''tx-1'' = Some a \<and>
    ap_package_hash a = ap_package_hash b \<and> ap_provider_tx_id b = ''pl_666''"
proof -
  have e: "ledger_get (ledger_init\<lparr>lg_entries := [(''tx-1'', sample_entry)]\<rparr>) ''tx-1'' = Some sample_entry"
    by (simp add: ledger_get_def)
  from package_hash_ignores[OF e refl, where ptx = "''pl_666''" and p = "[]" and ik = "[]" and c = "[]"] show ?thesis
    by blast
qed

end
