(* ===== verification/Tenant_Gating.thy ===== *)
theory Tenant_Gating
  imports Py_Prelude
begin

text \<open>
  \<open>mcoi_runtime/governance/guards/tenant_gating.py\<close> and the in-memory gating store of
  \<open>mcoi_runtime/persistence/postgres_governance_stores.py\<close>.

  A store is an object with a state of some type \<open>'s\<close>; its class is a record of functions, in which
  \<open>go_try\<close> is \<open>None\<close> when the class does not override \<open>try_transition\<close>.  A registry (one replica) is
  its cache of gates and its admission policy.  The replicas of a deployment share one store.
\<close>

datatype tenant_status = ACTIVE | ONBOARDING | SUSPENDED | TERMINATED

fun ts_value :: "tenant_status \<Rightarrow> string" where
  "ts_value ACTIVE = ''active''"
| "ts_value ONBOARDING = ''onboarding''"
| "ts_value SUSPENDED = ''suspended''"
| "ts_value TERMINATED = ''terminated''"

datatype tenant_error =
    TenantAlreadyRegistered string
  | TenantNotRegistered string
  | InvalidTenantStatusTransition string tenant_status tenant_status

fun VALID_TRANSITIONS :: "tenant_status \<Rightarrow> tenant_status list" where
  "VALID_TRANSITIONS ONBOARDING = [ACTIVE, TERMINATED]"
| "VALID_TRANSITIONS ACTIVE = [SUSPENDED, TERMINATED]"
| "VALID_TRANSITIONS SUSPENDED = [ACTIVE, TERMINATED]"
| "VALID_TRANSITIONS TERMINATED = []"

definition ALL_STATUSES :: "tenant_status list" where
  "ALL_STATUSES = [ONBOARDING, ACTIVE, SUSPENDED, TERMINATED]"

definition BLOCKED_STATES :: "tenant_status list" where
  "BLOCKED_STATES = [SUSPENDED, TERMINATED]"

record tenant_gate =
  tg_tenant_id :: string
  tg_status :: tenant_status
  tg_reason :: string
  tg_gated_at :: string

record 's gating_ops =
  go_load :: "'s \<Rightarrow> string \<Rightarrow> tenant_gate option"
  go_save :: "'s \<Rightarrow> tenant_gate \<Rightarrow> 's"
  go_load_all :: "'s \<Rightarrow> tenant_gate list"
  go_try :: "('s \<Rightarrow> string \<Rightarrow> tenant_status list \<Rightarrow> tenant_status \<Rightarrow> string \<Rightarrow> string
               \<Rightarrow> tenant_gate option \<times> 's) option"

text \<open>The base class, whose methods do nothing.\<close>

definition base_gating_ops :: "unit gating_ops" where
  "base_gating_ops = \<lparr>go_load = (\<lambda>_ _. None), go_save = (\<lambda>s _. s), go_load_all = (\<lambda>_. []), go_try = None\<rparr>"

section \<open>The in-memory store\<close>

type_synonym mem_gating = "(string, tenant_gate) pydict"

definition mem_load :: "mem_gating \<Rightarrow> string \<Rightarrow> tenant_gate option" where
  "mem_load st tenant_id = dict_get st tenant_id"

definition mem_save :: "mem_gating \<Rightarrow> tenant_gate \<Rightarrow> mem_gating" where
  "mem_save st gate = dict_set (tg_tenant_id gate) gate st"

definition mem_load_all :: "mem_gating \<Rightarrow> tenant_gate list" where
  "mem_load_all st = sort_key tg_tenant_id (dict_values st)"

definition mem_try_transition ::
  "mem_gating \<Rightarrow> string \<Rightarrow> tenant_status list \<Rightarrow> tenant_status \<Rightarrow> string \<Rightarrow> string
    \<Rightarrow> tenant_gate option \<times> mem_gating" where
  "mem_try_transition st tenant_id allowed_from new_status reason gated_at =
     (case dict_get st tenant_id of
        None \<Rightarrow> (None, st)
      | Some current \<Rightarrow>
          if tg_status current \<notin> set allowed_from then (None, st)
          else let gate = \<lparr>tg_tenant_id = tenant_id, tg_status = new_status, tg_reason = reason,
                           tg_gated_at = gated_at\<rparr>
               in (Some gate, dict_set tenant_id gate st))"

definition mem_gating_ops :: "mem_gating gating_ops" where
  "mem_gating_ops = \<lparr>go_load = mem_load, go_save = mem_save, go_load_all = mem_load_all,
     go_try = Some mem_try_transition\<rparr>"

section \<open>The registry\<close>

record registry =
  rg_gates :: "(string, tenant_gate) pydict"
  rg_allow_unknown :: bool

definition registry_init :: "bool \<Rightarrow> registry" where
  "registry_init allow_unknown = \<lparr>rg_gates = [], rg_allow_unknown = allow_unknown\<rparr>"

definition load_gate ::
  "'s gating_ops option \<Rightarrow> 's \<Rightarrow> registry \<Rightarrow> string \<Rightarrow> tenant_gate option \<times> registry" where
  "load_gate store st r tenant_id =
     (case (dict_get (rg_gates r) tenant_id, store) of
        (None, Some ops) \<Rightarrow>
          (case go_load ops st tenant_id of
             None \<Rightarrow> (None, r)
           | Some gate \<Rightarrow> (Some gate, r\<lparr>rg_gates := dict_set tenant_id gate (rg_gates r)\<rparr>))
      | (g, _) \<Rightarrow> (g, r))"

definition load_all_gates :: "'s gating_ops option \<Rightarrow> 's \<Rightarrow> registry \<Rightarrow> registry" where
  "load_all_gates store st r =
     (case store of None \<Rightarrow> r
      | Some ops \<Rightarrow> r\<lparr>rg_gates :=
          fold (\<lambda>gate. dict_set (tg_tenant_id gate) gate) (go_load_all ops st) (rg_gates r)\<rparr>)"

definition save_gate :: "'s gating_ops option \<Rightarrow> 's \<Rightarrow> tenant_gate \<Rightarrow> 's" where
  "save_gate store st gate = (case store of None \<Rightarrow> st | Some ops \<Rightarrow> go_save ops st gate)"

text \<open>
  Registering reads the store and later writes it; the registry's own lock spans both, the locks
  of other registries over the same store do not.
\<close>

definition register_lookup ::
  "'s gating_ops option \<Rightarrow> 's \<Rightarrow> registry \<Rightarrow> string \<Rightarrow> string \<Rightarrow> tenant_status \<Rightarrow> string
    \<Rightarrow> (tenant_error + tenant_gate) \<times> registry" where
  "register_lookup store st r now tenant_id status reason =
     (case load_gate store st r tenant_id of
        (Some _, r) \<Rightarrow> (Inl (TenantAlreadyRegistered tenant_id), r)
      | (None, r) \<Rightarrow> (Inr \<lparr>tg_tenant_id = tenant_id, tg_status = status, tg_reason = reason,
                         tg_gated_at = now\<rparr>, r))"

definition register_write ::
  "'s gating_ops option \<Rightarrow> 's \<Rightarrow> registry \<Rightarrow> tenant_gate \<Rightarrow> registry \<times> 's" where
  "register_write store st r gate =
     (r\<lparr>rg_gates := dict_set (tg_tenant_id gate) gate (rg_gates r)\<rparr>, save_gate store st gate)"

definition tenant_register ::
  "'s gating_ops option \<Rightarrow> 's \<Rightarrow> registry \<Rightarrow> string \<Rightarrow> string \<Rightarrow> tenant_status \<Rightarrow> string
    \<Rightarrow> (tenant_error + tenant_gate) \<times> registry \<times> 's" where
  "tenant_register store st r now tenant_id status reason =
     (case register_lookup store st r now tenant_id status reason of
        (Inl e, r) \<Rightarrow> (Inl e, r, st)
      | (Inr gate, r) \<Rightarrow> (Inr gate, register_write store st r gate))"

text \<open>The states from which a state is reachable in one move.\<close>

definition allowed_from :: "tenant_status \<Rightarrow> tenant_status list" where
  "allowed_from new_status = filter (\<lambda>s. new_status \<in> set (VALID_TRANSITIONS s)) ALL_STATUSES"

text \<open>
  With a conditional transition the update is one call of it and, when it was rejected, a second
  reading of the store; without one, the update validates and writes by itself.
\<close>

definition update_try ::
  "('s \<Rightarrow> string \<Rightarrow> tenant_status list \<Rightarrow> tenant_status \<Rightarrow> string \<Rightarrow> string \<Rightarrow> tenant_gate option \<times> 's)
    \<Rightarrow> 's \<Rightarrow> registry \<Rightarrow> string \<Rightarrow> string \<Rightarrow> tenant_status \<Rightarrow> string
    \<Rightarrow> tenant_gate option \<times> registry \<times> 's" where
  "update_try try_transition st r now tenant_id new_status reason =
     (case try_transition st tenant_id (allowed_from new_status) new_status reason now of
        (None, st) \<Rightarrow> (None, r, st)
      | (Some gate, st) \<Rightarrow> (Some gate, r\<lparr>rg_gates := dict_set tenant_id gate (rg_gates r)\<rparr>, st))"

definition update_reread ::
  "'s gating_ops \<Rightarrow> 's \<Rightarrow> registry \<Rightarrow> string \<Rightarrow> tenant_status \<Rightarrow> tenant_error \<times> registry" where
  "update_reread ops st r tenant_id new_status =
     (case go_load ops st tenant_id of
        Some current \<Rightarrow>
          (InvalidTenantStatusTransition tenant_id (tg_status current) new_status,
           r\<lparr>rg_gates := dict_set tenant_id current (rg_gates r)\<rparr>)
      | None \<Rightarrow> (TenantNotRegistered tenant_id, r\<lparr>rg_gates := dict_pop tenant_id (rg_gates r)\<rparr>))"

definition update_legacy ::
  "'s gating_ops option \<Rightarrow> 's \<Rightarrow> registry \<Rightarrow> string \<Rightarrow> string \<Rightarrow> tenant_status \<Rightarrow> string
    \<Rightarrow> (tenant_error + tenant_gate) \<times> registry \<times> 's" where
  "update_legacy store st r now tenant_id new_status reason =
     (case load_gate store st r tenant_id of
        (None, r) \<Rightarrow> (Inl (TenantNotRegistered tenant_id), r, st)
      | (Some current, r) \<Rightarrow>
          if new_status \<notin> set (VALID_TRANSITIONS (tg_status current))
          then (Inl (InvalidTenantStatusTransition tenant_id (tg_status current) new_status), r, st)
          else let gate = \<lparr>tg_tenant_id = tenant_id, tg_status = new_status, tg_reason = reason,
                           tg_gated_at = now\<rparr>
               in (Inr gate, r\<lparr>rg_gates := dict_set tenant_id gate (rg_gates r)\<rparr>,
                   save_gate store st gate))"

definition update_status ::
  "'s gating_ops option \<Rightarrow> 's \<Rightarrow> registry \<Rightarrow> string \<Rightarrow> string \<Rightarrow> tenant_status \<Rightarrow> string
    \<Rightarrow> (tenant_error + tenant_gate) \<times> registry \<times> 's" where
  "update_status store st r now tenant_id new_status reason =
     (case store of
        None \<Rightarrow> update_legacy store st r now tenant_id new_status reason
      | Some ops \<Rightarrow>
          (case go_try ops of
             None \<Rightarrow> update_legacy store st r now tenant_id new_status reason
           | Some try_transition \<Rightarrow>
               (case update_try try_transition st r now tenant_id new_status reason of
                  (Some gate, r, st) \<Rightarrow> (Inr gate, r, st)
                | (None, r, st) \<Rightarrow>
                    (case update_reread ops st r tenant_id new_status of (e, r) \<Rightarrow> (Inl e, r, st)))))"

definition get_status ::
  "'s gating_ops option \<Rightarrow> 's \<Rightarrow> registry \<Rightarrow> string \<Rightarrow> tenant_gate option \<times> registry" where
  "get_status store st r tenant_id = load_gate store st r tenant_id"

definition is_allowed :: "'s gating_ops option \<Rightarrow> 's \<Rightarrow> registry \<Rightarrow> string \<Rightarrow> bool \<times> registry" where
  "is_allowed store st r tenant_id =
     (case get_status store st r tenant_id of
        (None, r) \<Rightarrow> (rg_allow_unknown r, r)
      | (Some gate, r) \<Rightarrow> (tg_status gate \<notin> set BLOCKED_STATES, r))"

definition denial_reason ::
  "'s gating_ops option \<Rightarrow> 's \<Rightarrow> registry \<Rightarrow> string \<Rightarrow> string option \<times> registry" where
  "denial_reason store st r tenant_id =
     (case get_status store st r tenant_id of
        (None, r) \<Rightarrow>
          (if rg_allow_unknown r then None else Some (''tenant '' @ tenant_id @ '' is not registered''), r)
      | (Some gate, r) \<Rightarrow>
          (if tg_status gate \<in> set BLOCKED_STATES
           then (if tg_reason gate \<noteq> []
                 then Some (''tenant '' @ tenant_id @ '' is '' @ ts_value (tg_status gate) @ '': ''
                            @ tg_reason gate)
                 else Some (''tenant '' @ tenant_id @ '' is '' @ ts_value (tg_status gate)))
           else None, r))"

definition all_gates :: "'s gating_ops option \<Rightarrow> 's \<Rightarrow> registry \<Rightarrow> tenant_gate list \<times> registry" where
  "all_gates store st r =
     (let r = load_all_gates store st r in (sort_key tg_tenant_id (dict_values (rg_gates r)), r))"

definition gating_status_counts ::
  "'s gating_ops option \<Rightarrow> 's \<Rightarrow> registry \<Rightarrow> (string, nat) pydict \<times> registry" where
  "gating_status_counts store st r =
     (let r = load_all_gates store st r
      in (fold (\<lambda>g. dict_bump (ts_value (tg_status g))) (dict_values (rg_gates r)) [], r))"

section \<open>The lifecycle\<close>

definition legal_status :: "tenant_status \<Rightarrow> tenant_status \<Rightarrow> bool" where
  "legal_status s t \<longleftrightarrow> t \<in> set (VALID_TRANSITIONS s)"

interpretation tenant: lifecycle legal_status "\<lambda>s. s = TERMINATED"
  by unfold_locales (simp add: legal_status_def)

lemma allowed_from_iff: "s \<in> set (allowed_from t) \<longleftrightarrow> legal_status s t"
  by (cases s) (auto simp: allowed_from_def ALL_STATUSES_def legal_status_def)

text \<open>How the gate of a tenant may change in one step.\<close>

definition gate_evolves :: "tenant_gate option \<Rightarrow> tenant_gate option \<Rightarrow> bool" where
  "gate_evolves g g' \<longleftrightarrow> g' = g \<or> g = None \<or>
     (\<exists>a b. g = Some a \<and> g' = Some b \<and> legal_status (tg_status a) (tg_status b))"

section \<open>Replicas over one store\<close>

text \<open>
  What the replicas rely on: reading back what was saved, and a conditional transition that
  compares and sets.
\<close>

locale atomic_gating_store =
  fixes ops :: "'s gating_ops" and try_transition
  assumes has_try: "go_try ops = Some try_transition"
    and load_save: "go_load ops (go_save ops st g) t =
      (if t = tg_tenant_id g then Some g else go_load ops st t)"
    and try_spec: "try_transition st t from new why now =
      (case go_load ops st t of
         None \<Rightarrow> (None, st)
       | Some g \<Rightarrow> if tg_status g \<notin> set from then (None, st)
           else (Some \<lparr>tg_tenant_id = t, tg_status = new, tg_reason = why, tg_gated_at = now\<rparr>,
                 go_save ops st \<lparr>tg_tenant_id = t, tg_status = new, tg_reason = why, tg_gated_at = now\<rparr>))"
begin

lemma lookup_refuses_known:
  "go_load ops st t \<noteq> None \<Longrightarrow> register_lookup (Some ops) st r now t s why = (res, r') \<Longrightarrow> res \<noteq> Inr g"
  by (auto simp: register_lookup_def load_gate_def split: option.splits prod.splits)

lemma lookup_gate_names_tenant:
  "register_lookup (Some ops) st r now t s why = (Inr g, r') \<Longrightarrow> tg_tenant_id g = t"
  by (auto simp: register_lookup_def split: option.splits prod.splits)

lemma write_saves:
  "go_load ops (snd (register_write (Some ops) st r g)) x =
     (if x = tg_tenant_id g then Some g else go_load ops st x)"
  by (simp add: register_write_def save_gate_def load_save)

lemma try_evolves:
  "gate_evolves (go_load ops st x)
     (go_load ops (snd (snd (update_try try_transition st r now t s why))) x)"
  by (auto simp: gate_evolves_def update_try_def try_spec load_save allowed_from_iff
           split: option.splits prod.splits if_splits)

text \<open>One registry on its own: neither call moves a gate but along the declared moves.\<close>

lemma register_evolves:
  "gate_evolves (go_load ops st x)
     (go_load ops (snd (snd (tenant_register (Some ops) st r now t s why))) x)"
  by (auto simp: gate_evolves_def tenant_register_def register_lookup_def register_write_def
             load_gate_def save_gate_def load_save split: option.splits prod.splits)

lemma update_evolves:
  "gate_evolves (go_load ops st x)
     (go_load ops (snd (snd (update_status (Some ops) st r now t s why))) x)"
  using try_evolves[of st x r now t s why]
  by (auto simp: update_status_def has_try split: option.splits prod.splits)

text \<open>After an update, accepted or rejected, the replica's cache agrees with the store.\<close>

lemma update_refreshes:
  "dict_get (rg_gates (fst (snd (update_status (Some ops) st r now t s why)))) t =
   go_load ops (snd (snd (update_status (Some ops) st r now t s why))) t"
  by (auto simp: update_status_def update_try_def update_reread_def has_try try_spec load_save Let_def
           split: option.splits prod.splits if_splits)

end

interpretation mem: atomic_gating_store mem_gating_ops mem_try_transition
  by unfold_locales
     (auto simp: mem_gating_ops_def mem_load_def mem_save_def mem_try_transition_def Let_def
           split: option.splits)

text \<open>
  A deployment: the replicas by number, the store they share, and the call that each replica is in
  the middle of.  A replica's lock keeps its own calls apart, so a replica in the middle of a call
  starts no other; between the two accesses of a call to the store, the other replicas run freely.
  Every call of the store itself is atomic, as its lock makes it.
\<close>

datatype pending_call =
    PC_save tenant_gate
  | PC_reread string tenant_status

record deployment =
  dp_replica :: "nat \<Rightarrow> registry"
  dp_store :: mem_gating
  dp_pending :: "nat \<Rightarrow> pending_call option"

inductive gating_step :: "deployment \<Rightarrow> deployment \<Rightarrow> bool" where
  gs_register_refused: "dp_pending d i = None
    \<Longrightarrow> register_lookup (Some mem_gating_ops) (dp_store d) (dp_replica d i) now t s why = (Inl e, r)
    \<Longrightarrow> gating_step d (d\<lparr>dp_replica := (dp_replica d)(i := r)\<rparr>)"
| gs_register_lookup: "dp_pending d i = None
    \<Longrightarrow> register_lookup (Some mem_gating_ops) (dp_store d) (dp_replica d i) now t s why = (Inr g, r)
    \<Longrightarrow> gating_step d (d\<lparr>dp_replica := (dp_replica d)(i := r),
                         dp_pending := (dp_pending d)(i := Some (PC_save g))\<rparr>)"
| gs_register_write: "dp_pending d i = Some (PC_save g)
    \<Longrightarrow> register_write (Some mem_gating_ops) (dp_store d) (dp_replica d i) g = (r, st)
    \<Longrightarrow> gating_step d \<lparr>dp_replica = (dp_replica d)(i := r), dp_store = st,
                       dp_pending = (dp_pending d)(i := None)\<rparr>"
| gs_update: "dp_pending d i = None
    \<Longrightarrow> update_try mem_try_transition (dp_store d) (dp_replica d i) now t s why = (Some g, r, st)
    \<Longrightarrow> gating_step d (d\<lparr>dp_replica := (dp_replica d)(i := r), dp_store := st\<rparr>)"
| gs_update_rejected: "dp_pending d i = None
    \<Longrightarrow> update_try mem_try_transition (dp_store d) (dp_replica d i) now t s why = (None, r, st)
    \<Longrightarrow> gating_step d \<lparr>dp_replica = (dp_replica d)(i := r), dp_store = st,
                       dp_pending = (dp_pending d)(i := Some (PC_reread t s))\<rparr>"
| gs_update_reread: "dp_pending d i = Some (PC_reread t s)
    \<Longrightarrow> update_reread mem_gating_ops (dp_store d) (dp_replica d i) t s = (e, r)
    \<Longrightarrow> gating_step d (d\<lparr>dp_replica := (dp_replica d)(i := r),
                         dp_pending := (dp_pending d)(i := None)\<rparr>)"
| gs_query: "dp_pending d i = None
    \<Longrightarrow> get_status (Some mem_gating_ops) (dp_store d) (dp_replica d i) t = (res, r)
    \<Longrightarrow> gating_step d (d\<lparr>dp_replica := (dp_replica d)(i := r)\<rparr>)"
| gs_list: "dp_pending d i = None
    \<Longrightarrow> all_gates (Some mem_gating_ops) (dp_store d) (dp_replica d i) = (gs, r)
    \<Longrightarrow> gating_step d (d\<lparr>dp_replica := (dp_replica d)(i := r)\<rparr>)"

text \<open>A registration of the tenant that has found no gate and has not saved its own yet.\<close>

definition registration_in_flight :: "deployment \<Rightarrow> string \<Rightarrow> bool" where
  "registration_in_flight d t \<longleftrightarrow> (\<exists>i g. dp_pending d i = Some (PC_save g) \<and> tg_tenant_id g = t)"

lemma mem_load_ops [simp]: "go_load mem_gating_ops = mem_load"
  by (simp add: mem_gating_ops_def)

text \<open>
  A tenant that the store knows, and that nobody is registering, moves along the declared moves
  and is not registered again.
\<close>

lemma gating_step_known:
  assumes "gating_step d d'" and "\<not> registration_in_flight d t" and "mem_load (dp_store d) t = Some a"
  shows "\<not> registration_in_flight d' t \<and> gate_evolves (mem_load (dp_store d) t) (mem_load (dp_store d') t)"
  using assms(1)
proof (cases rule: gating_step.cases)
  case (gs_register_lookup i now u s why g r)
  have "u \<noteq> t"
  proof
    assume "u = t"
    with mem.lookup_refuses_known[of "dp_store d" t] assms(3) gs_register_lookup(3) show False by simp blast
  qed
  with gs_register_lookup mem.lookup_gate_names_tenant assms(2) show ?thesis
    by (auto simp: registration_in_flight_def gate_evolves_def split: if_splits)
next
  case (gs_register_write i g r st)
  with assms(2) have "tg_tenant_id g \<noteq> t" by (auto simp: registration_in_flight_def)
  with gs_register_write mem.write_saves[of "dp_store d" "dp_replica d i" g t] assms(2) show ?thesis
    by (auto simp: registration_in_flight_def gate_evolves_def split: if_splits)
next
  case (gs_update i now u s why g r st)
  with mem.try_evolves[of "dp_store d" t "dp_replica d i" now u s why] assms(2) show ?thesis
    by (auto simp: registration_in_flight_def)
next
  case (gs_update_rejected i now u s why r st)
  with mem.try_evolves[of "dp_store d" t "dp_replica d i" now u s why] assms(2) show ?thesis
    by (auto simp: registration_in_flight_def split: if_splits)
qed (use assms(2) in \<open>auto simp: registration_in_flight_def gate_evolves_def split: if_splits\<close>)

text \<open>
  C6: Whatever the replicas of a deployment do over the shared in-memory store, with the
  store accesses of their calls interleaved in any way: a tenant that the store holds as
  terminated, while no registration of that tenant is between its lookup and its save, stays
  terminated, with the record it was terminated with, and no such registration starts.
\<close>

theorem termination_is_final:
  assumes "gating_step\<^sup>*\<^sup>* d d'" and "mem_load (dp_store d) t = Some g" and "tg_status g = TERMINATED"
    and "\<not> registration_in_flight d t"
  shows "mem_load (dp_store d') t = Some g \<and> \<not> registration_in_flight d' t"
  using assms(1)
proof (induction rule: rtranclp_induct)
  case base
  show ?case using assms(2,4) by simp
next
  case (step x y)
  from gating_step_known[OF step(2), of t g] step(3) assms(3) show ?case
    by (auto simp: gate_evolves_def legal_status_def)
qed

definition demo_gate :: "tenant_status \<Rightarrow> tenant_gate" where
  "demo_gate s = \<lparr>tg_tenant_id = ''acme'', tg_status = s, tg_reason = ''fraud'', tg_gated_at = ''t1''\<rparr>"

definition demo_deployment :: "tenant_status \<Rightarrow> deployment" where
  "demo_deployment s = \<lparr>dp_replica = (\<lambda>_. \<lparr>rg_gates = [(''acme'', demo_gate ACTIVE)], rg_allow_unknown = True\<rparr>),
     dp_store = [(''acme'', demo_gate s)], dp_pending = (\<lambda>_. None)\<rparr>"

text \<open>
  A replica whose cache still says active tries to suspend the terminated tenant: the transition
  is rejected, and the replica rereads the store.
\<close>

theorem termination_is_final_witness:
  "\<exists>d1 d2. gating_step (demo_deployment TERMINATED) d1 \<and> gating_step d1 d2 \<and>
     dp_pending d1 0 = Some (PC_reread ''acme'' SUSPENDED) \<and>
     mem_load (dp_store d2) ''acme'' = Some (demo_gate TERMINATED)"
proof -
  let ?d = "demo_deployment TERMINATED"
  have "update_try mem_try_transition (dp_store ?d) (dp_replica ?d 0) ''t2'' ''acme'' SUSPENDED [] =
      (None, dp_replica ?d 0, dp_store ?d)"
    by code_simp
  from gs_update_rejected[OF _ this] obtain d1 where s1: "gating_step ?d d1"
    and p: "dp_pending d1 0 = Some (PC_reread ''acme'' SUSPENDED)"
    by (force simp: demo_deployment_def)
  obtain e r where "update_reread mem_gating_ops (dp_store d1) (dp_replica d1 0) ''acme'' SUSPENDED = (e, r)"
    by (metis prod.collapse)
  from gs_update_reread[OF p this] obtain d2 where s2: "gating_step d1 d2" by blast
  have "mem_load (dp_store ?d) ''acme'' = Some (demo_gate TERMINATED)" "tg_status (demo_gate TERMINATED) = TERMINATED"
    "\<not> registration_in_flight ?d ''acme''"
    by (simp_all add: demo_deployment_def mem_load_def demo_gate_def registration_in_flight_def)
  from termination_is_final[OF _ this, of d2] s1 s2 have "mem_load (dp_store d2) ''acme'' = Some (demo_gate TERMINATED)"
    by (meson rtranclp.rtrancl_into_rtrancl r_into_rtranclp)
  with s1 s2 p show ?thesis by blast
qed

text \<open>
  The hypothesis on registrations is needed, since saving is unconditional.  Replica 0 looks the
  tenant up and finds nothing; replica 1 registers the tenant and terminates it; replica 0 saves
  its gate over the terminated one.
\<close>

definition fresh_deployment :: deployment where
  "fresh_deployment = \<lparr>dp_replica = (\<lambda>_. registry_init True), dp_store = [], dp_pending = (\<lambda>_. None)\<rparr>"

theorem late_registration_unterminates:
  "\<exists>d d'. gating_step\<^sup>*\<^sup>* fresh_deployment d \<and> gating_step d d' \<and>
     map_option tg_status (mem_load (dp_store d) ''acme'') = Some TERMINATED \<and>
     map_option tg_status (mem_load (dp_store d') ''acme'') = Some ONBOARDING"
proof -
  define g0 where "g0 = \<lparr>tg_tenant_id = ''acme'', tg_status = ONBOARDING, tg_reason = [], tg_gated_at = ''t0''\<rparr>"
  define g1 where "g1 = g0\<lparr>tg_gated_at := ''t1''\<rparr>"
  define g2 where "g2 = g1\<lparr>tg_status := TERMINATED, tg_gated_at := ''t2''\<rparr>"
  define r0 where "r0 = registry_init True"
  define r1 where "r1 = r0\<lparr>rg_gates := [(''acme'', g1)]\<rparr>"
  define r2 where "r2 = r0\<lparr>rg_gates := [(''acme'', g2)]\<rparr>"
  note ds = g0_def g1_def g2_def r0_def r1_def r2_def registry_init_def fresh_deployment_def
  note ops = register_lookup_def register_write_def update_try_def load_gate_def save_gate_def
    mem_gating_ops_def mem_load_def mem_save_def mem_try_transition_def
  define d1 where "d1 = fresh_deployment\<lparr>dp_replica := (dp_replica fresh_deployment)(0 := r0),
    dp_pending := (dp_pending fresh_deployment)(0 := Some (PC_save g0))\<rparr>"
  define d2 where "d2 = d1\<lparr>dp_replica := (dp_replica d1)(1 := r0),
    dp_pending := (dp_pending d1)(1 := Some (PC_save g1))\<rparr>"
  define d3 where "d3 = \<lparr>dp_replica = (dp_replica d2)(1 := r1), dp_store = [(''acme'', g1)],
    dp_pending = (dp_pending d2)(1 := None)\<rparr>"
  define d4 where "d4 = d3\<lparr>dp_replica := (dp_replica d3)(1 := r2), dp_store := [(''acme'', g2)]\<rparr>"
  define d5 where "d5 = \<lparr>dp_replica = (dp_replica d4)(0 := r0\<lparr>rg_gates := [(''acme'', g0)]\<rparr>),
    dp_store = [(''acme'', g0)], dp_pending = (dp_pending d4)(0 := None)\<rparr>"
  have 1: "gating_step fresh_deployment d1" unfolding d1_def
    by (rule gs_register_lookup[of _ _ "''t0''" "''acme''" ONBOARDING "[]"]) (simp_all add: ds ops)
  have 2: "gating_step d1 d2" unfolding d2_def
    by (rule gs_register_lookup[of _ _ "''t1''" "''acme''" ONBOARDING "[]"]) (simp_all add: d1_def ds ops)
  have 3: "gating_step d2 d3" unfolding d3_def
    by (rule gs_register_write[of _ _ g1]) (simp_all add: d2_def d1_def ds ops)
  have 4: "gating_step d3 d4" unfolding d4_def
    by (rule gs_update[of _ _ "''t2''" "''acme''" TERMINATED "[]" g2])
       (simp_all add: d3_def d2_def d1_def ds ops allowed_from_def ALL_STATUSES_def Let_def)
  have 5: "gating_step d4 d5" unfolding d5_def
    by (rule gs_register_write[of _ _ g0]) (simp_all add: d4_def d3_def d2_def d1_def ds ops)
  from 1 2 3 4 have "gating_step\<^sup>*\<^sup>* fresh_deployment d4"
    by (meson rtranclp.rtrancl_into_rtrancl r_into_rtranclp)
  with 5 show ?thesis
    by (intro exI[of _ d4] exI[of _ d5]) (simp add: d5_def d4_def ds mem_load_def)
qed

text \<open>
  A replica decides from its own cache once it has an entry for the tenant: another replica's
  termination does not reach it, and the terminated tenant stays allowed there.
\<close>

theorem stale_replica_allows:
  assumes "dict_get (rg_gates r) t = Some g" and "tg_status g \<notin> set BLOCKED_STATES"
  shows "fst (is_allowed (Some mem_gating_ops) st r t)"
  using assms by (simp add: is_allowed_def get_status_def load_gate_def)

theorem stale_replica_allows_witness:
  "mem_load (dp_store (demo_deployment TERMINATED)) ''acme'' = Some (demo_gate TERMINATED) \<and>
   fst (is_allowed (Some mem_gating_ops) (dp_store (demo_deployment TERMINATED))
     (dp_replica (demo_deployment TERMINATED) 0) ''acme'')"
  using stale_replica_allows[of "dp_replica (demo_deployment TERMINATED) 0" "''acme''" "demo_gate ACTIVE"]
  by (simp add: demo_deployment_def mem_load_def demo_gate_def BLOCKED_STATES_def)

text \<open>
  A tenant is refused exactly when a reason is given, and the reason is given exactly for a
  tenant that the replica sees as suspended or terminated, or does not know and must not admit.
\<close>

theorem denial_iff_not_allowed:
  "(fst (denial_reason store st r t) = None \<longleftrightarrow> fst (is_allowed store st r t)) \<and>
   (fst (is_allowed store st r t) \<longleftrightarrow>
      (case fst (get_status store st r t) of
         None \<Rightarrow> rg_allow_unknown r
       | Some g \<Rightarrow> tg_status g \<noteq> SUSPENDED \<and> tg_status g \<noteq> TERMINATED))"
  by (auto simp: denial_reason_def is_allowed_def get_status_def load_gate_def BLOCKED_STATES_def
           split: option.splits)

end
