(* ===== verification/Py_Float.thy ===== *)
theory Py_Float
  imports Py_Prelude Complex_Main
begin

text \<open>
  Python's \<open>float\<close>, IEEE binary64 with rounding to nearest, ties to even: a finite value is the
  rational number it stands for, an operation computes the exact result and rounds it.  The sign of
  zero is not modelled.  Comparisons with NaN are false; Python raises where it divides by zero.
\<close>

datatype pfloat = PNaN | PPosInf | PNegInf | PFin rat

section \<open>Rounding\<close>

function ilog2 :: "int \<Rightarrow> nat" where
  "ilog2 n = (if n \<le> 1 then 0 else Suc (ilog2 (n div 2)))"
  by pat_completeness auto
termination
  by (relation "measure nat") auto

declare ilog2.simps [simp del]

lemma ilog2_bounds: "0 < n \<Longrightarrow> 2 ^ ilog2 n \<le> n \<and> n < 2 ^ Suc (ilog2 n)"
proof (induction n rule: ilog2.induct)
  case (1 n)
  show ?case
  proof (cases "n \<le> 1")
    case True
    with 1 show ?thesis by (simp add: ilog2.simps[of n])
  next
    case False
    then have "0 < n div 2" by auto
    with 1 False have IH: "2 ^ ilog2 (n div 2) \<le> n div 2" "n div 2 < 2 * 2 ^ ilog2 (n div 2)" by auto
    have "2 * x \<le> n" if "x \<le> n div 2" for x using that by linarith
    moreover have "n < 2 * x" if "n div 2 < x" for x using that by linarith
    ultimately show ?thesis using IH False by (simp add: ilog2.simps[of n])
  qed
qed

text \<open>The binary exponent of a positive rational: the \<open>k\<close> with \<open>2 ^ k \<le> x < 2 ^ (k + 1)\<close>.\<close>

definition rat_exp :: "rat \<Rightarrow> int" where
  "rat_exp x = (let (n, d) = quotient_of x; k = int (ilog2 n) - int (ilog2 d)
     in if 2 powi k \<le> x then k else k - 1)"

lemma rat_exp_bounds:
  assumes "0 < x" shows "2 powi rat_exp x \<le> x" and "x < 2 powi (rat_exp x + 1)"
proof -
  obtain n d where q: "quotient_of x = (n, d)" by fastforce
  have d: "0 < d" using quotient_of_denom_pos[OF q] .
  have x: "x = of_int n / of_int d" by (rule quotient_of_div[OF q])
  have n: "0 < n" using assms d by (simp add: x zero_less_divide_iff)
  let ?i = "ilog2 n" and ?j = "ilog2 d"
  have bn: "(2 :: rat) ^ ?i \<le> of_int n" "of_int n < (2 :: rat) ^ Suc ?i"
    using ilog2_bounds[OF n] by (metis of_int_le_iff of_int_less_iff of_int_numeral of_int_power)+
  have bd: "(2 :: rat) ^ ?j \<le> of_int d" "of_int d < (2 :: rat) ^ Suc ?j"
    using ilog2_bounds[OF d] by (metis of_int_le_iff of_int_less_iff of_int_numeral of_int_power)+
  let ?k = "int ?i - int ?j"
  have pk: "(2 :: rat) powi ?k = 2 ^ ?i / 2 ^ ?j"
    by (simp add: power_int_diff)
  have p1: "(2 :: rat) powi (?k + 1) = 2 * 2 powi ?k" and p2: "(2 :: rat) powi (?k - 1) = 2 powi ?k / 2"
    by (simp_all add: power_int_add power_int_diff)
  have hi: "x < 2 powi (?k + 1)"
  proof -
    have "x \<le> of_int n / 2 ^ ?j" unfolding x using bd(1) n d by (intro divide_left_mono) auto
    also have "\<dots> < 2 ^ Suc ?i / 2 ^ ?j" using bn(2) by (simp add: divide_strict_right_mono)
    finally show ?thesis by (simp add: p1 pk)
  qed
  have lo: "2 powi (?k - 1) \<le> x"
  proof -
    have "2 ^ ?i / 2 ^ Suc ?j \<le> of_int n / (2 :: rat) ^ Suc ?j" using bn(1) by (simp add: divide_right_mono)
    also have "\<dots> \<le> x" unfolding x using bd(2) n d by (intro divide_left_mono) auto
    finally show ?thesis by (simp add: p2 pk)
  qed
  show "2 powi rat_exp x \<le> x" "x < 2 powi (rat_exp x + 1)"
    using hi lo by (auto simp: rat_exp_def q Let_def)
qed

text \<open>Nearest integer, ties to even.\<close>

definition rhe :: "rat \<Rightarrow> int" where
  "rhe x = (let q = \<lfloor>x\<rfloor>; r = x - of_int q
     in if 2 * r < 1 \<or> 2 * r = 1 \<and> even q then q else q + 1)"

lemma rhe_int [simp]: "rhe (of_int n) = n"
  by (simp add: rhe_def)

lemma rhe_mono: assumes "x \<le> y" shows "rhe x \<le> rhe y"
proof (cases "\<lfloor>x\<rfloor> = \<lfloor>y\<rfloor>")
  case True
  with assms show ?thesis by (auto simp: rhe_def Let_def)
next
  case False
  with floor_mono[OF assms] have "\<lfloor>x\<rfloor> + 1 \<le> \<lfloor>y\<rfloor>" by linarith
  moreover have "rhe x \<le> \<lfloor>x\<rfloor> + 1" "\<lfloor>y\<rfloor> \<le> rhe y" by (auto simp: rhe_def Let_def)
  ultimately show ?thesis by linarith
qed

text \<open>The unit in the last place at a positive value, and the rounding of a non-negative value.\<close>

definition fl_ulp :: "rat \<Rightarrow> int" where
  "fl_ulp x = max (- 1074) (rat_exp x - 52)"

definition fl_nn :: "rat \<Rightarrow> rat" where
  "fl_nn x = (if x = 0 then 0 else of_int (rhe (x / 2 powi fl_ulp x)) * 2 powi fl_ulp x)"

definition fl_max :: rat where "fl_max = of_int ((2 ^ 32) ^ 32)"

lemma fl_max_code [code]: "fl_max = of_int
  179769313486231590772930519078902473361797697894230657273430081157732675805500963132708477322407536021120113879871393357658789768814416622492847430639474124377767893424865485276302219601246094119453082952085005768838150682342462881473913110540827237163350510684586298239947245938479716304835356329624224137216"
  by (simp add: fl_max_def)

definition fl :: "rat \<Rightarrow> pfloat" where
  "fl x = (let r = (if x < 0 then - fl_nn (- x) else fl_nn x)
     in if r \<ge> fl_max then PPosInf else if r \<le> - fl_max then PNegInf else PFin r)"

text \<open>A multiple of the unit is a fixed point of rounding at that unit, so rounding stays below it.\<close>

lemma round_at_le:
  assumes "x \<le> of_int m * 2 powi u" shows "of_int (rhe (x / 2 powi u)) * 2 powi u \<le> of_int m * (2 :: rat) powi u"
proof -
  have "x / 2 powi u \<le> of_int m" using assms by (simp add: pos_divide_le_eq)
  then have "rhe (x / 2 powi u) \<le> m" using rhe_mono rhe_int by metis
  then show ?thesis by (simp add: mult_right_mono)
qed

lemma round_at_ge:
  assumes "of_int m * 2 powi u \<le> x" shows "of_int m * (2 :: rat) powi u \<le> of_int (rhe (x / 2 powi u)) * 2 powi u"
proof -
  have "of_int m \<le> x / 2 powi u" using assms by (simp add: pos_le_divide_eq)
  then have "m \<le> rhe (x / 2 powi u)" using rhe_mono rhe_int by metis
  then show ?thesis by (simp add: mult_right_mono)
qed

lemma fl_nn_nonneg: "0 \<le> x \<Longrightarrow> 0 \<le> fl_nn x"
  using round_at_ge[of 0 "fl_ulp x" x] by (simp add: fl_nn_def)

lemma powi_split: "(2 :: rat) powi a = of_int (2 ^ nat (a - b)) * 2 powi b" if "b \<le> a"
proof -
  have "a = int (nat (a - b)) + b" using that by simp
  then have "(2 :: rat) powi a = 2 powi int (nat (a - b)) * 2 powi b"
    by (metis power_int_add zero_neq_numeral)
  moreover have "(2 :: rat) powi int (nat (a - b)) = of_int (2 ^ nat (a - b))"
    by (simp only: power_int_of_nat of_int_power of_int_numeral)
  ultimately show ?thesis by simp
qed

lemma fl_nn_mono:
  assumes "0 \<le> x" and "x \<le> y" shows "fl_nn x \<le> fl_nn y"
proof (cases "x = 0")
  case True
  with assms fl_nn_nonneg[of y] show ?thesis by (simp add: fl_nn_def)
next
  case False
  with assms have pos: "0 < x" "0 < y" by auto
  let ?a = "rat_exp x" and ?b = "rat_exp y"
  have ab: "?a \<le> ?b"
  proof (rule ccontr)
    assume "\<not> ?a \<le> ?b"
    then have "(2 :: rat) powi (?b + 1) \<le> 2 powi ?a" by (intro power_int_increasing) auto
    with rat_exp_bounds[OF pos(1)] rat_exp_bounds[OF pos(2)] assms(2) show False by linarith
  qed
  show ?thesis
  proof (cases "fl_ulp x = fl_ulp y")
    case True
    have "rhe (x / 2 powi fl_ulp y) \<le> rhe (y / 2 powi fl_ulp y)"
      using assms(2) by (intro rhe_mono) (simp add: divide_right_mono)
    with pos True show ?thesis by (simp add: fl_nn_def mult_right_mono)
  next
    case False
    with ab have lt: "?a < ?b" and u: "fl_ulp y = ?b - 52" "- 1074 \<le> ?b - 52"
      by (auto simp: fl_ulp_def max_def split: if_splits)
    have "?a + 1 \<le> ?b" using lt by simp
    then have "x \<le> 2 powi ?b"
      using rat_exp_bounds(2)[OF pos(1)] power_int_increasing[of "?a + 1" ?b "2 :: rat"] by simp
    moreover have ux: "fl_ulp x \<le> ?b" using lt u by (auto simp: fl_ulp_def)
    ultimately have "fl_nn x \<le> 2 powi ?b"
      using round_at_le[of x "2 ^ nat (?b - fl_ulp x)" "fl_ulp x"] pos
      unfolding powi_split[OF ux] by (simp add: fl_nn_def)
    moreover have uy: "fl_ulp y \<le> ?b" using u by simp
    then have "2 powi ?b \<le> fl_nn y"
      using round_at_ge[of "2 ^ nat (?b - fl_ulp y)" "fl_ulp y" y] pos rat_exp_bounds(1)[OF pos(2)]
      unfolding powi_split[OF uy] by (simp add: fl_nn_def)
    ultimately show ?thesis by linarith
  qed
qed

text \<open>Integers up to \<open>2 ^ 53\<close> are exact.\<close>

lemma fl_nn_of_nat:
  assumes "n \<le> 2 ^ 53" shows "fl_nn (of_nat n) = of_nat n"
proof (cases "n = 0")
  case False
  then have pos: "(0 :: rat) < of_nat n" by simp
  show ?thesis
  proof (cases "fl_ulp (of_nat n) \<le> 0")
    case True
    let ?u = "fl_ulp (of_nat n)"
    have "(of_nat n :: rat) = of_int (int n * 2 ^ nat (- ?u)) * 2 powi ?u"
      using powi_split[OF True] by (simp add: mult.assoc)
    then have "(of_nat n :: rat) / 2 powi ?u = of_int (int n * 2 ^ nat (- ?u))"
      by (metis nonzero_mult_div_cancel_right power_int_not_zero zero_neq_numeral)
    then show ?thesis
      by (metis \<open>of_nat n = of_int (int n * 2 ^ nat (- ?u)) * 2 powi ?u\<close> fl_nn_def rhe_int)
  next
    case False
    then have e: "53 \<le> rat_exp (of_nat n)" by (auto simp: fl_ulp_def)
    then have "(2 :: rat) powi 53 \<le> 2 powi rat_exp (of_nat n)" by (intro power_int_increasing) auto
    also have "\<dots> \<le> of_nat n" by (rule rat_exp_bounds(1)[OF pos])
    finally have "(2 :: rat) ^ 53 \<le> of_nat n" by simp
    then have "2 ^ 53 \<le> n" by (metis of_nat_le_iff of_nat_numeral of_nat_power)
    with assms have n: "n = 2 ^ 53" by simp
    have "rat_exp (2 ^ 53) = 53"
    proof (rule antisym)
      have "(2 :: rat) powi rat_exp (2 ^ 53) \<le> 2 powi 53" using rat_exp_bounds(1)[of "2 ^ 53"] by simp
      then show "rat_exp (2 ^ 53) \<le> 53"
        by (metis one_less_numeral_iff power_int_strict_increasing semiring_norm(76) leD leI)
    qed (use e n in simp)
    then have "fl_ulp (2 ^ 53) = 1" by (simp add: fl_ulp_def)
    moreover have "(2 :: rat) ^ 53 / 2 powi 1 = of_int (2 ^ 52)" by simp
    ultimately show ?thesis using rhe_int[of "2 ^ 52"] by (simp add: n fl_nn_def)
  qed
qed (simp add: fl_nn_def)

lemma fl_fin_bound:
  assumes "0 \<le> x" and "x \<le> of_nat n" and "n \<le> 2 ^ 53"
  shows "\<exists>r. fl x = PFin r \<and> 0 \<le> r \<and> r \<le> of_nat n"
proof -
  have "fl_nn x \<le> of_nat n"
    using fl_nn_mono[OF assms(1,2)] by (simp add: fl_nn_of_nat[OF assms(3)])
  moreover have "(of_nat n :: rat) \<le> 2 ^ 53"
    using assms(3) by (metis of_nat_le_iff of_nat_numeral of_nat_power)
  moreover have "(2 :: rat) ^ 53 < fl_max" by (simp add: fl_max_def)
  moreover have "0 \<le> fl_nn x" by (rule fl_nn_nonneg[OF assms(1)])
  ultimately show ?thesis using assms(1) by (auto simp: fl_def Let_def)
qed

lemma fl_of_nat: "n \<le> 2 ^ 53 \<Longrightarrow> fl (of_nat n) = PFin (of_nat n)"
proof -
  assume n: "n \<le> 2 ^ 53"
  then have "(of_nat n :: rat) \<le> 2 ^ 53" by (metis of_nat_le_iff of_nat_numeral of_nat_power)
  moreover have "(2 :: rat) ^ 53 < fl_max" by (simp add: fl_max_def)
  ultimately show ?thesis using fl_nn_of_nat[OF n] by (auto simp: fl_def Let_def)
qed

lemma fl_nonneg: "0 \<le> x \<Longrightarrow> fl x = PPosInf \<or> (\<exists>r. fl x = PFin r \<and> 0 \<le> r)"
  using fl_nn_nonneg[of x] by (auto simp: fl_def Let_def fl_max_def)

section \<open>Operations\<close>

fun pf_less :: "pfloat \<Rightarrow> pfloat \<Rightarrow> bool" where
  "pf_less PNaN y = False"
| "pf_less x PNaN = False"
| "pf_less (PFin a) (PFin b) = (a < b)"
| "pf_less PNegInf y = (y \<noteq> PNegInf)"
| "pf_less x PPosInf = (x \<noteq> PPosInf)"
| "pf_less x y = False"

definition pf_le :: "pfloat \<Rightarrow> pfloat \<Rightarrow> bool" where
  "pf_le x y \<longleftrightarrow> pf_less x y \<or> x = y \<and> x \<noteq> PNaN"

fun pf_add :: "pfloat \<Rightarrow> pfloat \<Rightarrow> pfloat" where
  "pf_add (PFin a) (PFin b) = fl (a + b)"
| "pf_add PNaN y = PNaN"
| "pf_add x PNaN = PNaN"
| "pf_add PPosInf y = (if y = PNegInf then PNaN else PPosInf)"
| "pf_add PNegInf y = (if y = PPosInf then PNaN else PNegInf)"
| "pf_add (PFin a) y = y"

fun pf_neg :: "pfloat \<Rightarrow> pfloat" where
  "pf_neg (PFin a) = PFin (- a)"
| "pf_neg PPosInf = PNegInf"
| "pf_neg PNegInf = PPosInf"
| "pf_neg PNaN = PNaN"

definition pf_sub :: "pfloat \<Rightarrow> pfloat \<Rightarrow> pfloat" where
  "pf_sub x y = pf_add x (pf_neg y)"

definition pf_sgn :: "pfloat \<Rightarrow> int" where
  "pf_sgn x = (case x of PNaN \<Rightarrow> 0 | PPosInf \<Rightarrow> 1 | PNegInf \<Rightarrow> - 1
               | PFin a \<Rightarrow> if a < 0 then - 1 else if a = 0 then 0 else 1)"

definition pf_inf :: "int \<Rightarrow> pfloat" where
  "pf_inf s = (if s = 0 then PNaN else if 0 < s then PPosInf else PNegInf)"

fun pf_mul :: "pfloat \<Rightarrow> pfloat \<Rightarrow> pfloat" where
  "pf_mul (PFin a) (PFin b) = fl (a * b)"
| "pf_mul PNaN y = PNaN"
| "pf_mul x PNaN = PNaN"
| "pf_mul x y = pf_inf (pf_sgn x * pf_sgn y)"

text \<open>Division; the divisor zero raises.\<close>

definition pf_div :: "pfloat \<Rightarrow> pfloat \<Rightarrow> pfloat py" where
  "pf_div x y =
     (if y = PFin 0 then Inl ZeroDivisionError
      else Inr (case (x, y) of
          (PFin a, PFin b) \<Rightarrow> fl (a / b)
        | (PNaN, _) \<Rightarrow> PNaN
        | (_, PNaN) \<Rightarrow> PNaN
        | (PFin a, _) \<Rightarrow> PFin 0
        | (_, PFin b) \<Rightarrow> pf_inf (pf_sgn x * pf_sgn y)
        | (_, _) \<Rightarrow> PNaN))"

text \<open>\<open>float(n)\<close>, \<open>int(x)\<close>, \<open>round(x, 2)\<close>, \<open>min\<close> and \<open>max\<close> of two values, and comparison with an integer.\<close>

definition pf_of_int :: "int \<Rightarrow> pfloat" where
  "pf_of_int n = fl (of_int n)"

definition pf_int :: "pfloat \<Rightarrow> int py" where
  "pf_int x = (case x of
       PFin a \<Rightarrow> Inr (if 0 \<le> a then \<lfloor>a\<rfloor> else - \<lfloor>- a\<rfloor>)
     | PNaN \<Rightarrow> Inl (ValueError ''cannot convert float NaN to integer'')
     | _ \<Rightarrow> Inl OverflowError)"

definition pf_round2 :: "pfloat \<Rightarrow> pfloat" where
  "pf_round2 x = (case x of
       PFin a \<Rightarrow> fl ((if a < 0 then - of_int (rhe (- a * 100)) else of_int (rhe (a * 100))) / 100)
     | _ \<Rightarrow> x)"

definition pf_min :: "pfloat \<Rightarrow> pfloat \<Rightarrow> pfloat" where
  "pf_min x y = (if pf_less y x then y else x)"

definition pf_max :: "pfloat \<Rightarrow> pfloat \<Rightarrow> pfloat" where
  "pf_max x y = (if pf_less x y then y else x)"

definition pf_ge_int :: "pfloat \<Rightarrow> int \<Rightarrow> bool" where
  "pf_ge_int x n = (case x of PFin a \<Rightarrow> of_int n \<le> a | PPosInf \<Rightarrow> True | _ \<Rightarrow> False)"

definition pf_finite :: "pfloat \<Rightarrow> bool" where
  "pf_finite x \<longleftrightarrow> (case x of PFin _ \<Rightarrow> True | _ \<Rightarrow> False)"

lemma pf_le_fin [simp]: "pf_le (PFin a) (PFin b) \<longleftrightarrow> a \<le> b"
  by (auto simp: pf_le_def)

lemma pf_finite_iff: "pf_finite x \<longleftrightarrow> (\<exists>a. x = PFin a)"
  by (cases x) (simp_all add: pf_finite_def)

lemma pf_not_less_fin [simp]: "\<not> pf_less (PFin a) (PFin b) \<longleftrightarrow> pf_le (PFin b) (PFin a)"
  by (simp add: not_less)

text \<open>The familiar example: one tenth and two tenths do not make three tenths.\<close>

lemma float_examples:
  "pf_add (fl (1 / 10)) (fl (2 / 10)) \<noteq> fl (3 / 10)"
  "pf_add (fl (1 / 10)) (fl (1 / 10)) = fl (2 / 10)"
  "fl (1 / 10) = PFin (3602879701896397 / 36028797018963968)"
  "pf_round2 (fl (2675 / 1000)) = fl (267 / 100)"
  by code_simp+

end
