(* ===== verification/Py_Datetime.thy ===== *)
theory Py_Datetime
  imports Py_Prelude
begin

text \<open>
  \<open>datetime.fromisoformat\<close> of Python 3.12: which texts are accepted, and their values.  Accepted are the
  calendar dates \<open>YYYY-MM-DD\<close> and \<open>YYYYMMDD\<close> and the ISO week dates \<open>YYYY-Www[-D]\<close> and \<open>YYYYWww[D]\<close>,
  alone or followed by any separator character and a time \<open>HH[:MM[:SS[.f+]]]\<close> or \<open>HH[MM[SS[.f+]]]\<close>,
  itself followed by nothing, by \<open>Z\<close> or by a signed offset in the form of a time, below 24 hours.

  The steps are those of the library's own parser: find the separator, parse the date before it,
  parse the time behind it, build the value, which checks the ranges of the fields.
\<close>

definition digits_int :: "string \<Rightarrow> int" where
  "digits_int = foldl (\<lambda>n c. 10 * n + int (digit_val c)) 0"

definition parse_digits :: "nat \<Rightarrow> string \<Rightarrow> (int \<times> string) option" where
  "parse_digits n s =
     (let d = take n s
      in if length d = n \<and> list_all is_digit_char d then Some (digits_int d, drop n s) else None)"

definition leap_year :: "int \<Rightarrow> bool" where
  "leap_year y \<longleftrightarrow> y mod 4 = 0 \<and> (y mod 100 \<noteq> 0 \<or> y mod 400 = 0)"

definition days_in_month :: "int \<Rightarrow> int \<Rightarrow> int" where
  "days_in_month y m =
     (if m = 2 then if leap_year y then 29 else 28
      else if m = 4 \<or> m = 6 \<or> m = 9 \<or> m = 11 then 30 else 31)"

definition valid_date :: "int \<Rightarrow> int \<Rightarrow> int \<Rightarrow> bool" where
  "valid_date y m d \<longleftrightarrow> 1 \<le> y \<and> y \<le> 9999 \<and> 1 \<le> m \<and> m \<le> 12 \<and> 1 \<le> d \<and> d \<le> days_in_month y m"

text \<open>The weekday of the first of January, Monday being 0.\<close>

definition first_weekday :: "int \<Rightarrow> int" where
  "first_weekday y = (let p = y - 1 in (365 * p + p div 4 - p div 100 + p div 400) mod 7)"

text \<open>The weeks of a year are 53 when it starts on a Thursday, or on a Wednesday in a leap year.\<close>

definition valid_week :: "int \<Rightarrow> int \<Rightarrow> int \<Rightarrow> bool" where
  "valid_week y w d \<longleftrightarrow> 1 \<le> y \<and> y \<le> 9999 \<and> 1 \<le> d \<and> d \<le> 7 \<and> 1 \<le> w \<and>
     (w \<le> 52 \<or> w = 53 \<and> (first_weekday y = 3 \<or> first_weekday y = 2 \<and> leap_year y)) \<and>
     \<not> (y = 9999 \<and> 52 \<le> w \<and> 5 < d)"

text \<open>The day a date denotes, the first day of year 1 being 1.\<close>

definition days_before_year :: "int \<Rightarrow> int" where
  "days_before_year y = (let p = y - 1 in 365 * p + p div 4 - p div 100 + p div 400)"

definition days_before_month :: "int \<Rightarrow> int \<Rightarrow> int" where
  "days_before_month y m = sum_list (map (days_in_month y) [1..m - 1])"

definition date_ordinal :: "int \<Rightarrow> int \<Rightarrow> int \<Rightarrow> int" where
  "date_ordinal y m d = days_before_year y + days_before_month y m + d"

definition week_ordinal :: "int \<Rightarrow> int \<Rightarrow> int \<Rightarrow> int" where
  "week_ordinal y w d =
     (let f = first_weekday y; monday = days_before_year y + 1 - f + (if 3 < f then 7 else 0)
      in monday + 7 * (w - 1) + (d - 1))"

definition date_value :: "string \<Rightarrow> int option" where
  "date_value s =
     (case parse_digits 4 s of
        None \<Rightarrow> None
      | Some (y, r) \<Rightarrow>
          (let dash = (take 1 r = ''-''); r = (if dash then drop 1 r else r)
           in if take 1 r = ''W''
              then (case parse_digits 2 (drop 1 r) of
                      None \<Rightarrow> None
                    | Some (w, []) \<Rightarrow> if valid_week y w 1 then Some (week_ordinal y w 1) else None
                    | Some (w, r) \<Rightarrow>
                        if dash \<and> take 1 r \<noteq> ''-'' then None
                        else (case parse_digits 1 (if dash then drop 1 r else r) of
                                Some (d, []) \<Rightarrow> if valid_week y w d then Some (week_ordinal y w d) else None
                              | _ \<Rightarrow> None))
              else (case parse_digits 2 r of
                      None \<Rightarrow> None
                    | Some (m, r) \<Rightarrow>
                        if dash \<and> take 1 r \<noteq> ''-'' then None
                        else (case parse_digits 2 (if dash then drop 1 r else r) of
                                Some (d, []) \<Rightarrow> if valid_date y m d then Some (date_ordinal y m d) else None
                              | _ \<Rightarrow> None))))"

definition date_part :: "string \<Rightarrow> bool" where
  "date_part s \<longleftrightarrow> date_value s \<noteq> None"

text \<open>Hours, minutes and seconds, with the fraction: the fields and what is left of the text.\<close>

definition fraction_part :: "string \<Rightarrow> bool" where
  "fraction_part s \<longleftrightarrow> s = [] \<or> (hd s = CHR ''.'' \<or> hd s = CHR '','') \<and> tl s \<noteq> [] \<and> list_all is_digit_char (tl s)"

definition clock_part :: "string \<Rightarrow> (int \<times> int \<times> int) option" where
  "clock_part s =
     (case parse_digits 2 s of
        None \<Rightarrow> None
      | Some (h, []) \<Rightarrow> Some (h, 0, 0)
      | Some (h, r) \<Rightarrow>
          (let sep = (take 1 r = '':'')
           in case parse_digits 2 (if sep then drop 1 r else r) of
                None \<Rightarrow> None
              | Some (m, []) \<Rightarrow> Some (h, m, 0)
              | Some (m, r) \<Rightarrow>
                  if sep \<and> take 1 r \<noteq> '':'' then None
                  else (case parse_digits 2 (if sep then drop 1 r else r) of
                          None \<Rightarrow> None
                        | Some (s, r) \<Rightarrow> if fraction_part r then Some (h, m, s) else None)))"

definition time_part :: "string \<Rightarrow> bool" where
  "time_part s =
     (let zone_mark = (\<lambda>c. c = CHR ''+'' \<or> c = CHR ''-'' \<or> c = CHR ''Z'');
          clock = takeWhile (\<lambda>c. \<not> zone_mark c) s; zone = dropWhile (\<lambda>c. \<not> zone_mark c) s
      in case clock_part clock of
           None \<Rightarrow> False
         | Some (h, m, sec) \<Rightarrow>
             h \<le> 23 \<and> m \<le> 59 \<and> sec \<le> 59 \<and>
             (zone = [] \<or> zone = ''Z'' \<or>
              hd zone \<noteq> CHR ''Z'' \<and>
              (case clock_part (tl zone) of
                 None \<Rightarrow> False
               | Some (zh, zm, zs) \<Rightarrow> zh * 3600 + zm * 60 + zs < 86400)))"

text \<open>Where the date ends.\<close>

definition separator_at :: "string \<Rightarrow> nat" where
  "separator_at s =
     (if length s = 7 then 7
      else if s ! 4 = CHR ''-'' then
        if s ! 5 = CHR ''W'' then
          if 8 < length s \<and> s ! 8 = CHR ''-''
          then if 10 < length s \<and> is_digit_char (s ! 10) then 8 else 10
          else 8
        else 10
      else if s ! 4 = CHR ''W'' then
        let i = 7 + length (takeWhile is_digit_char (drop 7 s))
        in if i < 9 then i else if i mod 2 = 0 then 7 else 8
      else 8)"

definition py_fromisoformat :: "string \<Rightarrow> bool" where
  "py_fromisoformat s \<longleftrightarrow> 7 \<le> length s \<and>
     (let i = separator_at s
      in date_part (take i s) \<and> (length s \<le> Suc i \<or> time_part (drop (Suc i) s)))"

text \<open>\<open>value.replace("Z", "+00:00")\<close> before parsing, as the contracts do.\<close>

definition iso_text :: "string \<Rightarrow> bool" where
  "iso_text s \<longleftrightarrow> py_fromisoformat (concat (map (\<lambda>c. if c = CHR ''Z'' then ''+00:00'' else [c]) s))"

section \<open>The value of a date-time\<close>

text \<open>
  A value is the number of microseconds since the day before year 1 in local time, with the offset
  from UTC if the text has one.  Digits of a fraction beyond the sixth are dropped.
\<close>

text \<open>The microseconds of a time: its fields, then the fraction behind the last of them.\<close>

definition fraction_value :: "string \<Rightarrow> int" where
  "fraction_value s = digits_int (take 6 (tl s @ ''000000''))"

definition clock_fraction :: "string \<Rightarrow> int" where
  "clock_fraction s =
     (let f = dropWhile (\<lambda>c. c \<noteq> CHR ''.'' \<and> c \<noteq> CHR '','') s in if f = [] then 0 else fraction_value f)"

definition clock_value :: "string \<Rightarrow> int option" where
  "clock_value s =
     map_option (\<lambda>(h, m, sec). 1000000 * (3600 * h + 60 * m + sec) + clock_fraction s) (clock_part s)"

definition zone_mark :: "char \<Rightarrow> bool" where
  "zone_mark c \<longleftrightarrow> c = CHR ''+'' \<or> c = CHR ''-'' \<or> c = CHR ''Z''"

definition time_value :: "string \<Rightarrow> int \<times> int option" where
  "time_value s =
     (let clock = takeWhile (\<lambda>c. \<not> zone_mark c) s; zone = dropWhile (\<lambda>c. \<not> zone_mark c) s
      in (the (clock_value clock),
          if zone = [] then None
          else if zone = ''Z'' then Some 0
          else Some ((if hd zone = CHR ''-'' then - 1 else 1) * the (clock_value (tl zone)))))"

definition datetime_value :: "string \<Rightarrow> (int \<times> int option) option" where
  "datetime_value s =
     (if \<not> py_fromisoformat s then None
      else let i = separator_at s; day = 86400000000 * the (date_value (take i s))
           in if length s \<le> Suc i then Some (day, None)
              else let (t, zone) = time_value (drop (Suc i) s) in Some (day + t, zone))"

text \<open>\<open>datetime.fromisoformat(s.replace("Z", "+00:00"))\<close>.\<close>

definition iso_value :: "string \<Rightarrow> (int \<times> int option) option" where
  "iso_value s = datetime_value (concat (map (\<lambda>c. if c = CHR ''Z'' then ''+00:00'' else [c]) s))"

text \<open>\<open>a >= b\<close>: instants if both have an offset, local times if none has, else an exception.\<close>

definition datetime_ge :: "int \<times> int option \<Rightarrow> int \<times> int option \<Rightarrow> bool py" where
  "datetime_ge a b =
     (case (snd a, snd b) of
        (None, None) \<Rightarrow> Inr (fst b \<le> fst a)
      | (Some u, Some v) \<Rightarrow> Inr (fst b - v \<le> fst a - u)
      | _ \<Rightarrow> Inl (TypeError ''can't compare offset-naive and offset-aware datetimes''))"

lemma iso_value_iff: "iso_value s \<noteq> None \<longleftrightarrow> iso_text s"
  by (auto simp: iso_value_def iso_text_def datetime_value_def Let_def split: prod.splits)

lemma iso_value_examples:
  "iso_value ''1970-01-01T00:00:00Z'' = Some (719163 * 86400000000, Some 0)"
  "iso_value ''2024-W01-2'' = Some (738887 * 86400000000, None)"
  "iso_value ''20240301T123000,5-0130'' = Some (738946 * 86400000000 + 45000500000, Some (- 5400000000))"
  by code_simp+

end
