(* ===== verification/Contract_Base.thy ===== *)
theory Contract_Base
  imports Py_Float Py_Json Py_Datetime
begin

text \<open>
  The validators of \<open>mcoi_runtime/contracts/_base.py\<close> and the identifiers of
  \<open>mcoi_runtime/core/invariants.py\<close>, for arguments of the annotated types.  An error message names
  the field when its label is in the table of known labels; the labels the modelled contracts use
  and the tables lack are listed here, they are reported as \<open>value\<close>.
\<close>

definition UNLISTED_CONTRACT_LABELS :: "string list" where
  "UNLISTED_CONTRACT_LABELS = [''actor_id'', ''closure_id'', ''closed_by'', ''transfer_id'', ''result'']"

definition UNLISTED_INVARIANT_LABELS :: "string list" where
  "UNLISTED_INVARIANT_LABELS = [''prefix'']"

definition field_error :: "string \<Rightarrow> string \<Rightarrow> py_error" where
  "field_error field_name suffix =
     ValueError ((if field_name \<in> set UNLISTED_CONTRACT_LABELS then ''value'' else field_name) @ suffix)"

definition require_non_empty_text :: "string \<Rightarrow> string \<Rightarrow> string py" where
  "require_non_empty_text value field_name =
     (if blank value then Inl (field_error field_name '' must be a non-empty string'') else Inr value)"

definition require_datetime_text :: "string \<Rightarrow> string \<Rightarrow> string py" where
  "require_datetime_text value field_name =
     py_bind (require_non_empty_text value field_name)
       (\<lambda>v. if iso_text v then Inr v
            else Inl (field_error field_name '' must be an ISO 8601 date-time string''))"

definition require_non_empty_tuple :: "'a list \<Rightarrow> string \<Rightarrow> 'a list py" where
  "require_non_empty_tuple values field_name =
     (if values = [] then Inl (field_error field_name '' must contain at least one item'')
      else Inr values)"

definition require_unit_float :: "pfloat \<Rightarrow> string \<Rightarrow> pfloat py" where
  "require_unit_float value field_name =
     (if \<not> pf_finite value then Inl (field_error field_name '' must be finite'')
      else if \<not> (pf_le (PFin 0) value \<and> pf_le value (PFin 1))
      then Inl (field_error field_name '' must be between 0.0 and 1.0'')
      else Inr value)"

definition require_non_negative_float :: "pfloat \<Rightarrow> string \<Rightarrow> pfloat py" where
  "require_non_negative_float value field_name =
     (if \<not> pf_finite value then Inl (field_error field_name '' must be finite'')
      else if pf_less value (PFin 0) then Inl (field_error field_name '' must be non-negative'')
      else Inr value)"

definition require_finite_float :: "pfloat \<Rightarrow> string \<Rightarrow> pfloat py" where
  "require_finite_float value field_name =
     (if \<not> pf_finite value then Inl (field_error field_name '' must be finite'') else Inr value)"

definition require_non_negative_int :: "int \<Rightarrow> string \<Rightarrow> int py" where
  "require_non_negative_int value field_name =
     (if value < 0 then Inl (field_error field_name '' must be non-negative'') else Inr value)"

definition require_positive_int :: "int \<Rightarrow> string \<Rightarrow> int py" where
  "require_positive_int value field_name =
     (if value < 1 then Inl (field_error field_name '' must be >= 1'') else Inr value)"

definition ensure_non_empty_text :: "string \<Rightarrow> string \<Rightarrow> string py" where
  "ensure_non_empty_text field_name value =
     (if blank value
      then Inl (RuntimeCoreInvariantError
        ((if field_name \<in> set UNLISTED_INVARIANT_LABELS then ''value'' else field_name)
         @ '' must be a non-empty string''))
      else Inr value)"

definition stable_identifier :: "string \<Rightarrow> (string \<times> json) list \<Rightarrow> string py" where
  "stable_identifier prefix payload =
     py_bind (ensure_non_empty_text ''prefix'' prefix)
       (\<lambda>_. Inr (prefix @ ''-'' @ take 12 (sha256_hex (dumps_compact (JObj payload)))))"

definition freeze_text_array :: "string list \<Rightarrow> string \<Rightarrow> bool \<Rightarrow> string list py" where
  "freeze_text_array values field_name allow_empty =
     (if values = [] \<and> \<not> allow_empty
      then Inl (ValueError (field_name @ '' must contain at least one item''))
      else if list_ex blank values
      then Inl (ValueError (field_name @ '' must contain only non-empty strings''))
      else Inr values)"

text \<open>Calling a record class with a dictionary: unknown and missing keys are a \<open>TypeError\<close>.\<close>

definition call_keys :: "string list \<Rightarrow> string list \<Rightarrow> (string \<times> 'v) list \<Rightarrow> unit py" where
  "call_keys required optional d =
     (if \<not> list_all (\<lambda>k. k \<in> set required \<or> k \<in> set optional) (map fst d)
      then Inl (TypeError ''got an unexpected keyword argument'')
      else if \<not> list_all (\<lambda>k. dict_get d k \<noteq> None) required
      then Inl (TypeError ''missing required arguments'')
      else Inr ())"

section \<open>Facts\<close>

named_theorems validators \<open>what the validators accept\<close>

lemma non_empty_text_ok [validators]: "require_non_empty_text v f = Inr w \<longleftrightarrow> \<not> blank v \<and> w = v"
  by (auto simp: require_non_empty_text_def)

lemma datetime_text_ok [validators]:
  "require_datetime_text v f = Inr w \<longleftrightarrow> \<not> blank v \<and> iso_text v \<and> w = v"
  by (auto simp: require_datetime_text_def py_bind_Inr_iff non_empty_text_ok)

lemma non_empty_tuple_ok [validators]: "require_non_empty_tuple v f = Inr w \<longleftrightarrow> v \<noteq> [] \<and> w = v"
  by (auto simp: require_non_empty_tuple_def)

lemma non_negative_float_ok [validators]:
  "require_non_negative_float v f = Inr w \<longleftrightarrow> (\<exists>a. v = PFin a \<and> 0 \<le> a) \<and> w = v"
  by (cases v) (auto simp: require_non_negative_float_def pf_finite_def)

lemma unit_float_ok [validators]:
  "require_unit_float v f = Inr w \<longleftrightarrow> (\<exists>a. v = PFin a \<and> 0 \<le> a \<and> a \<le> 1) \<and> w = v"
  by (cases v) (auto simp: require_unit_float_def pf_finite_def)

lemma non_negative_int_ok [validators]: "require_non_negative_int v f = Inr w \<longleftrightarrow> 0 \<le> v \<and> w = v"
  by (auto simp: require_non_negative_int_def)

lemma positive_int_ok [validators]: "require_positive_int v f = Inr w \<longleftrightarrow> 1 \<le> v \<and> w = v"
  by (auto simp: require_positive_int_def)

lemma freeze_text_array_ok [validators]:
  "freeze_text_array vs f e = Inr ws \<longleftrightarrow> (vs = [] \<longrightarrow> e) \<and> \<not> list_ex blank vs \<and> ws = vs"
  by (auto simp: freeze_text_array_def)

text \<open>Two sorted lists with the same distinct keys and the same lookups are equal.\<close>

lemma sort_key_fst_perm:
  fixes xs ys :: "(string \<times> 'a) list"
  assumes "distinct (map fst xs)" and "distinct (map fst ys)" and "set xs = set ys"
  shows "sort_key fst xs = sort_key fst ys"
proof (rule map_sorted_distinct_set_unique[of fst])
  show "inj_on fst (set (sort_key fst xs) \<union> set (sort_key fst ys))"
    using assms by (simp add: distinct_map)
qed (use assms in \<open>simp_all add: distinct_map distinct_sort\<close>)

text \<open>
  A stable identifier does not depend on the order in which the keys of its payload were
  inserted.
\<close>

theorem stable_identifier_order:
  assumes "wf_dict p" and "wf_dict q" and "set p = set q"
  shows "stable_identifier prefix p = stable_identifier prefix q"
proof -
  let ?g = "map_prod id (json_dumps '','' '':'') :: string \<times> json \<Rightarrow> string \<times> string"
  have "fst \<circ> ?g = fst" by auto
  then have "distinct (map fst (map ?g p))" "distinct (map fst (map ?g q))"
    using assms by (simp_all add: wf_dict_def)
  then have "sort_key fst (map ?g p) = sort_key fst (map ?g q)"
    by (rule sort_key_fst_perm) (simp add: assms(3))
  then show ?thesis by (simp add: stable_identifier_def)
qed

theorem stable_identifier_order_witness:
  "stable_identifier ''evt'' [(''b'', JInt 2), (''a'', JInt 1)] =
   stable_identifier ''evt'' [(''a'', JInt 1), (''b'', JInt 2)]"
  by (rule stable_identifier_order) (auto simp: wf_dict_def)

text \<open>
  The identifiers of two payloads differ unless the payloads are the same up to the order of
  keys or their texts are a collision of the truncated SHA-256: different canonical payloads are
  hashed from different texts.
\<close>

theorem stable_identifier_binds:
  assumes "json_canon (JObj p) \<noteq> json_canon (JObj q)" and "\<not> blank prefix"
  shows "dumps_compact (JObj p) \<noteq> dumps_compact (JObj q) \<and>
    (stable_identifier prefix p = stable_identifier prefix q \<longleftrightarrow>
     take 12 (sha256_hex (dumps_compact (JObj p))) = take 12 (sha256_hex (dumps_compact (JObj q))))"
proof -
  have "dumps_compact (JObj p) \<noteq> dumps_compact (JObj q)"
    using assms(1) dumps_compact_inj by blast
  with assms(2) show ?thesis
    by (simp add: stable_identifier_def ensure_non_empty_text_def del: json_dumps.simps)
qed

theorem stable_identifier_binds_witness:
  "dumps_compact (JObj [(''a'', JInt 1)]) \<noteq> dumps_compact (JObj [(''a'', JStr ''1'')])"
proof -
  have "json_canon (JObj [(''a'', JInt 1)]) \<noteq> json_canon (JObj [(''a'', JStr ''1'')])" by simp
  moreover have "\<not> blank ''evt''" by code_simp
  ultimately show ?thesis using stable_identifier_binds by blast
qed

end
