(* ===== verification/Tenant_Budget.thy ===== *)
theory Tenant_Budget
  imports Contract_Base
begin

text \<open>
  \<open>mcoi_runtime/governance/guards/budget.py\<close>, the budget record of \<open>mcoi_runtime/contracts/llm.py\<close>
  and the in-memory budget store of \<open>mcoi_runtime/persistence/postgres_governance_stores.py\<close>.  Costs
  are floats.  A store's class is a record of functions, with \<open>bo_try = None\<close> for a class that does
  not override \<open>try_record_spend\<close>.  \<open>total_spent\<close> (a sum of floats, whose rounding depends on the
  version of Python) is not modelled.
\<close>

record llm_budget =
  lb_budget_id :: string
  lb_tenant_id :: string
  lb_max_cost :: pfloat
  lb_spent :: pfloat
  lb_max_tokens :: int
  lb_max_calls :: int
  lb_calls_made :: int

definition mk_llm_budget ::
  "string \<Rightarrow> string \<Rightarrow> pfloat \<Rightarrow> pfloat \<Rightarrow> int \<Rightarrow> int \<Rightarrow> int \<Rightarrow> llm_budget py" where
  "mk_llm_budget budget_id tenant_id max_cost spent max_tokens_per_call max_calls calls_made =
     py_bind (require_non_empty_text budget_id ''budget_id'') (\<lambda>budget_id.
     py_bind (require_non_empty_text tenant_id ''tenant_id'') (\<lambda>tenant_id.
     py_bind (require_non_negative_float max_cost ''max_cost'') (\<lambda>_.
     py_bind (require_non_negative_float spent ''spent'') (\<lambda>_.
       if max_tokens_per_call < 1
       then Inl (ValueError ''max_tokens_per_call must be a positive integer'')
       else if max_calls < 1 then Inl (ValueError ''max_calls must be a positive integer'')
       else if calls_made < 0 then Inl (ValueError ''calls_made must be a non-negative integer'')
       else Inr \<lparr>lb_budget_id = budget_id, lb_tenant_id = tenant_id, lb_max_cost = max_cost,
                 lb_spent = spent, lb_max_tokens = max_tokens_per_call, lb_max_calls = max_calls,
                 lb_calls_made = calls_made\<rparr>))))"

definition lb_remaining :: "llm_budget \<Rightarrow> pfloat" where
  "lb_remaining b = pf_max (PFin 0) (pf_sub (lb_max_cost b) (lb_spent b))"

definition lb_exhausted :: "llm_budget \<Rightarrow> bool" where
  "lb_exhausted b \<longleftrightarrow> pf_le (lb_max_cost b) (lb_spent b) \<or> lb_max_calls b \<le> lb_calls_made b"

text \<open>The record with one more call and a new total, as the spending operations build it.\<close>

definition lb_charge :: "llm_budget \<Rightarrow> pfloat \<Rightarrow> llm_budget py" where
  "lb_charge b new_spent = mk_llm_budget (lb_budget_id b) (lb_tenant_id b) (lb_max_cost b) new_spent
     (lb_max_tokens b) (lb_max_calls b) (lb_calls_made b + 1)"

section \<open>Stores\<close>

record 's budget_ops =
  bo_load :: "'s \<Rightarrow> string \<Rightarrow> llm_budget option"
  bo_save :: "'s \<Rightarrow> llm_budget \<Rightarrow> 's"
  bo_try :: "('s \<Rightarrow> string \<Rightarrow> pfloat \<Rightarrow> int \<Rightarrow> llm_budget option py \<times> 's) option"

definition base_budget_ops :: "unit budget_ops" where
  "base_budget_ops = \<lparr>bo_load = (\<lambda>_ _. None), bo_save = (\<lambda>s _. s), bo_try = None\<rparr>"

type_synonym mem_budgets = "(string, llm_budget) pydict"

definition memb_load :: "mem_budgets \<Rightarrow> string \<Rightarrow> llm_budget option" where
  "memb_load st tenant_id = dict_get st tenant_id"

definition memb_save :: "mem_budgets \<Rightarrow> llm_budget \<Rightarrow> mem_budgets" where
  "memb_save st budget = dict_set (lb_tenant_id budget) budget st"

definition memb_load_all :: "mem_budgets \<Rightarrow> llm_budget list" where
  "memb_load_all st = sort_key lb_tenant_id (dict_values st)"

definition memb_try_record_spend ::
  "mem_budgets \<Rightarrow> string \<Rightarrow> pfloat \<Rightarrow> int \<Rightarrow> llm_budget option py \<times> mem_budgets" where
  "memb_try_record_spend st tenant_id cost tokens =
     (case dict_get st tenant_id of
        None \<Rightarrow> (Inr None, st)
      | Some current \<Rightarrow>
          (let new_spent = pf_add (lb_spent current) cost
           in if pf_less (lb_max_cost current) new_spent then (Inr None, st)
              else case lb_charge current new_spent of
                     Inl e \<Rightarrow> (Inl e, st)
                   | Inr updated \<Rightarrow> (Inr (Some updated), dict_set tenant_id updated st)))"

definition mem_budget_ops :: "mem_budgets budget_ops" where
  "mem_budget_ops = \<lparr>bo_load = memb_load, bo_save = memb_save, bo_try = Some memb_try_record_spend\<rparr>"

section \<open>The manager\<close>

record budget_policy =
  bp_tenant_id :: string
  bp_max_cost :: pfloat
  bp_max_calls :: int
  bp_max_tokens :: int
  bp_auto_create :: bool
  bp_enabled :: bool

record budget_mgr =
  bm_policies :: "(string, budget_policy) pydict"
  bm_budgets :: "(string, llm_budget) pydict"
  bm_default :: budget_policy

definition set_policy :: "budget_mgr \<Rightarrow> budget_policy \<Rightarrow> budget_mgr" where
  "set_policy m policy = m\<lparr>bm_policies := dict_set (bp_tenant_id policy) policy (bm_policies m)\<rparr>"

definition get_policy :: "budget_mgr \<Rightarrow> string \<Rightarrow> budget_policy" where
  "get_policy m tenant_id =
     (case dict_get (bm_policies m) tenant_id of
        Some p \<Rightarrow> p | None \<Rightarrow> (bm_default m)\<lparr>bp_tenant_id := tenant_id\<rparr>)"

definition save_budget :: "'s budget_ops option \<Rightarrow> 's \<Rightarrow> llm_budget \<Rightarrow> 's" where
  "save_budget store st b = (case store of None \<Rightarrow> st | Some ops \<Rightarrow> bo_save ops st b)"

definition cache_budget :: "budget_mgr \<Rightarrow> string \<Rightarrow> llm_budget \<Rightarrow> budget_mgr" where
  "cache_budget m tenant_id b = m\<lparr>bm_budgets := dict_set tenant_id b (bm_budgets m)\<rparr>"

definition create_budget ::
  "'s budget_ops option \<Rightarrow> 's \<Rightarrow> budget_mgr \<Rightarrow> string \<Rightarrow> llm_budget py \<times> budget_mgr \<times> 's" where
  "create_budget store st m tenant_id =
     (let policy = get_policy m tenant_id
      in if \<not> bp_auto_create policy
         then (Inl (ValueError ''no budget available and auto_create is disabled''), m, st)
         else case mk_llm_budget (''tenant-'' @ tenant_id) tenant_id (bp_max_cost policy) (PFin 0)
                     (bp_max_tokens policy) (bp_max_calls policy) 0 of
                Inl e \<Rightarrow> (Inl e, m, st)
              | Inr budget \<Rightarrow>
                  (Inr budget, cache_budget m tenant_id budget, save_budget store st budget))"

definition ensure_budget ::
  "'s budget_ops option \<Rightarrow> 's \<Rightarrow> budget_mgr \<Rightarrow> string \<Rightarrow> llm_budget py \<times> budget_mgr \<times> 's" where
  "ensure_budget store st m tenant_id =
     (case dict_get (bm_budgets m) tenant_id of
        Some b \<Rightarrow> (Inr b, m, st)
      | None \<Rightarrow>
          (case store of
             None \<Rightarrow> create_budget store st m tenant_id
           | Some ops \<Rightarrow>
               (case bo_load ops st tenant_id of
                  Some stored \<Rightarrow> (Inr stored, cache_budget m tenant_id stored, st)
                | None \<Rightarrow> create_budget store st m tenant_id)))"

definition get_budget :: "budget_mgr \<Rightarrow> string \<Rightarrow> llm_budget option" where
  "get_budget m tenant_id = dict_get (bm_budgets m) tenant_id"

text \<open>The read-modify-write path, on the manager's own copy of the budget.\<close>

definition legacy_spend ::
  "'s budget_ops option \<Rightarrow> 's \<Rightarrow> budget_mgr \<Rightarrow> string \<Rightarrow> pfloat \<Rightarrow> llm_budget py \<times> budget_mgr \<times> 's" where
  "legacy_spend store st m tenant_id cost =
     (case dict_get (bm_budgets m) tenant_id of
        None \<Rightarrow> (Inl (KeyError tenant_id), m, st)
      | Some budget \<Rightarrow>
          if lb_exhausted budget \<or> pf_less (lb_max_cost budget) (pf_add (lb_spent budget) cost)
          then (Inl (ValueError ''budget exhausted''), m, st)
          else case lb_charge budget (pf_add (lb_spent budget) cost) of
                 Inl e \<Rightarrow> (Inl e, m, st)
               | Inr updated \<Rightarrow>
                   (Inr updated, cache_budget m tenant_id updated, save_budget store st updated))"

definition budget_record_spend ::
  "'s budget_ops option \<Rightarrow> 's \<Rightarrow> budget_mgr \<Rightarrow> string \<Rightarrow> pfloat \<Rightarrow> int
    \<Rightarrow> llm_budget py \<times> budget_mgr \<times> 's" where
  "budget_record_spend store st m tenant_id cost tokens =
     (if pf_less cost (PFin 0) then (Inl (ValueError ''cost must be non-negative''), m, st)
      else case ensure_budget store st m tenant_id of
             (Inl e, m, st) \<Rightarrow> (Inl e, m, st)
           | (Inr _, m, st) \<Rightarrow>
               (case store of
                  None \<Rightarrow> legacy_spend store st m tenant_id cost
                | Some ops \<Rightarrow>
                    (case bo_try ops of
                       None \<Rightarrow> legacy_spend store st m tenant_id cost
                     | Some try_record_spend \<Rightarrow>
                         (case try_record_spend st tenant_id cost tokens of
                            (Inl e, st) \<Rightarrow> (Inl e, m, st)
                          | (Inr (Some updated), st) \<Rightarrow>
                              (Inr updated, cache_budget m tenant_id updated, st)
                          | (Inr None, st) \<Rightarrow> (Inl (ValueError ''budget exhausted''), m, st)))))"

record budget_report =
  br_tenant_id :: string
  br_budget_id :: string
  br_max_cost :: pfloat
  br_spent :: pfloat
  br_remaining :: pfloat
  br_calls_made :: int
  br_max_calls :: int
  br_exhausted :: bool
  br_enabled :: bool
  br_utilization_pct :: pfloat

definition utilization :: "llm_budget \<Rightarrow> pfloat" where
  "utilization b =
     (if pf_less (PFin 0) (lb_max_cost b)
      then case pf_div (lb_spent b) (lb_max_cost b) of Inr q \<Rightarrow> pf_mul q (pf_of_int 100) | Inl _ \<Rightarrow> PNaN
      else PFin 0)"

definition budget_report :: "budget_mgr \<Rightarrow> string \<Rightarrow> budget_report" where
  "budget_report m tenant_id =
     (let policy = get_policy m tenant_id
      in case dict_get (bm_budgets m) tenant_id of
           None \<Rightarrow> \<lparr>br_tenant_id = tenant_id, br_budget_id = ''tenant-'' @ tenant_id,
              br_max_cost = bp_max_cost policy, br_spent = PFin 0, br_remaining = bp_max_cost policy,
              br_calls_made = 0, br_max_calls = bp_max_calls policy, br_exhausted = False,
              br_enabled = bp_enabled policy, br_utilization_pct = PFin 0\<rparr>
         | Some b \<Rightarrow> \<lparr>br_tenant_id = tenant_id, br_budget_id = lb_budget_id b,
              br_max_cost = lb_max_cost b, br_spent = lb_spent b, br_remaining = lb_remaining b,
              br_calls_made = lb_calls_made b, br_max_calls = lb_max_calls b,
              br_exhausted = lb_exhausted b, br_enabled = bp_enabled policy,
              br_utilization_pct = pf_round2 (utilization b)\<rparr>)"

definition all_reports :: "budget_mgr \<Rightarrow> budget_report list" where
  "all_reports m = map (budget_report m) (sort (dict_keys (bm_budgets m)))"

definition reset_budget ::
  "'s budget_ops option \<Rightarrow> 's \<Rightarrow> budget_mgr \<Rightarrow> string \<Rightarrow> llm_budget py \<times> budget_mgr \<times> 's" where
  "reset_budget store st m tenant_id =
     (case dict_get (bm_budgets m) tenant_id of
        None \<Rightarrow> ensure_budget store st m tenant_id
      | Some b \<Rightarrow>
          (case mk_llm_budget (lb_budget_id b) (lb_tenant_id b) (lb_max_cost b) (PFin 0)
                  (lb_max_tokens b) (lb_max_calls b) 0 of
             Inl e \<Rightarrow> (Inl e, m, st)
           | Inr budget \<Rightarrow> (Inr budget, cache_budget m tenant_id budget, save_budget store st budget)))"

definition disable_tenant :: "budget_mgr \<Rightarrow> string \<Rightarrow> budget_mgr" where
  "disable_tenant m tenant_id = set_policy m
     ((get_policy m tenant_id)\<lparr>bp_tenant_id := tenant_id, bp_enabled := False\<rparr>)"

definition is_enabled :: "budget_mgr \<Rightarrow> string \<Rightarrow> bool" where
  "is_enabled m tenant_id = bp_enabled (get_policy m tenant_id)"

section \<open>Valid budgets\<close>

text \<open>A budget as the constructor accepts it, within its cost limit, stored under its tenant.\<close>

definition lb_ok :: "string \<Rightarrow> llm_budget \<Rightarrow> bool" where
  "lb_ok t b \<longleftrightarrow> lb_tenant_id b = t \<and> (\<exists>s c. lb_spent b = PFin s \<and> lb_max_cost b = PFin c \<and> 0 \<le> s \<and> s \<le> c)"

lemma mk_llm_budget_Inr:
  "mk_llm_budget bid t c s mt mc n = Inr b \<Longrightarrow>
     b = \<lparr>lb_budget_id = bid, lb_tenant_id = t, lb_max_cost = c, lb_spent = s, lb_max_tokens = mt,
          lb_max_calls = mc, lb_calls_made = n\<rparr> \<and>
     (\<exists>x. c = PFin x \<and> 0 \<le> x) \<and> (\<exists>x. s = PFin x \<and> 0 \<le> x)"
  by (auto simp: mk_llm_budget_def py_bind_Inr_iff validators split: if_splits)

lemma lb_charge_Inr:
  assumes "lb_charge b s = Inr b'"
  shows "b' = b\<lparr>lb_spent := s, lb_calls_made := lb_calls_made b + 1\<rparr>"
  using mk_llm_budget_Inr[OF assms[unfolded lb_charge_def]] by simp

lemma lb_charge_ok:
  assumes "lb_charge b s = Inr b'" and "lb_ok t b" and "\<not> pf_less (lb_max_cost b) s"
  shows "lb_ok t b'"
  using mk_llm_budget_Inr[OF assms(1)[unfolded lb_charge_def]] assms(2,3)
  by (auto simp: lb_ok_def)

lemma new_budget_ok: "mk_llm_budget bid t c (PFin 0) mt mc n = Inr b \<Longrightarrow> lb_ok t b"
  by (drule mk_llm_budget_Inr) (auto simp: lb_ok_def)


section \<open>Managers over a store\<close>

definition store_load :: "'s budget_ops option \<Rightarrow> 's \<Rightarrow> string \<Rightarrow> llm_budget option" where
  "store_load store st t = (case store of None \<Rightarrow> None | Some ops \<Rightarrow> bo_load ops st t)"

definition budgets_valid :: "'s budget_ops option \<Rightarrow> 's \<Rightarrow> budget_mgr \<Rightarrow> bool" where
  "budgets_valid store st m \<longleftrightarrow> (\<forall>t b. dict_get (bm_budgets m) t = Some b \<longrightarrow> lb_ok t b) \<and>
     (\<forall>t b. store_load store st t = Some b \<longrightarrow> lb_ok t b)"

text \<open>
  What a manager relies on: a save changes nothing but its own tenant's row, and an atomic spend
  either charges the row of its tenant within the limit or changes nothing.
\<close>

locale budget_backend =
  fixes store :: "'s budget_ops option"
  assumes load_saved: "store_load store (save_budget store st b) t = Some b' \<Longrightarrow>
      t = lb_tenant_id b \<and> b' = b \<or> store_load store st t = Some b'"
    and load_other: "t \<noteq> lb_tenant_id b \<Longrightarrow> store_load store (save_budget store st b) t = store_load store st t"
    and try_charges: "store = Some ops \<Longrightarrow> bo_try ops = Some f \<Longrightarrow> f st t cost tokens = (r, st') \<Longrightarrow>
      (\<exists>cur b. r = Inr (Some b) \<and> store_load store st t = Some cur \<and>
         \<not> pf_less (lb_max_cost cur) (pf_add (lb_spent cur) cost) \<and>
         lb_charge cur (pf_add (lb_spent cur) cost) = Inr b \<and>
         (\<forall>x. store_load store st' x = (if x = t then Some b else store_load store st x)))
      \<or> (\<forall>b. r \<noteq> Inr (Some b)) \<and> st' = st"
begin

lemma valid_cache:
  "budgets_valid store st m \<Longrightarrow> lb_ok t b \<Longrightarrow> budgets_valid store st (cache_budget m t b)"
  by (simp add: budgets_valid_def cache_budget_def)

lemma valid_save:
  "budgets_valid store st m \<Longrightarrow> lb_ok t b \<Longrightarrow> budgets_valid store (save_budget store st b) m"
  by (auto simp: budgets_valid_def lb_ok_def dest: load_saved)

lemma create_valid:
  assumes "budgets_valid store st m" and "create_budget store st m t = (r, m', st')"
  shows "budgets_valid store st' m' \<and>
    (\<forall>x. x \<noteq> t \<longrightarrow> store_load store st' x = store_load store st x \<and>
       dict_get (bm_budgets m') x = dict_get (bm_budgets m) x)"
proof (cases r)
  case (Inl e)
  with assms show ?thesis by (auto simp: create_budget_def Let_def split: if_splits sum.splits)
next
  case (Inr b)
  then have b: "m' = cache_budget m t b" "st' = save_budget store st b" "lb_ok t b"
    using assms(2) new_budget_ok
    by (auto simp: create_budget_def Let_def split: if_splits sum.splits)
  then have "lb_tenant_id b = t" by (simp add: lb_ok_def)
  then have "x \<noteq> t \<Longrightarrow> store_load store st' x = store_load store st x" for x
    by (simp add: b load_other)
  moreover have "budgets_valid store st' m'"
    unfolding b by (rule valid_save[OF valid_cache[OF assms(1) b(3)] b(3)])
  ultimately show ?thesis by (simp add: b cache_budget_def)
qed

lemma ensure_valid:
  assumes "budgets_valid store st m" and "ensure_budget store st m t = (r, m', st')"
  shows "budgets_valid store st' m' \<and>
    (\<forall>x. x \<noteq> t \<longrightarrow> store_load store st' x = store_load store st x \<and>
       dict_get (bm_budgets m') x = dict_get (bm_budgets m) x)"
proof (cases "dict_get (bm_budgets m) t")
  case (Some b)
  with assms show ?thesis by (simp add: ensure_budget_def)
next
  case None
  show ?thesis
  proof (cases "store_load store st t")
    case (Some b)
    then have "m' = cache_budget m t b \<and> st' = st" and "lb_ok t b"
      using assms None by (auto simp: ensure_budget_def store_load_def budgets_valid_def split: option.splits)
    with assms(1) show ?thesis by (auto simp: valid_cache) (simp add: cache_budget_def)
  next
    case n: None
    then have "create_budget store st m t = (r, m', st')"
      using assms(2) None by (auto simp: ensure_budget_def store_load_def split: option.splits)
    from create_valid[OF assms(1) this] show ?thesis .
  qed
qed

lemma legacy_valid:
  assumes "budgets_valid store st m" and "legacy_spend store st m t cost = (r, m', st')"
  shows "budgets_valid store st' m' \<and>
    (\<forall>x. x \<noteq> t \<longrightarrow> store_load store st' x = store_load store st x \<and>
       dict_get (bm_budgets m') x = dict_get (bm_budgets m) x)"
proof (cases r)
  case (Inl e)
  with assms show ?thesis
    by (auto simp: legacy_spend_def split: option.splits if_splits sum.splits)
next
  case (Inr b)
  then obtain cur where cur: "dict_get (bm_budgets m) t = Some cur"
    and lim: "\<not> pf_less (lb_max_cost cur) (pf_add (lb_spent cur) cost)"
    and ch: "lb_charge cur (pf_add (lb_spent cur) cost) = Inr b"
    and st': "m' = cache_budget m t b" "st' = save_budget store st b"
    using assms(2) by (auto simp: legacy_spend_def split: option.splits if_splits sum.splits)
  have "lb_ok t cur" using assms(1) cur by (simp add: budgets_valid_def)
  from lb_charge_ok[OF ch this lim] have ok: "lb_ok t b" .
  then have "lb_tenant_id b = t" by (simp add: lb_ok_def)
  then have "x \<noteq> t \<Longrightarrow> store_load store st' x = store_load store st x" for x
    by (simp add: st' load_other)
  moreover have "budgets_valid store st' m'"
    unfolding st' by (rule valid_save[OF valid_cache[OF assms(1) ok] ok])
  ultimately show ?thesis by (simp add: st' cache_budget_def)
qed

lemma spend_valid:
  assumes "budgets_valid store st m" and "budget_record_spend store st m t cost tokens = (r, m', st')"
  shows "budgets_valid store st' m' \<and>
    (\<forall>x. x \<noteq> t \<longrightarrow> store_load store st' x = store_load store st x \<and>
       dict_get (bm_budgets m') x = dict_get (bm_budgets m) x)"
proof -
  obtain r1 m1 st1 where en: "ensure_budget store st m t = (r1, m1, st1)" by (metis prod_cases3)
  note v1 = ensure_valid[OF assms(1) en]
  consider (stop) "m' = m \<and> st' = st \<or> m' = m1 \<and> st' = st1"
    | (legacy) "legacy_spend store st1 m1 t cost = (r, m', st')"
    | (atomic) ops f r2 where "store = Some ops" "bo_try ops = Some f" "f st1 t cost tokens = (r2, st')"
        "m' = (case r2 of Inr (Some b) \<Rightarrow> cache_budget m1 t b | _ \<Rightarrow> m1)"
  proof (cases "pf_less cost (PFin 0) \<or> (\<exists>e. r1 = Inl e)")
    case True
    with assms(2) en have "m' = m \<and> st' = st \<or> m' = m1 \<and> st' = st1"
      by (auto simp: budget_record_spend_def split: if_splits)
    then show thesis by (rule stop)
  next
    case False
    then obtain b1 where r1: "r1 = Inr b1" and nn: "\<not> pf_less cost (PFin 0)" by (cases r1) auto
    show thesis
    proof (cases "\<exists>ops f. store = Some ops \<and> bo_try ops = Some f")
      case False
      then have "legacy_spend store st1 m1 t cost = (r, m', st')"
        using assms(2) en r1 nn by (simp add: budget_record_spend_def split: option.splits)
      then show thesis by (rule legacy)
    next
      case True
      then obtain ops f where f: "store = Some ops" "bo_try ops = Some f" by blast
      obtain r2 st2 where r2: "f st1 t cost tokens = (r2, st2)" by fastforce
      have "st2 = st' \<and> m' = (case r2 of Inr (Some b) \<Rightarrow> cache_budget m1 t b | _ \<Rightarrow> m1)"
        using assms(2) en r1 nn f r2
        by (simp add: budget_record_spend_def split: sum.splits option.splits)
      with atomic[OF f] r2 show thesis by simp
    qed
  qed
  then show ?thesis
  proof cases
    case stop
    with assms(1) v1 show ?thesis by auto
  next
    case legacy
    from legacy_valid[OF _ this] v1 show ?thesis by auto
  next
    case atomic
    from try_charges[OF atomic(1-3)] show ?thesis
    proof (elim disjE exE conjE)
      fix cur b
      assume b: "r2 = Inr (Some b)" and cur: "store_load store st1 t = Some cur"
        and lim: "\<not> pf_less (lb_max_cost cur) (pf_add (lb_spent cur) cost)"
        and ch: "lb_charge cur (pf_add (lb_spent cur) cost) = Inr b"
        and st': "\<forall>x. store_load store st' x = (if x = t then Some b else store_load store st1 x)"
      have "lb_ok t cur" using v1 cur by (simp add: budgets_valid_def)
      from lb_charge_ok[OF ch this lim] have ok: "lb_ok t b" .
      with v1 st' have "budgets_valid store st' m1" by (auto simp: budgets_valid_def)
      from valid_cache[OF this ok] v1 st' show ?thesis
        by (simp add: atomic(4) b cache_budget_def)
    next
      assume "\<forall>b. r2 \<noteq> Inr (Some b)" and "st' = st1"
      moreover from this(1) have "m' = m1" by (auto simp: atomic(4) split: sum.splits option.splits)
      ultimately show ?thesis using v1 by simp
    qed
  qed
qed

lemma reset_valid:
  assumes "budgets_valid store st m" and "reset_budget store st m t = (r, m', st')"
  shows "budgets_valid store st' m'"
proof (cases "dict_get (bm_budgets m) t")
  case None
  with assms ensure_valid show ?thesis by (auto simp: reset_budget_def)
next
  case (Some b)
  with assms(1) have t: "lb_tenant_id b = t" by (auto simp: budgets_valid_def lb_ok_def)
  show ?thesis
  proof (cases r)
    case (Inl e)
    with assms Some show ?thesis by (auto simp: reset_budget_def split: sum.splits)
  next
    case (Inr b')
    then have b': "m' = cache_budget m t b'" "st' = save_budget store st b'" "lb_ok t b'"
      using assms(2) Some t new_budget_ok by (auto simp: reset_budget_def split: sum.splits)
    show ?thesis unfolding b' by (rule valid_save[OF valid_cache[OF assms(1) b'(3)] b'(3)])
  qed
qed

end

interpretation no_store: budget_backend "None :: unit budget_ops option"
  by unfold_locales (simp_all add: store_load_def save_budget_def)

interpretation base_store: budget_backend "Some base_budget_ops"
  by unfold_locales (auto simp: store_load_def save_budget_def base_budget_ops_def)

interpretation mem_store: budget_backend "Some mem_budget_ops"
proof
  fix st b t b'
  show "store_load (Some mem_budget_ops) (save_budget (Some mem_budget_ops) st b) t = Some b' \<Longrightarrow>
      t = lb_tenant_id b \<and> b' = b \<or> store_load (Some mem_budget_ops) st t = Some b'"
    by (auto simp: store_load_def save_budget_def mem_budget_ops_def memb_load_def memb_save_def
        split: if_splits)
  show "t \<noteq> lb_tenant_id b \<Longrightarrow> store_load (Some mem_budget_ops) (save_budget (Some mem_budget_ops) st b) t =
      store_load (Some mem_budget_ops) st t"
    by (simp add: store_load_def save_budget_def mem_budget_ops_def memb_load_def memb_save_def)
next
  fix ops f st t cost tokens r st'
  assume "Some mem_budget_ops = Some ops" "bo_try ops = Some f" "f st t cost tokens = (r, st')"
  then have "memb_try_record_spend st t cost tokens = (r, st')" by (auto simp: mem_budget_ops_def)
  then show "(\<exists>cur b. r = Inr (Some b) \<and> store_load (Some mem_budget_ops) st t = Some cur \<and>
         \<not> pf_less (lb_max_cost cur) (pf_add (lb_spent cur) cost) \<and>
         lb_charge cur (pf_add (lb_spent cur) cost) = Inr b \<and>
         (\<forall>x. store_load (Some mem_budget_ops) st' x =
            (if x = t then Some b else store_load (Some mem_budget_ops) st x)))
      \<or> (\<forall>b. r \<noteq> Inr (Some b)) \<and> st' = st"
    by (auto simp: memb_try_record_spend_def Let_def store_load_def mem_budget_ops_def memb_load_def
        split: option.splits if_splits sum.splits)
qed

text \<open>Replicas of the manager over one shared store.\<close>

record budget_deployment =
  bd_replica :: "nat \<Rightarrow> budget_mgr"
  bd_store :: mem_budgets

definition bd_set :: "budget_deployment \<Rightarrow> nat \<Rightarrow> budget_mgr \<Rightarrow> mem_budgets \<Rightarrow> budget_deployment" where
  "bd_set d i m st = \<lparr>bd_replica = (bd_replica d)(i := m), bd_store = st\<rparr>"

inductive budget_step :: "budget_deployment \<Rightarrow> budget_deployment \<Rightarrow> bool" where
  bs_spend: "budget_record_spend (Some mem_budget_ops) (bd_store d) (bd_replica d i) t cost tokens = (r, m, st)
    \<Longrightarrow> budget_step d (bd_set d i m st)"
| bs_ensure: "ensure_budget (Some mem_budget_ops) (bd_store d) (bd_replica d i) t = (r, m, st)
    \<Longrightarrow> budget_step d (bd_set d i m st)"
| bs_reset: "reset_budget (Some mem_budget_ops) (bd_store d) (bd_replica d i) t = (r, m, st)
    \<Longrightarrow> budget_step d (bd_set d i m st)"
| bs_policy: "budget_step d (bd_set d i (set_policy (bd_replica d i) p) (bd_store d))"
| bs_disable: "budget_step d (bd_set d i (disable_tenant (bd_replica d i) t) (bd_store d))"

inductive_cases budget_stepE: "budget_step d d'"

definition all_valid :: "budget_deployment \<Rightarrow> bool" where
  "all_valid d \<longleftrightarrow> (\<forall>i. budgets_valid (Some mem_budget_ops) (bd_store d) (bd_replica d i))"

lemma valid_same_budgets:
  "budgets_valid store st m \<Longrightarrow> bm_budgets m' = bm_budgets m \<Longrightarrow> budgets_valid store st m'"
  by (simp add: budgets_valid_def)

lemma all_valid_set:
  assumes "all_valid d" and "budgets_valid (Some mem_budget_ops) st m"
  shows "all_valid (bd_set d i m st)"
  using assms by (auto simp: all_valid_def bd_set_def budgets_valid_def)

lemma budget_step_valid: "budget_step d d' \<Longrightarrow> all_valid d \<Longrightarrow> all_valid d'"
proof (erule budget_stepE)
  have v: "all_valid d \<Longrightarrow> budgets_valid (Some mem_budget_ops) (bd_store d) (bd_replica d i)" for i
    by (simp add: all_valid_def)
  {
    fix i t cost tokens r m st
    assume "all_valid d" "d' = bd_set d i m st"
      "budget_record_spend (Some mem_budget_ops) (bd_store d) (bd_replica d i) t cost tokens = (r, m, st)"
    with all_valid_set mem_store.spend_valid[OF v] show "all_valid d'" by blast
  next
    fix i t r m st
    assume "all_valid d" "d' = bd_set d i m st"
      "ensure_budget (Some mem_budget_ops) (bd_store d) (bd_replica d i) t = (r, m, st)"
    with all_valid_set mem_store.ensure_valid[OF v] show "all_valid d'" by blast
  next
    fix i t r m st
    assume "all_valid d" "d' = bd_set d i m st"
      "reset_budget (Some mem_budget_ops) (bd_store d) (bd_replica d i) t = (r, m, st)"
    with all_valid_set mem_store.reset_valid[OF v] show "all_valid d'" by blast
  next
    fix i p
    assume "all_valid d" "d' = bd_set d i (set_policy (bd_replica d i) p) (bd_store d)"
    with all_valid_set valid_same_budgets[OF v] show "all_valid d'" by (simp add: set_policy_def)
  next
    fix i t
    assume "all_valid d" "d' = bd_set d i (disable_tenant (bd_replica d i) t) (bd_store d)"
    with all_valid_set valid_same_budgets[OF v] show "all_valid d'"
      by (simp add: set_policy_def disable_tenant_def)
  }
qed


section \<open>Properties\<close>

definition demo_policy :: budget_policy where
  "demo_policy = \<lparr>bp_tenant_id = ''__default__'', bp_max_cost = PFin 10, bp_max_calls = 2,
     bp_max_tokens = 4096, bp_auto_create = True, bp_enabled = True\<rparr>"

definition demo_mgr :: budget_mgr where
  "demo_mgr = \<lparr>bm_policies = [], bm_budgets = [], bm_default = demo_policy\<rparr>"

definition demo_llm :: "pfloat \<Rightarrow> int \<Rightarrow> llm_budget" where
  "demo_llm s n = \<lparr>lb_budget_id = ''tenant-acme'', lb_tenant_id = ''acme'', lb_max_cost = PFin 10,
     lb_spent = s, lb_max_tokens = 4096, lb_max_calls = 2, lb_calls_made = n\<rparr>"

definition demo_budgets :: budget_deployment where
  "demo_budgets = \<lparr>bd_replica = (\<lambda>_. demo_mgr), bd_store = [(''acme'', demo_llm (PFin 4) 2)]\<rparr>"

lemma demo_budgets_valid: "all_valid demo_budgets"
  by (auto simp: all_valid_def budgets_valid_def demo_budgets_def demo_mgr_def store_load_def
      mem_budget_ops_def memb_load_def lb_ok_def demo_llm_def split: if_splits)

text \<open>
  C7: The cost limit is hard.  Whatever a number of managers do, in any interleaving, over the
  shared in-memory store (spend, create, reset, change policies, disable tenants): the total of every
  tenant in the store is a finite non-negative number that does not exceed the tenant's limit.  A step is a
  whole method of a manager; the managers hold no lock, and interleavings inside a method are not covered.
\<close>

theorem budget_never_exceeded:
  assumes "budget_step\<^sup>*\<^sup>* d d'" and "all_valid d" and "memb_load (bd_store d') t = Some b"
  shows "\<exists>s c. lb_spent b = PFin s \<and> lb_max_cost b = PFin c \<and> 0 \<le> s \<and> s \<le> c \<and> lb_tenant_id b = t"
proof -
  have "all_valid d'"
    using assms(1,2) by (induction rule: rtranclp_induct) (auto intro: budget_step_valid)
  then have "budgets_valid (Some mem_budget_ops) (bd_store d') (bd_replica d' 0)"
    by (simp add: all_valid_def)
  with assms(3) show ?thesis
    by (auto simp: budgets_valid_def store_load_def mem_budget_ops_def lb_ok_def)
qed

theorem budget_never_exceeded_witness:
  "\<exists>s c. lb_spent (demo_llm (PFin 4) 2) = PFin s \<and> lb_max_cost (demo_llm (PFin 4) 2) = PFin c \<and> 0 \<le> s \<and> s \<le> c"
  using budget_never_exceeded[OF rtranclp.rtrancl_refl demo_budgets_valid, of "''acme''"]
  by (auto simp: demo_budgets_def memb_load_def)

text \<open>
  Spending is isolated.  A spend of one tenant, accepted or refused, changes neither the row nor
  the cached budget of any other tenant.
\<close>

theorem spend_isolated:
  assumes "budgets_valid (Some mem_budget_ops) st m"
    and "budget_record_spend (Some mem_budget_ops) st m t cost tokens = (r, m', st')" and "x \<noteq> t"
  shows "memb_load st' x = memb_load st x \<and> get_budget m' x = get_budget m x"
  using mem_store.spend_valid[OF assms(1,2)] assms(3)
  by (simp add: store_load_def mem_budget_ops_def get_budget_def)

theorem spend_isolated_witness:
  "memb_load (snd (snd (budget_record_spend (Some mem_budget_ops) (bd_store demo_budgets) demo_mgr
     ''other'' (PFin 3) 0))) ''acme'' = Some (demo_llm (PFin 4) 2)"
proof -
  have "budgets_valid (Some mem_budget_ops) (bd_store demo_budgets) demo_mgr"
    using demo_budgets_valid by (simp add: all_valid_def demo_budgets_def)
  moreover obtain r m' st' where "budget_record_spend (Some mem_budget_ops) (bd_store demo_budgets)
      demo_mgr ''other'' (PFin 3) 0 = (r, m', st')" by (metis prod_cases3)
  ultimately show ?thesis
    using spend_isolated[of "bd_store demo_budgets" demo_mgr "''other''" "PFin 3" 0 r m' st' "''acme''"]
    by (simp add: demo_budgets_def memb_load_def)
qed

text \<open>
  With the atomic store a spend is decided on the store's row, whatever the manager has cached:
  it succeeds exactly when the new total is not above the limit, and then the row is the old one with
  the new total and one more call; otherwise the store is unchanged.
\<close>

theorem atomic_spend_decides:
  assumes "memb_load st t = Some cur" and "\<not> pf_less cost (PFin 0)"
    and "budget_record_spend (Some mem_budget_ops) st m t cost tokens = (r, m', st')"
    and "lb_charge cur (pf_add (lb_spent cur) cost) = Inr b"
  shows "if pf_less (lb_max_cost cur) (pf_add (lb_spent cur) cost)
    then r = Inl (ValueError ''budget exhausted'') \<and> st' = st
    else r = Inr b \<and> memb_load st' t = Some b \<and> get_budget m' t = Some b \<and>
      b = cur\<lparr>lb_spent := pf_add (lb_spent cur) cost, lb_calls_made := lb_calls_made cur + 1\<rparr>"
proof -
  have "\<exists>b0 m1. ensure_budget (Some mem_budget_ops) st m t = (Inr b0, m1, st)"
    using assms(1)
    by (cases "dict_get (bm_budgets m) t") (simp_all add: ensure_budget_def mem_budget_ops_def)
  then obtain b0 m1 where en: "ensure_budget (Some mem_budget_ops) st m t = (Inr b0, m1, st)" by blast
  show ?thesis
    using assms(1-3) en assms(4) lb_charge_Inr[OF assms(4)]
    by (auto simp: budget_record_spend_def mem_budget_ops_def memb_try_record_spend_def Let_def
        memb_load_def get_budget_def cache_budget_def split: if_splits)
qed

theorem atomic_spend_decides_witness:
  "fst (budget_record_spend (Some mem_budget_ops) [(''acme'', demo_llm (PFin 4) 0)] demo_mgr ''acme''
     (PFin 5) 0) = Inr (demo_llm (PFin 9) 1)"
proof -
  obtain r m' st' where s: "budget_record_spend (Some mem_budget_ops) [(''acme'', demo_llm (PFin 4) 0)]
      demo_mgr ''acme'' (PFin 5) 0 = (r, m', st')" by (metis prod_cases3)
  have c: "lb_charge (demo_llm (PFin 4) 0) (pf_add (lb_spent (demo_llm (PFin 4) 0)) (PFin 5)) =
      Inr (demo_llm (PFin 9) 1)" by code_simp
  have l: "\<not> pf_less (lb_max_cost (demo_llm (PFin 4) 0)) (pf_add (lb_spent (demo_llm (PFin 4) 0)) (PFin 5))"
    by code_simp
  have m: "memb_load [(''acme'', demo_llm (PFin 4) 0)] ''acme'' = Some (demo_llm (PFin 4) 0)"
    by (simp add: memb_load_def)
  have n: "\<not> pf_less (PFin 5) (PFin 0)" by simp
  from atomic_spend_decides[OF m n s c] l have "r = Inr (demo_llm (PFin 9) 1)" by argo
  then show ?thesis by (simp add: s)
qed

text \<open>
  The call limit depends on the store.  A tenant that has made all its calls is refused by a
  manager without a store, but with the atomic store the same spend is accepted as long as the cost
  fits.
\<close>

theorem call_limit_bypassed:
  assumes "lb_max_calls b \<le> lb_calls_made b" and "lb_ok t b" and "\<not> pf_less cost (PFin 0)"
    and "\<not> pf_less (lb_max_cost b) (pf_add (lb_spent b) cost)"
    and "lb_charge b (pf_add (lb_spent b) cost) = Inr b'" and "get_budget m t = Some b"
  shows "fst (budget_record_spend None () m t cost tokens) = Inl (ValueError ''budget exhausted'') \<and>
    fst (budget_record_spend (Some mem_budget_ops) [(t, b)] m t cost tokens) = Inr b'"
  using assms
  by (simp add: budget_record_spend_def ensure_budget_def get_budget_def legacy_spend_def lb_exhausted_def
      mem_budget_ops_def memb_try_record_spend_def)

theorem call_limit_bypassed_witness:
  "fst (budget_record_spend None () (cache_budget demo_mgr ''acme'' (demo_llm (PFin 4) 2)) ''acme'' (PFin 1) 0) =
     Inl (ValueError ''budget exhausted'') \<and>
   fst (budget_record_spend (Some mem_budget_ops) [(''acme'', demo_llm (PFin 4) 2)]
     (cache_budget demo_mgr ''acme'' (demo_llm (PFin 4) 2)) ''acme'' (PFin 1) 0) = Inr (demo_llm (PFin 5) 3)"
proof -
  have "lb_charge (demo_llm (PFin 4) 2) (pf_add (lb_spent (demo_llm (PFin 4) 2)) (PFin 1)) =
      Inr (demo_llm (PFin 5) 3)" by code_simp
  moreover have "\<not> pf_less (lb_max_cost (demo_llm (PFin 4) 2)) (pf_add (lb_spent (demo_llm (PFin 4) 2)) (PFin 1))"
    by code_simp
  moreover have "lb_ok ''acme'' (demo_llm (PFin 4) 2)" by (simp add: lb_ok_def demo_llm_def)
  ultimately show ?thesis
    by (intro call_limit_bypassed) (simp_all add: demo_llm_def get_budget_def cache_budget_def demo_mgr_def)
qed

end
