(* ===== verification/Rate_Limit.thy ===== *)
theory Rate_Limit
  imports Py_Float
begin

text \<open>
  \<open>mcoi_runtime/governance/guards/rate_limit.py\<close> and the in-memory rate limit store of
  \<open>mcoi_runtime/persistence/postgres_governance_stores.py\<close>: token buckets, the least-recently-used
  eviction of buckets and the dual gate on tenant and identity.  The readings of the monotonic clock
  are arguments.  An \<open>OrderedDict\<close> is an association list, oldest key first.
\<close>

record rl_config =
  rc_max_tokens :: int
  rc_refill_rate :: pfloat
  rc_burst_limit :: int

definition mk_rl_config :: "int \<Rightarrow> pfloat \<Rightarrow> int \<Rightarrow> rl_config py" where
  "mk_rl_config max_tokens refill_rate burst_limit =
     (if max_tokens < 1 then Inl (ValueError ''max_tokens must be >= 1'')
      else if pf_le refill_rate (PFin 0) then Inl (ValueError ''refill_rate must be > 0.0'')
      else if burst_limit < 1 then Inl (ValueError ''burst_limit must be >= 1'')
      else Inr \<lparr>rc_max_tokens = max_tokens, rc_refill_rate = refill_rate, rc_burst_limit = burst_limit\<rparr>)"

record rl_result =
  rr_allowed :: bool
  rr_remaining_tokens :: int
  rr_retry_after :: pfloat
  rr_tenant_id :: string
  rr_endpoint :: string

section \<open>The token bucket\<close>

record token_bucket =
  tb_config :: rl_config
  tb_tokens :: pfloat
  tb_last_refill :: pfloat

definition new_bucket :: "rl_config \<Rightarrow> pfloat \<Rightarrow> token_bucket" where
  "new_bucket config now = \<lparr>tb_config = config, tb_tokens = pf_of_int (rc_max_tokens config),
     tb_last_refill = now\<rparr>"

text \<open>The tokens of a bucket after a refill: both implementations compute this.\<close>

definition refilled :: "rl_config \<Rightarrow> pfloat \<Rightarrow> pfloat \<Rightarrow> pfloat \<Rightarrow> pfloat" where
  "refilled config tokens last_refill now = pf_min (pf_of_int (rc_max_tokens config))
     (pf_add tokens (pf_mul (pf_sub now last_refill) (rc_refill_rate config)))"

definition bucket_refill :: "token_bucket \<Rightarrow> pfloat \<Rightarrow> token_bucket" where
  "bucket_refill b now = b\<lparr>tb_tokens := refilled (tb_config b) (tb_tokens b) (tb_last_refill b) now,
     tb_last_refill := now\<rparr>"

definition bucket_try_consume :: "token_bucket \<Rightarrow> pfloat \<Rightarrow> int \<Rightarrow> (bool \<times> pfloat) \<times> token_bucket" where
  "bucket_try_consume b now tokens =
     (let b = bucket_refill b now
      in if rc_burst_limit (tb_config b) < tokens then ((False, tb_tokens b), b)
         else if pf_ge_int (tb_tokens b) tokens
         then let t = pf_sub (tb_tokens b) (pf_of_int tokens) in ((True, t), b\<lparr>tb_tokens := t\<rparr>)
         else ((False, tb_tokens b), b))"

definition bucket_remaining :: "token_bucket \<Rightarrow> pfloat \<Rightarrow> pfloat \<times> token_bucket" where
  "bucket_remaining b now = (let b = bucket_refill b now in (tb_tokens b, b))"

section \<open>The in-memory store\<close>

record rl_store =
  rs_decisions :: "(string, nat \<times> nat) pydict"
  rs_buckets :: "(string, pfloat \<times> pfloat) pydict"
  rs_max_buckets :: nat

definition rl_store_init :: "int \<Rightarrow> rl_store" where
  "rl_store_init max_buckets = \<lparr>rs_decisions = [], rs_buckets = [], rs_max_buckets = nat (max 1 max_buckets)\<rparr>"

definition record_decision :: "rl_store \<Rightarrow> string \<Rightarrow> bool \<Rightarrow> rl_store" where
  "record_decision st bucket_key allowed =
     (let (a, d) = (case dict_get (rs_decisions st) bucket_key of None \<Rightarrow> (0, 0) | Some c \<Rightarrow> c)
      in st\<lparr>rs_decisions := dict_set bucket_key (if allowed then (Suc a, d) else (a, Suc d))
             (rs_decisions st)\<rparr>)"

definition get_counters :: "rl_store \<Rightarrow> nat \<times> nat" where
  "get_counters st = (sum_list (map fst (dict_values (rs_decisions st))),
                      sum_list (map snd (dict_values (rs_decisions st))))"

definition move_to_end :: "'k \<Rightarrow> 'v \<Rightarrow> ('k, 'v) pydict \<Rightarrow> ('k, 'v) pydict" where
  "move_to_end k v d = dict_pop k d @ [(k, v)]"

definition store_try_consume ::
  "rl_store \<Rightarrow> pfloat \<Rightarrow> string \<Rightarrow> int \<Rightarrow> rl_config \<Rightarrow> (bool \<times> pfloat) \<times> rl_store" where
  "store_try_consume st now bucket_key tokens config =
     (if rc_burst_limit config < tokens
      then ((False, case dict_get (rs_buckets st) bucket_key of
                      None \<Rightarrow> pf_of_int (rc_max_tokens config) | Some (c, _) \<Rightarrow> c), st)
      else
        let (current, last_refill) = (case dict_get (rs_buckets st) bucket_key of
                Some b \<Rightarrow> b | None \<Rightarrow> (pf_of_int (rc_max_tokens config), now));
            current = refilled config current last_refill now;
            allowed = pf_ge_int current tokens;
            current = (if allowed then pf_sub current (pf_of_int tokens) else current);
            buckets = move_to_end bucket_key (current, now) (rs_buckets st);
            buckets = (if rs_max_buckets st < length buckets then tl buckets else buckets)
        in ((allowed, current), st\<lparr>rs_buckets := buckets\<rparr>))"

section \<open>The limiter\<close>

text \<open>Whether there is a store, and whether its class owns the buckets.\<close>

datatype store_kind = NoStore | CountingStore | OwningStore

record rate_limiter =
  rl_default :: rl_config
  rl_identity :: "rl_config option"
  rl_configs :: "(string, rl_config) pydict"
  rl_identity_configs :: "(string, rl_config) pydict"
  rl_buckets :: "(string, token_bucket) pydict"
  rl_max_buckets :: int
  rl_denied :: nat
  rl_allowed :: nat
  rl_identity_denied :: nat

definition configure_endpoint ::
  "rate_limiter \<Rightarrow> string \<Rightarrow> rl_config \<Rightarrow> rl_config option \<Rightarrow> rate_limiter" where
  "configure_endpoint l endpoint config identity_config =
     (let l = l\<lparr>rl_configs := dict_set endpoint config (rl_configs l)\<rparr>
      in case identity_config of None \<Rightarrow> l
         | Some c \<Rightarrow> l\<lparr>rl_identity_configs := dict_set endpoint c (rl_identity_configs l)\<rparr>)"

definition bucket_key :: "string \<Rightarrow> string \<Rightarrow> string" where
  "bucket_key tenant_id endpoint = tenant_id @ '':'' @ endpoint"

definition identity_bucket_key :: "string \<Rightarrow> string \<Rightarrow> string \<Rightarrow> string" where
  "identity_bucket_key tenant_id identity_id endpoint = tenant_id @ '':'' @ identity_id @ '':'' @ endpoint"

text \<open>Evicting from an empty dictionary raises, which takes a limit below one.\<close>

definition get_bucket ::
  "rate_limiter \<Rightarrow> pfloat \<Rightarrow> string \<Rightarrow> rl_config \<Rightarrow> token_bucket py \<times> rate_limiter" where
  "get_bucket l now key config =
     (case dict_get (rl_buckets l) key of
        Some b \<Rightarrow> (Inr b, l\<lparr>rl_buckets := move_to_end key b (rl_buckets l)\<rparr>)
      | None \<Rightarrow>
          if rl_max_buckets l \<le> int (length (rl_buckets l)) \<and> rl_buckets l = []
          then (Inl (KeyError ''dictionary is empty''), l)
          else let buckets = (if rl_max_buckets l \<le> int (length (rl_buckets l))
                              then tl (rl_buckets l) else rl_buckets l);
                   b = new_bucket config now
               in (Inr b, l\<lparr>rl_buckets := dict_set key b buckets\<rparr>))"

definition resolve_config :: "rate_limiter \<Rightarrow> string \<Rightarrow> rl_config" where
  "resolve_config l endpoint =
     (case dict_get (rl_configs l) endpoint of Some c \<Rightarrow> c | None \<Rightarrow> rl_default l)"

definition resolve_identity_config :: "rate_limiter \<Rightarrow> string \<Rightarrow> rl_config option" where
  "resolve_identity_config l endpoint =
     (case dict_get (rl_identity_configs l) endpoint of Some c \<Rightarrow> Some c | None \<Rightarrow> rl_identity l)"

text \<open>
  One gate: the store's bucket when it owns them, the limiter's otherwise.  The readings are those of
  the construction of a bucket and of its refill.
\<close>

definition gate ::
  "store_kind \<Rightarrow> rate_limiter \<Rightarrow> rl_store \<Rightarrow> pfloat \<times> pfloat \<Rightarrow> string \<Rightarrow> int \<Rightarrow> rl_config
    \<Rightarrow> (bool \<times> pfloat) py \<times> rate_limiter \<times> rl_store" where
  "gate kind l st now key tokens config =
     (if kind = OwningStore
      then let (res, st) = store_try_consume st (snd now) key tokens config in (Inr res, l, st)
      else case get_bucket l (fst now) key config of
             (Inl e, l) \<Rightarrow> (Inl e, l, st)
           | (Inr b, l) \<Rightarrow>
               let (res, b) = bucket_try_consume b (snd now) tokens
               in (Inr res, l\<lparr>rl_buckets := dict_set key b (rl_buckets l)\<rparr>, st))"

datatype denied_by = Nobody | DeniedByTenant | DeniedByIdentity

definition retry_after :: "int \<Rightarrow> pfloat \<Rightarrow> pfloat \<Rightarrow> pfloat" where
  "retry_after tokens remaining refill =
     (case pf_div (pf_sub (pf_of_int tokens) remaining) refill of Inr q \<Rightarrow> q | Inl _ \<Rightarrow> PNaN)"

text \<open>The counting, reporting part of a check, after both gates.\<close>

definition finish_check ::
  "store_kind \<Rightarrow> rate_limiter \<Rightarrow> rl_store \<Rightarrow> string \<Rightarrow> string \<Rightarrow> int \<Rightarrow> string \<Rightarrow> denied_by \<Rightarrow> pfloat
    \<Rightarrow> pfloat option \<Rightarrow> rl_result py \<times> rate_limiter \<times> rl_store" where
  "finish_check kind l st tenant_id endpoint tokens identity_id by remaining identity_remaining =
     (let allowed = (by = Nobody);
          l = (if allowed then l\<lparr>rl_allowed := Suc (rl_allowed l)\<rparr>
               else l\<lparr>rl_denied := Suc (rl_denied l)\<rparr>);
          l = (if by = DeniedByIdentity then l\<lparr>rl_identity_denied := Suc (rl_identity_denied l)\<rparr> else l);
          st = (if kind = NoStore then st
                else record_decision st (bucket_key tenant_id endpoint) allowed);
          config = resolve_config l endpoint;
          retry = (if allowed then PFin 0
                   else case (by, identity_remaining) of
                       (DeniedByIdentity, Some ir) \<Rightarrow>
                         retry_after tokens ir (case resolve_identity_config l endpoint of
                             Some c \<Rightarrow> if pf_less (PFin 0) (rc_refill_rate c) then rc_refill_rate c
                                        else PFin 999
                           | None \<Rightarrow> PFin 999)
                     | _ \<Rightarrow> (if pf_less (PFin 0) (rc_refill_rate config)
                             then retry_after tokens remaining (rc_refill_rate config) else PFin 999))
      in (py_bind (pf_int (case identity_remaining of
                 Some ir \<Rightarrow> if identity_id \<noteq> [] then ir else remaining | None \<Rightarrow> remaining))
            (\<lambda>rem. Inr \<lparr>rr_allowed = allowed, rr_remaining_tokens = rem,
                 rr_retry_after = pf_round2 retry, rr_tenant_id = tenant_id, rr_endpoint = endpoint\<rparr>),
          l, st))"

definition rl_check ::
  "store_kind \<Rightarrow> rate_limiter \<Rightarrow> rl_store \<Rightarrow> pfloat \<times> pfloat \<Rightarrow> pfloat \<times> pfloat \<Rightarrow> string \<Rightarrow> string
    \<Rightarrow> int \<Rightarrow> string \<Rightarrow> rl_result py \<times> rate_limiter \<times> rl_store" where
  "rl_check kind l st now now' tenant_id endpoint tokens identity_id =
     (if tokens < 1 then (Inl (ValueError (''tokens must be >= 1, got '' @ int_str tokens)), l, st)
      else
        case gate kind l st now (bucket_key tenant_id endpoint) tokens (resolve_config l endpoint) of
          (Inl e, l, st) \<Rightarrow> (Inl e, l, st)
        | (Inr (False, remaining), l, st) \<Rightarrow>
            finish_check kind l st tenant_id endpoint tokens identity_id DeniedByTenant remaining None
        | (Inr (True, remaining), l, st) \<Rightarrow>
            (case (identity_id, resolve_identity_config l endpoint) of
               (_ # _, Some id_config) \<Rightarrow>
                 (case gate kind l st now' (identity_bucket_key tenant_id identity_id endpoint) tokens
                         id_config of
                    (Inl e, l, st) \<Rightarrow> (Inl e, l, st)
                  | (Inr (id_allowed, id_remaining), l, st) \<Rightarrow>
                      finish_check kind l st tenant_id endpoint tokens identity_id
                        (if id_allowed then Nobody else DeniedByIdentity) remaining (Some id_remaining))
             | _ \<Rightarrow> finish_check kind l st tenant_id endpoint tokens identity_id Nobody remaining None))"


section \<open>Bounds of a bucket\<close>

definition rl_sane :: "rl_config \<Rightarrow> bool" where
  "rl_sane c \<longleftrightarrow> 1 \<le> rc_max_tokens c \<and> rc_max_tokens c \<le> 2 ^ 53 \<and>
     (\<exists>r. rc_refill_rate c = PFin r \<and> 0 < r)"

lemma sane_nat:
  assumes "rl_sane c"
  obtains n where "n = nat (rc_max_tokens c)" and "rc_max_tokens c = int n" and "n \<le> 2 ^ 53"
    and "pf_of_int (rc_max_tokens c) = PFin (of_nat n)"
proof -
  have le: "nat (rc_max_tokens c) \<le> 2 ^ 53" using assms unfolding rl_sane_def
    by (metis nat_le_iff of_nat_numeral of_nat_power)
  moreover have eq: "rc_max_tokens c = int (nat (rc_max_tokens c))" using assms by (simp add: rl_sane_def)
  moreover have "pf_of_int (rc_max_tokens c) = PFin (of_nat (nat (rc_max_tokens c)))"
    using fl_of_nat[OF le] eq by (metis of_int_of_nat_eq pf_of_int_def)
  ultimately show thesis using that by blast
qed

lemma refilled_bounds:
  assumes c: "rl_sane c" and t: "0 \<le> t" "t \<le> of_int (rc_max_tokens c)" and ab: "a \<le> b"
  shows "\<exists>t'. refilled c (PFin t) (PFin a) (PFin b) = PFin t' \<and> 0 \<le> t' \<and> t' \<le> of_int (rc_max_tokens c)"
proof -
  obtain n where n: "rc_max_tokens c = int n" "pf_of_int (rc_max_tokens c) = PFin (of_nat n)"
    by (rule sane_nat[OF c])
  obtain r where r: "rc_refill_rate c = PFin r" "0 < r" using c by (auto simp: rl_sane_def)
  have "pf_sub (PFin b) (PFin a) = PPosInf \<or> (\<exists>e. pf_sub (PFin b) (PFin a) = PFin e \<and> 0 \<le> e)"
    using fl_nonneg[of "b - a"] ab by (simp add: pf_sub_def)
  then have "pf_mul (pf_sub (PFin b) (PFin a)) (PFin r) = PPosInf \<or>
      (\<exists>e. pf_mul (pf_sub (PFin b) (PFin a)) (PFin r) = PFin e \<and> 0 \<le> e)"
  proof (elim disjE exE conjE)
    fix e assume "pf_sub (PFin b) (PFin a) = PFin e" "0 \<le> e"
    with fl_nonneg[of "e * r"] r(2) show ?thesis by simp
  qed (use r(2) in \<open>simp add: pf_sgn_def pf_inf_def\<close>)
  then have "pf_add (PFin t) (pf_mul (pf_sub (PFin b) (PFin a)) (PFin r)) = PPosInf \<or>
      (\<exists>e. pf_add (PFin t) (pf_mul (pf_sub (PFin b) (PFin a)) (PFin r)) = PFin e \<and> 0 \<le> e)"
  proof (elim disjE exE conjE)
    fix e assume "pf_mul (pf_sub (PFin b) (PFin a)) (PFin r) = PFin e" "0 \<le> e"
    with fl_nonneg[of "t + e"] t(1) show ?thesis by simp
  qed simp
  moreover have "pf_of_int (int n) = PFin (of_nat n)" using n by simp
  ultimately show ?thesis
    by (auto simp: refilled_def n(1) r(1) pf_min_def)
qed

lemma consume_bounds:
  assumes "rl_sane c" and "0 \<le> t" and "t \<le> of_int (rc_max_tokens c)" and "0 \<le> k" and "of_int k \<le> t"
  shows "\<exists>t'. pf_sub (PFin t) (pf_of_int k) = PFin t' \<and> 0 \<le> t' \<and> t' \<le> of_int (rc_max_tokens c)"
proof -
  obtain n where n: "rc_max_tokens c = int n" "n \<le> 2 ^ 53" by (rule sane_nat[OF assms(1)])
  have "(of_int k :: rat) \<le> of_int (int n)" using assms(3,5) n(1) by linarith
  then have "k \<le> int n" by (simp only: of_int_le_iff)
  then have kn: "nat k \<le> 2 ^ 53" using n(2) by linarith
  have "pf_of_int k = PFin (of_int k)"
    using fl_of_nat[OF kn] assms(4) by (simp add: pf_of_int_def of_nat_nat)
  moreover have "\<exists>r. fl (t - of_int k) = PFin r \<and> 0 \<le> r \<and> r \<le> of_nat n"
  proof (rule fl_fin_bound[OF _ _ n(2)])
    have "0 \<le> (of_int k :: rat)" using assms(4) by simp
    then show "t - of_int k \<le> of_nat n" using assms(3) n(1) by simp
  qed (use assms(5) in simp)
  ultimately show ?thesis by (simp add: pf_sub_def n(1))
qed

definition bucket_ok :: "rat \<Rightarrow> token_bucket \<Rightarrow> bool" where
  "bucket_ok now b \<longleftrightarrow> rl_sane (tb_config b) \<and> tb_last_refill b = PFin now \<and>
     (\<exists>t. tb_tokens b = PFin t \<and> 0 \<le> t \<and> t \<le> of_int (rc_max_tokens (tb_config b)))"

lemma try_consume_ok:
  assumes "bucket_ok a b" and "a \<le> now" and "1 \<le> k"
  shows "bucket_ok now (snd (bucket_try_consume b (PFin now) k))"
proof -
  obtain t where t: "rl_sane (tb_config b)" "tb_last_refill b = PFin a" "tb_tokens b = PFin t"
    "0 \<le> t" "t \<le> of_int (rc_max_tokens (tb_config b))"
    using assms(1) by (auto simp: bucket_ok_def)
  obtain t' where t': "refilled (tb_config b) (PFin t) (PFin a) (PFin now) = PFin t'" "0 \<le> t'"
    "t' \<le> of_int (rc_max_tokens (tb_config b))"
    using refilled_bounds[OF t(1,4,5) assms(2)] by blast
  show ?thesis
  proof (cases "rc_burst_limit (tb_config b) < k \<or> \<not> pf_ge_int (PFin t') k")
    case True
    then show ?thesis
      using t(1) t' by (auto simp: bucket_try_consume_def bucket_refill_def t(2,3) bucket_ok_def Let_def)
  next
    case False
    then have "of_int k \<le> t'" by (simp add: pf_ge_int_def)
    with consume_bounds[OF t(1) t'(2,3), of k] assms(3) False show ?thesis
      using t(1) t' by (auto simp: bucket_try_consume_def bucket_refill_def t(2,3) bucket_ok_def Let_def)
  qed
qed

text \<open>A sequence of requests on one bucket, with the clock readings of the requests.\<close>

definition consume_all :: "token_bucket \<Rightarrow> (rat \<times> int) list \<Rightarrow> token_bucket" where
  "consume_all b reqs = fold (\<lambda>(now, k) b. snd (bucket_try_consume b (PFin now) k)) reqs b"

section \<open>Properties\<close>

text \<open>
  A bucket never goes below zero or above its maximum: starting full, after any sequence of
  requests at non-decreasing clock readings its tokens are a finite number between zero and
  \<open>max_tokens\<close>, float rounding included.
\<close>

theorem bucket_bounds:
  assumes "rl_sane c" and "sorted (t0 # map fst reqs)" and "\<forall>(now, k) \<in> set reqs. 1 \<le> k"
  shows "\<exists>t. tb_tokens (consume_all (new_bucket c (PFin t0)) reqs) = PFin t \<and>
    0 \<le> t \<and> t \<le> of_int (rc_max_tokens c)"
proof -
  have cfg: "tb_config (consume_all b reqs) = tb_config b" for b reqs
    by (induction reqs arbitrary: b)
       (auto simp: consume_all_def bucket_try_consume_def bucket_refill_def Let_def split: if_splits)
  have "bucket_ok (last (t0 # map fst reqs)) (consume_all b reqs)" if "bucket_ok t0 b" for b
    using that assms(2,3)
  proof (induction reqs arbitrary: b t0)
    case (Cons x reqs)
    obtain now k where x: "x = (now, k)" by fastforce
    have "bucket_ok now (snd (bucket_try_consume b (PFin now) k))"
      using Cons.prems x by (intro try_consume_ok) auto
    from Cons.IH[OF this] Cons.prems x show ?case by (simp add: consume_all_def)
  qed (simp add: consume_all_def)
  moreover have "bucket_ok t0 (new_bucket c (PFin t0))"
  proof -
    obtain n where "rc_max_tokens c = int n" "pf_of_int (rc_max_tokens c) = PFin (of_nat n)"
      by (rule sane_nat[OF assms(1)])
    with assms(1) show ?thesis by (simp add: bucket_ok_def new_bucket_def)
  qed
  ultimately have "bucket_ok (last (t0 # map fst reqs)) (consume_all (new_bucket c (PFin t0)) reqs)"
    by blast
  then show ?thesis using cfg[of "new_bucket c (PFin t0)" reqs]
    by (auto simp: bucket_ok_def new_bucket_def)
qed

definition demo_config :: "int \<Rightarrow> rl_config" where
  "demo_config n = \<lparr>rc_max_tokens = n, rc_refill_rate = PFin 1, rc_burst_limit = 10\<rparr>"

theorem bucket_bounds_witness:
  "\<exists>t. tb_tokens (consume_all (new_bucket (demo_config 3) (PFin 0)) [(0, 2), (1 / 2, 2)]) = PFin t \<and>
    0 \<le> t \<and> t \<le> 3"
proof -
  have "rl_sane (demo_config 3)" by (auto simp: rl_sane_def demo_config_def)
  from bucket_bounds[OF this, of 0 "[(0, 2), (1 / 2, 2)]"] show ?thesis by (simp add: demo_config_def)
qed

text \<open>
  Both gates must pass.  A check that returns has allowed the request exactly when the tenant's
  bucket allowed it and, where an identity is given and identity limits exist, the identity's bucket
  allowed it too; and it counted exactly one decision.
\<close>

theorem dual_gate:
  assumes "rl_check kind l st now now' t e k i = (Inr r, l', st')"
    and "gate kind l st now (bucket_key t e) k (resolve_config l e) = (g, l1, st1)"
  shows "rl_allowed l' + rl_denied l' = Suc (rl_allowed l1 + rl_denied l1) \<and>
    (rr_allowed r \<longleftrightarrow> (\<exists>x. g = Inr (True, x)) \<and>
      (\<forall>c. i \<noteq> [] \<and> resolve_identity_config l1 e = Some c \<longrightarrow>
         (\<exists>x. fst (gate kind l1 st1 now' (identity_bucket_key t i e) k c) = Inr (True, x))))"
proof -
  have keep: "rl_allowed (fst (snd (gate kd l st n key k c))) = rl_allowed l \<and>
      rl_denied (fst (snd (gate kd l st n key k c))) = rl_denied l" for kd l st n key k c
    by (auto simp: gate_def get_bucket_def Let_def split: prod.splits sum.splits option.splits if_splits)
  have fin: "rl_allowed l' + rl_denied l' = Suc (rl_allowed la + rl_denied la) \<and> (rr_allowed r \<longleftrightarrow> who = Nobody)"
    if "finish_check kind la sa t e k i who rem irem = (Inr r, l', st')" for la sa who rem irem
    using that by (auto simp: finish_check_def Let_def py_bind_Inr_iff split: if_splits)
  show ?thesis
  proof (cases g)
    case (Inl x)
    with assms show ?thesis by (simp add: rl_check_def split: if_splits)
  next
    case (Inr res)
    obtain ok rem where res: "res = (ok, rem)" by fastforce
    show ?thesis
    proof (cases ok)
      case False
      with assms Inr res have "finish_check kind l1 st1 t e k i DeniedByTenant rem None = (Inr r, l', st')"
        by (simp add: rl_check_def split: if_splits)
      from fin[OF this] show ?thesis by (simp add: Inr res False)
    next
      case True
      show ?thesis
      proof (cases "i = [] \<or> resolve_identity_config l1 e = None")
        case no: True
        with assms Inr res True have "finish_check kind l1 st1 t e k i Nobody rem None = (Inr r, l', st')"
          by (auto simp: rl_check_def split: if_splits list.splits option.splits)
        from fin[OF this] no show ?thesis by (auto simp: Inr res True)
      next
        case False
        then obtain c where c: "resolve_identity_config l1 e = Some c" "i \<noteq> []" by auto
        obtain g2 l2 st2 where g2: "gate kind l1 st1 now' (identity_bucket_key t i e) k c = (g2, l2, st2)"
          by (metis prod_cases3)
        with assms Inr res True c obtain ok2 rem2 where r2: "g2 = Inr (ok2, rem2)"
          and f2: "finish_check kind l2 st2 t e k i (if ok2 then Nobody else DeniedByIdentity) rem
            (Some rem2) = (Inr r, l', st')"
          by (cases g2) (auto simp: rl_check_def neq_Nil_conv split: if_splits)
        from fin[OF f2] keep[of kind l1 st1 now' "identity_bucket_key t i e" k c] g2 r2 c show ?thesis
          by (auto simp: Inr res True)
      qed
    qed
  qed
qed

definition demo_limiter :: rate_limiter where
  "demo_limiter = \<lparr>rl_default = demo_config 2, rl_identity = Some (demo_config 1), rl_configs = [],
     rl_identity_configs = [], rl_buckets = [], rl_max_buckets = 100, rl_denied = 0, rl_allowed = 0,
     rl_identity_denied = 0\<rparr>"

definition demo_check :: "string \<Rightarrow> rate_limiter \<Rightarrow> rl_result py \<times> rate_limiter \<times> rl_store" where
  "demo_check i l = rl_check NoStore l (rl_store_init 10) (PFin 0, PFin 0) (PFin 0, PFin 0) ''acme'' ''/x'' 1 i"

definition limiter_after :: "string list \<Rightarrow> rate_limiter" where
  "limiter_after is = fold (\<lambda>i l. fst (snd (demo_check i l))) is demo_limiter"

definition verdict :: "rl_result py \<Rightarrow> bool option" where
  "verdict r = (case r of Inr x \<Rightarrow> Some (rr_allowed x) | Inl _ \<Rightarrow> None)"

theorem dual_gate_witness:
  "rl_allowed (limiter_after [''ann'']) + rl_denied (limiter_after [''ann'']) = 1"
proof -
  obtain g l1 st1 where g: "gate NoStore demo_limiter (rl_store_init 10) (PFin 0, PFin 0)
      (bucket_key ''acme'' ''/x'') 1 (resolve_config demo_limiter ''/x'') = (g, l1, st1)"
    by (metis prod_cases3)
  have "rl_allowed (fst (snd (gate NoStore demo_limiter (rl_store_init 10) (PFin 0, PFin 0)
      (bucket_key ''acme'' ''/x'') 1 (resolve_config demo_limiter ''/x'')))) = 0 \<and>
    rl_denied (fst (snd (gate NoStore demo_limiter (rl_store_init 10) (PFin 0, PFin 0)
      (bucket_key ''acme'' ''/x'') 1 (resolve_config demo_limiter ''/x'')))) = 0"
    by code_simp
  moreover have "is_ok (fst (demo_check ''ann'' demo_limiter))" by code_simp
  then obtain r l' st' where "demo_check ''ann'' demo_limiter = (Inr r, l', st')"
    by (metis is_ok_iff fst_conv prod_cases3)
  ultimately show ?thesis
    using dual_gate[OF _ g] by (simp add: g demo_check_def limiter_after_def)
qed

text \<open>
  Identity limits do not protect the tenant's quota.  A request that the identity gate refuses
  has already taken its tokens from the tenant's bucket: one user's second, refused request empties
  the bucket of two, and another user's first request is refused by the tenant gate.
\<close>

theorem one_identity_exhausts_tenant:
  "map verdict [fst (demo_check ''ann'' (limiter_after [])),
     fst (demo_check ''ann'' (limiter_after [''ann''])),
     fst (demo_check ''bob'' (limiter_after [''ann'', ''ann'']))] = [Some True, Some False, Some False]"
  by code_simp

definition drained :: "int \<Rightarrow> rl_store" where
  "drained room = fold (\<lambda>k st. snd (store_try_consume st (PFin 0) k 2 (demo_config 2))) [''a'', ''b'']
     (rl_store_init room)"

lemma drained_steps:
  "snd (store_try_consume (rl_store_init 1) (PFin 0) ''a'' 2 (demo_config 2)) =
     \<lparr>rs_decisions = [], rs_buckets = [(''a'', PFin 0, PFin 0)], rs_max_buckets = 1\<rparr>"
  "snd (store_try_consume (rl_store_init 2) (PFin 0) ''a'' 2 (demo_config 2)) =
     \<lparr>rs_decisions = [], rs_buckets = [(''a'', PFin 0, PFin 0)], rs_max_buckets = 2\<rparr>"
  "snd (store_try_consume \<lparr>rs_decisions = [], rs_buckets = [(''a'', PFin 0, PFin 0)],
       rs_max_buckets = 1\<rparr> (PFin 0) ''b'' 2 (demo_config 2)) =
     \<lparr>rs_decisions = [], rs_buckets = [(''b'', PFin 0, PFin 0)], rs_max_buckets = 1\<rparr>"
  "snd (store_try_consume \<lparr>rs_decisions = [], rs_buckets = [(''a'', PFin 0, PFin 0)],
       rs_max_buckets = 2\<rparr> (PFin 0) ''b'' 2 (demo_config 2)) =
     \<lparr>rs_decisions = [], rs_buckets = [(''a'', PFin 0, PFin 0), (''b'', PFin 0, PFin 0)],
       rs_max_buckets = 2\<rparr>"
  "fst (fst (store_try_consume \<lparr>rs_decisions = [], rs_buckets = [(''b'', PFin 0, PFin 0)],
     rs_max_buckets = 1\<rparr> (PFin 0) ''a'' 2 (demo_config 2)))"
  "\<not> fst (fst (store_try_consume \<lparr>rs_decisions = [], rs_buckets =
     [(''a'', PFin 0, PFin 0), (''b'', PFin 0, PFin 0)], rs_max_buckets = 2\<rparr> (PFin 0) ''a'' 2
     (demo_config 2)))"
  by code_simp+

text \<open>
  Evicting a bucket forgets what it had spent.  In a store of one bucket a key that used all its
  tokens gets its full allowance again, at the same clock reading, once another key was touched; with
  room for both keys it is refused.
\<close>

theorem eviction_refills:
  "fst (fst (store_try_consume (drained 1) (PFin 0) ''a'' 2 (demo_config 2))) \<and>
   \<not> fst (fst (store_try_consume (drained 2) (PFin 0) ''a'' 2 (demo_config 2)))"
  by (simp add: drained_def drained_steps del: One_nat_def)

end
