(* ===== verification/Content_Safety.thy ===== *)
theory Content_Safety
  imports Py_Json Py_Float
begin

text \<open>
  \<open>mcoi_runtime/governance/guards/content_safety.py\<close>: the filters, the chain of filters and the
  validation of output.  The two library routines the filters rest on, the search for a regular
  expression and the normalisation of the text before it, are functions that the definitions take
  as arguments; so is the scanner for personal data that the validation of output is given.  The guards
  built from a chain are in \<open>Guard_Chain\<close>.
\<close>

section \<open>Records\<close>

datatype safety_verdict = SV_SAFE | SV_FLAGGED | SV_BLOCKED

fun sv_value :: "safety_verdict \<Rightarrow> string" where
  "sv_value SV_SAFE = ''safe''"
| "sv_value SV_FLAGGED = ''flagged''"
| "sv_value SV_BLOCKED = ''blocked''"

datatype threat_category =
    PROMPT_INJECTION | JAILBREAK | PII_EXPOSURE | HARMFUL_CONTENT | CODE_INJECTION
  | DATA_EXFILTRATION | CUSTOM_THREAT

fun tc_value :: "threat_category \<Rightarrow> string" where
  "tc_value PROMPT_INJECTION = ''prompt_injection''"
| "tc_value JAILBREAK = ''jailbreak''"
| "tc_value PII_EXPOSURE = ''pii_exposure''"
| "tc_value HARMFUL_CONTENT = ''harmful_content''"
| "tc_value CODE_INJECTION = ''code_injection''"
| "tc_value DATA_EXFILTRATION = ''data_exfiltration''"
| "tc_value CUSTOM_THREAT = ''custom''"

record safety_filter_result =
  sr_filter_name :: string
  sr_verdict :: safety_verdict
  sr_category :: threat_category
  sr_reason :: string
  sr_matched_pattern :: string
  sr_confidence :: pfloat

record content_safety_result =
  cr_verdict :: safety_verdict
  cr_filter_results :: "safety_filter_result list"
  cr_blocking_filter :: string
  cr_reason :: string

definition cr_is_safe :: "content_safety_result \<Rightarrow> bool" where
  "cr_is_safe r \<longleftrightarrow> cr_verdict r = SV_SAFE"

definition flagged_count :: "content_safety_result \<Rightarrow> nat" where
  "flagged_count r = length (filter (\<lambda>x. sr_verdict x = SV_FLAGGED) (cr_filter_results r))"

record output_safety_result =
  os_allowed :: bool
  os_content :: string
  os_stage_name :: string
  os_reason :: string
  os_pii_redacted :: bool
  os_content_verdict :: safety_verdict
  os_flags :: "json list"

record safety_pattern =
  sp_name :: string
  sp_pattern :: string
  sp_category :: threat_category
  sp_verdict :: safety_verdict
  sp_description :: string

definition LAMBDA_INPUT_SAFETY :: string where
  "LAMBDA_INPUT_SAFETY = ''Lambda_input_safety''"

definition LAMBDA_OUTPUT_SAFETY :: string where
  "LAMBDA_OUTPUT_SAFETY = ''Lambda_output_safety''"

text \<open>A regular expression, with a tilde for each backslash.\<close>

definition regex :: "string \<Rightarrow> string" where
  "regex s = map (\<lambda>c. if c = CHR ''~'' then CHR 0x5C else c) s"

definition PROMPT_INJECTION_PATTERNS :: "safety_pattern list" where
  "PROMPT_INJECTION_PATTERNS =
     [\<lparr>sp_name = ''system_override'',
       sp_pattern = regex ''(?i)(?:ignore|disregard|forget)~s+(?:all~s+)?(?:previous|above|prior)~s+(?:instructions|prompts|rules)'',
       sp_category = PROMPT_INJECTION, sp_verdict = SV_BLOCKED,
       sp_description = ''Attempts to override system instructions''\<rparr>,
      \<lparr>sp_name = ''role_hijack'',
       sp_pattern = regex ''(?i)you~s+are~s+now~s+(?:a|an|the)~s+(?:different|new|evil|unrestricted)'',
       sp_category = JAILBREAK, sp_verdict = SV_BLOCKED,
       sp_description = ''Attempts to redefine the symbolic intelligence role''\<rparr>,
      \<lparr>sp_name = ''system_prompt_leak'',
       sp_pattern = regex ''(?i)(?:reveal|show|print|output|display|repeat)~s+(?:your~s+)?(?:system~s+)?(?:prompt|instructions|rules|guidelines)'',
       sp_category = PROMPT_INJECTION, sp_verdict = SV_FLAGGED,
       sp_description = ''Attempts to extract system prompt''\<rparr>,
      \<lparr>sp_name = ''encoded_injection'',
       sp_pattern = regex ''(?i)(?:base64|hex|rot13|unicode)~s*(?:decode|encode)~s*[:~(]'',
       sp_category = PROMPT_INJECTION, sp_verdict = SV_FLAGGED,
       sp_description = ''Encoded content that may hide injection''\<rparr>,
      \<lparr>sp_name = ''data_exfil_url'',
       sp_pattern = regex ''(?i)(?:send|post|transmit|exfiltrate|upload)~s+(?:to|data~s+to)~s+(?:https?://|ftp://)'',
       sp_category = DATA_EXFILTRATION, sp_verdict = SV_BLOCKED,
       sp_description = ''Attempts to exfiltrate data to external URLs''\<rparr>,
      \<lparr>sp_name = ''code_exec_attempt'',
       sp_pattern = regex ''(?i)(?:exec|eval|import~s+os|subprocess|system)~s*~('',
       sp_category = CODE_INJECTION, sp_verdict = SV_FLAGGED,
       sp_description = ''Code execution patterns in prompts''\<rparr>]"

section \<open>Filters and the chain\<close>

text \<open>Whether a regular expression is found in a text, and \<open>normalize_content\<close> of a text that is not empty.\<close>

record safety_lib =
  sl_search :: "string \<Rightarrow> string \<Rightarrow> bool"
  sl_normalize :: "string \<Rightarrow> string"

record safety_filter =
  sf_name :: string
  sf_patterns :: "safety_pattern list"
  sf_enabled :: bool

definition filter_check :: "safety_lib \<Rightarrow> safety_filter \<Rightarrow> string \<Rightarrow> safety_filter_result option" where
  "filter_check lib f content =
     (if \<not> sf_enabled f \<or> content = [] then None
      else map_option (\<lambda>p. \<lparr>sr_filter_name = sf_name f, sr_verdict = sp_verdict p, sr_category = sp_category p,
             sr_reason = sp_description p, sr_matched_pattern = sp_name p, sr_confidence = PFin 1\<rparr>)
           (List.find (\<lambda>p. sl_search lib (sp_pattern p) content) (sf_patterns f)))"

record safety_chain =
  sc_filters :: "safety_filter list"
  sc_normalize :: bool

definition safety_chain_init :: "bool \<Rightarrow> safety_chain" where
  "safety_chain_init normalizing = \<lparr>sc_filters = [], sc_normalize = normalizing\<rparr>"

definition safety_add :: "safety_filter \<Rightarrow> safety_chain \<Rightarrow> safety_chain" where
  "safety_add f c = c\<lparr>sc_filters := sc_filters c @ [f]\<rparr>"

text \<open>The loop over the filters: the results, and the filter and the reason of a block.\<close>

fun run_filters ::
  "safety_lib \<Rightarrow> string \<Rightarrow> safety_filter list \<Rightarrow> safety_filter_result list
    \<Rightarrow> safety_filter_result list \<times> (string \<times> string) option" where
  "run_filters lib content [] results = (results, None)"
| "run_filters lib content (f # fs) results =
     (if \<not> sf_enabled f then run_filters lib content fs results
      else case filter_check lib f content of
          None \<Rightarrow> run_filters lib content fs results
        | Some result \<Rightarrow>
            if sr_verdict result = SV_BLOCKED then (results @ [result], Some (sf_name f, sr_reason result))
            else run_filters lib content fs (results @ [result]))"

definition safety_evaluate :: "safety_lib \<Rightarrow> safety_chain \<Rightarrow> string \<Rightarrow> content_safety_result" where
  "safety_evaluate lib c content =
     (let content = (if sc_normalize c \<and> content \<noteq> [] then sl_normalize lib content else content)
      in case run_filters lib content (sc_filters c) [] of
           (results, Some (name, reason)) \<Rightarrow>
             \<lparr>cr_verdict = SV_BLOCKED, cr_filter_results = results, cr_blocking_filter = name, cr_reason = reason\<rparr>
         | (results, None) \<Rightarrow>
             \<lparr>cr_verdict = (if \<exists>r \<in> set results. sr_verdict r = SV_FLAGGED then SV_FLAGGED else SV_SAFE),
              cr_filter_results = results, cr_blocking_filter = [], cr_reason = []\<rparr>)"

definition filter_count :: "safety_chain \<Rightarrow> nat" where
  "filter_count c = length (sc_filters c)"

definition filter_names :: "safety_chain \<Rightarrow> string list" where
  "filter_names c = map sf_name (sc_filters c)"

definition build_default_safety_chain :: safety_chain where
  "build_default_safety_chain = safety_add
     \<lparr>sf_name = ''prompt_injection'', sf_patterns = PROMPT_INJECTION_PATTERNS, sf_enabled = True\<rparr>
     (safety_chain_init True)"

section \<open>Output\<close>

definition flag_json :: "string \<Rightarrow> threat_category \<Rightarrow> string \<Rightarrow> json" where
  "flag_json name category reason =
     JObj [(''filter'', JStr name), (''category'', JStr (tc_value category)), (''reason'', JStr reason)]"

definition result_flags :: "safety_filter_result list \<Rightarrow> json list" where
  "result_flags results = map (\<lambda>r. flag_json (sr_filter_name r) (sr_category r) (sr_reason r))
     (filter (\<lambda>r. sr_verdict r = SV_FLAGGED) results)"

text \<open>The scanner for personal data gives the redacted text and whether it found any.\<close>

definition evaluate_output_safety ::
  "safety_lib \<Rightarrow> string \<Rightarrow> safety_chain option \<Rightarrow> (string \<Rightarrow> string \<times> bool) option \<Rightarrow> output_safety_result" where
  "evaluate_output_safety lib content chain pii_scanner =
     (let (safe_content, pii) =
        (case pii_scanner of
           Some scan \<Rightarrow> if content \<noteq> [] then scan content else (content, False)
         | None \<Rightarrow> (content, False));
        flags = (if pii then [flag_json ''pii_scanner'' PII_EXPOSURE ''output PII redacted''] else []);
        result = \<lparr>os_allowed = True, os_content = safe_content, os_stage_name = LAMBDA_OUTPUT_SAFETY,
          os_reason = [], os_pii_redacted = pii, os_content_verdict = SV_SAFE, os_flags = flags\<rparr>
      in case chain of
           None \<Rightarrow> result
         | Some c \<Rightarrow>
             if safe_content = [] then result
             else let r = safety_evaluate lib c safe_content
                  in if cr_verdict r = SV_BLOCKED
                     then result\<lparr>os_allowed := False, os_content := [], os_reason := ''output safety blocked'',
                            os_content_verdict := cr_verdict r\<rparr>
                     else result\<lparr>os_content_verdict := cr_verdict r,
                            os_flags := flags @ result_flags (cr_filter_results r)\<rparr>)"

section \<open>What a verdict means\<close>

lemma run_filters_spec:
  assumes "run_filters lib content fs results = (out, b)"
  shows "(b = None \<longleftrightarrow> (\<forall>f \<in> set fs. \<forall>r. filter_check lib f content = Some r \<longrightarrow> sr_verdict r \<noteq> SV_BLOCKED)) \<and>
    (\<exists>more. out = results @ more \<and>
       (\<forall>r \<in> set more. \<exists>f \<in> set fs. filter_check lib f content = Some r) \<and>
       (b = None \<longrightarrow> more = List.map_filter (\<lambda>f. filter_check lib f content) fs))"
  using assms
proof (induction fs arbitrary: results)
  case (Cons f fs)
  show ?case
  proof (cases "filter_check lib f content")
    case None
    then have "run_filters lib content fs results = (out, b)" using Cons.prems by (simp split: if_splits)
    from Cons.IH[OF this] None show ?thesis by (auto simp: List.map_filter_simps)
  next
    case (Some r)
    then have en: "sf_enabled f" by (auto simp: filter_check_def split: if_splits)
    show ?thesis
    proof (cases "sr_verdict r = SV_BLOCKED")
      case True
      then show ?thesis using Cons.prems Some en by auto
    next
      case False
      then have "run_filters lib content fs (results @ [r]) = (out, b)" using Cons.prems Some en by simp
      from Cons.IH[OF this] obtain more where "b = None \<longleftrightarrow> (\<forall>f \<in> set fs. \<forall>r. filter_check lib f content = Some r \<longrightarrow> sr_verdict r \<noteq> SV_BLOCKED)"
        "out = results @ r # more" "\<forall>r \<in> set more. \<exists>f \<in> set fs. filter_check lib f content = Some r"
        "b = None \<longrightarrow> more = List.map_filter (\<lambda>f. filter_check lib f content) fs" by auto
      then show ?thesis using Some False by (auto simp: List.map_filter_simps intro!: exI[of _ "r # more"])
    qed
  qed
qed (simp add: List.map_filter_simps)

text \<open>A text is blocked exactly when some filter that is on has a blocking pattern as its first match.\<close>

theorem blocked_iff:
  assumes "text = (if sc_normalize c \<and> content \<noteq> [] then sl_normalize lib content else content)"
  shows "cr_verdict (safety_evaluate lib c content) = SV_BLOCKED \<longleftrightarrow>
    (\<exists>f \<in> set (sc_filters c). \<exists>r. filter_check lib f text = Some r \<and> sr_verdict r = SV_BLOCKED)"
proof -
  obtain out b where r: "run_filters lib text (sc_filters c) [] = (out, b)" by fastforce
  from run_filters_spec[OF r] show ?thesis
    using r assms by (auto simp: safety_evaluate_def Let_def split: option.splits prod.splits if_splits)
qed

text \<open>Output that is refused is not handed on.\<close>

theorem refused_output_empty:
  "os_allowed (evaluate_output_safety lib content chain scan) \<or>
   os_content (evaluate_output_safety lib content chain scan) = []"
  by (simp add: evaluate_output_safety_def Let_def split: prod.splits option.splits)

end
