(* ===== verification/Guard_Chain.thy ===== *)
theory Guard_Chain
  imports Tenant_Gating Tenant_Budget Rate_Limit Content_Safety
begin

text \<open>
  \<open>mcoi_runtime/governance/guards/chain.py\<close>, the tenant gating guard of \<open>tenant_gating.py\<close>, the guards of
  \<open>content_safety.py\<close> and the standard chain of \<open>mcoi_runtime/app/middleware.py\<close>.

  A guard works on the request context, a dictionary it may change, and on the services it was built
  with, the world \<open>'w\<close>; it answers with a result or raises.  The authenticators, the access runtime
  and the temporal runtime that are injected into the guards are functions on the world.
\<close>

text \<open>Values of the context; a temporal action request is its fields.\<close>

datatype ctx_val = CStr string | CBool bool | CStrs "string list" | CAction "(string \<times> json) list" | COther json

type_synonym ctx = "(string, ctx_val) pydict"

record guard_result =
  gd_allowed :: bool
  gd_guard_name :: string
  gd_reason :: string
  gd_detail :: "(string \<times> json) list option"

text \<open>An exception: the name of its type and whether it is a \<open>TimeoutError\<close>.\<close>

type_synonym guard_exc = "string \<times> bool"

record 'w guard =
  gu_name :: string
  gu_check :: "ctx \<Rightarrow> 'w \<Rightarrow> (guard_exc + guard_result) \<times> ctx \<times> 'w"

record chain_result =
  ch_allowed :: bool
  ch_results :: "guard_result list"
  ch_blocking_guard :: string
  ch_reason :: string

definition classify_guard_exception :: "guard_exc \<Rightarrow> string" where
  "classify_guard_exception e =
     (if snd e then ''guard timeout ('' @ fst e @ '')'' else ''guard error ('' @ fst e @ '')'')"

definition looks_like_jwt_bearer :: "string \<Rightarrow> bool" where
  "looks_like_jwt_bearer token \<longleftrightarrow>
     (let parts = py_split CHR ''.'' token in length parts = 3 \<and> list_all (\<lambda>p. p \<noteq> []) parts)"

definition guard_pass :: "string \<Rightarrow> guard_result" where
  "guard_pass name = \<lparr>gd_allowed = True, gd_guard_name = name, gd_reason = [], gd_detail = None\<rparr>"

definition guard_deny :: "string \<Rightarrow> string \<Rightarrow> guard_result" where
  "guard_deny name reason =
     \<lparr>gd_allowed = False, gd_guard_name = name, gd_reason = reason, gd_detail = None\<rparr>"

text \<open>\<open>GovernanceGuard.check\<close>: an exception is a denial.\<close>

definition guard_check :: "'w guard \<Rightarrow> ctx \<Rightarrow> 'w \<Rightarrow> guard_result \<times> ctx \<times> 'w" where
  "guard_check g ctx w =
     (case gu_check g ctx w of
        (Inr r, ctx, w) \<Rightarrow> (r, ctx, w)
      | (Inl e, ctx, w) \<Rightarrow>
          (\<lparr>gd_allowed = False, gd_guard_name = gu_name g, gd_reason = classify_guard_exception e,
            gd_detail = Some [(''error_type'', JStr (fst e))]\<rparr>, ctx, w))"

section \<open>The chain\<close>

definition AUTH_GUARD_NAMES :: "string list" where
  "AUTH_GUARD_NAMES = [''api_key'', ''jwt'']"

definition FROZEN_KEYS :: "string list" where
  "FROZEN_KEYS = [''tenant_id'', ''authenticated_subject'', ''authenticated_key_id'', ''authenticated_tenant_id'']"

text \<open>The variables of the loop of \<open>evaluate\<close>; \<open>cs_block\<close> holds the result that stopped it.\<close>

record 'w chain_state =
  cs_results :: "guard_result list"
  cs_auth_complete :: bool
  cs_frozen :: ctx
  cs_ctx :: ctx
  cs_world :: 'w
  cs_block :: "(string \<times> string) option"

definition snapshot :: "ctx \<Rightarrow> ctx \<Rightarrow> ctx" where
  "snapshot ctx frozen = fold (\<lambda>key fr. case dict_get ctx key of None \<Rightarrow> fr
     | Some v \<Rightarrow> dict_set key v fr) FROZEN_KEYS frozen"

definition restore :: "ctx \<Rightarrow> ctx \<Rightarrow> ctx" where
  "restore frozen ctx = fold (\<lambda>(key, v) c. if dict_get c key \<noteq> Some v then dict_set key v c else c) frozen ctx"

definition chain_step :: "'w guard \<Rightarrow> 'w chain_state \<Rightarrow> 'w chain_state" where
  "chain_step g s =
     (if cs_block s \<noteq> None then s
      else
        let complete = (cs_auth_complete s \<or> gu_name g \<notin> set AUTH_GUARD_NAMES \<and> cs_frozen s \<noteq> []);
            (result, ctx, w) = guard_check g (cs_ctx s) (cs_world s);
            frozen = (if gu_name g \<in> set AUTH_GUARD_NAMES \<and> \<not> complete
                      then snapshot ctx (cs_frozen s) else cs_frozen s);
            ctx = (if complete then restore frozen ctx else ctx)
        in \<lparr>cs_results = cs_results s @ [result], cs_auth_complete = complete, cs_frozen = frozen,
            cs_ctx = ctx, cs_world = w,
            cs_block = (if gd_allowed result then None else Some (gu_name g, gd_reason result))\<rparr>)"

definition chain_start :: "ctx \<Rightarrow> 'w \<Rightarrow> 'w chain_state" where
  "chain_start ctx w = \<lparr>cs_results = [], cs_auth_complete = False, cs_frozen = [], cs_ctx = ctx,
     cs_world = w, cs_block = None\<rparr>"

definition run_guards :: "'w guard list \<Rightarrow> 'w chain_state \<Rightarrow> 'w chain_state" where
  "run_guards gs s = fold chain_step gs s"

definition chain_evaluate :: "'w guard list \<Rightarrow> ctx \<Rightarrow> 'w \<Rightarrow> chain_result \<times> ctx \<times> 'w" where
  "chain_evaluate gs ctx w =
     (let s = run_guards gs (chain_start ctx w)
      in (case cs_block s of
            None \<Rightarrow> \<lparr>ch_allowed = True, ch_results = cs_results s, ch_blocking_guard = [], ch_reason = []\<rparr>
          | Some (name, reason) \<Rightarrow> \<lparr>ch_allowed = False, ch_results = cs_results s,
              ch_blocking_guard = name, ch_reason = reason\<rparr>,
          cs_ctx s, cs_world s))"

text \<open>\<open>list.insert\<close> for a non-negative index.\<close>

definition chain_insert :: "nat \<Rightarrow> 'w guard \<Rightarrow> 'w guard list \<Rightarrow> 'w guard list" where
  "chain_insert i g gs = take i gs @ [g] @ drop i gs"

definition chain_add :: "'w guard \<Rightarrow> 'w guard list \<Rightarrow> 'w guard list" where
  "chain_add g gs = gs @ [g]"

section \<open>The guards\<close>

text \<open>\<open>ctx.get(key, default)\<close> for a key whose values are strings.\<close>

definition ctx_str :: "ctx \<Rightarrow> string \<Rightarrow> string \<Rightarrow> string" where
  "ctx_str ctx key d = (case dict_get ctx key of Some (CStr s) \<Rightarrow> s | _ \<Rightarrow> d)"

definition ctx_true :: "ctx \<Rightarrow> string \<Rightarrow> bool" where
  "ctx_true ctx key \<longleftrightarrow> dict_get ctx key = Some (CBool True)"

definition ctx_identity :: "ctx \<Rightarrow> string" where
  "ctx_identity ctx = str_or (ctx_str ctx ''authenticated_subject'' []) (ctx_str ctx ''authenticated_key_id'' [])"

text \<open>The services the standard guards use.\<close>

record guard_world =
  gw_registry :: registry
  gw_gating :: mem_gating
  gw_budget :: budget_mgr
  gw_limiter :: rate_limiter
  gw_rl_store :: rl_store

definition tenant_gating_guard :: "guard_world guard" where
  "tenant_gating_guard = \<lparr>gu_name = ''tenant_gating'', gu_check = (\<lambda>ctx w.
     let tenant_id = ctx_str ctx ''tenant_id'' []
     in if tenant_id = [] \<or> tenant_id = ''system'' then (Inr (guard_pass ''tenant_gating''), ctx, w)
        else case denial_reason (Some mem_gating_ops) (gw_gating w) (gw_registry w) tenant_id of
               (Some reason, r) \<Rightarrow>
                 (Inr (guard_deny ''tenant_gating'' reason), ctx, w\<lparr>gw_registry := r\<rparr>)
             | (None, r) \<Rightarrow> (Inr (guard_pass ''tenant_gating''), ctx, w\<lparr>gw_registry := r\<rparr>))\<rparr>"

text \<open>An exception of the limiter by the name of its type.\<close>

fun exc_name :: "py_error \<Rightarrow> string" where
  "exc_name (ValueError _) = ''ValueError''"
| "exc_name (KeyError _) = ''KeyError''"
| "exc_name (TypeError _) = ''TypeError''"
| "exc_name (AttributeError _) = ''AttributeError''"
| "exc_name (PermissionError _) = ''PermissionError''"
| "exc_name InvalidOperation = ''InvalidOperation''"
| "exc_name ZeroDivisionError = ''ZeroDivisionError''"
| "exc_name OverflowError = ''OverflowError''"
| "exc_name (RuntimeCoreInvariantError _) = ''RuntimeCoreInvariantError''"
| "exc_name (DuplicateRuntimeIdentifierError _) = ''DuplicateRuntimeIdentifierError''"

definition rate_limit_guard ::
  "store_kind \<Rightarrow> pfloat \<times> pfloat \<Rightarrow> pfloat \<times> pfloat \<Rightarrow> guard_world guard" where
  "rate_limit_guard kind now now' = \<lparr>gu_name = ''rate_limit'', gu_check = (\<lambda>ctx w.
     case rl_check kind (gw_limiter w) (gw_rl_store w) now now' (ctx_str ctx ''tenant_id'' ''system'')
            (ctx_str ctx ''endpoint'' ''/unknown'') 1 (ctx_identity ctx) of
       (Inl e, l, st) \<Rightarrow> (Inl (exc_name e, False), ctx, w\<lparr>gw_limiter := l, gw_rl_store := st\<rparr>)
     | (Inr result, l, st) \<Rightarrow>
         (Inr (if rr_allowed result then guard_pass ''rate_limit''
               else guard_deny ''rate_limit'' ''rate limited''),
          ctx, w\<lparr>gw_limiter := l, gw_rl_store := st\<rparr>))\<rparr>"

definition budget_guard :: "bool \<Rightarrow> guard_world guard" where
  "budget_guard require_tenant = \<lparr>gu_name = ''budget'', gu_check = (\<lambda>ctx w.
     let tenant_id = ctx_str ctx ''tenant_id'' []
     in if tenant_id = []
        then (Inr (if require_tenant then guard_deny ''budget'' ''tenant_id is required''
                   else guard_pass ''budget''), ctx, w)
        else let report = budget_report (gw_budget w) tenant_id
             in (Inr (if br_exhausted report then guard_deny ''budget'' ''budget exhausted''
                      else if \<not> br_enabled report then guard_deny ''budget'' ''tenant disabled''
                      else guard_pass ''budget''), ctx, w))\<rparr>"

definition tenant_guard :: "'w guard" where
  "tenant_guard = \<lparr>gu_name = ''tenant'', gu_check = (\<lambda>ctx w.
     (Inr (if 128 < length (ctx_str ctx ''tenant_id'' [])
           then guard_deny ''tenant'' ''tenant_id exceeds 128 characters''
           else guard_pass ''tenant''), ctx, w))\<rparr>"

text \<open>What an authenticator answers; \<open>ar_subject\<close> is the key identifier of an API key.\<close>

record auth_result =
  ar_authenticated :: bool
  ar_tenant_id :: string
  ar_subject :: string
  ar_scopes :: "string list"
  ar_error :: string

type_synonym 'w authenticator = "string \<Rightarrow> 'w \<Rightarrow> (guard_exc + auth_result) \<times> 'w"

text \<open>The binding of the tenant, the same in both authentication guards.\<close>

definition tenant_mismatch :: "bool \<Rightarrow> ctx \<Rightarrow> auth_result \<Rightarrow> bool" where
  "tenant_mismatch require_auth ctx r \<longleftrightarrow>
     (let request_tenant = ctx_str ctx ''tenant_id'' []
      in ar_tenant_id r \<noteq> [] \<and> request_tenant \<noteq> [] \<and> request_tenant \<noteq> ar_tenant_id r \<and>
         (require_auth \<or> ctx_true ctx ''tenant_id_explicit''))"

definition bind_tenant :: "ctx \<Rightarrow> auth_result \<Rightarrow> ctx" where
  "bind_tenant ctx r =
     (if ar_tenant_id r \<noteq> [] then dict_set ''tenant_id'' (CStr (ar_tenant_id r)) ctx else ctx)"

definition jwt_guard :: "'w authenticator \<Rightarrow> bool \<Rightarrow> 'w guard" where
  "jwt_guard validate require_auth = \<lparr>gu_name = ''jwt'', gu_check = (\<lambda>ctx w.
     let auth_header = ctx_str ctx ''authorization'' []
     in if auth_header = []
        then (Inr (if require_auth then guard_deny ''jwt'' ''missing Authorization header''
                   else guard_pass ''jwt''), ctx, w)
        else
          let token = py_strip (py_removeprefix ''Bearer '' auth_header)
          in if token = [] \<or> token = auth_header then (Inr (guard_pass ''jwt''), ctx, w)
             else case validate token w of
                    (Inl e, w) \<Rightarrow> (Inl e, ctx, w)
                  | (Inr r, w) \<Rightarrow>
                      if \<not> ar_authenticated r
                      then (Inr (guard_deny ''jwt'' (str_or (ar_error r) ''JWT authentication failed'')), ctx, w)
                      else if tenant_mismatch require_auth ctx r
                      then (Inr (guard_deny ''jwt'' ''tenant mismatch''), ctx, w)
                      else (Inr (guard_pass ''jwt''),
                            dict_set ''jwt_scopes'' (CStrs (ar_scopes r))
                              (dict_set ''authenticated_tenant_id'' (CStr (ar_tenant_id r))
                                (dict_set ''authenticated_subject'' (CStr (ar_subject r))
                                  (bind_tenant ctx r))), w))\<rparr>"

definition api_key_guard :: "'w authenticator \<Rightarrow> bool \<Rightarrow> bool \<Rightarrow> 'w guard" where
  "api_key_guard authenticate require_auth allow_jwt_passthrough = \<lparr>gu_name = ''api_key'', gu_check = (\<lambda>ctx w.
     let auth_header = ctx_str ctx ''authorization'' []
     in if auth_header = []
        then (Inr (if require_auth then guard_deny ''api_key'' ''missing Authorization header''
                   else guard_pass ''api_key''), ctx, w)
        else
          let token = py_strip (py_removeprefix ''Bearer '' auth_header)
          in if token = []
             then (Inr (if require_auth then guard_deny ''api_key'' ''missing bearer token''
                        else guard_pass ''api_key''), ctx, w)
             else if allow_jwt_passthrough \<and> looks_like_jwt_bearer token
             then (Inr (guard_pass ''api_key''), ctx, w)
             else case authenticate token w of
                    (Inl e, w) \<Rightarrow> (Inl e, ctx, w)
                  | (Inr r, w) \<Rightarrow>
                      if \<not> ar_authenticated r
                      then (Inr (guard_deny ''api_key'' (str_or (ar_error r) ''Authentication failed'')), ctx, w)
                      else if tenant_mismatch require_auth ctx r
                      then (Inr (guard_deny ''api_key'' ''tenant mismatch''), ctx, w)
                      else (Inr (guard_pass ''api_key''),
                            dict_set ''authenticated_tenant_id'' (CStr (ar_tenant_id r))
                              (dict_set ''authenticated_key_id'' (CStr (ar_subject r))
                                (bind_tenant ctx r)), w))\<rparr>"

datatype access_decision =
  AccessAllowed | AccessDenied | AccessRequiresApproval | AccessExpired | AccessViolation

text \<open>The access runtime: request id, identity, resource type, action and scope.\<close>

type_synonym 'w access_fn =
  "string \<Rightarrow> string \<Rightarrow> string \<Rightarrow> string \<Rightarrow> string \<Rightarrow> 'w \<Rightarrow> (guard_exc + access_decision) \<times> 'w"

definition rbac_resource_type :: "string \<Rightarrow> string" where
  "rbac_resource_type endpoint =
     (let parts = py_split CHR ''/'' (py_strip_char CHR ''/'' endpoint)
      in if 2 < length parts then parts ! 2 else ''api'')"

definition rbac_guard :: "'w access_fn \<Rightarrow> bool \<Rightarrow> 'w guard" where
  "rbac_guard evaluate_access require_identity = \<lparr>gu_name = ''rbac'', gu_check = (\<lambda>ctx w.
     let identity_id = ctx_identity ctx
     in if identity_id = []
        then (Inr (if require_identity
                   then guard_deny ''rbac'' ''no authenticated identity for RBAC evaluation''
                   else guard_pass ''rbac''), ctx, w)
        else
          let endpoint = ctx_str ctx ''endpoint'' ''/unknown'';
              method = ctx_str ctx ''method'' ''GET'';
              resource_type = rbac_resource_type endpoint;
              request_id = ''rbac-'' @ take 12 (sha256_hex (py_join '':'' [identity_id, endpoint, method]))
          in case evaluate_access request_id identity_id resource_type method
                    (ctx_str ctx ''tenant_id'' ''*'') w of
               (Inl e, w) \<Rightarrow> (Inr (guard_deny ''rbac'' ''RBAC evaluation failed''), ctx, w)
             | (Inr decision, w) \<Rightarrow>
                 if decision = AccessDenied then (Inr (guard_deny ''rbac'' ''access denied''), ctx, w)
                 else if decision = AccessRequiresApproval
                 then (Inr (guard_deny ''rbac'' ''approval required''), ctx, w)
                 else (Inr (guard_pass ''rbac''),
                       dict_set ''rbac_resource_type'' (CStr resource_type)
                         (dict_set ''rbac_identity_id'' (CStr identity_id) ctx), w))\<rparr>"

section \<open>Content safety and temporal policy\<close>

definition CONTENT_SAFETY_TEXT_FIELDS :: "string list" where
  "CONTENT_SAFETY_TEXT_FIELDS = [''prompt'', ''content'', ''query'', ''goal'', ''initial_input'', ''message'',
     ''system_prompt'', ''text'', ''proposed_goal'']"

definition collect_safety_scan_text :: "ctx \<Rightarrow> string" where
  "collect_safety_scan_text ctx = py_join [CHR 0x0A]
     (filter (\<lambda>t. t \<noteq> []) (map (\<lambda>field_name. ctx_str ctx field_name []) CONTENT_SAFETY_TEXT_FIELDS))"

definition content_safety_guard :: "safety_lib \<Rightarrow> safety_chain \<Rightarrow> 'w guard" where
  "content_safety_guard lib chain = \<lparr>gu_name = ''content_safety'', gu_check = (\<lambda>ctx w.
     let content = collect_safety_scan_text ctx
     in if content = [] then (Inr (guard_pass ''content_safety''), ctx, w)
        else let result = safety_evaluate lib chain content
             in if cr_verdict result = SV_BLOCKED
                then (Inr (guard_deny ''content_safety'' ''content blocked''), ctx, w)
                else (Inr (guard_pass ''content_safety''),
                      (if cr_verdict result = SV_FLAGGED
                       then dict_set ''content_safety_flags'' (COther (JArr (result_flags (cr_filter_results result)))) ctx
                       else ctx), w))\<rparr>"

definition input_safety_guard :: "safety_lib \<Rightarrow> safety_chain \<Rightarrow> 'w guard" where
  "input_safety_guard lib chain = \<lparr>gu_name = LAMBDA_INPUT_SAFETY, gu_check = (\<lambda>ctx w.
     let content = collect_safety_scan_text ctx
     in if content = [] then (Inr (guard_pass LAMBDA_INPUT_SAFETY), ctx, w)
        else let result = safety_evaluate lib chain content
             in if cr_verdict result = SV_BLOCKED
                then (Inr ((guard_deny LAMBDA_INPUT_SAFETY ''input safety blocked'')\<lparr>gd_detail := Some
                        [(''category'', JStr (if cr_filter_results result = [] then []
                                              else tc_value (sr_category (last (cr_filter_results result))))),
                         (''blocking_filter'', JStr (cr_blocking_filter result))]\<rparr>), ctx, w)
                else (Inr (guard_pass LAMBDA_INPUT_SAFETY),
                      (if cr_verdict result = SV_FLAGGED
                       then dict_set ''input_safety_stage'' (CStr LAMBDA_INPUT_SAFETY)
                              (dict_set ''content_safety_flags'' (COther (JArr (result_flags (cr_filter_results result)))) ctx)
                       else ctx), w))\<rparr>"

definition output_safety_guard ::
  "safety_lib \<Rightarrow> safety_chain option \<Rightarrow> (string \<Rightarrow> string \<times> bool) option \<Rightarrow> 'w guard" where
  "output_safety_guard lib chain pii_scanner = \<lparr>gu_name = LAMBDA_OUTPUT_SAFETY, gu_check = (\<lambda>ctx w.
     let content = ctx_str ctx ''output'' []
     in if content = [] then (Inr (guard_pass LAMBDA_OUTPUT_SAFETY), ctx, w)
        else let result = evaluate_output_safety lib content chain pii_scanner
             in (Inr (if os_allowed result then guard_pass LAMBDA_OUTPUT_SAFETY
                      else guard_deny LAMBDA_OUTPUT_SAFETY (os_reason result)),
                 dict_set ''output'' (CStr (os_content result))
                   (dict_set ''output_safety_flags'' (COther (JArr (os_flags result)))
                     (dict_set ''output_safety_stage'' (CStr LAMBDA_OUTPUT_SAFETY) ctx)), w))\<rparr>"

datatype temporal_verdict = TP_ALLOW | TP_DENY | TP_DEFER | TP_ESCALATE

fun tp_value :: "temporal_verdict \<Rightarrow> string" where
  "tp_value TP_ALLOW = ''allow''"
| "tp_value TP_DENY = ''deny''"
| "tp_value TP_DEFER = ''defer''"
| "tp_value TP_ESCALATE = ''escalate''"

text \<open>What the guard reads of the decision of the temporal runtime.\<close>

record temporal_decision =
  td_decision_id :: string
  td_verdict :: temporal_verdict
  td_reason :: string

type_synonym 'w temporal_fn = "(string \<times> json) list \<Rightarrow> 'w \<Rightarrow> (guard_exc + temporal_decision) \<times> 'w"

definition temporal_guard :: "'w temporal_fn \<Rightarrow> 'w guard" where
  "temporal_guard decide_temporal_action = \<lparr>gu_name = ''temporal'', gu_check = (\<lambda>ctx w.
     case dict_get ctx ''temporal_action'' of
       None \<Rightarrow> (Inr (guard_pass ''temporal''), ctx, w)
     | Some (COther JNull) \<Rightarrow> (Inr (guard_pass ''temporal''), ctx, w)
     | Some (CAction action) \<Rightarrow>
         (case decide_temporal_action action w of
            (Inl e, w) \<Rightarrow> (Inl e, ctx, w)
          | (Inr decision, w) \<Rightarrow>
              (Inr \<lparr>gd_allowed = (td_verdict decision = TP_ALLOW), gd_guard_name = ''temporal'',
                    gd_reason = td_reason decision,
                    gd_detail = Some [(''decision_id'', JStr (td_decision_id decision)),
                                      (''verdict'', JStr (tp_value (td_verdict decision)))]\<rparr>,
               dict_set ''temporal_policy_verdict'' (CStr (tp_value (td_verdict decision)))
                 (dict_set ''temporal_decision_id'' (CStr (td_decision_id decision)) ctx), w))
     | Some _ \<Rightarrow> (Inr (guard_deny ''temporal'' ''invalid temporal action''), ctx, w))\<rparr>"

text \<open>The standard chain; an optional service that is absent leaves its guard out.\<close>

definition opt_guard :: "'a option \<Rightarrow> ('a \<Rightarrow> 'w guard) \<Rightarrow> 'w guard list" where
  "opt_guard x f = (case x of None \<Rightarrow> [] | Some a \<Rightarrow> [f a])"

definition build_guard_chain ::
  "store_kind \<Rightarrow> pfloat \<times> pfloat \<Rightarrow> pfloat \<times> pfloat \<Rightarrow> guard_world authenticator option
    \<Rightarrow> guard_world authenticator option \<Rightarrow> bool \<Rightarrow> guard_world access_fn option
    \<Rightarrow> (safety_lib \<times> safety_chain) option \<Rightarrow> guard_world temporal_fn option \<Rightarrow> guard_world guard list" where
  "build_guard_chain kind now now' api_key_mgr jwt_authenticator has_registry access_runtime
     content_safety_chain temporal_runtime =
     opt_guard api_key_mgr (\<lambda>f. api_key_guard f False False) @
     opt_guard jwt_authenticator (\<lambda>f. jwt_guard f False) @
     [tenant_guard] @
     (if has_registry then [tenant_gating_guard] else []) @
     opt_guard access_runtime (\<lambda>f. rbac_guard f False) @
     opt_guard content_safety_chain (\<lambda>(lib, c). input_safety_guard lib c) @
     opt_guard temporal_runtime temporal_guard @
     [rate_limit_guard kind now now', budget_guard False]"


section \<open>The chain, guard by guard\<close>

lemma run_guards_simps [simp]:
  "run_guards [] s = s" "run_guards (g # gs) s = run_guards gs (chain_step g s)"
  "run_guards (gs @ hs) s = run_guards hs (run_guards gs s)"
  by (simp_all add: run_guards_def)

lemma step_blocked [simp]: "cs_block s \<noteq> None \<Longrightarrow> chain_step g s = s"
  by (simp add: chain_step_def)

text \<open>The step of an open chain, with the guard's answer named.\<close>

lemma chain_step_open:
  assumes "cs_block s = None" "guard_check g (cs_ctx s) (cs_world s) = (r, c, w')"
    and "done_auth \<longleftrightarrow> cs_auth_complete s \<or> gu_name g \<notin> set AUTH_GUARD_NAMES \<and> cs_frozen s \<noteq> []"
    and "fr = (if gu_name g \<in> set AUTH_GUARD_NAMES \<and> \<not> done_auth then snapshot c (cs_frozen s) else cs_frozen s)"
  shows "chain_step g s = \<lparr>cs_results = cs_results s @ [r], cs_auth_complete = done_auth, cs_frozen = fr,
      cs_ctx = (if done_auth then restore fr c else c), cs_world = w',
      cs_block = (if gd_allowed r then None else Some (gu_name g, gd_reason r))\<rparr>"
  unfolding chain_step_def assms(3,4) by (simp add: assms(1,2) Let_def)

lemma run_blocked: "cs_block s \<noteq> None \<Longrightarrow> run_guards gs s = s"
  by (induction gs) simp_all

lemma run_unblocked: "cs_block (run_guards gs s) = None \<Longrightarrow> cs_block s = None"
  using run_blocked[of s gs] by (cases "cs_block s") auto

text \<open>The results seen so far: all passed, but for the last one of a blocked chain.\<close>

definition chain_log :: "'w guard list \<Rightarrow> 'w chain_state \<Rightarrow> bool" where
  "chain_log gs s \<longleftrightarrow>
     (case cs_block s of
        None \<Rightarrow> length (cs_results s) = length gs \<and> list_all gd_allowed (cs_results s)
      | Some (name, reason) \<Rightarrow>
          (\<exists>before r. cs_results s = before @ [r] \<and> list_all gd_allowed before \<and> \<not> gd_allowed r \<and>
             gd_reason r = reason \<and> length before < length gs \<and> gu_name (gs ! length before) = name))"

lemma chain_log_run: "chain_log gs (run_guards gs (chain_start ctx w))"
proof (induction gs rule: rev_induct)
  case Nil
  show ?case by (simp add: chain_log_def chain_start_def)
next
  case (snoc g gs)
  let ?s = "run_guards gs (chain_start ctx w)"
  show ?case
  proof (cases "cs_block ?s")
    case None
    obtain r c w' where "guard_check g (cs_ctx ?s) (cs_world ?s) = (r, c, w')" by (metis prod_cases3)
    with None snoc show ?thesis
      by (cases "gd_allowed r") (auto simp: chain_log_def chain_step_def Let_def nth_append)
  next
    case (Some b)
    with snoc show ?thesis by (auto simp: chain_log_def nth_append split: prod.splits)
  qed
qed

lemma guard_check_exc:
  "gu_check g ctx w = (Inl e, c, w') \<Longrightarrow> \<not> gd_allowed (fst (guard_check g ctx w))"
  by (simp add: guard_check_def)

text \<open>
  C8: The chain admits a request exactly when every guard ran and passed.  Otherwise all guards before
  the blocking one passed, the blocking one is the last that ran and its name and reason are reported,
  and the guards behind it have no part in the outcome, the context or the services.
\<close>

theorem chain_first_failure:
  assumes "chain_evaluate gs ctx w = (res, ctx', w')"
  shows "(ch_allowed res \<longleftrightarrow> length (ch_results res) = length gs \<and> list_all gd_allowed (ch_results res)) \<and>
    (\<not> ch_allowed res \<longrightarrow>
       (\<exists>before r. ch_results res = before @ [r] \<and> list_all gd_allowed before \<and> \<not> gd_allowed r \<and>
          ch_reason res = gd_reason r \<and> length before < length gs \<and>
          ch_blocking_guard res = gu_name (gs ! length before)) \<and>
       chain_evaluate (gs @ behind) ctx w = (res, ctx', w'))"
proof (cases "cs_block (run_guards gs (chain_start ctx w))")
  case None
  with assms chain_log_run[of gs ctx w] show ?thesis
    by (auto simp: chain_evaluate_def chain_log_def Let_def)
next
  case (Some b)
  obtain name reason where b: "b = (name, reason)" by (cases b)
  have blocked: "cs_block (run_guards gs (chain_start ctx w)) \<noteq> None" by (simp add: Some)
  from assms chain_log_run[of gs ctx w] run_blocked[OF blocked, of behind] show ?thesis
    by (auto simp: chain_evaluate_def chain_log_def Let_def Some b)
qed

section \<open>The authenticated binding\<close>

lemma snapshot_fold:
  fixes c fr :: ctx
  defines "put key f \<equiv> (case dict_get c key of None \<Rightarrow> f | Some v \<Rightarrow> dict_set key v f)"
  shows "wf_dict fr \<Longrightarrow> wf_dict (fold put ks fr)"
    and "dict_get (fold put ks fr) k =
      (if k \<in> set ks \<and> dict_get c k \<noteq> None then dict_get c k else dict_get fr k)"
  by (induction ks arbitrary: fr) (auto simp: put_def split: option.splits if_splits)

lemma snapshot_get:
  "dict_get (snapshot ctx fr) k =
     (if k \<in> set FROZEN_KEYS \<and> dict_get ctx k \<noteq> None then dict_get ctx k else dict_get fr k)"
  unfolding snapshot_def by (rule snapshot_fold(2))

lemma wf_snapshot [simp]: "wf_dict fr \<Longrightarrow> wf_dict (snapshot ctx fr)"
  unfolding snapshot_def by (rule snapshot_fold(1))

lemma restore_get:
  "wf_dict fr \<Longrightarrow> dict_get (restore fr c) k = (case dict_get fr k of None \<Rightarrow> dict_get c k | Some v \<Rightarrow> Some v)"
proof (induction fr arbitrary: c)
  case Nil
  then show ?case by (simp add: restore_def)
next
  case (Cons p fr)
  obtain a b where p: "p = (a, b)" by (cases p)
  from Cons(2) have wf: "wf_dict fr" and new: "dict_get fr a = None"
    by (auto simp: wf_dict_def p map_of_eq_None_iff)
  have step: "restore (p # fr) c = restore fr (if dict_get c a \<noteq> Some b then dict_set a b c else c)"
    by (simp add: restore_def p)
  show ?case unfolding step Cons(1)[OF wf] using new by (auto simp: p split: option.splits)
qed

text \<open>What was snapshotted is what the context holds.\<close>

definition bound :: "'w chain_state \<Rightarrow> bool" where
  "bound s \<longleftrightarrow> wf_dict (cs_frozen s) \<and>
     (\<forall>k v. dict_get (cs_frozen s) k = Some v \<longrightarrow> k \<in> set FROZEN_KEYS \<and> dict_get (cs_ctx s) k = Some v)"

definition keeps_keys :: "'w guard \<Rightarrow> bool" where
  "keeps_keys g \<longleftrightarrow> (\<forall>c w k. dict_get c k \<noteq> None \<longrightarrow> dict_get (fst (snd (guard_check g c w))) k \<noteq> None)"

lemma bound_start [simp]: "bound (chain_start ctx w)"
  by (simp add: bound_def chain_start_def)

lemma bound_step:
  assumes "bound s" and "gu_name g \<in> set AUTH_GUARD_NAMES \<Longrightarrow> keeps_keys g"
  shows "bound (chain_step g s)"
proof (cases "cs_block s = None")
  case True
  obtain r c w' where gc: "guard_check g (cs_ctx s) (cs_world s) = (r, c, w')" by (metis prod_cases3)
  note step = chain_step_open[OF True gc refl refl]
  from assms(1) have wf: "wf_dict (cs_frozen s)"
    and ag: "\<And>k v. dict_get (cs_frozen s) k = Some v \<Longrightarrow> k \<in> set FROZEN_KEYS \<and> dict_get (cs_ctx s) k = Some v"
    by (auto simp: bound_def)
  consider "cs_auth_complete s \<or> gu_name g \<notin> set AUTH_GUARD_NAMES \<and> cs_frozen s \<noteq> []"
    | "\<not> cs_auth_complete s" "gu_name g \<in> set AUTH_GUARD_NAMES"
    | "\<not> cs_auth_complete s" "gu_name g \<notin> set AUTH_GUARD_NAMES" "cs_frozen s = []" by blast
  then show ?thesis
  proof cases
    case 1
    with wf ag show ?thesis by (auto simp: bound_def step restore_get)
  next
    case 2
    have keep: "dict_get c k \<noteq> None" if "dict_get (cs_frozen s) k = Some v" for k v
      using assms(2)[OF 2(2)] ag[OF that] gc unfolding keeps_keys_def
      by (metis fst_conv option.distinct(1) snd_conv)
    have "k \<in> set FROZEN_KEYS \<and> dict_get c k = Some v"
      if "dict_get (snapshot c (cs_frozen s)) k = Some v" for k v
      using that keep[of k] ag[of k] by (auto simp: snapshot_get split: if_splits)
    with wf 2 show ?thesis by (simp add: bound_def step)
  next
    case 3
    then show ?thesis by (simp add: bound_def step)
  qed
qed (simp add: assms(1))

lemma bound_run:
  "bound s \<Longrightarrow> \<forall>g \<in> set gs. gu_name g \<in> set AUTH_GUARD_NAMES \<longrightarrow> keeps_keys g \<Longrightarrow> bound (run_guards gs s)"
  by (induction gs arbitrary: s) (simp_all add: bound_step)

text \<open>Once the phase is over, the snapshot stands whatever the guards do.\<close>

definition sealed :: "string \<Rightarrow> ctx_val \<Rightarrow> 'w chain_state \<Rightarrow> bool" where
  "sealed k v s \<longleftrightarrow> cs_auth_complete s \<and> wf_dict (cs_frozen s) \<and> dict_get (cs_frozen s) k = Some v \<and>
     dict_get (cs_ctx s) k = Some v"

lemma sealed_step:
  assumes "sealed k v s"
  shows "sealed k v (chain_step g s)"
proof (cases "cs_block s = None")
  case True
  obtain r c w' where gc: "guard_check g (cs_ctx s) (cs_world s) = (r, c, w')" by (metis prod_cases3)
  from assms show ?thesis
    by (simp add: sealed_def chain_step_open[OF True gc refl refl] restore_get)
qed (simp add: assms)

lemma sealed_run: "sealed k v s \<Longrightarrow> sealed k v (run_guards gs s)"
  by (induction gs arbitrary: s) (simp_all add: sealed_step)

lemma wf_frozen_run: "wf_dict (cs_frozen s) \<Longrightarrow> wf_dict (cs_frozen (run_guards gs s))"
proof (induction gs arbitrary: s)
  case (Cons g gs)
  have "wf_dict (cs_frozen (chain_step g s))"
  proof (cases "cs_block s = None")
    case True
    obtain r c w' where gc: "guard_check g (cs_ctx s) (cs_world s) = (r, c, w')" by (metis prod_cases3)
    from Cons(2) show ?thesis by (simp add: chain_step_open[OF True gc refl refl])
  qed (simp add: Cons(2))
  from Cons(1)[OF this] show ?case by simp
qed simp

lemma auth_snapshot:
  assumes "gs \<noteq> []" "\<forall>g \<in> set gs. gu_name g \<in> set AUTH_GUARD_NAMES"
    and "k \<in> set FROZEN_KEYS" and "dict_get (cs_ctx (run_guards gs (chain_start ctx w))) k = Some v"
  shows "dict_get (cs_frozen (run_guards gs (chain_start ctx w))) k = Some v"
proof -
  have inv: "\<not> cs_auth_complete (run_guards gs s) \<and>
      (gs \<noteq> [] \<longrightarrow> (\<forall>v. dict_get (cs_ctx (run_guards gs s)) k = Some v \<longrightarrow>
         dict_get (cs_frozen (run_guards gs s)) k = Some v))"
    if "\<not> cs_auth_complete s" "cs_block s = None" "\<forall>g \<in> set gs. gu_name g \<in> set AUTH_GUARD_NAMES"
    for gs and s :: "'a chain_state"
    using that
  proof (induction gs rule: rev_induct)
    case (snoc g gs)
    let ?s = "run_guards gs s"
    from snoc have ih: "\<not> cs_auth_complete ?s" "gu_name g \<in> set AUTH_GUARD_NAMES"
      "gs \<noteq> [] \<Longrightarrow> \<forall>v. dict_get (cs_ctx ?s) k = Some v \<longrightarrow> dict_get (cs_frozen ?s) k = Some v" by auto
    show ?case
    proof (cases "cs_block ?s = None")
      case True
      obtain r c w' where gc: "guard_check g (cs_ctx ?s) (cs_world ?s) = (r, c, w')" by (metis prod_cases3)
      from ih(1,2) assms(3) show ?thesis by (simp add: chain_step_open[OF True gc refl refl] snapshot_get)
    next
      case False
      with snoc(3) have "gs \<noteq> []" by auto
      with ih False show ?thesis by simp
    qed
  qed simp
  from inv[of "chain_start ctx w" gs] assms show ?thesis by (simp add: chain_start_def)
qed

text \<open>
  C9: After the authentication guards the tenant and the identity they bound hold for the rest of the
  chain: whatever the remaining guards write, whatever they answer, a bound key that is in the context
  at the end of the authentication has its value in the final context, and in the context that every
  guard behind the first one is given, as the rest of the chain may be any list.
\<close>

theorem auth_binding_frozen:
  assumes "auth \<noteq> []" "\<forall>g \<in> set auth. gu_name g \<in> set AUTH_GUARD_NAMES"
    and "gu_name h \<notin> set AUTH_GUARD_NAMES"
    and "k \<in> set FROZEN_KEYS" "dict_get (fst (snd (chain_evaluate auth ctx w))) k = Some v"
  shows "dict_get (fst (snd (chain_evaluate (auth @ h # rest) ctx w))) k = Some v"
proof -
  let ?s = "run_guards auth (chain_start ctx w)"
  from assms(5) have get: "dict_get (cs_ctx ?s) k = Some v" by (simp add: chain_evaluate_def Let_def)
  from auth_snapshot[OF assms(1,2,4) this] have fr: "dict_get (cs_frozen ?s) k = Some v" .
  have wf: "wf_dict (cs_frozen ?s)" by (rule wf_frozen_run) (simp add: chain_start_def)
  show ?thesis
  proof (cases "cs_block ?s = None")
    case True
    obtain r c w' where gc: "guard_check h (cs_ctx ?s) (cs_world ?s) = (r, c, w')" by (metis prod_cases3)
    from fr have "cs_frozen ?s \<noteq> []" by auto
    with fr wf assms(3) have "sealed k v (chain_step h ?s)"
      by (simp add: sealed_def chain_step_open[OF True gc refl refl] restore_get)
    from sealed_run[OF this, of rest] show ?thesis
      by (simp add: chain_evaluate_def Let_def sealed_def)
  next
    case False
    with get show ?thesis by (simp add: chain_evaluate_def Let_def run_blocked)
  qed
qed

section \<open>The standard chain\<close>

lemma guard_check_Inr: "gu_check g c w = (Inr r, c', w') \<Longrightarrow> guard_check g c w = (r, c', w')"
  by (simp add: guard_check_def)

lemma step_unblocked: "cs_block (chain_step g s) = None \<Longrightarrow> cs_block s = None"
  by (cases "cs_block s = None") simp_all

definition grows :: "ctx \<Rightarrow> ctx \<Rightarrow> bool" where
  "grows c c' \<longleftrightarrow> (\<forall>k. dict_get c k \<noteq> None \<longrightarrow> dict_get c' k \<noteq> None)"

lemma grows_refl [simp]: "grows c c"
  by (simp add: grows_def)

lemma grows_set [intro!]: "grows c c' \<Longrightarrow> grows c (dict_set k v c')"
  by (simp add: grows_def)

lemma grows_bind [intro!]: "grows c c' \<Longrightarrow> grows c (bind_tenant c' r)"
  by (auto simp: bind_tenant_def)

lemma keeps_keysI:
  fixes g :: "'w guard"
  assumes "\<And>c w r c' w'. gu_check g c w = (r, c', w') \<Longrightarrow> grows c c'"
  shows "keeps_keys g"
  unfolding keeps_keys_def
proof (intro allI impI)
  fix c :: ctx and w :: 'w and k
  assume present: "dict_get c k \<noteq> None"
  obtain r c' w' where chk: "gu_check g c w = (r, c', w')" by (metis prod_cases3)
  from assms[OF chk] present chk show "dict_get (fst (snd (guard_check g c w))) k \<noteq> None"
    by (cases r) (simp_all add: guard_check_def grows_def)
qed

lemma jwt_keeps_keys: "keeps_keys (jwt_guard validate require_auth)"
  by (rule keeps_keysI)
     (auto simp: jwt_guard_def Let_def simp del: dict_get_set split: prod.splits sum.splits if_splits)

lemma api_key_keeps_keys: "keeps_keys (api_key_guard authenticate require_auth passthrough)"
  by (rule keeps_keysI)
     (auto simp: api_key_guard_def Let_def simp del: dict_get_set split: prod.splits sum.splits if_splits)

lemma length_py_strip: "length (py_strip s) \<le> length s"
  unfolding py_strip_def
  by (metis dual_order.trans length_dropWhile_le length_rev)

text \<open>The tenant of a state, and a guard that has no say in what the admission of a tenant rests on.\<close>

definition cs_tenant :: "'w chain_state \<Rightarrow> string" where
  "cs_tenant s = ctx_str (cs_ctx s) ''tenant_id'' []"

definition quiet :: "guard_world guard \<Rightarrow> bool" where
  "quiet g \<longleftrightarrow> gu_name g \<notin> set AUTH_GUARD_NAMES \<and>
     (\<forall>c w. case guard_check g c w of (r, c', w') \<Rightarrow>
        dict_get c' ''tenant_id'' = dict_get c ''tenant_id'' \<and> gw_registry w' = gw_registry w \<and>
        gw_gating w' = gw_gating w \<and> gw_budget w' = gw_budget w)"

lemma tenant_quiet: "quiet tenant_guard"
  by (simp add: quiet_def guard_check_def tenant_guard_def AUTH_GUARD_NAMES_def)

lemma rate_limit_quiet: "quiet (rate_limit_guard kind now now')"
  by (auto simp: quiet_def guard_check_def rate_limit_guard_def AUTH_GUARD_NAMES_def Let_def
           split: prod.splits sum.splits)

lemma budget_quiet: "quiet (budget_guard require)"
  by (simp add: quiet_def guard_check_def budget_guard_def AUTH_GUARD_NAMES_def Let_def)

lemma input_safety_quiet: "quiet (input_safety_guard lib chain)"
  by (simp add: quiet_def guard_check_def input_safety_guard_def LAMBDA_INPUT_SAFETY_def AUTH_GUARD_NAMES_def Let_def)

text \<open>A service of a guard that leaves the records of tenants and budgets alone.\<close>

definition same_records :: "guard_world \<Rightarrow> guard_world \<Rightarrow> bool" where
  "same_records w w' \<longleftrightarrow> gw_registry w' = gw_registry w \<and> gw_gating w' = gw_gating w \<and> gw_budget w' = gw_budget w"

definition access_apart :: "guard_world access_fn \<Rightarrow> bool" where
  "access_apart f \<longleftrightarrow> (\<forall>req i p a k w. same_records w (snd (f req i p a k w)))"

definition temporal_apart :: "guard_world temporal_fn \<Rightarrow> bool" where
  "temporal_apart f \<longleftrightarrow> (\<forall>a w. same_records w (snd (f a w)))"

lemma rbac_quiet:
  assumes "access_apart f"
  shows "quiet (rbac_guard f require)"
proof -
  have "same_records w w'" if "f req i p a k w = (d, w')" for req i p a k w d w'
    using assms that unfolding access_apart_def by (metis snd_conv)
  then show ?thesis
    by (fastforce simp: quiet_def guard_check_def rbac_guard_def AUTH_GUARD_NAMES_def same_records_def Let_def
          split: prod.splits sum.splits)
qed

lemma temporal_quiet:
  assumes "temporal_apart f"
  shows "quiet (temporal_guard f)"
proof -
  have "same_records w w'" if "f a w = (d, w')" for a w d w'
    using assms that unfolding temporal_apart_def by (metis snd_conv)
  then show ?thesis
    by (fastforce simp: quiet_def guard_check_def temporal_guard_def AUTH_GUARD_NAMES_def same_records_def
          split: prod.splits sum.splits option.splits ctx_val.splits json.splits)
qed

text \<open>A guard that is not an authenticator leaves a bound tenant, and every tenant it does not write.\<close>

lemma step_tenant:
  assumes "bound s" "cs_block s = None" "gu_name g \<notin> set AUTH_GUARD_NAMES"
    and "guard_check g (cs_ctx s) (cs_world s) = (r, c, w')"
    and "dict_get c ''tenant_id'' = dict_get (cs_ctx s) ''tenant_id''"
  shows "cs_tenant (chain_step g s) = cs_tenant s"
  using assms(1,3,5)
  by (auto simp: cs_tenant_def ctx_str_def chain_step_open[OF assms(2,4) refl refl] bound_def restore_get
           split: option.splits)

lemma step_world:
  assumes "cs_block s = None" "guard_check g (cs_ctx s) (cs_world s) = (r, c, w')"
  shows "cs_world (chain_step g s) = w'"
    and "cs_block (chain_step g s) = None \<longleftrightarrow> gd_allowed r"
  by (simp_all add: chain_step_open[OF assms refl refl])

definition admitted :: "guard_world chain_state \<Rightarrow> bool" where
  "admitted s \<longleftrightarrow> length (cs_tenant s) \<le> 128 \<and>
     (cs_tenant s = [] \<or> cs_tenant s = ''system'' \<or>
      fst (denial_reason (Some mem_gating_ops) (gw_gating (cs_world s)) (gw_registry (cs_world s)) (cs_tenant s)) = None)"

lemma quiet_step:
  assumes "bound s" "quiet g" "cs_block (chain_step g s) = None"
  shows "bound (chain_step g s)" "cs_tenant (chain_step g s) = cs_tenant s"
    and "admitted (chain_step g s) = admitted s"
    and "gw_budget (cs_world (chain_step g s)) = gw_budget (cs_world s)"
proof -
  from assms(3) have open_: "cs_block s = None" by (rule step_unblocked)
  obtain r c w' where gc: "guard_check g (cs_ctx s) (cs_world s) = (r, c, w')" by (metis prod_cases3)
  from assms(2) gc have q: "gu_name g \<notin> set AUTH_GUARD_NAMES"
      "dict_get c ''tenant_id'' = dict_get (cs_ctx s) ''tenant_id''" "gw_registry w' = gw_registry (cs_world s)"
      "gw_gating w' = gw_gating (cs_world s)" "gw_budget w' = gw_budget (cs_world s)"
    unfolding quiet_def by (auto split: prod.splits)
  show b: "bound (chain_step g s)" by (rule bound_step[OF assms(1)]) (simp add: q(1))
  show t: "cs_tenant (chain_step g s) = cs_tenant s" by (rule step_tenant[OF assms(1) open_ q(1) gc q(2)])
  show "admitted (chain_step g s) = admitted s"
    by (simp add: admitted_def t step_world(1)[OF open_ gc] q)
  show "gw_budget (cs_world (chain_step g s)) = gw_budget (cs_world s)"
    by (simp add: step_world(1)[OF open_ gc] q)
qed

lemma quiet_run:
  "bound s \<Longrightarrow> list_all quiet gs \<Longrightarrow> admitted s \<Longrightarrow> cs_block (run_guards gs s) = None \<Longrightarrow>
   bound (run_guards gs s) \<and> admitted (run_guards gs s)"
proof (induction gs arbitrary: s)
  case (Cons g gs)
  from Cons(5) have "cs_block (chain_step g s) = None" using run_unblocked by auto
  from quiet_step[OF Cons(2) _ this] Cons show ?case by simp
qed simp

lemma denial_again:
  assumes "denial_reason store st r t = (reason, r')"
  shows "fst (denial_reason store st r' t) = reason"
  using assms by (auto simp: denial_reason_def get_status_def load_gate_def split: option.splits if_splits prod.splits)

lemma tenant_step:
  fixes s :: "guard_world chain_state"
  assumes "bound s" "cs_block (chain_step tenant_guard s) = None"
  shows "bound (chain_step tenant_guard s) \<and> length (cs_tenant (chain_step tenant_guard s)) \<le> 128"
proof -
  from assms(2) have open_: "cs_block s = None" by (rule step_unblocked)
  have gc: "guard_check tenant_guard (cs_ctx s) (cs_world s) =
      (if 128 < length (cs_tenant s) then guard_deny ''tenant'' ''tenant_id exceeds 128 characters''
       else guard_pass ''tenant'', cs_ctx s, cs_world s)"
    by (simp add: guard_check_def tenant_guard_def cs_tenant_def)
  from step_world(2)[OF open_ gc] assms(2) quiet_step(1,2)[OF assms(1) tenant_quiet assms(2)] show ?thesis
    by (auto simp: guard_deny_def split: if_splits)
qed

lemma gating_step:
  assumes "bound s" "cs_block (chain_step tenant_gating_guard s) = None" "length (cs_tenant s) \<le> 128"
  shows "bound (chain_step tenant_gating_guard s) \<and> admitted (chain_step tenant_gating_guard s)"
proof -
  let ?g = "tenant_gating_guard" and ?w = "cs_world s"
  from assms(2) have open_: "cs_block s = None" by (rule step_unblocked)
  have name: "gu_name ?g \<notin> set AUTH_GUARD_NAMES" by (simp add: tenant_gating_guard_def AUTH_GUARD_NAMES_def)
  obtain reason rg where d: "denial_reason (Some mem_gating_ops) (gw_gating ?w) (gw_registry ?w) (cs_tenant s) =
      (reason, rg)" by (metis prod.collapse)
  let ?out = "cs_tenant s = [] \<or> cs_tenant s = ''system''"
  have gc: "guard_check ?g (cs_ctx s) ?w =
      (if ?out then (guard_pass ''tenant_gating'', cs_ctx s, ?w)
       else (case reason of None \<Rightarrow> guard_pass ''tenant_gating'' | Some x \<Rightarrow> guard_deny ''tenant_gating'' x,
             cs_ctx s, ?w\<lparr>gw_registry := rg\<rparr>))"
    using d by (auto simp: guard_check_def tenant_gating_guard_def cs_tenant_def Let_def split: option.splits)
  have b: "bound (chain_step ?g s)" by (rule bound_step[OF assms(1)]) (simp add: name)
  show ?thesis
  proof (cases ?out)
    case True
    with gc have gc': "guard_check ?g (cs_ctx s) ?w = (guard_pass ''tenant_gating'', cs_ctx s, ?w)" by simp
    show ?thesis
      using b assms(3) True step_tenant[OF assms(1) open_ name gc' refl] by (auto simp: admitted_def)
  next
    case False
    with gc have gc': "guard_check ?g (cs_ctx s) ?w =
      (case reason of None \<Rightarrow> guard_pass ''tenant_gating'' | Some x \<Rightarrow> guard_deny ''tenant_gating'' x,
       cs_ctx s, ?w\<lparr>gw_registry := rg\<rparr>)" by simp
    from step_world(2)[OF open_ gc'] assms(2) have "reason = None"
      by (auto simp: guard_deny_def split: option.splits)
    with denial_again[OF d] b assms(3) step_tenant[OF assms(1) open_ name gc' refl]
      step_world(1)[OF open_ gc'] show ?thesis by (simp add: admitted_def)
  qed
qed

lemma budget_step:
  assumes "bound s" "cs_block (chain_step (budget_guard require) s) = None" "cs_tenant s \<noteq> []"
  shows "br_enabled (budget_report (gw_budget (cs_world s)) (cs_tenant s)) \<and>
    \<not> br_exhausted (budget_report (gw_budget (cs_world s)) (cs_tenant s))"
proof -
  let ?r = "budget_report (gw_budget (cs_world s)) (cs_tenant s)"
  from assms(2) have open_: "cs_block s = None" by (rule step_unblocked)
  have gc: "guard_check (budget_guard require) (cs_ctx s) (cs_world s) =
      (if br_exhausted ?r then guard_deny ''budget'' ''budget exhausted''
       else if \<not> br_enabled ?r then guard_deny ''budget'' ''tenant disabled'' else guard_pass ''budget'',
       cs_ctx s, cs_world s)"
    using assms(3) by (simp add: guard_check_def budget_guard_def cs_tenant_def Let_def)
  from step_world(2)[OF open_ gc] assms(2) show ?thesis by (auto simp: guard_deny_def split: if_splits)
qed


text \<open>The guards of the standard chain between the gating of the tenant and the rate limit.\<close>

definition middle_guards ::
  "guard_world access_fn option \<Rightarrow> (safety_lib \<times> safety_chain) option \<Rightarrow> guard_world temporal_fn option
    \<Rightarrow> guard_world guard list" where
  "middle_guards access safety temporal =
     opt_guard access (\<lambda>f. rbac_guard f False) @ opt_guard safety (\<lambda>(lib, c). input_safety_guard lib c) @
     opt_guard temporal temporal_guard"

lemma middle_quiet:
  "pred_option access_apart access \<Longrightarrow> pred_option temporal_apart temporal \<Longrightarrow>
   list_all quiet (middle_guards access safety temporal)"
  by (auto simp: middle_guards_def opt_guard_def rbac_quiet temporal_quiet input_safety_quiet split: option.splits prod.splits)

lemma auth_bound:
  "bound (run_guards (opt_guard akm (\<lambda>f. api_key_guard f False False) @
      opt_guard jwt (\<lambda>f. jwt_guard f False)) (chain_start ctx w))"
  by (rule bound_run) (auto simp: opt_guard_def api_key_keeps_keys jwt_keeps_keys split: option.splits)

text \<open>
  C10: A request that the standard chain admits, whatever the authenticators are and whichever of
  the optional services it has, on the condition that the access runtime and the temporal runtime leave the
  records of tenants and budgets alone: the tenant of the final context has a name of at most 128
  characters; unless there is none or it is the system, which the gating guard exempts, the registry does
  not deny it; and unless there is none, which the budget guard exempts, its budget is enabled and not exhausted.
\<close>

theorem admitted_request:
  assumes "chain_evaluate (build_guard_chain kind now now' akm jwt True access safety temporal) ctx w =
      (res, ctx', w')"
    and "ch_allowed res" and "pred_option access_apart access" and "pred_option temporal_apart temporal"
    and "t = ctx_str ctx' ''tenant_id'' []"
  shows "length t \<le> 128 \<and>
    (t = [] \<or> t = ''system'' \<or>
     fst (denial_reason (Some mem_gating_ops) (gw_gating w') (gw_registry w') t) = None) \<and>
    (t \<noteq> [] \<longrightarrow> br_enabled (budget_report (gw_budget w') t) \<and> \<not> br_exhausted (budget_report (gw_budget w') t))"
proof -
  let ?auth = "opt_guard akm (\<lambda>f. api_key_guard f False False) @ opt_guard jwt (\<lambda>f. jwt_guard f False)"
    and ?mid = "middle_guards access safety temporal @ [rate_limit_guard kind now now']"
  define s1 s2 where "s1 = run_guards ?auth (chain_start ctx w)" and "s2 = chain_step tenant_guard s1"
  define s3 where "s3 = chain_step tenant_gating_guard s2"
  define s4 s5 where "s4 = run_guards ?mid s3" and "s5 = chain_step (budget_guard False) s4"
  have s5: "run_guards (build_guard_chain kind now now' akm jwt True access safety temporal) (chain_start ctx w) = s5"
    by (simp add: build_guard_chain_def middle_guards_def s1_def s2_def s3_def s4_def s5_def)
  with assms(1,2) have ok: "cs_block s5 = None" and fin: "cs_ctx s5 = ctx'" "cs_world s5 = w'"
    by (auto simp: chain_evaluate_def Let_def split: option.splits)
  from ok have ok4: "cs_block s4 = None" unfolding s5_def by (rule step_unblocked)
  then have ok3: "cs_block s3 = None" unfolding s4_def by (rule run_unblocked)
  then have ok2: "cs_block s2 = None" unfolding s3_def by (rule step_unblocked)
  have "bound s2 \<and> length (cs_tenant s2) \<le> 128"
    using tenant_step[OF auth_bound, of akm jwt ctx w] ok2 by (simp add: s2_def s1_def)
  with gating_step[of s2] ok3 have "bound s3 \<and> admitted s3" by (simp add: s3_def)
  with quiet_run[of s3 ?mid] middle_quiet[OF assms(3,4)] rate_limit_quiet ok4 have s4: "bound s4" "admitted s4" by (simp_all add: s4_def)
  note last = quiet_step[OF s4(1) budget_quiet, of False, folded s5_def, OF ok]
  from last(2) fin assms(5) have t: "t = cs_tenant s5" "t = cs_tenant s4" by (simp_all add: cs_tenant_def)
  from last(3) s4(2) fin have adm: "admitted s5" by simp
  have "br_enabled (budget_report (gw_budget w') t) \<and> \<not> br_exhausted (budget_report (gw_budget w') t)" if "t \<noteq> []"
    using budget_step[OF s4(1), of False, folded s5_def, OF ok] that t last(4) fin by simp
  with adm show ?thesis by (simp add: admitted_def t(1) fin)
qed

lemma tenant_step_world: "cs_world (chain_step tenant_guard s) = cs_world s"
proof (cases "cs_block s = None")
  case True
  have "guard_check tenant_guard (cs_ctx s) (cs_world s) =
      (fst (guard_check tenant_guard (cs_ctx s) (cs_world s)), cs_ctx s, cs_world s)"
    by (simp add: guard_check_def tenant_guard_def)
  from step_world(1)[OF True this] show ?thesis .
qed simp

lemma gating_step_world:
  fixes s defines "s' \<equiv> chain_step tenant_gating_guard s"
  shows "gw_limiter (cs_world s') = gw_limiter (cs_world s)"
    and "gw_rl_store (cs_world s') = gw_rl_store (cs_world s)"
    and "gw_budget (cs_world s') = gw_budget (cs_world s)"
proof -
  obtain r c w' where gc: "guard_check tenant_gating_guard (cs_ctx s) (cs_world s) = (r, c, w')"
    by (metis prod_cases3)
  then have "gw_limiter w' = gw_limiter (cs_world s) \<and> gw_rl_store w' = gw_rl_store (cs_world s) \<and>
      gw_budget w' = gw_budget (cs_world s)"
    by (auto simp: guard_check_def tenant_gating_guard_def Let_def split: if_splits prod.splits option.splits)
  then show "gw_limiter (cs_world s') = gw_limiter (cs_world s)"
    "gw_rl_store (cs_world s') = gw_rl_store (cs_world s)" "gw_budget (cs_world s') = gw_budget (cs_world s)"
    unfolding s'_def by (cases "cs_block s = None"; simp add: step_world(1)[OF _ gc])+
qed

lemma gating_denies:
  assumes "cs_block s = None" "cs_tenant s \<noteq> []" "cs_tenant s \<noteq> ''system''"
    and "fst (denial_reason (Some mem_gating_ops) (gw_gating (cs_world s)) (gw_registry (cs_world s)) (cs_tenant s)) =
      Some reason"
  shows "cs_block (chain_step tenant_gating_guard s) \<noteq> None"
proof -
  obtain rg where d: "denial_reason (Some mem_gating_ops) (gw_gating (cs_world s)) (gw_registry (cs_world s))
      (ctx_str (cs_ctx s) ''tenant_id'' []) = (Some reason, rg)"
    using assms(4) unfolding cs_tenant_def by (metis prod.collapse)
  with assms(2,3) have "guard_check tenant_gating_guard (cs_ctx s) (cs_world s) =
      (guard_deny ''tenant_gating'' reason, cs_ctx s, (cs_world s)\<lparr>gw_registry := rg\<rparr>)"
    by (simp add: guard_check_def tenant_gating_guard_def cs_tenant_def Let_def)
  from step_world(2)[OF assms(1) this] show ?thesis by (simp add: guard_deny_def)
qed

lemma jwt_authenticated:
  assumes "dict_get ctx ''authorization'' = Some (CStr (''Bearer '' @ token))" "py_strip token \<noteq> []"
    and "validate (py_strip token) w = (Inr r, w1)" "ar_authenticated r" "ar_tenant_id r \<noteq> []"
  defines "s1 \<equiv> chain_step (jwt_guard validate False) (chain_start ctx w)"
  shows "bound s1" "cs_world s1 = w1" "cs_block s1 = None \<Longrightarrow> cs_tenant s1 = ar_tenant_id r"
proof -
  define c where "c = (if tenant_mismatch False ctx r then ctx else dict_set ''jwt_scopes'' (CStrs (ar_scopes r))
      (dict_set ''authenticated_tenant_id'' (CStr (ar_tenant_id r))
        (dict_set ''authenticated_subject'' (CStr (ar_subject r)) (bind_tenant ctx r))))"
  have "py_strip token \<noteq> ''Bearer '' @ token" using length_py_strip[of token] by force
  then have chk: "guard_check (jwt_guard validate False) (cs_ctx (chain_start ctx w)) (cs_world (chain_start ctx w)) =
      (if tenant_mismatch False ctx r then guard_deny ''jwt'' ''tenant mismatch'' else guard_pass ''jwt'', c, w1)"
    using assms(1-4)
    by (simp add: chain_start_def guard_check_def jwt_guard_def ctx_str_def py_removeprefix_def c_def Let_def)
  have start: "cs_block (chain_start ctx w) = None" by (simp add: chain_start_def)
  show "bound s1" unfolding s1_def by (rule bound_step) (simp_all add: jwt_keeps_keys)
  show "cs_world s1 = w1" using step_world(1)[OF start chk] by (simp add: s1_def)
  have "cs_ctx s1 = c"
    by (simp add: s1_def chain_step_open[OF start chk refl refl])
       (simp add: chain_start_def jwt_guard_def AUTH_GUARD_NAMES_def)
  moreover assume "cs_block s1 = None"
  with step_world(2)[OF start chk] have "\<not> tenant_mismatch False ctx r"
    by (auto simp: s1_def guard_deny_def split: if_splits)
  ultimately show "cs_tenant s1 = ar_tenant_id r"
    using assms(5) by (simp add: cs_tenant_def ctx_str_def c_def bind_tenant_def)
qed

text \<open>
  A bearer token that authenticates for a tenant the registry denies never gets through the
  standard chain, whatever tenant the request names and whatever the other services are; and it is
  turned away before the rate limiter and the budgets are touched.
\<close>

theorem denied_tenant_refused:
  assumes "dict_get ctx ''authorization'' = Some (CStr (''Bearer '' @ token))" "py_strip token \<noteq> []"
    and "validate (py_strip token) w = (Inr r, w1)" "ar_authenticated r"
    and "ar_tenant_id r \<noteq> []" "ar_tenant_id r \<noteq> ''system''"
    and "fst (denial_reason (Some mem_gating_ops) (gw_gating w1) (gw_registry w1) (ar_tenant_id r)) = Some reason"
    and "chain_evaluate (build_guard_chain kind now now' None (Some validate) True access safety temporal) ctx w =
      (res, ctx', w')"
  shows "\<not> ch_allowed res \<and> gw_limiter w' = gw_limiter w1 \<and> gw_rl_store w' = gw_rl_store w1 \<and>
    gw_budget w' = gw_budget w1"
proof -
  let ?t = "ar_tenant_id r"
  define s1 s2 s3 where "s1 = chain_step (jwt_guard validate False) (chain_start ctx w)"
    and "s2 = chain_step tenant_guard s1" and "s3 = chain_step tenant_gating_guard s2"
  have jwt: "bound s1" "cs_world s1 = w1" "cs_block s1 = None \<Longrightarrow> cs_tenant s1 = ?t"
    unfolding s1_def
    using jwt_authenticated[of ctx token validate w r w1] assms(1-5) by blast+
  have w2: "cs_world s2 = w1" by (simp add: s2_def tenant_step_world jwt(2))
  have blocked: "cs_block s3 \<noteq> None"
  proof
    assume ok3: "cs_block s3 = None"
    then have ok2: "cs_block s2 = None" unfolding s3_def by (rule step_unblocked)
    then have ok1: "cs_block s1 = None" unfolding s2_def by (rule step_unblocked)
    have "cs_tenant s2 = ?t"
      using quiet_step(2)[OF jwt(1) tenant_quiet] ok2 jwt(3)[OF ok1] by (simp add: s2_def)
    with gating_denies[OF ok2] assms(5-7) w2 ok3 show False by (simp add: s3_def)
  qed
  have "run_guards (build_guard_chain kind now now' None (Some validate) True access safety temporal)
      (chain_start ctx w) =
    run_guards (middle_guards access safety temporal @ [rate_limit_guard kind now now', budget_guard False]) s3"
    by (simp add: build_guard_chain_def middle_guards_def opt_guard_def s1_def s2_def s3_def)
  also have "\<dots> = s3" using blocked by (rule run_blocked)
  finally have "\<not> ch_allowed res \<and> w' = cs_world s3"
    using assms(8) blocked by (auto simp: chain_evaluate_def Let_def)
  with gating_step_world[of s2] w2 show ?thesis by (simp add: s3_def)
qed

section \<open>Witnesses\<close>

definition demo_world :: "tenant_status \<Rightarrow> guard_world" where
  "demo_world s = \<lparr>gw_registry = registry_init False, gw_gating = [(''acme'', demo_gate s)],
     gw_budget = \<lparr>bm_policies = [], bm_budgets = [], bm_default = \<lparr>bp_tenant_id = [], bp_max_cost = PFin 1,
       bp_max_calls = 5, bp_max_tokens = 100, bp_auto_create = True, bp_enabled = True\<rparr>\<rparr>,
     gw_limiter = demo_limiter, gw_rl_store = rl_store_init 10\<rparr>"

definition demo_validate :: "guard_world authenticator" where
  "demo_validate token w = (Inr \<lparr>ar_authenticated = (token = ''a.b.c''), ar_tenant_id = ''acme'',
     ar_subject = ''alice'', ar_scopes = [], ar_error = []\<rparr>, w)"

definition demo_ctx :: ctx where
  "demo_ctx = [(''authorization'', CStr ''Bearer a.b.c''), (''tenant_id'', CStr ''system'')]"

text \<open>A guard that overwrites the tenant.\<close>

definition rogue_guard :: "guard_world guard" where
  "rogue_guard = \<lparr>gu_name = ''rogue'', gu_check = (\<lambda>ctx w.
     (Inr (guard_pass ''rogue''), dict_set ''tenant_id'' (CStr ''victim'') ctx, w))\<rparr>"


definition demo_chain ::
  "guard_world access_fn option \<Rightarrow> (safety_lib \<times> safety_chain) option \<Rightarrow> guard_world temporal_fn option
    \<Rightarrow> guard_world guard list" where
  "demo_chain = build_guard_chain NoStore (PFin 0, PFin 0) (PFin 0, PFin 0) None (Some demo_validate) True"

text \<open>Services of the optional guards, and a request that each of the guards has to look at.\<close>

definition demo_access :: "guard_world access_fn" where
  "demo_access request_id identity resource action scope w =
     (Inr (if identity = ''alice'' \<and> action = ''POST'' then AccessAllowed else AccessDenied), w)"

definition demo_lib :: safety_lib where
  "demo_lib = \<lparr>sl_search = (\<lambda>p text. p = regex ''(?i)(?:exec|eval|import~s+os|subprocess|system)~s*~('' \<and> take 5 text = ''eval(''),
     sl_normalize = id\<rparr>"

definition demo_decide :: "guard_world temporal_fn" where
  "demo_decide action w = (Inr \<lparr>td_decision_id = ''d'',
     td_verdict = (if map_of action ''action_id'' = Some (JStr ''a'') then TP_ALLOW else TP_DENY), td_reason = ''ok''\<rparr>, w)"

definition demo_services :: "guard_world guard list" where
  "demo_services = demo_chain (Some demo_access) (Some (demo_lib, build_default_safety_chain)) (Some demo_decide)"

definition demo_request :: "ctx" where
  "demo_request = demo_ctx @ [(''method'', CStr ''POST''), (''prompt'', CStr ''eval(1)''),
     (''temporal_action'', CAction [(''action_id'', JStr ''a'')])]"

text \<open>The access guard of the demonstration, without the request identifier that its service does not read.\<close>

lemma demo_rbac:
  "rbac_guard demo_access False = \<lparr>gu_name = ''rbac'', gu_check = (\<lambda>ctx w.
     let identity_id = ctx_identity ctx; endpoint = ctx_str ctx ''endpoint'' ''/unknown''
     in if identity_id = [] then (Inr (guard_pass ''rbac''), ctx, w)
        else if identity_id = ''alice'' \<and> ctx_str ctx ''method'' ''GET'' = ''POST''
        then (Inr (guard_pass ''rbac''),
              dict_set ''rbac_resource_type'' (CStr (rbac_resource_type endpoint))
                (dict_set ''rbac_identity_id'' (CStr identity_id) ctx), w)
        else (Inr (guard_deny ''rbac'' ''access denied''), ctx, w))\<rparr>"
  by (auto simp: rbac_guard_def demo_access_def Let_def fun_eq_iff)

theorem chain_first_failure_witness:
  "chain_evaluate ([budget_guard True] @ [rogue_guard]) [] (demo_world ACTIVE) =
     chain_evaluate [budget_guard True] [] (demo_world ACTIVE) \<and>
   \<not> ch_allowed (fst (chain_evaluate [budget_guard True] [] (demo_world ACTIVE)))"
proof -
  have d: "\<not> ch_allowed (fst (chain_evaluate [budget_guard True] [] (demo_world ACTIVE)))" by code_simp
  obtain res c w' where e: "chain_evaluate [budget_guard True] [] (demo_world ACTIVE) = (res, c, w')"
    by (metis prod_cases3)
  from chain_first_failure[OF e, of "[rogue_guard]"] d e show ?thesis by simp
qed

theorem auth_binding_frozen_witness:
  "dict_get (fst (snd (chain_evaluate ([jwt_guard demo_validate False] @ rogue_guard # [rogue_guard]) demo_ctx
     (demo_world ACTIVE)))) ''tenant_id'' = Some (CStr ''acme'')"
  by (rule auth_binding_frozen)
     (simp_all add: jwt_guard_def rogue_guard_def AUTH_GUARD_NAMES_def FROZEN_KEYS_def, code_simp)

lemma demo_services_code:
  "demo_services = [jwt_guard demo_validate False, tenant_guard, tenant_gating_guard,
     \<lparr>gu_name = ''rbac'', gu_check = gu_check (rbac_guard demo_access False)\<rparr>,
     input_safety_guard demo_lib build_default_safety_chain, temporal_guard demo_decide,
     rate_limit_guard NoStore (PFin 0, PFin 0) (PFin 0, PFin 0), budget_guard False]"
  by (simp add: demo_services_def demo_chain_def build_guard_chain_def opt_guard_def demo_rbac)

lemma demo_services_run:
  "map gd_guard_name (ch_results (fst (chain_evaluate demo_services demo_request (demo_world ACTIVE)))) =
     [''jwt'', ''tenant'', ''tenant_gating'', ''rbac'', ''Lambda_input_safety'', ''temporal'', ''rate_limit'', ''budget'']"
  "ch_allowed (fst (chain_evaluate demo_services demo_request (demo_world ACTIVE)))"
  "ctx_str (fst (snd (chain_evaluate demo_services demo_request (demo_world ACTIVE)))) ''tenant_id'' [] = ''acme''"
  "ctx_str (fst (snd (chain_evaluate demo_services demo_request (demo_world ACTIVE)))) ''input_safety_stage'' [] = ''Lambda_input_safety''"
  "ctx_str (fst (snd (chain_evaluate demo_services demo_request (demo_world ACTIVE)))) ''temporal_policy_verdict'' [] = ''allow''"
  unfolding demo_services_code demo_rbac guard.select_convs by code_simp+

text \<open>
  A chain with all optional services: the access, safety and temporal guards run and let the request pass, the
  safety guard with a flag.
\<close>

theorem admitted_request_witness:
  "ch_allowed (fst (chain_evaluate demo_services demo_request (demo_world ACTIVE))) \<and>
   fst (denial_reason (Some mem_gating_ops)
     (gw_gating (snd (snd (chain_evaluate demo_services demo_request (demo_world ACTIVE)))))
     (gw_registry (snd (snd (chain_evaluate demo_services demo_request (demo_world ACTIVE))))) ''acme'') = None \<and>
   br_enabled (budget_report (gw_budget (snd (snd (chain_evaluate demo_services demo_request (demo_world ACTIVE)))))
     ''acme'')"
proof -
  obtain res c w' where e: "chain_evaluate demo_services demo_request (demo_world ACTIVE) = (res, c, w')"
    by (metis prod_cases3)
  have q: "pred_option access_apart (Some demo_access)" "pred_option temporal_apart (Some demo_decide)"
    by (simp_all add: access_apart_def demo_access_def temporal_apart_def demo_decide_def same_records_def)
  have al: "ch_allowed res" and t: "''acme'' = ctx_str c ''tenant_id'' []" using demo_services_run(2,3) e by simp_all
  from admitted_request[OF e[unfolded demo_services_def demo_chain_def] al q t] al e show ?thesis by simp
qed

theorem denied_tenant_refused_witness:
  "\<not> ch_allowed (fst (chain_evaluate (demo_chain None None None) demo_ctx (demo_world TERMINATED))) \<and>
   gw_limiter (snd (snd (chain_evaluate (demo_chain None None None) demo_ctx (demo_world TERMINATED)))) = demo_limiter"
proof -
  have w1: "demo_validate (py_strip ''a.b.c'') (demo_world TERMINATED) =
      (Inr \<lparr>ar_authenticated = True, ar_tenant_id = ''acme'', ar_subject = ''alice'', ar_scopes = [], ar_error = []\<rparr>,
       demo_world TERMINATED)" and s: "py_strip ''a.b.c'' \<noteq> []"
    and h: "dict_get demo_ctx ''authorization'' = Some (CStr (''Bearer '' @ ''a.b.c''))"
    by code_simp+
  have d: "fst (denial_reason (Some mem_gating_ops) (gw_gating (demo_world TERMINATED))
      (gw_registry (demo_world TERMINATED)) ''acme'') = Some ''tenant acme is terminated: fraud''" by code_simp
  obtain res c w' where e: "chain_evaluate (demo_chain None None None) demo_ctx (demo_world TERMINATED) = (res, c, w')"
    by (metis prod_cases3)
  from denied_tenant_refused[OF h s w1 _ _ _ _ e[unfolded demo_chain_def], of "''tenant acme is terminated: fraud''"] d e
  show ?thesis by (simp add: demo_world_def)
qed

end
