(* ===== verification/State_Machines.thy ===== *)
theory State_Machines
  imports Contract_Base
begin

text \<open>
  \<open>mcoi_runtime/contracts/state_machine.py\<close> and \<open>mcoi_runtime/core/state_machines.py\<close>: machines as
  data, with the validation of their constructor, the legality check, the guard registry, the
  auditor that records every attempt, and the engine that replays an audit trail.

  States, actions and labels are strings, as in the code.  A guard is a function of the context
  dictionary that may raise.
\<close>

datatype transition_verdict =
  V_ALLOWED | V_DENIED_ILLEGAL_EDGE | V_DENIED_TERMINAL_STATE | V_DENIED_GUARD_FAILED

fun verdict_value :: "transition_verdict \<Rightarrow> string" where
  "verdict_value V_ALLOWED = ''allowed''"
| "verdict_value V_DENIED_ILLEGAL_EDGE = ''denied_illegal_edge''"
| "verdict_value V_DENIED_TERMINAL_STATE = ''denied_terminal_state''"
| "verdict_value V_DENIED_GUARD_FAILED = ''denied_guard_failed''"

record transition_rule =
  tr_from :: string
  tr_to :: string
  tr_action :: string
  tr_guard_label :: string
  tr_emits :: string

text \<open>\<open>TransitionRule.__post_init__\<close>.\<close>

definition check_rule :: "transition_rule \<Rightarrow> transition_rule py" where
  "check_rule t =
     py_bind (require_non_empty_text (tr_from t) ''from_state'') (\<lambda>_.
     py_bind (require_non_empty_text (tr_to t) ''to_state'') (\<lambda>_.
     py_bind (require_non_empty_text (tr_action t) ''action'') (\<lambda>_. Inr t)))"

record machine =
  sm_id :: string
  sm_name :: string
  sm_version :: string
  sm_states :: "string list"
  sm_initial :: string
  sm_terminal :: "string list"
  sm_transitions :: "transition_rule list"

text \<open>The loop over the rules: the keys seen so far are a set in the code.\<close>

fun check_transitions :: "string list \<Rightarrow> (string \<times> string \<times> string \<times> string) list \<Rightarrow> transition_rule list \<Rightarrow> unit py" where
  "check_transitions states seen [] = Inr ()"
| "check_transitions states seen (t # ts) =
     (let key = (tr_from t, tr_to t, tr_action t, tr_guard_label t)
      in if tr_from t \<notin> set states
         then Inl (ValueError ''transition source state must be declared in states'')
         else if tr_to t \<notin> set states
         then Inl (ValueError ''transition target state must be declared in states'')
         else if key \<in> set seen
         then Inl (ValueError ''transitions must not contain duplicate rules'')
         else check_transitions states (key # seen) ts)"

text \<open>\<open>StateMachineSpec.__post_init__\<close>, the checks in their order.\<close>

definition check_machine :: "machine \<Rightarrow> machine py" where
  "check_machine m =
     py_bind (require_non_empty_text (sm_id m) ''machine_id'') (\<lambda>_.
     py_bind (require_non_empty_text (sm_name m) ''name'') (\<lambda>_.
     py_bind (require_non_empty_text (sm_version m) ''version'') (\<lambda>_.
     py_bind (freeze_text_array (sm_states m) ''states'' False) (\<lambda>_.
     if \<not> distinct (sm_states m) then Inl (ValueError ''states must not contain duplicates'')
     else py_bind (require_non_empty_text (sm_initial m) ''initial_state'') (\<lambda>_.
     if sm_initial m \<notin> set (sm_states m) then Inl (ValueError ''initial state must be declared in states'')
     else py_bind (freeze_text_array (sm_terminal m) ''terminal_states'' True) (\<lambda>_.
     if \<not> distinct (sm_terminal m) then Inl (ValueError ''terminal_states must not contain duplicates'')
     else if \<not> list_all (\<lambda>t. t \<in> set (sm_states m)) (sm_terminal m)
     then Inl (ValueError ''terminal state must be declared in states'')
     else py_bind (check_transitions (sm_states m) [] (sm_transitions m)) (\<lambda>_.
     if list_ex (\<lambda>ts. list_ex (\<lambda>t. tr_from t = ts) (sm_transitions m)) (sm_terminal m)
     then Inl (ValueError ''terminal state cannot have outgoing transitions'')
     else Inr m)))))))"

definition legal_actions :: "machine \<Rightarrow> string \<Rightarrow> transition_rule list" where
  "legal_actions m current_state = filter (\<lambda>t. tr_from t = current_state) (sm_transitions m)"

definition rule_matches :: "string \<Rightarrow> string \<Rightarrow> string \<Rightarrow> transition_rule \<Rightarrow> bool" where
  "rule_matches from_state to_state action t \<longleftrightarrow>
     tr_from t = from_state \<and> tr_to t = to_state \<and> tr_action t = action"

definition is_legal :: "machine \<Rightarrow> string \<Rightarrow> string \<Rightarrow> string \<Rightarrow> transition_verdict" where
  "is_legal m from_state to_state action =
     (if from_state \<in> set (sm_terminal m) then V_DENIED_TERMINAL_STATE
      else if list_ex (rule_matches from_state to_state action) (sm_transitions m) then V_ALLOWED
      else V_DENIED_ILLEGAL_EDGE)"

definition reachable_from :: "machine \<Rightarrow> string \<Rightarrow> string list" where
  "reachable_from m state = sort (remdups (map tr_to (legal_actions m state)))"

section \<open>Guards\<close>

type_synonym guard_ctx = "(string \<times> json) list"
type_synonym guard_registry = "(string, guard_ctx \<Rightarrow> bool py) pydict"

definition guard_register ::
  "guard_registry \<Rightarrow> string \<Rightarrow> (guard_ctx \<Rightarrow> bool py) \<Rightarrow> guard_registry py" where
  "guard_register reg guard_label guard =
     (if blank guard_label then Inl (RuntimeCoreInvariantError ''guard_label must be non-empty'')
      else Inr (dict_set guard_label guard reg))"

definition guard_evaluate :: "guard_registry \<Rightarrow> string \<Rightarrow> guard_ctx \<Rightarrow> bool py" where
  "guard_evaluate reg guard_label ctx =
     (if guard_label = [] then Inr True
      else case dict_get reg guard_label of None \<Rightarrow> Inr False | Some guard \<Rightarrow> guard ctx)"

text \<open>The first rule for a move, whose label is the guard that counts.\<close>

definition matching_rule :: "machine \<Rightarrow> string \<Rightarrow> string \<Rightarrow> string \<Rightarrow> transition_rule option" where
  "matching_rule m from_state to_state action = find (rule_matches from_state to_state action) (sm_transitions m)"

definition enforce_transition :: "machine \<Rightarrow> string \<Rightarrow> string \<Rightarrow> string \<Rightarrow> transition_verdict py" where
  "enforce_transition m from_state to_state action =
     (let verdict = is_legal m from_state to_state action
      in if verdict \<noteq> V_ALLOWED then Inl (RuntimeCoreInvariantError ''illegal transition'') else Inr verdict)"

definition enforce_guarded_transition ::
  "machine \<Rightarrow> string \<Rightarrow> string \<Rightarrow> string \<Rightarrow> guard_registry \<Rightarrow> guard_ctx \<Rightarrow> transition_verdict py" where
  "enforce_guarded_transition m from_state to_state action reg ctx =
     (if is_legal m from_state to_state action \<noteq> V_ALLOWED
      then Inl (RuntimeCoreInvariantError ''illegal transition'')
      else case matching_rule m from_state to_state action of
             None \<Rightarrow> Inr V_ALLOWED
           | Some t \<Rightarrow>
               if tr_guard_label t = [] then Inr V_ALLOWED
               else py_bind (guard_evaluate reg (tr_guard_label t) ctx) (\<lambda>ok.
                 if \<not> ok then Inl (RuntimeCoreInvariantError ''guard failed'') else Inr V_ALLOWED))"

section \<open>The audit trail\<close>

record transition_audit =
  ta_audit_id :: string
  ta_machine_id :: string
  ta_entity_id :: string
  ta_from :: string
  ta_to :: string
  ta_action :: string
  ta_verdict :: transition_verdict
  ta_actor_id :: string
  ta_reason :: string
  ta_transitioned_at :: string
  ta_metadata :: guard_ctx

text \<open>\<open>TransitionAuditRecord.__post_init__\<close>.\<close>

definition check_audit_texts :: "transition_audit \<Rightarrow> unit py" where
  "check_audit_texts r =
     py_bind (require_non_empty_text (ta_audit_id r) ''audit_id'') (\<lambda>_.
     py_bind (require_non_empty_text (ta_machine_id r) ''machine_id'') (\<lambda>_.
     py_bind (require_non_empty_text (ta_entity_id r) ''entity_id'') (\<lambda>_.
     py_bind (require_non_empty_text (ta_from r) ''from_state'') (\<lambda>_.
     py_bind (require_non_empty_text (ta_to r) ''to_state'') (\<lambda>_.
     py_bind (require_non_empty_text (ta_action r) ''action'') (\<lambda>_.
     py_bind (require_non_empty_text (ta_actor_id r) ''actor_id'') (\<lambda>_. Inr ())))))))"

definition check_audit :: "transition_audit \<Rightarrow> transition_audit py" where
  "check_audit r =
     py_bind (check_audit_texts r) (\<lambda>_.
     py_bind (require_datetime_text (ta_transitioned_at r) ''transitioned_at'') (\<lambda>_. Inr r))"

record auditor =
  ad_records :: "transition_audit list"
  ad_seq :: int

definition auditor_init :: auditor where
  "auditor_init = \<lparr>ad_records = [], ad_seq = 0\<rparr>"

text \<open>The verdict of an attempt: the structural check, then the guard of the first matching rule.\<close>

definition attempt_verdict ::
  "machine \<Rightarrow> string \<Rightarrow> string \<Rightarrow> string \<Rightarrow> guard_registry option \<Rightarrow> guard_ctx \<Rightarrow> transition_verdict py" where
  "attempt_verdict m from_state to_state action registry ctx =
     (let verdict = is_legal m from_state to_state action
      in case registry of
           None \<Rightarrow> Inr verdict
         | Some reg \<Rightarrow>
             if verdict \<noteq> V_ALLOWED then Inr verdict
             else case matching_rule m from_state to_state action of
                    None \<Rightarrow> Inr verdict
                  | Some t \<Rightarrow>
                      if tr_guard_label t = [] then Inr verdict
                      else py_bind (guard_evaluate reg (tr_guard_label t) ctx)
                             (\<lambda>ok. Inr (if ok then verdict else V_DENIED_GUARD_FAILED)))"

definition audit_transition ::
  "auditor \<Rightarrow> string \<Rightarrow> machine \<Rightarrow> string \<Rightarrow> string \<Rightarrow> string \<Rightarrow> string \<Rightarrow> string \<Rightarrow> string
    \<Rightarrow> guard_registry option \<Rightarrow> guard_ctx \<Rightarrow> guard_ctx \<Rightarrow> transition_audit py \<times> auditor" where
  "audit_transition a now m entity_id from_state to_state action actor_id reason registry ctx metadata =
     (let a = a\<lparr>ad_seq := ad_seq a + 1\<rparr>;
          res = py_bind (stable_identifier ''tx-audit'' [(''machine'', JStr (sm_id m)), (''entity'', JStr entity_id),
                           (''seq'', JInt (ad_seq a))]) (\<lambda>audit_id.
                py_bind (attempt_verdict m from_state to_state action registry ctx) (\<lambda>verdict.
                  check_audit \<lparr>ta_audit_id = audit_id, ta_machine_id = sm_id m, ta_entity_id = entity_id,
                    ta_from = from_state, ta_to = to_state, ta_action = action, ta_verdict = verdict,
                    ta_actor_id = actor_id, ta_reason = reason, ta_transitioned_at = now, ta_metadata = metadata\<rparr>))
      in case res of
           Inl e \<Rightarrow> (Inl e, a)
         | Inr r \<Rightarrow> (Inr r, a\<lparr>ad_records := ad_records a @ [r]\<rparr>))"

definition records_for :: "auditor \<Rightarrow> string \<Rightarrow> transition_audit list" where
  "records_for a entity_id = filter (\<lambda>r. ta_entity_id r = entity_id) (ad_records a)"

definition records_for_machine :: "auditor \<Rightarrow> string \<Rightarrow> transition_audit list" where
  "records_for_machine a machine_id = filter (\<lambda>r. ta_machine_id r = machine_id) (ad_records a)"

definition denied_records :: "auditor \<Rightarrow> transition_audit list" where
  "denied_records a = filter (\<lambda>r. ta_verdict r \<noteq> V_ALLOWED) (ad_records a)"


record audit_snapshot =
  as_records :: "(string \<times> json) list list"
  as_seq :: "int option"

definition audit_to_dict :: "transition_audit \<Rightarrow> (string \<times> json) list" where
  "audit_to_dict r =
     [(''audit_id'', JStr (ta_audit_id r)), (''machine_id'', JStr (ta_machine_id r)),
      (''entity_id'', JStr (ta_entity_id r)), (''from_state'', JStr (ta_from r)),
      (''to_state'', JStr (ta_to r)), (''action'', JStr (ta_action r)),
      (''verdict'', JStr (verdict_value (ta_verdict r))), (''actor_id'', JStr (ta_actor_id r)),
      (''reason'', JStr (ta_reason r)), (''transitioned_at'', JStr (ta_transitioned_at r)),
      (''metadata'', JObj (ta_metadata r))]"

definition audit_snapshot :: "auditor \<Rightarrow> audit_snapshot" where
  "audit_snapshot a = \<lparr>as_records = map audit_to_dict (ad_records a), as_seq = Some (ad_seq a)\<rparr>"

text \<open>An argument that must be a text: any other type fails the same check as a blank one.\<close>

definition text_of :: "(string \<times> json) list \<Rightarrow> string \<Rightarrow> string" where
  "text_of d key = (case dict_get d key of Some (JStr s) \<Rightarrow> s | _ \<Rightarrow> [])"

definition verdict_of :: "(string \<times> json) list \<Rightarrow> transition_verdict py" where
  "verdict_of d =
     (case dict_get d ''verdict'' of
        None \<Rightarrow> Inl (KeyError ''verdict'')
      | Some v \<Rightarrow>
          (case find (\<lambda>x. v = JStr (verdict_value x))
                  [V_ALLOWED, V_DENIED_ILLEGAL_EDGE, V_DENIED_TERMINAL_STATE, V_DENIED_GUARD_FAILED] of
             None \<Rightarrow> Inl (ValueError ''not a valid TransitionVerdict'')
           | Some x \<Rightarrow> Inr x))"

definition AUDIT_FIELDS :: "string list" where
  "AUDIT_FIELDS = [''audit_id'', ''machine_id'', ''entity_id'', ''from_state'', ''to_state'', ''action'',
     ''verdict'', ''actor_id'', ''reason'', ''transitioned_at'']"

text \<open>The constructor called with the dictionary: the texts, the reason, the time, the metadata.\<close>

definition audit_fields :: "(string \<times> json) list \<Rightarrow> transition_verdict \<Rightarrow> transition_audit" where
  "audit_fields d verdict =
     \<lparr>ta_audit_id = text_of d ''audit_id'', ta_machine_id = text_of d ''machine_id'',
      ta_entity_id = text_of d ''entity_id'', ta_from = text_of d ''from_state'', ta_to = text_of d ''to_state'',
      ta_action = text_of d ''action'', ta_verdict = verdict, ta_actor_id = text_of d ''actor_id'',
      ta_reason = text_of d ''reason'', ta_transitioned_at = text_of d ''transitioned_at'', ta_metadata = []\<rparr>"

definition audit_tail :: "(string \<times> json) list \<Rightarrow> transition_audit \<Rightarrow> transition_audit py" where
  "audit_tail d r =
     (case dict_get d ''reason'' of
        Some (JStr _) \<Rightarrow>
          py_bind (require_datetime_text (ta_transitioned_at r) ''transitioned_at'') (\<lambda>_.
            case dict_get d ''metadata'' of
              None \<Rightarrow> Inr r
            | Some (JObj md) \<Rightarrow> Inr (r\<lparr>ta_metadata := md\<rparr>)
            | _ \<Rightarrow> Inl (ValueError ''metadata must be a mapping''))
      | _ \<Rightarrow> Inl (ValueError ''reason must be a string''))"

definition audit_of_dict :: "(string \<times> json) list \<Rightarrow> transition_audit py" where
  "audit_of_dict d =
     py_bind (verdict_of d) (\<lambda>verdict.
     py_bind (call_keys AUDIT_FIELDS [''metadata''] d) (\<lambda>_.
     py_bind (check_audit_texts (audit_fields d verdict)) (\<lambda>_. audit_tail d (audit_fields d verdict))))"

section \<open>The canonical machines\<close>

definition rule_of :: "string \<Rightarrow> string \<Rightarrow> string \<Rightarrow> string \<Rightarrow> string \<Rightarrow> transition_rule" where
  "rule_of from_state to_state action guard_label emits =
     \<lparr>tr_from = from_state, tr_to = to_state, tr_action = action, tr_guard_label = guard_label, tr_emits = emits\<rparr>"

definition OBLIGATION_MACHINE :: machine where
  "OBLIGATION_MACHINE = \<lparr>sm_id = ''obligation-lifecycle'', sm_name = ''Obligation Lifecycle'', sm_version = ''2.0.0'',
     sm_states = [''pending'', ''active'', ''escalated'', ''completed'', ''expired'', ''cancelled''],
     sm_initial = ''pending'',
     sm_terminal = [''completed'', ''expired'', ''cancelled''],
     sm_transitions =
      [rule_of ''pending'' ''active'' ''activate'' [] ''obligation_activated'',
       rule_of ''pending'' ''completed'' ''close'' ''final_state=completed'' ''obligation_closed'',
       rule_of ''pending'' ''expired'' ''close'' ''final_state=expired'' ''obligation_expired'',
       rule_of ''pending'' ''cancelled'' ''close'' ''final_state=cancelled'' ''obligation_cancelled'',
       rule_of ''pending'' ''escalated'' ''escalate'' [] ''obligation_escalated'',
       rule_of ''pending'' ''pending'' ''transfer'' ''owner_changes'' ''obligation_transferred'',
       rule_of ''active'' ''completed'' ''close'' ''final_state=completed'' ''obligation_closed'',
       rule_of ''active'' ''expired'' ''close'' ''final_state=expired'' ''obligation_expired'',
       rule_of ''active'' ''cancelled'' ''close'' ''final_state=cancelled'' ''obligation_cancelled'',
       rule_of ''active'' ''escalated'' ''escalate'' [] ''obligation_escalated'',
       rule_of ''active'' ''active'' ''transfer'' ''owner_changes'' ''obligation_transferred'',
       rule_of ''escalated'' ''completed'' ''close'' ''final_state=completed'' ''obligation_closed'',
       rule_of ''escalated'' ''expired'' ''close'' ''final_state=expired'' ''obligation_expired'',
       rule_of ''escalated'' ''cancelled'' ''close'' ''final_state=cancelled'' ''obligation_cancelled'',
       rule_of ''escalated'' ''escalated'' ''escalate'' ''re-escalation to higher authority'' ''obligation_escalated'',
       rule_of ''escalated'' ''escalated'' ''transfer'' ''owner_changes'' ''obligation_transferred'']\<rparr>"

definition SUPERVISOR_MACHINE :: machine where
  "SUPERVISOR_MACHINE = \<lparr>sm_id = ''supervisor-tick-lifecycle'', sm_name = ''Supervisor Tick Lifecycle'', sm_version = ''2.0.0'',
     sm_states = [''idle'', ''polling'', ''evaluating_obligations'', ''evaluating_deadlines'', ''waking_work'',
       ''running_reactions'', ''reasoning'', ''acting'', ''checkpointing'', ''emitting_heartbeat'',
       ''paused'', ''degraded'', ''halted''],
     sm_initial = ''idle'',
     sm_terminal = [''halted''],
     sm_transitions =
      [rule_of ''idle'' ''polling'' ''tick_start'' [] ''supervisor_tick_started'',
       rule_of ''polling'' ''evaluating_obligations'' ''poll_complete'' [] ''supervisor_poll_complete'',
       rule_of ''polling'' ''degraded'' ''backpressure_triggered'' [] ''supervisor_backpressure'',
       rule_of ''evaluating_obligations'' ''evaluating_deadlines'' ''obligations_evaluated'' [] [],
       rule_of ''evaluating_deadlines'' ''waking_work'' ''deadlines_evaluated'' [] [],
       rule_of ''waking_work'' ''running_reactions'' ''work_woken'' [] [],
       rule_of ''running_reactions'' ''reasoning'' ''reactions_complete'' [] [],
       rule_of ''reasoning'' ''acting'' ''reasoning_complete'' [] [],
       rule_of ''acting'' ''checkpointing'' ''actions_complete'' ''checkpoint_interval_reached'' ''supervisor_checkpointing'',
       rule_of ''acting'' ''emitting_heartbeat'' ''actions_complete_no_checkpoint'' ''checkpoint_interval_not_reached'' [],
       rule_of ''acting'' ''idle'' ''tick_complete'' [] ''supervisor_tick_complete'',
       rule_of ''checkpointing'' ''emitting_heartbeat'' ''checkpoint_complete'' ''heartbeat_interval_reached'' ''supervisor_checkpoint_complete'',
       rule_of ''checkpointing'' ''idle'' ''checkpoint_complete_no_heartbeat'' ''heartbeat_interval_not_reached'' ''supervisor_checkpoint_complete'',
       rule_of ''emitting_heartbeat'' ''idle'' ''heartbeat_complete'' [] ''supervisor_heartbeat_emitted'',
       rule_of ''idle'' ''paused'' ''pause'' [] ''supervisor_paused'',
       rule_of ''paused'' ''idle'' ''resume'' [] ''supervisor_resumed'',
       rule_of ''paused'' ''halted'' ''halt'' ''operator_halt_while_paused'' ''supervisor_halted'',
       rule_of ''paused'' ''degraded'' ''error'' [] ''supervisor_error'',
       rule_of ''degraded'' ''idle'' ''tick_complete'' ''backpressure/livelock resolved'' [],
       rule_of ''degraded'' ''halted'' ''halt'' ''livelock strategy=HALT or max_errors exceeded'' ''supervisor_halted'',
       rule_of ''degraded'' ''paused'' ''pause'' ''operator_pause_in_degraded'' ''supervisor_paused'',
       rule_of ''acting'' ''degraded'' ''livelock_detected'' [] ''supervisor_livelock'',
       rule_of ''idle'' ''degraded'' ''error'' [] ''supervisor_error'',
       rule_of ''polling'' ''degraded'' ''error'' [] ''supervisor_error'',
       rule_of ''evaluating_obligations'' ''degraded'' ''error'' [] ''supervisor_error'',
       rule_of ''evaluating_deadlines'' ''degraded'' ''error'' [] ''supervisor_error'',
       rule_of ''waking_work'' ''degraded'' ''error'' [] ''supervisor_error'',
       rule_of ''running_reactions'' ''degraded'' ''error'' [] ''supervisor_error'',
       rule_of ''reasoning'' ''degraded'' ''error'' [] ''supervisor_error'',
       rule_of ''acting'' ''degraded'' ''error'' [] ''supervisor_error'',
       rule_of ''checkpointing'' ''degraded'' ''error'' [] ''supervisor_error'',
       rule_of ''emitting_heartbeat'' ''degraded'' ''error'' [] ''supervisor_error'',
       rule_of ''degraded'' ''degraded'' ''error'' [] ''supervisor_error'']\<rparr>"

definition REACTION_PIPELINE_MACHINE :: machine where
  "REACTION_PIPELINE_MACHINE = \<lparr>sm_id = ''reaction-pipeline'', sm_name = ''Reaction Pipeline'', sm_version = ''2.0.0'',
     sm_states = [''received'', ''matching'', ''idempotency_check'', ''backpressure_check'', ''gating'',
       ''executed'', ''emitted'', ''deferred'', ''rejected'', ''recorded''],
     sm_initial = ''received'',
     sm_terminal = [''recorded''],
     sm_transitions =
      [rule_of ''received'' ''matching'' ''begin_react'' [] [],
       rule_of ''matching'' ''idempotency_check'' ''rules_matched'' [] [],
       rule_of ''matching'' ''recorded'' ''no_rules_matched'' ''zero matched rules'' [],
       rule_of ''idempotency_check'' ''rejected'' ''duplicate_detected'' [] ''reaction_rejected'',
       rule_of ''idempotency_check'' ''backpressure_check'' ''not_duplicate'' [] [],
       rule_of ''backpressure_check'' ''deferred'' ''backpressure_limit'' [] ''reaction_deferred'',
       rule_of ''backpressure_check'' ''gating'' ''backpressure_ok'' [] [],
       rule_of ''gating'' ''executed'' ''verdict_proceed'' [] ''reaction_executed'',
       rule_of ''gating'' ''deferred'' ''verdict_defer'' [] ''reaction_deferred'',
       rule_of ''gating'' ''rejected'' ''verdict_reject'' [] ''reaction_rejected'',
       rule_of ''gating'' ''rejected'' ''verdict_escalate'' [] ''reaction_rejected'',
       rule_of ''gating'' ''rejected'' ''verdict_requires_approval'' [] ''reaction_rejected'',
       rule_of ''executed'' ''emitted'' ''emit_event'' [] ''reaction_event_emitted'',
       rule_of ''emitted'' ''recorded'' ''record'' [] [],
       rule_of ''executed'' ''recorded'' ''record'' ''no_event_emission'' [],
       rule_of ''deferred'' ''recorded'' ''record'' [] [],
       rule_of ''rejected'' ''recorded'' ''record'' [] []]\<rparr>"

definition CHECKPOINT_LIFECYCLE_MACHINE :: machine where
  "CHECKPOINT_LIFECYCLE_MACHINE = \<lparr>sm_id = ''checkpoint-lifecycle'', sm_name = ''Checkpoint Lifecycle'', sm_version = ''1.0.0'',
     sm_states = [''idle'', ''capturing'', ''verifying_capture'', ''committed'', ''restoring'',
       ''verifying_restore'', ''verified'', ''rolling_back'', ''failed''],
     sm_initial = ''idle'',
     sm_terminal = [''failed''],
     sm_transitions =
      [rule_of ''idle'' ''capturing'' ''begin_capture'' [] ''checkpoint_capture_started'',
       rule_of ''capturing'' ''verifying_capture'' ''snapshots_complete'' [] ''checkpoint_snapshots_captured'',
       rule_of ''verifying_capture'' ''committed'' ''hash_verified'' [] ''checkpoint_committed'',
       rule_of ''verifying_capture'' ''failed'' ''hash_mismatch'' [] ''checkpoint_capture_failed'',
       rule_of ''committed'' ''idle'' ''capture_finalized'' [] ''checkpoint_capture_complete'',
       rule_of ''idle'' ''restoring'' ''begin_restore'' [] ''checkpoint_restore_started'',
       rule_of ''restoring'' ''verifying_restore'' ''subsystems_restored'' [] ''checkpoint_subsystems_restored'',
       rule_of ''verifying_restore'' ''verified'' ''restore_hash_verified'' [] ''checkpoint_restore_verified'',
       rule_of ''verified'' ''idle'' ''restore_finalized'' [] ''checkpoint_restore_complete'',
       rule_of ''verifying_restore'' ''rolling_back'' ''restore_hash_mismatch'' [] ''checkpoint_rollback_triggered'',
       rule_of ''restoring'' ''rolling_back'' ''restore_error'' [] ''checkpoint_rollback_triggered'',
       rule_of ''rolling_back'' ''idle'' ''rollback_complete'' [] ''checkpoint_rollback_complete'',
       rule_of ''rolling_back'' ''failed'' ''rollback_failed'' [] ''checkpoint_rollback_failed'']\<rparr>"

definition MACHINE_REGISTRY :: "(string, machine) pydict" where
  "MACHINE_REGISTRY = map (\<lambda>m. (sm_id m, m))
     [OBLIGATION_MACHINE, SUPERVISOR_MACHINE, REACTION_PIPELINE_MACHINE, CHECKPOINT_LIFECYCLE_MACHINE]"

text \<open>\<open>TransitionAuditor.restore\<close>: the first bad record stops it and leaves the auditor as it was.\<close>

fun restore_records :: "(string \<times> json) list list \<Rightarrow> transition_audit list py" where
  "restore_records [] = Inr []"
| "restore_records (d # ds) =
     py_bind (audit_of_dict d) (\<lambda>r.
       case dict_get MACHINE_REGISTRY (ta_machine_id r) of
         Some m \<Rightarrow>
           if ta_verdict r = V_ALLOWED \<and> is_legal m (ta_from r) (ta_to r) (ta_action r) \<noteq> V_ALLOWED
           then Inl (RuntimeCoreInvariantError ''audit record is inconsistent with machine definition'')
           else py_bind (restore_records ds) (\<lambda>rs. Inr (r # rs))
       | None \<Rightarrow> py_bind (restore_records ds) (\<lambda>rs. Inr (r # rs)))"

definition audit_restore :: "auditor \<Rightarrow> audit_snapshot \<Rightarrow> unit py \<times> auditor" where
  "audit_restore a sn =
     (case restore_records (as_records sn) of
        Inl e \<Rightarrow> (Inl e, a)
      | Inr rs \<Rightarrow> (Inr (), \<lparr>ad_records = rs,
          ad_seq = (case as_seq sn of Some n \<Rightarrow> n | None \<Rightarrow> int (length rs))\<rparr>))"

section \<open>Replay\<close>

record replay_step =
  rp_audit_id :: string
  rp_original :: string
  rp_replayed :: string
  rp_match :: string
  rp_detail :: "string option"

definition replay_verdict :: "machine \<Rightarrow> guard_registry option \<Rightarrow> transition_audit \<Rightarrow> transition_verdict py" where
  "replay_verdict m registry r =
     (let verdict = is_legal m (ta_from r) (ta_to r) (ta_action r)
      in case registry of
           None \<Rightarrow> Inr verdict
         | Some reg \<Rightarrow>
             if verdict \<noteq> V_ALLOWED then Inr verdict
             else case find (\<lambda>t. rule_matches (ta_from r) (ta_to r) (ta_action r) t \<and> tr_guard_label t \<noteq> [])
                         (sm_transitions m) of
                    None \<Rightarrow> Inr verdict
                  | Some t \<Rightarrow> py_bind (guard_evaluate reg (tr_guard_label t) (ta_metadata r))
                      (\<lambda>ok. Inr (if ok then verdict else V_DENIED_GUARD_FAILED)))"

fun replay_loop ::
  "machine \<Rightarrow> guard_registry option \<Rightarrow> bool \<Rightarrow> string option \<Rightarrow> transition_audit list
    \<Rightarrow> (replay_step list \<times> bool) py" where
  "replay_loop m registry halt current [] = Inr ([], False)"
| "replay_loop m registry halt current (r # rs) =
     (let step = (\<lambda>replayed mtch detail. \<lparr>rp_audit_id = ta_audit_id r,
            rp_original = verdict_value (ta_verdict r), rp_replayed = replayed, rp_match = mtch, rp_detail = detail\<rparr>)
      in if ta_machine_id r \<noteq> sm_id m
         then py_bind (replay_loop m registry halt current rs)
                (\<lambda>(steps, diverged). Inr (step ''skipped'' ''skipped'' None # steps, diverged))
         else if current \<noteq> None \<and> current \<noteq> Some (ta_from r)
         then let s = step (verdict_value V_DENIED_ILLEGAL_EDGE) ''diverged'' (Some ''state continuity mismatch'')
              in if halt then Inr ([s], True)
                 else py_bind (replay_loop m registry halt current rs) (\<lambda>(steps, _). Inr (s # steps, True))
         else py_bind (replay_verdict m registry r) (\<lambda>verdict.
              let same = (verdict = ta_verdict r);
                  s = step (verdict_value verdict) (if same then ''match'' else ''diverged'') None;
                  current = (if ta_verdict r = V_ALLOWED then Some (ta_to r) else current)
              in if \<not> same \<and> halt then Inr ([s], True)
                 else py_bind (replay_loop m registry halt current rs)
                        (\<lambda>(steps, diverged). Inr (s # steps, diverged \<or> \<not> same))))"

definition replay ::
  "machine \<Rightarrow> guard_registry option \<Rightarrow> transition_audit list \<Rightarrow> bool \<Rightarrow> (replay_step list \<times> string) py" where
  "replay m registry records halt =
     py_bind (replay_loop m registry halt None records) (\<lambda>(steps, diverged).
       Inr (steps, if diverged then ''divergence_detected'' else ''success''))"

section \<open>Accepted machines\<close>

lemma check_transitions_ok:
  "check_transitions states seen ts = Inr () \<longleftrightarrow>
     list_all (\<lambda>t. tr_from t \<in> set states \<and> tr_to t \<in> set states) ts \<and>
     distinct (map (\<lambda>t. (tr_from t, tr_to t, tr_action t, tr_guard_label t)) ts) \<and>
     set seen \<inter> (\<lambda>t. (tr_from t, tr_to t, tr_action t, tr_guard_label t)) ` set ts = {}"
  by (induction states seen ts rule: check_transitions.induct) (auto simp: Let_def)

lemma check_machineD:
  assumes "check_machine m = Inr m'"
  shows "m' = m" "sm_initial m \<in> set (sm_states m)" "set (sm_terminal m) \<subseteq> set (sm_states m)"
    "list_all (\<lambda>t. tr_from t \<in> set (sm_states m) \<and> tr_to t \<in> set (sm_states m)) (sm_transitions m)"
    "\<not> list_ex (\<lambda>ts. list_ex (\<lambda>t. tr_from t = ts) (sm_transitions m)) (sm_terminal m)"
  using assms
  by (auto simp: check_machine_def py_bind_Inr_iff check_transitions_ok list_all_iff split: if_splits)

definition machine_move :: "machine \<Rightarrow> string \<Rightarrow> string \<Rightarrow> bool" where
  "machine_move m s t \<longleftrightarrow> (\<exists>action. is_legal m s t action = V_ALLOWED)"

lemma is_legal_allowed: "is_legal m s t a = V_ALLOWED \<longleftrightarrow>
    s \<notin> set (sm_terminal m) \<and> (\<exists>r \<in> set (sm_transitions m). rule_matches s t a r)"
  by (auto simp: is_legal_def list_ex_iff)

lemma machine_move_iff:
  "machine_move m s t \<longleftrightarrow> s \<notin> set (sm_terminal m) \<and> t \<in> set (reachable_from m s)"
  by (auto simp: machine_move_def is_legal_allowed rule_matches_def reachable_from_def legal_actions_def)

text \<open>What the constructor of a machine promises to everyone who checks moves against it.\<close>

locale accepted_machine =
  fixes m :: machine
  assumes accepted: "check_machine m = Inr m"
begin

lemma terminal_no_rule: "s \<in> set (sm_terminal m) \<Longrightarrow> r \<in> set (sm_transitions m) \<Longrightarrow> tr_from r \<noteq> s"
  using check_machineD(5)[OF accepted] by (auto simp: list_ex_iff)

lemma allowed_iff: "is_legal m s t a = V_ALLOWED \<longleftrightarrow> (\<exists>r \<in> set (sm_transitions m). rule_matches s t a r)"
  using terminal_no_rule by (auto simp: is_legal_allowed rule_matches_def)

lemma allowed_states: "is_legal m s t a = V_ALLOWED \<Longrightarrow> s \<in> set (sm_states m) \<and> t \<in> set (sm_states m)"
  using check_machineD(4)[OF accepted] by (auto simp: allowed_iff rule_matches_def list_all_iff)

lemma path_states: "s \<in> set (sm_states m) \<Longrightarrow> legal_path (machine_move m) s p \<Longrightarrow> set p \<subseteq> set (sm_states m)"
proof (induction p arbitrary: s)
  case (Cons t p)
  then have "t \<in> set (sm_states m)" using allowed_states by (auto simp: machine_move_def)
  with Cons show ?case by simp
qed simp

end

sublocale accepted_machine \<subseteq> lifecycle "machine_move m" "\<lambda>s. s \<in> set (sm_terminal m)"
  by unfold_locales (simp add: machine_move_iff)

lemma registry_accepted: "list_all (\<lambda>(k, m). check_machine m = Inr m) MACHINE_REGISTRY"
  by code_simp

interpretation obligation_lifecycle: accepted_machine OBLIGATION_MACHINE
  by unfold_locales code_simp

interpretation supervisor_lifecycle: accepted_machine SUPERVISOR_MACHINE
  by unfold_locales code_simp

interpretation checkpoint_lifecycle: accepted_machine CHECKPOINT_LIFECYCLE_MACHINE
  by unfold_locales code_simp

interpretation reaction_lifecycle: accepted_machine REACTION_PIPELINE_MACHINE
  by unfold_locales code_simp

text \<open>
  C11: For every specification the constructor accepts, the three verdicts of the structural check mean
  what they say: a move is allowed exactly when a rule of the table declares it, from and to declared
  states and never from a terminal one; it is denied as terminal exactly from a terminal state.
\<close>

theorem verdicts_follow_table:
  assumes "check_machine m = Inr m"
  shows "(is_legal m s t a = V_ALLOWED \<longleftrightarrow> (\<exists>r \<in> set (sm_transitions m). rule_matches s t a r)) \<and>
    (is_legal m s t a = V_ALLOWED \<longrightarrow>
       s \<in> set (sm_states m) \<and> s \<notin> set (sm_terminal m) \<and> t \<in> set (sm_states m)) \<and>
    (is_legal m s t a = V_DENIED_TERMINAL_STATE \<longleftrightarrow> s \<in> set (sm_terminal m)) \<and>
    is_legal m s t a \<noteq> V_DENIED_GUARD_FAILED"
proof -
  have acc: "accepted_machine m" by (rule accepted_machine.intro[OF assms])
  show ?thesis
    using accepted_machine.allowed_iff[OF acc, of s t a] accepted_machine.allowed_states[OF acc, of s t a]
      is_legal_allowed[of m s t a]
    by (auto simp: is_legal_def)
qed

section \<open>Progress\<close>

text \<open>States by their position, the edges of the table, and the positions an edge list floods.\<close>

fun position :: "string list \<Rightarrow> string \<Rightarrow> nat" where
  "position [] x = 0"
| "position (y # ys) x = (if y = x then 0 else Suc (position ys x))"

definition edges :: "machine \<Rightarrow> (nat \<times> nat) list" where
  "edges m = map (\<lambda>r. (position (sm_states m) (tr_from r), position (sm_states m) (tr_to r))) (sm_transitions m)"

definition flood_once :: "(nat \<times> nat) list \<Rightarrow> nat list \<Rightarrow> nat list" where
  "flood_once es ss = fold (\<lambda>(a, b) ss. if a \<in> set ss \<and> b \<notin> set ss then b # ss else ss) es ss"

fun flood :: "nat \<Rightarrow> (nat \<times> nat) list \<Rightarrow> nat list \<Rightarrow> nat list" where
  "flood 0 es ss = ss"
| "flood (Suc n) es ss = flood n es (flood_once es ss)"

lemma flood_once_ind:
  "\<forall>a b. (a, b) \<in> set es \<longrightarrow> P a \<longrightarrow> P b \<Longrightarrow> \<forall>i \<in> set ss. P i \<Longrightarrow> \<forall>i \<in> set (flood_once es ss). P i"
  unfolding flood_once_def
proof (induction es arbitrary: ss)
  case (Cons e es)
  obtain a b where e: "e = (a, b)" by (cases e)
  from Cons(2,3) e have all: "\<forall>i \<in> set (if a \<in> set ss \<and> b \<notin> set ss then b # ss else ss). P i" by auto
  from Cons(2) have "\<forall>a b. (a, b) \<in> set es \<longrightarrow> P a \<longrightarrow> P b" by auto
  from Cons(1)[OF this all] show ?case by (simp only: e fold.simps o_apply prod.case)
qed simp

lemma flood_ind:
  "\<forall>a b. (a, b) \<in> set es \<longrightarrow> P a \<longrightarrow> P b \<Longrightarrow> \<forall>i \<in> set ss. P i \<Longrightarrow> \<forall>i \<in> set (flood n es ss). P i"
proof (induction n arbitrary: ss)
  case (Suc n)
  from Suc(1)[OF Suc(2) flood_once_ind[OF Suc(2,3)]] show ?case by simp
qed simp

lemma position_inj: "x \<in> set xs \<Longrightarrow> y \<in> set xs \<Longrightarrow> position xs x = position xs y \<Longrightarrow> x = y"
  by (induction xs) (auto split: if_splits)

definition progress_ok :: "machine \<Rightarrow> bool" where
  "progress_ok m \<longleftrightarrow>
     (let n = length (sm_states m); es = edges m;
          forth = flood n es [position (sm_states m) (sm_initial m)];
          back = flood n (map prod.swap es) (map (position (sm_states m)) (sm_terminal m))
      in list_all (\<lambda>i. i \<in> set forth \<and> i \<in> set back) [0..<n])"

lemma registry_progress: "list_all (\<lambda>(k, m). progress_ok m) MACHINE_REGISTRY"
  by code_simp

context accepted_machine
begin

lemma edge_move:
  assumes "(a, b) \<in> set (edges m)"
  obtains s t where "a = position (sm_states m) s" "b = position (sm_states m) t"
    "s \<in> set (sm_states m)" "t \<in> set (sm_states m)" "machine_move m s t"
proof -
  from assms obtain r where r: "r \<in> set (sm_transitions m)" "a = position (sm_states m) (tr_from r)"
    "b = position (sm_states m) (tr_to r)" by (auto simp: edges_def)
  then have "is_legal m (tr_from r) (tr_to r) (tr_action r) = V_ALLOWED" by (auto simp: allowed_iff rule_matches_def)
  with allowed_states[OF this] r that[of "tr_from r" "tr_to r"] show thesis by (auto simp: machine_move_def)
qed

lemma position_less: "s \<in> set xs \<Longrightarrow> position xs s < length xs"
  by (induction xs) auto

lemma progress_states:
  assumes "progress_ok m" and s: "s \<in> set (sm_states m)"
  shows "(machine_move m)\<^sup>*\<^sup>* (sm_initial m) s" "\<exists>t \<in> set (sm_terminal m). (machine_move m)\<^sup>*\<^sup>* s t"
proof -
  let ?pos = "position (sm_states m)"
  let ?P = "\<lambda>i. \<forall>t \<in> set (sm_states m). ?pos t = i \<longrightarrow> (machine_move m)\<^sup>*\<^sup>* (sm_initial m) t"
  let ?Q = "\<lambda>i. \<forall>u \<in> set (sm_states m). ?pos u = i \<longrightarrow> (\<exists>t \<in> set (sm_terminal m). (machine_move m)\<^sup>*\<^sup>* u t)"
  have i: "?pos s < length (sm_states m)" using s by (rule position_less)
  from assms(1) i have mem: "?pos s \<in> set (flood (length (sm_states m)) (edges m) [?pos (sm_initial m)])"
    "?pos s \<in> set (flood (length (sm_states m)) (map prod.swap (edges m)) (map ?pos (sm_terminal m)))"
    by (auto simp: progress_ok_def list_all_iff Let_def)
  have P: "?P b" if e: "(a, b) \<in> set (edges m)" and pa: "?P a" for a b
  proof (intro ballI impI)
    fix t
    assume t: "t \<in> set (sm_states m)" "?pos t = b"
    from edge_move[OF e] obtain u v where uv: "a = ?pos u" "b = ?pos v" "u \<in> set (sm_states m)"
      "v \<in> set (sm_states m)" "machine_move m u v" by metis
    with t position_inj have "v = t" by metis
    with pa uv show "(machine_move m)\<^sup>*\<^sup>* (sm_initial m) t" by (metis rtranclp.rtrancl_into_rtrancl)
  qed
  have A: "\<forall>i \<in> set [?pos (sm_initial m)]. ?P i"
    using position_inj check_machineD(2)[OF accepted] by fastforce
  from P have "\<forall>a b. (a, b) \<in> set (edges m) \<longrightarrow> ?P a \<longrightarrow> ?P b" by blast
  from flood_ind[OF this A] mem(1) s show "(machine_move m)\<^sup>*\<^sup>* (sm_initial m) s" by blast
  have Q: "?Q b" if e: "(a, b) \<in> set (map prod.swap (edges m))" and qa: "?Q a" for a b
  proof (intro ballI impI)
    fix u
    assume u: "u \<in> set (sm_states m)" "?pos u = b"
    from e have "(b, a) \<in> set (edges m)" by auto
    from edge_move[OF this] obtain v w where vw: "b = ?pos v" "a = ?pos w" "v \<in> set (sm_states m)"
      "w \<in> set (sm_states m)" "machine_move m v w" by metis
    with u position_inj have "v = u" by metis
    with qa vw show "\<exists>t \<in> set (sm_terminal m). (machine_move m)\<^sup>*\<^sup>* u t"
      by (metis converse_rtranclp_into_rtranclp)
  qed
  have B: "\<forall>i \<in> set (map ?pos (sm_terminal m)). ?Q i"
    using position_inj check_machineD(3)[OF accepted] by (auto intro!: bexI)
  from Q have "\<forall>a b. (a, b) \<in> set (map prod.swap (edges m)) \<longrightarrow> ?Q a \<longrightarrow> ?Q b" by blast
  from flood_ind[OF this B] mem(2) s show "\<exists>t \<in> set (sm_terminal m). (machine_move m)\<^sup>*\<^sup>* s t" by blast
qed

end

text \<open>
  In each of the four canonical machines every declared state is reachable from the initial one, and
  from every state, however the run got there, a terminal state can still be reached.
\<close>

theorem canonical_machines_progress:
  assumes "(machine_id, m) \<in> set MACHINE_REGISTRY" and "s \<in> set (sm_states m)"
  shows "check_machine m = Inr m \<and> (machine_move m)\<^sup>*\<^sup>* (sm_initial m) s \<and>
    (\<exists>t \<in> set (sm_terminal m). (machine_move m)\<^sup>*\<^sup>* s t)"
proof -
  from assms(1) registry_accepted registry_progress
  have acc: "check_machine m = Inr m" and prog: "progress_ok m" by (auto simp: list_all_iff)
  from accepted_machine.progress_states[OF accepted_machine.intro[OF acc] prog assms(2)] acc show ?thesis by blast
qed

lemma registry_members:
  "(''obligation-lifecycle'', OBLIGATION_MACHINE) \<in> set MACHINE_REGISTRY"
  "(''supervisor-tick-lifecycle'', SUPERVISOR_MACHINE) \<in> set MACHINE_REGISTRY"
  by (simp_all add: MACHINE_REGISTRY_def OBLIGATION_MACHINE_def SUPERVISOR_MACHINE_def)

theorem canonical_machines_progress_witness:
  "(machine_move SUPERVISOR_MACHINE)\<^sup>*\<^sup>* ''idle'' ''emitting_heartbeat''"
proof -
  have "''emitting_heartbeat'' \<in> set (sm_states SUPERVISOR_MACHINE)" "sm_initial SUPERVISOR_MACHINE = ''idle''"
    by (simp_all add: SUPERVISOR_MACHINE_def)
  with canonical_machines_progress[OF registry_members(2)] show ?thesis by metis
qed

section \<open>The reaction pipeline ends\<close>

definition pipeline_rank :: "string \<Rightarrow> nat" where
  "pipeline_rank s =
     position [''received'', ''matching'', ''idempotency_check'', ''backpressure_check'', ''gating'',
       ''executed'', ''emitted'', ''deferred'', ''rejected'', ''recorded''] s"

lemma pipeline_rank_moves:
  "list_all (\<lambda>r. pipeline_rank (tr_from r) < pipeline_rank (tr_to r)) (sm_transitions REACTION_PIPELINE_MACHINE)"
  by code_simp

interpretation reaction_pipeline: ranked_lifecycle "machine_move REACTION_PIPELINE_MACHINE"
  "\<lambda>s. s \<in> set (sm_terminal REACTION_PIPELINE_MACHINE)" pipeline_rank
  using pipeline_rank_moves
  by unfold_locales (auto simp: machine_move_def is_legal_allowed rule_matches_def list_all_iff)

section \<open>Replay\<close>

text \<open>
  What a trail must be for the replay to succeed, without reference to the loop: the records of the
  machine follow one another, and each has the verdict that the machine gives today.
\<close>

fun continuous :: "string option \<Rightarrow> transition_audit list \<Rightarrow> bool" where
  "continuous current [] \<longleftrightarrow> True"
| "continuous current (r # rs) \<longleftrightarrow>
     (current = None \<or> current = Some (ta_from r)) \<and>
     continuous (if ta_verdict r = V_ALLOWED then Some (ta_to r) else current) rs"

lemma replay_loop_iff:
  "(\<exists>steps. replay_loop m reg halt current rs = Inr (steps, False)) \<longleftrightarrow>
     (let own = filter (\<lambda>r. ta_machine_id r = sm_id m) rs
      in continuous current own \<and> (\<forall>r \<in> set own. replay_verdict m reg r = Inr (ta_verdict r)))"
proof (induction rs arbitrary: current)
  case (Cons r rs)
  consider "ta_machine_id r \<noteq> sm_id m"
    | "ta_machine_id r = sm_id m" "current \<noteq> None \<and> current \<noteq> Some (ta_from r)"
    | "ta_machine_id r = sm_id m" "current = None \<or> current = Some (ta_from r)" by metis
  then show ?case
  proof cases
    case 1
    with Cons[of current] show ?thesis by (cases "replay_loop m reg halt current rs") (auto simp: Let_def)
  next
    case 2
    then show ?thesis by (cases "replay_loop m reg halt current rs") (auto simp: Let_def)
  next
    case 3
    then have c: "\<not> (current \<noteq> None \<and> current \<noteq> Some (ta_from r))" by blast
    let ?next = "if ta_verdict r = V_ALLOWED then Some (ta_to r) else current"
    show ?thesis
    proof (cases "replay_verdict m reg r")
      case (Inl e)
      with 3 show ?thesis by (auto simp: Let_def)
    next
      case (Inr v)
      show ?thesis
      proof (cases "v = ta_verdict r")
        case True
        with 3 c Inr Cons[of ?next] show ?thesis
          by (cases "replay_loop m reg halt ?next rs") (auto simp: Let_def)
      next
        case False
        with 3 c Inr show ?thesis
          by (cases "replay_loop m reg halt ?next rs") (auto simp: Let_def)
      qed
    qed
  qed
qed simp

lemma replay_success:
  "(\<exists>steps. replay m reg rs halt = Inr (steps, ''success'')) \<longleftrightarrow>
     continuous None (filter (\<lambda>r. ta_machine_id r = sm_id m) rs) \<and>
     (\<forall>r \<in> set (filter (\<lambda>r. ta_machine_id r = sm_id m) rs). replay_verdict m reg r = Inr (ta_verdict r))"
proof -
  have "(\<exists>steps. replay m reg rs halt = Inr (steps, ''success'')) \<longleftrightarrow>
    (\<exists>steps. replay_loop m reg halt None rs = Inr (steps, False))"
    by (cases "replay_loop m reg halt None rs") (auto simp: replay_def)
  also note replay_loop_iff
  finally show ?thesis by (simp only: Let_def)
qed

text \<open>
  C12: A replay reports success exactly for the trails whose records of the machine are continuous (each
  starts where the last allowed one ended) and carry the verdict the machine and its guards give when
  asked again; stopping at the first divergence or going on does not change the report.
\<close>

theorem replay_success_iff:
  "(\<exists>steps. replay m reg rs halt = Inr (steps, ''success'')) \<longleftrightarrow>
     (let own = filter (\<lambda>r. ta_machine_id r = sm_id m) rs
      in continuous None own \<and> (\<forall>r \<in> set own. replay_verdict m reg r = Inr (ta_verdict r)))"
  by (simp only: replay_success Let_def)

definition allowed_moves :: "machine \<Rightarrow> transition_audit list \<Rightarrow> transition_audit list" where
  "allowed_moves m rs = filter (\<lambda>r. ta_machine_id r = sm_id m \<and> ta_verdict r = V_ALLOWED) rs"

lemma replay_verdict_allowed:
  "replay_verdict m reg r = Inr V_ALLOWED \<Longrightarrow> machine_move m (ta_from r) (ta_to r)"
  by (auto simp: replay_verdict_def machine_move_def Let_def py_bind_Inr_iff split: option.splits if_splits)

lemma continuous_path:
  assumes "continuous current rs" "\<forall>r \<in> set rs. replay_verdict m reg r = Inr (ta_verdict r)"
    and "filter (\<lambda>r. ta_verdict r = V_ALLOWED) rs = a # as"
  shows "(current = None \<or> current = Some (ta_from a)) \<and>
    legal_path (machine_move m) (ta_from a) (map ta_to (a # as)) \<and>
    map ta_from (a # as) = butlast (ta_from a # map ta_to (a # as))"
  using assms
proof (induction rs arbitrary: current a as)
  case (Cons r rs)
  show ?case
  proof (cases "ta_verdict r = V_ALLOWED")
    case False
    with Cons show ?thesis by auto
  next
    case True
    with Cons(4) have a: "a = r" and as: "filter (\<lambda>r. ta_verdict r = V_ALLOWED) rs = as" by auto
    from True Cons(3) have move: "machine_move m (ta_from r) (ta_to r)" by (intro replay_verdict_allowed) auto
    show ?thesis
    proof (cases as)
      case Nil
      with a move Cons(2) show ?thesis by auto
    next
      case (Cons b bs)
      have "continuous (Some (ta_to r)) rs" "\<forall>r \<in> set rs. replay_verdict m reg r = Inr (ta_verdict r)"
        using Cons.prems(1,2) True by auto
      from Cons.IH[OF this as[unfolded Cons]] a Cons move Cons.prems(1) show ?thesis by auto
    qed
  qed
qed simp

text \<open>
  A trail that replays is a run of the machine: the allowed records, one after the other, are legal
  moves, the first from the state it names and each of the others from the state the one before it
  led to.
\<close>

theorem replayed_trail_is_run:
  assumes "replay m reg rs halt = Inr (steps, ''success'')" and "allowed_moves m rs = a # as"
  shows "legal_path (machine_move m) (ta_from a) (map ta_to (a # as)) \<and>
    map ta_from (a # as) = butlast (ta_from a # map ta_to (a # as))"
proof -
  let ?own = "filter (\<lambda>r. ta_machine_id r = sm_id m) rs"
  from assms(1) replay_loop_iff[of m reg halt None rs]
  have "continuous None ?own" "\<forall>r \<in> set ?own. replay_verdict m reg r = Inr (ta_verdict r)"
    by (auto simp: replay_def Let_def py_bind_Inr_iff split: if_splits)
  moreover have "filter (\<lambda>r. ta_verdict r = V_ALLOWED) ?own = a # as"
    using assms(2) by (simp add: allowed_moves_def conj_commute)
  ultimately show ?thesis by (rule continuous_path[THEN conjunct2])
qed

section \<open>Trails the auditor makes\<close>

text \<open>
  An entity driven through a machine: each request names the clock reading, the target, the action, the
  actor, the reason and the context of the guard, which is kept as metadata; the entity moves when
  the attempt was allowed.
\<close>

record attempt =
  at_now :: string
  at_to :: string
  at_action :: string
  at_actor :: string
  at_reason :: string
  at_ctx :: guard_ctx

fun drive :: "machine \<Rightarrow> guard_registry option \<Rightarrow> string \<Rightarrow> string \<Rightarrow> attempt list \<Rightarrow> auditor \<Rightarrow> auditor" where
  "drive m reg entity current [] a = a"
| "drive m reg entity current (x # xs) a =
     (case audit_transition a (at_now x) m entity current (at_to x) (at_action x) (at_actor x) (at_reason x)
             reg (at_ctx x) (at_ctx x) of
        (Inl e, a) \<Rightarrow> drive m reg entity current xs a
      | (Inr r, a) \<Rightarrow> drive m reg entity (if ta_verdict r = V_ALLOWED then ta_to r else current) xs a)"

text \<open>At most one rule for each move, so that its guard is the one every check asks.\<close>

definition one_rule_per_move :: "machine \<Rightarrow> bool" where
  "one_rule_per_move m \<longleftrightarrow> distinct (map (\<lambda>t. (tr_from t, tr_to t, tr_action t)) (sm_transitions m))"

lemma registry_one_rule: "list_all (\<lambda>(k, m). one_rule_per_move m) MACHINE_REGISTRY"
  by code_simp

lemma find_distinct_rule:
  "distinct (map (\<lambda>t. (tr_from t, tr_to t, tr_action t)) ts) \<Longrightarrow>
   find (\<lambda>t. rule_matches f g a t \<and> P t) ts =
     (case find (rule_matches f g a) ts of None \<Rightarrow> None | Some t \<Rightarrow> if P t then Some t else None)"
proof (induction ts)
  case (Cons t ts)
  have "find (\<lambda>t. rule_matches f g a t \<and> P t) ts = None" if "rule_matches f g a t"
    using that Cons(2) by (fastforce simp: find_None_iff rule_matches_def image_iff)
  with Cons show ?case by auto
qed simp

lemma replay_verdict_attempt:
  assumes "one_rule_per_move m"
  shows "replay_verdict m reg r = attempt_verdict m (ta_from r) (ta_to r) (ta_action r) reg (ta_metadata r)"
  using assms
  by (auto simp: replay_verdict_def attempt_verdict_def matching_rule_def one_rule_per_move_def Let_def
        find_distinct_rule split: option.splits)

lemma audit_transition_Inr:
  assumes "audit_transition a now m entity f t act actor reason reg ctx md = (Inr r, a')"
  shows "attempt_verdict m f t act reg ctx = Inr (ta_verdict r)" "ta_machine_id r = sm_id m" "ta_from r = f"
    "ta_to r = t" "ta_action r = act" "ta_metadata r = md" "ad_records a' = ad_records a @ [r]"
  using assms
  by (auto simp: audit_transition_def Let_def py_bind_Inr_iff check_audit_def split: sum.splits)

lemma audit_transition_Inl:
  "audit_transition a now m entity f t act actor reason reg ctx md = (Inl e, a') \<Longrightarrow> ad_records a' = ad_records a"
  by (auto simp: audit_transition_def Let_def split: sum.splits)

lemma drive_records:
  assumes "one_rule_per_move m"
  shows "\<exists>rs. ad_records (drive m reg entity current xs a) = ad_records a @ rs \<and>
    (c = None \<or> c = Some current \<longrightarrow> continuous c rs) \<and>
    (\<forall>r \<in> set rs. ta_machine_id r = sm_id m \<and> replay_verdict m reg r = Inr (ta_verdict r))"
proof (induction xs arbitrary: current a c)
  case (Cons x xs)
  obtain res a' where step: "audit_transition a (at_now x) m entity current (at_to x) (at_action x) (at_actor x)
      (at_reason x) reg (at_ctx x) (at_ctx x) = (res, a')" by (cases "audit_transition a (at_now x) m entity current
      (at_to x) (at_action x) (at_actor x) (at_reason x) reg (at_ctx x) (at_ctx x)")
  show ?case
  proof (cases res)
    case (Inl e)
    with step Cons[of current a' c] audit_transition_Inl[of a] show ?thesis by auto
  next
    case (Inr r)
    note r = audit_transition_Inr[OF step[unfolded Inr]]
    let ?next = "if ta_verdict r = V_ALLOWED then ta_to r else current"
    from Cons[of ?next a' "if ta_verdict r = V_ALLOWED then Some (ta_to r) else c"] obtain rs where
      rs: "ad_records (drive m reg entity ?next xs a') = ad_records a' @ rs"
      "c = None \<or> c = Some current \<longrightarrow> continuous (if ta_verdict r = V_ALLOWED then Some (ta_to r) else c) rs"
      "\<forall>r \<in> set rs. ta_machine_id r = sm_id m \<and> replay_verdict m reg r = Inr (ta_verdict r)"
      by (auto split: if_splits)
    have "replay_verdict m reg r = Inr (ta_verdict r)" using r by (simp add: replay_verdict_attempt[OF assms])
    with r rs step Inr show ?thesis by (intro exI[of _ "r # rs"]) auto
  qed
qed simp

text \<open>
  What the auditor writes, the replay accepts: for a machine with one rule per move (each canonical
  machine is one) the trail of an entity that was driven from its current state, through any
  requests, allowed, denied or rejected, replays with success under the same guards.
\<close>

theorem driven_trail_replays:
  assumes "one_rule_per_move m"
  shows "\<exists>steps. replay m reg (ad_records (drive m reg entity start xs auditor_init)) halt = Inr (steps, ''success'')"
proof -
  from drive_records[OF assms, of reg entity start xs auditor_init None] obtain rs where
    rs: "ad_records (drive m reg entity start xs auditor_init) = rs" "continuous None rs"
      "\<forall>r \<in> set rs. ta_machine_id r = sm_id m \<and> replay_verdict m reg r = Inr (ta_verdict r)"
    by (auto simp: auditor_init_def)
  then have "filter (\<lambda>r. ta_machine_id r = sm_id m) rs = rs" by (simp add: filter_id_conv)
  with rs replay_success show ?thesis by (simp add: Let_def)
qed

section \<open>Snapshot and restore\<close>

definition audit_ok :: "transition_audit \<Rightarrow> bool" where
  "audit_ok r \<longleftrightarrow> check_audit r = Inr r \<and>
     (\<forall>m. dict_get MACHINE_REGISTRY (ta_machine_id r) = Some m \<longrightarrow> ta_verdict r = V_ALLOWED \<longrightarrow>
        is_legal m (ta_from r) (ta_to r) (ta_action r) = V_ALLOWED)"

lemma check_audit_texts_ok:
  "check_audit_texts r = Inr u \<longleftrightarrow> \<not> blank (ta_audit_id r) \<and> \<not> blank (ta_machine_id r) \<and>
     \<not> blank (ta_entity_id r) \<and> \<not> blank (ta_from r) \<and> \<not> blank (ta_to r) \<and> \<not> blank (ta_action r) \<and>
     \<not> blank (ta_actor_id r)"
  by (auto simp: check_audit_texts_def py_bind_Inr_iff validators)

lemma check_audit_ok:
  "check_audit r = Inr r' \<longleftrightarrow> (\<exists>u. check_audit_texts r = Inr u) \<and> \<not> blank (ta_transitioned_at r) \<and>
     iso_text (ta_transitioned_at r) \<and> r' = r"
  by (auto simp: check_audit_def py_bind_Inr_iff validators)

lemma verdict_of_to_dict: "verdict_of (audit_to_dict r) = Inr (ta_verdict r)"
  by (cases "ta_verdict r") (simp_all add: verdict_of_def audit_to_dict_def)

lemma call_keys_to_dict: "call_keys AUDIT_FIELDS [''metadata''] (audit_to_dict r) = Inr ()"
  by (simp add: call_keys_def AUDIT_FIELDS_def audit_to_dict_def)

lemma audit_of_to_dict:
  assumes "check_audit r = Inr r"
  shows "audit_of_dict (audit_to_dict r) = Inr r"
proof -
  from assms obtain u where texts: "check_audit_texts r = Inr u" and time: "require_datetime_text
      (ta_transitioned_at r) ''transitioned_at'' = Inr (ta_transitioned_at r)"
    by (auto simp: check_audit_ok datetime_text_ok)
  have "check_audit_texts (r\<lparr>ta_metadata := []\<rparr>) = Inr u"
    using texts by (simp add: check_audit_texts_def)
  then show ?thesis
    using time by (cases r) (simp add: audit_of_dict_def verdict_of_to_dict call_keys_to_dict,
      simp add: audit_to_dict_def text_of_def audit_fields_def audit_tail_def)
qed


lemma audit_tail_ok:
  "audit_tail d r = Inr r' \<Longrightarrow> check_audit_texts r = Inr u \<Longrightarrow> check_audit r' = Inr r'"
  by (auto simp: audit_tail_def py_bind_Inr_iff check_audit_ok check_audit_texts_ok datetime_text_ok
        split: option.splits json.splits)

lemma audit_of_dict_ok: "audit_of_dict d = Inr r \<Longrightarrow> check_audit r = Inr r"
  unfolding audit_of_dict_def py_bind_Inr_iff using audit_tail_ok by blast

lemma restore_records_ok: "restore_records ds = Inr rs \<Longrightarrow> \<forall>r \<in> set rs. audit_ok r"
proof (induction ds arbitrary: rs)
  case (Cons d ds)
  from Cons(2) obtain r where r: "audit_of_dict d = Inr r" by (auto simp: py_bind_Inr_iff)
  with Cons(2) obtain rs' where rs: "restore_records ds = Inr rs'" "rs = r # rs'"
    by (cases "dict_get MACHINE_REGISTRY (ta_machine_id r)") (auto simp: py_bind_Inr_iff split: if_splits)
  have "audit_ok r"
    using Cons(2) r audit_of_dict_ok[OF r]
    by (cases "dict_get MACHINE_REGISTRY (ta_machine_id r)") (auto simp: audit_ok_def split: if_splits)
  with Cons(1)[OF rs(1)] rs(2) show ?case by simp
qed simp

lemma restore_records_to_dict: "\<forall>r \<in> set rs. audit_ok r \<Longrightarrow> restore_records (map audit_to_dict rs) = Inr rs"
  by (induction rs) (auto simp: audit_ok_def audit_of_to_dict split: option.splits)

text \<open>The auditors of a deployment that checks registered identifiers against the registered machines.\<close>

inductive audited :: "auditor \<Rightarrow> bool" where
  audited_init: "audited auditor_init"
| audited_step: "audited a \<Longrightarrow> dict_get MACHINE_REGISTRY (sm_id m) \<in> {None, Some m} \<Longrightarrow>
    audit_transition a now m entity f t act actor reason reg ctx md = (res, a') \<Longrightarrow> audited a'"
| audited_restore: "audited a \<Longrightarrow> audit_restore a sn = (res, a') \<Longrightarrow> audited a'"

lemma attempt_allowed: "attempt_verdict m f t act reg ctx = Inr V_ALLOWED \<Longrightarrow> is_legal m f t act = V_ALLOWED"
  by (auto simp: attempt_verdict_def Let_def py_bind_Inr_iff split: option.splits if_splits)

lemma audited_ok: "audited a \<Longrightarrow> \<forall>r \<in> set (ad_records a). audit_ok r"
proof (induction rule: audited.induct)
  case audited_init
  show ?case by (simp add: auditor_init_def)
next
  case (audited_step a m now entity f t act actor reason reg ctx md res a')
  show ?case
  proof (cases res)
    case (Inl e)
    with audited_step audit_transition_Inl show ?thesis by metis
  next
    case (Inr r)
    note r = audit_transition_Inr[OF audited_step(3)[unfolded Inr]]
    have "check_audit r = Inr r"
      using audited_step(3) Inr
      by (auto simp: audit_transition_def Let_def py_bind_Inr_iff check_audit_ok split: sum.splits)
    with r audited_step(2) attempt_allowed have "audit_ok r" by (auto simp: audit_ok_def)
    with r(7) audited_step(4) show ?thesis by simp
  qed
next
  case (audited_restore a sn res a')
  then show ?case using restore_records_ok by (auto simp: audit_restore_def split: sum.splits)
qed

text \<open>
  Whatever an auditor went through, attempts of any kind and restores from any snapshot, also from
  one that was tampered with: it never holds an allowed record of a canonical machine whose move that
  machine does not declare, and restoring its snapshot, into any auditor, gives it back.
\<close>

theorem auditor_snapshot_roundtrip:
  assumes "audited a"
  shows "audit_restore b (audit_snapshot a) = (Inr (), a) \<and>
    (\<forall>r \<in> set (ad_records a). \<forall>m. dict_get MACHINE_REGISTRY (ta_machine_id r) = Some m \<longrightarrow>
       ta_verdict r = V_ALLOWED \<longrightarrow> is_legal m (ta_from r) (ta_to r) (ta_action r) = V_ALLOWED)"
  using audited_ok[OF assms] restore_records_to_dict[OF audited_ok[OF assms]]
  by (simp add: audit_restore_def audit_snapshot_def audit_ok_def)

text \<open>
  The two ways to check a guarded move agree: enforcement returns exactly when the auditor would
  record the attempt as allowed, and when it raises, the recorded verdict says why.
\<close>

theorem enforce_agrees_with_audit:
  "enforce_guarded_transition m f t act reg ctx =
     (case attempt_verdict m f t act (Some reg) ctx of
        Inl e \<Rightarrow> Inl e
      | Inr v \<Rightarrow>
          if v = V_ALLOWED then Inr V_ALLOWED
          else if v = V_DENIED_GUARD_FAILED then Inl (RuntimeCoreInvariantError ''guard failed'')
          else Inl (RuntimeCoreInvariantError ''illegal transition''))"
proof (cases "is_legal m f t act = V_ALLOWED")
  case True
  show ?thesis
  proof (cases "matching_rule m f t act")
    case (Some r)
    then show ?thesis
      by (cases "guard_evaluate reg (tr_guard_label r) ctx")
         (simp_all add: enforce_guarded_transition_def attempt_verdict_def True)
  qed (simp add: enforce_guarded_transition_def attempt_verdict_def True)
next
  case False
  moreover have "is_legal m f t act \<noteq> V_DENIED_GUARD_FAILED" by (simp add: is_legal_def)
  ultimately show ?thesis by (simp add: enforce_guarded_transition_def attempt_verdict_def Let_def)
qed

section \<open>Witnesses\<close>

definition demo_attempt :: "string \<Rightarrow> string \<Rightarrow> attempt" where
  "demo_attempt to_state action = \<lparr>at_now = ''2024-01-02T03:04:05+00:00'', at_to = to_state, at_action = action,
     at_actor = ''ops'', at_reason = [], at_ctx = []\<rparr>"

definition demo_record :: "string \<Rightarrow> string \<Rightarrow> string \<Rightarrow> string \<Rightarrow> transition_audit" where
  "demo_record entity from_state to_state action = \<lparr>ta_audit_id = ''a1'', ta_machine_id = ''obligation-lifecycle'',
     ta_entity_id = entity, ta_from = from_state, ta_to = to_state, ta_action = action, ta_verdict = V_ALLOWED,
     ta_actor_id = ''ops'', ta_reason = [], ta_transitioned_at = ''2024-01-02T03:04:05+00:00'', ta_metadata = []\<rparr>"

lemma demo_moves:
  "is_legal OBLIGATION_MACHINE ''pending'' ''active'' ''activate'' = V_ALLOWED"
  "is_legal OBLIGATION_MACHINE ''active'' ''escalated'' ''escalate'' = V_ALLOWED"
  "check_machine OBLIGATION_MACHINE = Inr OBLIGATION_MACHINE"
  "sm_id OBLIGATION_MACHINE = ''obligation-lifecycle''"
  by code_simp+

theorem verdicts_follow_table_witness:
  "\<exists>r \<in> set (sm_transitions OBLIGATION_MACHINE). rule_matches ''pending'' ''active'' ''activate'' r"
  using verdicts_follow_table[OF demo_moves(3)] demo_moves(1) by blast

theorem replay_success_iff_witness:
  "\<exists>steps. replay OBLIGATION_MACHINE None [demo_record ''o1'' ''pending'' ''active'' ''activate''] True =
     Inr (steps, ''success'')"
  unfolding replay_success_iff by (simp add: demo_moves Let_def demo_record_def replay_verdict_def)

theorem replayed_trail_is_run_witness:
  "legal_path (machine_move OBLIGATION_MACHINE) ''pending'' [''active'', ''escalated'']"
proof -
  let ?rs = "[demo_record ''o1'' ''pending'' ''active'' ''activate'', demo_record ''o1'' ''active'' ''escalated'' ''escalate'']"
  have "\<exists>steps. replay OBLIGATION_MACHINE None ?rs True = Inr (steps, ''success'')"
    by (simp add: replay_success demo_moves Let_def demo_record_def replay_verdict_def)
  then obtain steps where "replay OBLIGATION_MACHINE None ?rs True = Inr (steps, ''success'')" ..
  moreover have "allowed_moves OBLIGATION_MACHINE ?rs = ?rs"
    by (simp add: allowed_moves_def demo_record_def demo_moves)
  ultimately have "legal_path (machine_move OBLIGATION_MACHINE) (ta_from (hd ?rs)) (map ta_to ?rs)"
    using replayed_trail_is_run[of OBLIGATION_MACHINE None ?rs True steps "hd ?rs" "tl ?rs"] by simp
  then show ?thesis by (simp add: demo_record_def)
qed

theorem driven_trail_replays_witness:
  "\<exists>steps. replay SUPERVISOR_MACHINE None (ad_records (drive SUPERVISOR_MACHINE None ''s1'' ''idle''
     [demo_attempt ''polling'' ''tick_start'', demo_attempt ''idle'' ''resume''] auditor_init)) True =
     Inr (steps, ''success'')"
  by (rule driven_trail_replays) code_simp

theorem auditor_snapshot_roundtrip_witness:
  "audit_restore auditor_init (audit_snapshot (drive OBLIGATION_MACHINE None ''o1'' ''pending''
     [demo_attempt ''active'' ''activate''] auditor_init)) =
   (Inr (), drive OBLIGATION_MACHINE None ''o1'' ''pending'' [demo_attempt ''active'' ''activate''] auditor_init)"
proof -
  have "dict_get MACHINE_REGISTRY (sm_id OBLIGATION_MACHINE) = Some OBLIGATION_MACHINE"
    by (simp add: MACHINE_REGISTRY_def)
  then have "audited (drive OBLIGATION_MACHINE None ''o1'' ''pending'' [demo_attempt ''active'' ''activate''] auditor_init)"
    by (auto intro: audited_step[OF audited_init] split: prod.splits sum.splits)
  from auditor_snapshot_roundtrip[OF this] show ?thesis by blast
qed

text \<open>
  The records of one auditor about two entities do not replay, although both moved legally: the replay
  tracks a single current state for the machine, not one per entity.
\<close>

theorem interleaved_entities_diverge:
  "\<not> (\<exists>steps. replay OBLIGATION_MACHINE None [demo_record ''o1'' ''pending'' ''active'' ''activate'',
      demo_record ''o2'' ''pending'' ''active'' ''activate''] halt = Inr (steps, ''success''))"
  by (simp add: replay_success demo_moves Let_def demo_record_def)

end
