(* ===== verification/Audit_Trail.thy ===== *)
theory Audit_Trail
  imports Py_Json
begin

text \<open>
  \<open>mcoi_runtime/governance/audit/trail.py\<close>, the in-memory audit store of
  \<open>persistence/postgres_governance_stores.py\<close> and the JSON Lines export of
  \<open>governance/audit/export.py\<close>: a hash chain of audit entries with a bounded window, written by a
  trail on its own or by a store that many trails share, and the external verifier that works on the
  exported dictionaries.

  The detail of an entry is a JSON object without floats.  The text of \<open>failure_reason\<close> is left out;
  the field, the sequence and the number of entries of a failure are modelled.
\<close>

record audit_request =
  rq_action :: string
  rq_actor_id :: string
  rq_tenant_id :: string
  rq_target :: string
  rq_outcome :: string
  rq_detail :: "(string \<times> json) list"

record audit_entry =
  ae_entry_id :: string
  ae_sequence :: int
  ae_action :: string
  ae_actor_id :: string
  ae_tenant_id :: string
  ae_target :: string
  ae_outcome :: string
  ae_detail :: "(string \<times> json) list"
  ae_entry_hash :: string
  ae_previous_hash :: string
  ae_recorded_at :: string

record audit_checkpoint =
  ac_at_sequence :: int
  ac_chain_hash :: string
  ac_recorded_at :: string

section \<open>The canonical hash\<close>

definition LEDGER_V1_CONTENT_FIELDS :: "string list" where
  "LEDGER_V1_CONTENT_FIELDS = [''sequence'', ''action'', ''actor_id'', ''tenant_id'', ''target'', ''outcome'',
     ''detail'', ''previous_hash'', ''recorded_at'']"

text \<open>\<open>source[field]\<close> for a source that has every field, as both callers make sure.\<close>

definition canonical_content_v1 :: "(string \<times> json) list \<Rightarrow> (string \<times> json) list" where
  "canonical_content_v1 source =
     map (\<lambda>field. (field, case dict_get source field of Some v \<Rightarrow> v | None \<Rightarrow> JNull)) LEDGER_V1_CONTENT_FIELDS"

definition canonical_hash_v1 :: "(string \<times> json) list \<Rightarrow> string" where
  "canonical_hash_v1 source = sha256_hex (dumps_default (JObj (canonical_content_v1 source)))"

definition GENESIS_HASH :: string where
  "GENESIS_HASH = sha256_hex ''genesis''"

definition entry_source :: "int \<Rightarrow> audit_request \<Rightarrow> string \<Rightarrow> string \<Rightarrow> (string \<times> json) list" where
  "entry_source sequence rq previous_hash now =
     [(''sequence'', JInt sequence), (''action'', JStr (rq_action rq)), (''actor_id'', JStr (rq_actor_id rq)),
      (''tenant_id'', JStr (rq_tenant_id rq)), (''target'', JStr (rq_target rq)),
      (''outcome'', JStr (rq_outcome rq)), (''detail'', JObj (rq_detail rq)),
      (''previous_hash'', JStr previous_hash), (''recorded_at'', JStr now)]"

definition make_entry :: "int \<Rightarrow> audit_request \<Rightarrow> string \<Rightarrow> string \<Rightarrow> audit_entry" where
  "make_entry sequence rq previous_hash now =
     \<lparr>ae_entry_id = ''audit-'' @ int_str sequence, ae_sequence = sequence, ae_action = rq_action rq,
      ae_actor_id = rq_actor_id rq, ae_tenant_id = rq_tenant_id rq, ae_target = rq_target rq,
      ae_outcome = rq_outcome rq, ae_detail = rq_detail rq,
      ae_entry_hash = canonical_hash_v1 (entry_source sequence rq previous_hash now),
      ae_previous_hash = previous_hash, ae_recorded_at = now\<rparr>"

section \<open>Stores\<close>

text \<open>
  The store behind a trail; \<open>ao_try\<close> is present when the class overrides \<open>try_append\<close>.
\<close>

record 's audit_ops =
  ao_append :: "'s \<Rightarrow> audit_entry \<Rightarrow> 's"
  ao_store_checkpoint :: "'s \<Rightarrow> audit_checkpoint \<Rightarrow> 's"
  ao_latest_checkpoint :: "'s \<Rightarrow> audit_checkpoint option"
  ao_try :: "('s \<Rightarrow> audit_request \<Rightarrow> string \<Rightarrow> audit_entry option \<times> 's) option"

definition base_audit_ops :: "unit audit_ops" where
  "base_audit_ops = \<lparr>ao_append = (\<lambda>st _. st), ao_store_checkpoint = (\<lambda>st _. st),
     ao_latest_checkpoint = (\<lambda>_. None), ao_try = None\<rparr>"

record mem_audit =
  ma_entries :: "audit_entry list"
  ma_checkpoint :: "audit_checkpoint option"
  ma_sequence :: int
  ma_last_hash :: string

definition mem_audit_init :: mem_audit where
  "mem_audit_init = \<lparr>ma_entries = [], ma_checkpoint = None, ma_sequence = 0, ma_last_hash = GENESIS_HASH\<rparr>"

definition ma_append :: "mem_audit \<Rightarrow> audit_entry \<Rightarrow> mem_audit" where
  "ma_append st entry =
     (let st = st\<lparr>ma_entries := ma_entries st @ [entry]\<rparr>
      in if ma_sequence st < ae_sequence entry
         then st\<lparr>ma_sequence := ae_sequence entry, ma_last_hash := ae_entry_hash entry\<rparr> else st)"

definition ma_store_checkpoint :: "mem_audit \<Rightarrow> audit_checkpoint \<Rightarrow> mem_audit" where
  "ma_store_checkpoint st c = st\<lparr>ma_checkpoint := Some c\<rparr>"

definition ma_try_append :: "mem_audit \<Rightarrow> audit_request \<Rightarrow> string \<Rightarrow> audit_entry option \<times> mem_audit" where
  "ma_try_append st rq recorded_at =
     (let sequence = ma_sequence st + 1;
          entry = make_entry sequence rq (ma_last_hash st) recorded_at
      in (Some entry, st\<lparr>ma_entries := ma_entries st @ [entry], ma_sequence := sequence,
            ma_last_hash := ae_entry_hash entry\<rparr>))"

definition mem_audit_ops :: "mem_audit audit_ops" where
  "mem_audit_ops = \<lparr>ao_append = ma_append, ao_store_checkpoint = ma_store_checkpoint,
     ao_latest_checkpoint = ma_checkpoint, ao_try = Some ma_try_append\<rparr>"

text \<open>The filters of a query; an absent filter is \<open>None\<close>.\<close>

record audit_filter =
  qf_tenant_id :: "string option"
  qf_action :: "string option"
  qf_outcome :: "string option"
  qf_actor_id :: "string option"

definition passes :: "'a option \<Rightarrow> 'a \<Rightarrow> bool" where
  "passes wanted x \<longleftrightarrow> (case wanted of None \<Rightarrow> True | Some y \<Rightarrow> x = y)"

definition entry_passes :: "audit_filter \<Rightarrow> audit_entry \<Rightarrow> bool" where
  "entry_passes q e \<longleftrightarrow> passes (qf_tenant_id q) (ae_tenant_id e) \<and> passes (qf_action q) (ae_action e) \<and>
     passes (qf_outcome q) (ae_outcome e) \<and> passes (qf_actor_id q) (ae_actor_id e)"

definition ma_query :: "mem_audit \<Rightarrow> audit_filter \<Rightarrow> int \<Rightarrow> audit_entry list" where
  "ma_query st q limit = py_tail limit (filter (entry_passes q) (ma_entries st))"

section \<open>The trail\<close>

definition MAX_DETAIL_SIZE :: int where
  "MAX_DETAIL_SIZE = 65536"

record audit_trail =
  at_entries :: "audit_entry list"
  at_max_entries :: int
  at_last_hash :: string
  at_sequence :: int
  at_pruned_count :: int
  at_anchor_hash :: string
  at_anchor_sequence :: int

definition trail_init :: "'s audit_ops option \<Rightarrow> 's \<Rightarrow> int \<Rightarrow> audit_trail py" where
  "trail_init store st max_entries =
     (if max_entries \<le> 0 then Inl (ValueError ''max_entries must be positive'')
      else let t = \<lparr>at_entries = [], at_max_entries = max_entries, at_last_hash = GENESIS_HASH, at_sequence = 0,
                   at_pruned_count = 0, at_anchor_hash = GENESIS_HASH, at_anchor_sequence = 0\<rparr>
           in Inr (case store of
                     None \<Rightarrow> t
                   | Some ops \<Rightarrow>
                       (case ao_latest_checkpoint ops st of
                          None \<Rightarrow> t
                        | Some c \<Rightarrow> t\<lparr>at_anchor_hash := ac_chain_hash c, at_anchor_sequence := ac_at_sequence c\<rparr>)))"

definition bound_detail :: "(string \<times> json) list \<Rightarrow> (string \<times> json) list" where
  "bound_detail detail =
     (let n = int (length (dumps_default (JObj detail)))
      in if MAX_DETAIL_SIZE < n then [(''_truncated'', JBool True), (''_original_size'', JInt n)] else detail)"

text \<open>The window: the oldest entries go, the last of them becomes the anchor and is checkpointed.\<close>

definition prune :: "'s audit_ops option \<Rightarrow> audit_trail \<Rightarrow> 's \<Rightarrow> string \<Rightarrow> audit_trail \<times> 's" where
  "prune store t st now =
     (if at_max_entries t < int (length (at_entries t))
      then let count = nat (int (length (at_entries t)) - at_max_entries t);
               boundary = at_entries t ! (count - 1);
               t = t\<lparr>at_anchor_hash := ae_entry_hash boundary, at_anchor_sequence := ae_sequence boundary,
                     at_entries := drop count (at_entries t), at_pruned_count := at_pruned_count t + int count\<rparr>
           in (t, case store of None \<Rightarrow> st
                  | Some ops \<Rightarrow> ao_store_checkpoint ops st \<lparr>ac_at_sequence = at_anchor_sequence t,
                      ac_chain_hash = at_anchor_hash t, ac_recorded_at = now\<rparr>)
      else (t, st))"

definition trail_record ::
  "'s audit_ops option \<Rightarrow> audit_trail \<Rightarrow> 's \<Rightarrow> string \<Rightarrow> audit_request \<Rightarrow> audit_entry \<times> audit_trail \<times> 's" where
  "trail_record store t st now rq =
     (let rq = rq\<lparr>rq_detail := bound_detail (rq_detail rq)\<rparr>;
          (owned, st) = (case store of
             None \<Rightarrow> (None, st)
           | Some ops \<Rightarrow> (case ao_try ops of None \<Rightarrow> (None, st) | Some try_append \<Rightarrow> try_append st rq now));
          (entry, t, st) = (case owned of
             Some entry \<Rightarrow> (entry, t\<lparr>at_sequence := ae_sequence entry\<rparr>, st)
           | None \<Rightarrow>
               let t = t\<lparr>at_sequence := at_sequence t + 1\<rparr>;
                   entry = make_entry (at_sequence t) rq (at_last_hash t) now
               in (entry, t, case store of None \<Rightarrow> st | Some ops \<Rightarrow> ao_append ops st entry));
          t = t\<lparr>at_entries := at_entries t @ [entry], at_last_hash := ae_entry_hash entry\<rparr>;
          (t, st) = prune store t st now
      in (entry, t, st))"

definition trail_query :: "audit_trail \<Rightarrow> audit_filter \<Rightarrow> int \<Rightarrow> audit_entry list" where
  "trail_query t q limit = (if limit \<le> 0 then [] else py_tail limit (filter (entry_passes q) (at_entries t)))"

fun verify_links :: "string \<Rightarrow> int \<Rightarrow> audit_entry list \<Rightarrow> bool \<times> int" where
  "verify_links expected_prev n [] = (True, n)"
| "verify_links expected_prev n (e # es) =
     (if ae_previous_hash e \<noteq> expected_prev then (False, ae_sequence e)
      else verify_links (ae_entry_hash e) n es)"

definition verify_chain :: "audit_trail \<Rightarrow> bool \<times> int" where
  "verify_chain t = verify_links (at_anchor_hash t) (int (length (at_entries t))) (at_entries t)"

definition action_counts :: "audit_trail \<Rightarrow> (string, nat) pydict" where
  "action_counts t = fold (\<lambda>e. dict_bump (ae_action e)) (at_entries t) []"

definition outcome_counts :: "audit_trail \<Rightarrow> (string, nat) pydict" where
  "outcome_counts t = fold (\<lambda>e. dict_bump (ae_outcome e)) (at_entries t) []"

section \<open>The export\<close>

definition entry_to_dict :: "audit_entry \<Rightarrow> bool \<Rightarrow> (string \<times> json) list" where
  "entry_to_dict e redact =
     [(''entry_id'', JStr (ae_entry_id e)), (''sequence'', JInt (ae_sequence e)),
      (''action'', JStr (ae_action e)), (''actor_id'', JStr (ae_actor_id e)),
      (''tenant_id'', JStr (ae_tenant_id e)), (''target'', JStr (ae_target e)),
      (''outcome'', JStr (ae_outcome e)),
      (''detail'', JObj (if redact then map (\<lambda>(k, v). (k, JStr ''[REDACTED]'')) (ae_detail e) else ae_detail e)),
      (''entry_hash'', JStr (ae_entry_hash e)), (''previous_hash'', JStr (ae_previous_hash e)),
      (''recorded_at'', JStr (ae_recorded_at e))]"

definition MAX_EXPORT_ENTRIES :: int where
  "MAX_EXPORT_ENTRIES = 100000"

text \<open>An empty filter text is no filter.\<close>

definition export_filter :: "string \<Rightarrow> string \<Rightarrow> string \<Rightarrow> string \<Rightarrow> audit_filter" where
  "export_filter tenant_id action outcome actor_id =
     (let opt = (\<lambda>s. if s = [] then None else Some s)
      in \<lparr>qf_tenant_id = opt tenant_id, qf_action = opt action, qf_outcome = opt outcome, qf_actor_id = opt actor_id\<rparr>)"

definition filter_entries :: "audit_trail \<Rightarrow> audit_filter \<Rightarrow> int \<Rightarrow> audit_entry list" where
  "filter_entries t q limit = trail_query t q (if 0 < limit then limit else MAX_EXPORT_ENTRIES)"

record export_result =
  xr_content :: string
  xr_export_id :: string
  xr_entry_count :: int
  xr_chain_verified :: bool
  xr_chain_valid :: bool
  xr_export_hash :: string

definition export_jsonl ::
  "audit_trail \<Rightarrow> int \<Rightarrow> audit_filter \<Rightarrow> int \<Rightarrow> bool \<Rightarrow> bool \<Rightarrow> export_result \<times> int" where
  "export_jsonl t export_count q limit check redact =
     (let entries = filter_entries t q limit;
          content = py_join [CHR 0x0A] (map (\<lambda>e. dumps_default (JObj (entry_to_dict e redact))) entries);
          count = export_count + 1
      in (\<lparr>xr_content = content, xr_export_id = ''export-'' @ int_str count,
           xr_entry_count = int (length entries), xr_chain_verified = check,
           xr_chain_valid = (if check then fst (verify_chain t) else True),
           xr_export_hash = take 16 (sha256_hex content)\<rparr>, count))"

section \<open>The external verifier\<close>

record verify_result =
  vr_valid :: bool
  vr_entries_checked :: int
  vr_failure_sequence :: json
  vr_failure_field :: string

definition REQUIRED_FIELDS :: "string list" where
  "REQUIRED_FIELDS = [''sequence'', ''action'', ''actor_id'', ''tenant_id'', ''target'', ''outcome'', ''detail'',
     ''entry_hash'', ''previous_hash'', ''recorded_at'']"

definition LEDGER_SCHEMA_VERSION_MAX :: int where
  "LEDGER_SCHEMA_VERSION_MAX = 1"

text \<open>\<open>isinstance(v, int)\<close>: a boolean is an integer in Python.\<close>

fun json_int :: "json \<Rightarrow> int option" where
  "json_int (JInt i) = Some i"
| "json_int (JBool b) = Some (if b then 1 else 0)"
| "json_int _ = None"

definition get_or :: "(string \<times> json) list \<Rightarrow> string \<Rightarrow> json \<Rightarrow> json" where
  "get_or d key default_value = (case dict_get d key of Some v \<Rightarrow> v | None \<Rightarrow> default_value)"

definition failed :: "int \<Rightarrow> json \<Rightarrow> string \<Rightarrow> verify_result" where
  "failed i sequence field = \<lparr>vr_valid = False, vr_entries_checked = i, vr_failure_sequence = sequence,
     vr_failure_field = field\<rparr>"

text \<open>The reason of a hash mismatch shows a slice of the stored value, which must be a text or an array.\<close>

definition sliceable :: "json \<Rightarrow> bool" where
  "sliceable v \<longleftrightarrow> (case v of JStr _ \<Rightarrow> True | JArr _ \<Rightarrow> True | _ \<Rightarrow> False)"

fun verify_entries :: "int \<Rightarrow> json \<Rightarrow> int \<Rightarrow> (string \<times> json) list list \<Rightarrow> verify_result py" where
  "verify_entries i expected_prev expected_sequence [] =
     Inr \<lparr>vr_valid = True, vr_entries_checked = i, vr_failure_sequence = JInt (- 1), vr_failure_field = []\<rparr>"
| "verify_entries i expected_prev expected_sequence (d # ds) =
     (if \<not> list_all (\<lambda>f. dict_get d f \<noteq> None) REQUIRED_FIELDS
      then Inr (failed i (get_or d ''sequence'' (JInt (- 1))) ''schema'')
      else
        let sequence = get_or d ''sequence'' JNull; previous = get_or d ''previous_hash'' JNull;
            stored = get_or d ''entry_hash'' JNull
        in case json_int (get_or d ''schema_version'' (JInt 1)) of
             None \<Rightarrow> Inr (failed i sequence ''schema'')
           | Some version \<Rightarrow>
               if version < 1 then Inr (failed i sequence ''schema'')
               else if LEDGER_SCHEMA_VERSION_MAX < version then Inr (failed i sequence ''schema'')
               else if json_int sequence \<noteq> Some expected_sequence then Inr (failed i sequence ''sequence'')
               else if previous \<noteq> expected_prev
               then if sliceable previous then Inr (failed i sequence ''previous_hash'')
                    else Inl (TypeError ''object is not subscriptable'')
               else if stored \<noteq> JStr (canonical_hash_v1 d)
               then if sliceable stored then Inr (failed i sequence ''entry_hash'')
                    else Inl (TypeError ''object is not subscriptable'')
               else verify_entries (i + 1) stored (expected_sequence + 1) ds)"

text \<open>The anchor of a slice: its hash, and the first sequence expected.\<close>

definition verify_chain_from_entries ::
  "(string \<times> json) list list \<Rightarrow> string option \<Rightarrow> int option \<Rightarrow> verify_result py" where
  "verify_chain_from_entries entries anchor_hash anchor_sequence =
     (case anchor_hash of
        Some h \<Rightarrow> verify_entries 0 (JStr h) (case anchor_sequence of Some n \<Rightarrow> n | None \<Rightarrow> 1) entries
      | None \<Rightarrow> verify_entries 0 (JStr GENESIS_HASH) 1 entries)"

section \<open>Linked chains\<close>

text \<open>The request an entry was made from.\<close>

definition request_of :: "audit_entry \<Rightarrow> audit_request" where
  "request_of e = \<lparr>rq_action = ae_action e, rq_actor_id = ae_actor_id e, rq_tenant_id = ae_tenant_id e,
     rq_target = ae_target e, rq_outcome = ae_outcome e, rq_detail = ae_detail e\<rparr>"

text \<open>Entries that continue a chain: each is the entry made of its own fields on the one before it.\<close>

fun linked :: "string \<Rightarrow> int \<Rightarrow> audit_entry list \<Rightarrow> bool" where
  "linked h n [] \<longleftrightarrow> True"
| "linked h n (e # es) \<longleftrightarrow> e = make_entry (n + 1) (request_of e) h (ae_recorded_at e) \<and>
     linked (ae_entry_hash e) (n + 1) es"

definition chain_end :: "string \<Rightarrow> audit_entry list \<Rightarrow> string" where
  "chain_end h es = last (h # map ae_entry_hash es)"

lemma chain_end_simps [simp]:
  "chain_end h [] = h" "chain_end h (e # es) = chain_end (ae_entry_hash e) es"
  "chain_end h (es @ [e]) = ae_entry_hash e"
  by (auto simp: chain_end_def)

lemma linked_append [simp]:
  "linked h n (es @ fs) \<longleftrightarrow> linked h n es \<and> linked (chain_end h es) (n + int (length es)) fs"
  by (induction es arbitrary: h n) (auto simp: algebra_simps)

lemma make_entry_simps [simp]:
  "ae_sequence (make_entry n rq h now) = n" "ae_previous_hash (make_entry n rq h now) = h"
  "ae_entry_hash (make_entry n rq h now) = canonical_hash_v1 (entry_source n rq h now)"
  "request_of (make_entry n rq h now) = rq" "ae_recorded_at (make_entry n rq h now) = now"
  by (simp_all add: make_entry_def request_of_def)

lemma linked_make [simp]: "linked h n [make_entry (n + 1) rq h now]"
  by simp

lemma linked_sequence: "linked h n es \<Longrightarrow> i < length es \<Longrightarrow> ae_sequence (es ! i) = n + 1 + int i"
proof (induction es arbitrary: h n i)
  case (Cons e es)
  from Cons(2) have e: "ae_sequence e = n + 1" "linked (ae_entry_hash e) (n + 1) es"
    by (auto, metis make_entry_simps(1))
  show ?case using Cons(1)[OF e(2), of "i - 1"] Cons(3) e(1) by (cases i) auto
qed simp

lemma linked_drop:
  "linked h n es \<Longrightarrow> 0 < k \<Longrightarrow> k \<le> length es \<Longrightarrow>
   linked (ae_entry_hash (es ! (k - 1))) (ae_sequence (es ! (k - 1))) (drop k es)"
proof (induction es arbitrary: h n k)
  case (Cons e es)
  from Cons(2) have e: "ae_sequence e = n + 1" "linked (ae_entry_hash e) (n + 1) es"
    by (auto, metis make_entry_simps(1))
  show ?case
  proof (cases "k = 1")
    case True
    with e show ?thesis by simp
  next
    case False
    with Cons(1)[OF e(2), of "k - 1"] Cons(3,4) show ?thesis by (cases k; cases "k - 1") auto
  qed
qed simp

lemma linked_verify: "linked h n es \<Longrightarrow> verify_links h k es = (True, k)"
proof (induction es arbitrary: h n)
  case (Cons e es)
  then have "ae_previous_hash e = h" by (auto, metis make_entry_simps(2))
  with Cons show ?case by auto
qed simp

section \<open>A trail on its own\<close>

text \<open>The chain of a trail that allocates its own sequence numbers.\<close>

definition trail_ok :: "audit_trail \<Rightarrow> bool" where
  "trail_ok t \<longleftrightarrow> 0 < at_max_entries t \<and> int (length (at_entries t)) \<le> at_max_entries t \<and>
     linked (at_anchor_hash t) (at_anchor_sequence t) (at_entries t) \<and>
     at_last_hash t = chain_end (at_anchor_hash t) (at_entries t) \<and>
     at_sequence t = at_anchor_sequence t + int (length (at_entries t)) \<and>
     at_pruned_count t = at_anchor_sequence t"

definition own_sequence :: "'s audit_ops option \<Rightarrow> bool" where
  "own_sequence store \<longleftrightarrow> (case store of None \<Rightarrow> True | Some ops \<Rightarrow> ao_try ops = None)"

lemma chain_end_drop:
  "0 < k \<Longrightarrow> k \<le> length es \<Longrightarrow> chain_end (ae_entry_hash (es ! (k - 1))) (drop k es) = chain_end h es"
proof -
  assume k: "0 < k" "k \<le> length es"
  then have "es = take (k - 1) es @ es ! (k - 1) # drop k es"
    by (metis Suc_diff_1 Suc_le_eq id_take_nth_drop)
  then have "chain_end h es = chain_end h (take (k - 1) es @ es ! (k - 1) # drop k es)" by simp
  also have "\<dots> = chain_end (ae_entry_hash (es ! (k - 1))) (drop k es)" by (simp add: chain_end_def)
  finally show ?thesis by simp
qed

definition base_trail_ok :: "audit_trail \<Rightarrow> bool" where
  "base_trail_ok t \<longleftrightarrow> 0 < at_max_entries t \<and>
     linked (at_anchor_hash t) (at_anchor_sequence t) (at_entries t) \<and>
     at_last_hash t = chain_end (at_anchor_hash t) (at_entries t) \<and>
     at_sequence t = at_anchor_sequence t + int (length (at_entries t)) \<and>
     at_pruned_count t = at_anchor_sequence t"

lemma prune_ok:
  assumes "base_trail_ok t"
  shows "trail_ok (fst (prune store t st now))"
proof (cases "at_max_entries t < int (length (at_entries t))")
  case False
  with assms show ?thesis by (simp add: prune_def trail_ok_def base_trail_ok_def)
next
  case True
  let ?k = "nat (int (length (at_entries t)) - at_max_entries t)"
  from True assms have k: "0 < ?k" "?k \<le> length (at_entries t)" by (auto simp: base_trail_ok_def)
  from assms have l: "linked (at_anchor_hash t) (at_anchor_sequence t) (at_entries t)" by (simp add: base_trail_ok_def)
  have s: "ae_sequence (at_entries t ! (?k - 1)) = at_anchor_sequence t + int ?k"
    using linked_sequence[OF l, of "?k - 1"] k by simp
  show ?thesis
    using assms True k s linked_drop[OF l k] chain_end_drop[OF k, of "at_anchor_hash t"]
    by (simp add: prune_def trail_ok_def base_trail_ok_def Let_def)
qed

lemma record_ok:
  assumes "trail_ok t" "own_sequence store"
  shows "trail_ok (fst (snd (trail_record store t st now rq)))"
proof -
  let ?rq = "rq\<lparr>rq_detail := bound_detail (rq_detail rq)\<rparr>"
  let ?e = "make_entry (at_sequence t + 1) ?rq (at_last_hash t) now"
  let ?t = "t\<lparr>at_sequence := at_sequence t + 1, at_entries := at_entries t @ [?e], at_last_hash := ae_entry_hash ?e\<rparr>"
  obtain st' where "fst (snd (trail_record store t st now rq)) = fst (prune store ?t st' now)"
    using assms(2) by (cases store) (auto simp: trail_record_def own_sequence_def Let_def split: prod.splits)
  moreover have "base_trail_ok ?t"
    using assms(1) by (simp add: trail_ok_def base_trail_ok_def)
  ultimately show ?thesis using prune_ok by metis
qed

lemma init_ok:
  assumes "trail_init store st n = Inr t" "case store of None \<Rightarrow> True | Some ops \<Rightarrow> ao_latest_checkpoint ops st = None"
  shows "trail_ok t"
  using assms by (auto simp: trail_init_def trail_ok_def Let_def split: if_splits option.splits)

text \<open>A trail after any requests, in order.\<close>

fun record_all ::
  "'s audit_ops option \<Rightarrow> audit_trail \<Rightarrow> 's \<Rightarrow> (string \<times> audit_request) list \<Rightarrow> audit_trail \<times> 's" where
  "record_all store t st [] = (t, st)"
| "record_all store t st ((now, rq) # rs) =
     (case trail_record store t st now rq of (_, t, st) \<Rightarrow> record_all store t st rs)"

lemma record_all_ok: "trail_ok t \<Longrightarrow> own_sequence store \<Longrightarrow> trail_ok (fst (record_all store t st rs))"
proof (induction store t st rs rule: record_all.induct)
  case (2 store t st now rq rs)
  obtain e t' st' where r: "trail_record store t st now rq = (e, t', st')" by (metis prod_cases3)
  with record_ok[OF 2(2,3), of st now rq] 2 show ?case by simp
qed simp

section \<open>Export and external verification\<close>

lemma hash_of_dict:
  "canonical_hash_v1 (entry_to_dict e False) =
   canonical_hash_v1 (entry_source (ae_sequence e) (request_of e) (ae_previous_hash e) (ae_recorded_at e))"
  by (simp add: canonical_hash_v1_def canonical_content_v1_def LEDGER_V1_CONTENT_FIELDS_def entry_to_dict_def
        entry_source_def request_of_def del: json_dumps.simps)

lemma dict_fields:
  "list_all (\<lambda>f. dict_get (entry_to_dict e b) f \<noteq> None) REQUIRED_FIELDS"
  "get_or (entry_to_dict e b) ''sequence'' d = JInt (ae_sequence e)"
  "get_or (entry_to_dict e b) ''previous_hash'' d = JStr (ae_previous_hash e)"
  "get_or (entry_to_dict e b) ''entry_hash'' d = JStr (ae_entry_hash e)"
  "get_or (entry_to_dict e b) ''schema_version'' d = d"
  "list_all (\<lambda>f. \<exists>y. dict_get (entry_to_dict e b) f = Some y) REQUIRED_FIELDS"
  by (simp_all add: REQUIRED_FIELDS_def entry_to_dict_def get_or_def)

definition verified :: "int \<Rightarrow> verify_result" where
  "verified n = \<lparr>vr_valid = True, vr_entries_checked = n, vr_failure_sequence = JInt (- 1), vr_failure_field = []\<rparr>"

lemma verify_linked_dicts:
  "linked h n es \<Longrightarrow> verify_entries i (JStr h) (n + 1) (map (\<lambda>e. entry_to_dict e False) es) =
     Inr (verified (i + int (length es)))"
proof (induction es arbitrary: h n i)
  case Nil
  show ?case by (simp add: verified_def)
next
  case (Cons e es)
  then have e: "ae_sequence e = n + 1" "ae_previous_hash e = h"
    "ae_entry_hash e = canonical_hash_v1 (entry_source (n + 1) (request_of e) h (ae_recorded_at e))"
    and l: "linked (ae_entry_hash e) (n + 1) es"
    by (auto, metis make_entry_simps(1), metis make_entry_simps(2), metis make_entry_simps(3))
  from Cons.IH[OF l, of "i + 1"] e show ?case
    by (simp add: dict_fields hash_of_dict LEDGER_SCHEMA_VERSION_MAX_def Let_def algebra_simps)
qed

text \<open>
  A trail that allocates its own sequence numbers, however many requests it recorded and however
  often its window was pruned: its own check succeeds on every entry it holds, the window is as
  long as allowed, and the entries exported as dictionaries pass the external verifier, anchored at
  the checkpoint of the pruning (whose sequence number is one below the first one expected).
\<close>

theorem own_trail_verifies:
  assumes "trail_init store st limit = Inr t"
    and "case store of None \<Rightarrow> True | Some ops \<Rightarrow> ao_try ops = None \<and> ao_latest_checkpoint ops st = None"
    and "record_all store t st requests = (t', st')"
  shows "verify_chain t' = (True, int (length (at_entries t'))) \<and>
    int (length (at_entries t')) \<le> at_max_entries t' \<and>
    verify_chain_from_entries (map (\<lambda>e. entry_to_dict e False) (at_entries t'))
      (Some (at_anchor_hash t')) (Some (at_anchor_sequence t' + 1)) = Inr (verified (int (length (at_entries t'))))"
proof -
  have "trail_ok t" using assms(1,2) by (intro init_ok) (auto split: option.splits)
  moreover have "own_sequence store" using assms(2) by (auto simp: own_sequence_def split: option.splits)
  ultimately have ok: "trail_ok t'" using record_all_ok[of t store st requests] assms(3) by simp
  then have l: "linked (at_anchor_hash t') (at_anchor_sequence t') (at_entries t')" by (simp add: trail_ok_def)
  from ok linked_verify[OF l] verify_linked_dicts[OF l, of 0] show ?thesis
    by (simp add: trail_ok_def verify_chain_def verify_chain_from_entries_def)
qed

section \<open>What a verified ledger binds\<close>

text \<open>The verifier's conditions on one dictionary, and on a chain of them.\<close>

definition entry_valid :: "string \<Rightarrow> int \<Rightarrow> (string \<times> json) list \<Rightarrow> bool" where
  "entry_valid h n d \<longleftrightarrow> list_all (\<lambda>f. dict_get d f \<noteq> None) REQUIRED_FIELDS \<and>
     json_int (get_or d ''schema_version'' (JInt 1)) = Some 1 \<and>
     json_int (get_or d ''sequence'' JNull) = Some n \<and> get_or d ''previous_hash'' JNull = JStr h \<and>
     get_or d ''entry_hash'' JNull = JStr (canonical_hash_v1 d)"

fun chain_valid :: "string \<Rightarrow> int \<Rightarrow> (string \<times> json) list list \<Rightarrow> bool" where
  "chain_valid h n [] \<longleftrightarrow> True"
| "chain_valid h n (d # ds) \<longleftrightarrow> entry_valid h n d \<and> chain_valid (canonical_hash_v1 d) (n + 1) ds"

lemma verify_entries_iff:
  "(\<exists>r. verify_entries i (JStr h) n ds = Inr r \<and> vr_valid r) \<longleftrightarrow> chain_valid h n ds"
proof (induction ds arbitrary: i h n)
  case (Cons d ds)
  show ?case
  proof (cases "entry_valid h n d")
    case True
    with Cons[of "i + 1" "canonical_hash_v1 d" "n + 1"] show ?thesis
      by (auto simp: entry_valid_def LEDGER_SCHEMA_VERSION_MAX_def Let_def)
  next
    case False
    then show ?thesis
      by (auto simp: entry_valid_def LEDGER_SCHEMA_VERSION_MAX_def Let_def failed_def split: option.splits if_splits)
  qed
qed simp

lemma verifier_accepts:
  "(\<exists>r. verify_chain_from_entries ds anchor_hash anchor_sequence = Inr r \<and> vr_valid r) \<longleftrightarrow>
     (case anchor_hash of
        None \<Rightarrow> chain_valid GENESIS_HASH 1 ds
      | Some h \<Rightarrow> chain_valid h (case anchor_sequence of Some n \<Rightarrow> n | None \<Rightarrow> 1) ds)"
  by (cases anchor_hash) (simp_all add: verify_chain_from_entries_def verify_entries_iff)

text \<open>
  C13: The external verifier accepts a ledger exactly when every entry has the required fields and a
  supported version, the sequence numbers count up from the anchor without a gap, each entry names
  the hash of the one before it, and each stored hash is the hash of the entry's content.
\<close>

theorem verifier_accepts_iff:
  "(\<exists>r. verify_chain_from_entries ds anchor_hash anchor_sequence = Inr r \<and> vr_valid r) \<longleftrightarrow>
     (case anchor_hash of
        None \<Rightarrow> chain_valid GENESIS_HASH 1 ds
      | Some h \<Rightarrow> chain_valid h (case anchor_sequence of Some n \<Rightarrow> n | None \<Rightarrow> 1) ds)"
  by (rule verifier_accepts)

text \<open>The content of an entry up to the order of the keys in its detail.\<close>

definition content_of :: "(string \<times> json) list \<Rightarrow> json" where
  "content_of d = json_canon (JObj (canonical_content_v1 d))"

text \<open>Two dictionaries whose hashed texts are different and have the same SHA-256.\<close>

definition collide :: "(string \<times> json) list \<Rightarrow> (string \<times> json) list \<Rightarrow> bool" where
  "collide d d' \<longleftrightarrow> dumps_default (JObj (canonical_content_v1 d)) \<noteq> dumps_default (JObj (canonical_content_v1 d')) \<and>
     canonical_hash_v1 d = canonical_hash_v1 d'"

lemma hash_binds_content:
  "canonical_hash_v1 d = canonical_hash_v1 d' \<Longrightarrow> content_of d = content_of d' \<or> collide d d'"
  unfolding content_of_def collide_def using dumps_default_inj by blast

lemma content_of_field:
  assumes "content_of d = content_of d'" "f \<in> set LEDGER_V1_CONTENT_FIELDS"
  shows "json_canon (get_or d f JNull) = json_canon (get_or d' f JNull)"
proof -
  let ?c = "\<lambda>d. map (map_prod id json_canon) (canonical_content_v1 d)"
  have keys: "map fst (?c d) = LEDGER_V1_CONTENT_FIELDS" for d
    by (simp add: canonical_content_v1_def comp_def)
  have dist: "distinct LEDGER_V1_CONTENT_FIELDS" by (simp add: LEDGER_V1_CONTENT_FIELDS_def)
  have lookup: "map_of (?c d) f = Some (json_canon (get_or d f JNull))" for d
  proof -
    have "(f, json_canon (get_or d f JNull)) \<in> set (?c d)"
      using assms(2) by (force simp: canonical_content_v1_def get_or_def)
    with keys dist show ?thesis by (simp add: map_of_eq_Some_iff)
  qed
  from assms(1) have "sort_key fst (?c d) = sort_key fst (?c d')" by (simp add: content_of_def)
  then have "set (?c d) = set (?c d')" by (metis set_sort)
  then have "map_of (?c d) = map_of (?c d')" by (simp only: map_of_inject_set keys dist)
  with lookup show ?thesis by (metis option.inject)
qed

lemma json_canon_int: "json_int (json_canon v) = json_int v"
  by (cases v) simp_all

lemma json_canon_str: "json_canon v = JStr s \<longleftrightarrow> v = JStr s"
  by (cases v) simp_all

lemma valid_snoc:
  "chain_valid h n (ds @ [d]) \<longleftrightarrow> chain_valid h n ds \<and>
     entry_valid (last (h # map canonical_hash_v1 ds)) (n + int (length ds)) d"
  by (induction ds arbitrary: h n) (auto simp: algebra_simps)

lemma valid_contents:
  assumes "chain_valid h n ds" "chain_valid h n ds'" "ds \<noteq> []" "ds' \<noteq> []"
    and "canonical_hash_v1 (last ds) = canonical_hash_v1 (last ds')" and "\<forall>d \<in> set ds. \<forall>d' \<in> set ds'. \<not> collide d d'"
  shows "map content_of ds = map content_of ds'"
  using assms
proof (induction ds arbitrary: ds' rule: rev_induct)
  case (snoc d ds)
  obtain es e where ds': "ds' = es @ [e]" using snoc.prems(4) by (metis rev_exhaust)
  note v = snoc.prems(1,2)[unfolded ds' valid_snoc]
  have same: "content_of d = content_of e"
    using snoc.prems(5,6) hash_binds_content[of d e] by (simp add: ds')
  have "json_int (get_or d ''sequence'' JNull) = json_int (get_or e ''sequence'' JNull)"
    using content_of_field[OF same, of "''sequence''"] by (metis LEDGER_V1_CONTENT_FIELDS_def json_canon_int list.set_intros(1))
  with v have len: "length ds = length es" by (simp add: entry_valid_def)
  have "json_canon (get_or d ''previous_hash'' JNull) = json_canon (get_or e ''previous_hash'' JNull)"
    by (rule content_of_field[OF same]) (simp add: LEDGER_V1_CONTENT_FIELDS_def)
  with v have prev: "last (h # map canonical_hash_v1 ds) = last (h # map canonical_hash_v1 es)"
    by (auto simp: entry_valid_def)
  show ?case
  proof (cases "ds = []")
    case True
    with len same ds' show ?thesis by simp
  next
    case False
    with len prev have "es \<noteq> []" "canonical_hash_v1 (last ds) = canonical_hash_v1 (last es)"
      by (auto simp: last_map)
    moreover have "\<forall>d \<in> set ds. \<forall>d' \<in> set es. \<not> collide d d'" using snoc.prems(6) ds' by simp
    ultimately show ?thesis using snoc.IH[OF _ _ False] v same ds' by simp
  qed
qed simp

text \<open>
  C14: Two ledgers that verify from the same anchor and end in the same hash have the same contents,
  entry by entry, or an entry of the one and an entry of the other are a collision of SHA-256: whoever
  keeps the last hash of a ledger has fixed its length and everything recorded in it.
\<close>

theorem verified_ledgers_agree:
  assumes "verify_chain_from_entries ds anchor_hash anchor_sequence = Inr r" "vr_valid r" "ds \<noteq> []"
    and "verify_chain_from_entries ds' anchor_hash anchor_sequence = Inr r'" "vr_valid r'" "ds' \<noteq> []"
    and "get_or (last ds) ''entry_hash'' JNull = get_or (last ds') ''entry_hash'' JNull"
  shows "map content_of ds = map content_of ds' \<or> (\<exists>d \<in> set ds. \<exists>d' \<in> set ds'. collide d d')"
proof -
  obtain h n where v: "chain_valid h n ds" "chain_valid h n ds'"
    using verifier_accepts[of ds anchor_hash anchor_sequence] verifier_accepts[of ds' anchor_hash anchor_sequence]
      assms(1,2,4,5) by (cases anchor_hash) auto
  have hash: "get_or (last xs) ''entry_hash'' JNull = JStr (canonical_hash_v1 (last xs))"
    if "chain_valid h n xs" "xs \<noteq> []" for xs
    using that valid_snoc[of h n "butlast xs" "last xs"] by (simp add: entry_valid_def)
  show ?thesis
    using valid_contents[OF v assms(3,6)] hash[OF v(1) assms(3)] hash[OF v(2) assms(6)] assms(7) by auto
qed

section \<open>A store that many trails share\<close>

text \<open>What the trails rely on: the store appends the entry it answers with, and its chain is linked.\<close>

locale atomic_audit_store =
  fixes ops :: "'s audit_ops" and try_append and entries :: "'s \<Rightarrow> audit_entry list" and ok :: "'s \<Rightarrow> bool"
  assumes has_try: "ao_try ops = Some try_append"
    and ok_linked: "ok st \<Longrightarrow> linked GENESIS_HASH 0 (entries st)"
    and try_spec: "ok st \<Longrightarrow> try_append st rq now = (res, st') \<Longrightarrow>
      ok st' \<and> (\<exists>e. res = Some e \<and> entries st' = entries st @ [e] \<and> request_of e = rq \<and> ae_recorded_at e = now)"
    and checkpoint_spec: "ok st \<Longrightarrow> ok (ao_store_checkpoint ops st c) \<and> entries (ao_store_checkpoint ops st c) = entries st"
begin

lemma prune_store:
  "ok st \<Longrightarrow> ok (snd (prune (Some ops) t st now)) \<and> entries (snd (prune (Some ops) t st now)) = entries st"
  by (auto simp: prune_def Let_def checkpoint_spec)

lemma record_store:
  assumes "ok st" "trail_record (Some ops) t st now rq = (e, t', st')"
  shows "ok st' \<and> entries st' = entries st @ [e] \<and> ae_recorded_at e = now \<and>
    request_of e = rq\<lparr>rq_detail := bound_detail (rq_detail rq)\<rparr>"
proof -
  let ?rq = "rq\<lparr>rq_detail := bound_detail (rq_detail rq)\<rparr>"
  obtain res st1 where t: "try_append st ?rq now = (res, st1)" by (cases "try_append st ?rq now")
  from try_spec[OF assms(1) t] obtain x where x: "ok st1" "res = Some x" "entries st1 = entries st @ [x]"
    "request_of x = ?rq" "ae_recorded_at x = now" by blast
  from assms(2) t x(2) obtain u where "e = x" "st' = snd (prune (Some ops) u st1 now)"
    by (auto simp: trail_record_def has_try Let_def split: prod.splits) (metis snd_conv)
  with prune_store[OF x(1)] x show ?thesis by auto
qed

end

definition ma_ok :: "mem_audit \<Rightarrow> bool" where
  "ma_ok st \<longleftrightarrow> linked GENESIS_HASH 0 (ma_entries st) \<and> ma_sequence st = int (length (ma_entries st)) \<and>
     ma_last_hash st = chain_end GENESIS_HASH (ma_entries st)"

interpretation mem_audit: atomic_audit_store mem_audit_ops ma_try_append ma_entries ma_ok
  by unfold_locales (auto simp: mem_audit_ops_def ma_ok_def ma_try_append_def ma_store_checkpoint_def Let_def)

text \<open>Workers, each with its own trail, and the store behind all of them.\<close>

record audit_deployment =
  au_trail :: "nat \<Rightarrow> audit_trail"
  au_store :: mem_audit

inductive audit_step :: "audit_deployment \<Rightarrow> audit_deployment \<Rightarrow> bool" where
  "trail_record (Some mem_audit_ops) (au_trail d i) (au_store d) now rq = (e, t, st) \<Longrightarrow>
   audit_step d \<lparr>au_trail = (au_trail d)(i := t), au_store = st\<rparr>"

inductive_cases audit_stepE: "audit_step d d'"

lemma audit_step_store:
  "audit_step d d' \<Longrightarrow> ma_ok (au_store d) \<Longrightarrow>
   ma_ok (au_store d') \<and> (\<exists>e. ma_entries (au_store d') = ma_entries (au_store d) @ [e])"
  by (erule audit_stepE) (auto dest: mem_audit.record_store)

text \<open>
  C15: Whatever workers share the in-memory store and however their requests interleave, the store's
  ledger is one chain: it only grows at the end and it verifies from genesis, with every sequence
  number allocated once.
\<close>

theorem shared_ledger_is_linear:
  assumes "audit_step\<^sup>*\<^sup>* d d'" and "au_store d = mem_audit_init"
  shows "verify_chain_from_entries (map (\<lambda>e. entry_to_dict e False) (ma_entries (au_store d'))) None None =
      Inr (verified (int (length (ma_entries (au_store d'))))) \<and>
    map ae_sequence (ma_entries (au_store d')) = map (\<lambda>i. int i + 1) [0..<length (ma_entries (au_store d'))]"
proof -
  from assms(1) have "ma_ok (au_store d')"
  proof (induction rule: rtranclp_induct)
    case base
    show ?case by (simp add: assms(2) mem_audit_init_def ma_ok_def)
  next
    case (step x y)
    then show ?case using audit_step_store by blast
  qed
  then have l: "linked GENESIS_HASH 0 (ma_entries (au_store d'))" by (simp add: ma_ok_def)
  have "map ae_sequence (ma_entries (au_store d')) = map (\<lambda>i. int i + 1) [0..<length (ma_entries (au_store d'))]"
    by (rule nth_equalityI) (simp_all add: linked_sequence[OF l])
  with verify_linked_dicts[OF l, of 0] show ?thesis by (simp add: verify_chain_from_entries_def)
qed

text \<open>
  A worker of a shared store cannot check its own trail: once another worker recorded first, its check
  expects the genesis hash before an entry that names the other worker's hash.
\<close>

theorem shared_trail_fails_own_check:
  assumes "trail_init (Some mem_audit_ops) mem_audit_init 10 = Inr t"
    and "trail_record (Some mem_audit_ops) t mem_audit_init now rq = (e, t1, st1)"
    and "trail_record (Some mem_audit_ops) t st1 now' rq' = (e', t2, st2)"
  shows "fst (verify_chain t2) \<longleftrightarrow> ae_entry_hash e = GENESIS_HASH"
  using assms
  by (auto simp: trail_init_def trail_record_def mem_audit_ops_def mem_audit_init_def ma_try_append_def prune_def
        verify_chain_def Let_def split: if_splits)

text \<open>The trail's own check compares links only: an entry whose content was changed still passes.\<close>

theorem own_check_ignores_content:
  "verify_chain (t\<lparr>at_entries := map (\<lambda>e. e\<lparr>ae_outcome := out, ae_detail := det\<rparr>) (at_entries t)\<rparr>) = verify_chain t"
proof -
  have "verify_links h n (map (\<lambda>e. e\<lparr>ae_outcome := out, ae_detail := det\<rparr>) es) = verify_links h n es" for h n es
    by (induction es arbitrary: h) auto
  then show ?thesis by (simp add: verify_chain_def)
qed

section \<open>Witnesses\<close>

definition demo_request :: "string \<Rightarrow> audit_request" where
  "demo_request outcome = \<lparr>rq_action = ''execute'', rq_actor_id = ''ops'', rq_tenant_id = ''acme'',
     rq_target = ''job'', rq_outcome = outcome, rq_detail = []\<rparr>"

definition demo_trail :: audit_trail where
  "demo_trail = (case trail_init None () 1 of Inr t \<Rightarrow> t)"

lemma demo_trail_init: "trail_init None () 1 = Inr demo_trail"
  by (simp add: demo_trail_def trail_init_def Let_def)

definition demo_ledger :: "audit_trail" where
  "demo_ledger = fst (record_all None demo_trail () [(''t1'', demo_request ''success''), (''t2'', demo_request ''denied'')])"

theorem own_trail_verifies_witness:
  "fst (verify_chain demo_ledger)"
proof -
  obtain t' st' where r: "record_all None demo_trail () [(''t1'', demo_request ''success''),
      (''t2'', demo_request ''denied'')] = (t', st')" by (metis prod.collapse)
  from own_trail_verifies[OF demo_trail_init _ r] r show ?thesis by (simp add: demo_ledger_def)
qed

theorem shared_ledger_is_linear_witness:
  "\<exists>d'. audit_step \<lparr>au_trail = (\<lambda>_. demo_trail), au_store = mem_audit_init\<rparr> d' \<and>
     map ae_sequence (ma_entries (au_store d')) = map (\<lambda>i. int i + 1) [0..<length (ma_entries (au_store d'))]"
proof -
  let ?d = "\<lparr>au_trail = (\<lambda>_. demo_trail), au_store = mem_audit_init\<rparr>"
  obtain e t st where "trail_record (Some mem_audit_ops) (au_trail ?d 0) (au_store ?d) ''t1'' (demo_request ''success'')
    = (e, t, st)" by (metis prod_cases3)
  from audit_step.intros[OF this] obtain d' where s: "audit_step ?d d'" by blast
  from shared_ledger_is_linear[OF r_into_rtranclp[of audit_step, OF s]] s show ?thesis by auto
qed

text \<open>Two exports of one entry that differ in a field the hash does not cover.\<close>

definition demo_entry :: audit_entry where
  "demo_entry = make_entry 1 (demo_request ''success'') GENESIS_HASH ''t1''"

theorem verified_ledgers_agree_witness:
  "content_of (entry_to_dict demo_entry False) =
     content_of ((''exported_by'', JStr ''ops'') # entry_to_dict demo_entry False)"
proof -
  let ?d = "entry_to_dict demo_entry False"
  let ?x = "(''exported_by'', JStr ''ops'') # ?d"
  have l: "linked GENESIS_HASH 0 [demo_entry]" by (simp add: demo_entry_def)
  have v: "verify_chain_from_entries [?d] None None = Inr (verified 1)"
    using verify_linked_dicts[OF l, of 0] by (simp add: verify_chain_from_entries_def)
  have c: "canonical_content_v1 ?x = canonical_content_v1 ?d"
    by (simp add: canonical_content_v1_def LEDGER_V1_CONTENT_FIELDS_def)
  have g: "get_or ?x f y = get_or ?d f y" if "f \<noteq> ''exported_by''" for f y
    using that by (simp add: get_or_def)
  have r: "list_all (\<lambda>f. dict_get ?x f \<noteq> None) REQUIRED_FIELDS"
    using dict_fields(1)[of demo_entry False] by (simp add: REQUIRED_FIELDS_def)
  have "\<exists>r. verify_chain_from_entries [?x] None None = Inr r \<and> vr_valid r"
    using verifier_accepts[of "[?d]" None None] v r
    by (simp add: verifier_accepts entry_valid_def g c canonical_hash_v1_def verified_def del: json_dumps.simps)
  then obtain r' where w: "verify_chain_from_entries [?x] None None = Inr r'" "vr_valid r'"
    by blast
  from verified_ledgers_agree[OF v _ _ w(1,2)] show ?thesis by (simp add: verified_def g collide_def c)
qed

end
