(* ===== verification/Py_Value.thy ===== *)
theory Py_Value
  imports Contract_Base "HOL-Library.Product_Lexorder"
begin

text \<open>
  Plain Python values, for code that receives them unchecked: the arguments of a record class and
  the contents of a snapshot (\<open>to_dict\<close> of \<open>mcoi_runtime/contracts/_base.py\<close>).  A member of a
  \<open>StrEnum\<close> is a value of its own class and at the same time a text.  Lists and tuples are one
  constructor: freezing turns the one into the other and thawing back.  A record object is none of
  these values, \<open>to_dict\<close> turns it into a dictionary.
\<close>

datatype pval =
    PNone
  | PBool bool
  | PInt int
  | PStr string
  | PEnum string string
  | PList "pval list"
  | PDict "(string \<times> pval) list"

text \<open>\<open>thaw_value_json\<close>: members of enumerations become their texts.\<close>

fun thaw_value_json :: "pval \<Rightarrow> pval" where
  "thaw_value_json (PEnum cls v) = PStr v"
| "thaw_value_json (PList vs) = PList (map thaw_value_json vs)"
| "thaw_value_json (PDict d) = PDict (map (map_prod id thaw_value_json) d)"
| "thaw_value_json v = v"

fun pval_text :: "pval \<Rightarrow> string option" where
  "pval_text (PStr s) = Some s"
| "pval_text (PEnum cls v) = Some v"
| "pval_text _ = None"

section \<open>Arguments of a record class\<close>

definition text_arg :: "string \<Rightarrow> pval \<Rightarrow> string py" where
  "text_arg field_name v =
     (case pval_text v of
        None \<Rightarrow> Inl (field_error field_name '' must be a non-empty string'')
      | Some s \<Rightarrow> require_non_empty_text s field_name)"

definition datetime_arg :: "string \<Rightarrow> pval \<Rightarrow> string py" where
  "datetime_arg field_name v =
     (case pval_text v of
        None \<Rightarrow> Inl (field_error field_name '' must be a non-empty string'')
      | Some s \<Rightarrow> require_datetime_text s field_name)"

definition optional_datetime_arg :: "string \<Rightarrow> pval \<Rightarrow> string option py" where
  "optional_datetime_arg field_name v =
     (if v = PNone then Inr None else py_bind (datetime_arg field_name v) (\<lambda>s. Inr (Some s)))"

definition non_negative_arg :: "string \<Rightarrow> pval \<Rightarrow> int py" where
  "non_negative_arg field_name v =
     (case v of PInt i \<Rightarrow> require_non_negative_int i field_name
      | _ \<Rightarrow> Inl (field_error field_name '' must be an integer''))"

definition bool_arg :: "string \<Rightarrow> pval \<Rightarrow> bool py" where
  "bool_arg field_name v =
     (case v of PBool b \<Rightarrow> Inr b | _ \<Rightarrow> Inl (ValueError (field_name @ '' must be a boolean'')))"

definition mapping_arg :: "string \<Rightarrow> pval \<Rightarrow> (string \<times> pval) list py" where
  "mapping_arg field_name v =
     (case v of PDict d \<Rightarrow> Inr d | _ \<Rightarrow> Inl (ValueError (field_name @ '' must be a mapping'')))"

text \<open>A member of the class \<open>cls\<close> with the values \<open>value\<close> of its members \<open>ms\<close>.\<close>

definition member_arg :: "string \<Rightarrow> string \<Rightarrow> ('e \<Rightarrow> string) \<Rightarrow> 'e list \<Rightarrow> pval \<Rightarrow> 'e py" where
  "member_arg msg cls value ms v =
     (case find (\<lambda>m. v = PEnum cls (value m)) ms of None \<Rightarrow> Inl (ValueError msg) | Some m \<Rightarrow> Inr m)"

text \<open>Calling the class \<open>cls\<close> itself with a value: a member, or the text of one.\<close>

definition enum_call :: "string \<Rightarrow> ('e \<Rightarrow> string) \<Rightarrow> 'e list \<Rightarrow> pval \<Rightarrow> 'e py" where
  "enum_call cls value ms v =
     (case find (\<lambda>m. pval_text v = Some (value m)) ms of
        None \<Rightarrow> Inl (ValueError (''not a valid '' @ cls)) | Some m \<Rightarrow> Inr m)"

section \<open>Dictionaries of arguments\<close>

text \<open>\<open>cls(**v)\<close> needs a mapping, and \<open>d[key]\<close> a present key.\<close>

definition kwargs :: "pval \<Rightarrow> (string \<times> pval) list py" where
  "kwargs v = (case v of PDict d \<Rightarrow> Inr d | _ \<Rightarrow> Inl (TypeError ''argument after ** must be a mapping''))"

definition arg_or :: "pval \<Rightarrow> (string \<times> pval) list \<Rightarrow> string \<Rightarrow> pval" where
  "arg_or dflt d key = (case dict_get d key of None \<Rightarrow> dflt | Some v \<Rightarrow> v)"

abbreviation arg :: "(string \<times> pval) list \<Rightarrow> string \<Rightarrow> pval" where
  "arg \<equiv> arg_or PNone"

definition item :: "(string \<times> pval) list \<Rightarrow> string \<Rightarrow> pval py" where
  "item d key = (case dict_get d key of None \<Rightarrow> Inl (KeyError key) | Some v \<Rightarrow> Inr v)"

text \<open>\<open>dict(value)\<close>: of a mapping, or of a list of pairs with text keys.\<close>

fun pair_of :: "pval \<Rightarrow> (string \<times> pval) option" where
  "pair_of (PList [k, v]) = map_option (\<lambda>s. (s, v)) (pval_text k)"
| "pair_of (PStr [a, b]) = Some ([a], PStr [b])"
| "pair_of (PEnum _ [a, b]) = Some ([a], PStr [b])"
| "pair_of _ = None"

definition dict_call :: "pval \<Rightarrow> (string \<times> pval) list py" where
  "dict_call v =
     (case v of
        PDict d \<Rightarrow> Inr d
      | PStr [] \<Rightarrow> Inr []
      | PList vs \<Rightarrow>
          if list_ex (\<lambda>x. pair_of x = None) vs then Inl (TypeError ''cannot convert to dictionary'')
          else Inr (fold (\<lambda>x. dict_set (fst (the (pair_of x))) (snd (the (pair_of x)))) vs [])
      | _ \<Rightarrow> Inl (TypeError ''cannot convert to dictionary''))"

section \<open>Snapshots\<close>

text \<open>\<open>snapshot.get(key, {}).items()\<close>.\<close>

definition snapshot_items :: "(string \<times> pval) list \<Rightarrow> string \<Rightarrow> (string \<times> pval) list py" where
  "snapshot_items snapshot key =
     (case arg_or (PDict []) snapshot key of
        PDict d \<Rightarrow> Inr d | _ \<Rightarrow> Inl (AttributeError ''items''))"

text \<open>\<open>cls(**v)\<close>, and what is done with \<open>dict(v)\<close>.\<close>

definition starred :: "((string \<times> pval) list \<Rightarrow> 'a py) \<Rightarrow> pval \<Rightarrow> 'a py" where
  "starred of_dict v = py_bind (kwargs v) of_dict"

definition copied :: "((string \<times> pval) list \<Rightarrow> 'a py) \<Rightarrow> pval \<Rightarrow> 'a py" where
  "copied of_dict v = py_bind (dict_call v) of_dict"

text \<open>\<open>{k: x.to_dict() for k, x in d.items()}\<close>, and the loop that rebuilds the records.\<close>

definition snapshot_of :: "('a \<Rightarrow> (string \<times> pval) list) \<Rightarrow> (string, 'a) pydict \<Rightarrow> pval" where
  "snapshot_of to_dict d = PDict (map (\<lambda>(k, x). (k, PDict (to_dict x))) d)"

fun rebuild ::
  "(pval \<Rightarrow> 'a py) \<Rightarrow> (string \<times> pval) list \<Rightarrow> (string, 'a) pydict \<Rightarrow> (string, 'a) pydict py" where
  "rebuild of_value [] acc = Inr acc"
| "rebuild of_value ((k, v) # r) acc = py_bind (of_value v) (\<lambda>x. rebuild of_value r (dict_set k x acc))"

definition rebuild_section ::
  "(pval \<Rightarrow> 'a py) \<Rightarrow> (string \<times> pval) list \<Rightarrow> string \<Rightarrow> (string, 'a) pydict py" where
  "rebuild_section of_value snapshot key =
     py_bind (snapshot_items snapshot key) (\<lambda>d. rebuild of_value d [])"

section \<open>Facts\<close>

lemma text_arg_ok [validators]:
  "text_arg f v = Inr s \<longleftrightarrow> pval_text v = Some s \<and> \<not> blank s"
  by (auto simp: text_arg_def validators split: option.splits)

lemma datetime_arg_ok [validators]:
  "datetime_arg f v = Inr s \<longleftrightarrow> pval_text v = Some s \<and> \<not> blank s \<and> iso_text s"
  by (auto simp: datetime_arg_def validators split: option.splits)

lemma optional_datetime_arg_ok [validators]:
  "optional_datetime_arg f v = Inr t \<longleftrightarrow>
     (if v = PNone then t = None else \<exists>s. t = Some s \<and> pval_text v = Some s \<and> \<not> blank s \<and> iso_text s)"
  by (auto simp: optional_datetime_arg_def py_bind_Inr_iff datetime_arg_ok)

lemma non_negative_arg_ok [validators]: "non_negative_arg f v = Inr i \<longleftrightarrow> v = PInt i \<and> 0 \<le> i"
  by (cases v) (auto simp: non_negative_arg_def validators)

lemma bool_arg_ok [validators]: "bool_arg f v = Inr b \<longleftrightarrow> v = PBool b"
  by (cases v) (auto simp: bool_arg_def)

lemma mapping_arg_ok [validators]: "mapping_arg f v = Inr d \<longleftrightarrow> v = PDict d"
  by (cases v) (auto simp: mapping_arg_def)

lemma kwargs_ok [validators]: "kwargs v = Inr d \<longleftrightarrow> v = PDict d"
  by (cases v) (auto simp: kwargs_def)

lemma find_value: "inj value \<Longrightarrow> m \<in> set ms \<Longrightarrow> find (\<lambda>x. value m = value x) ms = Some m"
  by (induction ms) (auto dest: injD)

lemma member_arg_ok:
  "inj value \<Longrightarrow> set ms = UNIV \<Longrightarrow> member_arg msg cls value ms v = Inr m \<longleftrightarrow> v = PEnum cls (value m)"
  by (auto simp: member_arg_def find_value inj_eq find_Some_iff find_None_iff split: option.splits)

lemma enum_call_ok:
  "inj value \<Longrightarrow> set ms = UNIV \<Longrightarrow> enum_call cls value ms v = Inr m \<longleftrightarrow> pval_text v = Some (value m)"
  by (auto simp: enum_call_def find_value inj_eq find_Some_iff find_None_iff split: option.splits)

lemma arg_or_simps [simp]:
  "arg_or x [] k = x" "arg_or x ((k', v) # d) k = (if k = k' then v else arg_or x d k)"
  by (simp_all add: arg_or_def)

lemma item_simps [simp]:
  "item [] k = Inl (KeyError k)" "item ((k', v) # d) k = (if k = k' then Inr v else item d k)"
  by (simp_all add: item_def)

lemma dict_set_values: "set (dict_values (dict_set k x d)) \<subseteq> insert x (set (dict_values d))"
  by (induction d) auto

lemma opened_dict [simp]:
  "starred of_dict (PDict d) = of_dict d" "copied of_dict (PDict d) = of_dict d"
  by (simp_all add: starred_def kwargs_def copied_def dict_call_def)

text \<open>The dictionary of a record after a JSON text.\<close>

definition json_dict :: "(string \<times> pval) list \<Rightarrow> (string \<times> pval) list" where
  "json_dict d = map (map_prod id thaw_value_json) d"

lemma json_dict_simps [simp]:
  "json_dict [] = []" "json_dict ((k, v) # d) = (k, thaw_value_json v) # json_dict d"
  "thaw_value_json (PDict d) = PDict (json_dict d)"
  by (simp_all add: json_dict_def)

declare thaw_value_json.simps(3) [simp del]

lemma json_snapshot_of: "thaw_value_json (snapshot_of to_dict xs) = snapshot_of (\<lambda>x. json_dict (to_dict x)) xs"
  by (simp add: snapshot_of_def json_dict_def split_def thaw_value_json.simps(3))

lemma stable_identifier_total:
  assumes "\<not> blank prefix"
  shows "\<exists>i. stable_identifier prefix p = Inr i \<and> \<not> blank i"
  using assms by (auto simp: stable_identifier_def ensure_non_empty_text_def blank_iff simp del: json_dumps.simps)

text \<open>
  A record class whose objects, as far as they are \<open>ok\<close>, can be turned into dictionaries and rebuilt
  from them.
\<close>

locale contract_dict =
  fixes of_value :: "pval \<Rightarrow> 'a py" and to_dict :: "'a \<Rightarrow> (string \<times> pval) list" and ok :: "'a \<Rightarrow> bool"
  assumes of_to_dict: "ok x \<Longrightarrow> of_value (PDict (to_dict x)) = Inr x"
begin

lemma rebuild_append:
  "wf_dict (acc @ xs) \<Longrightarrow> \<forall>x \<in> set (dict_values xs). ok x \<Longrightarrow>
   rebuild of_value (map (\<lambda>(k, x). (k, PDict (to_dict x))) xs) acc = Inr (acc @ xs)"
proof (induction xs arbitrary: acc)
  case (Cons p xs)
  obtain k x where p: "p = (k, x)" by (cases p)
  have new: "dict_get acc k = None" using Cons.prems(1) by (auto simp: p wf_dict_def dict_get_None_keys)
  have "rebuild of_value (map (\<lambda>(k, x). (k, PDict (to_dict x))) xs) (acc @ [(k, x)]) = Inr ((acc @ [(k, x)]) @ xs)"
    using Cons.prems by (intro Cons.IH) (auto simp: p)
  then show ?case using Cons.prems(2) by (simp add: p of_to_dict dict_set_new[OF new])
qed simp

lemma rebuild_snapshot:
  "wf_dict xs \<Longrightarrow> \<forall>x \<in> set (dict_values xs). ok x \<Longrightarrow> dict_get s key = Some (snapshot_of to_dict xs) \<Longrightarrow>
   rebuild_section of_value s key = Inr xs"
  using rebuild_append[of "[]" xs] by (simp add: rebuild_section_def snapshot_items_def arg_or_def snapshot_of_def)

end

text \<open>Moreover every object that can be rebuilt at all is \<open>ok\<close>.\<close>

locale contract_record = contract_dict +
  assumes of_value_ok: "of_value v = Inr x \<Longrightarrow> ok x"
begin

lemma rebuild_ok:
  "rebuild of_value d acc = Inr ys \<Longrightarrow> wf_dict acc \<Longrightarrow> \<forall>x \<in> set (dict_values acc). ok x \<Longrightarrow>
   wf_dict ys \<and> (\<forall>x \<in> set (dict_values ys). ok x)"
proof (induction d arbitrary: acc)
  case (Cons p d)
  obtain k v where p: "p = (k, v)" by (cases p)
  obtain x where x: "of_value v = Inr x" and r: "rebuild of_value d (dict_set k x acc) = Inr ys"
    using Cons.prems(1) by (auto simp: p py_bind_Inr_iff)
  have "\<forall>y \<in> set (dict_values (dict_set k x acc)). ok y"
    using Cons.prems(3) of_value_ok[OF x] dict_set_values[of k x acc] by blast
  with Cons.IH[OF r wf_dict_set[OF Cons.prems(2)]] show ?case by blast
qed simp

lemma rebuilt_ok:
  "rebuild_section of_value s key = Inr ys \<Longrightarrow> wf_dict ys \<and> (\<forall>x \<in> set (dict_values ys). ok x)"
  using rebuild_ok[of _ "[]" ys] by (auto simp: rebuild_section_def py_bind_Inr_iff)

end

end
