(* ===== verification/Event_Spine.thy ===== *)
theory Event_Spine
  imports Py_Value
begin

text \<open>
  \<open>mcoi_runtime/contracts/event.py\<close> and \<open>mcoi_runtime/core/event_spine.py\<close>: the typed events, the
  records around them, and the spine that stores events, subscriptions and reactions, correlates
  events and is snapshot and restored.

  Every method of the spine holds one lock, so that the steps of concurrent clients are whole
  operations.  The clock is an argument, the reading taken by the call.
\<close>

section \<open>Enumerations\<close>

datatype event_type =
    ET_JOB_STATE_TRANSITION | ET_WORKFLOW_STAGE_TRANSITION | ET_APPROVAL_REQUESTED
  | ET_APPROVAL_DECIDED | ET_REVIEW_REQUESTED | ET_REVIEW_DECIDED | ET_INCIDENT_OPENED
  | ET_INCIDENT_ESCALATED | ET_INCIDENT_RESOLVED | ET_COMMUNICATION_SENT
  | ET_COMMUNICATION_REPLIED | ET_COMMUNICATION_TIMED_OUT | ET_OBLIGATION_CREATED
  | ET_OBLIGATION_CLOSED | ET_OBLIGATION_ESCALATED | ET_OBLIGATION_TRANSFERRED
  | ET_OBLIGATION_EXPIRED | ET_WORLD_STATE_CHANGED | ET_REACTION_EXECUTED
  | ET_REACTION_DEFERRED | ET_REACTION_REJECTED | ET_SUPERVISOR_HEARTBEAT
  | ET_SUPERVISOR_LIVELOCK | ET_SUPERVISOR_CHECKPOINT | ET_SUPERVISOR_HALTED | ET_CUSTOM

primrec event_type_value :: "event_type \<Rightarrow> string" where
  "event_type_value ET_JOB_STATE_TRANSITION = ''job_state_transition''"
| "event_type_value ET_WORKFLOW_STAGE_TRANSITION = ''workflow_stage_transition''"
| "event_type_value ET_APPROVAL_REQUESTED = ''approval_requested''"
| "event_type_value ET_APPROVAL_DECIDED = ''approval_decided''"
| "event_type_value ET_REVIEW_REQUESTED = ''review_requested''"
| "event_type_value ET_REVIEW_DECIDED = ''review_decided''"
| "event_type_value ET_INCIDENT_OPENED = ''incident_opened''"
| "event_type_value ET_INCIDENT_ESCALATED = ''incident_escalated''"
| "event_type_value ET_INCIDENT_RESOLVED = ''incident_resolved''"
| "event_type_value ET_COMMUNICATION_SENT = ''communication_sent''"
| "event_type_value ET_COMMUNICATION_REPLIED = ''communication_replied''"
| "event_type_value ET_COMMUNICATION_TIMED_OUT = ''communication_timed_out''"
| "event_type_value ET_OBLIGATION_CREATED = ''obligation_created''"
| "event_type_value ET_OBLIGATION_CLOSED = ''obligation_closed''"
| "event_type_value ET_OBLIGATION_ESCALATED = ''obligation_escalated''"
| "event_type_value ET_OBLIGATION_TRANSFERRED = ''obligation_transferred''"
| "event_type_value ET_OBLIGATION_EXPIRED = ''obligation_expired''"
| "event_type_value ET_WORLD_STATE_CHANGED = ''world_state_changed''"
| "event_type_value ET_REACTION_EXECUTED = ''reaction_executed''"
| "event_type_value ET_REACTION_DEFERRED = ''reaction_deferred''"
| "event_type_value ET_REACTION_REJECTED = ''reaction_rejected''"
| "event_type_value ET_SUPERVISOR_HEARTBEAT = ''supervisor_heartbeat''"
| "event_type_value ET_SUPERVISOR_LIVELOCK = ''supervisor_livelock''"
| "event_type_value ET_SUPERVISOR_CHECKPOINT = ''supervisor_checkpoint''"
| "event_type_value ET_SUPERVISOR_HALTED = ''supervisor_halted''"
| "event_type_value ET_CUSTOM = ''custom''"

definition EVENT_TYPES :: "event_type list" where
  "EVENT_TYPES = [ET_JOB_STATE_TRANSITION, ET_WORKFLOW_STAGE_TRANSITION, ET_APPROVAL_REQUESTED,
     ET_APPROVAL_DECIDED, ET_REVIEW_REQUESTED, ET_REVIEW_DECIDED, ET_INCIDENT_OPENED,
     ET_INCIDENT_ESCALATED, ET_INCIDENT_RESOLVED, ET_COMMUNICATION_SENT,
     ET_COMMUNICATION_REPLIED, ET_COMMUNICATION_TIMED_OUT, ET_OBLIGATION_CREATED,
     ET_OBLIGATION_CLOSED, ET_OBLIGATION_ESCALATED, ET_OBLIGATION_TRANSFERRED,
     ET_OBLIGATION_EXPIRED, ET_WORLD_STATE_CHANGED, ET_REACTION_EXECUTED,
     ET_REACTION_DEFERRED, ET_REACTION_REJECTED, ET_SUPERVISOR_HEARTBEAT,
     ET_SUPERVISOR_LIVELOCK, ET_SUPERVISOR_CHECKPOINT, ET_SUPERVISOR_HALTED, ET_CUSTOM]"

datatype event_source =
    ES_JOB_RUNTIME | ES_WORKFLOW_RUNTIME | ES_TEAM_RUNTIME | ES_FUNCTION_RUNTIME
  | ES_APPROVAL_SYSTEM | ES_REVIEW_SYSTEM | ES_INCIDENT_SYSTEM | ES_COMMUNICATION_SYSTEM
  | ES_OBLIGATION_RUNTIME | ES_WORLD_STATE_ENGINE | ES_SIMULATION_ENGINE | ES_REACTION_ENGINE
  | ES_SUPERVISOR | ES_DASHBOARD | ES_EXTERNAL

primrec event_source_value :: "event_source \<Rightarrow> string" where
  "event_source_value ES_JOB_RUNTIME = ''job_runtime''"
| "event_source_value ES_WORKFLOW_RUNTIME = ''workflow_runtime''"
| "event_source_value ES_TEAM_RUNTIME = ''team_runtime''"
| "event_source_value ES_FUNCTION_RUNTIME = ''function_runtime''"
| "event_source_value ES_APPROVAL_SYSTEM = ''approval_system''"
| "event_source_value ES_REVIEW_SYSTEM = ''review_system''"
| "event_source_value ES_INCIDENT_SYSTEM = ''incident_system''"
| "event_source_value ES_COMMUNICATION_SYSTEM = ''communication_system''"
| "event_source_value ES_OBLIGATION_RUNTIME = ''obligation_runtime''"
| "event_source_value ES_WORLD_STATE_ENGINE = ''world_state_engine''"
| "event_source_value ES_SIMULATION_ENGINE = ''simulation_engine''"
| "event_source_value ES_REACTION_ENGINE = ''reaction_engine''"
| "event_source_value ES_SUPERVISOR = ''supervisor''"
| "event_source_value ES_DASHBOARD = ''dashboard''"
| "event_source_value ES_EXTERNAL = ''external''"

definition EVENT_SOURCES :: "event_source list" where
  "EVENT_SOURCES = [ES_JOB_RUNTIME, ES_WORKFLOW_RUNTIME, ES_TEAM_RUNTIME, ES_FUNCTION_RUNTIME,
     ES_APPROVAL_SYSTEM, ES_REVIEW_SYSTEM, ES_INCIDENT_SYSTEM, ES_COMMUNICATION_SYSTEM,
     ES_OBLIGATION_RUNTIME, ES_WORLD_STATE_ENGINE, ES_SIMULATION_ENGINE, ES_REACTION_ENGINE,
     ES_SUPERVISOR, ES_DASHBOARD, ES_EXTERNAL]"

section \<open>Records\<close>

record event_record =
  ev_event_id :: string
  ev_event_type :: event_type
  ev_source :: event_source
  ev_correlation_id :: string
  ev_payload :: "(string \<times> pval) list"
  ev_emitted_at :: string

abbreviation event_type_arg :: "pval \<Rightarrow> event_type py" where
  "event_type_arg \<equiv> member_arg ''event_type must be an EventType value'' ''EventType'' event_type_value EVENT_TYPES"

definition EventRecord :: "pval \<Rightarrow> pval \<Rightarrow> pval \<Rightarrow> pval \<Rightarrow> pval \<Rightarrow> pval \<Rightarrow> event_record py" where
  "EventRecord event_id event_type source correlation_id payload emitted_at =
     py_bind (text_arg ''event_id'' event_id) (\<lambda>i.
     py_bind (event_type_arg event_type) (\<lambda>t.
     py_bind (member_arg ''source must be an EventSource value'' ''EventSource'' event_source_value EVENT_SOURCES source) (\<lambda>s.
     py_bind (text_arg ''correlation_id'' correlation_id) (\<lambda>c.
     py_bind (mapping_arg ''payload'' payload) (\<lambda>p.
     py_bind (datetime_arg ''emitted_at'' emitted_at) (\<lambda>d.
       Inr \<lparr>ev_event_id = i, ev_event_type = t, ev_source = s, ev_correlation_id = c, ev_payload = p,
            ev_emitted_at = d\<rparr>))))))"

definition event_to_dict :: "event_record \<Rightarrow> (string \<times> pval) list" where
  "event_to_dict e =
     [(''event_id'', PStr (ev_event_id e)), (''event_type'', PEnum ''EventType'' (event_type_value (ev_event_type e))),
      (''source'', PEnum ''EventSource'' (event_source_value (ev_source e))),
      (''correlation_id'', PStr (ev_correlation_id e)), (''payload'', PDict (ev_payload e)),
      (''emitted_at'', PStr (ev_emitted_at e))]"

definition event_of_dict :: "(string \<times> pval) list \<Rightarrow> event_record py" where
  "event_of_dict d =
     py_bind (call_keys [''event_id'', ''event_type'', ''source'', ''correlation_id'', ''payload'', ''emitted_at''] [] d)
       (\<lambda>_. EventRecord (arg d ''event_id'') (arg d ''event_type'') (arg d ''source'') (arg d ''correlation_id'')
              (arg d ''payload'') (arg d ''emitted_at''))"

text \<open>An envelope holds an event, not a dictionary, so that one is never rebuilt from a dictionary.\<close>

record event_envelope =
  en_envelope_id :: string
  en_event :: event_record
  en_target_subsystems :: "string list"
  en_priority :: int
  en_delivered :: bool
  en_delivered_at :: "string option"

definition EventEnvelope :: "string \<Rightarrow> event_record \<Rightarrow> string list \<Rightarrow> int \<Rightarrow> event_envelope py" where
  "EventEnvelope envelope_id event target_subsystems priority =
     py_bind (require_non_empty_text envelope_id ''envelope_id'') (\<lambda>i.
     py_bind (freeze_text_array target_subsystems ''target_subsystems'' False) (\<lambda>ts.
     py_bind (require_non_negative_int priority ''priority'') (\<lambda>p.
       Inr \<lparr>en_envelope_id = i, en_event = event, en_target_subsystems = ts, en_priority = p,
            en_delivered = False, en_delivered_at = None\<rparr>)))"

definition optional_text :: "string option \<Rightarrow> pval" where
  "optional_text t = (case t of None \<Rightarrow> PNone | Some s \<Rightarrow> PStr s)"

definition envelope_to_dict :: "event_envelope \<Rightarrow> (string \<times> pval) list" where
  "envelope_to_dict n =
     [(''envelope_id'', PStr (en_envelope_id n)), (''event'', PDict (event_to_dict (en_event n))),
      (''target_subsystems'', PList (map PStr (en_target_subsystems n))), (''priority'', PInt (en_priority n)),
      (''delivered'', PBool (en_delivered n)), (''delivered_at'', optional_text (en_delivered_at n))]"

definition envelope_of_dict :: "(string \<times> pval) list \<Rightarrow> event_envelope py" where
  "envelope_of_dict d =
     py_bind (call_keys [''envelope_id'', ''event'', ''target_subsystems'', ''priority''] [''delivered'', ''delivered_at''] d)
       (\<lambda>_. py_bind (text_arg ''envelope_id'' (arg d ''envelope_id''))
         (\<lambda>_. Inl (ValueError ''event must be an EventRecord instance'')))"

record event_subscription =
  sb_subscription_id :: string
  sb_event_type :: event_type
  sb_subscriber_id :: string
  sb_reaction_id :: string
  sb_filter_source :: "event_source option"
  sb_active :: bool
  sb_created_at :: string

definition source_filter_arg :: "pval \<Rightarrow> event_source option py" where
  "source_filter_arg v =
     (if v = PNone then Inr None
      else py_bind (member_arg ''filter_source must be an EventSource value or None'' ''EventSource''
                      event_source_value EVENT_SOURCES v) (\<lambda>s. Inr (Some s)))"

definition EventSubscription ::
  "pval \<Rightarrow> pval \<Rightarrow> pval \<Rightarrow> pval \<Rightarrow> pval \<Rightarrow> pval \<Rightarrow> pval \<Rightarrow> event_subscription py" where
  "EventSubscription subscription_id event_type subscriber_id reaction_id filter_source active created_at =
     py_bind (text_arg ''subscription_id'' subscription_id) (\<lambda>i.
     py_bind (event_type_arg event_type) (\<lambda>t.
     py_bind (text_arg ''subscriber_id'' subscriber_id) (\<lambda>u.
     py_bind (text_arg ''reaction_id'' reaction_id) (\<lambda>r.
     py_bind (source_filter_arg filter_source) (\<lambda>f.
     py_bind (bool_arg ''active'' active) (\<lambda>a.
     py_bind (datetime_arg ''created_at'' created_at) (\<lambda>d.
       Inr \<lparr>sb_subscription_id = i, sb_event_type = t, sb_subscriber_id = u, sb_reaction_id = r,
            sb_filter_source = f, sb_active = a, sb_created_at = d\<rparr>)))))))"

definition subscription_to_dict :: "event_subscription \<Rightarrow> (string \<times> pval) list" where
  "subscription_to_dict s =
     [(''subscription_id'', PStr (sb_subscription_id s)),
      (''event_type'', PEnum ''EventType'' (event_type_value (sb_event_type s))),
      (''subscriber_id'', PStr (sb_subscriber_id s)), (''reaction_id'', PStr (sb_reaction_id s)),
      (''filter_source'', case sb_filter_source s of None \<Rightarrow> PNone
                         | Some x \<Rightarrow> PEnum ''EventSource'' (event_source_value x)),
      (''active'', PBool (sb_active s)), (''created_at'', PStr (sb_created_at s))]"

definition subscription_of_dict :: "(string \<times> pval) list \<Rightarrow> event_subscription py" where
  "subscription_of_dict d =
     py_bind (call_keys [''subscription_id'', ''event_type'', ''subscriber_id'', ''reaction_id'']
                [''filter_source'', ''active'', ''created_at''] d)
       (\<lambda>_. EventSubscription (arg d ''subscription_id'') (arg d ''event_type'') (arg d ''subscriber_id'')
              (arg d ''reaction_id'') (arg d ''filter_source'') (arg_or (PBool True) d ''active'')
              (arg_or (PStr []) d ''created_at''))"

record event_reaction =
  er_reaction_id :: string
  er_event_id :: string
  er_subscription_id :: string
  er_action_taken :: string
  er_result :: string
  er_reacted_at :: string

definition EventReaction :: "pval \<Rightarrow> pval \<Rightarrow> pval \<Rightarrow> pval \<Rightarrow> pval \<Rightarrow> pval \<Rightarrow> event_reaction py" where
  "EventReaction reaction_id event_id subscription_id action_taken result reacted_at =
     py_bind (text_arg ''reaction_id'' reaction_id) (\<lambda>i.
     py_bind (text_arg ''event_id'' event_id) (\<lambda>e.
     py_bind (text_arg ''subscription_id'' subscription_id) (\<lambda>s.
     py_bind (text_arg ''action_taken'' action_taken) (\<lambda>a.
     py_bind (text_arg ''result'' result) (\<lambda>r.
     py_bind (datetime_arg ''reacted_at'' reacted_at) (\<lambda>d.
       Inr \<lparr>er_reaction_id = i, er_event_id = e, er_subscription_id = s, er_action_taken = a,
            er_result = r, er_reacted_at = d\<rparr>))))))"

definition reaction_to_dict :: "event_reaction \<Rightarrow> (string \<times> pval) list" where
  "reaction_to_dict r =
     [(''reaction_id'', PStr (er_reaction_id r)), (''event_id'', PStr (er_event_id r)),
      (''subscription_id'', PStr (er_subscription_id r)), (''action_taken'', PStr (er_action_taken r)),
      (''result'', PStr (er_result r)), (''reacted_at'', PStr (er_reacted_at r))]"

definition reaction_of_dict :: "(string \<times> pval) list \<Rightarrow> event_reaction py" where
  "reaction_of_dict d =
     py_bind (call_keys [''reaction_id'', ''event_id'', ''subscription_id'', ''action_taken'', ''result'', ''reacted_at''] [] d)
       (\<lambda>_. EventReaction (arg d ''reaction_id'') (arg d ''event_id'') (arg d ''subscription_id'')
              (arg d ''action_taken'') (arg d ''result'') (arg d ''reacted_at''))"

record event_window =
  ew_window_id :: string
  ew_correlation_id :: string
  ew_window_start :: string
  ew_window_end :: string
  ew_event_count :: int

definition EventWindow :: "string \<Rightarrow> string \<Rightarrow> string \<Rightarrow> string \<Rightarrow> int \<Rightarrow> event_window py" where
  "EventWindow window_id correlation_id window_start window_end event_count =
     py_bind (require_non_empty_text window_id ''window_id'') (\<lambda>i.
     py_bind (require_non_empty_text correlation_id ''correlation_id'') (\<lambda>c.
     py_bind (require_datetime_text window_start ''window_start'') (\<lambda>a.
     py_bind (require_datetime_text window_end ''window_end'') (\<lambda>b.
     py_bind (require_non_negative_int event_count ''event_count'') (\<lambda>n.
       Inr \<lparr>ew_window_id = i, ew_correlation_id = c, ew_window_start = a, ew_window_end = b,
            ew_event_count = n\<rparr>)))))"

record event_correlation =
  ec_correlation_id :: string
  ec_event_ids :: "string list"
  ec_root_event_id :: string
  ec_description :: string
  ec_created_at :: string

definition EventCorrelation ::
  "string \<Rightarrow> string list \<Rightarrow> string \<Rightarrow> string \<Rightarrow> string \<Rightarrow> event_correlation py" where
  "EventCorrelation correlation_id event_ids root_event_id description created_at =
     py_bind (require_non_empty_text correlation_id ''correlation_id'') (\<lambda>c.
     py_bind (freeze_text_array event_ids ''event_ids'' False) (\<lambda>ids.
     if length (remdups ids) \<noteq> length ids
     then Inl (ValueError ''event_ids must not contain duplicates'')
     else py_bind (require_non_empty_text root_event_id ''root_event_id'') (\<lambda>r.
     if r \<notin> set ids then Inl (ValueError ''root_event_id must be declared in event_ids'')
     else py_bind (require_non_empty_text description ''description'') (\<lambda>x.
     py_bind (require_datetime_text created_at ''created_at'') (\<lambda>d.
       Inr \<lparr>ec_correlation_id = c, ec_event_ids = ids, ec_root_event_id = r, ec_description = x,
            ec_created_at = d\<rparr>)))))"

section \<open>The spine\<close>

record spine =
  sp_events :: "(string, event_record) pydict"
  sp_envelopes :: "(string, event_envelope) pydict"
  sp_subscriptions :: "(string, event_subscription) pydict"
  sp_reactions :: "(string, event_reaction) pydict"

definition spine_init :: spine where
  "spine_init = \<lparr>sp_events = [], sp_envelopes = [], sp_subscriptions = [], sp_reactions = []\<rparr>"

definition emit :: "spine \<Rightarrow> event_record \<Rightarrow> event_record py \<times> spine" where
  "emit s e =
     (if dict_get (sp_events s) (ev_event_id e) \<noteq> None
      then (Inl (RuntimeCoreInvariantError ''event already exists''), s)
      else (Inr e, s\<lparr>sp_events := dict_set (ev_event_id e) e (sp_events s)\<rparr>))"

definition emit_and_envelope ::
  "spine \<Rightarrow> event_record \<Rightarrow> string list \<Rightarrow> int \<Rightarrow> event_envelope py \<times> spine" where
  "emit_and_envelope s e target_subsystems priority =
     (case py_bind (stable_identifier ''env'' [(''event_id'', JStr (ev_event_id e))])
             (\<lambda>env_id. EventEnvelope env_id e target_subsystems priority) of
        Inl x \<Rightarrow> (Inl x, s)
      | Inr envelope \<Rightarrow>
          (case emit s e of
             (Inl x, s) \<Rightarrow> (Inl x, s)
           | (Inr _, s) \<Rightarrow>
               (Inr envelope,
                s\<lparr>sp_envelopes := dict_set (en_envelope_id envelope) envelope (sp_envelopes s)\<rparr>)))"

definition get_event :: "spine \<Rightarrow> string \<Rightarrow> event_record option py" where
  "get_event s event_id =
     py_bind (ensure_non_empty_text ''event_id'' event_id) (\<lambda>i. Inr (dict_get (sp_events s) i))"

text \<open>A filter that is absent keeps everything.\<close>

definition wanted :: "'a option \<Rightarrow> ('b \<Rightarrow> 'a) \<Rightarrow> 'b list \<Rightarrow> 'b list" where
  "wanted f sel xs = (case f of None \<Rightarrow> xs | Some y \<Rightarrow> filter (\<lambda>x. sel x = y) xs)"

definition list_events ::
  "spine \<Rightarrow> event_type option \<Rightarrow> string option \<Rightarrow> event_source option \<Rightarrow> event_record list py" where
  "list_events s event_type correlation_id source =
     (let events = wanted event_type ev_event_type
            (sort_key (\<lambda>e. (ev_emitted_at e, ev_event_id e)) (dict_values (sp_events s)))
      in py_bind (case correlation_id of None \<Rightarrow> Inr events
                  | Some c \<Rightarrow> py_bind (ensure_non_empty_text ''correlation_id'' c)
                               (\<lambda>c. Inr (wanted (Some c) ev_correlation_id events)))
           (\<lambda>events. Inr (wanted source ev_source events)))"

definition subscribe :: "spine \<Rightarrow> event_subscription \<Rightarrow> event_subscription py \<times> spine" where
  "subscribe s sub =
     (if dict_get (sp_subscriptions s) (sb_subscription_id sub) \<noteq> None
      then (Inl (RuntimeCoreInvariantError ''subscription already exists''), s)
      else (Inr sub, s\<lparr>sp_subscriptions := dict_set (sb_subscription_id sub) sub (sp_subscriptions s)\<rparr>))"

definition unsubscribe :: "spine \<Rightarrow> string \<Rightarrow> unit py \<times> spine" where
  "unsubscribe s subscription_id =
     (case ensure_non_empty_text ''subscription_id'' subscription_id of
        Inl e \<Rightarrow> (Inl e, s)
      | Inr i \<Rightarrow>
          if dict_get (sp_subscriptions s) i = None
          then (Inl (RuntimeCoreInvariantError ''subscription not found''), s)
          else (Inr (), s\<lparr>sp_subscriptions := dict_pop i (sp_subscriptions s)\<rparr>))"

definition list_subscriptions :: "spine \<Rightarrow> event_type option \<Rightarrow> bool \<Rightarrow> event_subscription list" where
  "list_subscriptions s event_type active_only =
     wanted event_type sb_event_type
       (filter (\<lambda>x. active_only \<longrightarrow> sb_active x) (sort_key sb_subscription_id (dict_values (sp_subscriptions s))))"

definition matches :: "event_record \<Rightarrow> event_subscription \<Rightarrow> bool" where
  "matches e sub \<longleftrightarrow> sb_active sub \<and> sb_event_type sub = ev_event_type e \<and>
     (sb_filter_source sub = None \<or> sb_filter_source sub = Some (ev_source e))"

definition matching_subscriptions :: "spine \<Rightarrow> event_record \<Rightarrow> event_subscription list" where
  "matching_subscriptions s e =
     sort_key sb_subscription_id (filter (matches e) (dict_values (sp_subscriptions s)))"

definition record_reaction :: "spine \<Rightarrow> event_reaction \<Rightarrow> event_reaction py \<times> spine" where
  "record_reaction s r =
     (if dict_get (sp_reactions s) (er_reaction_id r) \<noteq> None
      then (Inl (RuntimeCoreInvariantError ''reaction already exists''), s)
      else if dict_get (sp_events s) (er_event_id r) = None
      then (Inl (RuntimeCoreInvariantError ''event not found''), s)
      else (Inr r, s\<lparr>sp_reactions := dict_set (er_reaction_id r) r (sp_reactions s)\<rparr>))"

definition list_reactions :: "spine \<Rightarrow> string option \<Rightarrow> event_reaction list py" where
  "list_reactions s event_id =
     (let reactions = sort_key er_reaction_id (dict_values (sp_reactions s))
      in case event_id of None \<Rightarrow> Inr reactions
         | Some i \<Rightarrow> py_bind (ensure_non_empty_text ''event_id'' i)
                      (\<lambda>i. Inr (wanted (Some i) er_event_id reactions)))"

definition correlate :: "spine \<Rightarrow> string \<Rightarrow> string \<Rightarrow> event_correlation option py" where
  "correlate s now correlation_id =
     py_bind (ensure_non_empty_text ''correlation_id'' correlation_id) (\<lambda>_.
     py_bind (list_events s None (Some correlation_id) None) (\<lambda>events.
       if events = [] then Inr None
       else py_bind (EventCorrelation correlation_id (map ev_event_id events) (ev_event_id (hd events))
                       ''correlated event group'' now) (\<lambda>c. Inr (Some c))))"

definition build_window :: "spine \<Rightarrow> string \<Rightarrow> event_window option py" where
  "build_window s correlation_id =
     py_bind (ensure_non_empty_text ''correlation_id'' correlation_id) (\<lambda>_.
     py_bind (list_events s None (Some correlation_id) None) (\<lambda>events.
       if events = [] then Inr None
       else py_bind (stable_identifier ''win'' [(''correlation_id'', JStr correlation_id)]) (\<lambda>win_id.
            py_bind (EventWindow win_id correlation_id (ev_emitted_at (hd events)) (ev_emitted_at (last events))
                       (int (length events))) (\<lambda>w. Inr (Some w)))))"

definition event_count :: "spine \<Rightarrow> int" where "event_count s = int (length (sp_events s))"
definition subscription_count :: "spine \<Rightarrow> int" where
  "subscription_count s = int (length (sp_subscriptions s))"
definition reaction_count :: "spine \<Rightarrow> int" where "reaction_count s = int (length (sp_reactions s))"

section \<open>Snapshot and restore\<close>

definition key_array :: "(string, 'a) pydict \<Rightarrow> json" where
  "key_array d = JArr (map JStr (sort (dict_keys d)))"

definition spine_state_hash :: "spine \<Rightarrow> string" where
  "spine_state_hash s = sha256_hex (dumps_default (JObj
     [(''events'', key_array (sp_events s)), (''subscriptions'', key_array (sp_subscriptions s)),
      (''reactions'', key_array (sp_reactions s)), (''envelopes'', key_array (sp_envelopes s))]))"

definition spine_snapshot :: "spine \<Rightarrow> (string \<times> pval) list" where
  "spine_snapshot s =
     [(''events'', snapshot_of event_to_dict (sp_events s)),
      (''subscriptions'', snapshot_of subscription_to_dict (sp_subscriptions s)),
      (''reactions'', snapshot_of reaction_to_dict (sp_reactions s)),
      (''envelopes'', snapshot_of envelope_to_dict (sp_envelopes s)),
      (''state_hash'', PStr (spine_state_hash s))]"

text \<open>The state rebuilt from a snapshot; when anything raises, the state from before is put back.\<close>

definition spine_of_snapshot :: "(string \<times> pval) list \<Rightarrow> spine py" where
  "spine_of_snapshot snapshot =
     py_bind (rebuild_section (starred event_of_dict) snapshot ''events'') (\<lambda>events.
     py_bind (rebuild_section (starred subscription_of_dict) snapshot ''subscriptions'') (\<lambda>subscriptions.
     py_bind (rebuild_section (starred reaction_of_dict) snapshot ''reactions'') (\<lambda>reactions.
     py_bind (rebuild_section (starred envelope_of_dict) snapshot ''envelopes'') (\<lambda>envelopes.
       Inr \<lparr>sp_events = events, sp_envelopes = envelopes, sp_subscriptions = subscriptions,
            sp_reactions = reactions\<rparr>))))"

definition spine_restore :: "spine \<Rightarrow> (string \<times> pval) list \<Rightarrow> unit py \<times> spine" where
  "spine_restore s snapshot =
     (case spine_of_snapshot snapshot of Inl e \<Rightarrow> (Inl e, s) | Inr s' \<Rightarrow> (Inr (), s'))"

section \<open>Well-formed records\<close>

lemma event_types: "inj event_type_value" "set EVENT_TYPES = UNIV"
proof -
  show *: "set EVENT_TYPES = UNIV"
    by (auto simp: EVENT_TYPES_def intro: event_type.exhaust)
  have "distinct (map event_type_value EVENT_TYPES)" by code_simp
  with * show "inj event_type_value" by (simp add: distinct_map)
qed

lemma event_sources: "inj event_source_value" "set EVENT_SOURCES = UNIV"
proof -
  show *: "set EVENT_SOURCES = UNIV"
    by (auto simp: EVENT_SOURCES_def intro: event_source.exhaust)
  have "distinct (map event_source_value EVENT_SOURCES)" by code_simp
  with * show "inj event_source_value" by (simp add: distinct_map)
qed

lemmas event_values [simp] = inj_eq[OF event_types(1)] inj_eq[OF event_sources(1)]

lemmas event_members [validators] = member_arg_ok[OF event_types] member_arg_ok[OF event_sources]

text \<open>What a constructor has checked about the object it returned.\<close>

definition time_ok :: "string \<Rightarrow> bool" where
  "time_ok t \<longleftrightarrow> \<not> blank t \<and> iso_text t"

definition event_ok :: "event_record \<Rightarrow> bool" where
  "event_ok e \<longleftrightarrow> \<not> blank (ev_event_id e) \<and> \<not> blank (ev_correlation_id e) \<and> time_ok (ev_emitted_at e)"

definition subscription_ok :: "event_subscription \<Rightarrow> bool" where
  "subscription_ok s \<longleftrightarrow> \<not> blank (sb_subscription_id s) \<and> \<not> blank (sb_subscriber_id s) \<and>
     \<not> blank (sb_reaction_id s) \<and> time_ok (sb_created_at s)"

definition reaction_ok :: "event_reaction \<Rightarrow> bool" where
  "reaction_ok r \<longleftrightarrow> \<not> blank (er_reaction_id r) \<and> \<not> blank (er_event_id r) \<and> \<not> blank (er_subscription_id r) \<and>
     \<not> blank (er_action_taken r) \<and> \<not> blank (er_result r) \<and> time_ok (er_reacted_at r)"

lemma EventRecord_ok: "EventRecord i t s c p d = Inr e \<Longrightarrow> event_ok e"
  by (auto simp: EventRecord_def py_bind_Inr_iff validators event_ok_def time_ok_def)

lemma EventSubscription_ok: "EventSubscription i t u r f a d = Inr s \<Longrightarrow> subscription_ok s"
  by (auto simp: EventSubscription_def py_bind_Inr_iff validators subscription_ok_def time_ok_def)

lemma EventReaction_ok: "EventReaction i e s a r d = Inr x \<Longrightarrow> reaction_ok x"
  by (auto simp: EventReaction_def py_bind_Inr_iff validators reaction_ok_def time_ok_def)

lemma source_filter_ok [validators]:
  "source_filter_arg v = Inr f \<longleftrightarrow>
     (if v = PNone then f = None else \<exists>s. f = Some s \<and> v = PEnum ''EventSource'' (event_source_value s))"
  by (auto simp: source_filter_arg_def py_bind_Inr_iff validators)

interpretation event_dicts: contract_record "starred event_of_dict" event_to_dict event_ok
proof
  show "event_ok e \<Longrightarrow> starred event_of_dict (PDict (event_to_dict e)) = Inr e" for e
    by (simp add: event_of_dict_def event_to_dict_def call_keys_def EventRecord_def py_bind_Inr_iff validators
        event_ok_def time_ok_def)
  show "starred event_of_dict d = Inr e \<Longrightarrow> event_ok e" for d e
    by (auto simp: starred_def event_of_dict_def py_bind_Inr_iff dest: EventRecord_ok)
qed

interpretation subscription_dicts: contract_record "starred subscription_of_dict" subscription_to_dict subscription_ok
proof
  show "subscription_ok s \<Longrightarrow> starred subscription_of_dict (PDict (subscription_to_dict s)) = Inr s" for s
    by (cases "sb_filter_source s")
       (simp_all add: subscription_of_dict_def subscription_to_dict_def call_keys_def EventSubscription_def
          py_bind_Inr_iff validators subscription_ok_def time_ok_def)
  show "starred subscription_of_dict d = Inr s \<Longrightarrow> subscription_ok s" for d s
    by (auto simp: starred_def subscription_of_dict_def py_bind_Inr_iff dest: EventSubscription_ok)
qed

interpretation reaction_dicts: contract_record "starred reaction_of_dict" reaction_to_dict reaction_ok
proof
  show "reaction_ok r \<Longrightarrow> starred reaction_of_dict (PDict (reaction_to_dict r)) = Inr r" for r
    by (simp add: reaction_of_dict_def reaction_to_dict_def call_keys_def EventReaction_def py_bind_Inr_iff
        validators reaction_ok_def time_ok_def)
  show "starred reaction_of_dict d = Inr r \<Longrightarrow> reaction_ok r" for d r
    by (auto simp: starred_def reaction_of_dict_def py_bind_Inr_iff dest: EventReaction_ok)
qed

text \<open>No dictionary is an envelope.\<close>

lemma envelope_of_dict_fails: "\<exists>e. envelope_of_dict d = Inl e"
  by (cases "call_keys [''envelope_id'', ''event'', ''target_subsystems'', ''priority''] [''delivered'', ''delivered_at''] d";
      cases "text_arg ''envelope_id'' (arg d ''envelope_id'')") (simp_all add: envelope_of_dict_def)

section \<open>Runs\<close>

text \<open>The operations of clients on one spine; restoring a snapshot is treated apart.\<close>

inductive spine_step :: "spine \<Rightarrow> spine \<Rightarrow> bool" where
  step_emit: "event_ok e \<Longrightarrow> spine_step s (snd (emit s e))"
| step_envelope: "event_ok e \<Longrightarrow> spine_step s (snd (emit_and_envelope s e targets priority))"
| step_subscribe: "subscription_ok x \<Longrightarrow> spine_step s (snd (subscribe s x))"
| step_unsubscribe: "spine_step s (snd (unsubscribe s i))"
| step_reaction: "reaction_ok r \<Longrightarrow> spine_step s (snd (record_reaction s r))"

abbreviation spine_run :: "spine \<Rightarrow> spine \<Rightarrow> bool" where
  "spine_run \<equiv> spine_step\<^sup>*\<^sup>*"

text \<open>Every object is filed under its identifier, and every reaction and envelope has its event.\<close>

definition filed :: "('a \<Rightarrow> string) \<Rightarrow> ('a \<Rightarrow> bool) \<Rightarrow> (string, 'a) pydict \<Rightarrow> bool" where
  "filed ident ok d \<longleftrightarrow> wf_dict d \<and> (\<forall>k x. dict_get d k = Some x \<longrightarrow> ident x = k \<and> ok x)"

definition spine_ok :: "spine \<Rightarrow> bool" where
  "spine_ok s \<longleftrightarrow> filed ev_event_id event_ok (sp_events s) \<and>
     filed sb_subscription_id subscription_ok (sp_subscriptions s) \<and>
     filed er_reaction_id (\<lambda>r. reaction_ok r \<and> dict_get (sp_events s) (er_event_id r) \<noteq> None) (sp_reactions s) \<and>
     filed en_envelope_id (\<lambda>n. dict_get (sp_events s) (ev_event_id (en_event n)) = Some (en_event n)) (sp_envelopes s)"

lemma filed_init [simp]: "filed ident ok []"
  by (simp add: filed_def)

lemma filed_set [intro]: "filed ident ok d \<Longrightarrow> ok x \<Longrightarrow> k = ident x \<Longrightarrow> filed ident ok (dict_set k x d)"
  by (auto simp: filed_def)

lemma filed_pop [intro]: "filed ident ok d \<Longrightarrow> filed ident ok (dict_pop k d)"
  by (auto simp: filed_def split: if_splits)

lemma filed_mono: "filed ident ok d \<Longrightarrow> (\<And>x. ok x \<Longrightarrow> ok' x) \<Longrightarrow> filed ident ok' d"
  by (auto simp: filed_def)

lemma filed_values: "filed ident ok d \<Longrightarrow> x \<in> set (dict_values d) \<longleftrightarrow> dict_get d (ident x) = Some x"
  unfolding filed_def by (metis dict_values_mem)

lemma filed_distinct: "filed ident ok d \<Longrightarrow> distinct (map ident (dict_values d))"
proof -
  assume f: "filed ident ok d"
  then have "\<forall>p \<in> set d. ident (snd p) = fst p" unfolding filed_def by (metis dict_mem_get prod.collapse)
  then have "map ident (dict_values d) = dict_keys d" by simp
  with f show ?thesis by (simp only: filed_def wf_dict_def)
qed

lemma filed_wf: "filed ident ok d \<Longrightarrow> wf_dict d"
  by (simp add: filed_def)

lemma filed_all: "filed ident ok d \<Longrightarrow> \<forall>x \<in> set (dict_values d). ok x"
  unfolding filed_def by (metis dict_values_mem)

lemma emit_simps:
  "snd (emit s e) = (if dict_get (sp_events s) (ev_event_id e) = None
     then s\<lparr>sp_events := dict_set (ev_event_id e) e (sp_events s)\<rparr> else s)"
  by (simp add: emit_def)

text \<open>An envelope is committed after its event, and nothing is kept when its construction fails.\<close>

lemma envelope_cases:
  "snd (emit_and_envelope s e ts p) = s \<or>
   (\<exists>n. en_event n = e \<and> dict_get (sp_events s) (ev_event_id e) = None \<and>
     snd (emit_and_envelope s e ts p) =
       s\<lparr>sp_events := dict_set (ev_event_id e) e (sp_events s),
         sp_envelopes := dict_set (en_envelope_id n) n (sp_envelopes s)\<rparr>)"
proof (cases "py_bind (stable_identifier ''env'' [(''event_id'', JStr (ev_event_id e))])
    (\<lambda>i. EventEnvelope i e ts p)")
  case (Inr n)
  then have "en_event n = e"
    by (auto simp: py_bind_Inr_iff EventEnvelope_def)
  with Inr show ?thesis by (auto simp: emit_and_envelope_def emit_def)
qed (simp add: emit_and_envelope_def)

lemma spine_ok_init: "spine_ok spine_init"
  by (simp add: spine_ok_def spine_init_def)

lemma spine_ok_emit:
  assumes "spine_ok s" "event_ok e" "dict_get (sp_events s) (ev_event_id e) = None"
  shows "spine_ok (s\<lparr>sp_events := dict_set (ev_event_id e) e (sp_events s)\<rparr>)"
  using assms unfolding spine_ok_def by (auto elim: filed_mono)

lemma spine_ok_envelope:
  "spine_ok s \<Longrightarrow> dict_get (sp_events s) (ev_event_id (en_event n)) = Some (en_event n) \<Longrightarrow>
   spine_ok (s\<lparr>sp_envelopes := dict_set (en_envelope_id n) n (sp_envelopes s)\<rparr>)"
  by (auto simp: spine_ok_def)

lemma spine_step_ok: "spine_step s s' \<Longrightarrow> spine_ok s \<Longrightarrow> spine_ok s'"
proof (induction rule: spine_step.induct)
  case (step_emit e s)
  then show ?case by (simp add: emit_simps spine_ok_emit)
next
  case (step_envelope e s ts p)
  from envelope_cases[of s e ts p] show ?case
  proof
    assume "\<exists>n. en_event n = e \<and> dict_get (sp_events s) (ev_event_id e) = None \<and>
      snd (emit_and_envelope s e ts p) = s\<lparr>sp_events := dict_set (ev_event_id e) e (sp_events s),
         sp_envelopes := dict_set (en_envelope_id n) n (sp_envelopes s)\<rparr>"
    then obtain n where n: "en_event n = e" "dict_get (sp_events s) (ev_event_id e) = None"
      "snd (emit_and_envelope s e ts p) = s\<lparr>sp_events := dict_set (ev_event_id e) e (sp_events s),
         sp_envelopes := dict_set (en_envelope_id n) n (sp_envelopes s)\<rparr>" by blast
    have "spine_ok (s\<lparr>sp_events := dict_set (ev_event_id e) e (sp_events s)\<rparr>)"
      using spine_ok_emit step_envelope n(2) by blast
    from spine_ok_envelope[OF this, of n] show ?thesis by (simp add: n)
  qed (simp add: step_envelope)
next
  case (step_subscribe x s)
  then show ?case by (auto simp: subscribe_def spine_ok_def)
next
  case (step_unsubscribe s i)
  then show ?case by (auto simp: unsubscribe_def spine_ok_def split: sum.splits)
next
  case (step_reaction r s)
  then show ?case by (auto simp: record_reaction_def spine_ok_def)
qed

lemma spine_run_ok: "spine_run s s' \<Longrightarrow> spine_ok s \<Longrightarrow> spine_ok s'"
  by (induction rule: rtranclp_induct) (auto dest: spine_step_ok)

lemma spine_step_keeps:
  assumes "spine_step s s'"
  shows "(dict_get (sp_events s) i = Some e \<longrightarrow> dict_get (sp_events s') i = Some e) \<and>
    (dict_get (sp_reactions s) i = Some r \<longrightarrow> dict_get (sp_reactions s') i = Some r)"
  using assms
proof cases
  case (step_envelope x ts p)
  with envelope_cases[of s x ts p] show ?thesis by auto
qed (auto simp: emit_simps subscribe_def unsubscribe_def record_reaction_def split: sum.splits)

lemma spine_run_keeps:
  assumes "spine_run s s'"
  shows "(dict_get (sp_events s) i = Some e \<longrightarrow> dict_get (sp_events s') i = Some e) \<and>
    (dict_get (sp_reactions s) j = Some r \<longrightarrow> dict_get (sp_reactions s') j = Some r)"
  using assms by (induction rule: rtranclp_induct) (use spine_step_keeps in blast)+

section \<open>Append-only\<close>

text \<open>
  In every run of a spine no event and no reaction is ever changed or removed, whatever its
  clients do; every recorded reaction refers to a stored event, and every envelope wraps exactly the
  event stored under its identifier.
\<close>

theorem spine_append_only:
  assumes "spine_run spine_init s" and "spine_run s s'"
  shows "(dict_get (sp_events s) i = Some e \<longrightarrow> dict_get (sp_events s') i = Some e) \<and>
    (dict_get (sp_reactions s) j = Some r \<longrightarrow> dict_get (sp_reactions s') j = Some r) \<and>
    (\<forall>x \<in> set (dict_values (sp_reactions s')). dict_get (sp_events s') (er_event_id x) \<noteq> None) \<and>
    (\<forall>n \<in> set (dict_values (sp_envelopes s')).
       dict_get (sp_events s') (ev_event_id (en_event n)) = Some (en_event n))"
proof -
  have "spine_ok s'" using spine_run_ok assms spine_ok_init rtranclp_trans by metis
  then show ?thesis
    using spine_run_keeps[OF assms(2), of i e j] unfolding spine_ok_def by (blast dest: filed_all)
qed

section \<open>Subscriptions\<close>

lemma distinct_sort_key: "distinct (map f (sort_key k xs)) \<longleftrightarrow> distinct (map f xs)"
  by (simp add: distinct_map distinct_sort)

lemma sort_key_unique:
  fixes f :: "'a \<Rightarrow> 'b::linorder"
  assumes "distinct (map f xs)" "distinct (map f ys)" "set xs = set ys"
  shows "sort_key f xs = sort_key f ys"
proof (rule map_sorted_distinct_set_unique[of f])
  show "inj_on f (set (sort_key f xs) \<union> set (sort_key f ys))" using assms by (simp add: distinct_map)
qed (use assms in \<open>simp_all add: distinct_sort_key\<close>)

text \<open>
  The subscriptions that match an event are the active ones of its type whose source filter, if
  any, is its source, each once and in the order of their identifiers; they depend on the set of the
  registered subscriptions only, not on the order of registration.
\<close>

theorem matching_deterministic:
  assumes "spine_run spine_init s" and "spine_run spine_init t"
  shows "(set (dict_values (sp_subscriptions s)) = set (dict_values (sp_subscriptions t)) \<longrightarrow>
       matching_subscriptions s e = matching_subscriptions t e) \<and>
    (x \<in> set (matching_subscriptions s e) \<longleftrightarrow>
       dict_get (sp_subscriptions s) (sb_subscription_id x) = Some x \<and> sb_active x \<and>
       sb_event_type x = ev_event_type e \<and>
       (case sb_filter_source x of None \<Rightarrow> True | Some src \<Rightarrow> src = ev_source e)) \<and>
    sorted (map sb_subscription_id (matching_subscriptions s e)) \<and>
    distinct (map sb_subscription_id (matching_subscriptions s e))"
proof -
  have f: "filed sb_subscription_id subscription_ok (sp_subscriptions s)"
    "filed sb_subscription_id subscription_ok (sp_subscriptions t)"
    using assms spine_run_ok spine_ok_init unfolding spine_ok_def by blast+
  let ?m = "\<lambda>s. filter (matches e) (dict_values (sp_subscriptions s))"
  have d: "distinct (map sb_subscription_id (?m s))" "distinct (map sb_subscription_id (?m t))"
    using f[THEN filed_distinct] by (simp_all only: distinct_map_filter)
  have "x \<in> set (?m s) \<longleftrightarrow> dict_get (sp_subscriptions s) (sb_subscription_id x) = Some x \<and> matches e x"
    using filed_values[OF f(1), of x] by simp
  moreover have "matches e x \<longleftrightarrow> sb_active x \<and> sb_event_type x = ev_event_type e \<and>
      (case sb_filter_source x of None \<Rightarrow> True | Some src \<Rightarrow> src = ev_source e)"
    by (auto simp: matches_def split: option.splits)
  moreover have "set (dict_values (sp_subscriptions s)) = set (dict_values (sp_subscriptions t)) \<Longrightarrow>
      matching_subscriptions s e = matching_subscriptions t e"
    unfolding matching_subscriptions_def by (rule sort_key_unique[OF d]) simp
  ultimately show ?thesis
    using d(1) by (auto simp: matching_subscriptions_def distinct_sort_key simp del: set_map)
qed

section \<open>Correlation\<close>

definition correlated :: "spine \<Rightarrow> string \<Rightarrow> event_record list" where
  "correlated s c = filter (\<lambda>e. ev_correlation_id e = c)
     (sort_key (\<lambda>e. (ev_emitted_at e, ev_event_id e)) (dict_values (sp_events s)))"

lemma list_correlated:
  "\<not> blank c \<Longrightarrow> list_events s None (Some c) None = Inr (correlated s c)"
  by (simp add: list_events_def wanted_def ensure_non_empty_text_def correlated_def)

lemma correlated_facts:
  assumes "spine_ok s"
  shows "distinct (map ev_event_id (correlated s c))"
    and "e \<in> set (correlated s c) \<longleftrightarrow> dict_get (sp_events s) (ev_event_id e) = Some e \<and> ev_correlation_id e = c"
    and "sorted (map (\<lambda>e. (ev_emitted_at e, ev_event_id e)) (correlated s c))"
    and "e \<in> set (correlated s c) \<Longrightarrow> event_ok e"
proof -
  have f: "filed ev_event_id event_ok (sp_events s)" using assms by (simp add: spine_ok_def)
  let ?k = "\<lambda>e. (ev_emitted_at e, ev_event_id e)" and ?vs = "dict_values (sp_events s)"
  have "distinct (map ev_event_id (sort_key ?k ?vs))"
    using filed_distinct[OF f] by (simp only: distinct_sort_key)
  then show "distinct (map ev_event_id (correlated s c))"
    unfolding correlated_def by (rule distinct_map_filter)
  show *: "e \<in> set (correlated s c) \<longleftrightarrow> dict_get (sp_events s) (ev_event_id e) = Some e \<and> ev_correlation_id e = c" for e
    using filed_values[OF f, of e] by (simp add: correlated_def)
  show "sorted (map ?k (correlated s c))"
    unfolding correlated_def by (rule sorted_filter) simp
  show "e \<in> set (correlated s c) \<Longrightarrow> event_ok e"
    using * f by (auto simp: filed_def)
qed

lemma EventCorrelation_total:
  assumes "\<not> blank c" "es \<noteq> []" "\<forall>e \<in> set es. event_ok e" "distinct (map ev_event_id es)" "time_ok now"
  shows "EventCorrelation c (map ev_event_id es) (ev_event_id (hd es)) ''correlated event group'' now =
    Inr \<lparr>ec_correlation_id = c, ec_event_ids = map ev_event_id es, ec_root_event_id = ev_event_id (hd es),
         ec_description = ''correlated event group'', ec_created_at = now\<rparr>"
proof -
  have "\<not> list_ex blank (map ev_event_id es)" using assms(3) by (auto simp: list_ex_iff event_ok_def)
  moreover have "\<not> blank (ev_event_id (hd es))" "ev_event_id (hd es) \<in> ev_event_id ` set es"
    using assms(2,3) by (auto simp: event_ok_def)
  moreover have "\<not> blank ''correlated event group''" by code_simp
  ultimately show ?thesis
    using assms(1,2,4,5)
    by (simp add: EventCorrelation_def py_bind_Inr_iff validators time_ok_def del: blank_iff)
qed

lemma EventWindow_total:
  "\<not> blank i \<Longrightarrow> \<not> blank c \<Longrightarrow> time_ok a \<Longrightarrow> time_ok b \<Longrightarrow>
   EventWindow i c a b (int n) = Inr \<lparr>ew_window_id = i, ew_correlation_id = c, ew_window_start = a,
     ew_window_end = b, ew_event_count = int n\<rparr>"
  by (simp add: EventWindow_def py_bind_Inr_iff validators time_ok_def)

lemma window_id: "\<exists>i. stable_identifier ''win'' p = Inr i \<and> \<not> blank i"
  by (rule stable_identifier_total) code_simp

lemma sorted_bounds:
  fixes f :: "'a \<Rightarrow> 'b::linorder"
  shows "sorted (map f xs) \<Longrightarrow> x \<in> set xs \<Longrightarrow> f (hd xs) \<le> f x \<and> f x \<le> f (last xs)"
proof (induction xs)
  case step: (Cons y ys)
  show ?case
  proof (cases "ys = []")
    case False
    then have "last ys \<in> set ys" by simp
    with step.prems(1) have "f y \<le> f (last ys)" by simp
    with step False show ?thesis by auto
  qed (use step.prems in simp)
qed simp

text \<open>
  For a correlation identifier the spine never fails.  Without events of that identifier there
  is no correlation and no window.  Otherwise the correlation lists exactly the identifiers of the
  stored events with it, each once; its root is one of them; the window counts them, starts with the
  time of the root, and contains the time of every one of them, times being compared as texts.
\<close>

theorem correlation_complete:
  assumes "spine_run spine_init s" and "\<not> blank c" and "time_ok now"
  shows "case correlate s now c of Inl _ \<Rightarrow> False
    | Inr None \<Rightarrow> build_window s c = Inr None \<and>
        (\<forall>i e. dict_get (sp_events s) i = Some e \<longrightarrow> ev_correlation_id e \<noteq> c)
    | Inr (Some r) \<Rightarrow> (\<exists>w root. build_window s c = Inr (Some w) \<and>
        set (ec_event_ids r) = {i. \<exists>e. dict_get (sp_events s) i = Some e \<and> ev_correlation_id e = c} \<and>
        distinct (ec_event_ids r) \<and> ew_event_count w = int (length (ec_event_ids r)) \<and>
        dict_get (sp_events s) (ec_root_event_id r) = Some root \<and> ew_window_start w = ev_emitted_at root \<and>
        (\<forall>i e. dict_get (sp_events s) i = Some e \<and> ev_correlation_id e = c \<longrightarrow>
           ew_window_start w \<le> ev_emitted_at e \<and> ev_emitted_at e \<le> ew_window_end w))"
proof -
  have ok: "spine_ok s" using spine_run_ok assms(1) spine_ok_init by blast
  let ?es = "correlated s c"
  note facts = correlated_facts[OF ok, where c = c]
  have ident: "dict_get (sp_events s) i = Some e \<Longrightarrow> ev_event_id e = i" for i e
    using ok by (auto simp: spine_ok_def filed_def)
  have mem: "e \<in> set ?es \<longleftrightarrow> (\<exists>i. dict_get (sp_events s) i = Some e) \<and> ev_correlation_id e = c" for e
    using facts(2)[of e] ident by auto
  have list: "list_events s None (Some c) None = Inr ?es" using list_correlated[OF assms(2)] .
  have c: "ensure_non_empty_text ''correlation_id'' c = Inr c" using assms(2) by (simp add: ensure_non_empty_text_def)
  show ?thesis
  proof (cases "?es = []")
    case True
    then have "ev_correlation_id e \<noteq> c" if "dict_get (sp_events s) i = Some e" for i e
      using mem[of e] that by auto
    then show ?thesis by (simp add: correlate_def build_window_def c list True)
  next
    case False
    obtain i where i: "stable_identifier ''win'' [(''correlation_id'', JStr c)] = Inr i" "\<not> blank i"
      using window_id by blast
    have ends: "hd ?es \<in> set ?es" "last ?es \<in> set ?es" using False by simp_all
    then have t: "time_ok (ev_emitted_at (hd ?es))" "time_ok (ev_emitted_at (last ?es))"
      using facts(4) by (simp_all add: event_ok_def)
    have corr: "correlate s now c = Inr (Some \<lparr>ec_correlation_id = c, ec_event_ids = map ev_event_id ?es,
        ec_root_event_id = ev_event_id (hd ?es), ec_description = ''correlated event group'', ec_created_at = now\<rparr>)"
      using EventCorrelation_total[OF assms(2) False _ facts(1) assms(3)] facts(4)
      by (simp add: correlate_def c list False)
    have win: "build_window s c = Inr (Some \<lparr>ew_window_id = i, ew_correlation_id = c,
        ew_window_start = ev_emitted_at (hd ?es), ew_window_end = ev_emitted_at (last ?es),
        ew_event_count = int (length ?es)\<rparr>)"
      using EventWindow_total[OF i(2) assms(2) t] by (simp add: build_window_def c list False i(1))
    have ids: "ev_event_id ` set ?es = {i. \<exists>e. dict_get (sp_events s) i = Some e \<and> ev_correlation_id e = c}"
      using mem ident by (auto simp: image_iff)
    have bounds: "\<forall>j e. dict_get (sp_events s) j = Some e \<and> ev_correlation_id e = c \<longrightarrow>
        ev_emitted_at (hd ?es) \<le> ev_emitted_at e \<and> ev_emitted_at e \<le> ev_emitted_at (last ?es)"
    proof (intro allI impI, elim conjE)
      fix j e assume "dict_get (sp_events s) j = Some e" "ev_correlation_id e = c"
      then have "e \<in> set ?es" using mem by blast
      from sorted_bounds[OF facts(3) this]
      show "ev_emitted_at (hd ?es) \<le> ev_emitted_at e \<and> ev_emitted_at e \<le> ev_emitted_at (last ?es)"
        by (auto simp: less_eq_prod_def less_imp_le)
    qed
    show ?thesis
      using corr win ids facts(1) facts(2)[of "hd ?es"] ends(1) by simp (rule bounds)
  qed
qed

section \<open>Snapshots\<close>

lemma rebuild_envelopes:
  assumes "d \<noteq> []"
  shows "\<exists>e. rebuild (starred envelope_of_dict) d acc = Inl e"
proof -
  obtain k v r where d: "d = (k, v) # r" using assms by (cases d) auto
  show ?thesis
  proof (cases "kwargs v")
    case (Inr x)
    obtain e where "envelope_of_dict x = Inl e" using envelope_of_dict_fails by blast
    then show ?thesis by (simp add: d Inr starred_def)
  qed (simp add: d starred_def)
qed

lemma spine_of_own_snapshot:
  assumes "spine_ok s"
  shows "spine_of_snapshot (spine_snapshot s) =
    py_bind (rebuild_section (starred envelope_of_dict) (spine_snapshot s) ''envelopes'')
      (\<lambda>envelopes. Inr (s\<lparr>sp_envelopes := envelopes\<rparr>))"
proof -
  note ok = assms[unfolded spine_ok_def]
  have r: "\<forall>x \<in> set (dict_values (sp_reactions s)). reaction_ok x"
    using filed_all ok by blast
  have "rebuild_section (starred event_of_dict) (spine_snapshot s) ''events'' = Inr (sp_events s)"
    using ok by (intro event_dicts.rebuild_snapshot filed_wf filed_all) (auto simp: spine_snapshot_def)
  moreover have "rebuild_section (starred subscription_of_dict) (spine_snapshot s) ''subscriptions'' = Inr (sp_subscriptions s)"
    using ok by (intro subscription_dicts.rebuild_snapshot filed_wf filed_all) (auto simp: spine_snapshot_def)
  moreover have "rebuild_section (starred reaction_of_dict) (spine_snapshot s) ''reactions'' = Inr (sp_reactions s)"
    using ok r by (intro reaction_dicts.rebuild_snapshot filed_wf) (auto simp: spine_snapshot_def)
  ultimately show ?thesis by (cases s) (simp add: spine_of_snapshot_def)
qed

lemma spine_restored:
  assumes "spine_ok s" and "sp_envelopes s = []"
  shows "spine_restore t (spine_snapshot s) = (Inr (), s)"
proof -
  have "rebuild_section (starred envelope_of_dict) (spine_snapshot s) ''envelopes'' = Inr []"
    using assms(2) by (simp add: rebuild_section_def snapshot_items_def spine_snapshot_def snapshot_of_def)
  then show ?thesis using assms(2) by (simp add: spine_restore_def spine_of_own_snapshot[OF assms(1)])
qed

lemma spine_refused:
  assumes "spine_ok s" and "sp_envelopes s \<noteq> []"
  shows "\<exists>e. spine_restore t (spine_snapshot s) = (Inl e, t)"
proof -
  have env: "rebuild_section (starred envelope_of_dict) (spine_snapshot s) ''envelopes'' =
      rebuild (starred envelope_of_dict) (map (\<lambda>(k, x). (k, PDict (envelope_to_dict x))) (sp_envelopes s)) []"
    by (simp add: rebuild_section_def snapshot_items_def spine_snapshot_def snapshot_of_def)
  obtain e where "rebuild_section (starred envelope_of_dict) (spine_snapshot s) ''envelopes'' = Inl e"
    using assms(2) rebuild_envelopes[of "map (\<lambda>(k, x). (k, PDict (envelope_to_dict x))) (sp_envelopes s)" "[]"]
    unfolding env by auto
  then show ?thesis by (simp add: spine_restore_def spine_of_own_snapshot[OF assms(1)])
qed

text \<open>
  A spine without envelopes is restored from its snapshot exactly, whatever the state of the
  spine that restores it.  With an envelope its own snapshot is refused and the restoring spine keeps
  the state it had: the envelope's event is a dictionary in the snapshot and is never rebuilt.
\<close>

theorem spine_snapshot_roundtrip:
  assumes "spine_run spine_init s"
  shows "(sp_envelopes s = [] \<longrightarrow> spine_restore t (spine_snapshot s) = (Inr (), s)) \<and>
    (sp_envelopes s \<noteq> [] \<longrightarrow> (\<exists>e. spine_restore t (spine_snapshot s) = (Inl e, t)))"
proof -
  have "spine_ok s" using spine_run_ok assms spine_ok_init by blast
  then show ?thesis using spine_restored spine_refused by blast
qed

text \<open>
  A snapshot that went through a JSON text has the types of its events as plain texts, so that a
  spine with an event refuses it.
\<close>

theorem json_snapshot_refused:
  assumes "sp_events s \<noteq> []"
  shows "\<exists>e. spine_restore t (json_dict (spine_snapshot s)) = (Inl e, t)"
proof -
  obtain k e r where s: "sp_events s = (k, e) # r" using assms by (cases "sp_events s") auto
  have "\<exists>x. event_of_dict (json_dict (event_to_dict e)) = Inl x"
    by (cases "event_of_dict (json_dict (event_to_dict e))")
       (auto simp: event_of_dict_def event_to_dict_def EventRecord_def py_bind_Inr_iff validators)
  then show ?thesis
    by (auto simp: spine_restore_def spine_of_snapshot_def rebuild_section_def snapshot_items_def spine_snapshot_def
        snapshot_of_def s)
qed

section \<open>Witnesses\<close>

definition demo_event :: "string \<Rightarrow> event_record" where
  "demo_event i = \<lparr>ev_event_id = i, ev_event_type = ET_CUSTOM, ev_source = ES_EXTERNAL,
     ev_correlation_id = ''c1'', ev_payload = [], ev_emitted_at = ''2024-01-02T03:04:05+00:00''\<rparr>"

definition demo_subscription :: "string \<Rightarrow> event_subscription" where
  "demo_subscription i = \<lparr>sb_subscription_id = i, sb_event_type = ET_CUSTOM, sb_subscriber_id = ''ops'',
     sb_reaction_id = ''r1'', sb_filter_source = None, sb_active = True,
     sb_created_at = ''2024-01-02T03:04:05+00:00''\<rparr>"

definition demo_spine :: spine where
  "demo_spine = snd (subscribe (snd (subscribe (snd (emit (snd (emit spine_init (demo_event ''e1''))) (demo_event ''e2'')))
     (demo_subscription ''s1''))) (demo_subscription ''s2''))"

definition demo_spine' :: spine where
  "demo_spine' = snd (subscribe (snd (subscribe spine_init (demo_subscription ''s2''))) (demo_subscription ''s1''))"

lemma demo_ok:
  "event_ok (demo_event ''e1'')" "event_ok (demo_event ''e2'')"
  "subscription_ok (demo_subscription ''s1'')" "subscription_ok (demo_subscription ''s2'')"
  by code_simp+

lemma demo_runs: "spine_run spine_init demo_spine" "spine_run spine_init demo_spine'"
  unfolding demo_spine_def demo_spine'_def
  by (rule rtranclp.intros spine_step.intros demo_ok)+

theorem spine_append_only_witness:
  "dict_get (sp_events (snd (emit demo_spine (demo_event ''e2'')))) ''e2'' = Some (demo_event ''e2'')"
proof -
  have "dict_get (sp_events demo_spine) ''e2'' = Some (demo_event ''e2'')"
    by (simp add: demo_spine_def emit_def subscribe_def spine_init_def demo_event_def demo_subscription_def)
  then show ?thesis
    using spine_append_only[OF demo_runs(1) r_into_rtranclp[where r = spine_step, OF step_emit[OF demo_ok(2), of demo_spine]]] by blast
qed

theorem matching_deterministic_witness:
  "matching_subscriptions demo_spine (demo_event ''e1'') = matching_subscriptions demo_spine' (demo_event ''e1'')"
proof -
  have "set (dict_values (sp_subscriptions demo_spine)) = set (dict_values (sp_subscriptions demo_spine'))"
    by (auto simp: demo_spine_def demo_spine'_def emit_def subscribe_def spine_init_def demo_event_def demo_subscription_def)
  then show ?thesis using matching_deterministic[OF demo_runs] by blast
qed

theorem correlation_complete_witness:
  "\<exists>r. correlate demo_spine ''2024-01-02T03:04:05+00:00'' ''c1'' = Inr r"
proof -
  have "\<not> blank ''c1''" "time_ok ''2024-01-02T03:04:05+00:00''" by code_simp+
  from correlation_complete[OF demo_runs(1) this] show ?thesis by (auto split: sum.splits)
qed

theorem spine_snapshot_roundtrip_witness:
  "spine_restore spine_init (spine_snapshot demo_spine) = (Inr (), demo_spine)"
proof -
  have "sp_envelopes demo_spine = []" by (simp add: demo_spine_def emit_def subscribe_def spine_init_def)
  then show ?thesis using spine_snapshot_roundtrip[OF demo_runs(1)] by blast
qed

end
