(* ===== verification/Obligation_Runtime.thy ===== *)
theory Obligation_Runtime
  imports Event_Spine State_Machines
begin

text \<open>
  \<open>mcoi_runtime/contracts/obligation.py\<close> and \<open>mcoi_runtime/core/obligation_runtime.py\<close>: obligations
  with owner and deadline, and the engine that activates, transfers, escalates and closes them, with
  its histories, its events for the spine, and snapshot and restore.

  The reading of the clock is an argument of the operations.
\<close>

section \<open>Enumerations\<close>

datatype obligation_state =
    OS_PENDING | OS_ACTIVE | OS_COMPLETED | OS_EXPIRED | OS_ESCALATED | OS_TRANSFERRED
  | OS_CANCELLED

primrec obligation_state_value :: "obligation_state \<Rightarrow> string" where
  "obligation_state_value OS_PENDING = ''pending''"
| "obligation_state_value OS_ACTIVE = ''active''"
| "obligation_state_value OS_COMPLETED = ''completed''"
| "obligation_state_value OS_EXPIRED = ''expired''"
| "obligation_state_value OS_ESCALATED = ''escalated''"
| "obligation_state_value OS_TRANSFERRED = ''transferred''"
| "obligation_state_value OS_CANCELLED = ''cancelled''"

definition OBLIGATION_STATES :: "obligation_state list" where
  "OBLIGATION_STATES = [OS_PENDING, OS_ACTIVE, OS_COMPLETED, OS_EXPIRED, OS_ESCALATED, OS_TRANSFERRED,
     OS_CANCELLED]"

datatype obligation_trigger =
    OT_APPROVAL_REQUEST | OT_JOB_ASSIGNMENT | OT_REVIEW_REQUEST | OT_COMMUNICATION_FOLLOW_UP
  | OT_INCIDENT_SLA | OT_ESCALATION_ACK | OT_WORKFLOW_STAGE | OT_CUSTOM

primrec obligation_trigger_value :: "obligation_trigger \<Rightarrow> string" where
  "obligation_trigger_value OT_APPROVAL_REQUEST = ''approval_request''"
| "obligation_trigger_value OT_JOB_ASSIGNMENT = ''job_assignment''"
| "obligation_trigger_value OT_REVIEW_REQUEST = ''review_request''"
| "obligation_trigger_value OT_COMMUNICATION_FOLLOW_UP = ''communication_follow_up''"
| "obligation_trigger_value OT_INCIDENT_SLA = ''incident_sla''"
| "obligation_trigger_value OT_ESCALATION_ACK = ''escalation_ack''"
| "obligation_trigger_value OT_WORKFLOW_STAGE = ''workflow_stage''"
| "obligation_trigger_value OT_CUSTOM = ''custom''"

definition OBLIGATION_TRIGGERS :: "obligation_trigger list" where
  "OBLIGATION_TRIGGERS = [OT_APPROVAL_REQUEST, OT_JOB_ASSIGNMENT, OT_REVIEW_REQUEST, OT_COMMUNICATION_FOLLOW_UP,
     OT_INCIDENT_SLA, OT_ESCALATION_ACK, OT_WORKFLOW_STAGE, OT_CUSTOM]"

section \<open>Records\<close>

record obligation_owner =
  ow_owner_id :: string
  ow_owner_type :: string
  ow_display_name :: string

definition ObligationOwner :: "pval \<Rightarrow> pval \<Rightarrow> pval \<Rightarrow> obligation_owner py" where
  "ObligationOwner owner_id owner_type display_name =
     py_bind (text_arg ''owner_id'' owner_id) (\<lambda>i.
     py_bind (text_arg ''owner_type'' owner_type) (\<lambda>t.
     py_bind (text_arg ''display_name'' display_name) (\<lambda>n.
       Inr \<lparr>ow_owner_id = i, ow_owner_type = t, ow_display_name = n\<rparr>)))"

definition owner_to_dict :: "obligation_owner \<Rightarrow> (string \<times> pval) list" where
  "owner_to_dict w = [(''owner_id'', PStr (ow_owner_id w)), (''owner_type'', PStr (ow_owner_type w)),
     (''display_name'', PStr (ow_display_name w))]"

definition owner_of_dict :: "(string \<times> pval) list \<Rightarrow> obligation_owner py" where
  "owner_of_dict d =
     py_bind (call_keys [''owner_id'', ''owner_type'', ''display_name''] [] d)
       (\<lambda>_. ObligationOwner (arg d ''owner_id'') (arg d ''owner_type'') (arg d ''display_name''))"

text \<open>The field \<open>hard\<close> is stored unchecked.\<close>

record obligation_deadline =
  dl_deadline_id :: string
  dl_due_at :: string
  dl_warn_at :: "string option"
  dl_hard :: pval

definition ObligationDeadline :: "pval \<Rightarrow> pval \<Rightarrow> pval \<Rightarrow> pval \<Rightarrow> obligation_deadline py" where
  "ObligationDeadline deadline_id due_at warn_at hard =
     py_bind (text_arg ''deadline_id'' deadline_id) (\<lambda>i.
     py_bind (datetime_arg ''due_at'' due_at) (\<lambda>d.
     py_bind (optional_datetime_arg ''warn_at'' warn_at) (\<lambda>w.
       Inr \<lparr>dl_deadline_id = i, dl_due_at = d, dl_warn_at = w, dl_hard = hard\<rparr>)))"

definition deadline_to_dict :: "obligation_deadline \<Rightarrow> (string \<times> pval) list" where
  "deadline_to_dict d = [(''deadline_id'', PStr (dl_deadline_id d)), (''due_at'', PStr (dl_due_at d)),
     (''warn_at'', optional_text (dl_warn_at d)), (''hard'', dl_hard d)]"

definition deadline_of_dict :: "(string \<times> pval) list \<Rightarrow> obligation_deadline py" where
  "deadline_of_dict d =
     py_bind (call_keys [''deadline_id'', ''due_at''] [''warn_at'', ''hard''] d)
       (\<lambda>_. ObligationDeadline (arg d ''deadline_id'') (arg d ''due_at'') (arg d ''warn_at'')
              (arg_or (PBool True) d ''hard''))"

record obligation_record =
  ob_obligation_id :: string
  ob_trigger :: obligation_trigger
  ob_trigger_ref_id :: string
  ob_state :: obligation_state
  ob_owner :: obligation_owner
  ob_deadline :: obligation_deadline
  ob_description :: string
  ob_correlation_id :: string
  ob_metadata :: "(string \<times> pval) list"
  ob_created_at :: string
  ob_updated_at :: string

definition ObligationRecord ::
  "pval \<Rightarrow> obligation_trigger \<Rightarrow> pval \<Rightarrow> obligation_state \<Rightarrow> obligation_owner \<Rightarrow> obligation_deadline
    \<Rightarrow> pval \<Rightarrow> pval \<Rightarrow> pval \<Rightarrow> pval \<Rightarrow> pval \<Rightarrow> obligation_record py" where
  "ObligationRecord obligation_id trigger trigger_ref_id state owner deadline description correlation_id metadata
     created_at updated_at =
     py_bind (text_arg ''obligation_id'' obligation_id) (\<lambda>i.
     py_bind (text_arg ''trigger_ref_id'' trigger_ref_id) (\<lambda>r.
     py_bind (text_arg ''description'' description) (\<lambda>x.
     py_bind (text_arg ''correlation_id'' correlation_id) (\<lambda>c.
     py_bind (dict_call metadata) (\<lambda>m.
     py_bind (datetime_arg ''created_at'' created_at) (\<lambda>d.
     py_bind (datetime_arg ''updated_at'' updated_at) (\<lambda>u.
       Inr \<lparr>ob_obligation_id = i, ob_trigger = trigger, ob_trigger_ref_id = r, ob_state = state, ob_owner = owner,
            ob_deadline = deadline, ob_description = x, ob_correlation_id = c, ob_metadata = m,
            ob_created_at = d, ob_updated_at = u\<rparr>)))))))"

definition obligation_to_dict :: "obligation_record \<Rightarrow> (string \<times> pval) list" where
  "obligation_to_dict o1 =
     [(''obligation_id'', PStr (ob_obligation_id o1)),
      (''trigger'', PEnum ''ObligationTrigger'' (obligation_trigger_value (ob_trigger o1))),
      (''trigger_ref_id'', PStr (ob_trigger_ref_id o1)),
      (''state'', PEnum ''ObligationState'' (obligation_state_value (ob_state o1))),
      (''owner'', PDict (owner_to_dict (ob_owner o1))), (''deadline'', PDict (deadline_to_dict (ob_deadline o1))),
      (''description'', PStr (ob_description o1)), (''correlation_id'', PStr (ob_correlation_id o1)),
      (''metadata'', PDict (ob_metadata o1)), (''created_at'', PStr (ob_created_at o1)),
      (''updated_at'', PStr (ob_updated_at o1))]"

definition CLOSURE_STATES :: "obligation_state list" where
  "CLOSURE_STATES = [OS_COMPLETED, OS_EXPIRED, OS_CANCELLED]"

record obligation_closure =
  oc_closure_id :: string
  oc_obligation_id :: string
  oc_final_state :: obligation_state
  oc_reason :: string
  oc_closed_by :: string
  oc_closed_at :: string

definition ObligationClosure ::
  "pval \<Rightarrow> pval \<Rightarrow> obligation_state \<Rightarrow> pval \<Rightarrow> pval \<Rightarrow> pval \<Rightarrow> obligation_closure py" where
  "ObligationClosure closure_id obligation_id final_state reason closed_by closed_at =
     py_bind (text_arg ''closure_id'' closure_id) (\<lambda>i.
     py_bind (text_arg ''obligation_id'' obligation_id) (\<lambda>b.
     py_bind (text_arg ''reason'' reason) (\<lambda>r.
     py_bind (text_arg ''closed_by'' closed_by) (\<lambda>w.
     if final_state \<notin> set CLOSURE_STATES
     then Inl (ValueError ''final_state must be a terminal closure state'')
     else py_bind (datetime_arg ''closed_at'' closed_at) (\<lambda>d.
       Inr \<lparr>oc_closure_id = i, oc_obligation_id = b, oc_final_state = final_state, oc_reason = r,
            oc_closed_by = w, oc_closed_at = d\<rparr>)))))"

definition closure_to_dict :: "obligation_closure \<Rightarrow> (string \<times> pval) list" where
  "closure_to_dict c =
     [(''closure_id'', PStr (oc_closure_id c)), (''obligation_id'', PStr (oc_obligation_id c)),
      (''final_state'', PEnum ''ObligationState'' (obligation_state_value (oc_final_state c))),
      (''reason'', PStr (oc_reason c)), (''closed_by'', PStr (oc_closed_by c)), (''closed_at'', PStr (oc_closed_at c))]"

record obligation_transfer =
  ox_transfer_id :: string
  ox_obligation_id :: string
  ox_from_owner :: obligation_owner
  ox_to_owner :: obligation_owner
  ox_reason :: string
  ox_transferred_at :: string

definition ObligationTransfer ::
  "pval \<Rightarrow> pval \<Rightarrow> obligation_owner \<Rightarrow> obligation_owner \<Rightarrow> pval \<Rightarrow> pval \<Rightarrow> obligation_transfer py" where
  "ObligationTransfer transfer_id obligation_id from_owner to_owner reason transferred_at =
     py_bind (text_arg ''transfer_id'' transfer_id) (\<lambda>i.
     py_bind (text_arg ''obligation_id'' obligation_id) (\<lambda>b.
     py_bind (text_arg ''reason'' reason) (\<lambda>r.
     if ow_owner_id from_owner = ow_owner_id to_owner
     then Inl (ValueError ''cannot transfer obligation to the same owner'')
     else py_bind (datetime_arg ''transferred_at'' transferred_at) (\<lambda>d.
       Inr \<lparr>ox_transfer_id = i, ox_obligation_id = b, ox_from_owner = from_owner, ox_to_owner = to_owner,
            ox_reason = r, ox_transferred_at = d\<rparr>))))"

definition transfer_to_dict :: "obligation_transfer \<Rightarrow> (string \<times> pval) list" where
  "transfer_to_dict x =
     [(''transfer_id'', PStr (ox_transfer_id x)), (''obligation_id'', PStr (ox_obligation_id x)),
      (''from_owner'', PDict (owner_to_dict (ox_from_owner x))), (''to_owner'', PDict (owner_to_dict (ox_to_owner x))),
      (''reason'', PStr (ox_reason x)), (''transferred_at'', PStr (ox_transferred_at x))]"

record obligation_escalation =
  oe_escalation_id :: string
  oe_obligation_id :: string
  oe_escalated_to :: obligation_owner
  oe_reason :: string
  oe_severity :: string
  oe_escalated_at :: string

definition ObligationEscalation ::
  "pval \<Rightarrow> pval \<Rightarrow> obligation_owner \<Rightarrow> pval \<Rightarrow> pval \<Rightarrow> pval \<Rightarrow> obligation_escalation py" where
  "ObligationEscalation escalation_id obligation_id escalated_to reason severity escalated_at =
     py_bind (text_arg ''escalation_id'' escalation_id) (\<lambda>i.
     py_bind (text_arg ''obligation_id'' obligation_id) (\<lambda>b.
     py_bind (text_arg ''reason'' reason) (\<lambda>r.
     py_bind (text_arg ''severity'' severity) (\<lambda>v.
     py_bind (datetime_arg ''escalated_at'' escalated_at) (\<lambda>d.
       Inr \<lparr>oe_escalation_id = i, oe_obligation_id = b, oe_escalated_to = escalated_to, oe_reason = r,
            oe_severity = v, oe_escalated_at = d\<rparr>)))))"

definition escalation_to_dict :: "obligation_escalation \<Rightarrow> (string \<times> pval) list" where
  "escalation_to_dict x =
     [(''escalation_id'', PStr (oe_escalation_id x)), (''obligation_id'', PStr (oe_obligation_id x)),
      (''escalated_to'', PDict (owner_to_dict (oe_escalated_to x))), (''reason'', PStr (oe_reason x)),
      (''severity'', PStr (oe_severity x)), (''escalated_at'', PStr (oe_escalated_at x))]"

section \<open>The engine\<close>

record obligations =
  eg_obligations :: "(string, obligation_record) pydict"
  eg_closures :: "(string, obligation_closure) pydict"
  eg_transfers :: "(string, obligation_transfer) pydict"
  eg_escalations :: "(string, obligation_escalation) pydict"
  eg_event_seq :: pval

definition obligations_init :: obligations where
  "obligations_init = \<lparr>eg_obligations = [], eg_closures = [], eg_transfers = [], eg_escalations = [],
     eg_event_seq = PInt 0\<rparr>"

definition create_obligation ::
  "obligations \<Rightarrow> string \<Rightarrow> string option \<Rightarrow> obligation_trigger \<Rightarrow> string \<Rightarrow> obligation_owner \<Rightarrow> obligation_deadline
    \<Rightarrow> string \<Rightarrow> string \<Rightarrow> (string \<times> pval) list option \<Rightarrow> obligation_record py \<times> obligations" where
  "create_obligation s now obligation_id trigger trigger_ref_id owner deadline description correlation_id metadata =
     (case py_bind (case obligation_id of
                      Some (c # cs) \<Rightarrow> Inr (c # cs)
                    | _ \<Rightarrow> stable_identifier ''obl''
                             [(''trigger'', JStr (obligation_trigger_value trigger)), (''ref'', JStr trigger_ref_id)])
        (\<lambda>oid. if dict_get (eg_obligations s) oid \<noteq> None
               then Inl (RuntimeCoreInvariantError ''obligation already exists'')
               else ObligationRecord (PStr oid) trigger (PStr trigger_ref_id) OS_PENDING owner deadline
                      (PStr description) (PStr correlation_id)
                      (PDict (case metadata of None \<Rightarrow> [] | Some m \<Rightarrow> m)) (PStr now) (PStr now)) of
        Inl e \<Rightarrow> (Inl e, s)
      | Inr r \<Rightarrow> (Inr r, s\<lparr>eg_obligations := dict_set (ob_obligation_id r) r (eg_obligations s)\<rparr>))"

definition create_from_event ::
  "obligations \<Rightarrow> string \<Rightarrow> event_record \<Rightarrow> obligation_trigger \<Rightarrow> obligation_owner \<Rightarrow> obligation_deadline
    \<Rightarrow> string \<Rightarrow> obligation_record py \<times> obligations" where
  "create_from_event s now event trigger owner deadline description =
     create_obligation s now None trigger (ev_event_id event) owner deadline description (ev_correlation_id event)
       (Some [(''source_event_type'', PStr (event_type_value (ev_event_type event)))])"

definition get_obligation :: "obligations \<Rightarrow> string \<Rightarrow> obligation_record option py" where
  "get_obligation s obligation_id =
     py_bind (ensure_non_empty_text ''obligation_id'' obligation_id) (\<lambda>i. Inr (dict_get (eg_obligations s) i))"

definition list_obligations ::
  "obligations \<Rightarrow> obligation_state option \<Rightarrow> string option \<Rightarrow> obligation_trigger option \<Rightarrow> obligation_record list py" where
  "list_obligations s state owner_id trigger =
     (let obls = wanted state ob_state (sort_key ob_obligation_id (dict_values (eg_obligations s)))
      in py_bind (case owner_id of None \<Rightarrow> Inr obls
                  | Some w \<Rightarrow> py_bind (ensure_non_empty_text ''owner_id'' w)
                               (\<lambda>w. Inr (wanted (Some w) (\<lambda>o1. ow_owner_id (ob_owner o1)) obls)))
           (\<lambda>obls. Inr (wanted trigger ob_trigger obls)))"

text \<open>The record every transition writes: the old one with new state, owner and time of update.\<close>

definition moved_record ::
  "obligation_record \<Rightarrow> obligation_state \<Rightarrow> obligation_owner \<Rightarrow> string \<Rightarrow> obligation_record py" where
  "moved_record obl state owner now =
     ObligationRecord (PStr (ob_obligation_id obl)) (ob_trigger obl) (PStr (ob_trigger_ref_id obl)) state owner
       (ob_deadline obl) (PStr (ob_description obl)) (PStr (ob_correlation_id obl)) (PDict (ob_metadata obl))
       (PStr (ob_created_at obl)) (PStr now)"

definition obligation_transition ::
  "obligations \<Rightarrow> string \<Rightarrow> string \<Rightarrow> obligation_state \<Rightarrow> obligation_state \<Rightarrow> obligation_record py \<times> obligations" where
  "obligation_transition s now obligation_id expected_from to_state =
     (case py_bind (ensure_non_empty_text ''obligation_id'' obligation_id) (\<lambda>i.
             case dict_get (eg_obligations s) i of
               None \<Rightarrow> Inl (RuntimeCoreInvariantError ''obligation not found'')
             | Some obl \<Rightarrow>
                 if ob_state obl \<noteq> expected_from
                 then Inl (RuntimeCoreInvariantError ''obligation state mismatch'')
                 else moved_record obl to_state (ob_owner obl) now) of
        Inl e \<Rightarrow> (Inl e, s)
      | Inr r \<Rightarrow> (Inr r, s\<lparr>eg_obligations := dict_set obligation_id r (eg_obligations s)\<rparr>))"

definition activate :: "obligations \<Rightarrow> string \<Rightarrow> string \<Rightarrow> obligation_record py \<times> obligations" where
  "activate s now obligation_id = obligation_transition s now obligation_id OS_PENDING OS_ACTIVE"

text \<open>The open obligation an operation works on; \<open>closed_msg\<close> is the message for a closed one.\<close>

definition open_obligation :: "obligations \<Rightarrow> string \<Rightarrow> string \<Rightarrow> obligation_record py" where
  "open_obligation s obligation_id closed_msg =
     (case dict_get (eg_obligations s) obligation_id of
        None \<Rightarrow> Inl (RuntimeCoreInvariantError ''obligation not found'')
      | Some obl \<Rightarrow> if ob_state obl \<in> set CLOSURE_STATES then Inl (RuntimeCoreInvariantError closed_msg) else Inr obl)"

definition closure_id_of :: "string \<Rightarrow> obligation_state \<Rightarrow> string py" where
  "closure_id_of obligation_id final_state =
     stable_identifier ''cls'' [(''obligation_id'', JStr obligation_id),
       (''final_state'', JStr (obligation_state_value final_state))]"

definition close_obligation ::
  "obligations \<Rightarrow> string \<Rightarrow> string \<Rightarrow> obligation_state \<Rightarrow> string \<Rightarrow> string \<Rightarrow> obligation_closure py \<times> obligations" where
  "close_obligation s now obligation_id final_state reason closed_by =
     (case py_bind (ensure_non_empty_text ''obligation_id'' obligation_id) (\<lambda>_.
           if final_state \<notin> set CLOSURE_STATES
           then Inl (RuntimeCoreInvariantError ''final_state must be terminal'')
           else py_bind (open_obligation s obligation_id ''obligation already closed'') (\<lambda>obl.
                py_bind (closure_id_of obligation_id final_state) (\<lambda>closure_id.
                py_bind (ObligationClosure (PStr closure_id) (PStr obligation_id) final_state (PStr reason)
                           (PStr closed_by) (PStr now)) (\<lambda>closure.
                py_bind (moved_record obl final_state (ob_owner obl) now) (\<lambda>updated.
                  Inr (closure, updated)))))) of
        Inl e \<Rightarrow> (Inl e, s)
      | Inr (closure, updated) \<Rightarrow>
          (Inr closure, s\<lparr>eg_closures := dict_set (oc_closure_id closure) closure (eg_closures s),
                          eg_obligations := dict_set obligation_id updated (eg_obligations s)\<rparr>))"

definition transfer_obligation ::
  "obligations \<Rightarrow> string \<Rightarrow> string \<Rightarrow> obligation_owner \<Rightarrow> string \<Rightarrow> obligation_transfer py \<times> obligations" where
  "transfer_obligation s now obligation_id to_owner reason =
     (case py_bind (ensure_non_empty_text ''obligation_id'' obligation_id) (\<lambda>_.
           py_bind (open_obligation s obligation_id ''cannot transfer closed obligation'') (\<lambda>obl.
           py_bind (stable_identifier ''xfr'' [(''obligation_id'', JStr obligation_id),
                      (''to'', JStr (ow_owner_id to_owner))]) (\<lambda>transfer_id.
           py_bind (ObligationTransfer (PStr transfer_id) (PStr obligation_id) (ob_owner obl) to_owner (PStr reason)
                      (PStr now)) (\<lambda>xfr.
           py_bind (moved_record obl (ob_state obl) to_owner now) (\<lambda>updated. Inr (xfr, updated)))))) of
        Inl e \<Rightarrow> (Inl e, s)
      | Inr (xfr, updated) \<Rightarrow>
          (Inr xfr, s\<lparr>eg_transfers := dict_set (ox_transfer_id xfr) xfr (eg_transfers s),
                      eg_obligations := dict_set obligation_id updated (eg_obligations s)\<rparr>))"

definition escalate_obligation ::
  "obligations \<Rightarrow> string \<Rightarrow> string \<Rightarrow> obligation_owner \<Rightarrow> string \<Rightarrow> string \<Rightarrow> obligation_escalation py \<times> obligations" where
  "escalate_obligation s now obligation_id escalated_to reason severity =
     (case py_bind (ensure_non_empty_text ''obligation_id'' obligation_id) (\<lambda>_.
           py_bind (open_obligation s obligation_id ''cannot escalate closed obligation'') (\<lambda>obl.
           py_bind (stable_identifier ''esc'' [(''obligation_id'', JStr obligation_id),
                      (''to'', JStr (ow_owner_id escalated_to))]) (\<lambda>esc_id.
           py_bind (ObligationEscalation (PStr esc_id) (PStr obligation_id) escalated_to (PStr reason) (PStr severity)
                      (PStr now)) (\<lambda>esc.
           py_bind (moved_record obl OS_ESCALATED escalated_to now) (\<lambda>updated. Inr (esc, updated)))))) of
        Inl e \<Rightarrow> (Inl e, s)
      | Inr (esc, updated) \<Rightarrow>
          (Inr esc, s\<lparr>eg_escalations := dict_set (oe_escalation_id esc) esc (eg_escalations s),
                      eg_obligations := dict_set obligation_id updated (eg_obligations s)\<rparr>))"

text \<open>The counter after its increment, which needs a number.\<close>

definition next_seq :: "pval \<Rightarrow> int py" where
  "next_seq v =
     (case v of PInt n \<Rightarrow> Inr (n + 1) | PBool b \<Rightarrow> Inr (of_bool b + 1)
      | _ \<Rightarrow> Inl (TypeError ''unsupported operand type''))"

definition obligation_event ::
  "obligations \<Rightarrow> string \<Rightarrow> obligation_record \<Rightarrow> event_type \<Rightarrow> event_record py \<times> obligations" where
  "obligation_event s now obl event_type =
     (case next_seq (eg_event_seq s) of
        Inl e \<Rightarrow> (Inl e, s)
      | Inr n \<Rightarrow>
          (py_bind (stable_identifier ''evt'' [(''obligation_id'', JStr (ob_obligation_id obl)),
                      (''type'', JStr (event_type_value event_type)), (''seq'', JInt n)]) (\<lambda>event_id.
             EventRecord (PStr event_id) (PEnum ''EventType'' (event_type_value event_type))
               (PEnum ''EventSource'' (event_source_value ES_OBLIGATION_RUNTIME)) (PStr (ob_correlation_id obl))
               (PDict [(''obligation_id'', PStr (ob_obligation_id obl)),
                       (''state'', PStr (obligation_state_value (ob_state obl))),
                       (''owner_id'', PStr (ow_owner_id (ob_owner obl))),
                       (''trigger'', PStr (obligation_trigger_value (ob_trigger obl)))]) (PStr now)),
           s\<lparr>eg_event_seq := PInt n\<rparr>))"

section \<open>History\<close>

definition transfer_history :: "obligations \<Rightarrow> string \<Rightarrow> obligation_transfer list py" where
  "transfer_history s obligation_id =
     py_bind (ensure_non_empty_text ''obligation_id'' obligation_id) (\<lambda>i.
       Inr (filter (\<lambda>x. ox_obligation_id x = i) (sort_key ox_transferred_at (dict_values (eg_transfers s)))))"

definition escalation_history :: "obligations \<Rightarrow> string \<Rightarrow> obligation_escalation list py" where
  "escalation_history s obligation_id =
     py_bind (ensure_non_empty_text ''obligation_id'' obligation_id) (\<lambda>i.
       Inr (filter (\<lambda>x. oe_obligation_id x = i) (sort_key oe_escalated_at (dict_values (eg_escalations s)))))"

definition closure_for :: "obligations \<Rightarrow> string \<Rightarrow> obligation_closure option py" where
  "closure_for s obligation_id =
     py_bind (ensure_non_empty_text ''obligation_id'' obligation_id) (\<lambda>i.
       Inr (find (\<lambda>c. oc_obligation_id c = i) (dict_values (eg_closures s))))"

definition open_count :: "obligations \<Rightarrow> int" where
  "open_count s = int (length (filter (\<lambda>o1. ob_state o1 \<in> {OS_PENDING, OS_ACTIVE, OS_ESCALATED})
     (dict_values (eg_obligations s))))"

section \<open>Snapshot and restore\<close>

definition obligations_hash :: "obligations \<Rightarrow> string" where
  "obligations_hash s = sha256_hex (dumps_default (JObj
     [(''obligations'', JObj (map (\<lambda>(k, o1). (k, JStr (obligation_state_value (ob_state o1)))) (eg_obligations s))),
      (''closures'', key_array (eg_closures s)), (''transfers'', key_array (eg_transfers s)),
      (''escalations'', key_array (eg_escalations s))]))"

definition obligations_snapshot :: "obligations \<Rightarrow> (string \<times> pval) list" where
  "obligations_snapshot s =
     [(''obligations'', snapshot_of obligation_to_dict (eg_obligations s)),
      (''closures'', snapshot_of closure_to_dict (eg_closures s)),
      (''transfers'', snapshot_of transfer_to_dict (eg_transfers s)),
      (''escalations'', snapshot_of escalation_to_dict (eg_escalations s)),
      (''event_seq'', eg_event_seq s), (''state_hash'', PStr (obligations_hash s))]"

abbreviation state_call :: "pval \<Rightarrow> obligation_state py" where
  "state_call \<equiv> enum_call ''ObligationState'' obligation_state_value OBLIGATION_STATES"

abbreviation trigger_call :: "pval \<Rightarrow> obligation_trigger py" where
  "trigger_call \<equiv> enum_call ''ObligationTrigger'' obligation_trigger_value OBLIGATION_TRIGGERS"

definition owner_item :: "(string \<times> pval) list \<Rightarrow> string \<Rightarrow> obligation_owner py" where
  "owner_item d key = py_bind (item d key) (\<lambda>v. py_bind (kwargs v) owner_of_dict)"

definition obligation_of_dict :: "(string \<times> pval) list \<Rightarrow> obligation_record py" where
  "obligation_of_dict d =
     py_bind (py_bind (item d ''state'') state_call) (\<lambda>state.
     py_bind (py_bind (item d ''trigger'') trigger_call) (\<lambda>trigger.
     py_bind (owner_item d ''owner'') (\<lambda>owner.
     py_bind (py_bind (item d ''deadline'') (\<lambda>v. py_bind (kwargs v) deadline_of_dict)) (\<lambda>deadline.
     py_bind (call_keys [''obligation_id'', ''trigger'', ''trigger_ref_id'', ''state'', ''owner'', ''deadline'',
                ''description'', ''correlation_id'', ''metadata'', ''created_at'', ''updated_at''] [] d) (\<lambda>_.
       ObligationRecord (arg d ''obligation_id'') trigger (arg d ''trigger_ref_id'') state owner deadline
         (arg d ''description'') (arg d ''correlation_id'') (arg d ''metadata'') (arg d ''created_at'')
         (arg d ''updated_at''))))))"

definition closure_of_dict :: "(string \<times> pval) list \<Rightarrow> obligation_closure py" where
  "closure_of_dict d =
     py_bind (py_bind (item d ''final_state'') state_call) (\<lambda>final_state.
     py_bind (call_keys [''closure_id'', ''obligation_id'', ''final_state'', ''reason'', ''closed_by'', ''closed_at''] [] d)
       (\<lambda>_. ObligationClosure (arg d ''closure_id'') (arg d ''obligation_id'') final_state (arg d ''reason'')
              (arg d ''closed_by'') (arg d ''closed_at'')))"

definition transfer_of_dict :: "(string \<times> pval) list \<Rightarrow> obligation_transfer py" where
  "transfer_of_dict d =
     py_bind (owner_item d ''from_owner'') (\<lambda>from_owner.
     py_bind (owner_item d ''to_owner'') (\<lambda>to_owner.
     py_bind (call_keys [''transfer_id'', ''obligation_id'', ''from_owner'', ''to_owner'', ''reason'', ''transferred_at''] [] d)
       (\<lambda>_. ObligationTransfer (arg d ''transfer_id'') (arg d ''obligation_id'') from_owner to_owner (arg d ''reason'')
              (arg d ''transferred_at''))))"

definition escalation_of_dict :: "(string \<times> pval) list \<Rightarrow> obligation_escalation py" where
  "escalation_of_dict d =
     py_bind (owner_item d ''escalated_to'') (\<lambda>escalated_to.
     py_bind (call_keys [''escalation_id'', ''obligation_id'', ''escalated_to'', ''reason'', ''severity'', ''escalated_at''] [] d)
       (\<lambda>_. ObligationEscalation (arg d ''escalation_id'') (arg d ''obligation_id'') escalated_to (arg d ''reason'')
              (arg d ''severity'') (arg d ''escalated_at'')))"

definition obligations_of_snapshot :: "(string \<times> pval) list \<Rightarrow> obligations py" where
  "obligations_of_snapshot snapshot =
     py_bind (rebuild_section (copied obligation_of_dict) snapshot ''obligations'') (\<lambda>obls.
     py_bind (rebuild_section (copied closure_of_dict) snapshot ''closures'') (\<lambda>closures.
     py_bind (rebuild_section (copied transfer_of_dict) snapshot ''transfers'') (\<lambda>transfers.
     py_bind (rebuild_section (copied escalation_of_dict) snapshot ''escalations'') (\<lambda>escalations.
       case dict_get snapshot ''event_seq'' of
         None \<Rightarrow> Inl (RuntimeCoreInvariantError ''snapshot missing required field event_seq'')
       | Some n \<Rightarrow> Inr \<lparr>eg_obligations = obls, eg_closures = closures, eg_transfers = transfers,
                        eg_escalations = escalations, eg_event_seq = n\<rparr>))))"

definition obligations_restore :: "obligations \<Rightarrow> (string \<times> pval) list \<Rightarrow> unit py \<times> obligations" where
  "obligations_restore s snapshot =
     (case obligations_of_snapshot snapshot of Inl e \<Rightarrow> (Inl e, s) | Inr s' \<Rightarrow> (Inr (), s'))"

section \<open>Well-formed records\<close>

lemma obligation_states: "inj obligation_state_value" "set OBLIGATION_STATES = UNIV"
proof -
  show *: "set OBLIGATION_STATES = UNIV"
    by (auto simp: OBLIGATION_STATES_def intro: obligation_state.exhaust)
  have "distinct (map obligation_state_value OBLIGATION_STATES)" by code_simp
  with * show "inj obligation_state_value" by (simp add: distinct_map)
qed

lemma obligation_triggers: "inj obligation_trigger_value" "set OBLIGATION_TRIGGERS = UNIV"
proof -
  show *: "set OBLIGATION_TRIGGERS = UNIV"
    by (auto simp: OBLIGATION_TRIGGERS_def intro: obligation_trigger.exhaust)
  have "distinct (map obligation_trigger_value OBLIGATION_TRIGGERS)" by code_simp
  with * show "inj obligation_trigger_value" by (simp add: distinct_map)
qed

lemmas obligation_values [simp] = inj_eq[OF obligation_states(1)] inj_eq[OF obligation_triggers(1)]

lemmas obligation_members [validators] = enum_call_ok[OF obligation_states] enum_call_ok[OF obligation_triggers]

definition owner_ok :: "obligation_owner \<Rightarrow> bool" where
  "owner_ok w \<longleftrightarrow> \<not> blank (ow_owner_id w) \<and> \<not> blank (ow_owner_type w) \<and> \<not> blank (ow_display_name w)"

definition deadline_ok :: "obligation_deadline \<Rightarrow> bool" where
  "deadline_ok d \<longleftrightarrow> \<not> blank (dl_deadline_id d) \<and> time_ok (dl_due_at d) \<and>
     (case dl_warn_at d of None \<Rightarrow> True | Some t \<Rightarrow> time_ok t)"

definition obligation_ok :: "obligation_record \<Rightarrow> bool" where
  "obligation_ok x \<longleftrightarrow> \<not> blank (ob_obligation_id x) \<and> \<not> blank (ob_trigger_ref_id x) \<and> \<not> blank (ob_description x) \<and>
     \<not> blank (ob_correlation_id x) \<and> time_ok (ob_created_at x) \<and> time_ok (ob_updated_at x) \<and>
     owner_ok (ob_owner x) \<and> deadline_ok (ob_deadline x)"

definition closure_ok :: "obligation_closure \<Rightarrow> bool" where
  "closure_ok c \<longleftrightarrow> \<not> blank (oc_closure_id c) \<and> \<not> blank (oc_obligation_id c) \<and> \<not> blank (oc_reason c) \<and>
     \<not> blank (oc_closed_by c) \<and> oc_final_state c \<in> set CLOSURE_STATES \<and> time_ok (oc_closed_at c)"

definition transfer_ok :: "obligation_transfer \<Rightarrow> bool" where
  "transfer_ok x \<longleftrightarrow> \<not> blank (ox_transfer_id x) \<and> \<not> blank (ox_obligation_id x) \<and> \<not> blank (ox_reason x) \<and>
     owner_ok (ox_from_owner x) \<and> owner_ok (ox_to_owner x) \<and>
     ow_owner_id (ox_from_owner x) \<noteq> ow_owner_id (ox_to_owner x) \<and> time_ok (ox_transferred_at x)"

definition escalation_ok :: "obligation_escalation \<Rightarrow> bool" where
  "escalation_ok x \<longleftrightarrow> \<not> blank (oe_escalation_id x) \<and> \<not> blank (oe_obligation_id x) \<and> \<not> blank (oe_reason x) \<and>
     \<not> blank (oe_severity x) \<and> owner_ok (oe_escalated_to x) \<and> time_ok (oe_escalated_at x)"

lemmas obligation_oks = owner_ok_def deadline_ok_def obligation_ok_def closure_ok_def transfer_ok_def
  escalation_ok_def time_ok_def

lemmas obligation_makers = ObligationOwner_def ObligationDeadline_def ObligationRecord_def ObligationClosure_def
  ObligationTransfer_def ObligationEscalation_def

text \<open>An owner and a deadline from a dictionary, and back.\<close>

lemma owner_dict [simp]: "owner_ok w \<Longrightarrow> owner_of_dict (owner_to_dict w) = Inr w"
  by (simp add: owner_of_dict_def owner_to_dict_def call_keys_def ObligationOwner_def py_bind_Inr_iff validators
      owner_ok_def)

lemma owner_dict_ok: "owner_of_dict d = Inr w \<Longrightarrow> owner_ok w"
  by (auto simp: owner_of_dict_def ObligationOwner_def py_bind_Inr_iff validators owner_ok_def)

lemma deadline_dict [simp]: "deadline_ok x \<Longrightarrow> deadline_of_dict (deadline_to_dict x) = Inr x"
  by (cases "dl_warn_at x")
     (simp_all add: deadline_of_dict_def deadline_to_dict_def call_keys_def ObligationDeadline_def py_bind_Inr_iff
        validators deadline_ok_def time_ok_def optional_text_def)

lemma deadline_dict_ok: "deadline_of_dict d = Inr x \<Longrightarrow> deadline_ok x"
  by (auto simp: deadline_of_dict_def ObligationDeadline_def py_bind_Inr_iff validators deadline_ok_def time_ok_def
      split: if_splits)

lemma owner_item_dict [simp]: "dict_get d k = Some (PDict (owner_to_dict w)) \<Longrightarrow> owner_ok w \<Longrightarrow> owner_item d k = Inr w"
  by (simp add: owner_item_def item_def kwargs_def)

lemma owner_item_ok: "owner_item d k = Inr w \<Longrightarrow> owner_ok w"
  by (auto simp: owner_item_def py_bind_Inr_iff dest: owner_dict_ok)

interpretation obligation_dicts: contract_record "copied obligation_of_dict" obligation_to_dict obligation_ok
proof
  show "copied obligation_of_dict (PDict (obligation_to_dict x)) = Inr x" if "obligation_ok x" for x
  proof -
    have "owner_item (obligation_to_dict x) ''owner'' = Inr (ob_owner x)"
      using that by (intro owner_item_dict) (auto simp: obligation_to_dict_def obligation_ok_def)
    then show ?thesis using that
      by (simp add: obligation_of_dict_def obligation_to_dict_def call_keys_def ObligationRecord_def py_bind_Inr_iff
          validators obligation_ok_def time_ok_def kwargs_def dict_call_def)
  qed
  show "copied obligation_of_dict v = Inr x \<Longrightarrow> obligation_ok x" for v x
    by (auto simp: copied_def obligation_of_dict_def ObligationRecord_def py_bind_Inr_iff validators obligation_ok_def
        time_ok_def dest: deadline_dict_ok owner_item_ok)
qed

interpretation closure_dicts: contract_record "copied closure_of_dict" closure_to_dict closure_ok
proof
  show "closure_ok x \<Longrightarrow> copied closure_of_dict (PDict (closure_to_dict x)) = Inr x" for x
    by (simp add: closure_of_dict_def closure_to_dict_def call_keys_def ObligationClosure_def py_bind_Inr_iff validators
        closure_ok_def time_ok_def)
  show "copied closure_of_dict v = Inr x \<Longrightarrow> closure_ok x" for v x
    by (auto simp: copied_def closure_of_dict_def ObligationClosure_def py_bind_Inr_iff validators closure_ok_def
        time_ok_def split: if_splits)
qed

interpretation transfer_dicts: contract_record "copied transfer_of_dict" transfer_to_dict transfer_ok
proof
  show "copied transfer_of_dict (PDict (transfer_to_dict x)) = Inr x" if "transfer_ok x" for x
  proof -
    have "owner_item (transfer_to_dict x) ''from_owner'' = Inr (ox_from_owner x)"
      "owner_item (transfer_to_dict x) ''to_owner'' = Inr (ox_to_owner x)"
      using that by (auto intro!: owner_item_dict simp: transfer_to_dict_def transfer_ok_def)
    then show ?thesis using that
      by (simp add: transfer_of_dict_def transfer_to_dict_def call_keys_def ObligationTransfer_def py_bind_Inr_iff
          validators transfer_ok_def time_ok_def)
  qed
  show "copied transfer_of_dict v = Inr x \<Longrightarrow> transfer_ok x" for v x
    by (auto simp: copied_def transfer_of_dict_def ObligationTransfer_def py_bind_Inr_iff validators transfer_ok_def
        time_ok_def dest: owner_item_ok split: if_splits)
qed

interpretation escalation_dicts: contract_record "copied escalation_of_dict" escalation_to_dict escalation_ok
proof
  show "copied escalation_of_dict (PDict (escalation_to_dict x)) = Inr x" if "escalation_ok x" for x
  proof -
    have "owner_item (escalation_to_dict x) ''escalated_to'' = Inr (oe_escalated_to x)"
      using that by (intro owner_item_dict) (auto simp: escalation_to_dict_def escalation_ok_def)
    then show ?thesis using that
      by (simp add: escalation_of_dict_def escalation_to_dict_def call_keys_def ObligationEscalation_def py_bind_Inr_iff
          validators escalation_ok_def time_ok_def)
  qed
  show "copied escalation_of_dict v = Inr x \<Longrightarrow> escalation_ok x" for v x
    by (auto simp: copied_def escalation_of_dict_def ObligationEscalation_def py_bind_Inr_iff validators
        escalation_ok_def time_ok_def dest: owner_item_ok)
qed

lemma moved_record_iff:
  assumes "obligation_ok x"
  shows "moved_record x st w now = Inr r \<longleftrightarrow>
    time_ok now \<and> r = x\<lparr>ob_state := st, ob_owner := w, ob_updated_at := now\<rparr>"
  using assms
  by (auto simp: moved_record_def ObligationRecord_def py_bind_Inr_iff validators obligation_ok_def time_ok_def
      dict_call_def)

lemma moved_record_ok:
  "obligation_ok x \<Longrightarrow> owner_ok w \<Longrightarrow> time_ok now \<Longrightarrow>
   obligation_ok (x\<lparr>ob_state := st, ob_owner := w, ob_updated_at := now\<rparr>)"
  by (simp add: obligation_ok_def)

section \<open>What an operation does\<close>

abbreviation moved :: "obligation_record \<Rightarrow> obligation_state \<Rightarrow> obligation_owner \<Rightarrow> string \<Rightarrow> obligation_record" where
  "moved x st w now \<equiv> x\<lparr>ob_state := st, ob_owner := w, ob_updated_at := now\<rparr>"

abbreviation obligation_at :: "obligations \<Rightarrow> string \<Rightarrow> obligation_record option" where
  "obligation_at s i \<equiv> dict_get (eg_obligations s) i"

text \<open>The stored obligations are well-formed, under their identifiers and in a state of the machine.\<close>

definition stored_ok :: "obligations \<Rightarrow> bool" where
  "stored_ok s \<longleftrightarrow> filed ob_obligation_id (\<lambda>x. obligation_ok x \<and> ob_state x \<noteq> OS_TRANSFERRED) (eg_obligations s)"

lemma stored_okD: "stored_ok s \<Longrightarrow> obligation_at s i = Some x \<Longrightarrow>
    obligation_ok x \<and> ob_obligation_id x = i \<and> ob_state x \<noteq> OS_TRANSFERRED \<and> \<not> blank i"
  by (auto simp: stored_ok_def filed_def obligation_ok_def)

lemma stable_ids:
  "\<exists>i. stable_identifier ''obl'' p = Inr i \<and> \<not> blank i" "\<exists>i. stable_identifier ''cls'' p = Inr i \<and> \<not> blank i"
  "\<exists>i. stable_identifier ''xfr'' p = Inr i \<and> \<not> blank i" "\<exists>i. stable_identifier ''esc'' p = Inr i \<and> \<not> blank i"
  "\<exists>i. stable_identifier ''evt'' p = Inr i \<and> \<not> blank i"
  by (rule stable_identifier_total, code_simp)+

lemma open_obligation_iff:
  "open_obligation s i msg = Inr x \<longleftrightarrow> obligation_at s i = Some x \<and> ob_state x \<notin> set CLOSURE_STATES"
  by (auto simp: open_obligation_def split: option.splits)

lemma activate_outcome:
  assumes "stored_ok s"
  shows "(\<exists>e. activate s now i = (Inl e, s)) \<or>
    (\<exists>x. obligation_at s i = Some x \<and> ob_state x = OS_PENDING \<and> time_ok now \<and>
       activate s now i = (Inr (moved x OS_ACTIVE (ob_owner x) now),
         s\<lparr>eg_obligations := dict_set i (moved x OS_ACTIVE (ob_owner x) now) (eg_obligations s)\<rparr>))"
proof -
  let ?r = "py_bind (ensure_non_empty_text ''obligation_id'' i) (\<lambda>i.
     case dict_get (eg_obligations s) i of None \<Rightarrow> Inl (RuntimeCoreInvariantError ''obligation not found'')
     | Some obl \<Rightarrow> if ob_state obl \<noteq> OS_PENDING then Inl (RuntimeCoreInvariantError ''obligation state mismatch'')
                  else moved_record obl OS_ACTIVE (ob_owner obl) now)"
  show ?thesis
  proof (cases ?r)
    case (Inr r)
    then obtain x where x: "obligation_at s i = Some x" "ob_state x = OS_PENDING"
      "moved_record x OS_ACTIVE (ob_owner x) now = Inr r"
      by (auto simp: py_bind_Inr_iff ensure_non_empty_text_def split: option.splits if_splits)
    with moved_record_iff stored_okD[OF assms x(1)] Inr show ?thesis
      by (auto simp: activate_def obligation_transition_def)
  qed (simp add: activate_def obligation_transition_def)
qed

lemma close_outcome:
  assumes "stored_ok s"
  shows "(\<exists>e. close_obligation s now i f reason who = (Inl e, s)) \<or>
    (\<exists>x c. obligation_at s i = Some x \<and> ob_state x \<notin> set CLOSURE_STATES \<and> f \<in> set CLOSURE_STATES \<and> time_ok now \<and>
       closure_ok c \<and> oc_obligation_id c = i \<and> oc_final_state c = f \<and> closure_id_of i f = Inr (oc_closure_id c) \<and>
       close_obligation s now i f reason who =
         (Inr c, s\<lparr>eg_closures := dict_set (oc_closure_id c) c (eg_closures s),
                   eg_obligations := dict_set i (moved x f (ob_owner x) now) (eg_obligations s)\<rparr>))"
proof (cases "close_obligation s now i f reason who")
  case (Pair r s')
  show ?thesis
  proof (cases r)
    case (Inl e)
    then show ?thesis using Pair by (auto simp: close_obligation_def split: sum.splits)
  next
    case (Inr c)
    with Pair obtain x cid u where *: "obligation_at s i = Some x" "ob_state x \<notin> set CLOSURE_STATES"
      "f \<in> set CLOSURE_STATES" "closure_id_of i f = Inr cid"
      "ObligationClosure (PStr cid) (PStr i) f (PStr reason) (PStr who) (PStr now) = Inr c"
      "moved_record x f (ob_owner x) now = Inr u"
      "s' = s\<lparr>eg_closures := dict_set (oc_closure_id c) c (eg_closures s),
              eg_obligations := dict_set i u (eg_obligations s)\<rparr>"
      by (auto simp: close_obligation_def py_bind_Inr_iff open_obligation_iff split: sum.splits if_splits)
    have "closure_ok c" "oc_obligation_id c = i" "oc_final_state c = f" "oc_closure_id c = cid"
      using *(3,5) by (auto simp: ObligationClosure_def py_bind_Inr_iff validators closure_ok_def time_ok_def)
    with * Pair Inr moved_record_iff stored_okD[OF assms *(1)] show ?thesis by auto
  qed
qed

lemma transfer_outcome:
  assumes "stored_ok s"
  shows "(\<exists>e. transfer_obligation s now i w reason = (Inl e, s)) \<or>
    (\<exists>x t. obligation_at s i = Some x \<and> ob_state x \<notin> set CLOSURE_STATES \<and> time_ok now \<and>
       ow_owner_id (ob_owner x) \<noteq> ow_owner_id w \<and> ox_from_owner t = ob_owner x \<and> ox_to_owner t = w \<and>
       ox_obligation_id t = i \<and> (owner_ok w \<longrightarrow> transfer_ok t) \<and>
       transfer_obligation s now i w reason =
         (Inr t, s\<lparr>eg_transfers := dict_set (ox_transfer_id t) t (eg_transfers s),
                   eg_obligations := dict_set i (moved x (ob_state x) w now) (eg_obligations s)\<rparr>))"
proof (cases "transfer_obligation s now i w reason")
  case (Pair r s')
  show ?thesis
  proof (cases r)
    case (Inl e)
    then show ?thesis using Pair by (auto simp: transfer_obligation_def split: sum.splits)
  next
    case (Inr t)
    with Pair obtain x tid u where *: "obligation_at s i = Some x" "ob_state x \<notin> set CLOSURE_STATES"
      "ObligationTransfer (PStr tid) (PStr i) (ob_owner x) w (PStr reason) (PStr now) = Inr t"
      "moved_record x (ob_state x) w now = Inr u"
      "s' = s\<lparr>eg_transfers := dict_set (ox_transfer_id t) t (eg_transfers s),
              eg_obligations := dict_set i u (eg_obligations s)\<rparr>"
      by (auto simp: transfer_obligation_def py_bind_Inr_iff open_obligation_iff split: sum.splits)
    have ok: "obligation_ok x" using stored_okD[OF assms *(1)] by blast
    have "ow_owner_id (ob_owner x) \<noteq> ow_owner_id w" "ox_from_owner t = ob_owner x" "ox_to_owner t = w"
      "ox_obligation_id t = i" "owner_ok w \<longrightarrow> transfer_ok t"
      using *(3) ok by (auto simp: ObligationTransfer_def py_bind_Inr_iff validators transfer_ok_def time_ok_def
          obligation_ok_def split: if_splits)
    with * Pair Inr moved_record_iff[OF ok] show ?thesis by auto
  qed
qed

lemma escalate_outcome:
  assumes "stored_ok s"
  shows "(\<exists>e. escalate_obligation s now i w reason sev = (Inl e, s)) \<or>
    (\<exists>x t. obligation_at s i = Some x \<and> ob_state x \<notin> set CLOSURE_STATES \<and> time_ok now \<and>
       oe_escalated_to t = w \<and> oe_obligation_id t = i \<and> (owner_ok w \<longrightarrow> escalation_ok t) \<and>
       escalate_obligation s now i w reason sev =
         (Inr t, s\<lparr>eg_escalations := dict_set (oe_escalation_id t) t (eg_escalations s),
                   eg_obligations := dict_set i (moved x OS_ESCALATED w now) (eg_obligations s)\<rparr>))"
proof (cases "escalate_obligation s now i w reason sev")
  case (Pair r s')
  show ?thesis
  proof (cases r)
    case (Inl e)
    then show ?thesis using Pair by (auto simp: escalate_obligation_def split: sum.splits)
  next
    case (Inr t)
    with Pair obtain x tid u where *: "obligation_at s i = Some x" "ob_state x \<notin> set CLOSURE_STATES"
      "ObligationEscalation (PStr tid) (PStr i) w (PStr reason) (PStr sev) (PStr now) = Inr t"
      "moved_record x OS_ESCALATED w now = Inr u"
      "s' = s\<lparr>eg_escalations := dict_set (oe_escalation_id t) t (eg_escalations s),
              eg_obligations := dict_set i u (eg_obligations s)\<rparr>"
      by (auto simp: escalate_obligation_def py_bind_Inr_iff open_obligation_iff split: sum.splits)
    have "oe_escalated_to t = w" "oe_obligation_id t = i" "owner_ok w \<longrightarrow> escalation_ok t"
      using *(3) by (auto simp: ObligationEscalation_def py_bind_Inr_iff validators escalation_ok_def time_ok_def)
    with * Pair Inr moved_record_iff stored_okD[OF assms *(1)] show ?thesis by auto
  qed
qed

lemma create_outcome:
  "(\<exists>e. create_obligation s now oid tr ref w d desc corr md = (Inl e, s)) \<or>
   (\<exists>x. obligation_at s (ob_obligation_id x) = None \<and> ob_state x = OS_PENDING \<and>
      (owner_ok w \<longrightarrow> deadline_ok d \<longrightarrow> obligation_ok x) \<and>
      create_obligation s now oid tr ref w d desc corr md =
        (Inr x, s\<lparr>eg_obligations := dict_set (ob_obligation_id x) x (eg_obligations s)\<rparr>))"
proof -
  define ident where "ident = (case oid of Some (c # cs) \<Rightarrow> Inr (c # cs)
    | _ \<Rightarrow> stable_identifier ''obl'' [(''trigger'', JStr (obligation_trigger_value tr)), (''ref'', JStr ref)])"
  define make where "make = (\<lambda>k. if obligation_at s k \<noteq> None
    then Inl (RuntimeCoreInvariantError ''obligation already exists'')
    else ObligationRecord (PStr k) tr (PStr ref) OS_PENDING w d (PStr desc) (PStr corr)
           (PDict (case md of None \<Rightarrow> [] | Some m \<Rightarrow> m)) (PStr now) (PStr now))"
  have eq: "create_obligation s now oid tr ref w d desc corr md =
    (case py_bind ident make of Inl e \<Rightarrow> (Inl e, s)
     | Inr r \<Rightarrow> (Inr r, s\<lparr>eg_obligations := dict_set (ob_obligation_id r) r (eg_obligations s)\<rparr>))"
    by (simp only: create_obligation_def ident_def make_def)
  show ?thesis
  proof (cases "py_bind ident make")
    case (Inr x)
    then obtain k where k: "make k = Inr x" by (auto simp: py_bind_Inr_iff)
    then have "obligation_at s k = None" by (auto simp: make_def split: if_splits)
    moreover from this k have "ob_obligation_id x = k" "ob_state x = OS_PENDING"
      "owner_ok w \<longrightarrow> deadline_ok d \<longrightarrow> obligation_ok x"
      by (auto simp: make_def ObligationRecord_def py_bind_Inr_iff validators obligation_ok_def time_ok_def dict_call_def)
    ultimately show ?thesis by (auto simp: eq Inr)
  qed (simp add: eq)
qed

section \<open>Runs\<close>

text \<open>The operations of clients; owners, deadlines and events are objects their classes have accepted.\<close>

inductive obligation_step :: "obligations \<Rightarrow> obligations \<Rightarrow> bool" where
  os_create: "owner_ok w \<Longrightarrow> deadline_ok d \<Longrightarrow>
    obligation_step s (snd (create_obligation s now oid tr ref w d desc corr md))"
| os_from_event: "owner_ok w \<Longrightarrow> deadline_ok d \<Longrightarrow>
    obligation_step s (snd (create_from_event s now e tr w d desc))"
| os_activate: "obligation_step s (snd (activate s now i))"
| os_close: "obligation_step s (snd (close_obligation s now i f reason who))"
| os_transfer: "owner_ok w \<Longrightarrow> obligation_step s (snd (transfer_obligation s now i w reason))"
| os_escalate: "owner_ok w \<Longrightarrow> obligation_step s (snd (escalate_obligation s now i w reason sev))"
| os_event: "obligation_step s (snd (obligation_event s now x t))"

abbreviation obligation_run :: "obligations \<Rightarrow> obligations \<Rightarrow> bool" where
  "obligation_run \<equiv> obligation_step\<^sup>*\<^sup>*"

definition closures_true :: "obligations \<Rightarrow> bool" where
  "closures_true s \<longleftrightarrow> (\<forall>k c. dict_get (eg_closures s) k = Some c \<longrightarrow>
     (\<exists>x. obligation_at s (oc_obligation_id c) = Some x \<and> ob_state x = oc_final_state c))"

definition closed_recorded :: "obligations \<Rightarrow> bool" where
  "closed_recorded s \<longleftrightarrow> (\<forall>i x. obligation_at s i = Some x \<longrightarrow> ob_state x \<in> set CLOSURE_STATES \<longrightarrow>
     (\<exists>cid. closure_id_of i (ob_state x) = Inr cid \<and> dict_get (eg_closures s) cid \<noteq> None))"

abbreviation closure_named :: "obligation_closure \<Rightarrow> bool" where
  "closure_named c \<equiv> closure_ok c \<and> closure_id_of (oc_obligation_id c) (oc_final_state c) = Inr (oc_closure_id c)"

definition histories_ok :: "obligations \<Rightarrow> bool" where
  "histories_ok s \<longleftrightarrow> filed oc_closure_id closure_named (eg_closures s) \<and> filed ox_transfer_id transfer_ok (eg_transfers s) \<and>
     filed oe_escalation_id escalation_ok (eg_escalations s) \<and> (\<exists>n. eg_event_seq s = PInt n)"

definition engine_ok :: "obligations \<Rightarrow> bool" where
  "engine_ok s \<longleftrightarrow> stored_ok s \<and> histories_ok s \<and> closures_true s \<and> closed_recorded s"

lemma engine_ok_init: "engine_ok obligations_init"
  by (simp add: engine_ok_def obligations_init_def stored_ok_def histories_ok_def closures_true_def closed_recorded_def)

lemma engine_stored: "engine_ok s \<Longrightarrow> stored_ok s"
  by (simp add: engine_ok_def)

lemma stored_ok_set:
  "stored_ok s \<Longrightarrow> obligation_ok x \<Longrightarrow> ob_state x \<noteq> OS_TRANSFERRED \<Longrightarrow> i = ob_obligation_id x \<Longrightarrow>
   stored_ok (s\<lparr>eg_obligations := dict_set i x (eg_obligations s)\<rparr>)"
  by (auto simp: stored_ok_def)

lemma closure_state_of:
  "engine_ok s \<Longrightarrow> dict_get (eg_closures s) k = Some c \<Longrightarrow> oc_final_state c \<in> set CLOSURE_STATES"
  by (auto simp: engine_ok_def histories_ok_def filed_def closure_ok_def)

text \<open>Opening or moving an obligation that is not closed, to a state that is not closed.\<close>

lemma engine_ok_open:
  assumes ok: "engine_ok s" and x: "obligation_ok x" "ob_state x \<noteq> OS_TRANSFERRED" "ob_state x \<notin> set CLOSURE_STATES"
    and old: "\<And>y. obligation_at s (ob_obligation_id x) = Some y \<Longrightarrow> ob_state y \<notin> set CLOSURE_STATES"
  shows "engine_ok (s\<lparr>eg_obligations := dict_set (ob_obligation_id x) x (eg_obligations s)\<rparr>)"
proof -
  let ?s = "s\<lparr>eg_obligations := dict_set (ob_obligation_id x) x (eg_obligations s)\<rparr>"
  have "closures_true ?s"
    unfolding closures_true_def
  proof (intro allI impI)
    fix k c assume "dict_get (eg_closures ?s) k = Some c"
    then have c: "dict_get (eg_closures s) k = Some c" by simp
    then obtain y where y: "obligation_at s (oc_obligation_id c) = Some y" "ob_state y = oc_final_state c"
      using ok unfolding engine_ok_def closures_true_def by blast
    have "oc_obligation_id c \<noteq> ob_obligation_id x" using old y closure_state_of[OF ok c] by auto
    with y show "\<exists>y. obligation_at ?s (oc_obligation_id c) = Some y \<and> ob_state y = oc_final_state c" by auto
  qed
  moreover have "closed_recorded ?s"
    using ok x(3) by (auto simp: engine_ok_def closed_recorded_def)
  moreover have "stored_ok ?s" using stored_ok_set engine_stored[OF ok] x by blast
  moreover have "histories_ok ?s" using ok by (simp add: engine_ok_def histories_ok_def)
  ultimately show ?thesis by (simp add: engine_ok_def)
qed

lemma engine_ok_move:
  assumes "engine_ok s" "obligation_at s i = Some x" "ob_state x \<notin> set CLOSURE_STATES" "owner_ok w" "time_ok now"
    and "st \<notin> set CLOSURE_STATES" "st \<noteq> OS_TRANSFERRED"
  shows "engine_ok (s\<lparr>eg_obligations := dict_set i (moved x st w now) (eg_obligations s)\<rparr>)"
  using engine_ok_open[of s "moved x st w now"] assms stored_okD[OF engine_stored assms(2)] moved_record_ok by auto

lemma engine_ok_close:
  assumes ok: "engine_ok s" and x: "obligation_at s i = Some x" "ob_state x \<notin> set CLOSURE_STATES"
    and f: "f \<in> set CLOSURE_STATES" and "time_ok now" and c: "closure_ok c" "oc_obligation_id c = i" "oc_final_state c = f"
    and cid: "closure_id_of i f = Inr (oc_closure_id c)"
  shows "engine_ok (s\<lparr>eg_closures := dict_set (oc_closure_id c) c (eg_closures s),
           eg_obligations := dict_set i (moved x f (ob_owner x) now) (eg_obligations s)\<rparr>)"
proof -
  let ?u = "moved x f (ob_owner x) now"
  let ?s = "s\<lparr>eg_closures := dict_set (oc_closure_id c) c (eg_closures s), eg_obligations := dict_set i ?u (eg_obligations s)\<rparr>"
  have u: "obligation_ok ?u" "ob_obligation_id ?u = i" "ob_state ?u \<noteq> OS_TRANSFERRED"
    using stored_okD[OF engine_stored[OF ok] x(1)] moved_record_ok[of x "ob_owner x" now f] assms(5) f
    by (auto simp: CLOSURE_STATES_def obligation_ok_def)
  have "stored_ok ?s"
    using engine_stored[OF ok] u unfolding stored_ok_def by auto
  moreover have "histories_ok ?s"
    using ok c cid unfolding engine_ok_def histories_ok_def by auto
  moreover have "closures_true ?s"
    unfolding closures_true_def
  proof (intro allI impI)
    fix k c' assume c': "dict_get (eg_closures ?s) k = Some c'"
    show "\<exists>y. obligation_at ?s (oc_obligation_id c') = Some y \<and> ob_state y = oc_final_state c'"
    proof (cases "k = oc_closure_id c")
      case True
      then show ?thesis using c' c by auto
    next
      case False
      then have k: "dict_get (eg_closures s) k = Some c'" using c' by simp
      then obtain y where y: "obligation_at s (oc_obligation_id c') = Some y" "ob_state y = oc_final_state c'"
        using ok unfolding engine_ok_def closures_true_def by blast
      have "oc_obligation_id c' \<noteq> i" using x y closure_state_of[OF ok k] by auto
      with y show ?thesis by auto
    qed
  qed
  moreover have "closed_recorded ?s"
    unfolding closed_recorded_def
  proof (intro allI impI)
    fix j y assume y: "obligation_at ?s j = Some y" "ob_state y \<in> set CLOSURE_STATES"
    show "\<exists>k. closure_id_of j (ob_state y) = Inr k \<and> dict_get (eg_closures ?s) k \<noteq> None"
    proof (cases "j = i")
      case True
      then show ?thesis using y cid c by auto
    next
      case False
      then have "obligation_at s j = Some y" using y(1) by simp
      then obtain k where "closure_id_of j (ob_state y) = Inr k" "dict_get (eg_closures s) k \<noteq> None"
        using y(2) ok unfolding engine_ok_def closed_recorded_def by blast
      then show ?thesis by auto
    qed
  qed
  ultimately show ?thesis by (simp add: engine_ok_def)
qed

lemma engine_ok_transfer:
  "engine_ok s \<Longrightarrow> transfer_ok t \<Longrightarrow> engine_ok (s\<lparr>eg_transfers := dict_set (ox_transfer_id t) t (eg_transfers s)\<rparr>)"
  by (auto simp: engine_ok_def stored_ok_def histories_ok_def closures_true_def closed_recorded_def)

lemma engine_ok_escalation:
  "engine_ok s \<Longrightarrow> escalation_ok t \<Longrightarrow> engine_ok (s\<lparr>eg_escalations := dict_set (oe_escalation_id t) t (eg_escalations s)\<rparr>)"
  by (auto simp: engine_ok_def stored_ok_def histories_ok_def closures_true_def closed_recorded_def)

lemma engine_ok_create:
  assumes "engine_ok s" "owner_ok w" "deadline_ok d"
  shows "engine_ok (snd (create_obligation s now oid tr ref w d desc corr md))"
  using create_outcome[of s now oid tr ref w d desc corr md]
proof
  assume "\<exists>x. obligation_at s (ob_obligation_id x) = None \<and> ob_state x = OS_PENDING \<and>
      (owner_ok w \<longrightarrow> deadline_ok d \<longrightarrow> obligation_ok x) \<and> create_obligation s now oid tr ref w d desc corr md =
        (Inr x, s\<lparr>eg_obligations := dict_set (ob_obligation_id x) x (eg_obligations s)\<rparr>)"
  then obtain x where x: "obligation_at s (ob_obligation_id x) = None" "ob_state x = OS_PENDING" "obligation_ok x"
    and eq: "create_obligation s now oid tr ref w d desc corr md =
        (Inr x, s\<lparr>eg_obligations := dict_set (ob_obligation_id x) x (eg_obligations s)\<rparr>)"
    using assms(2,3) by blast
  have "engine_ok (s\<lparr>eg_obligations := dict_set (ob_obligation_id x) x (eg_obligations s)\<rparr>)"
    by (rule engine_ok_open[OF assms(1) x(3)]) (simp_all add: x CLOSURE_STATES_def)
  with eq show ?thesis by simp
qed (use assms in auto)

lemma event_frame: "snd (obligation_event s now x t) = s \<or> (\<exists>n. snd (obligation_event s now x t) = s\<lparr>eg_event_seq := PInt n\<rparr>)"
  by (auto simp: obligation_event_def split: sum.splits)

lemma obligation_step_ok: "obligation_step s s' \<Longrightarrow> engine_ok s \<Longrightarrow> engine_ok s'"
proof (induction rule: obligation_step.induct)
  case (os_create w d s)
  then show ?case by (simp add: engine_ok_create)
next
  case (os_from_event w d s)
  then show ?case by (simp add: create_from_event_def engine_ok_create)
next
  case (os_activate s now i)
  from activate_outcome[OF engine_stored[OF this], of now i] show ?case
  proof
    assume "\<exists>x. obligation_at s i = Some x \<and> ob_state x = OS_PENDING \<and> time_ok now \<and>
       activate s now i = (Inr (moved x OS_ACTIVE (ob_owner x) now),
         s\<lparr>eg_obligations := dict_set i (moved x OS_ACTIVE (ob_owner x) now) (eg_obligations s)\<rparr>)"
    then obtain x where x: "obligation_at s i = Some x" "ob_state x = OS_PENDING" "time_ok now"
      "activate s now i = (Inr (moved x OS_ACTIVE (ob_owner x) now),
         s\<lparr>eg_obligations := dict_set i (moved x OS_ACTIVE (ob_owner x) now) (eg_obligations s)\<rparr>)" by blast
    then show ?thesis
      using engine_ok_move[OF os_activate x(1) _ _ x(3), of "ob_owner x" OS_ACTIVE]
        stored_okD[OF engine_stored[OF os_activate] x(1)]
      by (simp add: CLOSURE_STATES_def obligation_ok_def)
  qed (use os_activate in auto)
next
  case (os_close s now i f reason who)
  from close_outcome[OF engine_stored[OF this], of now i f reason who] show ?case
    using engine_ok_close[OF os_close] os_close by auto
next
  case (os_transfer w s now i reason)
  from transfer_outcome[OF engine_stored[OF os_transfer(2)], of now i w reason] show ?case
  proof
    assume "\<exists>x t. obligation_at s i = Some x \<and> ob_state x \<notin> set CLOSURE_STATES \<and> time_ok now \<and>
       ow_owner_id (ob_owner x) \<noteq> ow_owner_id w \<and> ox_from_owner t = ob_owner x \<and> ox_to_owner t = w \<and>
       ox_obligation_id t = i \<and> (owner_ok w \<longrightarrow> transfer_ok t) \<and> transfer_obligation s now i w reason =
         (Inr t, s\<lparr>eg_transfers := dict_set (ox_transfer_id t) t (eg_transfers s),
                   eg_obligations := dict_set i (moved x (ob_state x) w now) (eg_obligations s)\<rparr>)"
    then obtain x t where x: "obligation_at s i = Some x" "ob_state x \<notin> set CLOSURE_STATES" "time_ok now" "transfer_ok t"
      and eq: "transfer_obligation s now i w reason =
         (Inr t, s\<lparr>eg_transfers := dict_set (ox_transfer_id t) t (eg_transfers s),
                   eg_obligations := dict_set i (moved x (ob_state x) w now) (eg_obligations s)\<rparr>)"
      using os_transfer(1) by blast
    have "ob_state x \<noteq> OS_TRANSFERRED" using stored_okD[OF engine_stored[OF os_transfer(2)] x(1)] by blast
    from engine_ok_move[OF engine_ok_transfer[OF os_transfer(2) x(4)] _ x(2) os_transfer(1) x(3) x(2) this] x(1) eq
    show ?thesis by simp
  qed (use os_transfer in auto)
next
  case (os_escalate w s now i reason sev)
  from escalate_outcome[OF engine_stored[OF os_escalate(2)], of now i w reason sev] show ?case
  proof
    assume "\<exists>x t. obligation_at s i = Some x \<and> ob_state x \<notin> set CLOSURE_STATES \<and> time_ok now \<and>
       oe_escalated_to t = w \<and> oe_obligation_id t = i \<and> (owner_ok w \<longrightarrow> escalation_ok t) \<and>
       escalate_obligation s now i w reason sev =
         (Inr t, s\<lparr>eg_escalations := dict_set (oe_escalation_id t) t (eg_escalations s),
                   eg_obligations := dict_set i (moved x OS_ESCALATED w now) (eg_obligations s)\<rparr>)"
    then obtain x t where x: "obligation_at s i = Some x" "ob_state x \<notin> set CLOSURE_STATES" "time_ok now" "escalation_ok t"
      and eq: "escalate_obligation s now i w reason sev =
         (Inr t, s\<lparr>eg_escalations := dict_set (oe_escalation_id t) t (eg_escalations s),
                   eg_obligations := dict_set i (moved x OS_ESCALATED w now) (eg_obligations s)\<rparr>)"
      using os_escalate(1) by blast
    from engine_ok_move[OF engine_ok_escalation[OF os_escalate(2) x(4)] _ x(2) os_escalate(1) x(3), of i OS_ESCALATED] x(1) eq
    show ?thesis by (simp add: CLOSURE_STATES_def)
  qed (use os_escalate in auto)
next
  case (os_event s now x t)
  with event_frame[of s now x t] show ?case
    by (auto simp: engine_ok_def stored_ok_def histories_ok_def closures_true_def closed_recorded_def)
qed

lemma obligation_run_ok: "obligation_run s s' \<Longrightarrow> engine_ok s \<Longrightarrow> engine_ok s'"
  by (induction rule: rtranclp_induct) (auto dest: obligation_step_ok)

section \<open>The engine and the machine\<close>

abbreviation allows :: "obligation_state \<Rightarrow> obligation_state \<Rightarrow> string \<Rightarrow> bool" where
  "allows s t action \<equiv>
     is_legal OBLIGATION_MACHINE (obligation_state_value s) (obligation_state_value t) action = V_ALLOWED"

lemma allows_activate: "allows s t ''activate'' \<longleftrightarrow> s = OS_PENDING \<and> t = OS_ACTIVE"
  by (cases s; cases t; simp add: is_legal_def OBLIGATION_MACHINE_def rule_of_def rule_matches_def)

lemma allows_close: "s \<noteq> OS_TRANSFERRED \<Longrightarrow>
    allows s t ''close'' \<longleftrightarrow> s \<notin> set CLOSURE_STATES \<and> t \<in> set CLOSURE_STATES"
  by (cases s; cases t; simp add: is_legal_def OBLIGATION_MACHINE_def rule_of_def rule_matches_def CLOSURE_STATES_def)

lemma allows_escalate: "s \<noteq> OS_TRANSFERRED \<Longrightarrow>
    allows s t ''escalate'' \<longleftrightarrow> s \<notin> set CLOSURE_STATES \<and> t = OS_ESCALATED"
  by (cases s; cases t; simp add: is_legal_def OBLIGATION_MACHINE_def rule_of_def rule_matches_def CLOSURE_STATES_def)

lemma allows_transfer: "s \<noteq> OS_TRANSFERRED \<Longrightarrow>
    allows s t ''transfer'' \<longleftrightarrow> s \<notin> set CLOSURE_STATES \<and> t = s"
  by (cases s; cases t; simp add: is_legal_def OBLIGATION_MACHINE_def rule_of_def rule_matches_def CLOSURE_STATES_def)

lemma terminal_iff: "obligation_state_value s \<in> set (sm_terminal OBLIGATION_MACHINE) \<longleftrightarrow> s \<in> set CLOSURE_STATES"
  by (cases s; simp add: OBLIGATION_MACHINE_def CLOSURE_STATES_def)

lemma activate_ok_iff:
  assumes "stored_ok s" "obligation_at s i = Some x" "time_ok now"
  shows "is_ok (fst (activate s now i)) \<longleftrightarrow> ob_state x = OS_PENDING"
proof -
  have x: "obligation_ok x" "\<not> blank i" using stored_okD[OF assms(1,2)] by simp_all
  have "moved_record x OS_ACTIVE (ob_owner x) now = Inr (moved x OS_ACTIVE (ob_owner x) now)"
    using moved_record_iff[OF x(1)] assms(3) by blast
  then show ?thesis
    using x(2) assms(2) by (simp add: activate_def obligation_transition_def ensure_non_empty_text_def)
qed

lemma close_ok_iff:
  assumes "stored_ok s" "obligation_at s i = Some x" "time_ok now" "\<not> blank reason" "\<not> blank who"
  shows "is_ok (fst (close_obligation s now i f reason who)) \<longleftrightarrow>
    ob_state x \<notin> set CLOSURE_STATES \<and> f \<in> set CLOSURE_STATES"
proof -
  have x: "obligation_ok x" "\<not> blank i" using stored_okD[OF assms(1,2)] by simp_all
  obtain cid where cid: "closure_id_of i f = Inr cid" "\<not> blank cid"
    using stable_ids(2) unfolding closure_id_of_def by blast
  have m: "moved_record x f (ob_owner x) now = Inr (moved x f (ob_owner x) now)"
    using moved_record_iff[OF x(1)] assms(3) by blast
  have "f \<in> set CLOSURE_STATES \<Longrightarrow> \<exists>c. ObligationClosure (PStr cid) (PStr i) f (PStr reason) (PStr who) (PStr now) = Inr c"
    using cid(2) x(2) assms(3,4,5) by (simp add: ObligationClosure_def py_bind_Inr_iff validators time_ok_def)
  then show ?thesis
    using x(2) assms(2) cid(1) m
    by (auto simp: close_obligation_def ensure_non_empty_text_def open_obligation_def)
qed

lemma transfer_ok_iff:
  assumes "stored_ok s" "obligation_at s i = Some x" "time_ok now" "\<not> blank reason"
    and "ow_owner_id (ob_owner x) \<noteq> ow_owner_id w"
  shows "is_ok (fst (transfer_obligation s now i w reason)) \<longleftrightarrow> ob_state x \<notin> set CLOSURE_STATES"
proof -
  have x: "obligation_ok x" "\<not> blank i" using stored_okD[OF assms(1,2)] by simp_all
  obtain k where k: "stable_identifier ''xfr'' [(''obligation_id'', JStr i), (''to'', JStr (ow_owner_id w))] = Inr k" "\<not> blank k"
    using stable_ids(3) by blast
  have m: "moved_record x (ob_state x) w now = Inr (moved x (ob_state x) w now)"
    using moved_record_iff[OF x(1)] assms(3) by blast
  have "\<exists>t. ObligationTransfer (PStr k) (PStr i) (ob_owner x) w (PStr reason) (PStr now) = Inr t"
    using k(2) x(2) assms(3,4,5) by (simp add: ObligationTransfer_def py_bind_Inr_iff validators time_ok_def)
  then show ?thesis
    using x(2) assms(2) k(1) m
    by (auto simp: transfer_obligation_def ensure_non_empty_text_def open_obligation_def)
qed

lemma escalate_ok_iff:
  assumes "stored_ok s" "obligation_at s i = Some x" "time_ok now" "\<not> blank reason" "\<not> blank sev"
  shows "is_ok (fst (escalate_obligation s now i w reason sev)) \<longleftrightarrow> ob_state x \<notin> set CLOSURE_STATES"
proof -
  have x: "obligation_ok x" "\<not> blank i" using stored_okD[OF assms(1,2)] by simp_all
  obtain k where k: "stable_identifier ''esc'' [(''obligation_id'', JStr i), (''to'', JStr (ow_owner_id w))] = Inr k" "\<not> blank k"
    using stable_ids(4) by blast
  have m: "moved_record x OS_ESCALATED w now = Inr (moved x OS_ESCALATED w now)"
    using moved_record_iff[OF x(1)] assms(3) by blast
  have "\<exists>t. ObligationEscalation (PStr k) (PStr i) w (PStr reason) (PStr sev) (PStr now) = Inr t"
    using k(2) x(2) assms(3,4,5) by (simp add: ObligationEscalation_def py_bind_Inr_iff validators time_ok_def)
  then show ?thesis
    using x(2) assms(2) k(1) m
    by (auto simp: escalate_obligation_def ensure_non_empty_text_def open_obligation_def)
qed

lemma run_stored: "obligation_run obligations_init s \<Longrightarrow> stored_ok s"
  using obligation_run_ok engine_ok_init engine_stored by blast

text \<open>
  C16: The engine implements the obligation machine.  For an obligation of any reachable engine, a
  good clock and non-blank texts, activating, closing, escalating and transferring succeed exactly
  when the machine allows the move from the obligation's state by that action.
\<close>

theorem engine_implements_machine:
  assumes "obligation_run obligations_init s" and "obligation_at s i = Some x"
    and "time_ok now" and "\<not> blank reason" and "\<not> blank who"
  shows "(is_ok (fst (activate s now i)) \<longleftrightarrow> allows (ob_state x) OS_ACTIVE ''activate'') \<and>
    (is_ok (fst (close_obligation s now i f reason who)) \<longleftrightarrow> allows (ob_state x) f ''close'') \<and>
    (is_ok (fst (escalate_obligation s now i w reason who)) \<longleftrightarrow> allows (ob_state x) OS_ESCALATED ''escalate'') \<and>
    (ow_owner_id (ob_owner x) \<noteq> ow_owner_id w \<longrightarrow>
       (is_ok (fst (transfer_obligation s now i w reason)) \<longleftrightarrow> allows (ob_state x) (ob_state x) ''transfer''))"
proof -
  note st = run_stored[OF assms(1)]
  have "ob_state x \<noteq> OS_TRANSFERRED" using stored_okD[OF st assms(2)] by blast
  note legal = allows_activate allows_close[OF this] allows_escalate[OF this] allows_transfer[OF this]
  show ?thesis
    unfolding activate_ok_iff[OF st assms(2,3)] close_ok_iff[OF st assms(2,3,4,5)]
      escalate_ok_iff[OF st assms(2,3,4,5)] legal
    using transfer_ok_iff[OF st assms(2,3,4)] by auto
qed

section \<open>The life of an obligation\<close>

text \<open>The fields no operation changes.\<close>

definition same_obligation :: "obligation_record \<Rightarrow> obligation_record \<Rightarrow> bool" where
  "same_obligation x y \<longleftrightarrow> ob_obligation_id y = ob_obligation_id x \<and> ob_trigger y = ob_trigger x \<and>
     ob_trigger_ref_id y = ob_trigger_ref_id x \<and> ob_deadline y = ob_deadline x \<and> ob_description y = ob_description x \<and>
     ob_correlation_id y = ob_correlation_id x \<and> ob_metadata y = ob_metadata x \<and> ob_created_at y = ob_created_at x"

abbreviation obligation_move :: "obligation_record \<Rightarrow> obligation_record \<Rightarrow> bool" where
  "obligation_move x y \<equiv>
     machine_move OBLIGATION_MACHINE (obligation_state_value (ob_state x)) (obligation_state_value (ob_state y))"

text \<open>An operation leaves the obligations alone, adds one, or makes a move the machine allows.\<close>

definition one_move :: "obligations \<Rightarrow> obligations \<Rightarrow> bool" where
  "one_move s s' \<longleftrightarrow> (\<exists>j y st w now act. obligation_at s j = Some y \<and> allows (ob_state y) st act \<and>
     eg_obligations s' = dict_set j (moved y st w now) (eg_obligations s))"

lemma create_keeps:
  "obligation_at s i = Some x \<Longrightarrow> obligation_at (snd (create_obligation s now oid tr ref w d desc corr md)) i = Some x"
  using create_outcome[of s now oid tr ref w d desc corr md] by auto

lemma activate_move:
  assumes "stored_ok s" shows "snd (activate s now j) = s \<or> one_move s (snd (activate s now j))"
  using activate_outcome[OF assms, of now j]
proof (elim disjE exE conjE)
  fix y assume y: "obligation_at s j = Some y" "ob_state y = OS_PENDING"
    and eq: "activate s now j = (Inr (moved y OS_ACTIVE (ob_owner y) now),
         s\<lparr>eg_obligations := dict_set j (moved y OS_ACTIVE (ob_owner y) now) (eg_obligations s)\<rparr>)"
  have "allows (ob_state y) OS_ACTIVE ''activate''" using allows_activate y(2) by blast
  moreover have "eg_obligations (snd (activate s now j)) = dict_set j (moved y OS_ACTIVE (ob_owner y) now) (eg_obligations s)"
    by (simp add: eq)
  ultimately show ?thesis using y(1) unfolding one_move_def by blast
qed simp

lemma close_move:
  assumes "stored_ok s"
  shows "snd (close_obligation s now j f reason who) = s \<or> one_move s (snd (close_obligation s now j f reason who))"
  using close_outcome[OF assms, of now j f reason who]
proof (elim disjE exE conjE)
  fix y c assume y: "obligation_at s j = Some y" "ob_state y \<notin> set CLOSURE_STATES" "f \<in> set CLOSURE_STATES"
    and eq: "close_obligation s now j f reason who =
         (Inr c, s\<lparr>eg_closures := dict_set (oc_closure_id c) c (eg_closures s),
                   eg_obligations := dict_set j (moved y f (ob_owner y) now) (eg_obligations s)\<rparr>)"
  have "allows (ob_state y) f ''close''" using allows_close stored_okD[OF assms y(1)] y(2,3) by blast
  moreover have "eg_obligations (snd (close_obligation s now j f reason who)) =
      dict_set j (moved y f (ob_owner y) now) (eg_obligations s)" by (simp add: eq)
  ultimately show ?thesis using y(1) unfolding one_move_def by blast
qed simp

lemma transfer_move:
  assumes "stored_ok s"
  shows "snd (transfer_obligation s now j w reason) = s \<or> one_move s (snd (transfer_obligation s now j w reason))"
  using transfer_outcome[OF assms, of now j w reason]
proof (elim disjE exE conjE)
  fix y t assume y: "obligation_at s j = Some y" "ob_state y \<notin> set CLOSURE_STATES"
    and eq: "transfer_obligation s now j w reason =
         (Inr t, s\<lparr>eg_transfers := dict_set (ox_transfer_id t) t (eg_transfers s),
                   eg_obligations := dict_set j (moved y (ob_state y) w now) (eg_obligations s)\<rparr>)"
  have "allows (ob_state y) (ob_state y) ''transfer''" using allows_transfer stored_okD[OF assms y(1)] y(2) by blast
  moreover have "eg_obligations (snd (transfer_obligation s now j w reason)) =
      dict_set j (moved y (ob_state y) w now) (eg_obligations s)" by (simp add: eq)
  ultimately show ?thesis using y(1) unfolding one_move_def by blast
qed simp

lemma escalate_move:
  assumes "stored_ok s"
  shows "snd (escalate_obligation s now j w reason sev) = s \<or> one_move s (snd (escalate_obligation s now j w reason sev))"
  using escalate_outcome[OF assms, of now j w reason sev]
proof (elim disjE exE conjE)
  fix y t assume y: "obligation_at s j = Some y" "ob_state y \<notin> set CLOSURE_STATES"
    and eq: "escalate_obligation s now j w reason sev =
         (Inr t, s\<lparr>eg_escalations := dict_set (oe_escalation_id t) t (eg_escalations s),
                   eg_obligations := dict_set j (moved y OS_ESCALATED w now) (eg_obligations s)\<rparr>)"
  have "allows (ob_state y) OS_ESCALATED ''escalate''" using allows_escalate stored_okD[OF assms y(1)] y(2) by blast
  moreover have "eg_obligations (snd (escalate_obligation s now j w reason sev)) =
      dict_set j (moved y OS_ESCALATED w now) (eg_obligations s)" by (simp add: eq)
  ultimately show ?thesis using y(1) unfolding one_move_def by blast
qed simp

lemma one_move_at:
  assumes "one_move s s'" "obligation_at s i = Some x"
  shows "\<exists>y. obligation_at s' i = Some y \<and> (y = x \<or> same_obligation x y \<and> obligation_move x y)"
proof -
  obtain j y st w now act where y: "obligation_at s j = Some y" "allows (ob_state y) st act"
    and eq: "eg_obligations s' = dict_set j (moved y st w now) (eg_obligations s)"
    using assms(1) unfolding one_move_def by blast
  have m: "obligation_move y (moved y st w now)" using y(2) unfolding machine_move_def by auto
  show ?thesis
  proof (cases "i = j")
    case True
    then have "x = y" using y(1) assms(2) by simp
    with m show ?thesis unfolding eq True by (simp add: same_obligation_def)
  qed (simp add: eq assms(2))
qed

lemma obligation_step_move:
  assumes "obligation_step s s'" "stored_ok s" "obligation_at s i = Some x"
  shows "\<exists>y. obligation_at s' i = Some y \<and> (y = x \<or> same_obligation x y \<and> obligation_move x y)"
  using assms(1)
proof cases
  case (os_event now y t)
  with event_frame[of s now y t] assms(3) show ?thesis by auto
next
  case (os_activate now j)
  then show ?thesis using activate_move[OF assms(2), of now j] one_move_at assms(3) by metis
next
  case (os_close now j f reason who)
  then show ?thesis using close_move[OF assms(2), of now j f reason who] one_move_at assms(3) by metis
next
  case (os_transfer w now j reason)
  then show ?thesis using transfer_move[OF assms(2), of now j w reason] one_move_at assms(3) by metis
next
  case (os_escalate w now j reason sev)
  then show ?thesis using escalate_move[OF assms(2), of now j w reason sev] one_move_at assms(3) by metis
qed (use create_keeps[OF assms(3)] in \<open>auto simp: create_from_event_def\<close>)

lemma obligation_run_path:
  assumes "obligation_run s s'" "engine_ok s" "obligation_at s i = Some x"
  shows "\<exists>y p. obligation_at s' i = Some y \<and> same_obligation x y \<and>
    legal_path (machine_move OBLIGATION_MACHINE) (obligation_state_value (ob_state x)) p \<and>
    last (obligation_state_value (ob_state x) # p) = obligation_state_value (ob_state y) \<and> (p = [] \<longrightarrow> y = x)"
  using assms(1)
proof (induction rule: rtranclp_induct)
  case base
  then show ?case using assms(3) by (intro exI[of _ x] exI[of _ "[]"]) (simp add: same_obligation_def)
next
  case (step t u)
  let ?v = "\<lambda>x. obligation_state_value (ob_state x)"
  obtain y p where y: "obligation_at t i = Some y" "same_obligation x y"
    "legal_path (machine_move OBLIGATION_MACHINE) (?v x) p" "last (?v x # p) = ?v y" "p = [] \<longrightarrow> y = x"
    using step.IH by blast
  have "stored_ok t" using obligation_run_ok[OF step.hyps(1) assms(2)] engine_stored by blast
  from obligation_step_move[OF step.hyps(2) this y(1)]
  obtain z where z: "obligation_at u i = Some z" "z = y \<or> same_obligation y z \<and> obligation_move y z" by blast
  show ?case
  proof (cases "z = y")
    case True
    then show ?thesis using y z(1) by blast
  next
    case False
    then have "same_obligation x z" "obligation_move y z" using z(2) y(2) by (auto simp: same_obligation_def)
    moreover have "legal_path (machine_move OBLIGATION_MACHINE) (?v x) (p @ [?v z])"
      using y(3,4) \<open>obligation_move y z\<close> by (simp only: legal_path_append) simp
    ultimately show ?thesis using z(1) by (intro exI[of _ z] exI[of _ "p @ [?v z]"]) simp
  qed
qed

text \<open>
  C17: In the operations that clients call (\<open>restore\<close> of a snapshot is not among them) no obligation is ever
  lost, and what it is about never changes.  Whatever operations follow, its state goes along a path of the obligation machine, and once it is completed, expired or
  cancelled the record is never changed again.
\<close>

theorem obligation_life:
  assumes "obligation_run obligations_init s" and "obligation_run s s'" and "obligation_at s i = Some x"
  shows "\<exists>y. obligation_at s' i = Some y \<and> same_obligation x y \<and>
    (\<exists>p. legal_path (machine_move OBLIGATION_MACHINE) (obligation_state_value (ob_state x)) p \<and>
       last (obligation_state_value (ob_state x) # p) = obligation_state_value (ob_state y)) \<and>
    (ob_state x \<in> set CLOSURE_STATES \<longrightarrow> y = x)"
proof -
  have "engine_ok s" using obligation_run_ok[OF assms(1)] engine_ok_init by blast
  from obligation_run_path[OF assms(2) this assms(3)] obtain y p where
    y: "obligation_at s' i = Some y" "same_obligation x y"
      "legal_path (machine_move OBLIGATION_MACHINE) (obligation_state_value (ob_state x)) p"
      "last (obligation_state_value (ob_state x) # p) = obligation_state_value (ob_state y)" "p = [] \<longrightarrow> y = x" by blast
  moreover have "ob_state x \<in> set CLOSURE_STATES \<Longrightarrow> p = []"
    using obligation_lifecycle.terminal_path y(3) terminal_iff by blast
  ultimately show ?thesis by blast
qed

section \<open>Closures\<close>

lemma closure_id_cases:
  assumes "closure_id_of i f = closure_id_of j g"
  shows "(i, f) = (j, g) \<or> (\<exists>p q. dumps_compact (JObj p) \<noteq> dumps_compact (JObj q) \<and>
    take 12 (sha256_hex (dumps_compact (JObj p))) = take 12 (sha256_hex (dumps_compact (JObj q))))"
proof (cases "(i, f) = (j, g)")
  case False
  let ?p = "\<lambda>i f. [(''obligation_id'', JStr i), (''final_state'', JStr (obligation_state_value f))]"
  have "json_canon (JObj (?p i f)) \<noteq> json_canon (JObj (?p j g))" using False by auto
  then have "dumps_compact (JObj (?p i f)) \<noteq> dumps_compact (JObj (?p j g))" using dumps_compact_inj by blast
  moreover have "\<not> blank ''cls''" by code_simp
  then have "take 12 (sha256_hex (dumps_compact (JObj (?p i f)))) = take 12 (sha256_hex (dumps_compact (JObj (?p j g))))"
    using assms by (simp add: closure_id_of_def stable_identifier_def ensure_non_empty_text_def del: json_dumps.simps)
  ultimately show ?thesis by blast
qed simp

text \<open>
  Closures are explicit.  A recorded closure tells the truth: its obligation is stored, in the
  final state the closure names.  And every closed obligation has its closure on record, unless the
  truncated hash that names closures collides on two different closures, a pair that is then exhibited.
\<close>

theorem closures_explicit:
  assumes "obligation_run obligations_init s"
  shows "(\<forall>c \<in> set (dict_values (eg_closures s)).
       \<exists>x. obligation_at s (oc_obligation_id c) = Some x \<and> ob_state x = oc_final_state c) \<and>
    (\<forall>i x. obligation_at s i = Some x \<and> ob_state x \<in> set CLOSURE_STATES \<longrightarrow>
       (\<exists>c \<in> set (dict_values (eg_closures s)). oc_obligation_id c = i \<and> oc_final_state c = ob_state x) \<or>
       (\<exists>p q. dumps_compact (JObj p) \<noteq> dumps_compact (JObj q) \<and>
          take 12 (sha256_hex (dumps_compact (JObj p))) = take 12 (sha256_hex (dumps_compact (JObj q)))))"
proof -
  have ok: "engine_ok s" using obligation_run_ok[OF assms] engine_ok_init by blast
  then have f: "filed oc_closure_id closure_named (eg_closures s)" by (simp add: engine_ok_def histories_ok_def)
  have mem: "c \<in> set (dict_values (eg_closures s)) \<longleftrightarrow> dict_get (eg_closures s) (oc_closure_id c) = Some c" for c
    by (rule filed_values[OF f])
  have "\<exists>x. obligation_at s (oc_obligation_id c) = Some x \<and> ob_state x = oc_final_state c"
    if "c \<in> set (dict_values (eg_closures s))" for c
    using that ok unfolding mem engine_ok_def closures_true_def by blast
  moreover have "(\<exists>c \<in> set (dict_values (eg_closures s)). oc_obligation_id c = i \<and> oc_final_state c = ob_state x) \<or>
       (\<exists>p q. dumps_compact (JObj p) \<noteq> dumps_compact (JObj q) \<and>
          take 12 (sha256_hex (dumps_compact (JObj p))) = take 12 (sha256_hex (dumps_compact (JObj q))))"
    if x: "obligation_at s i = Some x" "ob_state x \<in> set CLOSURE_STATES" for i x
  proof -
    obtain k c where k: "closure_id_of i (ob_state x) = Inr k" "dict_get (eg_closures s) k = Some c"
      using ok x unfolding engine_ok_def closed_recorded_def by blast
    then have c: "oc_closure_id c = k" "closure_id_of (oc_obligation_id c) (oc_final_state c) = Inr k"
      using f by (auto simp: filed_def)
    have "c \<in> set (dict_values (eg_closures s))" using mem[of c] c(1) k(2) by simp
    with closure_id_cases[of "oc_obligation_id c" "oc_final_state c" i "ob_state x"] k(1) c(2) show ?thesis by auto
  qed
  ultimately show ?thesis by blast
qed

section \<open>Snapshots\<close>

text \<open>Obligations without members of enumerations among their free values.\<close>

definition json_plain :: "obligation_record \<Rightarrow> bool" where
  "json_plain x \<longleftrightarrow> json_dict (ob_metadata x) = ob_metadata x \<and>
     thaw_value_json (dl_hard (ob_deadline x)) = dl_hard (ob_deadline x)"

lemma json_owner [simp]: "json_dict (owner_to_dict w) = owner_to_dict w"
  by (simp add: owner_to_dict_def)

lemma json_deadline [simp]:
  "json_dict (deadline_to_dict d) = (deadline_to_dict d) [3 := (''hard'', thaw_value_json (dl_hard d))]"
  by (cases "dl_warn_at d") (simp_all add: deadline_to_dict_def optional_text_def)

interpretation obligation_json: contract_dict "copied obligation_of_dict"
  "\<lambda>x. json_dict (obligation_to_dict x)" "\<lambda>x. obligation_ok x \<and> json_plain x"
proof
  show "copied obligation_of_dict (PDict (json_dict (obligation_to_dict x))) = Inr x"
    if "obligation_ok x \<and> json_plain x" for x
  proof -
    have p: "json_dict (ob_metadata x) = ob_metadata x" "json_dict (deadline_to_dict (ob_deadline x)) = deadline_to_dict (ob_deadline x)"
      using that by (simp_all add: json_plain_def) (simp add: deadline_to_dict_def)
    have "owner_item (json_dict (obligation_to_dict x)) ''owner'' = Inr (ob_owner x)"
      using that by (intro owner_item_dict) (auto simp: obligation_to_dict_def obligation_ok_def)
    then show ?thesis using that p
      by (simp add: obligation_of_dict_def obligation_to_dict_def call_keys_def ObligationRecord_def py_bind_Inr_iff
          validators obligation_ok_def time_ok_def kwargs_def dict_call_def del: json_deadline)
  qed
qed

interpretation closure_json: contract_dict "copied closure_of_dict" "\<lambda>x. json_dict (closure_to_dict x)" closure_ok
  by unfold_locales
     (simp add: closure_of_dict_def closure_to_dict_def call_keys_def ObligationClosure_def py_bind_Inr_iff validators
        closure_ok_def time_ok_def)

lemma json_transfer: "json_dict (transfer_to_dict x) = transfer_to_dict x"
  by (simp add: transfer_to_dict_def)

lemma json_escalation: "json_dict (escalation_to_dict x) = escalation_to_dict x"
  by (simp add: escalation_to_dict_def)

lemma restored_from:
  assumes "rebuild_section (copied obligation_of_dict) d ''obligations'' = Inr (eg_obligations s)"
    and "rebuild_section (copied closure_of_dict) d ''closures'' = Inr (eg_closures s)"
    and "rebuild_section (copied transfer_of_dict) d ''transfers'' = Inr (eg_transfers s)"
    and "rebuild_section (copied escalation_of_dict) d ''escalations'' = Inr (eg_escalations s)"
    and "dict_get d ''event_seq'' = Some (eg_event_seq s)"
  shows "obligations_restore t d = (Inr (), s)"
  using assms by (cases s) (simp add: obligations_restore_def obligations_of_snapshot_def)

lemma obligations_of_own_snapshot:
  assumes "engine_ok s"
  shows "obligations_restore t (obligations_snapshot s) = (Inr (), s)"
proof (rule restored_from)
  have f: "filed ob_obligation_id (\<lambda>x. obligation_ok x \<and> ob_state x \<noteq> OS_TRANSFERRED) (eg_obligations s)"
    "filed oc_closure_id closure_named (eg_closures s)" "filed ox_transfer_id transfer_ok (eg_transfers s)"
    "filed oe_escalation_id escalation_ok (eg_escalations s)"
    using assms by (simp_all add: engine_ok_def stored_ok_def histories_ok_def)
  note wf = f[THEN filed_wf]
  have all: "\<forall>x \<in> set (dict_values (eg_obligations s)). obligation_ok x"
    "\<forall>x \<in> set (dict_values (eg_closures s)). closure_ok x"
    using filed_all[OF f(1)] filed_all[OF f(2)] by blast+
  note all = all filed_all[OF f(3)] filed_all[OF f(4)]
  let ?d = "obligations_snapshot s"
  show "rebuild_section (copied obligation_of_dict) ?d ''obligations'' = Inr (eg_obligations s)"
    by (rule obligation_dicts.rebuild_snapshot[OF wf(1) all(1)]) (simp add: obligations_snapshot_def)
  show "rebuild_section (copied closure_of_dict) ?d ''closures'' = Inr (eg_closures s)"
    by (rule closure_dicts.rebuild_snapshot[OF wf(2) all(2)]) (simp add: obligations_snapshot_def)
  show "rebuild_section (copied transfer_of_dict) ?d ''transfers'' = Inr (eg_transfers s)"
    by (rule transfer_dicts.rebuild_snapshot[OF wf(3) all(3)]) (simp add: obligations_snapshot_def)
  show "rebuild_section (copied escalation_of_dict) ?d ''escalations'' = Inr (eg_escalations s)"
    by (rule escalation_dicts.rebuild_snapshot[OF wf(4) all(4)]) (simp add: obligations_snapshot_def)
  show "dict_get ?d ''event_seq'' = Some (eg_event_seq s)" by (simp add: obligations_snapshot_def)
qed

text \<open>
  A snapshot of an engine restores it exactly, whatever the state of the restoring engine was,
  and so does a snapshot that went through a JSON text, as long as the metadata and the deadlines
  hold no members of enumerations.
\<close>

theorem obligations_snapshot_roundtrip:
  assumes "obligation_run obligations_init s"
  shows "obligations_restore t (obligations_snapshot s) = (Inr (), s) \<and>
    (list_all json_plain (dict_values (eg_obligations s)) \<longrightarrow>
       obligations_restore t (json_dict (obligations_snapshot s)) = (Inr (), s))"
proof -
  have ok: "engine_ok s" using obligation_run_ok[OF assms] engine_ok_init by blast
  have f: "filed ob_obligation_id (\<lambda>x. obligation_ok x \<and> ob_state x \<noteq> OS_TRANSFERRED) (eg_obligations s)"
    "filed oc_closure_id closure_named (eg_closures s)" "filed ox_transfer_id transfer_ok (eg_transfers s)"
    "filed oe_escalation_id escalation_ok (eg_escalations s)" and n: "\<exists>n. eg_event_seq s = PInt n"
    using ok by (simp_all add: engine_ok_def stored_ok_def histories_ok_def)
  note wf = f[THEN filed_wf]
  have all: "\<forall>x \<in> set (dict_values (eg_obligations s)). obligation_ok x"
    "\<forall>x \<in> set (dict_values (eg_closures s)). closure_ok x"
    using filed_all[OF f(1)] filed_all[OF f(2)] by blast+
  note all = all filed_all[OF f(3)] filed_all[OF f(4)]
  have "obligations_restore t (obligations_snapshot s) = (Inr (), s)" using ok by (rule obligations_of_own_snapshot)
  moreover have "obligations_restore t (json_dict (obligations_snapshot s)) = (Inr (), s)"
    if "list_all json_plain (dict_values (eg_obligations s))"
  proof -
    have plain: "\<forall>x \<in> set (dict_values (eg_obligations s)). obligation_ok x \<and> json_plain x"
      using that all(1) by (simp only: list_all_iff) blast
    let ?d = "json_dict (obligations_snapshot s)"
    have "rebuild_section (copied obligation_of_dict) ?d ''obligations'' = Inr (eg_obligations s)"
      by (rule obligation_json.rebuild_snapshot[OF wf(1) plain]) (simp add: obligations_snapshot_def json_snapshot_of)
    moreover have "rebuild_section (copied closure_of_dict) ?d ''closures'' = Inr (eg_closures s)"
      by (rule closure_json.rebuild_snapshot[OF wf(2) all(2)]) (simp add: obligations_snapshot_def json_snapshot_of)
    moreover have "rebuild_section (copied transfer_of_dict) ?d ''transfers'' = Inr (eg_transfers s)"
      by (rule transfer_dicts.rebuild_snapshot[OF wf(3) all(3)])
         (simp add: obligations_snapshot_def json_snapshot_of json_transfer)
    moreover have "rebuild_section (copied escalation_of_dict) ?d ''escalations'' = Inr (eg_escalations s)"
      by (rule escalation_dicts.rebuild_snapshot[OF wf(4) all(4)])
         (simp add: obligations_snapshot_def json_snapshot_of json_escalation)
    moreover have "dict_get ?d ''event_seq'' = Some (eg_event_seq s)" using n by (auto simp: obligations_snapshot_def)
    ultimately show ?thesis by (rule restored_from)
  qed
  ultimately show ?thesis by blast
qed

section \<open>What is lost\<close>

text \<open>
  Transfers of an obligation are filed under the obligation and the new owner, so that the second
  transfer to an owner overwrites the first: the histories do not keep every transfer.
\<close>

theorem second_transfer_overwrites:
  assumes "fst (transfer_obligation s now i w reason) = Inr t"
    and "transfer_obligation s' now' i w reason' = (Inr t', s'')"
  shows "dict_get (eg_transfers s'') (ox_transfer_id t) = Some t' \<and> ox_transfer_id t' = ox_transfer_id t"
proof -
  have name: "stable_identifier ''xfr'' [(''obligation_id'', JStr i), (''to'', JStr (ow_owner_id w))] = Inr (ox_transfer_id u)"
    if "fst (transfer_obligation r n i w c) = Inr u" for r n c u
    using that
    by (auto simp: transfer_obligation_def ObligationTransfer_def py_bind_Inr_iff validators split: sum.splits if_splits)
  have "ox_transfer_id t' = ox_transfer_id t" using name[OF assms(1)] name[of s' now' reason' t'] assms(2) by simp
  moreover have "dict_get (eg_transfers s'') (ox_transfer_id t') = Some t'"
    using assms(2) by (auto simp: transfer_obligation_def split: sum.splits)
  ultimately show ?thesis by simp
qed

text \<open>The hash of the state does not cover the owners of the obligations.\<close>

theorem hash_ignores_owner:
  "obligations_hash (s\<lparr>eg_obligations := map (map_prod id (\<lambda>x. x\<lparr>ob_owner := w\<rparr>)) (eg_obligations s)\<rparr>) =
   obligations_hash s"
  by (simp add: obligations_hash_def split_def comp_def del: json_dumps.simps)

section \<open>Witnesses\<close>

definition demo_owner :: "string \<Rightarrow> obligation_owner" where
  "demo_owner i = \<lparr>ow_owner_id = i, ow_owner_type = ''team'', ow_display_name = ''Ops''\<rparr>"

definition demo_deadline :: obligation_deadline where
  "demo_deadline = \<lparr>dl_deadline_id = ''d1'', dl_due_at = ''2024-02-01T00:00:00+00:00'', dl_warn_at = None,
     dl_hard = PBool True\<rparr>"

definition demo_engine :: obligations where
  "demo_engine = snd (create_obligation obligations_init ''2024-01-02T03:04:05+00:00'' (Some ''o1'') OT_CUSTOM ''ref''
     (demo_owner ''a'') demo_deadline ''review'' ''c1'' None)"

definition demo_obligation :: obligation_record where
  "demo_obligation = \<lparr>ob_obligation_id = ''o1'', ob_trigger = OT_CUSTOM, ob_trigger_ref_id = ''ref'', ob_state = OS_PENDING,
     ob_owner = demo_owner ''a'', ob_deadline = demo_deadline, ob_description = ''review'', ob_correlation_id = ''c1'',
     ob_metadata = [], ob_created_at = ''2024-01-02T03:04:05+00:00'', ob_updated_at = ''2024-01-02T03:04:05+00:00''\<rparr>"

definition demo_closed :: obligations where
  "demo_closed = snd (close_obligation demo_engine ''2024-01-02T03:04:05+00:00'' ''o1'' OS_COMPLETED ''done'' ''ops'')"

lemma demo_facts:
  "owner_ok (demo_owner ''a'')" "deadline_ok demo_deadline" "time_ok ''2024-01-02T03:04:05+00:00''"
  "\<not> blank ''done''" "\<not> blank ''ops''" "obligation_at demo_engine ''o1'' = Some demo_obligation"
  by code_simp+

lemma demo_engine_run: "obligation_run obligations_init demo_engine"
  unfolding demo_engine_def by (rule r_into_rtranclp, rule os_create, rule demo_facts(1), rule demo_facts(2))

lemma demo_close_step: "obligation_run demo_engine demo_closed"
  unfolding demo_closed_def by (rule r_into_rtranclp, rule os_close)

theorem engine_implements_machine_witness:
  "is_ok (fst (activate demo_engine ''2024-01-02T03:04:05+00:00'' ''o1''))"
proof -
  have "ob_state demo_obligation = OS_PENDING" by (simp add: demo_obligation_def)
  then show ?thesis
    using engine_implements_machine[OF demo_engine_run demo_facts(6,3,4,5)] allows_activate by blast
qed

theorem obligation_life_witness:
  "\<exists>y. obligation_at demo_closed ''o1'' = Some y \<and> same_obligation demo_obligation y"
  using obligation_life[OF demo_engine_run demo_close_step demo_facts(6)] by blast

theorem closures_explicit_witness:
  "(\<exists>c. c \<in> set (dict_values (eg_closures demo_closed)) \<and> oc_obligation_id c = ''o1'' \<and> oc_final_state c = OS_COMPLETED) \<or>
   (\<exists>p q. dumps_compact (JObj p) \<noteq> dumps_compact (JObj q) \<and>
      take 12 (sha256_hex (dumps_compact (JObj p))) = take 12 (sha256_hex (dumps_compact (JObj q))))"
proof -
  have st: "stored_ok demo_engine" by (rule run_stored[OF demo_engine_run])
  have "is_ok (fst (close_obligation demo_engine ''2024-01-02T03:04:05+00:00'' ''o1'' OS_COMPLETED ''done'' ''ops''))"
    using close_ok_iff[OF st demo_facts(6,3,4,5)] by (simp add: demo_obligation_def CLOSURE_STATES_def)
  then obtain x where x: "obligation_at demo_closed ''o1'' = Some x" "ob_state x = OS_COMPLETED"
    using close_outcome[OF st, of "''2024-01-02T03:04:05+00:00''" "''o1''" OS_COMPLETED "''done''" "''ops''"]
    by (auto simp: demo_closed_def)
  have "obligation_run obligations_init demo_closed" using demo_engine_run demo_close_step by (rule rtranclp_trans)
  from closures_explicit[OF this] x have
    "(\<exists>c \<in> set (dict_values (eg_closures demo_closed)). oc_obligation_id c = ''o1'' \<and> oc_final_state c = OS_COMPLETED) \<or>
     (\<exists>p q. dumps_compact (JObj p) \<noteq> dumps_compact (JObj q) \<and>
        take 12 (sha256_hex (dumps_compact (JObj p))) = take 12 (sha256_hex (dumps_compact (JObj q))))"
    by (metis CLOSURE_STATES_def list.set_intros(1))
  then show ?thesis by blast
qed

theorem obligations_snapshot_roundtrip_witness:
  "obligations_restore obligations_init (json_dict (obligations_snapshot demo_engine)) = (Inr (), demo_engine)"
proof -
  have "list_all json_plain (dict_values (eg_obligations demo_engine))" by code_simp
  with obligations_snapshot_roundtrip[OF demo_engine_run] show ?thesis by blast
qed

end
