(* ===== verification/Supervisor.thy ===== *)
theory Supervisor
  imports Obligation_Runtime
begin

text \<open>
  \<open>mcoi_runtime/contracts/supervisor.py\<close> and \<open>mcoi_runtime/core/supervisor_engine.py\<close>: the
  supervisor that advances one tick at a time over an event spine and an obligation engine, asking a
  governance gate before every action.

  A clock is a function of the number of readings so far, which the supervisor counts.  The gate
  is a function of a world of its own: it gives an answer or raises, and may change its world.  They
  are parameters of the operations.  The health assessment, which only reads, is left out.
\<close>

section \<open>Enumerations\<close>

datatype supervisor_phase =
    SP_IDLE | SP_POLLING | SP_EVALUATING_OBLIGATIONS | SP_EVALUATING_DEADLINES | SP_WAKING_WORK
  | SP_RUNNING_REACTIONS | SP_REASONING | SP_ACTING | SP_CHECKPOINTING | SP_EMITTING_HEARTBEAT
  | SP_PAUSED | SP_DEGRADED | SP_HALTED

primrec phase_value :: "supervisor_phase \<Rightarrow> string" where
  "phase_value SP_IDLE = ''idle''"
| "phase_value SP_POLLING = ''polling''"
| "phase_value SP_EVALUATING_OBLIGATIONS = ''evaluating_obligations''"
| "phase_value SP_EVALUATING_DEADLINES = ''evaluating_deadlines''"
| "phase_value SP_WAKING_WORK = ''waking_work''"
| "phase_value SP_RUNNING_REACTIONS = ''running_reactions''"
| "phase_value SP_REASONING = ''reasoning''"
| "phase_value SP_ACTING = ''acting''"
| "phase_value SP_CHECKPOINTING = ''checkpointing''"
| "phase_value SP_EMITTING_HEARTBEAT = ''emitting_heartbeat''"
| "phase_value SP_PAUSED = ''paused''"
| "phase_value SP_DEGRADED = ''degraded''"
| "phase_value SP_HALTED = ''halted''"

definition SUPERVISOR_PHASES :: "supervisor_phase list" where
  "SUPERVISOR_PHASES = [SP_IDLE, SP_POLLING, SP_EVALUATING_OBLIGATIONS, SP_EVALUATING_DEADLINES,
     SP_WAKING_WORK, SP_RUNNING_REACTIONS, SP_REASONING, SP_ACTING, SP_CHECKPOINTING,
     SP_EMITTING_HEARTBEAT, SP_PAUSED, SP_DEGRADED, SP_HALTED]"

datatype tick_outcome =
    TO_HEALTHY | TO_WORK_DONE | TO_IDLE_TICK | TO_BACKPRESSURE_APPLIED | TO_LIVELOCK_DETECTED
  | TO_GOVERNANCE_BLOCKED | TO_ERROR | TO_HALTED

primrec outcome_value :: "tick_outcome \<Rightarrow> string" where
  "outcome_value TO_HEALTHY = ''healthy''"
| "outcome_value TO_WORK_DONE = ''work_done''"
| "outcome_value TO_IDLE_TICK = ''idle_tick''"
| "outcome_value TO_BACKPRESSURE_APPLIED = ''backpressure_applied''"
| "outcome_value TO_LIVELOCK_DETECTED = ''livelock_detected''"
| "outcome_value TO_GOVERNANCE_BLOCKED = ''governance_blocked''"
| "outcome_value TO_ERROR = ''error''"
| "outcome_value TO_HALTED = ''halted''"

definition TICK_OUTCOMES :: "tick_outcome list" where
  "TICK_OUTCOMES = [TO_HEALTHY, TO_WORK_DONE, TO_IDLE_TICK, TO_BACKPRESSURE_APPLIED, TO_LIVELOCK_DETECTED,
     TO_GOVERNANCE_BLOCKED, TO_ERROR, TO_HALTED]"

datatype livelock_strategy =
    LS_ESCALATE | LS_PAUSE | LS_HALT | LS_SKIP_AND_LOG

primrec strategy_value :: "livelock_strategy \<Rightarrow> string" where
  "strategy_value LS_ESCALATE = ''escalate''"
| "strategy_value LS_PAUSE = ''pause''"
| "strategy_value LS_HALT = ''halt''"
| "strategy_value LS_SKIP_AND_LOG = ''skip_and_log''"

definition LIVELOCK_STRATEGIES :: "livelock_strategy list" where
  "LIVELOCK_STRATEGIES = [LS_ESCALATE, LS_PAUSE, LS_HALT, LS_SKIP_AND_LOG]"

datatype checkpoint_status =
    CS_VALID | CS_STALE | CS_CORRUPTED

primrec checkpoint_status_value :: "checkpoint_status \<Rightarrow> string" where
  "checkpoint_status_value CS_VALID = ''valid''"
| "checkpoint_status_value CS_STALE = ''stale''"
| "checkpoint_status_value CS_CORRUPTED = ''corrupted''"

definition CHECKPOINT_STATUSES :: "checkpoint_status list" where
  "CHECKPOINT_STATUSES = [CS_VALID, CS_STALE, CS_CORRUPTED]"

section \<open>Records\<close>

record supervisor_policy =
  po_policy_id :: string
  po_tick_interval_ms :: int
  po_max_events :: int
  po_max_actions :: int
  po_backpressure :: int
  po_livelock_threshold :: int
  po_livelock_strategy :: livelock_strategy
  po_heartbeat_every :: int
  po_checkpoint_every :: int
  po_max_errors :: int
  po_created_at :: string

text \<open>\<open>SupervisorPolicy.__post_init__\<close>.\<close>

definition check_policy :: "supervisor_policy \<Rightarrow> supervisor_policy py" where
  "check_policy p =
     py_bind (require_non_empty_text (po_policy_id p) ''policy_id'') (\<lambda>_.
     py_bind (require_positive_int (po_tick_interval_ms p) ''tick_interval_ms'') (\<lambda>_.
     py_bind (require_positive_int (po_max_events p) ''max_events_per_tick'') (\<lambda>_.
     py_bind (require_positive_int (po_max_actions p) ''max_actions_per_tick'') (\<lambda>_.
     py_bind (require_positive_int (po_backpressure p) ''backpressure_threshold'') (\<lambda>_.
     py_bind (require_positive_int (po_livelock_threshold p) ''livelock_repeat_threshold'') (\<lambda>_.
     py_bind (require_positive_int (po_heartbeat_every p) ''heartbeat_every_n_ticks'') (\<lambda>_.
     py_bind (require_positive_int (po_checkpoint_every p) ''checkpoint_every_n_ticks'') (\<lambda>_.
     py_bind (require_positive_int (po_max_errors p) ''max_consecutive_errors'') (\<lambda>_.
     py_bind (require_datetime_text (po_created_at p) ''created_at'') (\<lambda>_. Inr p))))))))))"

record supervisor_decision =
  de_decision_id :: string
  de_action_type :: string
  de_target_id :: string
  de_reason :: string
  de_approved :: bool
  de_decided_at :: string

definition SupervisorDecision ::
  "string \<Rightarrow> string \<Rightarrow> string \<Rightarrow> string \<Rightarrow> bool \<Rightarrow> string \<Rightarrow> supervisor_decision py" where
  "SupervisorDecision decision_id action_type target_id reason governance_approved decided_at =
     py_bind (require_non_empty_text decision_id ''decision_id'') (\<lambda>i.
     py_bind (require_non_empty_text action_type ''action_type'') (\<lambda>a.
     py_bind (require_non_empty_text target_id ''target_id'') (\<lambda>t.
     py_bind (require_non_empty_text reason ''reason'') (\<lambda>r.
     py_bind (require_datetime_text decided_at ''decided_at'') (\<lambda>d.
       Inr \<lparr>de_decision_id = i, de_action_type = a, de_target_id = t, de_reason = r,
            de_approved = governance_approved, de_decided_at = d\<rparr>)))))"

record supervisor_tick =
  ti_tick_id :: string
  ti_tick_number :: int
  ti_phases :: "supervisor_phase list"
  ti_events_polled :: int
  ti_obligations_evaluated :: int
  ti_deadlines_checked :: int
  ti_reactions_fired :: int
  ti_decisions :: "supervisor_decision list"
  ti_outcome :: tick_outcome
  ti_errors :: "string list"
  ti_started_at :: string
  ti_completed_at :: string

text \<open>\<open>SupervisorTick.__post_init__\<close>.\<close>

definition check_tick :: "supervisor_tick \<Rightarrow> supervisor_tick py" where
  "check_tick t =
     py_bind (require_non_empty_text (ti_tick_id t) ''tick_id'') (\<lambda>_.
     py_bind (require_non_negative_int (ti_tick_number t) ''tick_number'') (\<lambda>_.
     py_bind (require_non_negative_int (ti_events_polled t) ''events_polled'') (\<lambda>_.
     py_bind (require_non_negative_int (ti_obligations_evaluated t) ''obligations_evaluated'') (\<lambda>_.
     py_bind (require_non_negative_int (ti_deadlines_checked t) ''deadlines_checked'') (\<lambda>_.
     py_bind (require_non_negative_int (ti_reactions_fired t) ''reactions_fired'') (\<lambda>_.
     py_bind (require_datetime_text (ti_started_at t) ''started_at'') (\<lambda>_.
     py_bind (require_datetime_text (ti_completed_at t) ''completed_at'') (\<lambda>_. Inr t))))))))"

record runtime_heartbeat =
  hb_heartbeat_id :: string
  hb_tick_number :: int
  hb_phase :: supervisor_phase
  hb_outcome :: tick_outcome
  hb_open_obligations :: int
  hb_pending_events :: int
  hb_emitted_at :: string

text \<open>\<open>RuntimeHeartbeat.__post_init__\<close>; the tick number is the number of ticks up, too.\<close>

definition check_heartbeat :: "runtime_heartbeat \<Rightarrow> runtime_heartbeat py" where
  "check_heartbeat h =
     py_bind (require_non_empty_text (hb_heartbeat_id h) ''heartbeat_id'') (\<lambda>_.
     py_bind (require_non_negative_int (hb_tick_number h) ''tick_number'') (\<lambda>_.
     py_bind (require_non_negative_int (hb_open_obligations h) ''open_obligations'') (\<lambda>_.
     py_bind (require_non_negative_int (hb_pending_events h) ''pending_events'') (\<lambda>_.
     py_bind (require_datetime_text (hb_emitted_at h) ''emitted_at'') (\<lambda>_. Inr h)))))"

record supervisor_checkpoint =
  cp_checkpoint_id :: string
  cp_tick_number :: int
  cp_phase :: supervisor_phase
  cp_status :: checkpoint_status
  cp_open_obligation_ids :: "string list"
  cp_pending_event_count :: int
  cp_consecutive_errors :: int
  cp_consecutive_idle_ticks :: int
  cp_recent_outcomes :: "tick_outcome list"
  cp_state_hash :: string
  cp_created_at :: string

text \<open>\<open>SupervisorCheckpoint.__post_init__\<close>.\<close>

definition check_checkpoint :: "supervisor_checkpoint \<Rightarrow> supervisor_checkpoint py" where
  "check_checkpoint c =
     py_bind (require_non_empty_text (cp_checkpoint_id c) ''checkpoint_id'') (\<lambda>_.
     py_bind (require_non_negative_int (cp_tick_number c) ''tick_number'') (\<lambda>_.
     if list_ex blank (cp_open_obligation_ids c)
     then Inl (field_error ''open_obligation_id'' '' must be a non-empty string'')
     else py_bind (require_non_negative_int (cp_pending_event_count c) ''pending_event_count'') (\<lambda>_.
     py_bind (require_non_negative_int (cp_consecutive_errors c) ''consecutive_errors'') (\<lambda>_.
     py_bind (require_non_negative_int (cp_consecutive_idle_ticks c) ''consecutive_idle_ticks'') (\<lambda>_.
     py_bind (require_non_empty_text (cp_state_hash c) ''state_hash'') (\<lambda>_.
     py_bind (require_datetime_text (cp_created_at c) ''created_at'') (\<lambda>_. Inr c)))))))"

record livelock_record =
  ll_livelock_id :: string
  ll_tick_number :: int
  ll_repeated_pattern :: string
  ll_repeat_count :: int
  ll_strategy :: livelock_strategy
  ll_resolved :: bool
  ll_detected_at :: string
  ll_resolution_detail :: string

text \<open>\<open>LivelockRecord.__post_init__\<close>.\<close>

definition check_livelock_record :: "livelock_record \<Rightarrow> livelock_record py" where
  "check_livelock_record l =
     py_bind (require_non_empty_text (ll_livelock_id l) ''livelock_id'') (\<lambda>_.
     py_bind (require_non_negative_int (ll_tick_number l) ''tick_number'') (\<lambda>_.
     py_bind (require_non_empty_text (ll_repeated_pattern l) ''repeated_pattern'') (\<lambda>_.
     py_bind (require_positive_int (ll_repeat_count l) ''repeat_count'') (\<lambda>_.
     py_bind (require_datetime_text (ll_detected_at l) ''detected_at'') (\<lambda>_. Inr l)))))"

section \<open>The engine\<close>

record 'w supervisor =
  sv_policy :: supervisor_policy
  sv_spine :: spine
  sv_obligations :: obligations
  sv_world :: 'w
  sv_reads :: nat
  sv_tick_number :: int
  sv_phase :: supervisor_phase
  sv_errors :: int
  sv_idle :: int
  sv_recent :: "tick_outcome list"
  sv_processed :: "string set"
  sv_livelocks :: "livelock_record list"
  sv_checkpoints :: "supervisor_checkpoint list"
  sv_heartbeats :: "runtime_heartbeat list"
  sv_ticks :: "supervisor_tick list"
  sv_halted :: bool

definition supervisor_init :: "supervisor_policy \<Rightarrow> spine \<Rightarrow> obligations \<Rightarrow> 'w \<Rightarrow> 'w supervisor" where
  "supervisor_init policy spine obls world =
     \<lparr>sv_policy = policy, sv_spine = spine, sv_obligations = obls, sv_world = world, sv_reads = 0,
      sv_tick_number = 0, sv_phase = SP_IDLE, sv_errors = 0, sv_idle = 0, sv_recent = [], sv_processed = {},
      sv_livelocks = [], sv_checkpoints = [], sv_heartbeats = [], sv_ticks = [], sv_halted = False\<rparr>"

text \<open>What the supervisor is given: its clock, the clock of the obligation engine, the governance gate.\<close>

record 'w surroundings =
  sr_clock :: "nat \<Rightarrow> string"
  sr_engine_clock :: "nat \<Rightarrow> string"
  sr_gate :: "'w \<Rightarrow> string \<Rightarrow> string \<Rightarrow> (string \<times> string) list \<Rightarrow> bool py \<times> 'w"

type_synonym ('a, 'w) act = "'w supervisor \<Rightarrow> 'a py \<times> 'w supervisor"

text \<open>A sequence of two calls, of which the first may raise.\<close>

definition act_bind :: "'a py \<times> 's \<Rightarrow> ('a \<Rightarrow> 's \<Rightarrow> 'b py \<times> 's) \<Rightarrow> 'b py \<times> 's" where
  "act_bind r f = (case r of (Inl e, s) \<Rightarrow> (Inl e, s) | (Inr x, s) \<Rightarrow> f x s)"

definition sv_now :: "'w surroundings \<Rightarrow> 'w supervisor \<Rightarrow> string \<times> 'w supervisor" where
  "sv_now env s = (sr_clock env (sv_reads s), s\<lparr>sv_reads := Suc (sv_reads s)\<rparr>)"

text \<open>The gate is closed when it raises.\<close>

definition safe_gate ::
  "'w surroundings \<Rightarrow> string \<Rightarrow> string \<Rightarrow> (string \<times> string) list \<Rightarrow> 'w supervisor \<Rightarrow> bool \<times> 'w supervisor" where
  "safe_gate env action target ctx s =
     (case sr_gate env (sv_world s) action target ctx of
        (Inl e, w) \<Rightarrow> (False, s\<lparr>sv_world := w\<rparr>)
      | (Inr b, w) \<Rightarrow> (b, s\<lparr>sv_world := w\<rparr>))"

text \<open>A decision: the answer of the gate, then its record.\<close>

definition decide ::
  "'w surroundings \<Rightarrow> string \<Rightarrow> string \<Rightarrow> (string \<times> string) list \<Rightarrow> (string \<times> json) list \<Rightarrow> string
    \<Rightarrow> (supervisor_decision, 'w) act" where
  "decide env action target ctx extra reason s =
     (let (approved, s) = safe_gate env action target ctx s
      in case stable_identifier ''sv-dec'' ([(''tick'', JInt (sv_tick_number s)), (''action'', JStr action),
                (''target'', JStr target)] @ extra) of
           Inl e \<Rightarrow> (Inl e, s)
         | Inr decision_id \<Rightarrow>
             let (now, s) = sv_now env s
             in (SupervisorDecision decision_id action target reason approved now, s))"

definition poll_new_events :: "'w supervisor \<Rightarrow> event_record list \<times> 'w supervisor" where
  "poll_new_events s =
     (let new = filter (\<lambda>e. ev_event_id e \<notin> sv_processed s)
            (sort_key (\<lambda>e. (ev_emitted_at e, ev_event_id e)) (dict_values (sp_events (sv_spine s))))
      in (new, s\<lparr>sv_processed := sv_processed s \<union> set (map ev_event_id new)\<rparr>))"

text \<open>The obligations in a state, in the order of their identifiers.\<close>

definition obligations_in :: "obligations \<Rightarrow> obligation_state \<Rightarrow> obligation_record list" where
  "obligations_in s st = filter (\<lambda>x. ob_state x = st) (sort_key ob_obligation_id (dict_values (eg_obligations s)))"

text \<open>An operation of the obligation engine, with the reading of its clock.\<close>

definition on_obligations :: "'w surroundings \<Rightarrow> (string \<Rightarrow> obligations \<Rightarrow> 'a py \<times> obligations) \<Rightarrow> ('a, 'w) act" where
  "on_obligations env f s =
     (let (r, obls) = f (sr_engine_clock env (sv_reads s)) (sv_obligations s)
      in (r, s\<lparr>sv_obligations := obls, sv_reads := Suc (sv_reads s)\<rparr>))"

fun activate_pending :: "'w surroundings \<Rightarrow> obligation_record list \<Rightarrow> (supervisor_decision list, 'w) act" where
  "activate_pending env [] s = (Inr [], s)"
| "activate_pending env (x # xs) s =
     (if ob_state x = OS_PENDING
      then act_bind (decide env ''activate_obligation'' (ob_obligation_id x)
               [(''trigger'', obligation_trigger_value (ob_trigger x))] [] ''pending obligation'' s) (\<lambda>d s.
           act_bind (if de_approved d
                     then on_obligations env (\<lambda>now obls. activate obls now (ob_obligation_id x)) s
                     else (Inr x, s)) (\<lambda>_ s.
           act_bind (activate_pending env xs s) (\<lambda>ds s. (Inr (d # ds), s))))
      else activate_pending env xs s)"

definition evaluate_obligations :: "'w surroundings \<Rightarrow> (supervisor_decision list \<times> int, 'w) act" where
  "evaluate_obligations env s =
     (let open_obls = obligations_in (sv_obligations s) OS_ACTIVE @ obligations_in (sv_obligations s) OS_PENDING
      in act_bind (activate_pending env open_obls s) (\<lambda>ds s. (Inr (ds, int (length open_obls)), s)))"

fun expire_due :: "'w surroundings \<Rightarrow> string \<Rightarrow> obligation_record list \<Rightarrow> (supervisor_decision list, 'w) act" where
  "expire_due env now [] s = (Inr [], s)"
| "expire_due env now (x # xs) s =
     (if dl_due_at (ob_deadline x) \<le> now
      then act_bind (decide env ''expire_obligation'' (ob_obligation_id x)
               [(''due_at'', dl_due_at (ob_deadline x)), (''current_time'', now)] [] ''deadline breached'' s) (\<lambda>d s.
           act_bind (if de_approved d
                     then act_bind (on_obligations env (\<lambda>t obls. close_obligation obls t (ob_obligation_id x) OS_EXPIRED
                                      ''deadline breached by supervisor tick'' ''supervisor'') s) (\<lambda>_ s. (Inr x, s))
                     else (Inr x, s)) (\<lambda>_ s.
           act_bind (expire_due env now xs s) (\<lambda>ds s. (Inr (d # ds), s))))
      else expire_due env now xs s)"

definition check_deadlines :: "'w surroundings \<Rightarrow> (supervisor_decision list \<times> int, 'w) act" where
  "check_deadlines env s =
     (let (now, s) = sv_now env s; active = obligations_in (sv_obligations s) OS_ACTIVE
      in act_bind (expire_due env now active s) (\<lambda>ds s. (Inr (ds, int (length active)), s)))"

fun fire_reactions ::
  "'w surroundings \<Rightarrow> event_record \<Rightarrow> event_subscription list \<Rightarrow> (supervisor_decision list, 'w) act" where
  "fire_reactions env e [] s = (Inr [], s)"
| "fire_reactions env e (sub # subs) s =
     act_bind (decide env ''fire_reaction'' (sb_reaction_id sub)
         [(''event_type'', event_type_value (ev_event_type e)), (''event_id'', ev_event_id e)]
         [(''event'', JStr (ev_event_id e))] ''event matched subscription'' s) (\<lambda>d s.
     act_bind (fire_reactions env e subs s) (\<lambda>ds s. (Inr (d # ds), s)))"

fun process_each :: "'w surroundings \<Rightarrow> event_record list \<Rightarrow> (supervisor_decision list, 'w) act" where
  "process_each env [] s = (Inr [], s)"
| "process_each env (e # es) s =
     act_bind (fire_reactions env e (matching_subscriptions (sv_spine s) e) s) (\<lambda>ds s.
     act_bind (process_each env es s) (\<lambda>ds' s. (Inr (ds @ ds'), s)))"

definition process_events :: "'w surroundings \<Rightarrow> event_record list \<Rightarrow> (supervisor_decision list \<times> int, 'w) act" where
  "process_events env events s =
     act_bind (process_each env (take (nat (po_max_events (sv_policy s))) events) s)
       (\<lambda>ds s. (Inr (ds, int (length (filter de_approved ds))), s))"

section \<open>Livelock\<close>

text \<open>An event of the supervisor itself, constructed and emitted.\<close>

definition emit_own ::
  "'w surroundings \<Rightarrow> string \<Rightarrow> event_type \<Rightarrow> string \<Rightarrow> (string \<times> pval) list \<Rightarrow> (event_record, 'w) act" where
  "emit_own env kind event_type correlation payload s =
     (case stable_identifier ''evt'' [(''type'', JStr kind), (''tick'', JInt (sv_tick_number s))] of
        Inl e \<Rightarrow> (Inl e, s)
      | Inr event_id \<Rightarrow>
          let (now, s) = sv_now env s
          in case EventRecord (PStr event_id) (PEnum ''EventType'' (event_type_value event_type))
                    (PEnum ''EventSource'' (event_source_value ES_SUPERVISOR))
                    (PStr (correlation @ int_str (sv_tick_number s))) (PDict payload) (PStr now) of
               Inl e \<Rightarrow> (Inl e, s)
             | Inr evt \<Rightarrow> (let (r, sp) = emit (sv_spine s) evt in (r, s\<lparr>sv_spine := sp\<rparr>)))"

text \<open>The window of outcomes after the current one, and whether it shows a stall.\<close>

definition next_recent :: "supervisor_policy \<Rightarrow> tick_outcome list \<Rightarrow> tick_outcome \<Rightarrow> tick_outcome list" where
  "next_recent p recent outcome = py_tail (2 * po_livelock_threshold p) (recent @ [outcome])"

definition stalled :: "supervisor_policy \<Rightarrow> tick_outcome list \<Rightarrow> bool" where
  "stalled p recent \<longleftrightarrow> (let last = py_tail (po_livelock_threshold p) recent
     in po_livelock_threshold p \<le> int (length recent) \<and> length (remdups last) = 1 \<and>
        hd last \<notin> {TO_WORK_DONE, TO_HEALTHY})"

definition apply_strategy :: "'w supervisor \<Rightarrow> 'w supervisor" where
  "apply_strategy s =
     (case po_livelock_strategy (sv_policy s) of
        LS_HALT \<Rightarrow> s\<lparr>sv_halted := True, sv_phase := SP_HALTED\<rparr>
      | LS_PAUSE \<Rightarrow> s\<lparr>sv_phase := SP_DEGRADED\<rparr>
      | _ \<Rightarrow> s)"

text \<open>Whether a livelock was found.\<close>

definition check_livelock :: "'w surroundings \<Rightarrow> tick_outcome \<Rightarrow> (bool, 'w) act" where
  "check_livelock env outcome s =
     (let s = s\<lparr>sv_recent := next_recent (sv_policy s) (sv_recent s) outcome\<rparr>; p = sv_policy s
      in if \<not> stalled p (sv_recent s) then (Inr False, s)
         else
           let pattern = outcome_value (hd (py_tail (po_livelock_threshold p) (sv_recent s)))
           in case stable_identifier ''livelock'' [(''tick'', JInt (sv_tick_number s)), (''pattern'', JStr pattern)] of
                Inl e \<Rightarrow> (Inl e, s)
              | Inr i \<Rightarrow>
                  let (now, s) = sv_now env s
                  in case check_livelock_record \<lparr>ll_livelock_id = i, ll_tick_number = sv_tick_number s,
                            ll_repeated_pattern = pattern, ll_repeat_count = po_livelock_threshold p,
                            ll_strategy = po_livelock_strategy p, ll_resolved = False, ll_detected_at = now,
                            ll_resolution_detail = []\<rparr> of
                       Inl e \<Rightarrow> (Inl e, s)
                     | Inr l \<Rightarrow>
                         act_bind (emit_own env ''livelock'' ET_SUPERVISOR_LIVELOCK ''supervisor-tick-''
                             [(''pattern'', PStr pattern), (''repeat_count'', PInt (po_livelock_threshold p))]
                             (apply_strategy (s\<lparr>sv_livelocks := sv_livelocks s @ [l]\<rparr>)))
                           (\<lambda>_ s. (Inr True, s\<lparr>sv_recent := []\<rparr>)))"

definition resolve_livelocks :: "'w supervisor \<Rightarrow> 'w supervisor" where
  "resolve_livelocks s = s\<lparr>sv_livelocks := map (\<lambda>l. if ll_resolved l then l
     else l\<lparr>ll_resolved := True,
            ll_resolution_detail := ''work resumed at tick '' @ int_str (sv_tick_number s)\<rparr>) (sv_livelocks s)\<rparr>"

section \<open>Heartbeat and checkpoint\<close>

definition pending_count :: "'w supervisor \<Rightarrow> int" where
  "pending_count s = int (length (sp_events (sv_spine s))) - int (card (sv_processed s))"

definition own_processed :: "event_record \<Rightarrow> 'w supervisor \<Rightarrow> 'w supervisor" where
  "own_processed e s = s\<lparr>sv_processed := insert (ev_event_id e) (sv_processed s)\<rparr>"

definition emit_heartbeat :: "'w surroundings \<Rightarrow> supervisor_tick \<Rightarrow> (runtime_heartbeat, 'w) act" where
  "emit_heartbeat env t s =
     (case stable_identifier ''hb'' [(''tick'', JInt (sv_tick_number s))] of
        Inl e \<Rightarrow> (Inl e, s)
      | Inr i \<Rightarrow>
          let (now, s) = sv_now env s
          in case check_heartbeat \<lparr>hb_heartbeat_id = i, hb_tick_number = sv_tick_number s, hb_phase = sv_phase s,
                    hb_outcome = ti_outcome t, hb_open_obligations = open_count (sv_obligations s),
                    hb_pending_events = pending_count s, hb_emitted_at = now\<rparr> of
               Inl e \<Rightarrow> (Inl e, s)
             | Inr hb \<Rightarrow>
                 act_bind (emit_own env ''heartbeat'' ET_SUPERVISOR_HEARTBEAT ''supervisor-heartbeat-''
                     [(''tick_number'', PInt (sv_tick_number s)), (''outcome'', PStr (outcome_value (ti_outcome t)))]
                     (s\<lparr>sv_heartbeats := sv_heartbeats s @ [hb]\<rparr>))
                   (\<lambda>evt s. (Inr hb, own_processed evt s)))"

definition supervisor_hash :: "'w supervisor \<Rightarrow> string" where
  "supervisor_hash s = sha256_hex (dumps_default (JObj
     [(''tick'', JInt (sv_tick_number s)), (''phase'', JStr (phase_value (sv_phase s))), (''errors'', JInt (sv_errors s)),
      (''idle'', JInt (sv_idle s)), (''processed'', JInt (int (card (sv_processed s)))), (''halted'', JBool (sv_halted s)),
      (''recent_outcomes'', JArr (map (\<lambda>x. JStr (outcome_value x)) (last_n 10 (sv_recent s))))]))"

definition create_supervisor_checkpoint :: "'w surroundings \<Rightarrow> (supervisor_checkpoint, 'w) act" where
  "create_supervisor_checkpoint env s =
     (let open_obls = obligations_in (sv_obligations s) OS_ACTIVE @ obligations_in (sv_obligations s) OS_PENDING;
          state_hash = supervisor_hash s
      in case stable_identifier ''cp'' [(''tick'', JInt (sv_tick_number s))] of
           Inl e \<Rightarrow> (Inl e, s)
         | Inr i \<Rightarrow>
             let (now, s) = sv_now env s
             in case check_checkpoint \<lparr>cp_checkpoint_id = i, cp_tick_number = sv_tick_number s, cp_phase = sv_phase s,
                       cp_status = CS_VALID, cp_open_obligation_ids = map ob_obligation_id open_obls,
                       cp_pending_event_count = max 0 (pending_count s), cp_consecutive_errors = sv_errors s,
                       cp_consecutive_idle_ticks = sv_idle s, cp_recent_outcomes = last_n 10 (sv_recent s),
                       cp_state_hash = state_hash, cp_created_at = now\<rparr> of
                  Inl e \<Rightarrow> (Inl e, s)
                | Inr cp \<Rightarrow>
                    act_bind (emit_own env ''checkpoint'' ET_SUPERVISOR_CHECKPOINT ''supervisor-checkpoint-''
                        [(''checkpoint_id'', PStr (cp_checkpoint_id cp)), (''state_hash'', PStr state_hash)]
                        (s\<lparr>sv_checkpoints := sv_checkpoints s @ [cp]\<rparr>))
                      (\<lambda>evt s. (Inr cp, own_processed evt s)))"

section \<open>The tick\<close>

text \<open>The variables of \<open>tick\<close> that its exception handler sees.\<close>

record tick_locals =
  tl_phases :: "supervisor_phase list"
  tl_decisions :: "supervisor_decision list"
  tl_polled :: int
  tl_obligations :: int
  tl_deadlines :: int
  tl_reactions :: int

definition no_locals :: tick_locals where
  "no_locals = \<lparr>tl_phases = [], tl_decisions = [], tl_polled = 0, tl_obligations = 0, tl_deadlines = 0, tl_reactions = 0\<rparr>"

definition prune_history :: "'w supervisor \<Rightarrow> 'w supervisor" where
  "prune_history s = s\<lparr>sv_ticks := last_n 1000 (sv_ticks s), sv_heartbeats := last_n 500 (sv_heartbeats s),
     sv_checkpoints := last_n 100 (sv_checkpoints s), sv_livelocks := last_n 200 (sv_livelocks s)\<rparr>"

definition finalize_tick ::
  "'w surroundings \<Rightarrow> string \<Rightarrow> tick_locals \<Rightarrow> string list \<Rightarrow> tick_outcome \<Rightarrow> (supervisor_tick, 'w) act" where
  "finalize_tick env started l errors outcome s =
     (let s = s\<lparr>sv_tick_number := sv_tick_number s + 1\<rparr>; (now, s) = sv_now env s
      in case stable_identifier ''tick'' [(''n'', JInt (sv_tick_number s))] of
           Inl e \<Rightarrow> (Inl e, s)
         | Inr i \<Rightarrow>
             (case check_tick \<lparr>ti_tick_id = i, ti_tick_number = sv_tick_number s, ti_phases = tl_phases l,
                     ti_events_polled = tl_polled l, ti_obligations_evaluated = tl_obligations l,
                     ti_deadlines_checked = tl_deadlines l, ti_reactions_fired = tl_reactions l,
                     ti_decisions = take (nat (po_max_actions (sv_policy s))) (tl_decisions l), ti_outcome = outcome,
                     ti_errors = errors, ti_started_at = started, ti_completed_at = now\<rparr> of
                Inl e \<Rightarrow> (Inl e, s)
              | Inr t \<Rightarrow> (Inr t, prune_history (s\<lparr>sv_ticks := sv_ticks s @ [t]\<rparr>))))"

text \<open>Entering a phase.\<close>

definition enter :: "supervisor_phase \<Rightarrow> 'w supervisor \<times> tick_locals \<Rightarrow> 'w supervisor \<times> tick_locals" where
  "enter p sl = ((fst sl)\<lparr>sv_phase := p\<rparr>, (snd sl)\<lparr>tl_phases := tl_phases (snd sl) @ [p]\<rparr>)"

text \<open>How the guarded part of a tick ends: it returns a tick, has an outcome, or raises.\<close>

datatype guarded = Returned supervisor_tick | Done tick_outcome | Raised py_error

type_synonym 'w guarded_run = "guarded \<times> 'w supervisor \<times> tick_locals"

definition guarded_bind ::
  "'a py \<times> 'w supervisor \<Rightarrow> tick_locals \<Rightarrow> ('a \<Rightarrow> 'w supervisor \<Rightarrow> 'w guarded_run) \<Rightarrow> 'w guarded_run" where
  "guarded_bind r l f = (case r of (Inl e, s) \<Rightarrow> (Raised e, s, l) | (Inr x, s) \<Rightarrow> f x s)"

text \<open>The end of the guarded part: the outcome, the livelock check and the counters.\<close>

definition conclude :: "'w surroundings \<Rightarrow> tick_locals \<Rightarrow> 'w supervisor \<Rightarrow> 'w guarded_run" where
  "conclude env l s =
     (let outcome = (if 0 < tl_polled l \<or> 0 < tl_obligations l \<or> 0 < tl_reactions l
                        \<or> list_ex de_approved (tl_decisions l) then TO_WORK_DONE else TO_IDLE_TICK)
      in guarded_bind (check_livelock env outcome s) l (\<lambda>livelock s.
           let outcome = (if livelock then TO_LIVELOCK_DETECTED else outcome);
               l = (if livelock then l\<lparr>tl_phases := tl_phases l @ [SP_DEGRADED]\<rparr> else l);
               s = (if outcome = TO_WORK_DONE then resolve_livelocks s else s)
           in (Done outcome, s\<lparr>sv_idle := (if outcome = TO_IDLE_TICK then sv_idle s + 1 else 0), sv_errors := 0\<rparr>, l)))"

text \<open>The phases after polling.\<close>

definition work ::
  "'w surroundings \<Rightarrow> event_record list \<Rightarrow> tick_locals \<Rightarrow> 'w supervisor \<Rightarrow> 'w guarded_run" where
  "work env new l s =
     (let (s, l) = enter SP_EVALUATING_OBLIGATIONS (s, l)
      in guarded_bind (evaluate_obligations env s) l (\<lambda>(ds, n) s.
      let (s, l) = enter SP_EVALUATING_DEADLINES (s, l\<lparr>tl_obligations := n, tl_decisions := ds\<rparr>)
      in guarded_bind (check_deadlines env s) l (\<lambda>(ds, n) s.
      let (s, l) = enter SP_RUNNING_REACTIONS (s, l\<lparr>tl_deadlines := n, tl_decisions := tl_decisions l @ ds\<rparr>)
      in guarded_bind (process_events env new s) l (\<lambda>(ds, n) s.
      let (s, l) = enter SP_ACTING (enter SP_REASONING
            (s, l\<lparr>tl_reactions := n, tl_decisions := tl_decisions l @ ds\<rparr>))
      in conclude env l s))))"

definition guarded_part :: "'w surroundings \<Rightarrow> string \<Rightarrow> 'w supervisor \<Rightarrow> 'w guarded_run" where
  "guarded_part env started s =
     (let (s, l) = enter SP_POLLING (s, no_locals); (new, s) = poll_new_events s;
          l = l\<lparr>tl_polled := int (length new)\<rparr>
      in if po_backpressure (sv_policy s) < int (length new)
         then let (s, l) = enter SP_DEGRADED (s, l)
              in guarded_bind (finalize_tick env started l [] TO_BACKPRESSURE_APPLIED s) l
                   (\<lambda>t s. (Returned t, s, l))
         else work env new l s)"

text \<open>The handler: too many errors in a row halt the supervisor.\<close>

definition on_error :: "'w supervisor \<Rightarrow> tick_locals \<Rightarrow> tick_outcome \<times> 'w supervisor \<times> tick_locals" where
  "on_error s l =
     (let s = s\<lparr>sv_errors := sv_errors s + 1\<rparr>
      in if po_max_errors (sv_policy s) \<le> sv_errors s
         then (TO_HALTED, s\<lparr>sv_halted := True, sv_phase := SP_HALTED\<rparr>, l\<lparr>tl_phases := tl_phases l @ [SP_HALTED]\<rparr>)
         else (TO_ERROR, s, l))"

text \<open>The rest of a tick that did not return early.\<close>

definition complete_tick ::
  "'w surroundings \<Rightarrow> string \<Rightarrow> tick_locals \<Rightarrow> string list \<Rightarrow> tick_outcome \<Rightarrow> (supervisor_tick, 'w) act" where
  "complete_tick env started l errors outcome s =
     act_bind (finalize_tick env started l errors outcome s) (\<lambda>t s.
     act_bind (if sv_tick_number s mod po_heartbeat_every (sv_policy s) = 0
               then act_bind (emit_heartbeat env t s) (\<lambda>_ s. (Inr (), s)) else (Inr (), s)) (\<lambda>_ s.
     act_bind (if sv_tick_number s mod po_checkpoint_every (sv_policy s) = 0
               then act_bind (create_supervisor_checkpoint env s) (\<lambda>_ s. (Inr (), s)) else (Inr (), s)) (\<lambda>_ s.
       (Inr t, s))))"

definition halted_tick :: "'w surroundings \<Rightarrow> (supervisor_tick, 'w) act" where
  "halted_tick env s =
     (let s = s\<lparr>sv_tick_number := sv_tick_number s + 1\<rparr>; (now, s) = sv_now env s
      in (py_bind (stable_identifier ''tick'' [(''n'', JInt (sv_tick_number s))]) (\<lambda>i.
            check_tick \<lparr>ti_tick_id = i, ti_tick_number = sv_tick_number s, ti_phases = [SP_HALTED],
              ti_events_polled = 0, ti_obligations_evaluated = 0, ti_deadlines_checked = 0, ti_reactions_fired = 0,
              ti_decisions = [], ti_outcome = TO_HALTED, ti_errors = [''supervisor is halted''],
              ti_started_at = now, ti_completed_at = now\<rparr>), s))"

definition tick :: "'w surroundings \<Rightarrow> (supervisor_tick, 'w) act" where
  "tick env s =
     (if sv_halted s then halted_tick env s
      else
        let (started, s) = sv_now env s
        in case guarded_part env started s of
             (Returned t, s, l) \<Rightarrow> (Inr t, s)
           | (Done outcome, s, l) \<Rightarrow> complete_tick env started l [] outcome s
           | (Raised e, s, l) \<Rightarrow>
               (let (outcome, s, l) = on_error s l
                in complete_tick env started l [''supervisor tick error''] outcome s))"

section \<open>Resuming\<close>

definition resume_from_checkpoint :: "'w supervisor \<Rightarrow> supervisor_checkpoint \<Rightarrow> unit py \<times> 'w supervisor" where
  "resume_from_checkpoint s c =
     (if cp_status c \<noteq> CS_VALID then (Inl (RuntimeCoreInvariantError ''cannot resume from invalid checkpoint''), s)
      else (Inr (), s\<lparr>sv_tick_number := cp_tick_number c, sv_errors := cp_consecutive_errors c,
              sv_idle := cp_consecutive_idle_ticks c, sv_recent := cp_recent_outcomes c, sv_phase := cp_phase c,
              sv_halted := (cp_phase c = SP_HALTED)\<rparr>))"

definition sync_processed_events :: "'w supervisor \<Rightarrow> 'w supervisor" where
  "sync_processed_events s = s\<lparr>sv_processed := set (map ev_event_id (dict_values (sp_events (sv_spine s))))\<rparr>"

definition restore_processed :: "'w supervisor \<Rightarrow> string set \<Rightarrow> unit py \<times> 'w supervisor" where
  "restore_processed s ids =
     (if \<exists>i \<in> ids. blank i
      then (Inl (RuntimeCoreInvariantError ''processed event IDs must be non-empty strings''), s)
      else (Inr (), s\<lparr>sv_processed := ids\<rparr>))"

section \<open>What can happen within a tick\<close>

text \<open>From one world to another by questions to the gate, of which it approved those in \<open>A\<close>.\<close>

inductive gate_run :: "'w surroundings \<Rightarrow> 'w \<Rightarrow> (string \<times> string) set \<Rightarrow> 'w \<Rightarrow> bool" for env where
  gate_none: "gate_run env w {} w"
| gate_yes: "gate_run env w A v \<Longrightarrow> sr_gate env v action target ctx = (Inr True, u) \<Longrightarrow>
    gate_run env w (insert (action, target) A) u"
| gate_no: "gate_run env w A v \<Longrightarrow> sr_gate env v action target ctx = (r, u) \<Longrightarrow> r \<noteq> Inr True \<Longrightarrow>
    gate_run env w A u"

lemma gate_run_trans: "gate_run env v B u \<Longrightarrow> gate_run env w A v \<Longrightarrow> gate_run env w (A \<union> B) u"
  by (induction rule: gate_run.induct) (auto intro: gate_run.intros)

text \<open>Obligations change only where an activation or expiry of them was approved.\<close>

definition governed :: "(string \<times> string) set \<Rightarrow> obligations \<Rightarrow> obligations \<Rightarrow> bool" where
  "governed A o1 o2 \<longleftrightarrow> (\<forall>i. obligation_at o2 i \<noteq> obligation_at o1 i \<longrightarrow>
     (''activate_obligation'', i) \<in> A \<or> (''expire_obligation'', i) \<in> A)"

definition event_ids :: "'w supervisor \<Rightarrow> string set" where
  "event_ids s = ev_event_id ` set (dict_values (sp_events (sv_spine s)))"

text \<open>The effects of a part of a tick, with the approvals \<open>B\<close> given before.\<close>

definition evolves :: "'w surroundings \<Rightarrow> (string \<times> string) set \<Rightarrow> 'w supervisor \<Rightarrow> 'w supervisor \<Rightarrow> bool" where
  "evolves env B s s' \<longleftrightarrow> sv_policy s' = sv_policy s \<and>
     (\<exists>A. gate_run env (sv_world s) A (sv_world s') \<and> governed (A \<union> B) (sv_obligations s) (sv_obligations s')) \<and>
     obligation_run (sv_obligations s) (sv_obligations s') \<and>
     spine_run (sv_spine s) (sv_spine s') \<and> sp_subscriptions (sv_spine s') = sp_subscriptions (sv_spine s) \<and>
     event_ids s \<subseteq> event_ids s' \<and>
     sv_processed s \<subseteq> sv_processed s' \<and> sv_processed s' \<subseteq> sv_processed s \<union> event_ids s'"

lemma governed_refl [simp]: "governed A o1 o1"
  by (simp add: governed_def)

lemma governed_trans: "governed A o1 o2 \<Longrightarrow> governed B o2 o3 \<Longrightarrow> governed (A \<union> B) o1 o3"
  unfolding governed_def by (metis UnCI)

lemma governed_mono: "governed A o1 o2 \<Longrightarrow> A \<subseteq> B \<Longrightarrow> governed B o1 o2"
  unfolding governed_def by blast

lemma evolves_frame:
  "sv_policy s' = sv_policy s \<Longrightarrow> sv_obligations s' = sv_obligations s \<Longrightarrow> sv_spine s' = sv_spine s \<Longrightarrow>
   sv_processed s' = sv_processed s \<Longrightarrow> sv_world s' = sv_world s \<Longrightarrow> evolves env B s s'"
  unfolding evolves_def by (auto simp: event_ids_def intro: gate_none)

lemma evolves_refl [simp]: "evolves env B s s"
  by (rule evolves_frame) simp_all

text \<open>Approvals of a first part count for the second one.\<close>

lemma evolves_after:
  assumes "gate_run env (sv_world s) A (sv_world t)" and "sv_policy t = sv_policy s"
    and "governed (A \<union> B) (sv_obligations s) (sv_obligations t)"
    and "obligation_run (sv_obligations s) (sv_obligations t)" and "spine_run (sv_spine s) (sv_spine t)"
    and "sp_subscriptions (sv_spine t) = sp_subscriptions (sv_spine s)" and "event_ids s \<subseteq> event_ids t"
    and "sv_processed s \<subseteq> sv_processed t" and "sv_processed t \<subseteq> sv_processed s \<union> event_ids t"
    and "evolves env (A \<union> B) t u"
  shows "evolves env B s u"
proof -
  obtain C where C: "gate_run env (sv_world t) C (sv_world u)"
    "governed (C \<union> (A \<union> B)) (sv_obligations t) (sv_obligations u)"
    using assms(10) unfolding evolves_def by blast
  have "gate_run env (sv_world s) (A \<union> C) (sv_world u)" using C(1) assms(1) by (rule gate_run_trans)
  moreover have "governed (A \<union> C \<union> B) (sv_obligations s) (sv_obligations u)"
    using governed_trans[OF assms(3) C(2)] by (rule governed_mono) auto
  moreover have "obligation_run (sv_obligations s) (sv_obligations u)" "spine_run (sv_spine s) (sv_spine u)"
    using assms(4,5,10) unfolding evolves_def by (auto intro: rtranclp_trans)
  moreover have "event_ids s \<subseteq> event_ids u" "sv_processed s \<subseteq> sv_processed u"
    using assms(7,8,10) unfolding evolves_def by (meson subset_trans)+
  moreover have "sv_processed u \<subseteq> sv_processed s \<union> event_ids u"
    using assms(9,10) unfolding evolves_def by (meson Un_least Un_upper1 Un_upper2 subset_trans le_supI2)
  moreover have "sv_policy u = sv_policy s" "sp_subscriptions (sv_spine u) = sp_subscriptions (sv_spine s)"
    using assms(2,6,10) unfolding evolves_def by simp_all
  ultimately show ?thesis unfolding evolves_def by blast
qed

lemma evolves_mono: "evolves env A s t \<Longrightarrow> A \<subseteq> B \<Longrightarrow> evolves env B s t"
  unfolding evolves_def using governed_mono by (metis Un_mono order_refl)

lemma evolves_trans [trans]:
  assumes "evolves env B s t" and "evolves env B t u"
  shows "evolves env B s u"
proof -
  obtain A where A: "gate_run env (sv_world s) A (sv_world t)" "governed (A \<union> B) (sv_obligations s) (sv_obligations t)"
    using assms(1) unfolding evolves_def by blast
  have "evolves env (A \<union> B) t u" using assms(2) by (rule evolves_mono) blast
  with A assms(1) show ?thesis by (intro evolves_after[OF A(1)]) (auto simp: evolves_def)
qed

lemma evolves_bind:
  assumes "evolves env B s (snd r)" and "\<And>x t. r = (Inr x, t) \<Longrightarrow> evolves env B t (snd (f x t))"
  shows "evolves env B s (snd (act_bind r f))"
proof (cases r)
  case (Pair x t)
  show ?thesis
  proof (cases x)
    case (Inr y)
    have "evolves env B s t" "evolves env B t (snd (f y t))" using assms Pair Inr by auto
    then show ?thesis using Pair Inr by (auto simp: act_bind_def intro: evolves_trans)
  qed (use assms(1) Pair in \<open>simp add: act_bind_def\<close>)
qed

lemma decide_cases:
  assumes "decide env a t c x reason s = (r, s')"
  obtains A where "gate_run env (sv_world s) A (sv_world s')" and "\<And>d. r = Inr d \<Longrightarrow> de_approved d \<Longrightarrow> (a, t) \<in> A"
    and "\<And>d. r = Inr d \<Longrightarrow> de_target_id d = t \<and> de_action_type d = a"
    and "sv_policy s' = sv_policy s" and "sv_obligations s' = sv_obligations s" and "sv_spine s' = sv_spine s"
    and "sv_processed s' = sv_processed s"
proof -
  obtain q w where g: "sr_gate env (sv_world s) a t c = (q, w)" by (cases "sr_gate env (sv_world s) a t c")
  define A where "A = (if q = Inr True then {(a, t)} else {})"
  have run: "gate_run env (sv_world s) A w"
    unfolding A_def using gate_yes[OF gate_none] gate_no[OF gate_none] g by metis
  have sg: "safe_gate env a t c s = (q = Inr True, s\<lparr>sv_world := w\<rparr>)"
    using g by (auto simp: safe_gate_def split: sum.splits)
  have "sv_world s' = w" "sv_policy s' = sv_policy s" "sv_obligations s' = sv_obligations s" "sv_spine s' = sv_spine s"
    "sv_processed s' = sv_processed s"
    using assms unfolding decide_def sg by (auto simp: sv_now_def Let_def split: sum.splits)
  moreover have "de_approved d = (q = Inr True)" "de_target_id d = t \<and> de_action_type d = a" if "r = Inr d" for d
    using assms that unfolding decide_def sg
    by (auto simp: sv_now_def Let_def SupervisorDecision_def py_bind_Inr_iff validators split: sum.splits)
  ultimately show ?thesis using run by (intro that[of A]) (auto simp: A_def)
qed

text \<open>A decision, and what is done where it approves.\<close>

lemma evolves_decide:
  assumes "\<And>d s'. decide env a t c x reason s = (Inr d, s') \<Longrightarrow>
      evolves env (if de_approved d then insert (a, t) B else B) s' (snd (f d s'))"
  shows "evolves env B s (snd (act_bind (decide env a t c x reason s) f))"
proof -
  obtain r s' where d: "decide env a t c x reason s = (r, s')" by (cases "decide env a t c x reason s")
  obtain A where A: "gate_run env (sv_world s) A (sv_world s')" "\<And>d. r = Inr d \<Longrightarrow> de_approved d \<Longrightarrow> (a, t) \<in> A"
    and same: "sv_policy s' = sv_policy s" "sv_obligations s' = sv_obligations s" "sv_spine s' = sv_spine s"
    "sv_processed s' = sv_processed s"
    using d by (elim decide_cases) (rule that; assumption)
  have later: "evolves env (A \<union> B) s' u \<Longrightarrow> evolves env B s u" for u
    by (rule evolves_after[OF A(1)]) (simp_all add: same event_ids_def)
  show ?thesis
  proof (cases r)
    case (Inl e)
    then show ?thesis using d later by (simp add: act_bind_def)
  next
    case (Inr y)
    have "evolves env (if de_approved y then insert (a, t) B else B) s' (snd (f y s'))"
      using assms d Inr by blast
    then have "evolves env (A \<union> B) s' (snd (f y s'))"
      by (rule evolves_mono) (use A(2)[OF Inr] in auto)
    then show ?thesis using d Inr later by (simp add: act_bind_def)
  qed
qed

lemma activate_other: "j \<noteq> i \<Longrightarrow> obligation_at (snd (activate o1 now i)) j = obligation_at o1 j"
  by (simp add: activate_def obligation_transition_def split: sum.splits)

lemma close_other: "j \<noteq> i \<Longrightarrow> obligation_at (snd (close_obligation o1 now i f r w)) j = obligation_at o1 j"
  by (simp add: close_obligation_def split: sum.splits prod.splits)

lemma on_obligations_evolves:
  assumes "\<And>now o1. obligation_step o1 (snd (f now o1))"
    and "\<And>now o1 j. j \<noteq> i \<Longrightarrow> obligation_at (snd (f now o1)) j = obligation_at o1 j"
    and "(''activate_obligation'', i) \<in> B \<or> (''expire_obligation'', i) \<in> B"
  shows "evolves env B s (snd (on_obligations env f s))"
proof -
  let ?o = "snd (f (sr_engine_clock env (sv_reads s)) (sv_obligations s))"
  have eq: "snd (on_obligations env f s) = s\<lparr>sv_obligations := ?o, sv_reads := Suc (sv_reads s)\<rparr>"
    by (simp add: on_obligations_def split_def Let_def)
  have "governed B (sv_obligations s) ?o"
    using assms(2,3) unfolding governed_def by metis
  then have "\<exists>A. gate_run env (sv_world s) A (sv_world s) \<and> governed (A \<union> B) (sv_obligations s) ?o"
    using gate_none by (metis sup_bot_left)
  then show ?thesis
    unfolding eq evolves_def event_ids_def using assms(1) by (simp add: r_into_rtranclp)
qed

lemma activate_pending_evolves: "evolves env B s (snd (activate_pending env xs s))"
proof (induction xs arbitrary: s B)
  case (Cons x xs)
  show ?case
  proof (cases "ob_state x = OS_PENDING")
    case True
    show ?thesis
      unfolding activate_pending.simps if_P[OF True]
    proof (rule evolves_decide, rule evolves_bind)
      fix d t
      show "evolves env (if de_approved d then insert (''activate_obligation'', ob_obligation_id x) B else B) t
         (snd (if de_approved d
           then on_obligations env (\<lambda>now obls. activate obls now (ob_obligation_id x)) t else (Inr x, t)))"
        by (auto intro!: on_obligations_evolves[where i = "ob_obligation_id x"] os_activate activate_other)
    qed (rule evolves_bind[OF Cons.IH], simp)
  qed (simp add: Cons.IH)
qed simp

lemma expire_due_evolves: "evolves env B s (snd (expire_due env now xs s))"
proof (induction xs arbitrary: s B)
  case (Cons x xs)
  show ?case
  proof (cases "dl_due_at (ob_deadline x) \<le> now")
    case True
    show ?thesis
      unfolding expire_due.simps if_P[OF True]
    proof (rule evolves_decide, rule evolves_bind)
      fix d t
      show "evolves env (if de_approved d then insert (''expire_obligation'', ob_obligation_id x) B else B) t
         (snd (if de_approved d
           then act_bind (on_obligations env (\<lambda>u obls. close_obligation obls u (ob_obligation_id x) OS_EXPIRED
             ''deadline breached by supervisor tick'' ''supervisor'') t) (\<lambda>_ s. (Inr x, s)) else (Inr x, t)))"
        by (auto intro!: evolves_bind on_obligations_evolves[where i = "ob_obligation_id x"] os_close close_other)
    qed (rule evolves_bind[OF Cons.IH], simp)
  qed (simp add: Cons.IH)
qed simp

lemma fire_reactions_evolves: "evolves env B s (snd (fire_reactions env e subs s))"
proof (induction subs arbitrary: s B)
  case (Cons x xs)
  show ?case
    unfolding fire_reactions.simps by (rule evolves_decide, rule evolves_bind[OF Cons.IH]) simp
qed simp

lemma process_each_evolves: "evolves env B s (snd (process_each env es s))"
proof (induction es arbitrary: s)
  case (Cons e es)
  show ?case
    unfolding process_each.simps
    by (rule evolves_bind[OF fire_reactions_evolves], rule evolves_bind[OF Cons.IH], simp)
qed simp

lemma evaluate_obligations_evolves: "evolves env B s (snd (evaluate_obligations env s))"
  unfolding evaluate_obligations_def Let_def by (rule evolves_bind[OF activate_pending_evolves]) simp

lemma process_events_evolves: "evolves env B s (snd (process_events env es s))"
  unfolding process_events_def by (rule evolves_bind[OF process_each_evolves]) simp

lemma check_deadlines_evolves: "evolves env B s (snd (check_deadlines env s))"
proof -
  let ?s = "s\<lparr>sv_reads := Suc (sv_reads s)\<rparr>"
  have "evolves env B s ?s" by (rule evolves_frame) simp_all
  moreover have "evolves env B ?s (snd (act_bind (expire_due env (sr_clock env (sv_reads s)) (obligations_in (sv_obligations ?s) OS_ACTIVE) ?s)
      (\<lambda>ds t. (Inr (ds, int (length (obligations_in (sv_obligations ?s) OS_ACTIVE))), t))))"
    by (rule evolves_bind[OF expire_due_evolves]) simp
  ultimately show ?thesis
    unfolding check_deadlines_def sv_now_def Let_def prod.case by (rule evolves_trans)
qed

lemma emit_events:
  "snd (emit sp e) = sp \<or> snd (emit sp e) = sp\<lparr>sp_events := sp_events sp @ [(ev_event_id e, e)]\<rparr>"
  "fst (emit sp e) = Inr x \<Longrightarrow> x = e \<and> snd (emit sp e) = sp\<lparr>sp_events := sp_events sp @ [(ev_event_id e, e)]\<rparr>"
  by (auto simp: emit_def dict_set_new split: if_splits)

lemma emit_own_frame:
  assumes "emit_own env kind t corr p s = (r, s')"
  shows "evolves env B s s' \<and> sv_processed s' = sv_processed s \<and> (\<forall>e. r = Inr e \<longrightarrow> ev_event_id e \<in> event_ids s')"
proof (cases "stable_identifier ''evt'' [(''type'', JStr kind), (''tick'', JInt (sv_tick_number s))]")
  case (Inr i)
  let ?s = "s\<lparr>sv_reads := Suc (sv_reads s)\<rparr>"
  let ?e = "EventRecord (PStr i) (PEnum ''EventType'' (event_type_value t))
      (PEnum ''EventSource'' (event_source_value ES_SUPERVISOR)) (PStr (corr @ int_str (sv_tick_number s)))
      (PDict p) (PStr (sr_clock env (sv_reads s)))"
  have f: "evolves env B s ?s" by (rule evolves_frame) simp_all
  show ?thesis
  proof (cases ?e)
    case (Inl x)
    then have "s' = ?s" "r = Inl x" using assms Inr by (simp_all add: emit_own_def sv_now_def)
    then show ?thesis using f by simp
  next
    case Inr2: (Inr e)
    then have s': "s' = ?s\<lparr>sv_spine := snd (emit (sv_spine s) e)\<rparr>" "r = fst (emit (sv_spine s) e)"
      using assms Inr by (auto simp: emit_own_def sv_now_def split: prod.splits)
    have "event_ok e" using EventRecord_ok Inr2 by blast
    then have run: "spine_run (sv_spine s) (snd (emit (sv_spine s) e))" using step_emit by blast
    have "event_ids s \<subseteq> event_ids s'" "sp_subscriptions (sv_spine s') = sp_subscriptions (sv_spine s)"
      using emit_events(1)[of "sv_spine s" e] unfolding s' event_ids_def by (elim disjE; simp add: subset_insertI)+
    then have "evolves env B s s'"
      using run gate_none[of env "sv_world s"] unfolding s' evolves_def by auto
    moreover have "\<forall>x. r = Inr x \<longrightarrow> ev_event_id x \<in> event_ids s'"
      unfolding s' event_ids_def by (auto dest!: emit_events(2))
    ultimately show ?thesis using s' by simp
  qed
qed (use assms in \<open>auto simp: emit_own_def\<close>)

lemma event_ids_frame [simp]: "event_ids (s\<lparr>sv_phase := p\<rparr>) = event_ids s"
  "event_ids (s\<lparr>sv_reads := n\<rparr>) = event_ids s"
  by (simp_all add: event_ids_def)

lemma evolves_step:
  "sv_policy t = sv_policy s \<Longrightarrow> sv_obligations t = sv_obligations s \<Longrightarrow> sv_spine t = sv_spine s \<Longrightarrow>
   sv_processed t = sv_processed s \<Longrightarrow> sv_world t = sv_world s \<Longrightarrow> evolves env B t u \<Longrightarrow> evolves env B s u"
  using evolves_trans[OF evolves_frame] by metis

lemma emit_own_evolves: "evolves env B s (snd (emit_own env kind t corr p s))"
  using emit_own_frame by (metis prod.collapse)

lemma emit_own_processed:
  assumes "evolves env B s t" and "emit_own env kind ty corr p t = (Inr e, u)"
  shows "evolves env B s (own_processed e u)"
proof -
  note f = emit_own_frame[OF assms(2)]
  have "evolves env B s u" using assms(1) f evolves_trans by blast
  then show ?thesis using f by (auto simp: evolves_def own_processed_def event_ids_def)
qed

lemma apply_strategy_frame [simp]: "sv_policy (apply_strategy s) = sv_policy s"
  "sv_obligations (apply_strategy s) = sv_obligations s" "sv_spine (apply_strategy s) = sv_spine s"
  "sv_processed (apply_strategy s) = sv_processed s" "sv_world (apply_strategy s) = sv_world s"
  "sv_tick_number (apply_strategy s) = sv_tick_number s" "sv_recent (apply_strategy s) = sv_recent s"
  "sv_livelocks (apply_strategy s) = sv_livelocks s" "sv_heartbeats (apply_strategy s) = sv_heartbeats s"
  "sv_checkpoints (apply_strategy s) = sv_checkpoints s" "sv_ticks (apply_strategy s) = sv_ticks s"
  "sv_errors (apply_strategy s) = sv_errors s"
  by (simp_all add: apply_strategy_def split: livelock_strategy.splits)

lemma own_event_evolves:
  "evolves env B s (snd (act_bind (emit_own env kind ty corr p s) (\<lambda>e t. (Inr x, own_processed e t))))"
proof (cases "emit_own env kind ty corr p s")
  case (Pair r t)
  then show ?thesis
    using emit_own_evolves[of env B s kind ty corr p] emit_own_processed[OF evolves_refl]
    by (cases r) (simp_all add: act_bind_def)
qed

lemma check_livelock_evolves: "evolves env B s (snd (check_livelock env outcome s))"
  unfolding check_livelock_def Let_def sv_now_def
  by (auto split: sum.splits intro: evolves_frame)
     (rule evolves_bind; (rule evolves_step[OF _ _ _ _ _ emit_own_evolves] evolves_frame)?; simp)

lemma emit_heartbeat_evolves: "evolves env B s (snd (emit_heartbeat env t s))"
  unfolding emit_heartbeat_def Let_def sv_now_def
  by (auto split: sum.splits intro: evolves_frame intro!: evolves_step[OF _ _ _ _ _ own_event_evolves])

lemma create_checkpoint_evolves: "evolves env B s (snd (create_supervisor_checkpoint env s))"
  unfolding create_supervisor_checkpoint_def Let_def sv_now_def
  by (auto split: sum.splits intro: evolves_frame intro!: evolves_step[OF _ _ _ _ _ own_event_evolves])

lemma finalize_evolves: "evolves env B s (snd (finalize_tick env started l errors outcome s))"
  unfolding finalize_tick_def Let_def sv_now_def
  by (auto split: sum.splits intro!: evolves_frame simp: prune_history_def)

lemma complete_evolves: "evolves env B s (snd (complete_tick env started l errors outcome s))"
  unfolding complete_tick_def
  by (rule evolves_bind[OF finalize_evolves], rule evolves_bind)
     (auto intro!: evolves_bind emit_heartbeat_evolves create_checkpoint_evolves)

definition run_state :: "'w guarded_run \<Rightarrow> 'w supervisor" where
  "run_state r = fst (snd r)"

lemma run_state_simp [simp]: "run_state (k, s, l) = s"
  by (simp add: run_state_def)

lemma guarded_bind_evolves:
  assumes "evolves env B s (snd r)" and "\<And>x t. r = (Inr x, t) \<Longrightarrow> evolves env B t (run_state (f x t))"
  shows "evolves env B s (run_state (guarded_bind r l f))"
proof (cases r)
  case (Pair x t)
  show ?thesis
  proof (cases x)
    case (Inr y)
    have "evolves env B s t" "evolves env B t (run_state (f y t))" using assms Pair Inr by auto
    then show ?thesis using Pair Inr by (auto simp: guarded_bind_def intro: evolves_trans)
  qed (use assms(1) Pair in \<open>simp add: guarded_bind_def run_state_def\<close>)
qed

lemma resolve_frame [simp]: "sv_policy (resolve_livelocks s) = sv_policy s"
  "sv_obligations (resolve_livelocks s) = sv_obligations s" "sv_spine (resolve_livelocks s) = sv_spine s"
  "sv_processed (resolve_livelocks s) = sv_processed s" "sv_world (resolve_livelocks s) = sv_world s"
  by (simp_all add: resolve_livelocks_def)

lemma conclude_evolves: "evolves env B s (run_state (conclude env l s))"
  unfolding conclude_def Let_def
  by (rule guarded_bind_evolves[OF check_livelock_evolves]) (auto simp: run_state_def intro: evolves_frame)

lemma enter_evolves: "(t, k) = enter p (s, l) \<Longrightarrow> evolves env B s t"
  by (auto simp: enter_def intro: evolves_frame)

lemma work_evolves: "evolves env B s (run_state (work env new l s))"
proof -
  have e: "evolves env B (t\<lparr>sv_phase := p\<rparr>) u \<Longrightarrow> evolves env B t u" for t p u
    by (rule evolves_step) simp_all
  show ?thesis
    unfolding work_def enter_def Let_def case_prod_beta fst_conv snd_conv
    apply (rule e)
    apply (rule guarded_bind_evolves[OF evaluate_obligations_evolves])
    apply (rule e)
    apply (rule guarded_bind_evolves[OF check_deadlines_evolves])
    apply (rule e)
    apply (rule guarded_bind_evolves[OF process_events_evolves])
    apply (rule e, rule e)
    apply (rule conclude_evolves)
    done
qed


lemma poll_evolves: "evolves env B s (snd (poll_new_events s))"
  unfolding poll_new_events_def evolves_def event_ids_def
  by (auto intro: gate_none)

lemma poll_takes: "event_ids s \<subseteq> sv_processed (snd (poll_new_events s))"
  by (auto simp: poll_new_events_def event_ids_def)

text \<open>The guarded part: its effects, and what it consumes.\<close>

lemma guarded_part_evolves:
  "evolves env B s (run_state (guarded_part env started s)) \<and> event_ids s \<subseteq> sv_processed (run_state (guarded_part env started s))"
proof -
  define s1 where "s1 = s\<lparr>sv_phase := SP_POLLING\<rparr>"
  define s2 where "s2 = snd (poll_new_events s1)"
  have "evolves env B s s1" unfolding s1_def by (rule evolves_frame) simp_all
  also have "evolves env B s1 s2" unfolding s2_def by (rule poll_evolves)
  finally have a: "evolves env B s s2" .
  have c: "event_ids s \<subseteq> sv_processed s2"
    using poll_takes[of s1] unfolding s2_def s1_def by simp
  have "evolves env B s2 (run_state (guarded_part env started s))"
    unfolding guarded_part_def enter_def Let_def case_prod_beta fst_conv snd_conv s1_def[symmetric] s2_def[symmetric]
    by (cases "po_backpressure (sv_policy s2) < int (length (fst (poll_new_events s1)))")
       (simp_all only: if_True if_False, auto intro!: work_evolves guarded_bind_evolves evolves_step[OF _ _ _ _ _ finalize_evolves])
  then show ?thesis
    using a c evolves_trans unfolding evolves_def by blast
qed

lemma tick_evolves: "evolves env B s (snd (tick env s))"
proof (cases "sv_halted s")
  case True
  then show ?thesis
    unfolding tick_def halted_tick_def Let_def sv_now_def by (auto intro: evolves_frame)
next
  case False
  define s1 where "s1 = s\<lparr>sv_reads := Suc (sv_reads s)\<rparr>"
  have "evolves env B s s1" unfolding s1_def by (rule evolves_frame) simp_all
  also have "evolves env B s1 (run_state (guarded_part env (sr_clock env (sv_reads s)) s1))"
    using guarded_part_evolves by blast
  finally have g: "evolves env B s (run_state (guarded_part env (sr_clock env (sv_reads s)) s1))" .
  obtain k t l where r: "guarded_part env (sr_clock env (sv_reads s)) s1 = (k, t, l)"
    by (cases "guarded_part env (sr_clock env (sv_reads s)) s1") auto
  have e: "evolves env B t (fst (snd (on_error t l)))"
    unfolding on_error_def Let_def by (auto intro: evolves_frame)
  have "evolves env B t (snd (tick env s))"
    using False r e unfolding tick_def sv_now_def Let_def s1_def
    by (cases k) (auto intro: complete_evolves evolves_trans split: prod.splits)
  then show ?thesis
    using g r evolves_trans by simp blast
qed

lemma tick_consumes:
  assumes "\<not> sv_halted s"
  shows "event_ids s \<subseteq> sv_processed (snd (tick env s))"
proof -
  define s1 where "s1 = s\<lparr>sv_reads := Suc (sv_reads s)\<rparr>"
  obtain k t l where r: "guarded_part env (sr_clock env (sv_reads s)) s1 = (k, t, l)"
    by (cases "guarded_part env (sr_clock env (sv_reads s)) s1") auto
  have "event_ids s \<subseteq> sv_processed t"
    using guarded_part_evolves[of env "{}" s1 "sr_clock env (sv_reads s)"] r by (simp add: s1_def)
  also have "sv_processed t \<subseteq> sv_processed (snd (tick env s))"
  proof -
    have e: "sv_processed (fst (snd (on_error t l))) = sv_processed t"
      unfolding on_error_def Let_def by auto
    have c: "sv_processed u \<subseteq> sv_processed (snd (complete_tick env st l es oc u))" for st l es oc u
      using complete_evolves[of env "{}" u] unfolding evolves_def by blast
    show ?thesis
      using assms r e c unfolding tick_def sv_now_def Let_def s1_def
      by (cases k) (auto split: prod.splits intro: c[THEN subsetD])
  qed
  finally show ?thesis .
qed

end
