(* ===== verification/Supervisor_Tick.thy ===== *)
theory Supervisor_Tick
  imports Supervisor
begin

text \<open>
  What the ticks of the supervisor guarantee: the invariant of its variables, the end of a tick on
  every path, and the properties of runs in which other clients use the spine and the obligation
  engine between the ticks.
\<close>

section \<open>The supervisor's own variables\<close>

text \<open>Activating, expiring and reacting touch none of them, nor the spine.\<close>

definition internals where
  "internals s = (sv_policy s, sv_tick_number s, sv_phase s, sv_errors s, sv_idle s, sv_recent s, sv_livelocks s,
     sv_checkpoints s, sv_heartbeats s, sv_ticks s, sv_halted s, sv_spine s)"

lemma internals_bind:
  assumes "internals (snd r) = internals s" and "\<And>x t. internals t = internals s \<Longrightarrow> internals (snd (f x t)) = internals s"
  shows "internals (snd (act_bind r f)) = internals s"
  using assms by (auto simp: act_bind_def split: prod.splits sum.splits)

lemma decide_internals: "internals (snd (decide env a t c x reason s)) = internals s"
  unfolding decide_def safe_gate_def sv_now_def by (auto simp: internals_def split: prod.splits sum.splits)

lemma on_obligations_internals: "internals (snd (on_obligations env f s)) = internals s"
  by (simp add: on_obligations_def internals_def split_def Let_def)

lemma activate_pending_internals: "internals (snd (activate_pending env xs s)) = internals s"
  by (induction xs arbitrary: s)
     (auto intro!: internals_bind simp: decide_internals on_obligations_internals)

lemma expire_due_internals: "internals (snd (expire_due env now xs s)) = internals s"
  by (induction xs arbitrary: s)
     (auto intro!: internals_bind simp: decide_internals on_obligations_internals)

lemma fire_reactions_internals: "internals (snd (fire_reactions env e subs s)) = internals s"
  by (induction subs arbitrary: s) (auto intro!: internals_bind simp: decide_internals)

lemma process_each_internals: "internals (snd (process_each env es s)) = internals s"
  by (induction es arbitrary: s) (auto intro!: internals_bind simp: fire_reactions_internals)

lemma phase_internals:
  "internals (snd (evaluate_obligations env s)) = internals s"
  "internals (snd (check_deadlines env s)) = internals s"
  "internals (snd (process_events env es s)) = internals s"
  unfolding evaluate_obligations_def check_deadlines_def process_events_def sv_now_def Let_def
  by (auto intro!: internals_bind simp: activate_pending_internals expire_due_internals process_each_internals)
     (simp add: internals_def)

section \<open>The invariant of the supervisor\<close>

definition policy_ok :: "supervisor_policy \<Rightarrow> bool" where
  "policy_ok p \<longleftrightarrow> check_policy p = Inr p"

definition valid_clock :: "'w surroundings \<Rightarrow> bool" where
  "valid_clock env \<longleftrightarrow> (\<forall>n. time_ok (sr_clock env n))"

text \<open>With room for \<open>n\<close> livelock records.\<close>

definition bounded :: "nat \<Rightarrow> 'w supervisor \<Rightarrow> bool" where
  "bounded n s \<longleftrightarrow> 0 \<le> sv_tick_number s \<and> 0 \<le> sv_errors s \<and> 0 \<le> sv_idle s \<and>
     (sv_halted s \<longleftrightarrow> sv_phase s = SP_HALTED) \<and> (\<not> sv_halted s \<longrightarrow> sv_errors s < po_max_errors (sv_policy s)) \<and>
     int (length (sv_recent s)) \<le> 2 * po_livelock_threshold (sv_policy s) \<and>
     length (sv_ticks s) \<le> 1000 \<and> length (sv_heartbeats s) \<le> 501 \<and> length (sv_checkpoints s) \<le> 101 \<and>
     length (sv_livelocks s) \<le> n"

text \<open>The parts the supervisor works on.\<close>

definition parts_ok :: "'w supervisor \<Rightarrow> bool" where
  "parts_ok s \<longleftrightarrow> policy_ok (sv_policy s) \<and> spine_ok (sv_spine s) \<and> engine_ok (sv_obligations s) \<and>
     sv_processed s \<subseteq> event_ids s"

definition supervisor_ok :: "'w supervisor \<Rightarrow> bool" where
  "supervisor_ok s \<longleftrightarrow> parts_ok s \<and> bounded 200 s"

lemma policy_okD:
  assumes "policy_ok p"
  shows "0 < po_max_events p" "0 < po_max_actions p" "0 < po_backpressure p" "0 < po_livelock_threshold p"
    "0 < po_heartbeat_every p" "0 < po_checkpoint_every p" "0 < po_max_errors p"
  using assms by (auto simp: policy_ok_def check_policy_def py_bind_Inr_iff validators)

lemma bounded_internals: "internals t = internals s \<Longrightarrow> bounded n t = bounded n s"
  by (simp add: internals_def bounded_def)

lemma bounded_mono: "bounded n s \<Longrightarrow> n \<le> m \<Longrightarrow> bounded m s"
  by (simp add: bounded_def)

lemma supervisor_init_ok:
  assumes "check_policy p = Inr p" and "spine_ok sp" and "engine_ok ob"
  shows "supervisor_ok (supervisor_init p sp ob w)"
proof -
  have "policy_ok p" using assms by (simp add: policy_ok_def)
  from policy_okD[OF this] show ?thesis
    using assms by (simp add: supervisor_ok_def parts_ok_def supervisor_init_def bounded_def policy_ok_def)
qed

text \<open>What a tick keeps of the parts it works on follows from their own invariants.\<close>

lemma evolves_parts:
  assumes "evolves env B s t" and "parts_ok s"
  shows "parts_ok t"
proof -
  have "spine_ok (sv_spine t)" "engine_ok (sv_obligations t)"
    using assms unfolding evolves_def parts_ok_def by (blast intro: spine_run_ok obligation_run_ok)+
  moreover have "sv_processed t \<subseteq> event_ids t"
    using assms unfolding evolves_def parts_ok_def by (meson Un_least order_refl subset_trans)
  ultimately show ?thesis
    using assms unfolding evolves_def parts_ok_def by simp
qed

section \<open>The end of a tick\<close>

lemma length_py_tail: "0 < n \<Longrightarrow> int (length (py_tail n xs)) \<le> n"
  by (simp add: py_tail_def length_last_n)

lemma own_ids: "\<exists>i. stable_identifier ''tick'' p = Inr i \<and> \<not> blank i"
  "\<exists>i. stable_identifier ''evt'' p = Inr i \<and> \<not> blank i" "\<exists>i. stable_identifier ''hb'' p = Inr i \<and> \<not> blank i"
  "\<exists>i. stable_identifier ''cp'' p = Inr i \<and> \<not> blank i"
  by (rule stable_identifier_total, code_simp)+

definition locals_ok :: "tick_locals \<Rightarrow> bool" where
  "locals_ok l \<longleftrightarrow> 0 \<le> tl_polled l \<and> 0 \<le> tl_obligations l \<and> 0 \<le> tl_deadlines l \<and> 0 \<le> tl_reactions l"

text \<open>Finalizing cannot fail while the clock shows valid times.\<close>

definition ticked :: "'w supervisor \<Rightarrow> supervisor_tick \<Rightarrow> 'w supervisor \<Rightarrow> bool" where
  "ticked s t s' \<longleftrightarrow> ti_tick_number t = sv_tick_number s + 1 \<and>
     s' = prune_history (s\<lparr>sv_tick_number := sv_tick_number s + 1, sv_reads := Suc (sv_reads s), sv_ticks := sv_ticks s @ [t]\<rparr>)"

lemma finalize_total:
  assumes "valid_clock env" and "locals_ok l" and "time_ok started" and "0 \<le> sv_tick_number s"
  obtains t s' where "finalize_tick env started l errors outcome s = (Inr t, s')" and "ticked s t s'"
    and "ti_outcome t = outcome"
proof -
  obtain i where i: "stable_identifier ''tick'' [(''n'', JInt (sv_tick_number s + 1))] = Inr i" "\<not> blank i"
    using own_ids(1) by blast
  define t where "t = \<lparr>ti_tick_id = i, ti_tick_number = sv_tick_number s + 1, ti_phases = tl_phases l,
                     ti_events_polled = tl_polled l, ti_obligations_evaluated = tl_obligations l,
                     ti_deadlines_checked = tl_deadlines l, ti_reactions_fired = tl_reactions l,
                     ti_decisions = take (nat (po_max_actions (sv_policy s))) (tl_decisions l), ti_outcome = outcome,
                     ti_errors = errors, ti_started_at = started, ti_completed_at = sr_clock env (sv_reads s)\<rparr>"
  have "check_tick t = Inr t"
    using assms i by (auto simp: check_tick_def t_def py_bind_Inr_iff validators locals_ok_def valid_clock_def time_ok_def)
  then have "finalize_tick env started l errors outcome s =
     (Inr t, prune_history (s\<lparr>sv_tick_number := sv_tick_number s + 1, sv_reads := Suc (sv_reads s), sv_ticks := sv_ticks s @ [t]\<rparr>))"
    using i by (simp add: finalize_tick_def sv_now_def Let_def t_def)
  then show ?thesis using that by (simp add: ticked_def t_def)
qed

lemma ticked_bounded: "ticked s t s' \<Longrightarrow> bounded n s \<Longrightarrow> bounded 200 s'"
  by (auto simp: ticked_def bounded_def prune_history_def length_last_n)

section \<open>The supervisor's own events\<close>

definition own_event_id :: "string \<Rightarrow> int \<Rightarrow> string" where
  "own_event_id kind n = (case stable_identifier ''evt'' [(''type'', JStr kind), (''tick'', JInt n)] of
     Inr i \<Rightarrow> i | Inl e \<Rightarrow> [])"

definition event_present :: "spine \<Rightarrow> string \<Rightarrow> bool" where
  "event_present sp i \<longleftrightarrow> dict_get (sp_events sp) i \<noteq> None"

definition already_exists :: py_error where
  "already_exists = RuntimeCoreInvariantError ''event already exists''"

lemma emit_own_frame2: "\<exists>n sp. snd (emit_own env kind ty corr p s) = s\<lparr>sv_reads := n, sv_spine := sp\<rparr> \<and>
    (sp = sv_spine s \<or> (\<exists>e. sp = (sv_spine s)\<lparr>sp_events := sp_events (sv_spine s) @ [(own_event_id kind (sv_tick_number s), e)]\<rparr>))"
proof (cases "stable_identifier ''evt'' [(''type'', JStr kind), (''tick'', JInt (sv_tick_number s))]")
  case (Inl e)
  have "snd (emit_own env kind ty corr p s) = s\<lparr>sv_reads := sv_reads s, sv_spine := sv_spine s\<rparr>"
    using Inl by (simp add: emit_own_def)
  then show ?thesis by blast
next
  case (Inr i)
  let ?e = "EventRecord (PStr i) (PEnum ''EventType'' (event_type_value ty))
      (PEnum ''EventSource'' (event_source_value ES_SUPERVISOR)) (PStr (corr @ int_str (sv_tick_number s)))
      (PDict p) (PStr (sr_clock env (sv_reads s)))"
  show ?thesis
  proof (cases ?e)
    case (Inl x)
    then have "snd (emit_own env kind ty corr p s) = s\<lparr>sv_reads := Suc (sv_reads s), sv_spine := sv_spine s\<rparr>"
      using Inr by (simp add: emit_own_def sv_now_def)
    then show ?thesis by blast
  next
    case Inr2: (Inr e)
    then have "ev_event_id e = own_event_id kind (sv_tick_number s)"
      using Inr by (auto simp: EventRecord_def py_bind_Inr_iff validators own_event_id_def)
    then have "snd (emit (sv_spine s) e) = sv_spine s \<or> snd (emit (sv_spine s) e) =
       (sv_spine s)\<lparr>sp_events := sp_events (sv_spine s) @ [(own_event_id kind (sv_tick_number s), e)]\<rparr>"
      using emit_events(1)[of "sv_spine s" e] by simp
    moreover have "snd (emit_own env kind ty corr p s) =
       s\<lparr>sv_reads := Suc (sv_reads s), sv_spine := snd (emit (sv_spine s) e)\<rparr>"
      using Inr Inr2 by (simp add: emit_own_def sv_now_def split_def Let_def)
    ultimately show ?thesis by blast
  qed
qed

text \<open>An own event is emitted unless one of its identifier is there.\<close>

lemma emit_own_total:
  assumes "valid_clock env" and "\<not> blank (corr @ int_str (sv_tick_number s))"
  shows "\<not> event_present (sv_spine s) (own_event_id kind (sv_tick_number s)) \<Longrightarrow> \<exists>e t. emit_own env kind ty corr p s = (Inr e, t)"
    and "event_present (sv_spine s) (own_event_id kind (sv_tick_number s)) \<Longrightarrow> fst (emit_own env kind ty corr p s) = Inl already_exists"
proof -
  obtain i where i: "stable_identifier ''evt'' [(''type'', JStr kind), (''tick'', JInt (sv_tick_number s))] = Inr i" "\<not> blank i"
    using own_ids(2) by blast
  have "time_ok (sr_clock env (sv_reads s))" using assms(1) by (simp add: valid_clock_def)
  then obtain e where e: "EventRecord (PStr i) (PEnum ''EventType'' (event_type_value ty))
      (PEnum ''EventSource'' (event_source_value ES_SUPERVISOR)) (PStr (corr @ int_str (sv_tick_number s)))
      (PDict p) (PStr (sr_clock env (sv_reads s))) = Inr e"
    using i assms(2) by (simp add: EventRecord_def py_bind_Inr_iff validators time_ok_def del: event_source_value.simps)
  then have "ev_event_id e = i" by (auto simp: EventRecord_def py_bind_Inr_iff validators)
  then show "\<not> event_present (sv_spine s) (own_event_id kind (sv_tick_number s)) \<Longrightarrow> \<exists>e t. emit_own env kind ty corr p s = (Inr e, t)"
    and "event_present (sv_spine s) (own_event_id kind (sv_tick_number s)) \<Longrightarrow> fst (emit_own env kind ty corr p s) = Inl already_exists"
    using i e by (auto simp: emit_own_def sv_now_def own_event_id_def emit_def already_exists_def event_present_def)
qed

lemma emit_own_keeps:
  "bounded n (snd (emit_own env kind ty corr p s)) = bounded n s"
  "sv_tick_number (snd (emit_own env kind ty corr p s)) = sv_tick_number s"
  "event_present (sv_spine (snd (emit_own env kind ty corr p s))) k \<Longrightarrow> event_present (sv_spine s) k \<or> k = own_event_id kind (sv_tick_number s)"
proof -
  obtain m sp where f: "snd (emit_own env kind ty corr p s) = s\<lparr>sv_reads := m, sv_spine := sp\<rparr>"
    and sp: "sp = sv_spine s \<or> (\<exists>e. sp = (sv_spine s)\<lparr>sp_events := sp_events (sv_spine s) @ [(own_event_id kind (sv_tick_number s), e)]\<rparr>)"
    using emit_own_frame2 by blast
  show "bounded n (snd (emit_own env kind ty corr p s)) = bounded n s"
    "sv_tick_number (snd (emit_own env kind ty corr p s)) = sv_tick_number s" by (simp_all add: f bounded_def)
  assume "event_present (sv_spine (snd (emit_own env kind ty corr p s))) k"
  with sp show "event_present (sv_spine s) k \<or> k = own_event_id kind (sv_tick_number s)"
    by (auto simp: f event_present_def map_of_eq_None_iff)
qed

lemma bounded_bind:
  "bounded n (snd r) \<Longrightarrow> (\<And>x t. bounded n t \<Longrightarrow> bounded n (snd (f x t))) \<Longrightarrow> bounded n (snd (act_bind r f))"
  by (auto simp: act_bind_def split: prod.splits sum.splits)

lemma check_livelock_bounded:
  assumes "bounded 200 s" and "policy_ok (sv_policy s)" and "\<not> sv_halted s"
  shows "bounded 201 (snd (check_livelock env outcome s))"
proof -
  define p where "p = sv_policy s"
  define s1 where "s1 = s\<lparr>sv_recent := next_recent p (sv_recent s) outcome\<rparr>"
  have thr: "0 < po_livelock_threshold p" using assms(2) policy_okD(4) unfolding p_def by blast
  have b: "bounded 200 s1"
    using assms(1) thr length_py_tail[of "2 * po_livelock_threshold p" "sv_recent s @ [outcome]"]
    by (simp add: s1_def p_def bounded_def next_recent_def)
  have "bounded 201 (apply_strategy (s1\<lparr>sv_reads := n, sv_livelocks := sv_livelocks s1 @ [l]\<rparr>))" for n l
    using b assms(3) unfolding apply_strategy_def bounded_def
    by (auto simp: s1_def split: livelock_strategy.splits)
  then have e: "bounded 201 (snd (emit_own env k ty c q (apply_strategy (s1\<lparr>sv_reads := n, sv_livelocks := sv_livelocks s1 @ [l]\<rparr>))))"
    for k ty c q n l
    by (simp add: emit_own_keeps(1))
  then have "bounded 201 (snd (act_bind (emit_own env k ty c q (apply_strategy (s1\<lparr>sv_reads := n, sv_livelocks := sv_livelocks s1 @ [l]\<rparr>)))
       (\<lambda>_ s. (Inr True, s\<lparr>sv_recent := []\<rparr>))))" for k ty c q n l
    by (rule bounded_bind) (auto simp: bounded_def)
  moreover have "bounded 201 s1" "bounded 201 (s1\<lparr>sv_reads := n\<rparr>)" for n
    using b by (simp_all add: bounded_def)
  ultimately show ?thesis
    unfolding check_livelock_def Let_def sv_now_def p_def[symmetric] s1_def[symmetric]
    by (auto split: sum.splits simp: s1_def p_def)
qed

lemma check_livelock_policy: "sv_policy (snd (check_livelock env outcome s)) = sv_policy s"
  using check_livelock_evolves unfolding evolves_def by blast

lemma check_livelock_keeps:
  "sv_tick_number (snd (check_livelock env outcome s)) = sv_tick_number s"
  "event_present (sv_spine (snd (check_livelock env outcome s))) k \<Longrightarrow>
     event_present (sv_spine s) k \<or> k = own_event_id ''livelock'' (sv_tick_number s)"
proof -
  have e: "sv_tick_number (snd (act_bind (emit_own env k ty c q u) (\<lambda>_ s. (Inr True, s\<lparr>sv_recent := []\<rparr>)))) = sv_tick_number u"
    "event_present (sv_spine (snd (act_bind (emit_own env k ty c q u) (\<lambda>_ s. (Inr True, s\<lparr>sv_recent := []\<rparr>))))) i \<Longrightarrow>
       event_present (sv_spine u) i \<or> i = own_event_id k (sv_tick_number u)"
    for k ty c q u i
    using emit_own_keeps(2)[of env k ty c q u] emit_own_keeps(3)[of env k ty c q u i]
    by (auto simp: act_bind_def split: prod.splits sum.splits)
  show "sv_tick_number (snd (check_livelock env outcome s)) = sv_tick_number s"
    unfolding check_livelock_def Let_def sv_now_def by (auto split: sum.splits simp: e(1))
  show "event_present (sv_spine (snd (check_livelock env outcome s))) k \<Longrightarrow>
     event_present (sv_spine s) k \<or> k = own_event_id ''livelock'' (sv_tick_number s)"
    unfolding check_livelock_def Let_def sv_now_def by (auto split: sum.splits if_splits dest: e(2))
qed

text \<open>How the guarded part ends.\<close>

definition ends_well :: "'w surroundings \<Rightarrow> 'w supervisor \<Rightarrow> 'w guarded_run \<Rightarrow> bool" where
  "ends_well env s r \<longleftrightarrow> (case r of (k, t, l) \<Rightarrow> locals_ok l \<and>
     (\<forall>i. event_present (sv_spine t) i \<longrightarrow> event_present (sv_spine s) i \<or> i = own_event_id ''livelock'' (sv_tick_number s)) \<and>
     (case k of
        Returned tk \<Rightarrow> bounded 200 t \<and> ti_tick_number tk = sv_tick_number s + 1 \<and> sv_tick_number t = sv_tick_number s + 1
      | _ \<Rightarrow> bounded 201 t \<and> sv_tick_number t = sv_tick_number s))"

lemma ends_well_bind:
  assumes "locals_ok l" and "bounded 201 (snd r)" and "sv_tick_number (snd r) = sv_tick_number s"
    and "\<And>i. event_present (sv_spine (snd r)) i \<Longrightarrow> event_present (sv_spine s) i \<or> i = own_event_id ''livelock'' (sv_tick_number s)"
    and "\<And>x t. r = (Inr x, t) \<Longrightarrow> ends_well env s (f x t)"
  shows "ends_well env s (guarded_bind r l f)"
  using assms by (cases r) (auto simp: guarded_bind_def ends_well_def split: sum.splits)

lemma conclude_well:
  assumes "bounded 200 s" and "policy_ok (sv_policy s)" and "\<not> sv_halted s" and "locals_ok l"
  shows "ends_well env s (conclude env l s)"
  unfolding conclude_def Let_def
proof (rule ends_well_bind[OF assms(4) check_livelock_bounded[OF assms(1-3)] check_livelock_keeps(1)], erule check_livelock_keeps(2))
  fix b t
  let ?o = "if 0 < tl_polled l \<or> 0 < tl_obligations l \<or> 0 < tl_reactions l \<or> list_ex de_approved (tl_decisions l)
      then TO_WORK_DONE else TO_IDLE_TICK"
  assume c: "check_livelock env ?o s = (Inr b, t)"
  have "bounded 201 t" "sv_tick_number t = sv_tick_number s" "sv_policy t = sv_policy s"
    "\<And>i. event_present (sv_spine t) i \<Longrightarrow> event_present (sv_spine s) i \<or> i = own_event_id ''livelock'' (sv_tick_number s)"
    using check_livelock_bounded[OF assms(1-3), of env ?o] check_livelock_keeps[of env ?o s]
      check_livelock_policy[of env ?o s] unfolding c by simp_all
  moreover have "0 < po_max_errors (sv_policy s)" using assms(2) by (rule policy_okD(7))
  ultimately show "ends_well env s
     (Done (if b then TO_LIVELOCK_DETECTED else ?o),
      (if (if b then TO_LIVELOCK_DETECTED else ?o) = TO_WORK_DONE then resolve_livelocks t else t)
      \<lparr>sv_idle := if (if b then TO_LIVELOCK_DETECTED else ?o) = TO_IDLE_TICK
         then sv_idle (if (if b then TO_LIVELOCK_DETECTED else ?o) = TO_WORK_DONE then resolve_livelocks t else t) + 1 else 0,
         sv_errors := 0\<rparr>,
      if b then l\<lparr>tl_phases := tl_phases l @ [SP_DEGRADED]\<rparr> else l)"
    using assms(4) by (auto simp: ends_well_def bounded_def resolve_livelocks_def locals_ok_def)
qed

text \<open>Within the phases: the variables are as at the start, up to the phase.\<close>

definition working :: "'w supervisor \<Rightarrow> 'w supervisor \<Rightarrow> bool" where
  "working s t \<longleftrightarrow> bounded 200 t \<and> sv_policy t = sv_policy s \<and> sv_tick_number t = sv_tick_number s \<and> \<not> sv_halted t \<and>
     sv_spine t = sv_spine s"

lemma working_internals: "working s t \<Longrightarrow> internals u = internals t \<Longrightarrow> working s u"
  using bounded_internals[of u t 200] by (simp add: working_def internals_def)

lemma working_phase: "working s t \<Longrightarrow> p \<noteq> SP_HALTED \<Longrightarrow> working s (t\<lparr>sv_phase := p\<rparr>)"
  by (auto simp: working_def bounded_def)

lemma ends_well_stage:
  assumes "working s t" and "locals_ok l" and "internals (snd r) = internals t"
    and "\<And>x u. r = (Inr x, u) \<Longrightarrow> working s u \<Longrightarrow> ends_well env s (f x u)"
  shows "ends_well env s (guarded_bind r l f)"
proof -
  have w: "working s (snd r)" using assms(1,3) by (rule working_internals)
  show ?thesis
    by (rule ends_well_bind) (use w assms(2,4) bounded_mono[of 200 "snd r" 201] in \<open>auto simp: working_def\<close>)
qed

lemma bind_InrE:
  assumes "act_bind r f = (Inr y, u)"
  obtains x t where "r = (Inr x, t)" and "f x t = (Inr y, u)"
  using assms by (auto simp: act_bind_def split: prod.splits sum.splits)

lemma stage_counts:
  "evaluate_obligations env s = (Inr (ds, n), t) \<Longrightarrow> 0 \<le> n"
  "check_deadlines env s = (Inr (ds, n), t) \<Longrightarrow> 0 \<le> n"
  "process_events env es s = (Inr (ds, n), t) \<Longrightarrow> 0 \<le> n"
  unfolding evaluate_obligations_def check_deadlines_def process_events_def sv_now_def Let_def
  by (auto elim!: bind_InrE)

lemma work_well:
  assumes "working s t" and "policy_ok (sv_policy s)" and "locals_ok l"
  shows "ends_well env s (work env new l t)"
proof -
  let ?e = "\<lambda>p l. l\<lparr>tl_phases := tl_phases l @ [p]\<rparr>"
  have e: "locals_ok (?e p l) = locals_ok l" for p l by (simp add: locals_ok_def)
  have last: "ends_well env s (conclude env l u)" if "working s u" "locals_ok l" for l u
  proof -
    have "ends_well env u (conclude env l u)"
      using that assms(2) by (intro conclude_well) (simp_all add: working_def)
    then show ?thesis using that(1) by (cases "conclude env l u") (auto simp: ends_well_def working_def split: guarded.splits)
  qed
  show ?thesis
    unfolding work_def enter_def Let_def case_prod_beta fst_conv snd_conv
    apply (rule ends_well_stage[OF _ _ phase_internals(1)])
    apply (rule working_phase[OF assms(1)], simp)
    apply (simp add: e assms(3))
    apply (rule ends_well_stage[OF _ _ phase_internals(2)])
    apply (erule working_phase, simp)
    subgoal for x u using assms(3) by (cases x) (auto simp: locals_ok_def dest: stage_counts(1))
    apply (rule ends_well_stage[OF _ _ phase_internals(3)])
    apply (erule working_phase, simp)
    subgoal for x u y v using assms(3) by (cases x, cases y) (auto simp: locals_ok_def dest: stage_counts(1,2))
    apply (rule last)
    apply (intro working_phase; simp)
    subgoal for x u y v z w
      using assms(3) by (cases x, cases y, cases z) (auto simp: locals_ok_def dest: stage_counts)
    done
qed

lemma guarded_part_well:
  assumes "supervisor_ok s" and "\<not> sv_halted s" and "valid_clock env" and "time_ok started"
  shows "ends_well env s (guarded_part env started s)"
proof -
  define s1 where "s1 = s\<lparr>sv_phase := SP_POLLING\<rparr>"
  define s2 where "s2 = snd (poll_new_events s1)"
  define new where "new = fst (poll_new_events s1)"
  define l where "l = no_locals\<lparr>tl_phases := tl_phases no_locals @ [SP_POLLING], tl_polled := int (length new)\<rparr>"
  have p: "policy_ok (sv_policy s)" using assms(1) by (simp add: supervisor_ok_def parts_ok_def)
  have "working s s1"
    using assms(1,2) unfolding s1_def by (intro working_phase) (simp_all add: working_def supervisor_ok_def parts_ok_def)
  moreover have "internals s2 = internals s1" by (simp add: s2_def poll_new_events_def internals_def)
  ultimately have w: "working s s2" by (rule working_internals)
  have l: "locals_ok l" by (simp add: l_def no_locals_def locals_ok_def)
  let ?s = "s2\<lparr>sv_phase := SP_DEGRADED\<rparr>" and ?l = "l\<lparr>tl_phases := tl_phases l @ [SP_DEGRADED]\<rparr>"
  have wd: "working s ?s" using w by (intro working_phase) simp_all
  have ld: "locals_ok ?l" using l by (simp add: locals_ok_def)
  obtain t s' where f: "finalize_tick env started ?l [] TO_BACKPRESSURE_APPLIED ?s = (Inr t, s')" "ticked ?s t s'"
    using wd finalize_total[OF assms(3) ld assms(4)] unfolding working_def bounded_def by blast
  have "ends_well env s (Returned t, s', ?l)"
    using ticked_bounded[OF f(2), of 200] f(2) wd ld by (simp add: ends_well_def working_def ticked_def prune_history_def)
  then show ?thesis
    unfolding guarded_part_def enter_def Let_def case_prod_beta fst_conv snd_conv s1_def[symmetric]
      s2_def[symmetric] new_def[symmetric] l_def[symmetric]
    using f(1) work_well[OF w p l] by (auto simp: guarded_bind_def)
qed

lemma letter_not_space: "\<not> py_isspace CHR ''s''"
  by code_simp

section \<open>Heartbeat and checkpoint of a tick\<close>

text \<open>Emitting an own event and marking it as processed: what changes, and when it works.\<close>

definition fields where
  "fields s = (sv_policy s, sv_tick_number s, sv_phase s, sv_errors s, sv_idle s, sv_recent s, sv_livelocks s,
     sv_checkpoints s, sv_heartbeats s, sv_ticks s, sv_halted s)"

lemma own_event_keeps:
  "fields (snd (act_bind (emit_own env kind ty corr p s) (\<lambda>e t. (Inr x, own_processed e t)))) = fields s"
  "event_present (sv_spine (snd (act_bind (emit_own env kind ty corr p s) (\<lambda>e t. (Inr x, own_processed e t))))) k \<Longrightarrow>
     event_present (sv_spine s) k \<or> k = own_event_id kind (sv_tick_number s)"
proof -
  obtain m sp where f: "snd (emit_own env kind ty corr p s) = s\<lparr>sv_reads := m, sv_spine := sp\<rparr>"
    using emit_own_frame2 by blast
  have e: "event_present sp k \<Longrightarrow> event_present (sv_spine s) k \<or> k = own_event_id kind (sv_tick_number s)"
    using emit_own_keeps(3)[of env kind ty corr p s k] f by auto
  show "fields (snd (act_bind (emit_own env kind ty corr p s) (\<lambda>e t. (Inr x, own_processed e t)))) = fields s"
    using f by (auto simp: act_bind_def fields_def own_processed_def split: prod.splits sum.splits)
  show "event_present (sv_spine (snd (act_bind (emit_own env kind ty corr p s) (\<lambda>e t. (Inr x, own_processed e t))))) k \<Longrightarrow>
     event_present (sv_spine s) k \<or> k = own_event_id kind (sv_tick_number s)"
    using f e by (auto simp: act_bind_def own_processed_def split: prod.splits sum.splits)
qed

lemma own_event_total:
  assumes "valid_clock env" and "\<not> blank (corr @ int_str (sv_tick_number s))"
  shows "fst (act_bind (emit_own env kind ty corr p s) (\<lambda>e t. (Inr x, own_processed e t))) =
     (if event_present (sv_spine s) (own_event_id kind (sv_tick_number s)) then Inl already_exists else Inr x)"
proof (cases "event_present (sv_spine s) (own_event_id kind (sv_tick_number s))")
  case True
  from emit_own_total(2)[where ty = ty and p = p, OF assms True] show ?thesis
    using True by (cases "emit_own env kind ty corr p s") (simp add: act_bind_def)
next
  case False
  from emit_own_total(1)[where ty = ty and p = p, OF assms False] show ?thesis
    using False by (auto simp: act_bind_def)
qed

lemma pending_count_ok:
  assumes "parts_ok s"
  shows "0 \<le> pending_count s"
proof -
  have "card (sv_processed s) \<le> card (event_ids s)"
    using assms by (intro card_mono) (auto simp: parts_ok_def event_ids_def)
  also have "\<dots> \<le> length (sp_events (sv_spine s))"
    unfolding event_ids_def using card_length[of "map (ev_event_id \<circ> snd) (sp_events (sv_spine s))"]
    by (simp add: image_comp)
  finally show ?thesis by (simp add: pending_count_def)
qed

lemma heartbeat_keeps:
  "\<exists>hbs. fields (snd (emit_heartbeat env t s)) = fields (s\<lparr>sv_heartbeats := hbs\<rparr>) \<and> length hbs \<le> Suc (length (sv_heartbeats s))"
  "event_present (sv_spine (snd (emit_heartbeat env t s))) k \<Longrightarrow>
     event_present (sv_spine s) k \<or> k = own_event_id ''heartbeat'' (sv_tick_number s)"
proof -
  have a: "\<exists>hbs. fields s = fields (s\<lparr>sv_heartbeats := hbs\<rparr>) \<and> length hbs \<le> Suc (length (sv_heartbeats s))"
    "\<exists>hbs. fields (s\<lparr>sv_reads := n\<rparr>) = fields (s\<lparr>sv_heartbeats := hbs\<rparr>) \<and> length hbs \<le> Suc (length (sv_heartbeats s))"
    "\<exists>hbs. fields (s\<lparr>sv_reads := n, sv_heartbeats := sv_heartbeats s @ [hb]\<rparr>) = fields (s\<lparr>sv_heartbeats := hbs\<rparr>) \<and>
       length hbs \<le> Suc (length (sv_heartbeats s))" for n hb
    subgoal by (rule exI[of _ "sv_heartbeats s"]) (simp add: fields_def)
    subgoal by (rule exI[of _ "sv_heartbeats s"]) (simp add: fields_def)
    subgoal by (rule exI[of _ "sv_heartbeats s @ [hb]"]) (simp add: fields_def)
    done
  show "\<exists>hbs. fields (snd (emit_heartbeat env t s)) = fields (s\<lparr>sv_heartbeats := hbs\<rparr>) \<and> length hbs \<le> Suc (length (sv_heartbeats s))"
    unfolding emit_heartbeat_def Let_def sv_now_def using a by (auto split: sum.splits simp: own_event_keeps(1))
  show "event_present (sv_spine (snd (emit_heartbeat env t s))) k \<Longrightarrow>
     event_present (sv_spine s) k \<or> k = own_event_id ''heartbeat'' (sv_tick_number s)"
    unfolding emit_heartbeat_def Let_def sv_now_def by (auto split: sum.splits dest: own_event_keeps(2))
qed

lemma checkpoint_keeps:
  "\<exists>cps. fields (snd (create_supervisor_checkpoint env s)) = fields (s\<lparr>sv_checkpoints := cps\<rparr>) \<and>
     length cps \<le> Suc (length (sv_checkpoints s))"
  "event_present (sv_spine (snd (create_supervisor_checkpoint env s))) k \<Longrightarrow>
     event_present (sv_spine s) k \<or> k = own_event_id ''checkpoint'' (sv_tick_number s)"
proof -
  have a: "\<exists>cps. fields s = fields (s\<lparr>sv_checkpoints := cps\<rparr>) \<and> length cps \<le> Suc (length (sv_checkpoints s))"
    "\<exists>cps. fields (s\<lparr>sv_reads := n\<rparr>) = fields (s\<lparr>sv_checkpoints := cps\<rparr>) \<and> length cps \<le> Suc (length (sv_checkpoints s))"
    "\<exists>cps. fields (s\<lparr>sv_reads := n, sv_checkpoints := sv_checkpoints s @ [cp]\<rparr>) = fields (s\<lparr>sv_checkpoints := cps\<rparr>) \<and>
       length cps \<le> Suc (length (sv_checkpoints s))" for n cp
    subgoal by (rule exI[of _ "sv_checkpoints s"]) (simp add: fields_def)
    subgoal by (rule exI[of _ "sv_checkpoints s"]) (simp add: fields_def)
    subgoal by (rule exI[of _ "sv_checkpoints s @ [cp]"]) (simp add: fields_def)
    done
  show "\<exists>cps. fields (snd (create_supervisor_checkpoint env s)) = fields (s\<lparr>sv_checkpoints := cps\<rparr>) \<and>
     length cps \<le> Suc (length (sv_checkpoints s))"
    unfolding create_supervisor_checkpoint_def Let_def sv_now_def using a
    by (auto split: sum.splits simp: own_event_keeps(1))
  show "event_present (sv_spine (snd (create_supervisor_checkpoint env s))) k \<Longrightarrow>
     event_present (sv_spine s) k \<or> k = own_event_id ''checkpoint'' (sv_tick_number s)"
    unfolding create_supervisor_checkpoint_def Let_def sv_now_def by (auto split: sum.splits dest: own_event_keeps(2))
qed

text \<open>Both work unless an event of their identifier is there.\<close>

lemma heartbeat_total:
  assumes "valid_clock env" and "parts_ok s" and "0 \<le> sv_tick_number s"
  shows "if event_present (sv_spine s) (own_event_id ''heartbeat'' (sv_tick_number s))
    then fst (emit_heartbeat env t s) = Inl already_exists else \<exists>hb. fst (emit_heartbeat env t s) = Inr hb"
proof -
  obtain i where i: "stable_identifier ''hb'' [(''tick'', JInt (sv_tick_number s))] = Inr i" "\<not> blank i"
    using own_ids(3) by blast
  let ?s = "s\<lparr>sv_reads := Suc (sv_reads s)\<rparr>"
  define hb where "hb = \<lparr>hb_heartbeat_id = i, hb_tick_number = sv_tick_number s, hb_phase = sv_phase s,
                    hb_outcome = ti_outcome t, hb_open_obligations = open_count (sv_obligations s),
                    hb_pending_events = pending_count s, hb_emitted_at = sr_clock env (sv_reads s)\<rparr>"
  have "check_heartbeat hb = Inr hb"
    using assms i pending_count_ok[OF assms(2)]
    by (auto simp: check_heartbeat_def hb_def py_bind_Inr_iff validators valid_clock_def time_ok_def open_count_def)
  moreover have "pending_count ?s = pending_count s" by (simp add: pending_count_def)
  ultimately have "emit_heartbeat env t s = act_bind (emit_own env ''heartbeat'' ET_SUPERVISOR_HEARTBEAT ''supervisor-heartbeat-''
     [(''tick_number'', PInt (sv_tick_number s)), (''outcome'', PStr (outcome_value (ti_outcome t)))]
     (?s\<lparr>sv_heartbeats := sv_heartbeats s @ [hb]\<rparr>)) (\<lambda>evt s. (Inr hb, own_processed evt s))"
    using i by (simp add: emit_heartbeat_def sv_now_def Let_def hb_def)
  moreover have "\<not> blank (''supervisor-heartbeat-'' @ int_str (sv_tick_number s))"
    by (simp add: blank_iff letter_not_space)
  ultimately show ?thesis
    using own_event_total[where x = hb, OF assms(1), of "''supervisor-heartbeat-''" "?s\<lparr>sv_heartbeats := sv_heartbeats s @ [hb]\<rparr>"] by simp
qed

lemma checkpoint_total:
  assumes "valid_clock env" and "parts_ok s" and "0 \<le> sv_tick_number s" and "0 \<le> sv_errors s" and "0 \<le> sv_idle s"
  shows "if event_present (sv_spine s) (own_event_id ''checkpoint'' (sv_tick_number s))
    then fst (create_supervisor_checkpoint env s) = Inl already_exists
    else \<exists>cp. fst (create_supervisor_checkpoint env s) = Inr cp"
proof -
  obtain i where i: "stable_identifier ''cp'' [(''tick'', JInt (sv_tick_number s))] = Inr i" "\<not> blank i"
    using own_ids(4) by blast
  let ?s = "s\<lparr>sv_reads := Suc (sv_reads s)\<rparr>"
  let ?open = "obligations_in (sv_obligations s) OS_ACTIVE @ obligations_in (sv_obligations s) OS_PENDING"
  define cp where "cp = \<lparr>cp_checkpoint_id = i, cp_tick_number = sv_tick_number s, cp_phase = sv_phase s,
                       cp_status = CS_VALID, cp_open_obligation_ids = map ob_obligation_id ?open,
                       cp_pending_event_count = max 0 (pending_count s), cp_consecutive_errors = sv_errors s,
                       cp_consecutive_idle_ticks = sv_idle s, cp_recent_outcomes = last_n 10 (sv_recent s),
                       cp_state_hash = supervisor_hash s, cp_created_at = sr_clock env (sv_reads s)\<rparr>"
  have "\<forall>x \<in> set (dict_values (eg_obligations (sv_obligations s))). \<not> blank (ob_obligation_id x)"
    using assms(2) filed_all by (fastforce simp: parts_ok_def engine_ok_def stored_ok_def obligation_ok_def)
  then have "\<not> list_ex blank (map ob_obligation_id ?open)"
    by (auto simp: list_ex_iff obligations_in_def)
  then have "check_checkpoint cp = Inr cp"
    using assms i by (auto simp: check_checkpoint_def cp_def py_bind_Inr_iff validators valid_clock_def time_ok_def
        supervisor_hash_def sha256_hex_not_blank)
  moreover have "pending_count ?s = pending_count s" by (simp add: pending_count_def)
  ultimately have "create_supervisor_checkpoint env s =
     act_bind (emit_own env ''checkpoint'' ET_SUPERVISOR_CHECKPOINT ''supervisor-checkpoint-''
       [(''checkpoint_id'', PStr i), (''state_hash'', PStr (supervisor_hash s))]
     (?s\<lparr>sv_checkpoints := sv_checkpoints s @ [cp]\<rparr>)) (\<lambda>evt s. (Inr cp, own_processed evt s))"
    using i by (simp add: create_supervisor_checkpoint_def sv_now_def Let_def cp_def)
  moreover have "\<not> blank (''supervisor-checkpoint-'' @ int_str (sv_tick_number s))"
    by (simp add: blank_iff letter_not_space)
  ultimately show ?thesis
    using own_event_total[where x = cp, OF assms(1), of "''supervisor-checkpoint-''" "?s\<lparr>sv_checkpoints := sv_checkpoints s @ [cp]\<rparr>"] by simp
qed

section \<open>The whole tick\<close>

text \<open>
  An own event of the tick can clash with one that is there only if somebody else used its
  identifier or two identifiers of the tick are the same text.
\<close>

definition heartbeat_due :: "'w supervisor \<Rightarrow> bool" where
  "heartbeat_due s \<longleftrightarrow> (sv_tick_number s + 1) mod po_heartbeat_every (sv_policy s) = 0"

definition checkpoint_due :: "'w supervisor \<Rightarrow> bool" where
  "checkpoint_due s \<longleftrightarrow> (sv_tick_number s + 1) mod po_checkpoint_every (sv_policy s) = 0"

definition own_event_clash :: "'w supervisor \<Rightarrow> bool" where
  "own_event_clash s \<longleftrightarrow> (let n = sv_tick_number s; hb = own_event_id ''heartbeat'' (n + 1);
       cp = own_event_id ''checkpoint'' (n + 1); ll = own_event_id ''livelock'' n
     in heartbeat_due s \<and> (event_present (sv_spine s) hb \<or> hb = ll) \<or>
        checkpoint_due s \<and> (event_present (sv_spine s) cp \<or> cp = ll) \<or>
        heartbeat_due s \<and> checkpoint_due s \<and> hb = cp)"

text \<open>What the end of a tick, with heartbeat and checkpoint, does.\<close>

definition completes :: "'w supervisor \<Rightarrow> int \<Rightarrow> supervisor_tick py \<times> 'w supervisor \<Rightarrow> bool" where
  "completes s n ru \<longleftrightarrow> bounded 200 (snd ru) \<and> sv_tick_number (snd ru) = n \<and>
     ((\<exists>t. fst ru = Inr t \<and> ti_tick_number t = n) \<or>
      fst ru = Inl already_exists \<and>
        (heartbeat_due s \<and> event_present (sv_spine s) (own_event_id ''heartbeat'' n) \<or>
         checkpoint_due s \<and> event_present (sv_spine s) (own_event_id ''checkpoint'' n) \<or>
         heartbeat_due s \<and> checkpoint_due s \<and> own_event_id ''heartbeat'' n = own_event_id ''checkpoint'' n))"

lemma bounded_checkpoint: "fields u = fields (s\<lparr>sv_checkpoints := cps\<rparr>) \<Longrightarrow> length cps \<le> 101 \<Longrightarrow> bounded n s \<Longrightarrow>
    bounded n u \<and> sv_tick_number u = sv_tick_number s"
  by (simp add: fields_def bounded_def)

lemma bounded_heartbeat: "fields u = fields (s\<lparr>sv_heartbeats := hbs\<rparr>) \<Longrightarrow> length hbs \<le> 501 \<Longrightarrow> bounded n s \<Longrightarrow>
    bounded n u \<and> sv_tick_number u = sv_tick_number s \<and> sv_checkpoints u = sv_checkpoints s \<and> sv_policy u = sv_policy s"
  by (simp add: fields_def bounded_def)

lemma last_part_completes:
  assumes "valid_clock env" and "parts_ok u" and "bounded 200 u" and "length (sv_checkpoints u) \<le> 100"
    and "\<And>k. event_present (sv_spine u) k \<Longrightarrow> event_present (sv_spine s) k \<or> heartbeat_due s \<and> k = own_event_id ''heartbeat'' (sv_tick_number u)"
    and "c \<Longrightarrow> checkpoint_due s" and "ti_tick_number t = sv_tick_number u"
  shows "completes s (sv_tick_number u)
    (act_bind (if c then act_bind (create_supervisor_checkpoint env u) (\<lambda>_ s. (Inr (), s)) else (Inr (), u))
       (\<lambda>_ s. (Inr t, s)))"
proof (cases c)
  case False
  then show ?thesis using assms(3,7) by (simp add: act_bind_def completes_def)
next
  case True
  obtain r v where r: "create_supervisor_checkpoint env u = (r, v)" by (cases "create_supervisor_checkpoint env u")
  obtain cps where "fields v = fields (u\<lparr>sv_checkpoints := cps\<rparr>)" "length cps \<le> Suc (length (sv_checkpoints u))"
    using checkpoint_keeps(1)[of env u] r by auto
  then have v: "bounded 200 v" "sv_tick_number v = sv_tick_number u"
    using bounded_checkpoint[where n = 200 and s = u and u = v and cps = cps] assms(3,4) by auto
  have "0 \<le> sv_tick_number u" "0 \<le> sv_errors u" "0 \<le> sv_idle u" using assms(3) by (simp_all add: bounded_def)
  note total = checkpoint_total[OF assms(1,2) this]
  show ?thesis
  proof (cases "event_present (sv_spine u) (own_event_id ''checkpoint'' (sv_tick_number u))")
    case p: True
    then have "r = Inl already_exists" using total r by simp
    then show ?thesis using True v r assms(5)[OF p] assms(6) by (auto simp: act_bind_def completes_def)
  next
    case False
    then obtain cp where "r = Inr cp" using total r by auto
    then show ?thesis using True v r assms(7) by (simp add: act_bind_def completes_def)
  qed
qed

lemma complete_completes:
  assumes "valid_clock env" and "parts_ok s" and "bounded 201 s" and "locals_ok l" and "time_ok started"
  shows "completes s (sv_tick_number s + 1) (complete_tick env started l errors outcome s)"
proof -
  have "0 \<le> sv_tick_number s" using assms(3) by (simp add: bounded_def)
  then obtain t s' where f: "finalize_tick env started l errors outcome s = (Inr t, s')" and t: "ticked s t s'"
    using finalize_total[OF assms(1,4,5)] by blast
  have b: "bounded 200 s'" using t assms(3) by (rule ticked_bounded)
  have s': "sv_tick_number s' = sv_tick_number s + 1" "ti_tick_number t = sv_tick_number s + 1" "sv_spine s' = sv_spine s"
    "length (sv_heartbeats s') \<le> 500" "length (sv_checkpoints s') \<le> 100"
    "sv_policy s' = sv_policy s"
    using t by (simp_all add: ticked_def prune_history_def)
  have p: "parts_ok s'"
    using finalize_evolves[of env "{}" s started l errors outcome] assms(2) unfolding f by (auto intro: evolves_parts)
  let ?rest = "\<lambda>u. act_bind (if sv_tick_number u mod po_checkpoint_every (sv_policy u) = 0
       then act_bind (create_supervisor_checkpoint env u) (\<lambda>_ s. (Inr (), s)) else (Inr (), u)) (\<lambda>_ s. (Inr t, s))"
  have c: "complete_tick env started l errors outcome s =
    act_bind (if sv_tick_number s' mod po_heartbeat_every (sv_policy s') = 0
       then act_bind (emit_heartbeat env t s') (\<lambda>_ s. (Inr (), s)) else (Inr (), s')) (\<lambda>_. ?rest)"
    unfolding complete_tick_def f act_bind_def by simp
  show ?thesis
  proof (cases "sv_tick_number s' mod po_heartbeat_every (sv_policy s') = 0")
    case False
    have "completes s (sv_tick_number s') (?rest s')"
      by (rule last_part_completes[OF assms(1) p b s'(5)]) (simp_all add: s' checkpoint_due_def)
    then show ?thesis using False s'(1) unfolding c by (simp add: act_bind_def)
  next
    case True
    obtain r v where r: "emit_heartbeat env t s' = (r, v)" by (cases "emit_heartbeat env t s'")
    obtain hbs where "fields v = fields (s'\<lparr>sv_heartbeats := hbs\<rparr>)" "length hbs \<le> Suc (length (sv_heartbeats s'))"
      using heartbeat_keeps(1)[of env t s'] r by auto
    then have v: "bounded 200 v" "sv_tick_number v = sv_tick_number s'" "sv_checkpoints v = sv_checkpoints s'"
      "sv_policy v = sv_policy s'"
      using bounded_heartbeat[where n = 200 and s = s' and u = v and hbs = hbs] b s'(4) by auto
    have pv: "parts_ok v" using emit_heartbeat_evolves[of env "{}" s' t] p unfolding r by (auto intro: evolves_parts)
    have "0 \<le> sv_tick_number s'" using b by (simp add: bounded_def)
    note total = heartbeat_total[OF assms(1) p this, of t]
    show ?thesis
    proof (cases "event_present (sv_spine s') (own_event_id ''heartbeat'' (sv_tick_number s'))")
      case pr: True
      then have "r = Inl already_exists" using total r by simp
      then show ?thesis using True v r pr s' unfolding c by (auto simp: act_bind_def completes_def heartbeat_due_def)
    next
      case False
      then obtain hb where "r = Inr hb" using total r by auto
      moreover have "completes s (sv_tick_number v) (?rest v)"
      proof (rule last_part_completes[OF assms(1) pv v(1)])
        show "event_present (sv_spine v) k \<Longrightarrow> event_present (sv_spine s) k \<or> heartbeat_due s \<and> k = own_event_id ''heartbeat'' (sv_tick_number v)" for k
          using heartbeat_keeps(2)[of env t s' k] r s' v(2) True by (auto simp: heartbeat_due_def)
      qed (simp_all add: s' v checkpoint_due_def)
      ultimately show ?thesis using True r v(2) s'(1) unfolding c by (simp add: act_bind_def)
    qed
  qed
qed

lemma halted_outcome:
  assumes "valid_clock env" and "sv_halted s" and "0 \<le> sv_tick_number s"
  obtains t where "tick env s = (Inr t, s\<lparr>sv_tick_number := sv_tick_number s + 1, sv_reads := Suc (sv_reads s)\<rparr>)"
    and "ti_outcome t = TO_HALTED" and "ti_tick_number t = sv_tick_number s + 1" and "ti_decisions t = []"
proof -
  obtain i where i: "stable_identifier ''tick'' [(''n'', JInt (sv_tick_number s + 1))] = Inr i" "\<not> blank i"
    using own_ids(1) by blast
  define t where "t = \<lparr>ti_tick_id = i, ti_tick_number = sv_tick_number s + 1, ti_phases = [SP_HALTED],
              ti_events_polled = 0, ti_obligations_evaluated = 0, ti_deadlines_checked = 0, ti_reactions_fired = 0,
              ti_decisions = [], ti_outcome = TO_HALTED, ti_errors = [''supervisor is halted''],
              ti_started_at = sr_clock env (sv_reads s), ti_completed_at = sr_clock env (sv_reads s)\<rparr>"
  have "check_tick t = Inr t"
    using assms i by (auto simp: check_tick_def t_def py_bind_Inr_iff validators valid_clock_def time_ok_def)
  then have "tick env s = (Inr t, s\<lparr>sv_tick_number := sv_tick_number s + 1, sv_reads := Suc (sv_reads s)\<rparr>)"
    using assms(2) i by (simp add: tick_def halted_tick_def sv_now_def Let_def t_def)
  then show ?thesis by (rule that) (simp_all add: t_def)
qed

lemma tick_outcome:
  assumes "supervisor_ok s" and "valid_clock env"
  shows "supervisor_ok (snd (tick env s)) \<and> sv_tick_number (snd (tick env s)) = sv_tick_number s + 1 \<and>
    ((\<exists>t. fst (tick env s) = Inr t \<and> ti_tick_number t = sv_tick_number s + 1) \<or>
     fst (tick env s) = Inl already_exists \<and> own_event_clash s \<and> \<not> sv_halted s)"
proof -
  have parts: "parts_ok (snd (tick env s))"
    using tick_evolves assms(1) unfolding supervisor_ok_def by (blast intro: evolves_parts)
  show ?thesis
  proof (cases "sv_halted s")
    case True
    have "0 \<le> sv_tick_number s" using assms(1) by (simp add: supervisor_ok_def bounded_def)
    then obtain t where t: "tick env s = (Inr t, s\<lparr>sv_tick_number := sv_tick_number s + 1, sv_reads := Suc (sv_reads s)\<rparr>)"
      "ti_tick_number t = sv_tick_number s + 1" using halted_outcome[OF assms(2) True] by metis
    moreover have "bounded 200 (snd (tick env s))" using assms(1) by (simp add: t supervisor_ok_def bounded_def)
    ultimately show ?thesis using parts by (simp add: supervisor_ok_def)
  next
    case False
    define s1 where "s1 = s\<lparr>sv_reads := Suc (sv_reads s)\<rparr>"
    define started where "started = sr_clock env (sv_reads s)"
    have s1: "supervisor_ok s1" "\<not> sv_halted s1" "time_ok started" and sv: "sv_spine s1 = sv_spine s" "sv_tick_number s1 = sv_tick_number s"
      using assms False by (simp_all add: s1_def started_def supervisor_ok_def parts_ok_def bounded_def event_ids_def valid_clock_def)
    obtain k t l where r: "guarded_part env started s1 = (k, t, l)" by (cases "guarded_part env started s1") auto
    have w: "ends_well env s1 (k, t, l)" using guarded_part_well[OF s1(1,2) assms(2) s1(3)] r by simp
    have ev: "evolves env {} s1 t" using guarded_part_evolves[of env "{}" s1 started] r by simp
    then have pt: "parts_ok t" using s1(1) evolves_parts unfolding supervisor_ok_def by blast
    have pol: "sv_policy t = sv_policy s" using ev by (simp add: evolves_def s1_def)
    have late: "supervisor_ok u \<and> sv_tick_number u = sv_tick_number s + 1 \<and>
      ((\<exists>t. r = Inr t \<and> ti_tick_number t = sv_tick_number s + 1) \<or> r = Inl already_exists \<and> own_event_clash s)"
      if "completes t' (sv_tick_number s + 1) (r, u)" "parts_ok u" "sv_spine t' = sv_spine t" "sv_policy t' = sv_policy s" "sv_tick_number t' = sv_tick_number s" for t' r u
    proof -
      have "heartbeat_due t' = heartbeat_due s" "checkpoint_due t' = checkpoint_due s"
        using that(4,5) by (simp_all add: heartbeat_due_def checkpoint_due_def)
      then show ?thesis
        using that w unfolding completes_def own_event_clash_def ends_well_def supervisor_ok_def sv Let_def by auto
    qed
    have tk: "tick env s = (case guarded_part env started s1 of
             (Returned t, s, l) \<Rightarrow> (Inr t, s)
           | (Done outcome, s, l) \<Rightarrow> complete_tick env started l [] outcome s
           | (Raised e, s, l) \<Rightarrow>
               (let (outcome, s, l) = on_error s l
                in complete_tick env started l [''supervisor tick error''] outcome s))"
      using False unfolding tick_def sv_now_def s1_def started_def by simp
    show ?thesis
    proof (cases k)
      case (Returned x)
      then show ?thesis using parts w unfolding tk r by (simp add: supervisor_ok_def ends_well_def sv)
    next
      case (Done outcome)
      then have "completes t (sv_tick_number t + 1) (complete_tick env started l [] outcome t)"
        using w by (intro complete_completes[OF assms(2) pt _ _ s1(3)]) (simp_all add: ends_well_def)
      moreover have "sv_tick_number t = sv_tick_number s" using w Done by (simp add: ends_well_def sv)
      ultimately show ?thesis
        using late[of t] parts Done False pol unfolding tk r by (cases "complete_tick env started l [] outcome t") auto
    next
      case (Raised e)
      obtain o2 t2 l2 where e: "on_error t l = (o2, t2, l2)" by (cases "on_error t l") auto
      have n: "sv_tick_number t2 = sv_tick_number s" "sv_spine t2 = sv_spine t" "sv_policy t2 = sv_policy s"
        using e w Raised by (auto simp: on_error_def Let_def ends_well_def sv pol split: if_splits)
      have "bounded 201 t2" "locals_ok l2" "parts_ok t2"
        using e w pt Raised by (auto simp: on_error_def Let_def ends_well_def bounded_def locals_ok_def parts_ok_def event_ids_def split: if_splits)
      then have "completes t2 (sv_tick_number t2 + 1) (complete_tick env started l2 [''supervisor tick error''] o2 t2)"
        by (intro complete_completes[OF assms(2) _ _ _ s1(3)])
      then show ?thesis
        using late[of t2] parts Raised e n False unfolding tk r
        by (cases "complete_tick env started l2 [''supervisor tick error''] o2 t2") auto
    qed
  qed
qed

section \<open>Runs\<close>

text \<open>Ticks, and what other clients of the spine and of the obligation engine do between them.\<close>

inductive supervisor_step :: "'w surroundings \<Rightarrow> 'w supervisor \<Rightarrow> 'w supervisor \<Rightarrow> bool" for env where
  sv_tick: "supervisor_step env s (snd (tick env s))"
| sv_spine_client: "spine_step (sv_spine s) sp \<Longrightarrow> supervisor_step env s (s\<lparr>sv_spine := sp\<rparr>)"
| sv_obligation_client: "obligation_step (sv_obligations s) ob \<Longrightarrow> supervisor_step env s (s\<lparr>sv_obligations := ob\<rparr>)"
| sv_sync: "supervisor_step env s (sync_processed_events s)"

abbreviation supervisor_run :: "'w surroundings \<Rightarrow> 'w supervisor \<Rightarrow> 'w supervisor \<Rightarrow> bool" where
  "supervisor_run env \<equiv> (supervisor_step env)\<^sup>*\<^sup>*"

lemma event_ids_step:
  assumes "spine_step (sv_spine s) sp" and "spine_ok (sv_spine s)"
  shows "event_ids s \<subseteq> event_ids (s\<lparr>sv_spine := sp\<rparr>)"
proof -
  have "spine_ok sp" using assms by (rule spine_step_ok)
  then have "filed ev_event_id event_ok (sp_events (sv_spine s))" "filed ev_event_id event_ok (sp_events sp)"
    using assms(2) by (simp_all add: spine_ok_def)
  then have "set (dict_values (sp_events (sv_spine s))) \<subseteq> set (dict_values (sp_events sp))"
    using spine_step_keeps[OF assms(1)] by (meson filed_values subsetI)
  then show ?thesis by (simp add: event_ids_def image_mono)
qed

lemma supervisor_step_ok:
  assumes "supervisor_step env s s'" and "supervisor_ok s" and "valid_clock env"
  shows "supervisor_ok s' \<and> sv_processed s \<subseteq> sv_processed s' \<and> event_ids s \<subseteq> event_ids s'"
  using assms(1)
proof cases
  case sv_tick
  then show ?thesis
    using tick_outcome[OF assms(2,3)] tick_evolves[of env "{}" s] unfolding evolves_def by blast
next
  case (sv_spine_client sp)
  have "spine_ok (sv_spine s)" using assms(2) by (simp add: supervisor_ok_def parts_ok_def)
  from spine_step_ok[OF sv_spine_client(2) this] event_ids_step[OF sv_spine_client(2) this] show ?thesis
    using assms(2) unfolding sv_spine_client(1) by (simp add: supervisor_ok_def parts_ok_def bounded_def) blast
next
  case (sv_obligation_client ob)
  then show ?thesis
    using assms(2) obligation_step_ok[OF sv_obligation_client(2)]
    by (simp add: supervisor_ok_def parts_ok_def bounded_def event_ids_def)
next
  case sv_sync
  then show ?thesis
    using assms(2) by (auto simp: sync_processed_events_def supervisor_ok_def parts_ok_def bounded_def event_ids_def)
qed

lemma supervisor_run_ok:
  assumes "supervisor_run env s s'" and "supervisor_ok s" and "valid_clock env"
  shows "supervisor_ok s' \<and> sv_processed s \<subseteq> sv_processed s' \<and> event_ids s \<subseteq> event_ids s'"
  using assms(1)
proof (induction rule: rtranclp_induct)
  case (step t u)
  then show ?case using supervisor_step_ok[OF step.hyps(2) _ assms(3)] by blast
qed (use assms(2) in simp)

section \<open>Properties\<close>

text \<open>
  C18: a tick changes an obligation only if the governance gate, asked in this very tick, approved the
  activation or the expiry of that obligation; every change is a step of the obligation engine, the
  spine only grows by its own steps, and no subscription changes.
\<close>

theorem tick_governed:
  "\<exists>approved. gate_run env (sv_world s) approved (sv_world (snd (tick env s))) \<and>
     (\<forall>i. obligation_at (sv_obligations (snd (tick env s))) i = obligation_at (sv_obligations s) i \<or>
        (''activate_obligation'', i) \<in> approved \<or> (''expire_obligation'', i) \<in> approved) \<and>
     obligation_run (sv_obligations s) (sv_obligations (snd (tick env s))) \<and>
     spine_run (sv_spine s) (sv_spine (snd (tick env s))) \<and>
     sp_subscriptions (sv_spine (snd (tick env s))) = sp_subscriptions (sv_spine s)"
  using tick_evolves[of env "{}" s] unfolding evolves_def governed_def by auto

text \<open>
  C19: as long as no checkpoint is restored (\<open>restore_processed_event_ids\<close>, \<open>resume_from_checkpoint\<close>), every event is polled by at most one tick: what a running supervisor has polled in a tick, no
  later tick polls again, whatever happens in between, and a tick leaves no event that was there
  before it unpolled.
\<close>

theorem events_polled_once:
  assumes "supervisor_ok s" and "valid_clock env" and "\<not> sv_halted s"
    and "supervisor_run env (snd (tick env s)) s'"
  shows "set (fst (poll_new_events s)) \<inter> set (fst (poll_new_events s')) = {} \<and>
    set (dict_values (sp_events (sv_spine s))) \<inter> set (fst (poll_new_events (snd (tick env s)))) = {}"
proof
  have ok: "supervisor_ok (snd (tick env s))" using tick_outcome[OF assms(1,2)] by blast
  have "event_ids s \<subseteq> sv_processed s'"
    using tick_consumes[OF assms(3), of env] supervisor_run_ok[OF assms(4) ok assms(2)] by blast
  then show "set (fst (poll_new_events s)) \<inter> set (fst (poll_new_events s')) = {}"
    by (auto simp: poll_new_events_def event_ids_def)
  show "set (dict_values (sp_events (sv_spine s))) \<inter> set (fst (poll_new_events (snd (tick env s)))) = {}"
    using tick_consumes[OF assms(3), of env] by (auto simp: poll_new_events_def event_ids_def)
qed

text \<open>
  C20: from its creation on, whatever it is asked but to resume from a checkpoint, and whatever the gate does, the supervisor keeps its
  bounds: the histories it retains, the window of outcomes, the counter of errors of a supervisor
  that is not halted; it is in the phase HALTED exactly when it is halted; it never counts an event
  as processed that the spine does not hold.
\<close>

theorem supervisor_bounds:
  assumes "check_policy p = Inr p" and "spine_ok sp" and "engine_ok ob" and "valid_clock env"
    and "supervisor_run env (supervisor_init p sp ob w) s"
  shows "length (sv_ticks s) \<le> 1000 \<and> length (sv_heartbeats s) \<le> 501 \<and> length (sv_checkpoints s) \<le> 101 \<and>
    length (sv_livelocks s) \<le> 200 \<and> int (length (sv_recent s)) \<le> 2 * po_livelock_threshold (sv_policy s) \<and>
    0 \<le> sv_errors s \<and> (sv_halted s \<or> sv_errors s < po_max_errors (sv_policy s)) \<and>
    sv_halted s = (sv_phase s = SP_HALTED) \<and>
    sv_processed s \<subseteq> set (map ev_event_id (dict_values (sp_events (sv_spine s)))) \<and>
    spine_ok (sv_spine s) \<and> engine_ok (sv_obligations s)"
  using supervisor_run_ok[OF assms(5) supervisor_init_ok[OF assms(1-3)] assms(4)]
  by (auto simp: supervisor_ok_def parts_ok_def bounded_def event_ids_def)

text \<open>
  C21: a tick always comes back with a record of the next number, even when the gate or an operation
  of the obligation engine raises; it raises only if one of the supervisor's own event identifiers
  was used before or two of them are the same text.
\<close>

theorem tick_returns:
  assumes "supervisor_ok s" and "valid_clock env" and "\<not> own_event_clash s"
  shows "\<exists>t s'. tick env s = (Inr t, s') \<and> ti_tick_number t = sv_tick_number s + 1 \<and>
    sv_tick_number s' = sv_tick_number s + 1 \<and> supervisor_ok s'"
  using tick_outcome[OF assms(1,2)] assms(3) by (cases "tick env s") auto

text \<open>
  a halted supervisor stays halted and does nothing: each tick answers HALTED without a decision
  and changes only the number of the tick, so obligations, spine and the gate's world stay as they
  are.
\<close>

fun halted_ticks :: "'w surroundings \<Rightarrow> nat \<Rightarrow> 'w supervisor \<Rightarrow> supervisor_tick py list \<times> 'w supervisor" where
  "halted_ticks env 0 s = ([], s)"
| "halted_ticks env (Suc n) s =
     (let (r, s) = tick env s; (rs, s) = halted_ticks env n s in (r # rs, s))"

theorem halted_for_good:
  assumes "valid_clock env" and "sv_halted s" and "0 \<le> sv_tick_number s"
  shows "snd (halted_ticks env n s) = s\<lparr>sv_tick_number := sv_tick_number s + int n, sv_reads := sv_reads s + n\<rparr> \<and>
    (\<forall>r \<in> set (fst (halted_ticks env n s)). \<exists>t. r = Inr t \<and> ti_outcome t = TO_HALTED \<and> ti_decisions t = [])"
  using assms(2,3)
proof (induction n arbitrary: s)
  case (Suc n)
  let ?s = "s\<lparr>sv_tick_number := sv_tick_number s + 1, sv_reads := Suc (sv_reads s)\<rparr>"
  obtain t where t: "tick env s = (Inr t, ?s)" "ti_outcome t = TO_HALTED" "ti_decisions t = []"
    using halted_outcome[OF assms(1) Suc.prems] by metis
  have "sv_halted ?s" "0 \<le> sv_tick_number ?s" using Suc.prems by simp_all
  from Suc.IH[OF this] t show ?case by (auto simp: case_prod_beta Let_def)
qed simp

lemma created_checkpoint:
  assumes "create_supervisor_checkpoint env s = (Inr c, s')"
  shows "cp_tick_number c = sv_tick_number s \<and> cp_phase c = sv_phase s \<and> cp_status c = CS_VALID \<and>
    cp_consecutive_errors c = sv_errors s \<and> cp_consecutive_idle_ticks c = sv_idle s \<and>
    cp_recent_outcomes c = last_n 10 (sv_recent s) \<and> cp_state_hash c = supervisor_hash s"
proof -
  have k: "check_checkpoint x = Inr y \<Longrightarrow> y = x" for x y
    by (auto simp: check_checkpoint_def py_bind_Inr_iff split: if_splits)
  show ?thesis
    using assms unfolding create_supervisor_checkpoint_def Let_def sv_now_def
    by (auto split: sum.splits elim!: bind_InrE dest!: k)
qed

lemma last_n_last_n [simp]: "last_n n (last_n n xs) = last_n n xs"
  by (simp add: last_n_def)

text \<open>
  a supervisor that resumes from a checkpoint continues with the tick number, the counters, the
  phase and the halted state of the supervisor that took it, and with the last ten outcomes, and
  touches nothing else; its state hash is the one of the checkpoint if as many events are processed.
\<close>

theorem supervisor_checkpoint_roundtrip:
  assumes "supervisor_ok s" and "create_supervisor_checkpoint env s = (Inr c, s')"
    and "card (sv_processed u) = card (sv_processed s)"
  shows "fst (resume_from_checkpoint u c) = Inr () \<and>
    snd (resume_from_checkpoint u c) = u\<lparr>sv_tick_number := sv_tick_number s, sv_errors := sv_errors s, sv_idle := sv_idle s,
      sv_recent := last_n 10 (sv_recent s), sv_phase := sv_phase s, sv_halted := sv_halted s\<rparr> \<and>
    supervisor_hash (snd (resume_from_checkpoint u c)) = cp_state_hash c"
  using created_checkpoint[OF assms(2)] assms(1,3)
  by (auto simp: resume_from_checkpoint_def supervisor_hash_def supervisor_ok_def bounded_def)

section \<open>Losses\<close>

text \<open>
  When more events are new than the backpressure threshold, the tick marks them all as processed and
  reacts to none: no later tick sees them.
\<close>

theorem backpressure_loses_events:
  assumes "supervisor_ok s" and "valid_clock env" and "\<not> sv_halted s"
    and "po_backpressure (sv_policy s) < int (length (fst (poll_new_events s)))"
  shows "\<exists>t s'. tick env s = (Inr t, s') \<and> ti_outcome t = TO_BACKPRESSURE_APPLIED \<and> ti_decisions t = [] \<and>
    fst (poll_new_events s') = []"
proof -
  define s1 where "s1 = s\<lparr>sv_reads := Suc (sv_reads s), sv_phase := SP_POLLING\<rparr>"
  have n: "fst (poll_new_events s1) = fst (poll_new_events s)" by (simp add: poll_new_events_def s1_def)
  define s2 where "s2 = (snd (poll_new_events s1))\<lparr>sv_phase := SP_DEGRADED\<rparr>"
  define l where "l = no_locals\<lparr>tl_phases := [SP_POLLING, SP_DEGRADED], tl_polled := int (length (fst (poll_new_events s)))\<rparr>"
  have "0 \<le> sv_tick_number s2" using assms(1) by (simp add: s2_def s1_def poll_new_events_def supervisor_ok_def bounded_def)
  moreover have "locals_ok l" by (simp add: l_def locals_ok_def no_locals_def)
  ultimately obtain t s' where f: "finalize_tick env (sr_clock env (sv_reads s)) l [] TO_BACKPRESSURE_APPLIED s2 = (Inr t, s')"
    "ticked s2 t s'" "ti_outcome t = TO_BACKPRESSURE_APPLIED"
    using finalize_total[OF assms(2)] assms(2) unfolding valid_clock_def by metis
  have policy: "sv_policy (snd (poll_new_events s1)) = sv_policy s" by (simp add: poll_new_events_def s1_def)
  have "guarded_part env (sr_clock env (sv_reads s)) (s\<lparr>sv_reads := Suc (sv_reads s)\<rparr>) = (Returned t, s', l)"
    unfolding guarded_part_def enter_def Let_def case_prod_beta fst_conv snd_conv
    using assms(4) f(1) by (simp add: s1_def[symmetric] policy n s2_def l_def no_locals_def guarded_bind_def)
  then have "tick env s = (Inr t, s')"
    using assms(3) by (simp add: tick_def sv_now_def)
  moreover have "ti_decisions t = []"
    using f(1) by (auto simp: finalize_tick_def sv_now_def Let_def l_def no_locals_def check_tick_def py_bind_Inr_iff split: sum.splits)
  moreover have "fst (poll_new_events s') = []"
    using f(2) by (auto simp: ticked_def prune_history_def s2_def s1_def poll_new_events_def filter_empty_conv)
  ultimately show ?thesis using f(3) by blast
qed

section \<open>A worked supervisor\<close>

definition demo_policy :: supervisor_policy where
  "demo_policy = \<lparr>po_policy_id = ''p1'', po_tick_interval_ms = 1000, po_max_events = 10, po_max_actions = 10,
     po_backpressure = 1, po_livelock_threshold = 3, po_livelock_strategy = LS_HALT, po_heartbeat_every = 2,
     po_checkpoint_every = 2, po_max_errors = 2, po_created_at = ''2024-01-02T03:04:05+00:00''\<rparr>"

text \<open>A gate that counts the questions; it approves what \<open>yes\<close> says and raises on everything else.\<close>

definition demo_surroundings :: "(string \<Rightarrow> bool) \<Rightarrow> nat surroundings" where
  "demo_surroundings yes = \<lparr>sr_clock = (\<lambda>n. ''2024-01-02T03:04:05+00:00''), sr_engine_clock = (\<lambda>n. ''2024-01-02T03:04:05+00:00''),
     sr_gate = (\<lambda>w action target ctx. (if yes action then Inr True else Inl (ValueError ''no''), Suc w))\<rparr>"

definition demo_supervisor :: "nat supervisor" where
  "demo_supervisor = supervisor_init demo_policy demo_spine demo_engine 0"

lemma demo_clock: "valid_clock (demo_surroundings yes)"
proof -
  have "time_ok ''2024-01-02T03:04:05+00:00''" by code_simp
  then show ?thesis by (simp add: valid_clock_def demo_surroundings_def)
qed

lemma demo_parts: "check_policy demo_policy = Inr demo_policy" "spine_ok demo_spine" "engine_ok demo_engine"
proof -
  show "check_policy demo_policy = Inr demo_policy" by code_simp
  show "spine_ok demo_spine" using spine_run_ok demo_runs(1) spine_ok_init by blast
  show "engine_ok demo_engine" using obligation_run_ok demo_engine_run engine_ok_init by blast
qed

lemma demo_supervisor_ok: "supervisor_ok demo_supervisor" "\<not> sv_halted demo_supervisor" "sv_tick_number demo_supervisor = 0"
  using supervisor_init_ok[OF demo_parts] by (simp_all add: demo_supervisor_def supervisor_init_def)

lemma demo_no_clash: "\<not> own_event_clash demo_supervisor"
  by (simp add: own_event_clash_def heartbeat_due_def checkpoint_due_def demo_supervisor_def supervisor_init_def demo_policy_def)

lemma silent_gate: "gate_run (demo_surroundings (\<lambda>a. False)) w A v \<Longrightarrow> A = {}"
  by (induction rule: gate_run.induct) (auto simp: demo_surroundings_def)

theorem tick_governed_witness:
  "obligation_at (sv_obligations (snd (tick (demo_surroundings (\<lambda>a. False)) demo_supervisor))) ''o1'' = obligation_at demo_engine ''o1''"
proof -
  have "sv_obligations demo_supervisor = demo_engine" by (simp add: demo_supervisor_def supervisor_init_def)
  with tick_governed[of "demo_surroundings (\<lambda>a. False)" demo_supervisor] silent_gate show ?thesis by (metis empty_iff)
qed

theorem events_polled_once_witness:
  "demo_event ''e1'' \<notin> set (fst (poll_new_events (snd (tick (demo_surroundings (\<lambda>a. True)) demo_supervisor))))"
proof -
  have "demo_event ''e1'' \<in> set (dict_values (sp_events (sv_spine demo_supervisor)))"
    by (simp add: demo_supervisor_def supervisor_init_def demo_spine_def emit_def subscribe_def spine_init_def demo_event_def)
  then show ?thesis
    using events_polled_once[OF demo_supervisor_ok(1) demo_clock demo_supervisor_ok(2) rtranclp.rtrancl_refl] by blast
qed

theorem supervisor_bounds_witness:
  "length (sv_ticks (snd (tick (demo_surroundings (\<lambda>a. True)) demo_supervisor))) \<le> 1000"
proof -
  have "supervisor_run (demo_surroundings (\<lambda>a. True)) (supervisor_init demo_policy demo_spine demo_engine 0)
      (snd (tick (demo_surroundings (\<lambda>a. True)) demo_supervisor))"
    unfolding demo_supervisor_def by (rule r_into_rtranclp, rule sv_tick)
  then show ?thesis using supervisor_bounds[OF demo_parts demo_clock] by blast
qed

theorem tick_returns_witness:
  "\<exists>t s'. tick (demo_surroundings (\<lambda>a. a = ''activate_obligation'')) demo_supervisor = (Inr t, s') \<and> ti_tick_number t = 1"
  using tick_returns[OF demo_supervisor_ok(1) demo_clock[of "\<lambda>a. a = ''activate_obligation''"] demo_no_clash] demo_supervisor_ok(3)
  by auto

theorem halted_for_good_witness:
  "sv_obligations (snd (halted_ticks (demo_surroundings (\<lambda>a. True)) 5
      (demo_supervisor\<lparr>sv_halted := True, sv_phase := SP_HALTED\<rparr>))) = demo_engine"
  using halted_for_good[OF demo_clock, of "demo_supervisor\<lparr>sv_halted := True, sv_phase := SP_HALTED\<rparr>"]
  by (simp add: demo_supervisor_def supervisor_init_def)

definition demo_quiet :: "nat supervisor" where
  "demo_quiet = supervisor_init demo_policy spine_init demo_engine 0"

lemma demo_quiet_facts: "supervisor_ok demo_quiet" "sv_tick_number demo_quiet = 0" "sv_errors demo_quiet = 0"
  "sv_idle demo_quiet = 0" "sv_spine demo_quiet = spine_init"
  using supervisor_init_ok[OF demo_parts(1) spine_ok_init demo_parts(3)]
  by (simp_all add: demo_quiet_def supervisor_init_def)

theorem supervisor_checkpoint_roundtrip_witness:
  "\<exists>c s'. create_supervisor_checkpoint (demo_surroundings (\<lambda>a. True)) demo_quiet = (Inr c, s') \<and>
     fst (resume_from_checkpoint demo_quiet c) = Inr ()"
proof -
  have "parts_ok demo_quiet" using demo_quiet_facts(1) by (simp add: supervisor_ok_def)
  moreover have "\<not> event_present spine_init i" for i by (simp add: event_present_def spine_init_def)
  ultimately obtain c where "fst (create_supervisor_checkpoint (demo_surroundings (\<lambda>a. True)) demo_quiet) = Inr c"
    using checkpoint_total[OF demo_clock, of demo_quiet "\<lambda>a. True"] demo_quiet_facts by auto
  then obtain s' where c: "create_supervisor_checkpoint (demo_surroundings (\<lambda>a. True)) demo_quiet = (Inr c, s')"
    by (cases "create_supervisor_checkpoint (demo_surroundings (\<lambda>a. True)) demo_quiet") simp
  from supervisor_checkpoint_roundtrip[OF demo_quiet_facts(1) c refl] c show ?thesis by blast
qed

theorem backpressure_loses_events_witness:
  "\<exists>t s'. tick (demo_surroundings (\<lambda>a. True)) demo_supervisor = (Inr t, s') \<and> ti_decisions t = [] \<and> fst (poll_new_events s') = []"
proof -
  have "length (fst (poll_new_events demo_supervisor)) = 2"
    by (simp add: poll_new_events_def demo_supervisor_def supervisor_init_def demo_spine_def emit_def subscribe_def
        spine_init_def demo_event_def)
  moreover have "po_backpressure (sv_policy demo_supervisor) = 1"
    by (simp add: demo_supervisor_def supervisor_init_def demo_policy_def)
  ultimately show ?thesis
    using backpressure_loses_events[OF demo_supervisor_ok(1) demo_clock[of "\<lambda>a. True"] demo_supervisor_ok(2)] by auto
qed

end
