(* ===== verification/Checkpoint_Manager.thy ===== *)
theory Checkpoint_Manager
  imports Supervisor_Tick
begin

text \<open>
  The journal and checkpoint contracts of \<open>mcoi_runtime/contracts/state_machine.py\<close> and
  \<open>mcoi_runtime/core/checkpoint_manager.py\<close>: composite checkpoints of spine, obligation engine and
  supervisor, their restoration with verification and rollback, and the journal.

  The manager works on the spine and the engine of its supervisor.  Its clock is a function of the
  number of its readings.
\<close>

section \<open>Records\<close>

datatype journal_entry_kind =
    JK_TICK | JK_TRANSITION | JK_CHECKPOINT | JK_EVENT_EMITTED | JK_OBLIGATION_CHANGED
  | JK_REACTION_DECIDED | JK_HEARTBEAT | JK_LIVELOCK | JK_HALT | JK_RESUME

record journal_entry =
  jo_entry_id :: string
  jo_epoch_id :: string
  jo_sequence :: int
  jo_kind :: journal_entry_kind
  jo_subject_id :: string
  jo_payload :: "(string \<times> pval) list"
  jo_recorded_at :: string

text \<open>\<open>JournalEntry.__post_init__\<close>.\<close>

definition check_journal_entry :: "journal_entry \<Rightarrow> journal_entry py" where
  "check_journal_entry j =
     py_bind (require_non_empty_text (jo_entry_id j) ''entry_id'') (\<lambda>_.
     py_bind (require_non_empty_text (jo_epoch_id j) ''epoch_id'') (\<lambda>_.
     py_bind (require_non_negative_int (jo_sequence j) ''sequence'') (\<lambda>_.
     py_bind (require_non_empty_text (jo_subject_id j) ''subject_id'') (\<lambda>_.
     py_bind (require_datetime_text (jo_recorded_at j) ''recorded_at'') (\<lambda>_. Inr j)))))"

datatype checkpoint_scope =
    CK_SUPERVISOR | CK_EVENT_SPINE | CK_OBLIGATION_RUNTIME | CK_REACTION_ENGINE | CK_COMPOSITE

record subsystem_snapshot =
  sn_snapshot_id :: string
  sn_scope :: checkpoint_scope
  sn_state_hash :: string
  sn_record_count :: int
  sn_captured_at :: string
  sn_payload :: "(string \<times> pval) list"

text \<open>\<open>SubsystemSnapshot.__post_init__\<close>.\<close>

definition check_snapshot :: "subsystem_snapshot \<Rightarrow> subsystem_snapshot py" where
  "check_snapshot s =
     py_bind (require_non_empty_text (sn_snapshot_id s) ''snapshot_id'') (\<lambda>_.
     py_bind (require_non_empty_text (sn_state_hash s) ''state_hash'') (\<lambda>_.
     py_bind (require_non_negative_int (sn_record_count s) ''record_count'') (\<lambda>_.
     py_bind (require_datetime_text (sn_captured_at s) ''captured_at'') (\<lambda>_. Inr s))))"

record composite_checkpoint =
  cc_checkpoint_id :: string
  cc_epoch_id :: string
  cc_tick_number :: int
  cc_snapshots :: "subsystem_snapshot list"
  cc_journal_sequence :: int
  cc_composite_hash :: string
  cc_created_at :: string

text \<open>\<open>CompositeCheckpoint.__post_init__\<close>.\<close>

definition check_composite :: "composite_checkpoint \<Rightarrow> composite_checkpoint py" where
  "check_composite c =
     py_bind (require_non_empty_text (cc_checkpoint_id c) ''checkpoint_id'') (\<lambda>_.
     py_bind (require_non_empty_text (cc_epoch_id c) ''epoch_id'') (\<lambda>_.
     py_bind (require_non_negative_int (cc_tick_number c) ''tick_number'') (\<lambda>_.
     py_bind (require_non_empty_tuple (cc_snapshots c) ''snapshots'') (\<lambda>_.
     if \<not> distinct (map sn_scope (cc_snapshots c))
     then Inl (ValueError ''snapshots must not contain duplicate scopes'')
     else py_bind (require_non_negative_int (cc_journal_sequence c) ''journal_sequence'') (\<lambda>_.
     py_bind (require_non_empty_text (cc_composite_hash c) ''composite_hash'') (\<lambda>_.
     py_bind (require_datetime_text (cc_created_at c) ''created_at'') (\<lambda>_. Inr c)))))))"

definition snapshot_for :: "composite_checkpoint \<Rightarrow> checkpoint_scope \<Rightarrow> subsystem_snapshot option" where
  "snapshot_for c scope = find (\<lambda>s. sn_scope s = scope) (cc_snapshots c)"

datatype restore_verdict =
    RV_VERIFIED | RV_HASH_MISMATCH | RV_SUBSYSTEM_MISSING | RV_ROLLBACK_TRIGGERED

primrec restore_verdict_value :: "restore_verdict \<Rightarrow> string" where
  "restore_verdict_value RV_VERIFIED = ''verified''"
| "restore_verdict_value RV_HASH_MISMATCH = ''hash_mismatch''"
| "restore_verdict_value RV_SUBSYSTEM_MISSING = ''subsystem_missing''"
| "restore_verdict_value RV_ROLLBACK_TRIGGERED = ''rollback_triggered''"

record subsystem_result =
  su_expected :: string
  su_actual :: string
  su_match :: string

record restore_verification =
  rv_verification_id :: string
  rv_checkpoint_id :: string
  rv_epoch_id :: string
  rv_tick_number :: int
  rv_verdict :: restore_verdict
  rv_expected_hash :: string
  rv_actual_hash :: string
  rv_subsystem_results :: "(string \<times> subsystem_result) list"
  rv_verified_at :: string

text \<open>\<open>_freeze_nested_text_mapping\<close>.\<close>

fun check_results :: "(string \<times> subsystem_result) list \<Rightarrow> unit py" where
  "check_results [] = Inr ()"
| "check_results ((k, r) # rs) =
     (if blank k then Inl (ValueError ''subsystem_results must contain only non-empty string keys'')
      else if blank (su_expected r) \<or> blank (su_actual r) \<or> blank (su_match r)
      then Inl (ValueError ''subsystem_results must contain only non-empty nested string values'')
      else check_results rs)"

text \<open>\<open>RestoreVerification.__post_init__\<close>.\<close>

definition check_verification :: "restore_verification \<Rightarrow> restore_verification py" where
  "check_verification v =
     py_bind (require_non_empty_text (rv_verification_id v) ''verification_id'') (\<lambda>_.
     py_bind (require_non_empty_text (rv_checkpoint_id v) ''checkpoint_id'') (\<lambda>_.
     py_bind (require_non_empty_text (rv_epoch_id v) ''epoch_id'') (\<lambda>_.
     py_bind (require_non_negative_int (rv_tick_number v) ''tick_number'') (\<lambda>_.
     py_bind (require_non_empty_text (rv_expected_hash v) ''expected_composite_hash'') (\<lambda>_.
     py_bind (require_non_empty_text (rv_actual_hash v) ''actual_composite_hash'') (\<lambda>_.
     py_bind (require_datetime_text (rv_verified_at v) ''verified_at'') (\<lambda>_.
     py_bind (check_results (rv_subsystem_results v)) (\<lambda>_. Inr v))))))))"

datatype journal_validity =
    JV_VALID | JV_SEQUENCE_GAP | JV_EPOCH_MISMATCH | JV_ORDERING_VIOLATION | JV_EMPTY_JOURNAL

record journal_validation =
  jv_validation_id :: string
  jv_epoch_id :: string
  jv_entry_count :: int
  jv_first_sequence :: int
  jv_last_sequence :: int
  jv_verdict :: journal_validity
  jv_gap_positions :: "int list"
  jv_detail :: string

text \<open>\<open>JournalValidationResult.__post_init__\<close>.\<close>

definition check_validation :: "journal_validation \<Rightarrow> journal_validation py" where
  "check_validation v =
     py_bind (require_non_empty_text (jv_validation_id v) ''validation_id'') (\<lambda>_.
     py_bind (require_non_empty_text (jv_epoch_id v) ''epoch_id'') (\<lambda>_.
     py_bind (require_non_negative_int (jv_entry_count v) ''entry_count'') (\<lambda>_.
     py_bind (require_non_negative_int (jv_first_sequence v) ''first_sequence'') (\<lambda>_.
     py_bind (require_non_negative_int (jv_last_sequence v) ''last_sequence'') (\<lambda>_.
     if list_ex (\<lambda>g. g < 0) (jv_gap_positions v)
     then Inl (field_error ''gap_positions'' '' must be non-negative'')
     else Inr v)))))"

section \<open>The manager\<close>

record 'w manager =
  cm_supervisor :: "'w supervisor"
  cm_epoch_id :: string
  cm_journal :: "journal_entry list"
  cm_checkpoints :: "composite_checkpoint list"
  cm_verifications :: "restore_verification list"
  cm_sequence :: int
  cm_reads :: nat

definition manager_init :: "'w supervisor \<Rightarrow> string \<Rightarrow> 'w manager" where
  "manager_init s epoch_id = \<lparr>cm_supervisor = s, cm_epoch_id = epoch_id, cm_journal = [], cm_checkpoints = [],
     cm_verifications = [], cm_sequence = 0, cm_reads = 0\<rparr>"

type_synonym clock = "nat \<Rightarrow> string"

definition cm_now :: "clock \<Rightarrow> 'w manager \<Rightarrow> string \<times> 'w manager" where
  "cm_now clock m = (clock (cm_reads m), m\<lparr>cm_reads := Suc (cm_reads m)\<rparr>)"

section \<open>The journal\<close>

definition append_journal ::
  "clock \<Rightarrow> journal_entry_kind \<Rightarrow> string \<Rightarrow> (string \<times> pval) list \<Rightarrow> 'w manager \<Rightarrow> journal_entry py \<times> 'w manager" where
  "append_journal clock kind subject_id payload m =
     (let (now, m) = cm_now clock m
      in act_bind (py_bind (stable_identifier ''journal'' [(''epoch'', JStr (cm_epoch_id m)), (''seq'', JInt (cm_sequence m))])
            (\<lambda>i. check_journal_entry \<lparr>jo_entry_id = i, jo_epoch_id = cm_epoch_id m, jo_sequence = cm_sequence m,
                 jo_kind = kind, jo_subject_id = subject_id, jo_payload = payload, jo_recorded_at = now\<rparr>), m)
          (\<lambda>j m. (Inr j, m\<lparr>cm_journal := cm_journal m @ [j], cm_sequence := cm_sequence m + 1\<rparr>)))"

definition journal_since :: "'w manager \<Rightarrow> int \<Rightarrow> journal_entry list" where
  "journal_since m n = filter (\<lambda>j. n \<le> jo_sequence j) (cm_journal m)"

fun ordering_violated :: "journal_entry list \<Rightarrow> bool" where
  "ordering_violated (a # b # js) \<longleftrightarrow> jo_sequence b \<le> jo_sequence a \<or> ordering_violated (b # js)"
| "ordering_violated js \<longleftrightarrow> False"

fun sequence_gaps :: "journal_entry list \<Rightarrow> int list" where
  "sequence_gaps (a # b # js) =
     (if jo_sequence b \<noteq> jo_sequence a + 1 then [jo_sequence a + 1] else []) @ sequence_gaps (b # js)"
| "sequence_gaps js = []"

definition journal_finding :: "string \<Rightarrow> journal_entry list \<Rightarrow> journal_validity \<times> int list \<times> string" where
  "journal_finding epoch js =
     (if js = [] then (JV_EMPTY_JOURNAL, [], ''journal contains no entries'')
      else if list_ex (\<lambda>j. jo_epoch_id j \<noteq> epoch) js then (JV_EPOCH_MISMATCH, [], ''journal epoch mismatch detected'')
      else if ordering_violated js then (JV_ORDERING_VIOLATION, [], ''journal ordering violation detected'')
      else if sequence_gaps js \<noteq> [] then (JV_SEQUENCE_GAP, sequence_gaps js, ''journal sequence gap detected'')
      else (JV_VALID, [], []))"

definition validate_journal :: "clock \<Rightarrow> 'w manager \<Rightarrow> journal_validation py \<times> 'w manager" where
  "validate_journal clock m =
     (let (now, m) = cm_now clock m; js = cm_journal m; (verdict, gaps, detail) = journal_finding (cm_epoch_id m) js
      in (py_bind (stable_identifier ''jval'' [(''epoch'', JStr (cm_epoch_id m)), (''at'', JStr now)])
           (\<lambda>i. check_validation \<lparr>jv_validation_id = i, jv_epoch_id = cm_epoch_id m, jv_entry_count = int (length js),
                jv_first_sequence = (if js = [] then 0 else jo_sequence (hd js)),
                jv_last_sequence = (if js = [] then 0 else jo_sequence (last js)),
                jv_verdict = verdict, jv_gap_positions = gaps, jv_detail = detail\<rparr>), m))"

definition advance_epoch :: "string \<Rightarrow> 'w manager \<Rightarrow> unit py \<times> 'w manager" where
  "advance_epoch new_epoch_id m =
     (if blank new_epoch_id then (Inl (RuntimeCoreInvariantError ''new_epoch_id must be non-empty''), m)
      else (Inr (), m\<lparr>cm_epoch_id := new_epoch_id, cm_sequence := 0\<rparr>))"

section \<open>Creating a checkpoint\<close>

definition manager_hash :: "'w supervisor \<Rightarrow> string" where
  "manager_hash s = sha256_hex (dumps_default (JObj
     [(''tick'', JInt (sv_tick_number s)), (''phase'', JStr (phase_value (sv_phase s))), (''errors'', JInt (sv_errors s)),
      (''idle'', JInt (sv_idle s)), (''processed'', JInt (int (card (sv_processed s))))]))"

definition compute_composite_hash :: "string list \<Rightarrow> string" where
  "compute_composite_hash hashes = sha256_hex (py_join '':'' (sort hashes))"

definition supervisor_payload :: "'w supervisor \<Rightarrow> (string \<times> pval) list" where
  "supervisor_payload s =
     [(''tick_number'', PInt (sv_tick_number s)), (''phase'', PStr (phase_value (sv_phase s))),
      (''processed_event_ids'', PList (map PStr (sorted_list_of_set (sv_processed s)))),
      (''consecutive_errors'', PInt (sv_errors s)), (''consecutive_idle_ticks'', PInt (sv_idle s)),
      (''halted'', PBool (sv_halted s))]"

text \<open>A snapshot of a subsystem, with an identifier made from the tick.\<close>

definition take_snapshot ::
  "string \<Rightarrow> checkpoint_scope \<Rightarrow> int \<Rightarrow> string \<Rightarrow> int \<Rightarrow> string \<Rightarrow> (string \<times> pval) list \<Rightarrow> subsystem_snapshot py" where
  "take_snapshot prefix scope tick_no state_hash record_count now payload =
     py_bind (stable_identifier prefix [(''tick'', JInt tick_no)]) (\<lambda>i.
       check_snapshot \<lparr>sn_snapshot_id = i, sn_scope = scope, sn_state_hash = state_hash, sn_record_count = record_count,
         sn_captured_at = now, sn_payload = payload\<rparr>)"

definition new_composite :: "string \<Rightarrow> 'w manager \<Rightarrow> composite_checkpoint py" where
  "new_composite now m =
     (let s = cm_supervisor m; n = sv_tick_number s; spine_hash = spine_state_hash (sv_spine s);
          obl_hash = obligations_hash (sv_obligations s)
      in py_bind (take_snapshot ''snap-spine'' CK_EVENT_SPINE n spine_hash (event_count (sv_spine s)) now (spine_snapshot (sv_spine s))) (\<lambda>sp.
         py_bind (take_snapshot ''snap-obl'' CK_OBLIGATION_RUNTIME n obl_hash (int (length (eg_obligations (sv_obligations s)))) now
             (obligations_snapshot (sv_obligations s))) (\<lambda>ob.
         py_bind (take_snapshot ''snap-sup'' CK_SUPERVISOR n (manager_hash s) n now (supervisor_payload s)) (\<lambda>su.
         py_bind (stable_identifier ''composite-cp'' [(''epoch'', JStr (cm_epoch_id m)), (''tick'', JInt n)]) (\<lambda>i.
           check_composite \<lparr>cc_checkpoint_id = i, cc_epoch_id = cm_epoch_id m, cc_tick_number = n,
             cc_snapshots = [su, sp, ob], cc_journal_sequence = cm_sequence m,
             cc_composite_hash = compute_composite_hash [spine_hash, obl_hash, manager_hash s], cc_created_at = now\<rparr>)))))"

definition create_checkpoint :: "clock \<Rightarrow> 'w manager \<Rightarrow> composite_checkpoint py \<times> 'w manager" where
  "create_checkpoint clock m =
     (let (now, m) = cm_now clock m
      in act_bind (new_composite now m, m) (\<lambda>c m.
         act_bind (append_journal clock JK_CHECKPOINT (cc_checkpoint_id c)
             [(''tick'', PInt (cc_tick_number c)), (''composite_hash'', PStr (cc_composite_hash c))]
             (m\<lparr>cm_checkpoints := cm_checkpoints m @ [c]\<rparr>)) (\<lambda>_ m. (Inr c, m))))"

section \<open>Restoring a checkpoint\<close>

definition restore_spine :: "(string \<times> pval) list \<Rightarrow> 'w manager \<Rightarrow> unit py \<times> 'w manager" where
  "restore_spine payload m =
     (let s = cm_supervisor m; (r, sp) = spine_restore (sv_spine s) payload
      in (r, m\<lparr>cm_supervisor := s\<lparr>sv_spine := sp\<rparr>\<rparr>))"

definition restore_obligations :: "(string \<times> pval) list \<Rightarrow> 'w manager \<Rightarrow> unit py \<times> 'w manager" where
  "restore_obligations payload m =
     (let s = cm_supervisor m; (r, ob) = obligations_restore (sv_obligations s) payload
      in (r, m\<lparr>cm_supervisor := s\<lparr>sv_obligations := ob\<rparr>\<rparr>))"

definition on_supervisor :: "('w supervisor \<Rightarrow> 'a py \<times> 'w supervisor) \<Rightarrow> 'w manager \<Rightarrow> 'a py \<times> 'w manager" where
  "on_supervisor f m = (let (r, s) = f (cm_supervisor m) in (r, m\<lparr>cm_supervisor := s\<rparr>))"

text \<open>\<open>bool(v)\<close> and \<open>set(v)\<close>.\<close>

fun py_truthy :: "pval \<Rightarrow> bool" where
  "py_truthy PNone = False"
| "py_truthy (PBool b) = b"
| "py_truthy (PInt n) = (n \<noteq> 0)"
| "py_truthy (PStr s) = (s \<noteq> [])"
| "py_truthy (PEnum cls s) = (s \<noteq> [])"
| "py_truthy (PList vs) = (vs \<noteq> [])"
| "py_truthy (PDict d) = (d \<noteq> [])"

fun hashable :: "pval \<Rightarrow> bool" where
  "hashable (PDict d) = False"
| "hashable (PList vs) = list_all hashable vs"
| "hashable v = True"

definition set_call :: "pval \<Rightarrow> pval list py" where
  "set_call v =
     (case v of
        PList vs \<Rightarrow> if list_all hashable vs then Inr vs else Inl (TypeError ''unhashable type'')
      | PStr s \<Rightarrow> Inr (map (\<lambda>c. PStr [c]) s)
      | PEnum cls s \<Rightarrow> Inr (map (\<lambda>c. PStr [c]) s)
      | PDict d \<Rightarrow> Inr (map (\<lambda>(k, x). PStr k) d)
      | _ \<Rightarrow> Inl (TypeError ''object is not iterable''))"

text \<open>The check of \<open>restore_processed_event_ids\<close> on values of any type.\<close>

definition restore_processed_values :: "'w supervisor \<Rightarrow> pval list \<Rightarrow> unit py \<times> 'w supervisor" where
  "restore_processed_values s vs =
     (if list_ex (\<lambda>v. pval_text v = None) vs
      then (Inl (RuntimeCoreInvariantError ''processed event IDs must be non-empty strings''), s)
      else restore_processed s (set (map (\<lambda>v. the (pval_text v)) vs)))"

definition rollback_all :: "clock \<Rightarrow> 'w supervisor \<Rightarrow> 'w manager \<Rightarrow> unit py \<times> 'w manager" where
  "rollback_all clock pre m =
     act_bind (restore_spine (spine_snapshot (sv_spine pre)) m) (\<lambda>_ m.
     act_bind (restore_obligations (obligations_snapshot (sv_obligations pre)) m) (\<lambda>_ m.
     let (now, m) = cm_now clock m
     in act_bind (py_bind (stable_identifier ''rollback'' [(''tick'', JInt (sv_tick_number pre))]) (\<lambda>i.
            check_checkpoint \<lparr>cp_checkpoint_id = i, cp_tick_number = sv_tick_number pre, cp_phase = sv_phase pre,
              cp_status = CS_VALID, cp_open_obligation_ids = [], cp_pending_event_count = 0,
              cp_consecutive_errors = sv_errors pre, cp_consecutive_idle_ticks = sv_idle pre,
              cp_recent_outcomes = sv_recent pre, cp_state_hash = ''rollback'', cp_created_at = now\<rparr>), m) (\<lambda>cp m.
        act_bind (on_supervisor (\<lambda>s. resume_from_checkpoint s cp) m) (\<lambda>_ m.
          on_supervisor (\<lambda>s. restore_processed s (sv_processed pre)) m))))"

text \<open>
  The checkpoint for the supervisor.  The first arguments of its constructor come from records that
  are checked already, so that the two counters are the only ones that can be refused.
\<close>

definition stored_checkpoint :: "composite_checkpoint \<Rightarrow> subsystem_snapshot \<Rightarrow> 'w supervisor \<Rightarrow> supervisor_checkpoint py" where
  "stored_checkpoint c su s =
     (let payload = sn_payload su
      in py_bind (if py_truthy (arg payload ''phase'')
                  then enum_call ''SupervisorPhase'' phase_value SUPERVISOR_PHASES (arg payload ''phase'')
                  else Inr (sv_phase s)) (\<lambda>phase.
         py_bind (non_negative_arg ''consecutive_errors'' (arg_or (PInt 0) payload ''consecutive_errors'')) (\<lambda>errors.
         py_bind (non_negative_arg ''consecutive_idle_ticks'' (arg_or (PInt 0) payload ''consecutive_idle_ticks'')) (\<lambda>idle.
           check_checkpoint \<lparr>cp_checkpoint_id = sn_snapshot_id su, cp_tick_number = cc_tick_number c, cp_phase = phase,
             cp_status = CS_VALID,
             cp_open_obligation_ids = map ob_obligation_id
               (filter (\<lambda>x. ob_state x \<notin> {OS_COMPLETED, OS_EXPIRED, OS_CANCELLED})
                 (sort_key ob_obligation_id (dict_values (eg_obligations (sv_obligations s))))),
             cp_pending_event_count = event_count (sv_spine s), cp_consecutive_errors = errors,
             cp_consecutive_idle_ticks = idle, cp_recent_outcomes = [], cp_state_hash = sn_state_hash su,
             cp_created_at = cc_created_at c\<rparr>))))"

text \<open>The part of \<open>restore_checkpoint\<close> whose exceptions cause a rollback.\<close>

definition restore_parts ::
  "composite_checkpoint \<Rightarrow> subsystem_snapshot \<Rightarrow> subsystem_snapshot \<Rightarrow> subsystem_snapshot \<Rightarrow> 'w manager \<Rightarrow> unit py \<times> 'w manager" where
  "restore_parts c sp ob su m =
     act_bind (restore_spine (sn_payload sp) m) (\<lambda>_ m.
     act_bind (restore_obligations (sn_payload ob) m) (\<lambda>_ m.
     act_bind (stored_checkpoint c su (cm_supervisor m), m) (\<lambda>cp m.
     act_bind (on_supervisor (\<lambda>s. resume_from_checkpoint s cp) m) (\<lambda>_ m.
     act_bind (set_call (arg_or (PList []) (sn_payload su) ''processed_event_ids''), m) (\<lambda>ids m.
       on_supervisor (\<lambda>s. restore_processed_values s ids) m)))))"

definition result_of :: "string \<Rightarrow> string \<Rightarrow> subsystem_result" where
  "result_of expected actual =
     \<lparr>su_expected = expected, su_actual = actual, su_match = (if expected = actual then ''yes'' else ''no'')\<rparr>"

definition verify_restore ::
  "clock \<Rightarrow> composite_checkpoint \<Rightarrow> subsystem_snapshot \<Rightarrow> subsystem_snapshot \<Rightarrow> subsystem_snapshot \<Rightarrow> 'w manager
    \<Rightarrow> restore_verification py \<times> 'w manager" where
  "verify_restore clock c sp ob su m =
     (let (now, m) = cm_now clock m; s = cm_supervisor m; spine_hash = spine_state_hash (sv_spine s);
          obl_hash = obligations_hash (sv_obligations s); sup_hash = manager_hash s;
          composite = compute_composite_hash [spine_hash, obl_hash, sup_hash]
      in (py_bind (stable_identifier ''rv'' [(''checkpoint'', JStr (cc_checkpoint_id c)), (''at'', JStr now)]) (\<lambda>i.
            check_verification \<lparr>rv_verification_id = i, rv_checkpoint_id = cc_checkpoint_id c, rv_epoch_id = cc_epoch_id c,
              rv_tick_number = cc_tick_number c,
              rv_verdict = (if composite = cc_composite_hash c then RV_VERIFIED else RV_HASH_MISMATCH),
              rv_expected_hash = cc_composite_hash c, rv_actual_hash = composite,
              rv_subsystem_results = [(''event_spine'', result_of (sn_state_hash sp) spine_hash),
                (''obligation_runtime'', result_of (sn_state_hash ob) obl_hash),
                (''supervisor'', result_of (sn_state_hash su) sup_hash)],
              rv_verified_at = now\<rparr>), m))"

definition journal_restore ::
  "clock \<Rightarrow> composite_checkpoint \<Rightarrow> bool \<Rightarrow> restore_verification option \<Rightarrow> 'w manager
    \<Rightarrow> restore_verification option py \<times> 'w manager" where
  "journal_restore clock c verify v m =
     act_bind (append_journal clock JK_RESUME (cc_checkpoint_id c)
         [(''restored_tick'', PInt (cc_tick_number c)), (''verified'', PBool verify),
          (''verdict'', PStr (case v of None \<Rightarrow> ''skipped'' | Some v \<Rightarrow> restore_verdict_value (rv_verdict v)))] m)
       (\<lambda>_ m. (Inr v, m))"

definition restore_checkpoint ::
  "clock \<Rightarrow> composite_checkpoint \<Rightarrow> bool \<Rightarrow> 'w manager \<Rightarrow> restore_verification option py \<times> 'w manager" where
  "restore_checkpoint clock c verify m =
     (case (snapshot_for c CK_EVENT_SPINE, snapshot_for c CK_OBLIGATION_RUNTIME, snapshot_for c CK_SUPERVISOR) of
        (Some sp, Some ob, Some su) \<Rightarrow>
          (let pre = cm_supervisor m
           in case restore_parts c sp ob su m of
                (Inl e, m) \<Rightarrow> act_bind (rollback_all clock pre m) (\<lambda>_ m. (Inl e, m))
              | (Inr _, m) \<Rightarrow>
                  if verify
                  then act_bind (verify_restore clock c sp ob su m) (\<lambda>v m.
                       let m = m\<lparr>cm_verifications := cm_verifications m @ [v]\<rparr>
                       in if rv_verdict v \<noteq> RV_VERIFIED
                          then act_bind (rollback_all clock pre m)
                                 (\<lambda>_ m. (Inl (RuntimeCoreInvariantError ''restore verification failed''), m))
                          else journal_restore clock c verify (Some v) m)
                  else journal_restore clock c verify None m)
      | _ \<Rightarrow> (Inl (RuntimeCoreInvariantError
               ''composite checkpoint must contain supervisor, event_spine, and obligation_runtime snapshots''), m))"

section \<open>Rollback\<close>

definition clock_ok :: "clock \<Rightarrow> bool" where
  "clock_ok clock \<longleftrightarrow> (\<forall>n. time_ok (clock n))"

text \<open>The parts a restoration touches; everything else is as in \<open>t\<close>.\<close>

definition restored_like :: "'w supervisor \<Rightarrow> 'w supervisor \<Rightarrow> bool" where
  "restored_like s t \<longleftrightarrow> t = s\<lparr>sv_spine := sv_spine t, sv_obligations := sv_obligations t, sv_tick_number := sv_tick_number t,
     sv_phase := sv_phase t, sv_errors := sv_errors t, sv_idle := sv_idle t, sv_recent := sv_recent t,
     sv_processed := sv_processed t, sv_halted := sv_halted t\<rparr>"

lemma restored_like_iff: "restored_like s t \<longleftrightarrow> sv_policy t = sv_policy s \<and> sv_world t = sv_world s \<and> sv_reads t = sv_reads s \<and>
    sv_livelocks t = sv_livelocks s \<and> sv_checkpoints t = sv_checkpoints s \<and> sv_heartbeats t = sv_heartbeats s \<and>
    sv_ticks t = sv_ticks s"
  by (cases s; cases t) (auto simp: restored_like_def)

lemma manager_ids: "\<exists>i. stable_identifier ''rollback'' p = Inr i \<and> \<not> blank i"
  "\<exists>i. stable_identifier ''journal'' p = Inr i \<and> \<not> blank i" "\<exists>i. stable_identifier ''jval'' p = Inr i \<and> \<not> blank i"
  "\<exists>i. stable_identifier ''snap-spine'' p = Inr i \<and> \<not> blank i" "\<exists>i. stable_identifier ''snap-obl'' p = Inr i \<and> \<not> blank i"
  "\<exists>i. stable_identifier ''snap-sup'' p = Inr i \<and> \<not> blank i" "\<exists>i. stable_identifier ''composite-cp'' p = Inr i \<and> \<not> blank i"
  "\<exists>i. stable_identifier ''rv'' p = Inr i \<and> \<not> blank i"
  by (rule stable_identifier_total, code_simp)+

lemma rollback_restores:
  assumes "supervisor_ok pre" and "sp_envelopes (sv_spine pre) = []" and "clock_ok clock"
    and "restored_like (cm_supervisor m) pre"
  shows "rollback_all clock pre m = (Inr (), m\<lparr>cm_supervisor := pre, cm_reads := Suc (cm_reads m)\<rparr>)"
proof -
  have ok: "spine_ok (sv_spine pre)" "engine_ok (sv_obligations pre)" "sv_processed pre \<subseteq> event_ids pre"
    using assms(1) by (simp_all add: supervisor_ok_def parts_ok_def)
  obtain i where i: "stable_identifier ''rollback'' [(''tick'', JInt (sv_tick_number pre))] = Inr i" "\<not> blank i"
    using manager_ids(1) by blast
  define cp where "cp = \<lparr>cp_checkpoint_id = i, cp_tick_number = sv_tick_number pre, cp_phase = sv_phase pre,
              cp_status = CS_VALID, cp_open_obligation_ids = [], cp_pending_event_count = 0,
              cp_consecutive_errors = sv_errors pre, cp_consecutive_idle_ticks = sv_idle pre,
              cp_recent_outcomes = sv_recent pre, cp_state_hash = ''rollback'', cp_created_at = clock (cm_reads m)\<rparr>"
  have fields: "cp_status cp = CS_VALID" "cp_tick_number cp = sv_tick_number pre" "cp_consecutive_errors cp = sv_errors pre"
    "cp_consecutive_idle_ticks cp = sv_idle pre" "cp_recent_outcomes cp = sv_recent pre" "cp_phase cp = sv_phase pre"
    by (simp_all add: cp_def)
  have "\<not> blank ''rollback''" by code_simp
  then have cp: "check_checkpoint cp = Inr cp"
    using assms(1,3) i by (auto simp: check_checkpoint_def cp_def py_bind_Inr_iff validators clock_ok_def time_ok_def
        supervisor_ok_def bounded_def)
  have "\<forall>e \<in> set (dict_values (sp_events (sv_spine pre))). event_ok e"
    using ok(1) filed_all unfolding spine_ok_def by blast
  then have named: "\<forall>e \<in> set (dict_values (sp_events (sv_spine pre))). \<not> blank (ev_event_id e)"
    by (simp add: event_ok_def)
  have nb: "\<not> (\<exists>i \<in> sv_processed pre. blank i)"
  proof
    assume "\<exists>i \<in> sv_processed pre. blank i"
    then obtain i where "i \<in> event_ids pre" "blank i" using ok(3) by (meson subsetD)
    then show False using named by (auto simp: event_ids_def)
  qed
  have halted: "sv_halted pre = (sv_phase pre = SP_HALTED)" using assms(1) by (simp add: supervisor_ok_def bounded_def)
  have "rollback_all clock pre m = (Inr (), m\<lparr>cm_reads := Suc (cm_reads m), cm_supervisor :=
      (cm_supervisor m)\<lparr>sv_spine := sv_spine pre, sv_obligations := sv_obligations pre, sv_tick_number := sv_tick_number pre,
        sv_errors := sv_errors pre, sv_idle := sv_idle pre, sv_recent := sv_recent pre, sv_phase := sv_phase pre,
        sv_halted := sv_halted pre, sv_processed := sv_processed pre\<rparr>\<rparr>)"
    unfolding rollback_all_def restore_spine_def restore_obligations_def Let_def
    by (simp add: spine_restored[OF ok(1) assms(2)] obligations_of_own_snapshot[OF ok(2)] act_bind_def cm_now_def i
        cp_def[symmetric] cp on_supervisor_def resume_from_checkpoint_def restore_processed_def nb halted fields)
  also have "\<dots> = (Inr (), m\<lparr>cm_supervisor := pre, cm_reads := Suc (cm_reads m)\<rparr>)"
    using assms(4) by (cases "cm_supervisor m"; cases pre) (simp add: restored_like_iff)
  finally show ?thesis .
qed

section \<open>The parts of a restoration\<close>

lemma bind_keeps: "P (snd r) \<Longrightarrow> (\<And>x t. P t \<Longrightarrow> P (snd (f x t))) \<Longrightarrow> P (snd (act_bind r f))"
  by (auto simp: act_bind_def split: prod.splits sum.splits)

text \<open>Only the restored parts of the supervisor change.\<close>

definition only_restored :: "'w manager \<Rightarrow> 'w manager \<Rightarrow> bool" where
  "only_restored m m' \<longleftrightarrow> restored_like (cm_supervisor m) (cm_supervisor m') \<and> cm_epoch_id m' = cm_epoch_id m \<and>
     cm_journal m' = cm_journal m \<and> cm_checkpoints m' = cm_checkpoints m \<and> cm_verifications m' = cm_verifications m \<and>
     cm_sequence m' = cm_sequence m \<and> cm_reads m' = cm_reads m"

lemma restore_steps_keep:
  "only_restored m n \<Longrightarrow> only_restored m (snd (restore_spine p n))"
  "only_restored m n \<Longrightarrow> only_restored m (snd (restore_obligations p n))"
  "only_restored m n \<Longrightarrow> only_restored m (snd (on_supervisor (\<lambda>s. resume_from_checkpoint s cp) n))"
  "only_restored m n \<Longrightarrow> only_restored m (snd (on_supervisor (\<lambda>s. restore_processed_values s ids) n))"
  by (auto simp: only_restored_def restored_like_iff restore_spine_def restore_obligations_def on_supervisor_def Let_def
      split_def resume_from_checkpoint_def restore_processed_values_def restore_processed_def)

lemma restore_parts_keeps: "only_restored m (snd (restore_parts c sp ob su m))"
proof -
  have "only_restored m m" by (simp add: only_restored_def restored_like_iff)
  then show ?thesis
    unfolding restore_parts_def
    by (intro bind_keeps[where P = "only_restored m"] restore_steps_keep) (simp_all add: restore_steps_keep)
qed

lemma restore_parts_from:
  assumes "restore_parts c sp ob su m = (Inr u, m')"
  shows "spine_of_snapshot (sn_payload sp) = Inr (sv_spine (cm_supervisor m')) \<and>
    obligations_of_snapshot (sn_payload ob) = Inr (sv_obligations (cm_supervisor m')) \<and>
    sv_tick_number (cm_supervisor m') = cc_tick_number c"
proof -
  have k: "check_checkpoint x = Inr y \<Longrightarrow> y = x" for x y
    by (auto simp: check_checkpoint_def py_bind_Inr_iff split: if_splits)
  have sc: "stored_checkpoint c su s = Inr cp \<Longrightarrow> cp_tick_number cp = cc_tick_number c" for s :: "'a supervisor" and cp
    by (auto simp: stored_checkpoint_def Let_def py_bind_Inr_iff dest!: k)
  show ?thesis
    using assms unfolding restore_parts_def
    by (elim bind_InrE)
       (auto simp: restore_spine_def restore_obligations_def on_supervisor_def spine_restore_def obligations_restore_def
          resume_from_checkpoint_def restore_processed_values_def restore_processed_def Let_def split: sum.splits if_splits prod.splits dest!: sc)
qed

text \<open>
  The supervisor \<open>t\<close> that the payload \<open>p\<close> of a snapshot makes of the supervisor \<open>s\<close>, at the tick \<open>n\<close>: spine and
  obligations aside, every field of it.
\<close>

definition supervisor_from :: "(string \<times> pval) list \<Rightarrow> int \<Rightarrow> 'w supervisor \<Rightarrow> 'w supervisor \<Rightarrow> bool" where
  "supervisor_from p n s t \<longleftrightarrow>
     (\<exists>phase errors idle vs ids.
        (if py_truthy (arg p ''phase'') then pval_text (arg p ''phase'') = Some (phase_value phase) else phase = sv_phase s) \<and>
        arg_or (PInt 0) p ''consecutive_errors'' = PInt errors \<and> 0 \<le> errors \<and>
        arg_or (PInt 0) p ''consecutive_idle_ticks'' = PInt idle \<and> 0 \<le> idle \<and>
        set_call (arg_or (PList []) p ''processed_event_ids'') = Inr vs \<and> map pval_text vs = map Some ids \<and>
        t = s\<lparr>sv_spine := sv_spine t, sv_obligations := sv_obligations t, sv_tick_number := n, sv_phase := phase,
              sv_errors := errors, sv_idle := idle, sv_recent := [], sv_processed := set ids,
              sv_halted := (phase = SP_HALTED)\<rparr>)"

lemma stored_checkpoint_from:
  assumes "stored_checkpoint c su s = Inr cp"
  shows "cp_tick_number cp = cc_tick_number c" "cp_recent_outcomes cp = []"
    and "if py_truthy (arg (sn_payload su) ''phase'') then pval_text (arg (sn_payload su) ''phase'') = Some (phase_value (cp_phase cp))
         else cp_phase cp = sv_phase s"
    and "arg_or (PInt 0) (sn_payload su) ''consecutive_errors'' = PInt (cp_consecutive_errors cp)" "0 \<le> cp_consecutive_errors cp"
    and "arg_or (PInt 0) (sn_payload su) ''consecutive_idle_ticks'' = PInt (cp_consecutive_idle_ticks cp)"
      "0 \<le> cp_consecutive_idle_ticks cp"
proof -
  have k: "check_checkpoint x = Inr y \<Longrightarrow> y = x" for x y
    by (auto simp: check_checkpoint_def py_bind_Inr_iff split: if_splits)
  have n: "non_negative_arg f v = Inr i \<Longrightarrow> v = PInt i \<and> 0 \<le> i" for f v i
    by (auto simp: non_negative_arg_def require_non_negative_int_def split: pval.splits if_splits)
  obtain phase errors idle where
    p: "(if py_truthy (arg (sn_payload su) ''phase'')
         then enum_call ''SupervisorPhase'' phase_value SUPERVISOR_PHASES (arg (sn_payload su) ''phase'')
         else Inr (sv_phase s)) = Inr phase"
    and e: "non_negative_arg ''consecutive_errors'' (arg_or (PInt 0) (sn_payload su) ''consecutive_errors'') = Inr errors"
    and i: "non_negative_arg ''consecutive_idle_ticks'' (arg_or (PInt 0) (sn_payload su) ''consecutive_idle_ticks'') = Inr idle"
    and cp: "cp_tick_number cp = cc_tick_number c" "cp_recent_outcomes cp = []" "cp_phase cp = phase"
      "cp_consecutive_errors cp = errors" "cp_consecutive_idle_ticks cp = idle"
    using assms unfolding stored_checkpoint_def Let_def by (auto simp: py_bind_Inr_iff simp del: arg_or_def dest!: k)
  show "cp_tick_number cp = cc_tick_number c" "cp_recent_outcomes cp = []" by (fact cp)+
  show "if py_truthy (arg (sn_payload su) ''phase'') then pval_text (arg (sn_payload su) ''phase'') = Some (phase_value (cp_phase cp))
     else cp_phase cp = sv_phase s"
    using p unfolding cp(3) by (auto simp: enum_call_def find_Some_iff split: if_splits option.splits)
  show "arg_or (PInt 0) (sn_payload su) ''consecutive_errors'' = PInt (cp_consecutive_errors cp)" "0 \<le> cp_consecutive_errors cp"
    using n[OF e] cp by simp_all
  show "arg_or (PInt 0) (sn_payload su) ''consecutive_idle_ticks'' = PInt (cp_consecutive_idle_ticks cp)"
    "0 \<le> cp_consecutive_idle_ticks cp"
    using n[OF i] cp by simp_all
qed

lemma restore_parts_supervisor:
  assumes "restore_parts c sp ob su m = (Inr u, m')"
  shows "supervisor_from (sn_payload su) (cc_tick_number c) (cm_supervisor m) (cm_supervisor m')"
proof -
  obtain m1 m2 cp m3 vs where 1: "restore_spine (sn_payload sp) m = (Inr (), m1)"
    and 2: "restore_obligations (sn_payload ob) m1 = (Inr (), m2)"
    and cp: "stored_checkpoint c su (cm_supervisor m2) = Inr cp"
    and 3: "on_supervisor (\<lambda>s. resume_from_checkpoint s cp) m2 = (Inr (), m3)"
    and vs: "set_call (arg_or (PList []) (sn_payload su) ''processed_event_ids'') = Inr vs"
    and 4: "on_supervisor (\<lambda>s. restore_processed_values s vs) m3 = (Inr (), m')"
    using assms unfolding restore_parts_def by (elim bind_InrE) auto
  let ?s = "cm_supervisor m" and ?t = "cm_supervisor m'"
  have "cm_supervisor m2 = ?s\<lparr>sv_spine := sv_spine (cm_supervisor m2), sv_obligations := sv_obligations (cm_supervisor m2)\<rparr>"
    using 1 2 by (auto simp: restore_spine_def restore_obligations_def Let_def split: prod.splits)
  note before = arg_cong[where f = sv_phase, OF this, simplified] this
  have three: "cm_supervisor m3 = (cm_supervisor m2)\<lparr>sv_tick_number := cp_tick_number cp, sv_errors := cp_consecutive_errors cp,
      sv_idle := cp_consecutive_idle_ticks cp, sv_recent := cp_recent_outcomes cp, sv_phase := cp_phase cp,
      sv_halted := (cp_phase cp = SP_HALTED)\<rparr>"
    using 3 by (auto simp: on_supervisor_def resume_from_checkpoint_def split: if_splits)
  let ?ids = "map (\<lambda>v. the (pval_text v)) vs"
  have texts: "list_all (\<lambda>v. pval_text v \<noteq> None) vs" and four: "?t = (cm_supervisor m3)\<lparr>sv_processed := set ?ids\<rparr>"
    using 4 by (auto simp: on_supervisor_def restore_processed_values_def restore_processed_def list_ex_iff list_all_iff
        split: if_splits)
  have "map pval_text vs = map Some ?ids" using texts by (auto simp: list_all_iff)
  moreover have "?t = ?s\<lparr>sv_spine := sv_spine ?t, sv_obligations := sv_obligations ?t, sv_tick_number := cc_tick_number c,
      sv_phase := cp_phase cp, sv_errors := cp_consecutive_errors cp, sv_idle := cp_consecutive_idle_ticks cp, sv_recent := [],
      sv_processed := set ?ids, sv_halted := (cp_phase cp = SP_HALTED)\<rparr>"
    unfolding four three stored_checkpoint_from(1,2)[OF cp] by (subst before(2)) simp
  ultimately show ?thesis
    unfolding supervisor_from_def using stored_checkpoint_from(3-7)[OF cp] vs unfolding before(1) by blast
qed

section \<open>The journal entry of a manager\<close>

definition manager_ok :: "'w manager \<Rightarrow> bool" where
  "manager_ok m \<longleftrightarrow> supervisor_ok (cm_supervisor m) \<and> \<not> blank (cm_epoch_id m) \<and> 0 \<le> cm_sequence m"

lemma append_journal_total:
  assumes "clock_ok clock" and "\<not> blank (cm_epoch_id m)" and "0 \<le> cm_sequence m" and "\<not> blank subject"
  obtains j where "append_journal clock kind subject payload m =
      (Inr j, m\<lparr>cm_reads := Suc (cm_reads m), cm_journal := cm_journal m @ [j], cm_sequence := cm_sequence m + 1\<rparr>)"
    and "jo_sequence j = cm_sequence m" and "jo_epoch_id j = cm_epoch_id m"
proof -
  obtain i where i: "stable_identifier ''journal'' [(''epoch'', JStr (cm_epoch_id m)), (''seq'', JInt (cm_sequence m))] = Inr i"
    "\<not> blank i" using manager_ids(2) by blast
  define j where "j = \<lparr>jo_entry_id = i, jo_epoch_id = cm_epoch_id m, jo_sequence = cm_sequence m,
                 jo_kind = kind, jo_subject_id = subject, jo_payload = payload, jo_recorded_at = clock (cm_reads m)\<rparr>"
  have "check_journal_entry j = Inr j"
    using assms i by (auto simp: check_journal_entry_def j_def py_bind_Inr_iff validators clock_ok_def time_ok_def)
  then have "append_journal clock kind subject payload m =
      (Inr j, m\<lparr>cm_reads := Suc (cm_reads m), cm_journal := cm_journal m @ [j], cm_sequence := cm_sequence m + 1\<rparr>)"
    using i by (simp add: append_journal_def cm_now_def act_bind_def j_def)
  then show ?thesis by (rule that) (simp_all add: j_def)
qed

lemma journal_restore_total:
  assumes "clock_ok clock" and "\<not> blank (cm_epoch_id m)" and "0 \<le> cm_sequence m" and "\<not> blank (cc_checkpoint_id c)"
  obtains m' where "journal_restore clock c verify v m = (Inr v, m')" and "cm_supervisor m' = cm_supervisor m"
proof -
  let ?p = "[(''restored_tick'', PInt (cc_tick_number c)), (''verified'', PBool verify),
          (''verdict'', PStr (case v of None \<Rightarrow> ''skipped'' | Some v \<Rightarrow> restore_verdict_value (rv_verdict v)))]"
  obtain j where j: "append_journal clock JK_RESUME (cc_checkpoint_id c) ?p m =
      (Inr j, m\<lparr>cm_reads := Suc (cm_reads m), cm_journal := cm_journal m @ [j], cm_sequence := cm_sequence m + 1\<rparr>)"
    using append_journal_total[OF assms, where kind = JK_RESUME and payload = ?p] by metis
  show ?thesis
    by (rule that[of "m\<lparr>cm_reads := Suc (cm_reads m), cm_journal := cm_journal m @ [j], cm_sequence := cm_sequence m + 1\<rparr>"])
       (simp_all add: journal_restore_def j act_bind_def)
qed

text \<open>A verification is always recorded.\<close>

lemma verify_total:
  assumes "clock_ok clock" and "check_composite c = Inr c" and "check_snapshot sp = Inr sp" and "check_snapshot ob = Inr ob"
    and "check_snapshot su = Inr su"
  obtains v where "verify_restore clock c sp ob su m = (Inr v, m\<lparr>cm_reads := Suc (cm_reads m)\<rparr>)"
    and "rv_verdict v = RV_VERIFIED \<longleftrightarrow> compute_composite_hash [spine_state_hash (sv_spine (cm_supervisor m)),
       obligations_hash (sv_obligations (cm_supervisor m)), manager_hash (cm_supervisor m)] = cc_composite_hash c"
proof -
  obtain i where i: "stable_identifier ''rv'' [(''checkpoint'', JStr (cc_checkpoint_id c)), (''at'', JStr (clock (cm_reads m)))] = Inr i"
    "\<not> blank i" using manager_ids(8) by blast
  let ?s = "cm_supervisor m"
  let ?h = "compute_composite_hash [spine_state_hash (sv_spine ?s), obligations_hash (sv_obligations ?s), manager_hash ?s]"
  define v where "v = \<lparr>rv_verification_id = i, rv_checkpoint_id = cc_checkpoint_id c, rv_epoch_id = cc_epoch_id c,
              rv_tick_number = cc_tick_number c,
              rv_verdict = (if ?h = cc_composite_hash c then RV_VERIFIED else RV_HASH_MISMATCH),
              rv_expected_hash = cc_composite_hash c, rv_actual_hash = ?h,
              rv_subsystem_results = [(''event_spine'', result_of (sn_state_hash sp) (spine_state_hash (sv_spine ?s))),
                (''obligation_runtime'', result_of (sn_state_hash ob) (obligations_hash (sv_obligations ?s))),
                (''supervisor'', result_of (sn_state_hash su) (manager_hash ?s))],
              rv_verified_at = clock (cm_reads m)\<rparr>"
  have lit: "\<not> blank ''event_spine''" "\<not> blank ''obligation_runtime''" "\<not> blank ''supervisor''" "\<not> blank ''yes''" "\<not> blank ''no''"
    by code_simp+
  have "check_verification v = Inr v"
    using assms i lit
    by (auto simp: check_verification_def v_def py_bind_Inr_iff validators clock_ok_def time_ok_def check_composite_def
        check_snapshot_def result_of_def sha256_hex_not_blank compute_composite_hash_def spine_state_hash_def
        obligations_hash_def manager_hash_def split: if_splits)
  then have "verify_restore clock c sp ob su m = (Inr v, m\<lparr>cm_reads := Suc (cm_reads m)\<rparr>)"
    using i by (simp add: verify_restore_def cm_now_def Let_def v_def)
  then show ?thesis by (rule that) (simp add: v_def)
qed

section \<open>All or nothing\<close>

lemma snapshot_for_checked:
  assumes "snapshot_for c scope = Some s" and "\<forall>s \<in> set (cc_snapshots c). check_snapshot s = Inr s"
  shows "check_snapshot s = Inr s"
  using assms by (auto simp: snapshot_for_def find_Some_iff)

lemma checked_composite_named: "check_composite c = Inr c \<Longrightarrow> \<not> blank (cc_checkpoint_id c)"
  by (simp add: check_composite_def py_bind_Inr_iff validators)

text \<open>What is left of a restoration once the parts are in place.\<close>

lemma restore_after_parts:
  assumes "clock_ok clock" and "check_composite c = Inr c" and "\<forall>s \<in> set (cc_snapshots c). check_snapshot s = Inr s"
    and s: "snapshot_for c CK_EVENT_SPINE = Some sp" "snapshot_for c CK_OBLIGATION_RUNTIME = Some ob" "snapshot_for c CK_SUPERVISOR = Some su"
    and r: "restore_parts c sp ob su m = (Inr (), m1)" and epoch: "\<not> blank (cm_epoch_id m1)" "0 \<le> cm_sequence m1"
    and rolled: "\<And>n. cm_supervisor n = cm_supervisor m1 \<Longrightarrow>
      rollback_all clock (cm_supervisor m) n = (Inr (), n\<lparr>cm_supervisor := cm_supervisor m, cm_reads := Suc (cm_reads n)\<rparr>)"
  shows "case restore_checkpoint clock c verify m of
      (Inl e, m') \<Rightarrow> cm_supervisor m' = cm_supervisor m
    | (Inr v, m') \<Rightarrow> cm_supervisor m' = cm_supervisor m1 \<and>
        (verify \<longrightarrow> compute_composite_hash [spine_state_hash (sv_spine (cm_supervisor m1)),
           obligations_hash (sv_obligations (cm_supervisor m1)), manager_hash (cm_supervisor m1)] = cc_composite_hash c)"
proof (cases verify)
  case False
  obtain m' where "journal_restore clock c False None m1 = (Inr None, m')" "cm_supervisor m' = cm_supervisor m1"
    using journal_restore_total[OF assms(1) epoch checked_composite_named[OF assms(2)]] by metis
  then show ?thesis using False by (simp add: restore_checkpoint_def s r)
next
  case True
  obtain v where v: "verify_restore clock c sp ob su m1 = (Inr v, m1\<lparr>cm_reads := Suc (cm_reads m1)\<rparr>)"
    "rv_verdict v = RV_VERIFIED \<longleftrightarrow> compute_composite_hash [spine_state_hash (sv_spine (cm_supervisor m1)),
       obligations_hash (sv_obligations (cm_supervisor m1)), manager_hash (cm_supervisor m1)] = cc_composite_hash c"
    using verify_total[OF assms(1,2) s[THEN snapshot_for_checked, OF assms(3)]] by metis
  let ?m = "m1\<lparr>cm_reads := Suc (cm_reads m1), cm_verifications := cm_verifications m1 @ [v]\<rparr>"
  show ?thesis
  proof (cases "rv_verdict v = RV_VERIFIED")
    case False
    then show ?thesis using True v(1) by (simp add: restore_checkpoint_def s r rolled act_bind_def)
  next
    case verified: True
    have "\<not> blank (cm_epoch_id ?m)" "0 \<le> cm_sequence ?m" using epoch by simp_all
    then obtain m' where "journal_restore clock c True (Some v) ?m = (Inr (Some v), m')" "cm_supervisor m' = cm_supervisor ?m"
      using journal_restore_total[OF assms(1) _ _ checked_composite_named[OF assms(2)]] by metis
    then show ?thesis using True v verified by (simp add: restore_checkpoint_def s r act_bind_def)
  qed
qed

text \<open>
  C22: while the spine holds no envelope, a restoration is all or nothing: if it raises, for whatever
  reason, spine, obligations and supervisor are exactly as before; otherwise spine and obligations
  are those of the snapshots, every other field of the supervisor is what its snapshot and the
  checkpoint say, or untouched, and, when verification is asked for, the composite hash of the
  restored state is the one recorded.
\<close>

theorem restore_all_or_nothing:
  assumes "manager_ok m" and "clock_ok clock" and "sp_envelopes (sv_spine (cm_supervisor m)) = []"
    and "check_composite c = Inr c" and "\<forall>s \<in> set (cc_snapshots c). check_snapshot s = Inr s"
  shows "case restore_checkpoint clock c verify m of
      (Inl e, m') \<Rightarrow> cm_supervisor m' = cm_supervisor m
    | (Inr v, m') \<Rightarrow> \<exists>sp ob su. snapshot_for c CK_EVENT_SPINE = Some sp \<and> snapshot_for c CK_OBLIGATION_RUNTIME = Some ob \<and>
        snapshot_for c CK_SUPERVISOR = Some su \<and>
        spine_of_snapshot (sn_payload sp) = Inr (sv_spine (cm_supervisor m')) \<and>
        obligations_of_snapshot (sn_payload ob) = Inr (sv_obligations (cm_supervisor m')) \<and>
        supervisor_from (sn_payload su) (cc_tick_number c) (cm_supervisor m) (cm_supervisor m') \<and>
        (verify \<longrightarrow> compute_composite_hash [spine_state_hash (sv_spine (cm_supervisor m')),
           obligations_hash (sv_obligations (cm_supervisor m')), manager_hash (cm_supervisor m')] = cc_composite_hash c)"
proof (cases "\<exists>sp ob su. snapshot_for c CK_EVENT_SPINE = Some sp \<and> snapshot_for c CK_OBLIGATION_RUNTIME = Some ob \<and>
    snapshot_for c CK_SUPERVISOR = Some su")
  case False
  then show ?thesis by (auto simp: restore_checkpoint_def split: option.splits)
next
  case True
  then obtain sp ob su where s: "snapshot_for c CK_EVENT_SPINE = Some sp" "snapshot_for c CK_OBLIGATION_RUNTIME = Some ob"
    "snapshot_for c CK_SUPERVISOR = Some su" by blast
  obtain r m1 where r: "restore_parts c sp ob su m = (r, m1)" by (cases "restore_parts c sp ob su m")
  have keep: "only_restored m m1" using restore_parts_keeps[of m c sp ob su] r by simp
  have sok: "supervisor_ok (cm_supervisor m)" using assms(1) by (simp add: manager_ok_def)
  have rolled: "rollback_all clock (cm_supervisor m) n = (Inr (), n\<lparr>cm_supervisor := cm_supervisor m, cm_reads := Suc (cm_reads n)\<rparr>)"
    if "cm_supervisor n = cm_supervisor m1" for n
    using keep that by (intro rollback_restores[OF sok assms(3,2)]) (simp add: only_restored_def restored_like_iff)
  show ?thesis
  proof (cases r)
    case (Inl e)
    then show ?thesis by (simp add: restore_checkpoint_def s r rolled act_bind_def)
  next
    case (Inr u)
    then have r': "restore_parts c sp ob su m = (Inr (), m1)" using r by simp
    have epoch: "\<not> blank (cm_epoch_id m1)" "0 \<le> cm_sequence m1"
      using keep assms(1) by (simp_all add: only_restored_def manager_ok_def)
    have whence: "supervisor_from (sn_payload su) (cc_tick_number c) (cm_supervisor m) (cm_supervisor m1)"
      by (rule restore_parts_supervisor[OF r'])
    from restore_after_parts[OF assms(2,4,5) s r' epoch rolled, of verify] restore_parts_from[OF r']
    show ?thesis using s whence by (auto split: prod.splits sum.splits)
  qed
qed

section \<open>Checkpoint and restore\<close>

lemma supervisor_phases: "inj phase_value" "set SUPERVISOR_PHASES = UNIV"
proof -
  show *: "set SUPERVISOR_PHASES = UNIV"
    by (auto simp: SUPERVISOR_PHASES_def intro: supervisor_phase.exhaust)
  have "distinct (map phase_value SUPERVISOR_PHASES)" by code_simp
  with * show "inj phase_value" by (simp add: distinct_map)
qed

lemma new_composite_total:
  assumes "manager_ok m" and "time_ok now"
  obtains c sp ob su where "new_composite now m = Inr c" and "check_composite c = Inr c"
    and "\<forall>s \<in> set (cc_snapshots c). check_snapshot s = Inr s"
    and "snapshot_for c CK_EVENT_SPINE = Some sp" and "snapshot_for c CK_OBLIGATION_RUNTIME = Some ob"
    and "snapshot_for c CK_SUPERVISOR = Some su"
    and "sn_payload sp = spine_snapshot (sv_spine (cm_supervisor m))"
    and "sn_payload ob = obligations_snapshot (sv_obligations (cm_supervisor m))"
    and "sn_payload su = supervisor_payload (cm_supervisor m)"
    and "cc_tick_number c = sv_tick_number (cm_supervisor m)"
    and "cc_composite_hash c = compute_composite_hash [spine_state_hash (sv_spine (cm_supervisor m)),
       obligations_hash (sv_obligations (cm_supervisor m)), manager_hash (cm_supervisor m)]"
proof -
  let ?s = "cm_supervisor m"
  obtain i where i: "stable_identifier ''snap-spine'' [(''tick'', JInt (sv_tick_number ?s))] = Inr i" "\<not> blank i"
    using manager_ids(4) by blast
  obtain j where j: "stable_identifier ''snap-obl'' [(''tick'', JInt (sv_tick_number ?s))] = Inr j" "\<not> blank j"
    using manager_ids(5) by blast
  obtain k where k: "stable_identifier ''snap-sup'' [(''tick'', JInt (sv_tick_number ?s))] = Inr k" "\<not> blank k"
    using manager_ids(6) by blast
  obtain l where l: "stable_identifier ''composite-cp'' [(''epoch'', JStr (cm_epoch_id m)), (''tick'', JInt (sv_tick_number ?s))] = Inr l"
    "\<not> blank l" using manager_ids(7) by blast
  have n: "0 \<le> sv_tick_number ?s" using assms(1) by (simp add: manager_ok_def supervisor_ok_def bounded_def)
  define sp where "sp = \<lparr>sn_snapshot_id = i, sn_scope = CK_EVENT_SPINE, sn_state_hash = spine_state_hash (sv_spine ?s),
    sn_record_count = event_count (sv_spine ?s), sn_captured_at = now, sn_payload = spine_snapshot (sv_spine ?s)\<rparr>"
  define ob where "ob = \<lparr>sn_snapshot_id = j, sn_scope = CK_OBLIGATION_RUNTIME, sn_state_hash = obligations_hash (sv_obligations ?s),
    sn_record_count = int (length (eg_obligations (sv_obligations ?s))), sn_captured_at = now,
    sn_payload = obligations_snapshot (sv_obligations ?s)\<rparr>"
  define su where "su = \<lparr>sn_snapshot_id = k, sn_scope = CK_SUPERVISOR, sn_state_hash = manager_hash ?s,
    sn_record_count = sv_tick_number ?s, sn_captured_at = now, sn_payload = supervisor_payload ?s\<rparr>"
  define c where "c = \<lparr>cc_checkpoint_id = l, cc_epoch_id = cm_epoch_id m, cc_tick_number = sv_tick_number ?s,
             cc_snapshots = [su, sp, ob], cc_journal_sequence = cm_sequence m,
             cc_composite_hash = compute_composite_hash [spine_state_hash (sv_spine ?s), obligations_hash (sv_obligations ?s),
               manager_hash ?s], cc_created_at = now\<rparr>"
  have ch: "check_snapshot sp = Inr sp" "check_snapshot ob = Inr ob" "check_snapshot su = Inr su"
    using assms(2) i j k n
    by (simp_all add: check_snapshot_def sp_def ob_def su_def py_bind_Inr_iff validators time_ok_def event_count_def
        spine_state_hash_def obligations_hash_def manager_hash_def sha256_hex_not_blank)
  have cc: "check_composite c = Inr c"
    using assms l n
    by (simp add: check_composite_def c_def su_def sp_def ob_def py_bind_Inr_iff validators time_ok_def manager_ok_def
        compute_composite_hash_def sha256_hex_not_blank)
  have "new_composite now m = Inr c"
    using i(1) j(1) k(1) l(1) ch cc
    by (simp add: new_composite_def Let_def take_snapshot_def sp_def[symmetric] ob_def[symmetric] su_def[symmetric] c_def[symmetric])
  then show ?thesis
    using ch cc
    by (intro that[of c sp ob su]) (simp_all add: c_def sp_def ob_def su_def snapshot_for_def)
qed

lemma own_processed_values:
  assumes "parts_ok s"
  shows "restore_processed_values t (map PStr (sorted_list_of_set (sv_processed s))) = (Inr (), t\<lparr>sv_processed := sv_processed s\<rparr>)"
proof -
  have fin: "finite (sv_processed s)"
    using assms by (auto simp: parts_ok_def event_ids_def intro: finite_subset)
  have events: "\<forall>e \<in> set (dict_values (sp_events (sv_spine s))). event_ok e"
    using assms filed_all unfolding parts_ok_def spine_ok_def by blast
  have "\<not> blank i" if "i \<in> sv_processed s" for i
  proof -
    have "i \<in> event_ids s" using assms that by (auto simp: parts_ok_def)
    then show ?thesis using events by (auto simp: event_ids_def event_ok_def)
  qed
  then show ?thesis
    using fin by (auto simp: restore_processed_values_def restore_processed_def list_ex_iff image_image)
qed

lemma own_stored_checkpoint:
  assumes "supervisor_ok s" and "check_composite c = Inr c" and "check_snapshot su = Inr su"
    and "sn_payload su = supervisor_payload s" and "engine_ok (sv_obligations t)"
  obtains cp where "stored_checkpoint c su t = Inr cp" and "cp_tick_number cp = cc_tick_number c" and "cp_phase cp = sv_phase s"
    and "cp_status cp = CS_VALID" and "cp_consecutive_errors cp = sv_errors s" and "cp_consecutive_idle_ticks cp = sv_idle s"
    and "cp_recent_outcomes cp = []"
proof -
  let ?open = "filter (\<lambda>x. ob_state x \<notin> {OS_COMPLETED, OS_EXPIRED, OS_CANCELLED})
                 (sort_key ob_obligation_id (dict_values (eg_obligations (sv_obligations t))))"
  define cp where "cp = \<lparr>cp_checkpoint_id = sn_snapshot_id su, cp_tick_number = cc_tick_number c, cp_phase = sv_phase s,
             cp_status = CS_VALID, cp_open_obligation_ids = map ob_obligation_id ?open,
             cp_pending_event_count = event_count (sv_spine t), cp_consecutive_errors = sv_errors s,
             cp_consecutive_idle_ticks = sv_idle s, cp_recent_outcomes = [], cp_state_hash = sn_state_hash su,
             cp_created_at = cc_created_at c\<rparr>"
  have "\<forall>x \<in> set (dict_values (eg_obligations (sv_obligations t))). \<not> blank (ob_obligation_id x)"
    using assms(5) filed_all by (fastforce simp: engine_ok_def stored_ok_def obligation_ok_def)
  then have "\<not> list_ex blank (map ob_obligation_id ?open)" by (auto simp: list_ex_iff)
  then have "check_checkpoint cp = Inr cp"
    using assms(1-3)
    by (auto simp: check_checkpoint_def cp_def py_bind_Inr_iff validators check_composite_def check_snapshot_def
        event_count_def supervisor_ok_def bounded_def split: if_splits)
  moreover have "enum_call ''SupervisorPhase'' phase_value SUPERVISOR_PHASES (PStr (phase_value (sv_phase s))) = Inr (sv_phase s)"
    by (simp add: enum_call_ok[OF supervisor_phases])
  moreover have "phase_value (sv_phase s) \<noteq> []" by (cases "sv_phase s") simp_all
  moreover have "non_negative_arg f (PInt (sv_errors s)) = Inr (sv_errors s)" "non_negative_arg f (PInt (sv_idle s)) = Inr (sv_idle s)" for f
    using assms(1) by (simp_all add: validators supervisor_ok_def bounded_def)
  ultimately have "stored_checkpoint c su t = Inr cp"
    by (simp add: stored_checkpoint_def assms(4) supervisor_payload_def cp_def)
  then show ?thesis by (rule that) (simp_all add: cp_def)
qed

text \<open>A checkpoint is created, with all that its restoration needs.\<close>

lemma create_total:
  assumes "manager_ok m" and "clock_ok clock"
  obtains c sp ob su m1 where "create_checkpoint clock m = (Inr c, m1)" and "cm_supervisor m1 = cm_supervisor m"
    and "check_composite c = Inr c" and "\<forall>s \<in> set (cc_snapshots c). check_snapshot s = Inr s"
    and "snapshot_for c CK_EVENT_SPINE = Some sp" and "snapshot_for c CK_OBLIGATION_RUNTIME = Some ob"
    and "snapshot_for c CK_SUPERVISOR = Some su"
    and "sn_payload sp = spine_snapshot (sv_spine (cm_supervisor m))"
    and "sn_payload ob = obligations_snapshot (sv_obligations (cm_supervisor m))"
    and "sn_payload su = supervisor_payload (cm_supervisor m)"
    and "cc_tick_number c = sv_tick_number (cm_supervisor m)"
    and "cc_composite_hash c = compute_composite_hash [spine_state_hash (sv_spine (cm_supervisor m)),
       obligations_hash (sv_obligations (cm_supervisor m)), manager_hash (cm_supervisor m)]"
proof -
  let ?m = "m\<lparr>cm_reads := Suc (cm_reads m)\<rparr>"
  have "manager_ok ?m" "time_ok (clock (cm_reads m))" using assms by (simp_all add: manager_ok_def clock_ok_def)
  then obtain c sp ob su where c: "new_composite (clock (cm_reads m)) ?m = Inr c" "check_composite c = Inr c"
    "\<forall>s \<in> set (cc_snapshots c). check_snapshot s = Inr s"
    "snapshot_for c CK_EVENT_SPINE = Some sp" "snapshot_for c CK_OBLIGATION_RUNTIME = Some ob" "snapshot_for c CK_SUPERVISOR = Some su"
    "sn_payload sp = spine_snapshot (sv_spine (cm_supervisor m))" "sn_payload ob = obligations_snapshot (sv_obligations (cm_supervisor m))"
    "sn_payload su = supervisor_payload (cm_supervisor m)"
    "cc_tick_number c = sv_tick_number (cm_supervisor m)"
    "cc_composite_hash c = compute_composite_hash [spine_state_hash (sv_spine (cm_supervisor m)),
       obligations_hash (sv_obligations (cm_supervisor m)), manager_hash (cm_supervisor m)]"
    by (rule new_composite_total) simp_all
  let ?m1 = "?m\<lparr>cm_checkpoints := cm_checkpoints m @ [c]\<rparr>"
  have "\<not> blank (cm_epoch_id ?m1)" "0 \<le> cm_sequence ?m1" using assms(1) by (simp_all add: manager_ok_def)
  then obtain j where j: "append_journal clock JK_CHECKPOINT (cc_checkpoint_id c)
      [(''tick'', PInt (cc_tick_number c)), (''composite_hash'', PStr (cc_composite_hash c))] ?m1 =
      (Inr j, ?m1\<lparr>cm_reads := Suc (cm_reads ?m1), cm_journal := cm_journal ?m1 @ [j], cm_sequence := cm_sequence ?m1 + 1\<rparr>)"
    using append_journal_total[OF assms(2) _ _ checked_composite_named[OF c(2)], where kind = JK_CHECKPOINT] by metis
  obtain m1 where "create_checkpoint clock m = (Inr c, m1)" "cm_supervisor m1 = cm_supervisor m"
    using c(1) j by (simp add: create_checkpoint_def cm_now_def act_bind_def)
  then show ?thesis using c(2-) by (rule that)
qed

text \<open>
  C23: on the condition that the spine holds no envelope when it is taken, a checkpoint can be
  created, leaves the subsystems alone, and can be restored: whatever happened since, restoring it is
  verified and brings back the spine, the obligations, and the supervisor's tick, phase, counters,
  halted state and processed events exactly; the window of recent outcomes is not brought back but
  empty, and the rest of the supervisor stays as it is.
\<close>

theorem checkpoint_restores:
  assumes "manager_ok m" and "clock_ok clock" and "sp_envelopes (sv_spine (cm_supervisor m)) = []" and "manager_ok m2"
  shows "\<exists>c m1 v m3. create_checkpoint clock m = (Inr c, m1) \<and> cm_supervisor m1 = cm_supervisor m \<and>
    restore_checkpoint clock c True m2 = (Inr (Some v), m3) \<and> rv_verdict v = RV_VERIFIED \<and>
    cm_supervisor m3 = (cm_supervisor m2)\<lparr>sv_spine := sv_spine (cm_supervisor m), sv_obligations := sv_obligations (cm_supervisor m),
      sv_tick_number := sv_tick_number (cm_supervisor m), sv_errors := sv_errors (cm_supervisor m),
      sv_idle := sv_idle (cm_supervisor m), sv_recent := [], sv_phase := sv_phase (cm_supervisor m),
      sv_halted := sv_halted (cm_supervisor m), sv_processed := sv_processed (cm_supervisor m)\<rparr>"
proof -
  let ?s = "cm_supervisor m"
  have ok: "supervisor_ok ?s" "parts_ok ?s" "spine_ok (sv_spine ?s)" "engine_ok (sv_obligations ?s)"
    "sv_halted ?s = (sv_phase ?s = SP_HALTED)"
    using assms(1) by (simp_all add: manager_ok_def supervisor_ok_def parts_ok_def bounded_def)
  obtain c sp ob su m1 where m1: "create_checkpoint clock m = (Inr c, m1)" "cm_supervisor m1 = ?s"
    and c: "check_composite c = Inr c" "\<forall>s \<in> set (cc_snapshots c). check_snapshot s = Inr s"
    and snaps: "snapshot_for c CK_EVENT_SPINE = Some sp" "snapshot_for c CK_OBLIGATION_RUNTIME = Some ob"
    "snapshot_for c CK_SUPERVISOR = Some su"
    and payload: "sn_payload sp = spine_snapshot (sv_spine ?s)" "sn_payload ob = obligations_snapshot (sv_obligations ?s)"
    "sn_payload su = supervisor_payload ?s"
    and cc: "cc_tick_number c = sv_tick_number ?s" "cc_composite_hash c = compute_composite_hash [spine_state_hash (sv_spine ?s),
       obligations_hash (sv_obligations ?s), manager_hash ?s]"
    by (rule create_total[OF assms(1,2)])
  let ?t = "(cm_supervisor m2)\<lparr>sv_spine := sv_spine ?s, sv_obligations := sv_obligations ?s\<rparr>"
  obtain cp where cp: "stored_checkpoint c su ?t = Inr cp" "cp_tick_number cp = cc_tick_number c" "cp_phase cp = sv_phase ?s"
    "cp_status cp = CS_VALID" "cp_consecutive_errors cp = sv_errors ?s" "cp_consecutive_idle_ticks cp = sv_idle ?s"
    "cp_recent_outcomes cp = []"
    using own_stored_checkpoint[OF ok(1) c(1) snapshot_for_checked[OF snaps(3) c(2)] payload(3), of ?t] ok(4) by auto
  let ?u = "(cm_supervisor m2)\<lparr>sv_spine := sv_spine ?s, sv_obligations := sv_obligations ?s,
      sv_tick_number := sv_tick_number ?s, sv_errors := sv_errors ?s, sv_idle := sv_idle ?s, sv_recent := [],
      sv_phase := sv_phase ?s, sv_halted := sv_halted ?s, sv_processed := sv_processed ?s\<rparr>"
  have ids: "set_call (arg_or (PList []) (supervisor_payload ?s) ''processed_event_ids'') =
      Inr (map PStr (sorted_list_of_set (sv_processed ?s)))"
    by (simp add: supervisor_payload_def set_call_def list_all_iff)
  have parts: "restore_parts c sp ob su m2 = (Inr (), m2\<lparr>cm_supervisor := ?u\<rparr>)"
    unfolding restore_parts_def restore_spine_def restore_obligations_def Let_def
    by (simp add: payload spine_restored[OF ok(3) assms(3)] obligations_of_own_snapshot[OF ok(4)] act_bind_def cp
        on_supervisor_def resume_from_checkpoint_def ids own_processed_values[OF ok(2)] cc ok(5))
  let ?n = "m2\<lparr>cm_supervisor := ?u\<rparr>"
  have hashes: "manager_hash ?u = manager_hash ?s" by (simp add: manager_hash_def)
  obtain v where v: "verify_restore clock c sp ob su ?n = (Inr v, ?n\<lparr>cm_reads := Suc (cm_reads ?n)\<rparr>)" "rv_verdict v = RV_VERIFIED"
    using verify_total[OF assms(2) c(1) snaps[THEN snapshot_for_checked, OF c(2)], of ?n] hashes cc by auto
  let ?w = "?n\<lparr>cm_reads := Suc (cm_reads ?n), cm_verifications := cm_verifications ?n @ [v]\<rparr>"
  have "\<not> blank (cm_epoch_id ?w)" "0 \<le> cm_sequence ?w" using assms(4) by (simp_all add: manager_ok_def)
  then obtain m3 where "journal_restore clock c True (Some v) ?w = (Inr (Some v), m3)" "cm_supervisor m3 = cm_supervisor ?w"
    using journal_restore_total[OF assms(2) _ _ checked_composite_named[OF c(1)]] by metis
  then have "restore_checkpoint clock c True m2 = (Inr (Some v), m3)" "cm_supervisor m3 = ?u"
    by (simp_all add: restore_checkpoint_def snaps parts v act_bind_def)
  then show ?thesis using m1 v(2) by blast
qed

section \<open>What a validation tells\<close>

lemma ordering_iff: "\<not> ordering_violated js \<longleftrightarrow> sorted_wrt (<) (map jo_sequence js)"
proof (induction js rule: ordering_violated.induct)
  case (1 a b js)
  show ?case
  proof (cases "jo_sequence b \<le> jo_sequence a")
    case False
    then have "sorted_wrt (<) (map jo_sequence (b # js)) \<Longrightarrow> \<forall>j \<in> set js. jo_sequence a < jo_sequence j"
      by fastforce
    then show ?thesis using 1 False by auto
  qed auto
qed simp_all

lemma gaps_iff: "sequence_gaps js = [] \<longleftrightarrow> js = [] \<or> map jo_sequence js = [jo_sequence (hd js)..jo_sequence (hd js) + int (length js) - 1]"
proof (induction js rule: sequence_gaps.induct)
  case (1 a b js)
  let ?a = "jo_sequence a" and ?b = "jo_sequence b"
  have up: "[?a..?a + int (length (a # b # js)) - 1] = ?a # [?a + 1..?a + 1 + int (length (b # js)) - 1]"
    by (subst upto.simps) (simp add: algebra_simps)
  have hd: "[?a + 1..?a + 1 + int (length (b # js)) - 1] = (?a + 1) # [?a + 2..?a + 1 + int (length (b # js)) - 1]"
    by (subst upto.simps) (simp add: algebra_simps)
  show ?case
  proof (cases "?b = ?a + 1")
    case True
    then show ?thesis using 1 up by simp
  next
    case False
    then show ?thesis using up hd by auto
  qed
qed simp_all

lemma gaps_positive: "\<forall>j \<in> set js. 0 \<le> jo_sequence j \<Longrightarrow> \<forall>g \<in> set (sequence_gaps js). 0 \<le> g"
  by (induction js rule: sequence_gaps.induct) auto

lemma validate_total:
  assumes "clock_ok clock" and "\<not> blank (cm_epoch_id m)" and "\<forall>j \<in> set (cm_journal m). 0 \<le> jo_sequence j"
  obtains v where "validate_journal clock m = (Inr v, m\<lparr>cm_reads := Suc (cm_reads m)\<rparr>)"
    and "jv_verdict v = fst (journal_finding (cm_epoch_id m) (cm_journal m))" and "jv_entry_count v = int (length (cm_journal m))"
proof -
  obtain i where i: "stable_identifier ''jval'' [(''epoch'', JStr (cm_epoch_id m)), (''at'', JStr (clock (cm_reads m)))] = Inr i"
    "\<not> blank i" using manager_ids(3) by blast
  obtain verdict gaps detail where f: "journal_finding (cm_epoch_id m) (cm_journal m) = (verdict, gaps, detail)"
    by (cases "journal_finding (cm_epoch_id m) (cm_journal m)") auto
  have g: "\<forall>g \<in> set gaps. 0 \<le> g"
    using f gaps_positive[OF assms(3)] by (auto simp: journal_finding_def split: if_splits)
  define p where "p = (if cm_journal m = [] then 0 else jo_sequence (hd (cm_journal m)))"
  define q where "q = (if cm_journal m = [] then 0 else jo_sequence (last (cm_journal m)))"
  have pq: "0 \<le> p" "0 \<le> q" using assms(3) by (auto simp: p_def q_def)
  define v where "v = \<lparr>jv_validation_id = i, jv_epoch_id = cm_epoch_id m, jv_entry_count = int (length (cm_journal m)),
                jv_first_sequence = p, jv_last_sequence = q,
                jv_verdict = verdict, jv_gap_positions = gaps, jv_detail = detail\<rparr>"
  have "check_validation v = Inr v"
    using assms i g pq by (auto simp: check_validation_def v_def py_bind_Inr_iff validators list_ex_iff)
  then have "validate_journal clock m = (Inr v, m\<lparr>cm_reads := Suc (cm_reads m)\<rparr>)"
    using i by (simp add: validate_journal_def cm_now_def Let_def f v_def p_def[symmetric] q_def[symmetric] split del: if_split cong: if_cong)
  then show ?thesis by (rule that) (simp_all add: v_def f)
qed

text \<open>
  C24: validating a journal never fails and tells exactly what it holds: it is valid precisely when it
  has entries, all of the current epoch, with consecutive sequence numbers; a gap is reported for
  entries of the epoch in strictly increasing order that are not consecutive, an ordering violation
  for entries of the epoch that are not in strictly increasing order.
\<close>

theorem journal_verdict:
  assumes "clock_ok clock" and "\<not> blank (cm_epoch_id m)" and "\<forall>j \<in> set (cm_journal m). 0 \<le> jo_sequence j"
  shows "\<exists>v. validate_journal clock m = (Inr v, m\<lparr>cm_reads := Suc (cm_reads m)\<rparr>) \<and>
    (let js = cm_journal m; ns = map jo_sequence js; same = (\<forall>j \<in> set js. jo_epoch_id j = cm_epoch_id m);
         next = (ns = [jo_sequence (hd js)..jo_sequence (hd js) + int (length js) - 1])
     in jv_verdict v =
       (if js = [] then JV_EMPTY_JOURNAL else if \<not> same then JV_EPOCH_MISMATCH
        else if \<not> sorted_wrt (<) ns then JV_ORDERING_VIOLATION else if \<not> next then JV_SEQUENCE_GAP else JV_VALID))"
proof -
  obtain v where v: "validate_journal clock m = (Inr v, m\<lparr>cm_reads := Suc (cm_reads m)\<rparr>)"
    "jv_verdict v = fst (journal_finding (cm_epoch_id m) (cm_journal m))"
    using validate_total[OF assms] by metis
  show ?thesis
    by (rule exI[of _ v]) (simp add: v Let_def journal_finding_def list_ex_iff ordering_iff[symmetric] gaps_iff)
qed

text \<open>What a manager does, apart from starting a new epoch.\<close>

inductive manager_step :: "clock \<Rightarrow> 'w manager \<Rightarrow> 'w manager \<Rightarrow> bool" for clock where
  mg_append: "manager_step clock m (snd (append_journal clock kind subject payload m))"
| mg_create: "manager_step clock m (snd (create_checkpoint clock m))"
| mg_restore: "manager_step clock m (snd (restore_checkpoint clock c verify m))"
| mg_validate: "manager_step clock m (snd (validate_journal clock m))"
| mg_supervisor: "manager_step clock m (m\<lparr>cm_supervisor := s\<rparr>)"

abbreviation manager_run :: "clock \<Rightarrow> 'w manager \<Rightarrow> 'w manager \<Rightarrow> bool" where
  "manager_run clock \<equiv> (manager_step clock)\<^sup>*\<^sup>*"

definition journal_in_order :: "string \<Rightarrow> 'w manager \<Rightarrow> bool" where
  "journal_in_order epoch m \<longleftrightarrow> cm_epoch_id m = epoch \<and> cm_sequence m = int (length (cm_journal m)) \<and>
     map jo_sequence (cm_journal m) = [0..int (length (cm_journal m)) - 1] \<and>
     (\<forall>j \<in> set (cm_journal m). jo_epoch_id j = epoch)"

lemma append_in_order:
  assumes "journal_in_order epoch m"
  shows "journal_in_order epoch (snd (append_journal clock kind subject payload m))"
proof -
  have k: "check_journal_entry x = Inr y \<Longrightarrow> y = x" for x y
    by (auto simp: check_journal_entry_def py_bind_Inr_iff)
  have up: "[0..int n] = [0..int n - 1] @ [int n]" for n by (rule upto_rec2) simp
  show ?thesis
    using assms unfolding append_journal_def cm_now_def Let_def act_bind_def
    by (auto simp: journal_in_order_def up py_bind_Inr_iff split: sum.splits dest!: k)
qed

lemma in_order_frame:
  "journal_in_order epoch (m\<lparr>cm_verifications := vs\<rparr>) = journal_in_order epoch m"
  "journal_in_order epoch (m\<lparr>cm_reads := n\<rparr>) = journal_in_order epoch m"
  by (simp_all add: journal_in_order_def)

lemma rollback_journal: "journal_in_order epoch m \<Longrightarrow> journal_in_order epoch (snd (rollback_all clock pre m))"
  unfolding rollback_all_def cm_now_def Let_def
  by (intro bind_keeps[where P = "journal_in_order epoch"])
     (auto simp: restore_spine_def restore_obligations_def on_supervisor_def split_def Let_def journal_in_order_def
       act_bind_def split: sum.splits)

lemma create_in_order:
  fixes m :: "'a manager"
  assumes "journal_in_order epoch m"
  shows "journal_in_order epoch (snd (create_checkpoint clock m))"
proof -
  have "journal_in_order epoch (snd (new_composite now n, n))" if "journal_in_order epoch n" for now and n :: "'a manager"
    using that by simp
  moreover have "journal_in_order epoch (m\<lparr>cm_reads := n\<rparr>)" for n using assms by (simp add: journal_in_order_def)
  moreover have "journal_in_order epoch (snd (append_journal clock k sj p (n\<lparr>cm_checkpoints := cs\<rparr>)))"
    if "journal_in_order epoch n" for k sj p cs and n :: "'a manager"
    using that by (intro append_in_order) (simp add: journal_in_order_def)
  ultimately show ?thesis
    unfolding create_checkpoint_def cm_now_def Let_def prod.case
    by (intro bind_keeps[where P = "journal_in_order epoch"]) auto
qed

lemma restore_in_order:
  fixes m :: "'a manager"
  assumes "journal_in_order epoch m"
  shows "journal_in_order epoch (snd (restore_checkpoint clock c verify m))"
proof -
  have parts: "journal_in_order epoch (snd (restore_parts c sp ob su m))" for sp ob su
    using restore_parts_keeps[of m c sp ob su] assms by (simp add: only_restored_def journal_in_order_def)
  have jr: "journal_in_order epoch (snd (journal_restore clock c b v n))" if "journal_in_order epoch n" for b v and n :: "'a manager"
    unfolding journal_restore_def
    using that by (intro bind_keeps[where P = "journal_in_order epoch"] append_in_order) simp_all
  have vr: "journal_in_order epoch (snd (verify_restore clock c sp ob su n))" if "journal_in_order epoch n" for sp ob su and n :: "'a manager"
    using that by (simp add: verify_restore_def cm_now_def Let_def journal_in_order_def)
  have late: "journal_in_order epoch (snd (act_bind (rollback_all clock pre n) (\<lambda>_ m. (Inl e, m))))"
    if "journal_in_order epoch n" for pre and e :: py_error and n :: "'a manager"
    using that by (intro bind_keeps[where P = "journal_in_order epoch"] rollback_journal) simp_all
  have good: "journal_in_order epoch (snd (if verify
      then act_bind (verify_restore clock c sp ob su n) (\<lambda>v m.
           let m = m\<lparr>cm_verifications := cm_verifications m @ [v]\<rparr>
           in if rv_verdict v \<noteq> RV_VERIFIED then act_bind (rollback_all clock pre m) (\<lambda>_ m. (Inl e, m))
              else journal_restore clock c verify (Some v) m)
      else journal_restore clock c verify None n))"
    if "journal_in_order epoch n" for sp ob su pre and e :: py_error and n :: "'a manager"
  proof (cases verify)
    case True
    have after: "journal_in_order epoch (snd (let m = t\<lparr>cm_verifications := cm_verifications t @ [v]\<rparr>
        in if rv_verdict v \<noteq> RV_VERIFIED then act_bind (rollback_all clock pre m) (\<lambda>_ m. (Inl e, m))
           else journal_restore clock c verify (Some v) m))" if "journal_in_order epoch t" for v t
    proof -
      have "journal_in_order epoch (t\<lparr>cm_verifications := cm_verifications t @ [v]\<rparr>)" using that by (simp add: in_order_frame)
      then show ?thesis by (cases "rv_verdict v \<noteq> RV_VERIFIED") (simp_all only: Let_def jr late if_True if_False not_False_eq_True)
    qed
    show ?thesis
      unfolding if_P[OF True] by (rule bind_keeps[where P = "journal_in_order epoch", OF vr[OF that] after])
  qed (simp add: jr that)
  show ?thesis
  proof (cases "snapshot_for c CK_EVENT_SPINE = None \<or> snapshot_for c CK_OBLIGATION_RUNTIME = None \<or> snapshot_for c CK_SUPERVISOR = None")
    case True
    then show ?thesis using assms unfolding restore_checkpoint_def by (auto split: option.split)
  next
    case False
    then obtain sp ob su where found: "snapshot_for c CK_EVENT_SPINE = Some sp"
      "snapshot_for c CK_OBLIGATION_RUNTIME = Some ob" "snapshot_for c CK_SUPERVISOR = Some su" by auto
    obtain r n where rn: "restore_parts c sp ob su m = (r, n)" by (cases "restore_parts c sp ob su m")
    then have n: "journal_in_order epoch n" using parts[of sp ob su] by simp
    show ?thesis
    proof (cases r)
      case (Inl e)
      then show ?thesis using late[OF n] by (simp add: restore_checkpoint_def found rn)
    next
      case (Inr u)
      then show ?thesis using good[OF n, of sp ob su]
        unfolding restore_checkpoint_def found Let_def by (simp add: rn)
    qed
  qed
qed

lemma manager_step_in_order:
  assumes "manager_step clock m m'" and "journal_in_order epoch m"
  shows "journal_in_order epoch m'"
  using assms(1)
proof cases
  case (mg_append kind subject payload)
  then show ?thesis using append_in_order[OF assms(2)] by simp
next
  case mg_create
  then show ?thesis using create_in_order[OF assms(2)] by simp
next
  case (mg_restore c verify)
  then show ?thesis using restore_in_order[OF assms(2)] by simp
next
  case mg_validate
  then show ?thesis
    using assms(2) by (simp add: validate_journal_def cm_now_def Let_def split_def journal_in_order_def)
next
  case (mg_supervisor s)
  then show ?thesis using assms(2) by (simp add: journal_in_order_def)
qed

text \<open>
  the journal of a manager is valid for ever: however checkpoints are created, restored, refused and
  rolled back, and whatever the supervisor does in between, entries are numbered from 0 without a gap, in
  the manager's epoch, and validation says so (or that nothing was recorded yet).
\<close>

theorem own_journal_valid:
  assumes "clock_ok clock" and "\<not> blank epoch" and "manager_run clock (manager_init s epoch) m"
  shows "map jo_sequence (cm_journal m) = [0..int (length (cm_journal m)) - 1] \<and>
    (\<exists>v. fst (validate_journal clock m) = Inr v \<and>
      jv_verdict v = (if cm_journal m = [] then JV_EMPTY_JOURNAL else JV_VALID))"
proof -
  have "journal_in_order epoch m"
    using assms(3)
  proof (induction rule: rtranclp_induct)
    case base
    then show ?case by (simp add: journal_in_order_def manager_init_def)
  qed (rule manager_step_in_order)
  then have ok: "cm_epoch_id m = epoch" "map jo_sequence (cm_journal m) = [0..int (length (cm_journal m)) - 1]"
    "\<forall>j \<in> set (cm_journal m). jo_epoch_id j = epoch" by (simp_all add: journal_in_order_def)
  have "\<forall>n \<in> set (map jo_sequence (cm_journal m)). 0 \<le> n" unfolding ok(2) by simp
  then have pos: "\<forall>j \<in> set (cm_journal m). 0 \<le> jo_sequence j" by simp
  have "\<not> blank (cm_epoch_id m)" using assms(2) ok(1) by simp
  then obtain v where v: "validate_journal clock m = (Inr v, m\<lparr>cm_reads := Suc (cm_reads m)\<rparr>)"
    "jv_verdict v = fst (journal_finding (cm_epoch_id m) (cm_journal m))"
    using validate_total[OF assms(1) _ pos] by metis
  have "fst (journal_finding (cm_epoch_id m) (cm_journal m)) = (if cm_journal m = [] then JV_EMPTY_JOURNAL else JV_VALID)"
  proof (cases "cm_journal m = []")
    case False
    then obtain j js where j: "cm_journal m = j # js" by (cases "cm_journal m") auto
    have "map jo_sequence (cm_journal m) = 0 # [1..int (length (cm_journal m)) - 1]"
      unfolding ok(2) using j by (subst upto.simps) simp
    then have "jo_sequence (hd (cm_journal m)) = 0" using j by simp
    then have "sequence_gaps (cm_journal m) = []" using ok(2) by (simp add: gaps_iff)
    moreover have "\<not> ordering_violated (cm_journal m)" unfolding ordering_iff ok(2) by (rule sorted_wrt_upto)
    ultimately show ?thesis using ok False by (simp add: journal_finding_def list_ex_iff)
  qed (simp add: journal_finding_def)
  then show ?thesis using ok(2) v by simp
qed

text \<open>A new epoch keeps the entries of the old one, so that no later journal is ever valid.\<close>

theorem new_epoch_never_valid:
  assumes "clock_ok clock" and "\<not> blank epoch" and "j \<in> set (cm_journal m)" and "jo_epoch_id j \<noteq> epoch"
    and "\<forall>j \<in> set (cm_journal m). 0 \<le> jo_sequence j" and "snd (advance_epoch epoch m) = m'"
    and "set (cm_journal m') \<subseteq> set (cm_journal n)" and "cm_epoch_id n = cm_epoch_id m'"
    and "\<forall>j \<in> set (cm_journal n). 0 \<le> jo_sequence j"
  shows "\<exists>v. fst (validate_journal clock n) = Inr v \<and> jv_verdict v = JV_EPOCH_MISMATCH"
proof -
  have m': "cm_journal m' = cm_journal m" "cm_epoch_id m' = epoch" using assms(2,6) by (auto simp: advance_epoch_def)
  have j: "j \<in> set (cm_journal n)" using assms(3,7) m' by auto
  then have "list_ex (\<lambda>j. jo_epoch_id j \<noteq> cm_epoch_id n) (cm_journal n)" "cm_journal n \<noteq> []"
    using assms(4,8) m' by (auto simp: list_ex_iff)
  then have "fst (journal_finding (cm_epoch_id n) (cm_journal n)) = JV_EPOCH_MISMATCH" by (simp add: journal_finding_def)
  moreover obtain v where "validate_journal clock n = (Inr v, n\<lparr>cm_reads := Suc (cm_reads n)\<rparr>)"
    "jv_verdict v = fst (journal_finding (cm_epoch_id n) (cm_journal n))"
    using validate_total[OF assms(1) _ assms(9)] assms(2,8) m' by metis
  ultimately show ?thesis by auto
qed

text \<open>
  With an envelope in the spine the rollback fails at its first call, so that a restoration that fails
  half-way leaves the subsystems as they are then.
\<close>

theorem half_restored:
  assumes "manager_ok m" and "sp_envelopes (sv_spine (cm_supervisor m)) \<noteq> []"
    and "snapshot_for c CK_EVENT_SPINE = Some sp" and "snapshot_for c CK_OBLIGATION_RUNTIME = Some ob"
    and "snapshot_for c CK_SUPERVISOR = Some su" and "restore_parts c sp ob su m = (Inl e, n)"
  shows "\<exists>e. restore_checkpoint clock c verify m = (Inl e, n)"
proof -
  have "spine_ok (sv_spine (cm_supervisor m))" using assms(1) by (simp add: manager_ok_def supervisor_ok_def parts_ok_def)
  then obtain x where "spine_restore (sv_spine (cm_supervisor n)) (spine_snapshot (sv_spine (cm_supervisor m))) =
      (Inl x, sv_spine (cm_supervisor n))" using spine_refused[OF _ assms(2)] by blast
  then have "rollback_all clock (cm_supervisor m) n = (Inl x, n)"
    by (simp add: rollback_all_def restore_spine_def act_bind_def)
  then show ?thesis using assms(3-6) by (simp add: restore_checkpoint_def act_bind_def)
qed

section \<open>Witnesses\<close>

definition demo_manager :: "nat manager" where
  "demo_manager = manager_init demo_supervisor ''epoch-1''"

definition demo_ticks :: clock where
  "demo_ticks n = ''2024-01-02T03:04:05+00:00''"

definition demo_snapshot :: subsystem_snapshot where
  "demo_snapshot = \<lparr>sn_snapshot_id = ''n1'', sn_scope = CK_EVENT_SPINE, sn_state_hash = ''h'', sn_record_count = 0,
     sn_captured_at = ''2024-01-02T03:04:05+00:00'', sn_payload = []\<rparr>"

definition demo_composite :: composite_checkpoint where
  "demo_composite = \<lparr>cc_checkpoint_id = ''c1'', cc_epoch_id = ''epoch-1'', cc_tick_number = 3, cc_snapshots = [demo_snapshot],
     cc_journal_sequence = 0, cc_composite_hash = ''h'', cc_created_at = ''2024-01-02T03:04:05+00:00''\<rparr>"

lemma demo_manager_ok: "manager_ok demo_manager" "clock_ok demo_ticks" "sp_envelopes (sv_spine (cm_supervisor demo_manager)) = []"
  "\<not> blank ''epoch-1''"
proof -
  show "\<not> blank ''epoch-1''" by code_simp
  then show "manager_ok demo_manager" using demo_supervisor_ok(1) by (simp add: manager_ok_def demo_manager_def manager_init_def)
  have "time_ok ''2024-01-02T03:04:05+00:00''" by code_simp
  then show "clock_ok demo_ticks" by (simp add: clock_ok_def demo_ticks_def)
  show "sp_envelopes (sv_spine (cm_supervisor demo_manager)) = []"
    by (simp add: demo_manager_def manager_init_def demo_supervisor_def supervisor_init_def demo_spine_def emit_def
        subscribe_def spine_init_def)
qed

theorem checkpoint_restores_witness:
  "\<exists>c m1 m3. create_checkpoint demo_ticks demo_manager = (Inr c, m1) \<and>
     snd (restore_checkpoint demo_ticks c True demo_manager) = m3 \<and> sv_obligations (cm_supervisor m3) = demo_engine"
proof -
  have "sv_obligations (cm_supervisor demo_manager) = demo_engine"
    by (simp add: demo_manager_def manager_init_def demo_supervisor_def supervisor_init_def)
  then show ?thesis using checkpoint_restores[OF demo_manager_ok(1-3) demo_manager_ok(1)] by fastforce
qed

theorem restore_all_or_nothing_witness:
  "case restore_checkpoint demo_ticks demo_composite True demo_manager of
     (Inl e, m') \<Rightarrow> cm_supervisor m' = demo_supervisor | (Inr v, m') \<Rightarrow> False"
proof -
  have "check_composite demo_composite = Inr demo_composite" by code_simp
  moreover have "check_snapshot demo_snapshot = Inr demo_snapshot" by code_simp
  moreover have "snapshot_for demo_composite CK_SUPERVISOR = None" by (simp add: snapshot_for_def demo_composite_def demo_snapshot_def)
  then have "fst (restore_checkpoint demo_ticks demo_composite True demo_manager) \<noteq> Inr v" for v
    by (simp add: restore_checkpoint_def split: option.splits)
  ultimately show ?thesis
    using restore_all_or_nothing[OF demo_manager_ok(1-3), of demo_composite True]
    by (auto simp: demo_composite_def demo_manager_def manager_init_def split: prod.splits sum.splits)
qed

theorem journal_verdict_witness:
  "\<exists>v. fst (validate_journal demo_ticks (demo_manager\<lparr>cm_journal :=
     [\<lparr>jo_entry_id = ''j'', jo_epoch_id = ''epoch-1'', jo_sequence = 1, jo_kind = JK_TICK, jo_subject_id = ''s'', jo_payload = [],
       jo_recorded_at = ''2024-01-02T03:04:05+00:00''\<rparr>]\<rparr>)) = Inr v \<and> jv_verdict v = JV_VALID"
  using journal_verdict[OF demo_manager_ok(2), of "demo_manager\<lparr>cm_journal :=
     [\<lparr>jo_entry_id = ''j'', jo_epoch_id = ''epoch-1'', jo_sequence = 1, jo_kind = JK_TICK, jo_subject_id = ''s'', jo_payload = [],
       jo_recorded_at = ''2024-01-02T03:04:05+00:00''\<rparr>]\<rparr>"] demo_manager_ok(4)
  by (auto simp: demo_manager_def manager_init_def)

theorem own_journal_valid_witness:
  "\<exists>v. fst (validate_journal demo_ticks (snd (create_checkpoint demo_ticks demo_manager))) = Inr v \<and>
     jv_verdict v \<in> {JV_EMPTY_JOURNAL, JV_VALID}"
proof -
  have "manager_run demo_ticks (manager_init demo_supervisor ''epoch-1'') (snd (create_checkpoint demo_ticks demo_manager))"
    unfolding demo_manager_def by (rule r_into_rtranclp, rule mg_create)
  then show ?thesis using own_journal_valid[OF demo_manager_ok(2,4)] by fastforce
qed

end
