(* ===== verification/Access_Runtime.thy ===== *)
theory Access_Runtime
  imports Supervisor Guard_Chain
begin

text \<open>
  Identities, roles and permissions: \<open>mcoi_runtime/contracts/access_runtime.py\<close> and
  \<open>mcoi_runtime/governance/guards/access.py\<close>, the engine behind the RBAC guard of the guard chain.
  Arguments have their annotated types.  The clock \<open>_now_iso\<close> is a function of the number of its
  readings.
\<close>

section \<open>Records\<close>

datatype identity_kind = IK_HUMAN | IK_SERVICE | IK_OPERATOR | IK_SYSTEM | IK_API_KEY

datatype role_kind = RK_ADMIN | RK_OPERATOR | RK_DEVELOPER | RK_VIEWER | RK_AUDITOR | RK_SERVICE | RK_CUSTOM

datatype permission_effect = PE_ALLOW | PE_DENY | PE_REQUIRE_APPROVAL

datatype delegation_status = DS_ACTIVE | DS_EXPIRED | DS_REVOKED

datatype auth_scope = SCOPE_TENANT | SCOPE_WORKSPACE | SCOPE_ENVIRONMENT | SCOPE_GLOBAL

fun access_decision_value :: "access_decision \<Rightarrow> string" where
  "access_decision_value AccessAllowed = ''allowed''"
| "access_decision_value AccessDenied = ''denied''"
| "access_decision_value AccessRequiresApproval = ''requires_approval''"
| "access_decision_value AccessExpired = ''expired''"
| "access_decision_value AccessViolation = ''violation''"

text \<open>\<open>_freeze_text_array\<close> names the first blank element.\<close>

definition access_text_array :: "string list \<Rightarrow> string \<Rightarrow> unit py" where
  "access_text_array values field_name =
     (if list_ex blank values
      then Inl (ValueError (field_name @ ''['' @ int_str (int (length (takeWhile (\<lambda>v. \<not> blank v) values))) @
             ''] must be a non-empty string''))
      else Inr ())"

record identity_record =
  id_identity_id :: string
  id_name :: string
  id_kind :: identity_kind
  id_tenant_id :: string
  id_enabled :: bool
  id_created_at :: string
  id_metadata :: "(string \<times> pval) list"

definition check_identity :: "identity_record \<Rightarrow> identity_record py" where
  "check_identity x =
     py_bind (require_non_empty_text (id_identity_id x) ''identity_id'') (\<lambda>_.
     py_bind (require_non_empty_text (id_name x) ''name'') (\<lambda>_.
     py_bind (require_non_empty_text (id_tenant_id x) ''tenant_id'') (\<lambda>_.
     py_bind (require_datetime_text (id_created_at x) ''created_at'') (\<lambda>_. Inr x))))"

record role_record =
  ro_role_id :: string
  ro_name :: string
  ro_kind :: role_kind
  ro_permissions :: "string list"
  ro_description :: string
  ro_created_at :: string
  ro_metadata :: "(string \<times> pval) list"

definition check_role :: "role_record \<Rightarrow> role_record py" where
  "check_role x =
     py_bind (require_non_empty_text (ro_role_id x) ''role_id'') (\<lambda>_.
     py_bind (require_non_empty_text (ro_name x) ''name'') (\<lambda>_.
     py_bind (access_text_array (ro_permissions x) ''permissions'') (\<lambda>_.
     py_bind (require_datetime_text (ro_created_at x) ''created_at'') (\<lambda>_. Inr x))))"

record permission_rule =
  ru_rule_id :: string
  ru_resource_type :: string
  ru_action :: string
  ru_effect :: permission_effect
  ru_scope_kind :: auth_scope
  ru_scope_ref_id :: string
  ru_conditions :: "(string \<times> pval) list"
  ru_created_at :: string

definition check_permission_rule :: "permission_rule \<Rightarrow> permission_rule py" where
  "check_permission_rule x =
     py_bind (require_non_empty_text (ru_rule_id x) ''rule_id'') (\<lambda>_.
     py_bind (require_non_empty_text (ru_resource_type x) ''resource_type'') (\<lambda>_.
     py_bind (require_non_empty_text (ru_action x) ''action'') (\<lambda>_.
     py_bind (require_non_empty_text (ru_scope_ref_id x) ''scope_ref_id'') (\<lambda>_.
     py_bind (require_datetime_text (ru_created_at x) ''created_at'') (\<lambda>_. Inr x)))))"

record role_binding =
  bd_binding_id :: string
  bd_identity_id :: string
  bd_role_id :: string
  bd_scope_kind :: auth_scope
  bd_scope_ref_id :: string
  bd_bound_at :: string

definition check_binding :: "role_binding \<Rightarrow> role_binding py" where
  "check_binding x =
     py_bind (require_non_empty_text (bd_binding_id x) ''binding_id'') (\<lambda>_.
     py_bind (require_non_empty_text (bd_identity_id x) ''identity_id'') (\<lambda>_.
     py_bind (require_non_empty_text (bd_role_id x) ''role_id'') (\<lambda>_.
     py_bind (require_non_empty_text (bd_scope_ref_id x) ''scope_ref_id'') (\<lambda>_.
     py_bind (require_datetime_text (bd_bound_at x) ''bound_at'') (\<lambda>_. Inr x)))))"

record delegation_record =
  dl_delegation_id :: string
  dl_from_identity_id :: string
  dl_to_identity_id :: string
  dl_role_id :: string
  dl_scope_kind :: auth_scope
  dl_scope_ref_id :: string
  dl_status :: delegation_status
  dl_expires_at :: string
  dl_delegated_at :: string
  dl_revoked_at :: string
  dl_metadata :: "(string \<times> pval) list"

definition check_delegation :: "delegation_record \<Rightarrow> delegation_record py" where
  "check_delegation x =
     py_bind (require_non_empty_text (dl_delegation_id x) ''delegation_id'') (\<lambda>_.
     py_bind (require_non_empty_text (dl_from_identity_id x) ''from_identity_id'') (\<lambda>_.
     py_bind (require_non_empty_text (dl_to_identity_id x) ''to_identity_id'') (\<lambda>_.
     py_bind (require_non_empty_text (dl_role_id x) ''role_id'') (\<lambda>_.
     py_bind (require_non_empty_text (dl_scope_ref_id x) ''scope_ref_id'') (\<lambda>_.
     py_bind (require_datetime_text (dl_delegated_at x) ''delegated_at'') (\<lambda>_.
     py_bind (if dl_expires_at x = [] then Inr [] else require_datetime_text (dl_expires_at x) ''expires_at'') (\<lambda>_.
     py_bind (if dl_revoked_at x = [] then Inr [] else require_datetime_text (dl_revoked_at x) ''revoked_at'') (\<lambda>_.
       Inr x))))))))"

record access_request =
  ar_request_id :: string
  ar_identity_id :: string
  ar_resource_type :: string
  ar_action :: string
  ar_scope_kind :: auth_scope
  ar_scope_ref_id :: string
  ar_requested_at :: string

definition check_access_request :: "access_request \<Rightarrow> access_request py" where
  "check_access_request x =
     py_bind (require_non_empty_text (ar_request_id x) ''request_id'') (\<lambda>_.
     py_bind (require_non_empty_text (ar_identity_id x) ''identity_id'') (\<lambda>_.
     py_bind (require_non_empty_text (ar_resource_type x) ''resource_type'') (\<lambda>_.
     py_bind (require_non_empty_text (ar_action x) ''action'') (\<lambda>_.
     py_bind (require_datetime_text (ar_requested_at x) ''requested_at'') (\<lambda>_. Inr x)))))"

text \<open>The tuple of role ids lists a Python set in an order that is not fixed; the model keeps the set.\<close>

record access_evaluation =
  ae_evaluation_id :: string
  ae_request_id :: string
  ae_decision :: access_decision
  ae_matching_rule_ids :: "string list"
  ae_matching_role_ids :: "string set"
  ae_reason :: string
  ae_evaluated_at :: string

definition check_evaluation :: "access_evaluation \<Rightarrow> access_evaluation py" where
  "check_evaluation x =
     py_bind (require_non_empty_text (ae_evaluation_id x) ''evaluation_id'') (\<lambda>_.
     py_bind (require_non_empty_text (ae_request_id x) ''request_id'') (\<lambda>_.
     py_bind (access_text_array (ae_matching_rule_ids x) ''matching_rule_ids'') (\<lambda>_.
     py_bind (if \<exists>r \<in> ae_matching_role_ids x. blank r
              then Inl (ValueError ''matching_role_ids must be non-empty strings'') else Inr ()) (\<lambda>_.
     py_bind (require_datetime_text (ae_evaluated_at x) ''evaluated_at'') (\<lambda>_. Inr x)))))"

record access_violation =
  vi_violation_id :: string
  vi_identity_id :: string
  vi_resource_type :: string
  vi_action :: string
  vi_scope_kind :: auth_scope
  vi_scope_ref_id :: string
  vi_reason :: string
  vi_detected_at :: string
  vi_metadata :: "(string \<times> pval) list"

definition check_violation :: "access_violation \<Rightarrow> access_violation py" where
  "check_violation x =
     py_bind (require_non_empty_text (vi_violation_id x) ''violation_id'') (\<lambda>_.
     py_bind (require_non_empty_text (vi_identity_id x) ''identity_id'') (\<lambda>_.
     py_bind (require_non_empty_text (vi_resource_type x) ''resource_type'') (\<lambda>_.
     py_bind (require_non_empty_text (vi_action x) ''action'') (\<lambda>_.
     py_bind (require_non_empty_text (vi_scope_ref_id x) ''scope_ref_id'') (\<lambda>_.
     py_bind (require_datetime_text (vi_detected_at x) ''detected_at'') (\<lambda>_. Inr x))))))"

record access_snapshot =
  as_snapshot_id :: string
  as_scope_ref_id :: string
  as_total_identities :: int
  as_total_roles :: int
  as_total_bindings :: int
  as_total_rules :: int
  as_active_delegations :: int
  as_total_violations :: int
  as_total_evaluations :: int
  as_captured_at :: string

definition check_access_snapshot :: "access_snapshot \<Rightarrow> access_snapshot py" where
  "check_access_snapshot x =
     py_bind (require_non_empty_text (as_snapshot_id x) ''snapshot_id'') (\<lambda>_.
     py_bind (require_non_negative_int (as_total_identities x) ''total_identities'') (\<lambda>_.
     py_bind (require_non_negative_int (as_total_roles x) ''total_roles'') (\<lambda>_.
     py_bind (require_non_negative_int (as_total_bindings x) ''total_bindings'') (\<lambda>_.
     py_bind (require_non_negative_int (as_total_rules x) ''total_rules'') (\<lambda>_.
     py_bind (require_non_negative_int (as_active_delegations x) ''active_delegations'') (\<lambda>_.
     py_bind (require_non_negative_int (as_total_violations x) ''total_violations'') (\<lambda>_.
     py_bind (require_non_negative_int (as_total_evaluations x) ''total_evaluations'') (\<lambda>_.
     py_bind (require_datetime_text (as_captured_at x) ''captured_at'') (\<lambda>_. Inr x)))))))))"

record access_audit =
  au_audit_id :: string
  au_identity_id :: string
  au_action :: string
  au_resource_type :: string
  au_decision :: access_decision
  au_scope_kind :: auth_scope
  au_scope_ref_id :: string
  au_recorded_at :: string

definition check_access_audit :: "access_audit \<Rightarrow> access_audit py" where
  "check_access_audit x =
     py_bind (require_non_empty_text (au_audit_id x) ''audit_id'') (\<lambda>_.
     py_bind (require_non_empty_text (au_identity_id x) ''identity_id'') (\<lambda>_.
     py_bind (require_non_empty_text (au_action x) ''action'') (\<lambda>_.
     py_bind (require_non_empty_text (au_resource_type x) ''resource_type'') (\<lambda>_.
     py_bind (require_non_empty_text (au_scope_ref_id x) ''scope_ref_id'') (\<lambda>_.
     py_bind (require_datetime_text (au_recorded_at x) ''recorded_at'') (\<lambda>_. Inr x))))))"

lemma access_checks [validators]:
  "check_identity x = Inr y \<longleftrightarrow> y = x \<and> \<not> blank (id_identity_id x) \<and> \<not> blank (id_name x) \<and> \<not> blank (id_tenant_id x) \<and>
     \<not> blank (id_created_at x) \<and> iso_text (id_created_at x)"
  "access_text_array vs f = Inr u \<longleftrightarrow> \<not> list_ex blank vs"
  by (auto simp: check_identity_def access_text_array_def py_bind_Inr_iff non_empty_text_ok datetime_text_ok)

section \<open>The engine\<close>

record access_engine =
  ac_spine :: spine
  ac_identities :: "(string, identity_record) pydict"
  ac_roles :: "(string, role_record) pydict"
  ac_rules :: "(string, permission_rule) pydict"
  ac_bindings :: "(string, role_binding) pydict"
  ac_delegations :: "(string, delegation_record) pydict"
  ac_evaluations :: "(string, access_evaluation) pydict"
  ac_violations :: "(string, access_violation) pydict"
  ac_audits :: "(string, access_audit) pydict"
  ac_snapshot_ids :: "string set"
  ac_reads :: nat

definition access_init :: "spine \<Rightarrow> access_engine" where
  "access_init spine = \<lparr>ac_spine = spine, ac_identities = [], ac_roles = [], ac_rules = [], ac_bindings = [],
     ac_delegations = [], ac_evaluations = [], ac_violations = [], ac_audits = [], ac_snapshot_ids = {}, ac_reads = 0\<rparr>"

type_synonym access_clock = "nat \<Rightarrow> string"

type_synonym 'a access_act = "access_engine \<Rightarrow> 'a py \<times> access_engine"

definition access_now :: "access_clock \<Rightarrow> access_engine \<Rightarrow> string \<times> access_engine" where
  "access_now clock s = (clock (ac_reads s), s\<lparr>ac_reads := Suc (ac_reads s)\<rparr>)"

definition emit_access :: "access_clock \<Rightarrow> string \<Rightarrow> (string \<times> pval) list \<Rightarrow> string \<Rightarrow> event_record access_act" where
  "emit_access clock action payload cid s =
     (let (now, s) = access_now clock s
      in act_bind (py_bind (stable_identifier ''evt-access'' [(''action'', JStr action), (''ts'', JStr now), (''cid'', JStr cid)])
            (\<lambda>i. EventRecord (PStr i) (PEnum ''EventType'' (event_type_value ET_CUSTOM))
                   (PEnum ''EventSource'' (event_source_value ES_COMMUNICATION_SYSTEM)) (PStr cid)
                   (PDict (dict_set ''action'' (PStr action) payload)) (PStr now)), s)
          (\<lambda>e s. let (r, sp) = emit (ac_spine s) e in (r, s\<lparr>ac_spine := sp\<rparr>)))"

text \<open>The last two lines of an operation: the event, then the result.\<close>

definition announce :: "access_clock \<Rightarrow> string \<Rightarrow> (string \<times> pval) list \<Rightarrow> string \<Rightarrow> 'a \<Rightarrow> 'a access_act" where
  "announce clock action payload cid x s = act_bind (emit_access clock action payload cid s) (\<lambda>_ s. (Inr x, s))"

section \<open>Identities\<close>

definition register_identity ::
  "access_clock \<Rightarrow> string \<Rightarrow> string \<Rightarrow> identity_kind \<Rightarrow> string \<Rightarrow> bool \<Rightarrow> identity_record access_act" where
  "register_identity clock identity_id name kind tenant_id enabled s =
     (if dict_get (ac_identities s) identity_id \<noteq> None
      then (Inl (RuntimeCoreInvariantError ''Duplicate identity_id''), s)
      else
        let (now, s) = access_now clock s
        in act_bind (check_identity \<lparr>id_identity_id = identity_id, id_name = name, id_kind = kind, id_tenant_id = tenant_id,
               id_enabled = enabled, id_created_at = now, id_metadata = []\<rparr>, s) (\<lambda>x s.
             announce clock ''identity_registered'' [(''identity_id'', PStr identity_id)] identity_id x
               (s\<lparr>ac_identities := dict_set identity_id x (ac_identities s)\<rparr>)))"

text \<open>\<open>disable_identity\<close> and \<open>enable_identity\<close>.\<close>

definition set_enabled :: "bool \<Rightarrow> string \<Rightarrow> access_clock \<Rightarrow> string \<Rightarrow> identity_record access_act" where
  "set_enabled enabled action clock identity_id s =
     (case dict_get (ac_identities s) identity_id of
        None \<Rightarrow> (Inl (RuntimeCoreInvariantError ''Unknown identity_id''), s)
      | Some old \<Rightarrow>
          act_bind (check_identity (old\<lparr>id_enabled := enabled\<rparr>), s) (\<lambda>x s.
            announce clock action [(''identity_id'', PStr identity_id)] identity_id x
              (s\<lparr>ac_identities := dict_set identity_id x (ac_identities s)\<rparr>)))"

definition disable_identity :: "access_clock \<Rightarrow> string \<Rightarrow> identity_record access_act" where
  "disable_identity = set_enabled False ''identity_disabled''"

definition enable_identity :: "access_clock \<Rightarrow> string \<Rightarrow> identity_record access_act" where
  "enable_identity = set_enabled True ''identity_enabled''"

definition get_identity :: "access_engine \<Rightarrow> string \<Rightarrow> identity_record py" where
  "get_identity s identity_id =
     (case dict_get (ac_identities s) identity_id of
        None \<Rightarrow> Inl (RuntimeCoreInvariantError ''Unknown identity_id'') | Some x \<Rightarrow> Inr x)"

definition identities_for_tenant :: "access_engine \<Rightarrow> string \<Rightarrow> identity_record list" where
  "identities_for_tenant s tenant_id = filter (\<lambda>x. id_tenant_id x = tenant_id) (dict_values (ac_identities s))"

section \<open>Roles, rules and bindings\<close>

definition register_role ::
  "access_clock \<Rightarrow> string \<Rightarrow> string \<Rightarrow> role_kind \<Rightarrow> string list \<Rightarrow> string \<Rightarrow> role_record access_act" where
  "register_role clock role_id name kind permissions description s =
     (if dict_get (ac_roles s) role_id \<noteq> None
      then (Inl (DuplicateRuntimeIdentifierError ''Duplicate role_id''), s)
      else
        let (now, s) = access_now clock s
        in act_bind (check_role \<lparr>ro_role_id = role_id, ro_name = name, ro_kind = kind, ro_permissions = permissions,
               ro_description = description, ro_created_at = now, ro_metadata = []\<rparr>, s) (\<lambda>x s.
             announce clock ''role_registered'' [(''role_id'', PStr role_id)] role_id x
               (s\<lparr>ac_roles := dict_set role_id x (ac_roles s)\<rparr>)))"

definition add_permission_rule ::
  "access_clock \<Rightarrow> string \<Rightarrow> string \<Rightarrow> string \<Rightarrow> permission_effect \<Rightarrow> auth_scope \<Rightarrow> string \<Rightarrow> (string \<times> pval) list
    \<Rightarrow> permission_rule access_act" where
  "add_permission_rule clock rule_id resource_type action effect scope_kind scope_ref_id conditions s =
     (if dict_get (ac_rules s) rule_id \<noteq> None
      then (Inl (DuplicateRuntimeIdentifierError ''Duplicate rule_id''), s)
      else
        let (now, s) = access_now clock s
        in act_bind (check_permission_rule \<lparr>ru_rule_id = rule_id, ru_resource_type = resource_type, ru_action = action, ru_effect = effect,
               ru_scope_kind = scope_kind, ru_scope_ref_id = scope_ref_id, ru_conditions = conditions, ru_created_at = now\<rparr>, s) (\<lambda>x s.
             announce clock ''permission_rule_added'' [(''rule_id'', PStr rule_id)] rule_id x
               (s\<lparr>ac_rules := dict_set rule_id x (ac_rules s)\<rparr>)))"

definition bind_role ::
  "access_clock \<Rightarrow> string \<Rightarrow> string \<Rightarrow> string \<Rightarrow> auth_scope \<Rightarrow> string \<Rightarrow> role_binding access_act" where
  "bind_role clock binding_id identity_id role_id scope_kind scope_ref_id s =
     (if dict_get (ac_bindings s) binding_id \<noteq> None
      then (Inl (RuntimeCoreInvariantError ''Duplicate binding_id''), s)
      else if dict_get (ac_identities s) identity_id = None
      then (Inl (RuntimeCoreInvariantError ''Unknown identity_id''), s)
      else if dict_get (ac_roles s) role_id = None
      then (Inl (RuntimeCoreInvariantError ''Unknown role_id''), s)
      else
        let (now, s) = access_now clock s
        in act_bind (check_binding \<lparr>bd_binding_id = binding_id, bd_identity_id = identity_id, bd_role_id = role_id,
               bd_scope_kind = scope_kind, bd_scope_ref_id = scope_ref_id, bd_bound_at = now\<rparr>, s) (\<lambda>x s.
             announce clock ''role_bound''
               [(''binding_id'', PStr binding_id), (''identity_id'', PStr identity_id), (''role_id'', PStr role_id)] binding_id x
               (s\<lparr>ac_bindings := dict_set binding_id x (ac_bindings s)\<rparr>)))"

definition bindings_for_identity :: "access_engine \<Rightarrow> string \<Rightarrow> auth_scope option \<Rightarrow> role_binding list" where
  "bindings_for_identity s identity_id scope_kind =
     filter (\<lambda>b. bd_identity_id b = identity_id \<and> (case scope_kind of None \<Rightarrow> True | Some k \<Rightarrow> bd_scope_kind b = k))
       (dict_values (ac_bindings s))"

section \<open>Delegations\<close>

definition delegate_permission ::
  "access_clock \<Rightarrow> string \<Rightarrow> string \<Rightarrow> string \<Rightarrow> string \<Rightarrow> auth_scope \<Rightarrow> string \<Rightarrow> string \<Rightarrow> delegation_record access_act" where
  "delegate_permission clock delegation_id from_id to_id role_id scope_kind scope_ref_id expires_at s =
     (if dict_get (ac_delegations s) delegation_id \<noteq> None
      then (Inl (RuntimeCoreInvariantError ''Duplicate delegation_id''), s)
      else if dict_get (ac_identities s) from_id = None
      then (Inl (RuntimeCoreInvariantError ''Unknown from_identity_id''), s)
      else if dict_get (ac_identities s) to_id = None
      then (Inl (RuntimeCoreInvariantError ''Unknown to_identity_id''), s)
      else if dict_get (ac_roles s) role_id = None
      then (Inl (RuntimeCoreInvariantError ''Unknown role_id''), s)
      else
        let (now, s) = access_now clock s
        in act_bind (check_delegation \<lparr>dl_delegation_id = delegation_id, dl_from_identity_id = from_id,
               dl_to_identity_id = to_id, dl_role_id = role_id, dl_scope_kind = scope_kind, dl_scope_ref_id = scope_ref_id,
               dl_status = DS_ACTIVE, dl_expires_at = expires_at, dl_delegated_at = now, dl_revoked_at = [], dl_metadata = []\<rparr>, s)
             (\<lambda>x s. announce clock ''permission_delegated''
               [(''delegation_id'', PStr delegation_id), (''from'', PStr from_id), (''to'', PStr to_id)] delegation_id x
               (s\<lparr>ac_delegations := dict_set delegation_id x (ac_delegations s)\<rparr>)))"

text \<open>\<open>revoke_delegation\<close> and \<open>expire_delegation\<close>.\<close>

definition end_delegation ::
  "delegation_status \<Rightarrow> string \<Rightarrow> string \<Rightarrow> access_clock \<Rightarrow> string \<Rightarrow> delegation_record access_act" where
  "end_delegation status verb action clock delegation_id s =
     (case dict_get (ac_delegations s) delegation_id of
        None \<Rightarrow> (Inl (RuntimeCoreInvariantError ''Unknown delegation_id''), s)
      | Some old \<Rightarrow>
          if dl_status old \<noteq> DS_ACTIVE
          then (Inl (RuntimeCoreInvariantError (''cannot '' @ verb @ '' delegation from current status'')), s)
          else
            let (now, s) = access_now clock s
            in act_bind (check_delegation (old\<lparr>dl_status := status, dl_revoked_at := now\<rparr>), s) (\<lambda>x s.
                 announce clock action [(''delegation_id'', PStr delegation_id)] delegation_id x
                   (s\<lparr>ac_delegations := dict_set delegation_id x (ac_delegations s)\<rparr>)))"

definition revoke_delegation :: "access_clock \<Rightarrow> string \<Rightarrow> delegation_record access_act" where
  "revoke_delegation = end_delegation DS_REVOKED ''revoke'' ''delegation_revoked''"

definition expire_delegation :: "access_clock \<Rightarrow> string \<Rightarrow> delegation_record access_act" where
  "expire_delegation = end_delegation DS_EXPIRED ''expire'' ''delegation_expired''"

definition active_delegations_for_identity :: "access_engine \<Rightarrow> string \<Rightarrow> delegation_record list" where
  "active_delegations_for_identity s identity_id =
     filter (\<lambda>d. dl_to_identity_id d = identity_id \<and> dl_status d = DS_ACTIVE) (dict_values (ac_delegations s))"

definition list_delegations :: "access_engine \<Rightarrow> delegation_status option \<Rightarrow> delegation_record list" where
  "list_delegations s status =
     (let ds = sort_key dl_delegation_id (dict_values (ac_delegations s))
      in case status of None \<Rightarrow> ds | Some t \<Rightarrow> filter (\<lambda>d. dl_status d = t) ds)"

definition restore_delegation :: "delegation_record \<Rightarrow> delegation_record access_act" where
  "restore_delegation d s =
     (if dict_get (ac_delegations s) (dl_delegation_id d) \<noteq> None
      then (Inl (RuntimeCoreInvariantError (''Duplicate delegation_id: '' @ dl_delegation_id d)), s)
      else if dict_get (ac_identities s) (dl_from_identity_id d) = None
      then (Inl (RuntimeCoreInvariantError (''Unknown from_identity_id: '' @ dl_from_identity_id d)), s)
      else if dict_get (ac_identities s) (dl_to_identity_id d) = None
      then (Inl (RuntimeCoreInvariantError (''Unknown to_identity_id: '' @ dl_to_identity_id d)), s)
      else if dict_get (ac_roles s) (dl_role_id d) = None
      then (Inl (RuntimeCoreInvariantError (''Unknown role_id: '' @ dl_role_id d)), s)
      else (Inr d, s\<lparr>ac_delegations := dict_set (dl_delegation_id d) d (ac_delegations s)\<rparr>))"

section \<open>Evaluation\<close>

text \<open>The scope of a binding, delegation or rule against the scope of a request.\<close>

definition scope_applies :: "auth_scope \<Rightarrow> string \<Rightarrow> auth_scope \<Rightarrow> string \<Rightarrow> bool" where
  "scope_applies kind ref req_kind req_ref \<longleftrightarrow>
     kind = SCOPE_GLOBAL \<or>
     kind = req_kind \<and> (ref = ''*'' \<or> ref = req_ref) \<or>
     kind = SCOPE_TENANT \<and> (req_kind = SCOPE_WORKSPACE \<or> req_kind = SCOPE_ENVIRONMENT) \<or>
     kind = SCOPE_WORKSPACE \<and> req_kind = SCOPE_ENVIRONMENT"

definition effective_role_ids :: "access_engine \<Rightarrow> string \<Rightarrow> auth_scope \<Rightarrow> string \<Rightarrow> string set" where
  "effective_role_ids s identity_id kind ref =
     set (map bd_role_id (filter (\<lambda>b. bd_identity_id b = identity_id \<and> scope_applies (bd_scope_kind b) (bd_scope_ref_id b) kind ref)
       (dict_values (ac_bindings s)))) \<union>
     set (map dl_role_id (filter (\<lambda>d. dl_to_identity_id d = identity_id \<and> dl_status d = DS_ACTIVE \<and>
         scope_applies (dl_scope_kind d) (dl_scope_ref_id d) kind ref) (dict_values (ac_delegations s))))"

definition permissions_of :: "access_engine \<Rightarrow> string set \<Rightarrow> string set" where
  "permissions_of s role_ids =
     (\<Union>r \<in> role_ids. case dict_get (ac_roles s) r of None \<Rightarrow> {} | Some x \<Rightarrow> set (ro_permissions x))"

definition list_effective_permissions :: "access_engine \<Rightarrow> string \<Rightarrow> auth_scope \<Rightarrow> string \<Rightarrow> string list py" where
  "list_effective_permissions s identity_id kind ref =
     (case dict_get (ac_identities s) identity_id of
        None \<Rightarrow> Inl (RuntimeCoreInvariantError ''Unknown identity_id'')
      | Some x \<Rightarrow>
          Inr (if \<not> id_enabled x then []
               else sorted_list_of_set (permissions_of s (effective_role_ids s identity_id kind ref))))"

definition grants :: "string set \<Rightarrow> string \<Rightarrow> string \<Rightarrow> bool" where
  "grants permissions resource_type action \<longleftrightarrow>
     resource_type @ '':'' @ action \<in> permissions \<or> resource_type @ '':*'' \<in> permissions \<or> ''*:*'' \<in> permissions"

definition permission_matches :: "string \<Rightarrow> string \<Rightarrow> auth_scope \<Rightarrow> string \<Rightarrow> permission_rule \<Rightarrow> bool" where
  "permission_matches resource_type action kind ref r \<longleftrightarrow>
     (ru_resource_type r = resource_type \<or> ru_resource_type r = ''*'') \<and>
     (ru_action r = action \<or> ru_action r = ''*'') \<and> scope_applies (ru_scope_kind r) (ru_scope_ref_id r) kind ref"

text \<open>The loop over the matching rules: deny, require approval, allow, and the ids of the rules that count.\<close>

type_synonym verdicts = "bool \<times> bool \<times> bool \<times> string list"

fun weigh_rules :: "bool \<Rightarrow> permission_rule list \<Rightarrow> verdicts \<Rightarrow> verdicts" where
  "weigh_rules granted [] v = v"
| "weigh_rules granted (r # rs) (deny, approval, allow, ids) =
     weigh_rules granted rs
       (case ru_effect r of
          PE_DENY \<Rightarrow> (True, approval, allow, ids @ [ru_rule_id r])
        | PE_REQUIRE_APPROVAL \<Rightarrow> if granted then (deny, True, allow, ids @ [ru_rule_id r]) else (deny, approval, allow, ids)
        | PE_ALLOW \<Rightarrow> if granted then (deny, approval, True, ids @ [ru_rule_id r]) else (deny, approval, allow, ids))"

definition decide_access :: "bool \<Rightarrow> permission_rule list \<Rightarrow> access_decision \<times> string \<times> string list" where
  "decide_access granted rules =
     (let (deny, approval, allow, ids) = weigh_rules granted rules (False, False, False, []);
          allow = (allow \<or> rules = [] \<and> granted)
      in if deny then (AccessDenied, ''explicit deny rule'', ids)
         else if approval then (AccessRequiresApproval, ''requires approval'', ids)
         else if allow then (AccessAllowed, ''allowed by role/rule'', ids)
         else (AccessDenied, ''no matching permission'', ids))"

definition make_evaluation ::
  "string \<Rightarrow> access_decision \<Rightarrow> string list \<Rightarrow> string set \<Rightarrow> string \<Rightarrow> string \<Rightarrow> access_evaluation access_act" where
  "make_evaluation request_id decision rule_ids role_ids reason now s =
     act_bind (py_bind (stable_identifier ''eval'' [(''req'', JStr request_id), (''ts'', JStr now)])
         (\<lambda>i. check_evaluation \<lparr>ae_evaluation_id = i, ae_request_id = request_id, ae_decision = decision,
            ae_matching_rule_ids = rule_ids, ae_matching_role_ids = role_ids, ae_reason = reason, ae_evaluated_at = now\<rparr>), s)
       (\<lambda>x s. (Inr x, s\<lparr>ac_evaluations := dict_set (ae_evaluation_id x) x (ac_evaluations s)\<rparr>))"

definition record_access_audit ::
  "string \<Rightarrow> string \<Rightarrow> string \<Rightarrow> access_decision \<Rightarrow> auth_scope \<Rightarrow> string \<Rightarrow> string \<Rightarrow> access_audit access_act" where
  "record_access_audit identity_id action resource_type decision kind ref now s =
     act_bind (py_bind (stable_identifier ''audit'' [(''identity'', JStr identity_id), (''action'', JStr action), (''ts'', JStr now)])
         (\<lambda>i. check_access_audit \<lparr>au_audit_id = i, au_identity_id = identity_id, au_action = action,
            au_resource_type = resource_type, au_decision = decision, au_scope_kind = kind, au_scope_ref_id = ref,
            au_recorded_at = now\<rparr>), s)
       (\<lambda>x s. (Inr x, s\<lparr>ac_audits := dict_set (au_audit_id x) x (ac_audits s)\<rparr>))"

definition evaluate_access ::
  "access_clock \<Rightarrow> string \<Rightarrow> string \<Rightarrow> string \<Rightarrow> string \<Rightarrow> auth_scope \<Rightarrow> string \<Rightarrow> access_evaluation access_act" where
  "evaluate_access clock request_id identity_id resource_type action kind ref s =
     (let (now, s) = access_now clock s;
          refuse = (\<lambda>reason s. act_bind (make_evaluation request_id AccessDenied [] {} reason now s) (\<lambda>x s.
            act_bind (record_access_audit identity_id action resource_type AccessDenied kind ref now s) (\<lambda>_ s. (Inr x, s))))
      in act_bind (check_access_request \<lparr>ar_request_id = request_id, ar_identity_id = identity_id, ar_resource_type = resource_type,
             ar_action = action, ar_scope_kind = kind, ar_scope_ref_id = ref, ar_requested_at = now\<rparr>, s) (\<lambda>_ s.
         case dict_get (ac_identities s) identity_id of
           None \<Rightarrow> refuse ''unknown identity'' s
         | Some x \<Rightarrow>
             if \<not> id_enabled x then refuse ''identity disabled'' s
             else
               let role_ids = effective_role_ids s identity_id kind ref;
                   granted = grants (permissions_of s role_ids) resource_type action;
                   rules = filter (permission_matches resource_type action kind ref) (dict_values (ac_rules s));
                   (decision, reason, rule_ids) = decide_access granted rules
               in act_bind (make_evaluation request_id decision rule_ids role_ids reason now s) (\<lambda>x s.
                  act_bind (record_access_audit identity_id action resource_type decision kind ref now s) (\<lambda>_ s.
                    announce clock ''access_evaluated''
                      [(''request_id'', PStr request_id), (''identity_id'', PStr identity_id),
                       (''decision'', PStr (access_decision_value decision))] request_id x s))))"

section \<open>Violations, snapshots, queries\<close>

fun scan_audits :: "string \<Rightarrow> access_audit list \<Rightarrow> access_violation list access_act" where
  "scan_audits now [] s = (Inr [], s)"
| "scan_audits now (a # as) s =
     (if au_decision a \<noteq> AccessDenied then scan_audits now as s
      else act_bind (stable_identifier ''viol-access'' [(''audit'', JStr (au_audit_id a))], s) (\<lambda>vid s.
        if dict_get (ac_violations s) vid \<noteq> None then scan_audits now as s
        else
          let cross = (case dict_get (ac_identities s) (au_identity_id a) of
                None \<Rightarrow> False
              | Some x \<Rightarrow> id_tenant_id x \<noteq> [] \<and> au_scope_ref_id a \<noteq> [] \<and> id_tenant_id x \<noteq> au_scope_ref_id a)
          in act_bind (check_violation \<lparr>vi_violation_id = vid, vi_identity_id = au_identity_id a,
                 vi_resource_type = au_resource_type a, vi_action = au_action a, vi_scope_kind = au_scope_kind a,
                 vi_scope_ref_id = au_scope_ref_id a,
                 vi_reason = (if cross then ''cross-tenant access attempt'' else ''denied access attempt''),
                 vi_detected_at = now, vi_metadata = []\<rparr>, s) (\<lambda>v s.
               act_bind (scan_audits now as (s\<lparr>ac_violations := dict_set vid v (ac_violations s)\<rparr>)) (\<lambda>vs s.
                 (Inr (v # vs), s)))))"

definition detect_violations :: "access_clock \<Rightarrow> access_violation list access_act" where
  "detect_violations clock s =
     (let (now, s) = access_now clock s
      in act_bind (scan_audits now (dict_values (ac_audits s)) s) (\<lambda>vs s.
           if vs \<noteq> []
           then announce clock ''access_violations_detected'' [(''count'', PInt (int (length vs)))] ''violation-scan'' vs s
           else (Inr vs, s)))"

definition violations_for_identity :: "access_engine \<Rightarrow> string \<Rightarrow> access_violation list" where
  "violations_for_identity s identity_id = filter (\<lambda>v. vi_identity_id v = identity_id) (dict_values (ac_violations s))"

definition audits_for_identity :: "access_engine \<Rightarrow> string \<Rightarrow> access_audit list" where
  "audits_for_identity s identity_id = filter (\<lambda>a. au_identity_id a = identity_id) (dict_values (ac_audits s))"

definition take_access_snapshot :: "access_clock \<Rightarrow> string \<Rightarrow> string \<Rightarrow> access_snapshot access_act" where
  "take_access_snapshot clock snapshot_id scope_ref_id s =
     (if snapshot_id \<in> ac_snapshot_ids s
      then (Inl (RuntimeCoreInvariantError ''Duplicate snapshot_id''), s)
      else
        let active = length (filter (\<lambda>d. dl_status d = DS_ACTIVE) (dict_values (ac_delegations s)));
            (now, s) = access_now clock s
        in act_bind (check_access_snapshot \<lparr>as_snapshot_id = snapshot_id, as_scope_ref_id = scope_ref_id,
               as_total_identities = int (length (ac_identities s)), as_total_roles = int (length (ac_roles s)),
               as_total_bindings = int (length (ac_bindings s)), as_total_rules = int (length (ac_rules s)),
               as_active_delegations = int active, as_total_violations = int (length (ac_violations s)),
               as_total_evaluations = int (length (ac_evaluations s)), as_captured_at = now\<rparr>, s) (\<lambda>x s.
             announce clock ''access_snapshot_captured'' [(''snapshot_id'', PStr snapshot_id)] snapshot_id x
               (s\<lparr>ac_snapshot_ids := insert snapshot_id (ac_snapshot_ids s)\<rparr>)))"

definition access_hash :: "access_engine \<Rightarrow> string" where
  "access_hash s = sha256_hex (py_join ''|''
     [''identities='' @ int_str (int (length (ac_identities s))), ''roles='' @ int_str (int (length (ac_roles s))),
      ''rules='' @ int_str (int (length (ac_rules s))), ''bindings='' @ int_str (int (length (ac_bindings s))),
      ''delegations='' @ int_str (int (length (ac_delegations s))),
      ''evaluations='' @ int_str (int (length (ac_evaluations s))),
      ''violations='' @ int_str (int (length (ac_violations s))), ''audits='' @ int_str (int (length (ac_audits s)))])"

section \<open>What an operation changes\<close>

text \<open>Only the spine and the number of clock readings.\<close>

definition only_spine :: "access_engine \<Rightarrow> access_engine \<Rightarrow> bool" where
  "only_spine s t \<longleftrightarrow> t = s\<lparr>ac_spine := ac_spine t, ac_reads := ac_reads t\<rparr>"

lemma only_spine_iff: "only_spine s t \<longleftrightarrow> ac_identities t = ac_identities s \<and> ac_roles t = ac_roles s \<and> ac_rules t = ac_rules s \<and>
    ac_bindings t = ac_bindings s \<and> ac_delegations t = ac_delegations s \<and> ac_evaluations t = ac_evaluations s \<and>
    ac_violations t = ac_violations s \<and> ac_audits t = ac_audits s \<and> ac_snapshot_ids t = ac_snapshot_ids s"
  by (cases s; cases t) (auto simp: only_spine_def)

lemma emit_access_frame: "emit_access clock action payload cid s = (r, t) \<Longrightarrow> only_spine s t"
  unfolding emit_access_def access_now_def act_bind_def Let_def only_spine_iff
  by (auto split: sum.splits prod.splits)

lemma announce_frame: "announce clock action payload cid x s = (r, t) \<Longrightarrow> only_spine s t \<and> (\<forall>y. r = Inr y \<longrightarrow> y = x)"
  by (auto simp: announce_def act_bind_def split: prod.splits sum.splits dest: emit_access_frame)

text \<open>An operation that files a checked record and announces it.\<close>

lemma act_bind_cases:
  assumes "act_bind r f = (y, s')"
  obtains e where "r = (Inl e, s')" and "y = Inl e" | x t where "r = (Inr x, t)" and "f x t = (y, s')"
  using assms by (auto simp: act_bind_def split: prod.splits sum.splits)

definition policy_part where
  "policy_part s = (ac_identities s, ac_roles s, ac_rules s, ac_bindings s, ac_delegations s)"

section \<open>The reference for a decision\<close>

text \<open>
  An identity may access when it is known and enabled and one of its roles, by binding or active
  delegation in a scope that applies, has the permission.  A rule is in force when it matches the
  resource, the action and the scope.
\<close>

definition may_access :: "access_engine \<Rightarrow> string \<Rightarrow> string \<Rightarrow> string \<Rightarrow> auth_scope \<Rightarrow> string \<Rightarrow> bool" where
  "may_access s identity_id resource_type action kind ref \<longleftrightarrow>
     (\<exists>x. dict_get (ac_identities s) identity_id = Some x \<and> id_enabled x) \<and>
     (\<exists>r \<in> effective_role_ids s identity_id kind ref. \<exists>x. dict_get (ac_roles s) r = Some x \<and>
        grants (set (ro_permissions x)) resource_type action)"

definition rule_in_force :: "access_engine \<Rightarrow> string \<Rightarrow> string \<Rightarrow> auth_scope \<Rightarrow> string \<Rightarrow> permission_effect \<Rightarrow> bool" where
  "rule_in_force s resource_type action kind ref e \<longleftrightarrow>
     (\<exists>r \<in> set (dict_values (ac_rules s)). permission_matches resource_type action kind ref r \<and> ru_effect r = e)"

definition access_reference :: "access_engine \<Rightarrow> string \<Rightarrow> string \<Rightarrow> string \<Rightarrow> auth_scope \<Rightarrow> string \<Rightarrow> access_decision" where
  "access_reference s identity_id resource_type action kind ref =
     (if \<not> may_access s identity_id resource_type action kind ref \<or> rule_in_force s resource_type action kind ref PE_DENY
      then AccessDenied
      else if rule_in_force s resource_type action kind ref PE_REQUIRE_APPROVAL then AccessRequiresApproval
      else AccessAllowed)"

lemma grants_union: "grants (permissions_of s rs) t a \<longleftrightarrow>
    (\<exists>r \<in> rs. \<exists>x. dict_get (ac_roles s) r = Some x \<and> grants (set (ro_permissions x)) t a)"
proof -
  have "p \<in> permissions_of s rs \<longleftrightarrow> (\<exists>r \<in> rs. \<exists>x. dict_get (ac_roles s) r = Some x \<and> p \<in> set (ro_permissions x))" for p
    by (auto simp: permissions_of_def split: option.splits)
  then show ?thesis unfolding grants_def by blast
qed

lemma weigh_rules_eq: "weigh_rules g rs (d, a, l, ids) =
    (d \<or> (\<exists>r \<in> set rs. ru_effect r = PE_DENY), a \<or> g \<and> (\<exists>r \<in> set rs. ru_effect r = PE_REQUIRE_APPROVAL),
     l \<or> g \<and> (\<exists>r \<in> set rs. ru_effect r = PE_ALLOW), ids @ map ru_rule_id (filter (\<lambda>r. ru_effect r = PE_DENY \<or> g) rs))"
  by (induction rs arbitrary: d a l ids) (auto split: permission_effect.split)

lemma decide_access_eq: "fst (decide_access g rs) =
    (if \<not> g \<or> (\<exists>r \<in> set rs. ru_effect r = PE_DENY) then AccessDenied
     else if \<exists>r \<in> set rs. ru_effect r = PE_REQUIRE_APPROVAL then AccessRequiresApproval else AccessAllowed)"
proof -
  have "rs = [] \<or> (\<exists>r \<in> set rs. ru_effect r = PE_DENY) \<or> (\<exists>r \<in> set rs. ru_effect r = PE_REQUIRE_APPROVAL) \<or>
      (\<exists>r \<in> set rs. ru_effect r = PE_ALLOW)"
    by (cases rs) (auto, metis permission_effect.exhaust)
  then show ?thesis by (auto simp: decide_access_def weigh_rules_eq)
qed

lemma check_evaluation_same: "check_evaluation x = Inr y \<Longrightarrow> y = x"
  by (auto simp: check_evaluation_def py_bind_Inr_iff split: if_splits)

lemma check_access_audit_same: "check_access_audit x = Inr y \<Longrightarrow> y = x"
  by (auto simp: check_access_audit_def py_bind_Inr_iff)

lemma make_evaluation_cases:
  assumes "make_evaluation q d rules roles reason now s = (y, t)"
  shows "policy_part t = policy_part s" and "ac_audits t = ac_audits s"
    and "y = Inr x \<Longrightarrow> ae_decision x = d \<and> ae_request_id x = q \<and> dict_get (ac_evaluations t) (ae_evaluation_id x) = Some x"
proof -
  obtain r where r: "y = r \<and> (case r of Inl e \<Rightarrow> t = s | Inr z \<Rightarrow> ae_decision z = d \<and> ae_request_id z = q \<and>
      t = s\<lparr>ac_evaluations := dict_set (ae_evaluation_id z) z (ac_evaluations s)\<rparr>)"
    using assms unfolding make_evaluation_def
    by (elim act_bind_cases) (auto simp: py_bind_Inr_iff dest!: check_evaluation_same)
  then show "policy_part t = policy_part s" "ac_audits t = ac_audits s"
    "y = Inr x \<Longrightarrow> ae_decision x = d \<and> ae_request_id x = q \<and> dict_get (ac_evaluations t) (ae_evaluation_id x) = Some x"
    by (auto simp: policy_part_def split: sum.splits)
qed

lemma record_audit_cases:
  assumes "record_access_audit i a p d k r now s = (y, t)"
  shows "policy_part t = policy_part s" and "ac_evaluations t = ac_evaluations s"
    and "y = Inr x \<Longrightarrow> au_identity_id x = i \<and> au_action x = a \<and> au_resource_type x = p \<and> au_decision x = d \<and>
       dict_get (ac_audits t) (au_audit_id x) = Some x"
proof -
  obtain q where q: "y = q \<and> (case q of Inl e \<Rightarrow> t = s | Inr z \<Rightarrow> au_identity_id z = i \<and> au_action z = a \<and> au_resource_type z = p \<and>
      au_decision z = d \<and> t = s\<lparr>ac_audits := dict_set (au_audit_id z) z (ac_audits s)\<rparr>)"
    using assms unfolding record_access_audit_def
    by (elim act_bind_cases) (auto simp: py_bind_Inr_iff dest!: check_access_audit_same)
  then show "policy_part t = policy_part s" "ac_evaluations t = ac_evaluations s"
    "y = Inr x \<Longrightarrow> au_identity_id x = i \<and> au_action x = a \<and> au_resource_type x = p \<and> au_decision x = d \<and>
       dict_get (ac_audits t) (au_audit_id x) = Some x"
    by (auto simp: policy_part_def split: sum.splits)
qed

lemma announce_keeps:
  assumes "announce clock action payload cid x s = (y, t)"
  shows "policy_part t = policy_part s" and "ac_evaluations t = ac_evaluations s" and "ac_audits t = ac_audits s"
    and "ac_violations t = ac_violations s" and "y = Inr z \<Longrightarrow> z = x"
  using announce_frame[OF assms] by (auto simp: policy_part_def only_spine_iff)

section \<open>Decisions\<close>

lemma refusal_cases:
  assumes "act_bind (make_evaluation q d rules roles reason now s) (\<lambda>x s.
      act_bind (record_access_audit i a p d k r now s) (\<lambda>_ s. (Inr x, s))) = (y, t)"
  shows "policy_part t = policy_part s"
    and "y = Inr x \<Longrightarrow> ae_decision x = d \<and> ae_request_id x = q \<and> dict_get (ac_evaluations t) (ae_evaluation_id x) = Some x \<and>
      (\<exists>z. dict_get (ac_audits t) (au_audit_id z) = Some z \<and> au_identity_id z = i \<and> au_action z = a \<and> au_resource_type z = p \<and> au_decision z = d)"
proof -
  have "policy_part t = policy_part s \<and> (\<forall>x. y = Inr x \<longrightarrow> ae_decision x = d \<and> ae_request_id x = q \<and>
      dict_get (ac_evaluations t) (ae_evaluation_id x) = Some x \<and>
      (\<exists>z. dict_get (ac_audits t) (au_audit_id z) = Some z \<and> au_identity_id z = i \<and> au_action z = a \<and> au_resource_type z = p \<and> au_decision z = d))"
    using assms
  proof (cases rule: act_bind_cases)
    case (1 e)
    then show ?thesis using make_evaluation_cases(1) by auto
  next
    case (2 x u)
    note m = make_evaluation_cases[OF 2(1)]
    show ?thesis using 2(2)
    proof (cases rule: act_bind_cases)
      case (1 e)
      then show ?thesis using record_audit_cases(1) m(1) by auto
    next
      case (2 z v)
      then show ?thesis using record_audit_cases[OF 2(1)] m by auto
    qed
  qed
  then show "policy_part t = policy_part s" and "y = Inr x \<Longrightarrow> ae_decision x = d \<and> ae_request_id x = q \<and> dict_get (ac_evaluations t) (ae_evaluation_id x) = Some x \<and>
      (\<exists>z. dict_get (ac_audits t) (au_audit_id z) = Some z \<and> au_identity_id z = i \<and> au_action z = a \<and> au_resource_type z = p \<and> au_decision z = d)"
    by blast+
qed

lemma evaluate_cases:
  assumes "evaluate_access clock q i p a k r s = (y, t)"
  shows "policy_part t = policy_part s \<and> (\<forall>x. y = Inr x \<longrightarrow> ae_decision x = access_reference s i p a k r \<and> ae_request_id x = q \<and>
      dict_get (ac_evaluations t) (ae_evaluation_id x) = Some x \<and>
      (\<exists>z. dict_get (ac_audits t) (au_audit_id z) = Some z \<and> au_identity_id z = i \<and> au_action z = a \<and> au_resource_type z = p \<and>
        au_decision z = ae_decision x))"
    (is "?P t y")
proof -
  let ?s = "s\<lparr>ac_reads := Suc (ac_reads s)\<rparr>"
  let ?now = "clock (ac_reads s)"
  let ?roles = "effective_role_ids s i k r"
  let ?g = "grants (permissions_of s ?roles) p a"
  let ?rules = "filter (permission_matches p a k r) (dict_values (ac_rules s))"
  have same: "effective_role_ids ?s i k r = ?roles" "permissions_of ?s R = permissions_of s R" for R
    by (simp_all add: effective_role_ids_def permissions_of_def)
  have refused: "?P u z" if "act_bind (make_evaluation q AccessDenied [] {} reason now ?s) (\<lambda>x s.
      act_bind (record_access_audit i a p AccessDenied k r now s) (\<lambda>_ s. (Inr x, s))) = (z, u)"
    and "\<not> may_access s i p a k r" for reason now z u
  proof -
    have "access_reference s i p a k r = AccessDenied" using that(2) by (simp add: access_reference_def)
    then show ?thesis using refusal_cases[OF that(1)] by (auto simp: policy_part_def)
  qed
  show ?thesis using assms unfolding evaluate_access_def access_now_def Let_def prod.case
  proof (cases rule: act_bind_cases)
    case (1 e)
    then show ?thesis by (auto simp: policy_part_def)
  next
    case (2 x u)
    then have u: "u = ?s" by simp
    show ?thesis
    proof (cases "dict_get (ac_identities s) i")
      case None
      then show ?thesis using 2(2) u by (intro refused) (auto simp: may_access_def)
    next
      case (Some x)
      show ?thesis
      proof (cases "id_enabled x")
        case False
        then show ?thesis using 2(2) u Some by (intro refused) (auto simp: may_access_def)
      next
        case True
        obtain d reason ids where d: "decide_access ?g ?rules = (d, reason, ids)" by (cases "decide_access ?g ?rules")
        have ref: "access_reference s i p a k r = d"
          using decide_access_eq[of ?g ?rules] d True Some
          by (auto simp: access_reference_def may_access_def rule_in_force_def grants_union)
        have tail: "act_bind (make_evaluation q d ids ?roles reason ?now ?s) (\<lambda>x s.
            act_bind (record_access_audit i a p d k r ?now s) (\<lambda>_ s.
              announce clock ''access_evaluated'' [(''request_id'', PStr q), (''identity_id'', PStr i),
                 (''decision'', PStr (access_decision_value d))] q x s)) = (y, t)"
          using 2(2) u Some True d same by simp
        show ?thesis using tail
        proof (cases rule: act_bind_cases)
          case (1 e)
          then show ?thesis using make_evaluation_cases(1) by (auto simp: policy_part_def)
        next
          case (2 x v)
          note m = make_evaluation_cases[OF 2(1)]
          show ?thesis using 2(2)
          proof (cases rule: act_bind_cases)
            case (1 e)
            then show ?thesis using record_audit_cases(1) m(1) by (auto simp: policy_part_def)
          next
            case (2 z w)
            note z = record_audit_cases[OF 2(1)] and n = announce_keeps[OF 2(2)]
            show ?thesis using m z n ref by (auto simp: policy_part_def)
          qed
        qed
      qed
    qed
  qed
qed

section \<open>Runs\<close>

inductive access_step :: "access_clock \<Rightarrow> access_engine \<Rightarrow> access_engine \<Rightarrow> bool" for clock where
  ac_register_identity: "access_step clock s (snd (register_identity clock i name kind tenant enabled s))"
| ac_disable: "access_step clock s (snd (disable_identity clock i s))"
| ac_enable: "access_step clock s (snd (enable_identity clock i s))"
| ac_register_role: "access_step clock s (snd (register_role clock r name rkind perms desc s))"
| ac_add_rule: "access_step clock s (snd (add_permission_rule clock r res act eff k ref conds s))"
| ac_bind_role: "access_step clock s (snd (bind_role clock b i r k ref s))"
| ac_delegate: "access_step clock s (snd (delegate_permission clock d from to r k ref expires s))"
| ac_revoke: "access_step clock s (snd (revoke_delegation clock d s))"
| ac_expire: "access_step clock s (snd (expire_delegation clock d s))"
| ac_restore: "check_delegation x = Inr x \<Longrightarrow> access_step clock s (snd (restore_delegation x s))"
| ac_evaluate: "access_step clock s (snd (evaluate_access clock q i res act k ref s))"
| ac_detect: "access_step clock s (snd (detect_violations clock s))"
| ac_snapshot: "access_step clock s (snd (take_access_snapshot clock n ref s))"

abbreviation access_run :: "access_clock \<Rightarrow> access_engine \<Rightarrow> access_engine \<Rightarrow> bool" where
  "access_run clock \<equiv> (access_step clock)\<^sup>*\<^sup>*"

text \<open>Roles and rules have names, bindings and delegations refer to what is registered.\<close>

definition access_resolved :: "access_engine \<Rightarrow> bool" where
  "access_resolved s \<longleftrightarrow> wf_dict (ac_rules s) \<and> wf_dict (ac_bindings s) \<and> wf_dict (ac_delegations s) \<and>
     (\<forall>k x. dict_get (ac_roles s) k = Some x \<longrightarrow> \<not> blank k) \<and>
     (\<forall>k x. dict_get (ac_rules s) k = Some x \<longrightarrow> \<not> blank (ru_rule_id x)) \<and>
     (\<forall>k b. dict_get (ac_bindings s) k = Some b \<longrightarrow> dict_get (ac_identities s) (bd_identity_id b) \<noteq> None \<and>
        dict_get (ac_roles s) (bd_role_id b) \<noteq> None) \<and>
     (\<forall>k d. dict_get (ac_delegations s) k = Some d \<longrightarrow> dict_get (ac_identities s) (dl_from_identity_id d) \<noteq> None \<and>
        dict_get (ac_identities s) (dl_to_identity_id d) \<noteq> None \<and> dict_get (ac_roles s) (dl_role_id d) \<noteq> None)"

text \<open>
  What later states keep: identities up to their flag, roles, rules and bindings, and delegations up to
  their end, after which they do not change.
\<close>

definition access_keeps :: "access_engine \<Rightarrow> access_engine \<Rightarrow> bool" where
  "access_keeps s t \<longleftrightarrow>
     (\<forall>k x. dict_get (ac_identities s) k = Some x \<longrightarrow> (\<exists>e. dict_get (ac_identities t) k = Some (x\<lparr>id_enabled := e\<rparr>))) \<and>
     (\<forall>k x. dict_get (ac_roles s) k = Some x \<longrightarrow> dict_get (ac_roles t) k = Some x) \<and>
     (\<forall>k x. dict_get (ac_rules s) k = Some x \<longrightarrow> dict_get (ac_rules t) k = Some x) \<and>
     (\<forall>k x. dict_get (ac_bindings s) k = Some x \<longrightarrow> dict_get (ac_bindings t) k = Some x) \<and>
     (\<forall>k x. dict_get (ac_delegations s) k = Some x \<longrightarrow> dict_get (ac_delegations t) k = Some x \<or>
        dl_status x = DS_ACTIVE \<and> (\<exists>st at'. st \<noteq> DS_ACTIVE \<and>
          dict_get (ac_delegations t) k = Some (x\<lparr>dl_status := st, dl_revoked_at := at'\<rparr>)))"

lemma policy_only_spine: "only_spine s t \<Longrightarrow> policy_part t = policy_part s"
  by (simp add: only_spine_iff policy_part_def)

lemma policy_fields: "policy_part t = policy_part s \<Longrightarrow> ac_identities t = ac_identities s \<and> ac_roles t = ac_roles s \<and>
    ac_rules t = ac_rules s \<and> ac_bindings t = ac_bindings s \<and> ac_delegations t = ac_delegations s"
  by (simp add: policy_part_def)

lemma same_policy:
  assumes "policy_part t = policy_part u"
  shows "access_keeps s t = access_keeps s u" and "access_resolved t = access_resolved u"
  using policy_fields[OF assms] by (simp_all add: access_keeps_def access_resolved_def)

lemma filed_then:
  assumes "act_bind (r, s) (\<lambda>x s. announce clock a p c x (upd x s)) = (y, t)"
  shows "t = s \<or> (\<exists>x. r = Inr x \<and> policy_part t = policy_part (upd x s))"
  using assms by (auto elim!: act_bind_cases dest!: announce_keeps(1))

text \<open>The effects on the policy.\<close>

inductive access_effect :: "access_engine \<Rightarrow> access_engine \<Rightarrow> bool" where
  ef_none: "access_effect s s"
| ef_identity: "dict_get (ac_identities s) k = None \<Longrightarrow> access_effect s (s\<lparr>ac_identities := dict_set k x (ac_identities s)\<rparr>)"
| ef_flag: "dict_get (ac_identities s) k = Some x \<Longrightarrow>
    access_effect s (s\<lparr>ac_identities := dict_set k (x\<lparr>id_enabled := e\<rparr>) (ac_identities s)\<rparr>)"
| ef_role: "dict_get (ac_roles s) k = None \<Longrightarrow> \<not> blank k \<Longrightarrow> access_effect s (s\<lparr>ac_roles := dict_set k x (ac_roles s)\<rparr>)"
| ef_rule: "dict_get (ac_rules s) k = None \<Longrightarrow> \<not> blank (ru_rule_id x) \<Longrightarrow>
    access_effect s (s\<lparr>ac_rules := dict_set k x (ac_rules s)\<rparr>)"
| ef_binding: "dict_get (ac_bindings s) k = None \<Longrightarrow> dict_get (ac_identities s) (bd_identity_id x) \<noteq> None \<Longrightarrow>
    dict_get (ac_roles s) (bd_role_id x) \<noteq> None \<Longrightarrow> access_effect s (s\<lparr>ac_bindings := dict_set k x (ac_bindings s)\<rparr>)"
| ef_delegation: "dict_get (ac_delegations s) k = None \<Longrightarrow> dict_get (ac_identities s) (dl_from_identity_id x) \<noteq> None \<Longrightarrow>
    dict_get (ac_identities s) (dl_to_identity_id x) \<noteq> None \<Longrightarrow> dict_get (ac_roles s) (dl_role_id x) \<noteq> None \<Longrightarrow>
    access_effect s (s\<lparr>ac_delegations := dict_set k x (ac_delegations s)\<rparr>)"
| ef_end: "dict_get (ac_delegations s) k = Some x \<Longrightarrow> dl_status x = DS_ACTIVE \<Longrightarrow> st \<noteq> DS_ACTIVE \<Longrightarrow>
    access_effect s (s\<lparr>ac_delegations := dict_set k (x\<lparr>dl_status := st, dl_revoked_at := u\<rparr>) (ac_delegations s)\<rparr>)"

lemma keeps_refl: "access_keeps s s"
proof -
  have "\<exists>e. x = x\<lparr>id_enabled := e\<rparr>" for x :: identity_record by (rule exI[of _ "id_enabled x"]) simp
  then show ?thesis by (auto simp: access_keeps_def)
qed

lemma effect_keeps:
  assumes "access_effect s t"
  shows "access_keeps s t"
  using assms
proof cases
  case ef_none
  then show ?thesis using keeps_refl by simp
next
  case ef_flag
  then show ?thesis using keeps_refl[of s] by (auto simp: access_keeps_def)
next
  case ef_end
  then show ?thesis using keeps_refl[of s] by (auto simp: access_keeps_def)
qed (use keeps_refl[of s] in \<open>auto simp: access_keeps_def\<close>)

lemma effect_resolved:
  assumes "access_effect s t" and "access_resolved s"
  shows "access_resolved t"
  using assms(1)
  by cases (use assms(2) in \<open>auto simp: access_resolved_def\<close>)

definition acts_by :: "access_engine \<Rightarrow> access_engine \<Rightarrow> bool" where
  "acts_by s t \<longleftrightarrow> (\<exists>u. access_effect s u \<and> policy_part t = policy_part u)"

lemma acts_none: "policy_part t = policy_part s \<Longrightarrow> acts_by s t"
  using ef_none by (auto simp: acts_by_def)

lemma acts_refl [simp]: "acts_by s s"
  by (rule acts_none) simp

lemma effect_reads: "access_effect (s\<lparr>ac_reads := n\<rparr>) u \<Longrightarrow> policy_part t = policy_part u \<Longrightarrow> acts_by s t"
proof -
  assume "access_effect (s\<lparr>ac_reads := n\<rparr>) u" and t: "policy_part t = policy_part u"
  then have "access_effect s (u\<lparr>ac_reads := ac_reads s\<rparr>)"
  proof cases
    case ef_none
    then show ?thesis using access_effect.ef_none[of s] by simp
  next
    case (ef_identity k x)
    then show ?thesis using access_effect.ef_identity[of s k x] by (cases s) simp
  next
    case (ef_flag k x e)
    then show ?thesis using access_effect.ef_flag[of s k x e] by (cases s) simp
  next
    case (ef_role k x)
    then show ?thesis using access_effect.ef_role[of s k x] by (cases s) simp
  next
    case (ef_rule k x)
    then show ?thesis using access_effect.ef_rule[of s k x] by (cases s) simp
  next
    case (ef_binding k x)
    then show ?thesis using access_effect.ef_binding[of s k x] by (cases s) simp
  next
    case (ef_delegation k x)
    then show ?thesis using access_effect.ef_delegation[of s k x] by (cases s) simp
  next
    case (ef_end k x st u)
    then show ?thesis using access_effect.ef_end[of s k x st u] by (cases s) simp
  qed
  moreover have "policy_part t = policy_part (u\<lparr>ac_reads := ac_reads s\<rparr>)" using t by (simp add: policy_part_def)
  ultimately show ?thesis unfolding acts_by_def by blast
qed

lemma files_effect:
  assumes "\<And>x. r = Inr x \<Longrightarrow> access_effect s (upd x s)"
  shows "acts_by s (snd (act_bind (r, s) (\<lambda>x s. announce clock a p c x (upd x s))))"
proof -
  obtain y t where e: "act_bind (r, s) (\<lambda>x s. announce clock a p c x (upd x s)) = (y, t)" by fastforce
  from filed_then[OF this] assms show ?thesis unfolding e by (auto simp: acts_by_def intro: ef_none)
qed

lemma files_after_read:
  assumes "\<And>x. r = Inr x \<Longrightarrow> access_effect (s\<lparr>ac_reads := n\<rparr>) (upd x (s\<lparr>ac_reads := n\<rparr>))"
  shows "acts_by s (snd (act_bind (r, s\<lparr>ac_reads := n\<rparr>) (\<lambda>x s. announce clock a p c x (upd x s))))"
proof -
  have "acts_by (s\<lparr>ac_reads := n\<rparr>) (snd (act_bind (r, s\<lparr>ac_reads := n\<rparr>) (\<lambda>x s. announce clock a p c x (upd x s))))"
    by (rule files_effect) (rule assms)
  then obtain u where "access_effect (s\<lparr>ac_reads := n\<rparr>) u"
    "policy_part (snd (act_bind (r, s\<lparr>ac_reads := n\<rparr>) (\<lambda>x s. announce clock a p c x (upd x s)))) = policy_part u"
    unfolding acts_by_def by blast
  then show ?thesis by (rule effect_reads)
qed

lemma py_bind_then: "py_bind x (\<lambda>_. r) = Inr y \<Longrightarrow> r = Inr y"
  by (cases x) auto

lemma checks_same [dest!]:
  "check_identity x = Inr y \<Longrightarrow> y = x" "check_binding b = Inr b' \<Longrightarrow> b' = b" "check_delegation d = Inr d' \<Longrightarrow> d' = d"
  "check_violation w = Inr w' \<Longrightarrow> w' = w"
  unfolding check_identity_def check_binding_def check_delegation_def check_violation_def
  by (drule py_bind_then | simp)+

lemma named_checks [dest!]:
  "check_role q = Inr q' \<Longrightarrow> q' = q \<and> \<not> blank (ro_role_id q)" "check_permission_rule v = Inr v' \<Longrightarrow> v' = v \<and> \<not> blank (ru_rule_id v)"
  by (auto simp: check_role_def check_permission_rule_def py_bind_Inr_iff non_empty_text_ok)

lemma register_identity_acts: "acts_by s (snd (register_identity clock i name kind tenant enabled s))"
  unfolding register_identity_def access_now_def Let_def prod.case
  by (cases "dict_get (ac_identities s) i \<noteq> None")
     (auto intro!: files_after_read access_effect.ef_identity)

lemma set_enabled_acts: "acts_by s (snd (set_enabled e act clock i s))"
  unfolding set_enabled_def
  by (cases "dict_get (ac_identities s) i")
     (auto intro!: files_effect access_effect.ef_flag)

lemma register_role_acts: "acts_by s (snd (register_role clock r name kind perms desc s))"
  unfolding register_role_def access_now_def Let_def prod.case
  by (cases "dict_get (ac_roles s) r \<noteq> None")
     (auto intro!: files_after_read access_effect.ef_role)

lemma add_rule_acts: "acts_by s (snd (add_permission_rule clock r res act eff k ref conds s))"
  unfolding add_permission_rule_def access_now_def Let_def prod.case
  by (cases "dict_get (ac_rules s) r \<noteq> None")
     (auto intro!: files_after_read access_effect.ef_rule)

lemma bind_role_acts: "acts_by s (snd (bind_role clock b i r k ref s))"
  unfolding bind_role_def access_now_def Let_def prod.case
  by (auto intro!: files_after_read access_effect.ef_binding)

lemma delegate_acts: "acts_by s (snd (delegate_permission clock d from to r k ref expires s))"
  unfolding delegate_permission_def access_now_def Let_def prod.case
  by (auto intro!: files_after_read access_effect.ef_delegation)

lemma end_delegation_acts: "st \<noteq> DS_ACTIVE \<Longrightarrow> acts_by s (snd (end_delegation st verb act clock d s))"
  unfolding end_delegation_def access_now_def Let_def prod.case
  by (cases "dict_get (ac_delegations s) d")
     (auto intro!: files_after_read access_effect.ef_end)

lemma restore_acts: "acts_by s (snd (restore_delegation x s))"
proof (cases "snd (restore_delegation x s) = s")
  case True
  then show ?thesis by (simp add: acts_none)
next
  case False
  then show ?thesis
    by (auto simp: restore_delegation_def acts_by_def split: if_splits intro: access_effect.ef_delegation)
qed

lemma evaluate_acts: "acts_by s (snd (evaluate_access clock q i res act k ref s))"
  using evaluate_cases[of clock q i res act k ref s] by (cases "evaluate_access clock q i res act k ref s") (auto intro: acts_none)

lemma policy_simps [simp]:
  "policy_part (s\<lparr>ac_reads := n\<rparr>) = policy_part s" "policy_part (s\<lparr>ac_snapshot_ids := N\<rparr>) = policy_part s"
  "policy_part (s\<lparr>ac_violations := V\<rparr>) = policy_part s" "policy_part (snd (announce clock a p c x s)) = policy_part s"
proof -
  show "policy_part (snd (announce clock a p c x s)) = policy_part s"
    using announce_keeps(1)[of clock a p c x s] by (cases "announce clock a p c x s") simp
qed (simp_all add: policy_part_def)

lemma policy_bind:
  "policy_part (snd r) = P \<Longrightarrow> (\<And>x t. policy_part t = P \<Longrightarrow> policy_part (snd (f x t)) = P) \<Longrightarrow> policy_part (snd (act_bind r f)) = P"
  by (auto simp: act_bind_def split: prod.splits sum.splits)

lemma scan_policy: "policy_part (snd (scan_audits now as s)) = policy_part s"
  by (induction now as s rule: scan_audits.induct) (auto simp: Let_def intro!: policy_bind)

lemma detect_acts: "acts_by s (snd (detect_violations clock s))"
  unfolding detect_violations_def access_now_def Let_def prod.case
  by (rule acts_none, rule policy_bind) (simp_all add: scan_policy)

lemma snapshot_acts: "acts_by s (snd (take_access_snapshot clock n ref s))"
  unfolding take_access_snapshot_def access_now_def Let_def prod.case
  by (rule acts_none) (auto intro!: policy_bind)

lemma keeps_trans:
  assumes "access_keeps s t" and "access_keeps t u"
  shows "access_keeps s u"
proof -
  have id: "\<exists>e. dict_get (ac_identities u) k = Some (x\<lparr>id_enabled := e\<rparr>)" if x: "dict_get (ac_identities s) k = Some x" for k x
  proof -
    obtain e where "dict_get (ac_identities t) k = Some (x\<lparr>id_enabled := e\<rparr>)" using assms(1) x unfolding access_keeps_def by meson
    then obtain e' where "dict_get (ac_identities u) k = Some (x\<lparr>id_enabled := e\<rparr>\<lparr>id_enabled := e'\<rparr>)"
      using assms(2) unfolding access_keeps_def by meson
    then show ?thesis by auto
  qed
  have dl: "dict_get (ac_delegations u) k = Some x \<or> dl_status x = DS_ACTIVE \<and> (\<exists>st at'. st \<noteq> DS_ACTIVE \<and>
      dict_get (ac_delegations u) k = Some (x\<lparr>dl_status := st, dl_revoked_at := at'\<rparr>))"
    if x: "dict_get (ac_delegations s) k = Some x" for k x
  proof -
    consider "dict_get (ac_delegations t) k = Some x" | st at' where "dl_status x = DS_ACTIVE" "st \<noteq> DS_ACTIVE"
      "dict_get (ac_delegations t) k = Some (x\<lparr>dl_status := st, dl_revoked_at := at'\<rparr>)"
      using assms(1) x unfolding access_keeps_def by blast
    then show ?thesis
    proof cases
      case 1
      then show ?thesis using assms(2) unfolding access_keeps_def by blast
    next
      case 2
      have "dict_get (ac_delegations u) k = Some (x\<lparr>dl_status := st, dl_revoked_at := at'\<rparr>)"
        using assms(2) 2(2,3) unfolding access_keeps_def by fastforce
      then show ?thesis using 2 by blast
    qed
  qed
  show ?thesis
    using assms id dl unfolding access_keeps_def by blast
qed

lemma step_acts: "access_step clock s t \<Longrightarrow> acts_by s t"
  by (cases rule: access_step.cases)
     (auto simp: disable_identity_def enable_identity_def revoke_delegation_def expire_delegation_def
       intro: register_identity_acts set_enabled_acts register_role_acts add_rule_acts bind_role_acts delegate_acts
         end_delegation_acts restore_acts evaluate_acts detect_acts snapshot_acts)

lemma acts_keeps:
  assumes "acts_by s t"
  shows "access_keeps s t" and "access_resolved s \<Longrightarrow> access_resolved t"
  using assms effect_keeps effect_resolved same_policy unfolding acts_by_def by metis+

lemma run_keeps:
  assumes "access_run clock s t"
  shows "access_keeps s t" and "access_resolved s \<Longrightarrow> access_resolved t"
  using assms
proof (induction rule: rtranclp_induct)
  case base
  { case 1 show ?case by (rule keeps_refl) }
  { case 2 then show ?case . }
next
  case (step t u)
  { case 1 show ?case using step acts_keeps(1) step_acts keeps_trans by metis }
  { case 2 then show ?case using step acts_keeps(2) step_acts by metis }
qed

section \<open>Properties\<close>

text \<open>
  C25: an evaluation decides by the reference: denied unless the identity is known, enabled and has the
  permission by one of its roles in scope, or when a deny rule is in force; otherwise an approval is
  required when such a rule is in force, else access is allowed.  The evaluation and an audit record
  of the decision are on file, and whatever happens the policy is not touched.
\<close>

theorem access_decision_rule:
  "case evaluate_access clock request_id identity_id resource_type action kind ref s of
     (Inl e, t) \<Rightarrow> policy_part t = policy_part s
   | (Inr x, t) \<Rightarrow> policy_part t = policy_part s \<and>
       ae_decision x = access_reference s identity_id resource_type action kind ref \<and>
       dict_get (ac_evaluations t) (ae_evaluation_id x) = Some x \<and>
       (\<exists>a. dict_get (ac_audits t) (au_audit_id a) = Some a \<and> au_identity_id a = identity_id \<and> au_action a = action \<and>
          au_resource_type a = resource_type \<and> au_decision a = ae_decision x)"
proof -
  obtain y t where y: "evaluate_access clock request_id identity_id resource_type action kind ref s = (y, t)" by fastforce
  show ?thesis using evaluate_cases[OF y] unfolding y prod.case by (cases y) auto
qed

text \<open>
  C26: in every run identities, roles, rules and bindings are never lost or changed, but for the flag of
  an identity; a delegation that was revoked or has expired never comes back; bindings and delegations
  refer to registered identities and roles.
\<close>

theorem access_life:
  assumes "access_run clock (access_init spine) s" and "access_run clock s t"
  shows "access_resolved t \<and> access_keeps s t"
proof -
  have "access_resolved (access_init spine)" by (simp add: access_resolved_def access_init_def)
  then show ?thesis using run_keeps[OF assms(1)] run_keeps[OF assms(2)] by blast
qed

text \<open>The RBAC guard over the engine: it asks in the scope of a tenant.\<close>

definition runtime_access :: "access_clock \<Rightarrow> access_engine access_fn" where
  "runtime_access clock request_id identity_id resource_type action ref s =
     (case evaluate_access clock request_id identity_id resource_type action SCOPE_TENANT ref s of
        (Inl e, s) \<Rightarrow> (Inl (''RuntimeCoreInvariantError'', False), s) | (Inr x, s) \<Rightarrow> (Inr (ae_decision x), s))"

text \<open>
  C27: the RBAC guard over the engine never raises and never changes the policy; an authenticated request
  passes only if its identity is enabled and has the permission in the scope of the tenant, and no deny
  or approval rule is in force.
\<close>

theorem rbac_admits:
  assumes "gu_check (rbac_guard (runtime_access clock) require_identity) ctx s = (r, ctx', t)" and "ctx_identity ctx \<noteq> []"
  shows "\<exists>g. r = Inr g \<and> policy_part t = policy_part s \<and>
    (gd_allowed g \<longrightarrow>
      (let p = rbac_resource_type (ctx_str ctx ''endpoint'' ''/unknown''); a = ctx_str ctx ''method'' ''GET'';
           ref = ctx_str ctx ''tenant_id'' ''*''
       in may_access s (ctx_identity ctx) p a SCOPE_TENANT ref \<and> \<not> rule_in_force s p a SCOPE_TENANT ref PE_DENY \<and>
          \<not> rule_in_force s p a SCOPE_TENANT ref PE_REQUIRE_APPROVAL))"
proof -
  let ?e = "ctx_str ctx ''endpoint'' ''/unknown''" and ?m = "ctx_str ctx ''method'' ''GET''"
  let ?q = "''rbac-'' @ take 12 (sha256_hex (py_join '':'' [ctx_identity ctx, ?e, ?m]))"
  obtain y u where y: "evaluate_access clock ?q (ctx_identity ctx) (rbac_resource_type ?e) ?m SCOPE_TENANT
      (ctx_str ctx ''tenant_id'' ''*'') s = (y, u)" by fastforce
  note c = evaluate_cases[OF y]
  show ?thesis
  proof (cases y)
    case (Inl e)
    then show ?thesis using assms c y by (auto simp: rbac_guard_def Let_def runtime_access_def guard_deny_def)
  next
    case (Inr x)
    then show ?thesis using assms c y
      by (auto simp: rbac_guard_def Let_def runtime_access_def guard_deny_def access_reference_def split: if_splits)
  qed
qed

section \<open>Evaluations return\<close>

lemma access_ids:
  "\<exists>i. stable_identifier ''evt-access'' p = Inr i \<and> \<not> blank i" "\<exists>i. stable_identifier ''eval'' p = Inr i \<and> \<not> blank i"
  "\<exists>i. stable_identifier ''audit'' p = Inr i \<and> \<not> blank i" "\<exists>i. stable_identifier ''viol-access'' p = Inr i \<and> \<not> blank i"
  by (rule stable_identifier_total, code_simp)+

definition time_source :: "access_clock \<Rightarrow> bool" where
  "time_source clock \<longleftrightarrow> (\<forall>n. time_ok (clock n))"

definition event_id_taken :: "string \<Rightarrow> string \<Rightarrow> string \<Rightarrow> access_engine \<Rightarrow> bool" where
  "event_id_taken action now cid s \<longleftrightarrow>
     (\<exists>i. stable_identifier ''evt-access'' [(''action'', JStr action), (''ts'', JStr now), (''cid'', JStr cid)] = Inr i \<and>
        dict_get (sp_events (ac_spine s)) i \<noteq> None)"

lemma announce_total:
  assumes "time_source clock" and "\<not> blank cid" and "\<not> event_id_taken action (clock (ac_reads s)) cid s"
  shows "fst (announce clock action payload cid x s) = Inr x"
proof -
  obtain i where i: "stable_identifier ''evt-access'' [(''action'', JStr action), (''ts'', JStr (clock (ac_reads s))), (''cid'', JStr cid)] = Inr i"
    "\<not> blank i" using access_ids(1) by blast
  have "dict_get (sp_events (ac_spine s)) i = None" using assms(3) i(1) by (auto simp: event_id_taken_def)
  moreover have "EventRecord (PStr i) (PEnum ''EventType'' (event_type_value ET_CUSTOM))
      (PEnum ''EventSource'' (event_source_value ES_COMMUNICATION_SYSTEM)) (PStr cid) (PDict p) (PStr (clock (ac_reads s))) =
      Inr \<lparr>ev_event_id = i, ev_event_type = ET_CUSTOM, ev_source = ES_COMMUNICATION_SYSTEM, ev_correlation_id = cid,
        ev_payload = p, ev_emitted_at = clock (ac_reads s)\<rparr>" for p
    using assms(1,2) i(2) by (simp add: EventRecord_def py_bind_Inr_iff validators time_source_def time_ok_def)
  ultimately show ?thesis
    by (simp add: announce_def emit_access_def access_now_def Let_def act_bind_def i(1) emit_def del: event_type_value.simps event_source_value.simps)
qed

lemma audit_total:
  assumes "\<not> blank i" and "\<not> blank a" and "\<not> blank p" and "\<not> blank r" and "time_ok now"
  obtains z where "record_access_audit i a p d k r now s = (Inr z, s\<lparr>ac_audits := dict_set (au_audit_id z) z (ac_audits s)\<rparr>)"
proof -
  obtain n where n: "stable_identifier ''audit'' [(''identity'', JStr i), (''action'', JStr a), (''ts'', JStr now)] = Inr n" "\<not> blank n"
    using access_ids(3) by blast
  define z where "z = \<lparr>au_audit_id = n, au_identity_id = i, au_action = a, au_resource_type = p, au_decision = d,
      au_scope_kind = k, au_scope_ref_id = r, au_recorded_at = now\<rparr>"
  have "check_access_audit z = Inr z"
    using assms n by (simp add: check_access_audit_def z_def py_bind_Inr_iff validators time_ok_def)
  then have "record_access_audit i a p d k r now s = (Inr z, s\<lparr>ac_audits := dict_set (au_audit_id z) z (ac_audits s)\<rparr>)"
    by (simp add: record_access_audit_def n(1) act_bind_def z_def)
  then show ?thesis by (rule that)
qed

lemma evaluation_total:
  assumes "\<not> blank q" and "\<not> list_ex blank rules" and "\<forall>r \<in> roles. \<not> blank r" and "time_ok now"
  obtains z where "make_evaluation q d rules roles reason now s = (Inr z, s\<lparr>ac_evaluations := dict_set (ae_evaluation_id z) z (ac_evaluations s)\<rparr>)"
proof -
  obtain n where n: "stable_identifier ''eval'' [(''req'', JStr q), (''ts'', JStr now)] = Inr n" "\<not> blank n"
    using access_ids(2) by blast
  define z where "z = \<lparr>ae_evaluation_id = n, ae_request_id = q, ae_decision = d, ae_matching_rule_ids = rules,
      ae_matching_role_ids = roles, ae_reason = reason, ae_evaluated_at = now\<rparr>"
  have "check_evaluation z = Inr z"
    using assms n by (auto simp: check_evaluation_def z_def py_bind_Inr_iff validators access_checks(2) time_ok_def)
  then have "make_evaluation q d rules roles reason now s = (Inr z, s\<lparr>ac_evaluations := dict_set (ae_evaluation_id z) z (ac_evaluations s)\<rparr>)"
    by (simp add: make_evaluation_def n(1) act_bind_def z_def)
  then show ?thesis by (rule that)
qed

lemma effective_named:
  assumes "access_resolved s"
  shows "\<forall>r \<in> effective_role_ids s i k ref. \<not> blank r"
proof -
  have "dict_get (ac_roles s) r \<noteq> None" if "r \<in> effective_role_ids s i k ref" for r
    using that assms unfolding effective_role_ids_def access_resolved_def by (fastforce dest: dict_mem_get)
  then show ?thesis using assms by (fastforce simp: access_resolved_def)
qed

lemma decided_ids: "decide_access g rs = (d, reason, ids) \<Longrightarrow> set ids \<subseteq> ru_rule_id ` set rs"
  by (auto simp: decide_access_def weigh_rules_eq Let_def split: if_splits)

lemma refused_total:
  assumes "\<not> blank q" and "\<not> blank i" and "\<not> blank a" and "\<not> blank p" and "\<not> blank r" and "time_ok now"
  shows "\<exists>x. fst (act_bind (make_evaluation q AccessDenied [] {} reason now s) (\<lambda>x s.
      act_bind (record_access_audit i a p AccessDenied k r now s) (\<lambda>_ s. (Inr x, s)))) = Inr x"
proof -
  obtain z where z: "make_evaluation q AccessDenied [] {} reason now s = (Inr z, s\<lparr>ac_evaluations := dict_set (ae_evaluation_id z) z (ac_evaluations s)\<rparr>)"
    by (rule evaluation_total[of q "[]" "{}" now AccessDenied reason s]) (use assms in simp_all)
  obtain v where "record_access_audit i a p AccessDenied k r now (s\<lparr>ac_evaluations := dict_set (ae_evaluation_id z) z (ac_evaluations s)\<rparr>) =
      (Inr v, s\<lparr>ac_evaluations := dict_set (ae_evaluation_id z) z (ac_evaluations s), ac_audits := dict_set (au_audit_id v) v (ac_audits s)\<rparr>)"
    by (rule audit_total[OF assms(2-6), of AccessDenied k "s\<lparr>ac_evaluations := dict_set (ae_evaluation_id z) z (ac_evaluations s)\<rparr>"]) simp
  then show ?thesis by (simp add: z act_bind_def)
qed

text \<open>
  an evaluation with non-empty arguments always comes back with a decision, unless an event with
  the identifier of its own event is in the spine already.
\<close>

theorem evaluation_returns:
  assumes "access_run clock (access_init spine) s" and "time_source clock" and "\<not> blank q" and "\<not> blank i" and "\<not> blank p"
    and "\<not> blank a" and "\<not> blank r" and "\<not> event_id_taken ''access_evaluated'' (clock (Suc (ac_reads s))) q s"
  shows "\<exists>x. fst (evaluate_access clock q i p a k r s) = Inr x \<and> ae_decision x = access_reference s i p a k r"
proof -
  have res: "access_resolved s"
  proof -
    have "access_resolved (access_init spine)" by (simp add: access_resolved_def access_init_def)
    then show ?thesis using run_keeps(2)[OF assms(1)] by blast
  qed
  let ?s = "s\<lparr>ac_reads := Suc (ac_reads s)\<rparr>" and ?now = "clock (ac_reads s)"
  let ?roles = "effective_role_ids s i k r"
  have same: "effective_role_ids ?s i k r = ?roles" "permissions_of ?s R = permissions_of s R" for R
    by (simp_all add: effective_role_ids_def permissions_of_def)
  have now: "time_ok ?now" using assms(2) by (simp add: time_source_def)
  let ?req = "\<lparr>ar_request_id = q, ar_identity_id = i, ar_resource_type = p, ar_action = a, ar_scope_kind = k,
      ar_scope_ref_id = r, ar_requested_at = ?now\<rparr>"
  have req: "check_access_request ?req = Inr ?req"
    using assms(3-6) now by (simp add: check_access_request_def py_bind_Inr_iff validators time_ok_def)
  have "\<exists>x. fst (evaluate_access clock q i p a k r s) = Inr x"
  proof (cases "\<exists>x. dict_get (ac_identities s) i = Some x \<and> id_enabled x")
    case False
    have "\<exists>reason. evaluate_access clock q i p a k r s = act_bind (make_evaluation q AccessDenied [] {} reason ?now ?s) (\<lambda>x s.
      act_bind (record_access_audit i a p AccessDenied k r ?now s) (\<lambda>_ s. (Inr x, s)))"
      using False req unfolding evaluate_access_def access_now_def Let_def prod.case
      by (auto simp: act_bind_def[of "(Inr ?req, ?s)"] split: option.split)
    then show ?thesis using refused_total[OF assms(3,4,6,5,7) now] by metis
  next
    case True
    then obtain x where x: "dict_get (ac_identities s) i = Some x" "id_enabled x" by blast
    obtain d reason ids where d: "decide_access (grants (permissions_of s ?roles) p a)
        (filter (permission_matches p a k r) (dict_values (ac_rules s))) = (d, reason, ids)" by (metis prod_cases3)
    have named: "\<not> blank (ru_rule_id x)" if "x \<in> set (dict_values (ac_rules s))" for x
      using res that unfolding access_resolved_def by (metis dict_values_mem)
    have ids: "\<not> list_ex blank ids" using decided_ids[OF d] named unfolding list_ex_iff by force
    obtain z where z: "make_evaluation q d ids ?roles reason ?now ?s =
        (Inr z, ?s\<lparr>ac_evaluations := dict_set (ae_evaluation_id z) z (ac_evaluations ?s)\<rparr>)"
      using evaluation_total[OF assms(3) ids effective_named[OF res] now] by metis
    let ?t = "?s\<lparr>ac_evaluations := dict_set (ae_evaluation_id z) z (ac_evaluations ?s)\<rparr>"
    obtain v where v: "record_access_audit i a p d k r ?now ?t = (Inr v, ?t\<lparr>ac_audits := dict_set (au_audit_id v) v (ac_audits ?t)\<rparr>)"
      using audit_total[OF assms(4,6,5,7) now] by metis
    let ?u = "?t\<lparr>ac_audits := dict_set (au_audit_id v) v (ac_audits ?t)\<rparr>"
    have "\<not> event_id_taken ''access_evaluated'' (clock (ac_reads ?u)) q ?u" using assms(8) by (simp add: event_id_taken_def)
    then have "fst (announce clock ''access_evaluated'' pl q z ?u) = Inr z" for pl
      by (rule announce_total[OF assms(2,3)])
    then show ?thesis
      using x d z v req same unfolding evaluate_access_def access_now_def Let_def prod.case by (simp add: act_bind_def)
  qed
  then show ?thesis using evaluate_cases[of clock q i p a k r s]
    by (cases "evaluate_access clock q i p a k r s") auto
qed

section \<open>Violations\<close>

definition audit_covered :: "access_engine \<Rightarrow> access_audit \<Rightarrow> bool" where
  "audit_covered s a \<longleftrightarrow> (\<exists>vid. stable_identifier ''viol-access'' [(''audit'', JStr (au_audit_id a))] = Inr vid \<and>
     dict_get (ac_violations s) vid \<noteq> None)"

lemma scan_covers:
  assumes "scan_audits now as s = (Inr vs, t)"
  shows "ac_audits t = ac_audits s \<and> (\<forall>k. dict_get (ac_violations s) k \<noteq> None \<longrightarrow> dict_get (ac_violations t) k \<noteq> None) \<and>
    (\<forall>a \<in> set as. au_decision a = AccessDenied \<longrightarrow> audit_covered t a)"
  using assms
proof (induction as arbitrary: s vs t)
  case (Cons a as)
  obtain vid where vid: "stable_identifier ''viol-access'' [(''audit'', JStr (au_audit_id a))] = Inr vid" using access_ids(4) by blast
  show ?case
  proof (cases "au_decision a = AccessDenied \<and> dict_get (ac_violations s) vid = None")
    case False
    then have "scan_audits now as s = (Inr vs, t)" using Cons.prems vid by (auto simp: act_bind_def split: if_splits)
    then show ?thesis using Cons.IH False vid by (auto simp: audit_covered_def)
  next
    case True
    obtain v us where v: "scan_audits now as (s\<lparr>ac_violations := dict_set vid v (ac_violations s)\<rparr>) = (Inr us, t)"
      using Cons.prems True vid by (auto simp: Let_def act_bind_def[of "(Inr vid, s)"] elim!: act_bind_cases)
    show ?thesis using Cons.IH[OF v] vid by (auto simp: audit_covered_def split: if_splits)
  qed
qed simp

lemma scan_again:
  assumes "\<forall>a \<in> set as. au_decision a = AccessDenied \<longrightarrow> audit_covered s a"
  shows "scan_audits now as s = (Inr [], s)"
  using assms
  by (induction as) (auto simp: audit_covered_def act_bind_def)

text \<open>
  a scan that returns has filed a violation for every denied access in the audit records, and a
  second scan finds nothing and emits nothing.
\<close>

theorem violations_complete:
  assumes "detect_violations clock s = (Inr vs, t)"
  shows "(\<forall>a \<in> set (dict_values (ac_audits t)). au_decision a = AccessDenied \<longrightarrow> audit_covered t a) \<and>
    detect_violations clock t = (Inr [], t\<lparr>ac_reads := Suc (ac_reads t)\<rparr>)"
proof -
  let ?s = "s\<lparr>ac_reads := Suc (ac_reads s)\<rparr>"
  obtain us u where u: "scan_audits (clock (ac_reads s)) (dict_values (ac_audits s)) ?s = (Inr us, u)"
    and t: "t = u \<or> only_spine u t"
    using assms unfolding detect_violations_def access_now_def Let_def prod.case
    by (elim act_bind_cases) (auto split: if_splits dest!: announce_frame)
  have fields: "ac_audits t = ac_audits u" "ac_violations t = ac_violations u" using t by (auto simp: only_spine_iff)
  then have cover: "\<forall>a \<in> set (dict_values (ac_audits t)). au_decision a = AccessDenied \<longrightarrow> audit_covered t a"
    using scan_covers[OF u] by (simp add: audit_covered_def)
  then have "scan_audits now (dict_values (ac_audits t)) (t\<lparr>ac_reads := n\<rparr>) = (Inr [], t\<lparr>ac_reads := n\<rparr>)" for now n
    by (intro scan_again) (simp add: audit_covered_def)
  then show ?thesis using cover by (simp add: detect_violations_def access_now_def act_bind_def)
qed

section \<open>What the code does beside its promises\<close>

text \<open>A binding to a role in one tenant counts in every workspace and environment, of any tenant.\<close>

theorem tenant_scope_leaks:
  assumes "b \<in> set (dict_values (ac_bindings s))" and "bd_scope_kind b = SCOPE_TENANT"
    and "kind = SCOPE_WORKSPACE \<or> kind = SCOPE_ENVIRONMENT"
  shows "bd_role_id b \<in> effective_role_ids s (bd_identity_id b) kind ref"
  using assms by (force simp: effective_role_ids_def scope_applies_def)

text \<open>The time a delegation expires at has no influence on any decision.\<close>

theorem expiry_ignored:
  "access_reference (s\<lparr>ac_delegations := map (map_prod id (\<lambda>d. d\<lparr>dl_expires_at := f d\<rparr>)) (ac_delegations s)\<rparr>) = access_reference s"
proof -
  let ?t = "s\<lparr>ac_delegations := map (map_prod id (\<lambda>d. d\<lparr>dl_expires_at := f d\<rparr>)) (ac_delegations s)\<rparr>"
  have "effective_role_ids ?t i k ref = effective_role_ids s i k ref" for i k ref
  proof -
    have v: "dict_values (ac_delegations ?t) = map (\<lambda>d. d\<lparr>dl_expires_at := f d\<rparr>) (dict_values (ac_delegations s))" by simp
    show ?thesis unfolding effective_role_ids_def v by (simp add: filter_map comp_def)
  qed
  then show ?thesis by (intro ext) (simp add: access_reference_def may_access_def rule_in_force_def)
qed

text \<open>Rules that allow have none either.\<close>

theorem allow_rules_ignored:
  "access_reference (s\<lparr>ac_rules := filter (\<lambda>p. ru_effect (snd p) \<noteq> PE_ALLOW) (ac_rules s)\<rparr>) = access_reference s"
proof -
  let ?t = "s\<lparr>ac_rules := filter (\<lambda>p. ru_effect (snd p) \<noteq> PE_ALLOW) (ac_rules s)\<rparr>"
  have "rule_in_force ?t p a k ref e = rule_in_force s p a k ref e" if "e \<noteq> PE_ALLOW" for p a k ref e
    using that by (force simp: rule_in_force_def)
  then show ?thesis
    by (intro ext) (simp add: access_reference_def may_access_def effective_role_ids_def)
qed

section \<open>Witnesses\<close>

definition demo_times :: access_clock where
  "demo_times n = ''2024-01-02T03:04:05+00:00''"

lemma demo_times_ok: "time_source demo_times"
proof -
  have "time_ok ''2024-01-02T03:04:05+00:00''" by code_simp
  then show ?thesis by (simp add: time_source_def demo_times_def)
qed

theorem access_life_witness:
  "access_resolved (snd (register_identity demo_times ''u1'' ''Ada'' IK_HUMAN ''t1'' True (access_init spine_init)))"
  using access_life[OF rtranclp.rtrancl_refl r_into_rtranclp[where r = "access_step demo_times", OF ac_register_identity]] by blast

theorem evaluation_returns_witness:
  "\<exists>x. fst (evaluate_access demo_times ''q1'' ''u1'' ''llm'' ''GET'' SCOPE_TENANT ''t1'' (access_init spine_init)) = Inr x \<and>
     ae_decision x = AccessDenied"
proof -
  have b: "\<not> blank ''q1''" "\<not> blank ''u1''" "\<not> blank ''llm''" "\<not> blank ''GET''" "\<not> blank ''t1''" by code_simp+
  have "\<not> event_id_taken a now c (access_init spine_init)" for a now c
    by (simp add: event_id_taken_def access_init_def spine_init_def)
  moreover have "access_reference (access_init spine_init) ''u1'' ''llm'' ''GET'' SCOPE_TENANT ''t1'' = AccessDenied"
    by (simp add: access_reference_def may_access_def access_init_def)
  ultimately show ?thesis
    using evaluation_returns[OF rtranclp.rtrancl_refl demo_times_ok b] by metis
qed

theorem rbac_admits_witness:
  "\<exists>g. fst (gu_check (rbac_guard (runtime_access demo_times) False) [(''authenticated_subject'', CStr ''u1'')] (access_init spine_init)) = Inr g \<and>
     \<not> gd_allowed g"
proof -
  let ?c = "[(''authenticated_subject'', CStr ''u1'')]"
  have "ctx_identity ?c \<noteq> []" by (simp add: ctx_identity_def ctx_str_def str_or_def)
  moreover obtain r c t where e: "gu_check (rbac_guard (runtime_access demo_times) False) ?c (access_init spine_init) = (r, c, t)"
    by (metis prod_cases3)
  moreover have "\<not> may_access (access_init spine_init) i p a k ref" for i p a k ref by (simp add: may_access_def access_init_def)
  ultimately show ?thesis using rbac_admits[OF e] by (auto simp: Let_def)
qed

definition demo_audit :: access_audit where
  "demo_audit = \<lparr>au_audit_id = ''a1'', au_identity_id = ''u1'', au_action = ''GET'', au_resource_type = ''llm'',
     au_decision = AccessDenied, au_scope_kind = SCOPE_TENANT, au_scope_ref_id = ''t1'',
     au_recorded_at = ''2024-01-02T03:04:05+00:00''\<rparr>"

theorem violations_complete_witness:
  "\<exists>vs t. detect_violations demo_times ((access_init spine_init)\<lparr>ac_audits := [(''a1'', demo_audit)]\<rparr>) = (Inr vs, t) \<and>
     audit_covered t demo_audit"
proof -
  let ?s = "(access_init spine_init)\<lparr>ac_audits := [(''a1'', demo_audit)]\<rparr>"
  let ?s1 = "?s\<lparr>ac_reads := Suc (ac_reads ?s)\<rparr>" and ?now = "demo_times (ac_reads ?s)"
  obtain vid where vid: "stable_identifier ''viol-access'' [(''audit'', JStr (au_audit_id demo_audit))] = Inr vid" "\<not> blank vid"
    using access_ids(4) by blast
  define v where "v = \<lparr>vi_violation_id = vid, vi_identity_id = ''u1'', vi_resource_type = ''llm'', vi_action = ''GET'',
    vi_scope_kind = SCOPE_TENANT, vi_scope_ref_id = ''t1'', vi_reason = ''denied access attempt'', vi_detected_at = ?now, vi_metadata = []\<rparr>"
  have "\<not> blank ''u1''" "\<not> blank ''llm''" "\<not> blank ''GET''" "\<not> blank ''t1''" "\<not> blank ''violation-scan''" by code_simp+
  then have v: "check_violation v = Inr v" and cid: "\<not> blank ''violation-scan''"
    using vid(2) demo_times_ok by (simp_all add: check_violation_def v_def py_bind_Inr_iff validators time_source_def time_ok_def)
  let ?t = "?s1\<lparr>ac_violations := dict_set vid v (ac_violations ?s1)\<rparr>"
  have scan: "scan_audits ?now (dict_values (ac_audits ?s)) ?s1 = (Inr [v], ?t)"
    using vid v by (simp add: act_bind_def demo_audit_def access_init_def v_def)
  have "\<not> event_id_taken a now c ?t" for a now c by (simp add: event_id_taken_def access_init_def spine_init_def)
  then have "fst (announce demo_times ''access_violations_detected'' [(''count'', PInt 1)] ''violation-scan'' [v] ?t) = Inr [v]"
    by (rule announce_total[OF demo_times_ok cid])
  then obtain t where t: "announce demo_times ''access_violations_detected'' [(''count'', PInt 1)] ''violation-scan'' [v] ?t = (Inr [v], t)"
    by (metis prod.collapse)
  have d: "detect_violations demo_times ?s = (Inr [v], t)"
    using scan t unfolding detect_violations_def access_now_def Let_def prod.case by (simp add: act_bind_def)
  have "ac_audits t = [(''a1'', demo_audit)]" using announce_keeps(3)[OF t] by simp
  moreover have "au_decision demo_audit = AccessDenied" by (simp add: demo_audit_def)
  ultimately have "audit_covered t demo_audit" using violations_complete[OF d] by simp
  then show ?thesis using d by blast
qed

end
