(* ===== verification/Approval_Engine.thy ===== *)
theory Approval_Engine
  imports Supervisor
begin

text \<open>
  Approvals: \<open>mcoi_runtime/contracts/approval.py\<close> and \<open>mcoi_runtime/core/approval.py\<close>, requests,
  decisions, their validation, consumption and revocation, overrides and mutation receipts.  Arguments
  have their annotated types; the clock is a function of the number of its readings.
\<close>

section \<open>Records\<close>

datatype approval_status = AP_PENDING | AP_APPROVED | AP_REJECTED | AP_EXPIRED | AP_REVOKED

primrec approval_status_value :: "approval_status \<Rightarrow> string" where
  "approval_status_value AP_PENDING = ''pending''"
| "approval_status_value AP_APPROVED = ''approved''"
| "approval_status_value AP_REJECTED = ''rejected''"
| "approval_status_value AP_EXPIRED = ''expired''"
| "approval_status_value AP_REVOKED = ''revoked''"

datatype approval_scope_type =
  AT_EXECUTION | AT_SKILL | AT_RUNBOOK | AT_RECOVERY | AT_ROLLBACK | AT_COMMUNICATION

primrec approval_scope_value :: "approval_scope_type \<Rightarrow> string" where
  "approval_scope_value AT_EXECUTION = ''execution''"
| "approval_scope_value AT_SKILL = ''skill''"
| "approval_scope_value AT_RUNBOOK = ''runbook''"
| "approval_scope_value AT_RECOVERY = ''recovery''"
| "approval_scope_value AT_ROLLBACK = ''rollback''"
| "approval_scope_value AT_COMMUNICATION = ''communication''"

datatype override_type = OV_POLICY | OV_AUTONOMY | OV_RECOVERY | OV_PROVIDER

primrec override_value :: "override_type \<Rightarrow> string" where
  "override_value OV_POLICY = ''policy_override''"
| "override_value OV_AUTONOMY = ''autonomy_override''"
| "override_value OV_RECOVERY = ''recovery_override''"
| "override_value OV_PROVIDER = ''provider_override''"

text \<open>\<open>_freeze_text_array\<close>: the label of an element is none of the known labels.\<close>

definition approval_text_array :: "string list \<Rightarrow> unit py" where
  "approval_text_array values =
     (if list_ex blank values then Inl (ValueError ''value must be a non-empty string'') else Inr ())"

record approval_scope =
  so_scope_type :: approval_scope_type
  so_target_id :: string
  so_allowed_actions :: "string list"
  so_max_executions :: int

definition check_approval_scope :: "approval_scope \<Rightarrow> approval_scope py" where
  "check_approval_scope x =
     py_bind (require_non_empty_text (so_target_id x) ''target_id'') (\<lambda>_.
     py_bind (approval_text_array (so_allowed_actions x)) (\<lambda>_.
     if so_max_executions x < 1 then Inl (ValueError ''max_executions must be a positive integer'') else Inr x))"

record approval_request =
  rq_request_id :: string
  rq_requester_id :: string
  rq_scope :: approval_scope
  rq_reason :: string
  rq_requested_at :: string
  rq_allowed_approver_ids :: "string list"
  rq_expires_at :: "string option"
  rq_correlation_id :: "string option"
  rq_goal_id :: "string option"
  rq_incident_id :: "string option"

fun check_approvers :: "string \<Rightarrow> string set \<Rightarrow> string list \<Rightarrow> unit py" where
  "check_approvers requester seen [] = Inr ()"
| "check_approvers requester seen (a # as) =
     (if a \<in> seen then Inl (ValueError ''allowed_approver_ids must not contain duplicates'')
      else if a = requester then Inl (ValueError ''allowed_approver_ids must exclude requester_id'')
      else check_approvers requester (insert a seen) as)"

definition check_approval_request :: "approval_request \<Rightarrow> approval_request py" where
  "check_approval_request x =
     py_bind (require_non_empty_text (rq_request_id x) ''request_id'') (\<lambda>_.
     py_bind (require_non_empty_text (rq_requester_id x) ''requester_id'') (\<lambda>_.
     py_bind (require_non_empty_text (rq_reason x) ''reason'') (\<lambda>_.
     py_bind (require_datetime_text (rq_requested_at x) ''requested_at'') (\<lambda>_.
     py_bind (approval_text_array (rq_allowed_approver_ids x)) (\<lambda>_.
     py_bind (check_approvers (rq_requester_id x) {} (rq_allowed_approver_ids x)) (\<lambda>_.
     case rq_expires_at x of
       None \<Rightarrow> Inr x
     | Some t \<Rightarrow> py_bind (require_datetime_text t ''expires_at'') (\<lambda>_. Inr x)))))))"

record approval_decision =
  dn_decision_id :: string
  dn_request_id :: string
  dn_approver_id :: string
  dn_status :: approval_status
  dn_decided_at :: string
  dn_reason :: "string option"
  dn_executions_used :: int

definition check_approval_decision :: "approval_decision \<Rightarrow> approval_decision py" where
  "check_approval_decision x =
     py_bind (require_non_empty_text (dn_decision_id x) ''decision_id'') (\<lambda>_.
     py_bind (require_non_empty_text (dn_request_id x) ''request_id'') (\<lambda>_.
     py_bind (require_non_empty_text (dn_approver_id x) ''approver_id'') (\<lambda>_.
     py_bind (require_datetime_text (dn_decided_at x) ''decided_at'') (\<lambda>_. Inr x))))"

definition decision_active :: "approval_decision \<Rightarrow> bool" where
  "decision_active x \<longleftrightarrow> dn_status x = AP_APPROVED"

definition decision_terminal :: "approval_decision \<Rightarrow> bool" where
  "decision_terminal x \<longleftrightarrow> dn_status x \<in> {AP_REJECTED, AP_EXPIRED, AP_REVOKED}"

record override_record =
  or_override_id :: string
  or_operator_id :: string
  or_override_type :: override_type
  or_target_id :: string
  or_original_decision :: string
  or_new_decision :: string
  or_reason :: string
  or_overridden_at :: string
  or_approval_id :: "string option"

definition check_override :: "override_record \<Rightarrow> override_record py" where
  "check_override x =
     py_bind (require_non_empty_text (or_override_id x) ''override_id'') (\<lambda>_.
     py_bind (require_non_empty_text (or_operator_id x) ''operator_id'') (\<lambda>_.
     py_bind (require_non_empty_text (or_target_id x) ''target_id'') (\<lambda>_.
     py_bind (require_non_empty_text (or_original_decision x) ''original_decision'') (\<lambda>_.
     py_bind (require_non_empty_text (or_new_decision x) ''new_decision'') (\<lambda>_.
     py_bind (require_non_empty_text (or_reason x) ''reason'') (\<lambda>_.
     py_bind (require_datetime_text (or_overridden_at x) ''overridden_at'') (\<lambda>_. Inr x)))))))"

section \<open>The engine\<close>

record approval_receipt =
  rc_receipt_id :: string
  rc_mutation_type :: string
  rc_effect_name :: string
  rc_subject_ref :: string
  rc_evidence_ref :: string
  rc_recorded_at :: string
  rc_metadata :: "(string \<times> pval) list"

record approval_engine =
  ap_requests :: "(string, approval_request) pydict"
  ap_decisions :: "(string, approval_decision) pydict"
  ap_overrides :: "override_record list"
  ap_counts :: "(string, int) pydict"
  ap_receipts :: "approval_receipt list"
  ap_reads :: nat

definition approval_init :: approval_engine where
  "approval_init = \<lparr>ap_requests = [], ap_decisions = [], ap_overrides = [], ap_counts = [], ap_receipts = [], ap_reads = 0\<rparr>"

type_synonym approval_clock = "nat \<Rightarrow> string"

type_synonym 'a approval_act = "approval_engine \<Rightarrow> 'a py \<times> approval_engine"

definition approval_now :: "approval_clock \<Rightarrow> approval_engine \<Rightarrow> string \<times> approval_engine" where
  "approval_now clock s = (clock (ap_reads s), s\<lparr>ap_reads := Suc (ap_reads s)\<rparr>)"

definition optional_hash :: "string option \<Rightarrow> pval" where
  "optional_hash v = (case v of None \<Rightarrow> PNone | Some t \<Rightarrow> PStr (sha256_hex t))"

definition receipt_id_of :: "string \<Rightarrow> string \<Rightarrow> string \<Rightarrow> nat \<Rightarrow> string" where
  "receipt_id_of mutation_type subject_ref recorded_at ordinal =
     ''approval-'' @ mutation_type @ ''-'' @ take 16 (sha256_hex (dumps_compact (JObj
       [(''mutation_type'', JStr mutation_type), (''subject_ref'', JStr subject_ref), (''recorded_at'', JStr recorded_at),
        (''ordinal'', JInt (int ordinal))])))"

definition record_receipt ::
  "approval_clock \<Rightarrow> string \<Rightarrow> string \<Rightarrow> string \<Rightarrow> (string \<times> pval) list \<Rightarrow> approval_engine \<Rightarrow> approval_engine" where
  "record_receipt clock mutation_type effect_name subject_ref metadata s =
     (let (now, s) = approval_now clock s; i = receipt_id_of mutation_type subject_ref now (length (ap_receipts s))
      in s\<lparr>ap_receipts := ap_receipts s @
            [\<lparr>rc_receipt_id = i, rc_mutation_type = mutation_type, rc_effect_name = effect_name, rc_subject_ref = subject_ref,
              rc_evidence_ref = ''approval-receipt:'' @ i, rc_recorded_at = now, rc_metadata = metadata\<rparr>]\<rparr>)"

section \<open>Requests\<close>

definition submit_request :: "approval_clock \<Rightarrow> approval_request \<Rightarrow> approval_request approval_act" where
  "submit_request clock q s =
     (if dict_get (ap_requests s) (rq_request_id q) \<noteq> None
      then (Inl (ValueError ''approval request already exists''), s)
      else (Inr q, record_receipt clock ''submit_request'' ''approval_request_registered'' (''approval-request:'' @ rq_request_id q)
        [(''request_id_hash'', PStr (sha256_hex (rq_request_id q))), (''requester_id_hash'', PStr (sha256_hex (rq_requester_id q))),
         (''scope_type'', PStr (approval_scope_value (so_scope_type (rq_scope q)))),
         (''target_id_hash'', PStr (sha256_hex (so_target_id (rq_scope q)))),
         (''allowed_action_count'', PInt (int (length (so_allowed_actions (rq_scope q))))),
         (''max_executions'', PInt (so_max_executions (rq_scope q))),
         (''allowed_approver_count'', PInt (int (length (rq_allowed_approver_ids q)))),
         (''expires_at_present'', PBool (rq_expires_at q \<noteq> None)),
         (''correlation_id_hash'', optional_hash (rq_correlation_id q)), (''goal_id_hash'', optional_hash (rq_goal_id q)),
         (''incident_id_hash'', optional_hash (rq_incident_id q)), (''reason_hash'', PStr (sha256_hex (rq_reason q)))]
        (s\<lparr>ap_requests := dict_set (rq_request_id q) q (ap_requests s)\<rparr>)))"

definition list_pending :: "approval_engine \<Rightarrow> approval_request list" where
  "list_pending s =
     (let decided = set (map dn_request_id (dict_values (ap_decisions s)))
      in filter (\<lambda>q. rq_request_id q \<notin> decided) (sort_key rq_request_id (dict_values (ap_requests s))))"

section \<open>Decisions\<close>

definition is_expired :: "approval_clock \<Rightarrow> string \<Rightarrow> bool approval_act" where
  "is_expired clock expires_at s =
     (case iso_value expires_at of
        None \<Rightarrow> (Inr True, s)
      | Some expiry \<Rightarrow>
          (let (now, s) = approval_now clock s
           in case iso_value now of None \<Rightarrow> (Inr True, s) | Some n \<Rightarrow> (datetime_ge n expiry, s)))"

text \<open>\<open>request.expires_at and self._is_expired(request.expires_at)\<close>.\<close>

definition request_expired :: "approval_clock \<Rightarrow> approval_request \<Rightarrow> bool approval_act" where
  "request_expired clock q s =
     (case rq_expires_at q of None \<Rightarrow> (Inr False, s) | Some t \<Rightarrow> if t = [] then (Inr False, s) else is_expired clock t s)"

definition make_decision_id :: "approval_clock \<Rightarrow> string approval_act" where
  "make_decision_id clock s =
     (let count = length (ap_decisions s) + length (ap_overrides s); (now, s) = approval_now clock s
      in (stable_identifier ''approval-decision'' [(''count'', JInt (int count)), (''time'', JStr now)], s))"

definition decision_for_request :: "approval_engine \<Rightarrow> string \<Rightarrow> approval_decision option" where
  "decision_for_request s request_id = find (\<lambda>d. dn_request_id d = request_id) (dict_values (ap_decisions s))"

definition record_decision_receipt :: "approval_clock \<Rightarrow> approval_request \<Rightarrow> approval_decision \<Rightarrow> approval_engine \<Rightarrow> approval_engine" where
  "record_decision_receipt clock q d s =
     record_receipt clock ''record_decision'' ''approval_decision_recorded'' (''approval-decision:'' @ dn_decision_id d)
       [(''decision_id_hash'', PStr (sha256_hex (dn_decision_id d))), (''request_id_hash'', PStr (sha256_hex (dn_request_id d))),
        (''approver_id_hash'', PStr (sha256_hex (dn_approver_id d))), (''status'', PStr (approval_status_value (dn_status d))),
        (''scope_type'', PStr (approval_scope_value (so_scope_type (rq_scope q)))),
        (''target_id_hash'', PStr (sha256_hex (so_target_id (rq_scope q)))), (''reason_hash'', optional_hash (dn_reason d))] s"

text \<open>Identifier, time, record, and its receipt.\<close>

definition file_decision ::
  "approval_clock \<Rightarrow> approval_request \<Rightarrow> string \<Rightarrow> string \<Rightarrow> approval_status \<Rightarrow> string option \<Rightarrow> approval_decision approval_act" where
  "file_decision clock q request_id approver_id status reason s =
     act_bind (make_decision_id clock s) (\<lambda>i s.
       let (now, s) = approval_now clock s
       in act_bind (check_approval_decision \<lparr>dn_decision_id = i, dn_request_id = request_id, dn_approver_id = approver_id,
             dn_status = status, dn_decided_at = now, dn_reason = reason, dn_executions_used = 0\<rparr>, s) (\<lambda>d s.
            (Inr d, record_decision_receipt clock q d (s\<lparr>ap_decisions := dict_set (dn_decision_id d) d (ap_decisions s)\<rparr>))))"

definition record_decision ::
  "approval_clock \<Rightarrow> string \<Rightarrow> string \<Rightarrow> bool \<Rightarrow> string option \<Rightarrow> approval_decision approval_act" where
  "record_decision clock request_id approver_id approved reason s =
     act_bind (ensure_non_empty_text ''request_id'' request_id, s) (\<lambda>_ s.
     act_bind (ensure_non_empty_text ''approver_id'' approver_id, s) (\<lambda>_ s.
     case dict_get (ap_requests s) request_id of
       None \<Rightarrow> (Inl (ValueError ''approval request unavailable''), s)
     | Some q \<Rightarrow>
         if decision_for_request s request_id \<noteq> None then (Inl (ValueError ''approval request already decided''), s)
         else act_bind (request_expired clock q s) (\<lambda>expired s.
           if expired then file_decision clock q request_id approver_id AP_EXPIRED (Some ''request expired before decision'') s
           else if py_strip (rq_requester_id q) = py_strip approver_id
           then (Inl (ValueError ''requester cannot approve own request''), s)
           else if rq_allowed_approver_ids q \<noteq> [] \<and> py_strip approver_id \<notin> set (rq_allowed_approver_ids q)
           then (Inl (ValueError ''approver not authorized for request''), s)
           else file_decision clock q request_id approver_id (if approved then AP_APPROVED else AP_REJECTED) reason s)))"

section \<open>Validation, consumption, revocation, overrides\<close>

definition executions_used :: "approval_engine \<Rightarrow> string \<Rightarrow> int" where
  "executions_used s decision_id = (case dict_get (ap_counts s) decision_id of None \<Rightarrow> 0 | Some n \<Rightarrow> n)"

definition validate_approval :: "approval_clock \<Rightarrow> string \<Rightarrow> string \<Rightarrow> string \<Rightarrow> (bool \<times> string) approval_act" where
  "validate_approval clock decision_id target_id action s =
     (case dict_get (ap_decisions s) decision_id of
        None \<Rightarrow> (Inr (False, ''decision not found''), s)
      | Some d \<Rightarrow>
          if decision_terminal d then (Inr (False, ''decision is terminal: '' @ approval_status_value (dn_status d)), s)
          else if \<not> decision_active d then (Inr (False, ''decision not active: '' @ approval_status_value (dn_status d)), s)
          else case dict_get (ap_requests s) (dn_request_id d) of
                 None \<Rightarrow> (Inr (False, ''original request not found''), s)
               | Some q \<Rightarrow>
                   act_bind (request_expired clock q s) (\<lambda>expired s.
                     if expired then (Inr (False, ''approval expired''), s)
                     else if so_target_id (rq_scope q) \<noteq> target_id
                     then (Inr (False, ''scope mismatch: approved for '' @ so_target_id (rq_scope q) @ '', used for '' @ target_id), s)
                     else if so_allowed_actions (rq_scope q) \<noteq> [] \<and> action \<notin> set (so_allowed_actions (rq_scope q))
                     then (Inr (False, ''action '' @ action @ '' not in allowed actions''), s)
                     else if so_max_executions (rq_scope q) \<le> executions_used s decision_id
                     then (Inr (False, ''execution limit reached ('' @ int_str (so_max_executions (rq_scope q)) @ '')''), s)
                     else (Inr (True, ''valid''), s)))"

definition consume_approval :: "approval_clock \<Rightarrow> string \<Rightarrow> approval_engine \<Rightarrow> approval_engine" where
  "consume_approval clock decision_id s =
     (let n = executions_used s decision_id + 1
      in record_receipt clock ''consume_approval'' ''approval_execution_consumed'' (''approval-decision:'' @ decision_id)
           [(''decision_id_hash'', PStr (sha256_hex decision_id)), (''executions_used'', PInt n)]
           (s\<lparr>ap_counts := dict_set decision_id n (ap_counts s)\<rparr>))"

definition record_override :: "approval_clock \<Rightarrow> override_record \<Rightarrow> approval_engine \<Rightarrow> approval_engine" where
  "record_override clock x s =
     record_receipt clock ''record_override'' ''approval_override_recorded'' (''approval-override:'' @ or_override_id x)
       [(''override_id_hash'', PStr (sha256_hex (or_override_id x))), (''operator_id_hash'', PStr (sha256_hex (or_operator_id x))),
        (''override_type'', PStr (override_value (or_override_type x))), (''target_id_hash'', PStr (sha256_hex (or_target_id x))),
        (''original_decision_hash'', PStr (sha256_hex (or_original_decision x))),
        (''new_decision_hash'', PStr (sha256_hex (or_new_decision x))), (''reason_hash'', PStr (sha256_hex (or_reason x))),
        (''approval_id_hash'', optional_hash (or_approval_id x))]
       (s\<lparr>ap_overrides := ap_overrides s @ [x]\<rparr>)"

definition revoke :: "approval_clock \<Rightarrow> string \<Rightarrow> string \<Rightarrow> approval_decision option approval_act" where
  "revoke clock decision_id reason s =
     (case dict_get (ap_decisions s) decision_id of
        None \<Rightarrow> (Inr None, s)
      | Some d \<Rightarrow>
          if \<not> decision_active d then (Inr None, s)
          else act_bind (check_approval_decision (d\<lparr>dn_status := AP_REVOKED, dn_reason := Some reason,
                 dn_executions_used := executions_used s decision_id\<rparr>), s) (\<lambda>x s.
               (Inr (Some x), record_receipt clock ''revoke'' ''approval_revoked'' (''approval-decision:'' @ decision_id)
                  [(''decision_id_hash'', PStr (sha256_hex decision_id)), (''request_id_hash'', PStr (sha256_hex (dn_request_id x))),
                   (''executions_used'', PInt (dn_executions_used x)), (''reason_hash'', PStr (sha256_hex reason))]
                  (s\<lparr>ap_decisions := dict_set decision_id x (ap_decisions s)\<rparr>))))"

definition mutation_receipts :: "approval_engine \<Rightarrow> int \<Rightarrow> approval_receipt list" where
  "mutation_receipts s limit = (if limit \<le> 0 then [] else last_n (nat limit) (ap_receipts s))"

section \<open>Effects\<close>

text \<open>Only receipts and clock readings, of which there are never fewer.\<close>

definition same_approvals :: "approval_engine \<Rightarrow> approval_engine \<Rightarrow> bool" where
  "same_approvals s t \<longleftrightarrow> ap_requests t = ap_requests s \<and> ap_decisions t = ap_decisions s \<and> ap_overrides t = ap_overrides s \<and>
     ap_counts t = ap_counts s \<and> ap_reads s \<le> ap_reads t"

definition grown_receipts :: "approval_engine \<Rightarrow> approval_engine \<Rightarrow> bool" where
  "grown_receipts s t \<longleftrightarrow> (\<exists>rs. ap_receipts t = ap_receipts s @ rs)"

lemma same_approvals_refl [simp]: "same_approvals s s" "same_approvals s (s\<lparr>ap_reads := n\<rparr>) \<longleftrightarrow> ap_reads s \<le> n"
  by (simp_all add: same_approvals_def)

lemma same_approvals_trans: "same_approvals s t \<Longrightarrow> same_approvals t u \<Longrightarrow> same_approvals s u"
  by (simp add: same_approvals_def)

lemma receipt_same [simp]: "same_approvals s (record_receipt clock m e r d s)"
  by (simp add: record_receipt_def approval_now_def Let_def same_approvals_def)

lemma expired_frame: "request_expired clock q s = (r, t) \<Longrightarrow> t = s \<or> t = s\<lparr>ap_reads := Suc (ap_reads s)\<rparr>"
  by (auto simp: request_expired_def is_expired_def approval_now_def Let_def split: option.splits if_splits)

definition decision_id_at :: "nat \<Rightarrow> string \<Rightarrow> string py" where
  "decision_id_at n now = stable_identifier ''approval-decision'' [(''count'', JInt (int n)), (''time'', JStr now)]"

text \<open>How many identifiers of decisions there may be at most.\<close>

definition ids_made :: "approval_engine \<Rightarrow> nat" where
  "ids_made s = length (ap_decisions s) + length (ap_overrides s)"

text \<open>
  Two identifiers that can have been made up to the state \<open>s\<close>, at different counts and from different readings
  of its clock, are the same: the hash of the one is, as far as it is kept, the hash of the other.
\<close>

definition decision_ids_collide :: "approval_clock \<Rightarrow> approval_engine \<Rightarrow> bool" where
  "decision_ids_collide clock s \<longleftrightarrow>
     (\<exists>m \<le> ids_made s. \<exists>n < m. \<exists>j < ap_reads s. \<exists>i < j. decision_id_at n (clock i) = decision_id_at m (clock j))"

lemma collide_mono:
  "decision_ids_collide clock s \<Longrightarrow> ids_made s \<le> ids_made t \<Longrightarrow> ap_reads s \<le> ap_reads t \<Longrightarrow> decision_ids_collide clock t"
  unfolding decision_ids_collide_def by (meson le_trans less_le_trans)

definition may_approve :: "approval_request \<Rightarrow> string \<Rightarrow> bool" where
  "may_approve q approver \<longleftrightarrow> py_strip (rq_requester_id q) \<noteq> py_strip approver \<and>
     (rq_allowed_approver_ids q = [] \<or> py_strip approver \<in> set (rq_allowed_approver_ids q))"

text \<open>A request as its constructors let it be built: a valid scope inside a valid request.\<close>

definition made_request :: "approval_request \<Rightarrow> bool" where
  "made_request q \<longleftrightarrow> check_approval_scope (rq_scope q) = Inr (rq_scope q) \<and> check_approval_request q = Inr q"

inductive approval_effect :: "approval_clock \<Rightarrow> approval_engine \<Rightarrow> approval_engine \<Rightarrow> bool" for clock where
  pe_none: "approval_effect clock s s"
| pe_request: "dict_get (ap_requests s) (rq_request_id q) = None \<Longrightarrow> made_request q \<Longrightarrow>
    approval_effect clock s (s\<lparr>ap_requests := dict_set (rq_request_id q) q (ap_requests s)\<rparr>)"
| pe_decision: "dict_get (ap_requests s) (dn_request_id d) = Some q \<Longrightarrow> decision_for_request s (dn_request_id d) = None \<Longrightarrow>
    ap_reads s \<le> j \<Longrightarrow> decision_id_at (ids_made s) (clock j) = Inr (dn_decision_id d) \<Longrightarrow>
    dn_status d = AP_EXPIRED \<or> (dn_status d = AP_APPROVED \<or> dn_status d = AP_REJECTED) \<and> may_approve q (dn_approver_id d) \<Longrightarrow>
    approval_effect clock s (s\<lparr>ap_decisions := dict_set (dn_decision_id d) d (ap_decisions s), ap_reads := Suc j\<rparr>)"
| pe_override: "approval_effect clock s (s\<lparr>ap_overrides := ap_overrides s @ [x]\<rparr>)"
| pe_count: "approval_effect clock s (s\<lparr>ap_counts := dict_set k (executions_used s k + 1) (ap_counts s)\<rparr>)"
| pe_revoke: "dict_get (ap_decisions s) k = Some d \<Longrightarrow> dn_status d = AP_APPROVED \<Longrightarrow>
    approval_effect clock s (s\<lparr>ap_decisions := dict_set k (d\<lparr>dn_status := AP_REVOKED, dn_reason := Some reason,
      dn_executions_used := executions_used s k\<rparr>) (ap_decisions s)\<rparr>)"

definition approval_acts :: "approval_clock \<Rightarrow> approval_engine \<Rightarrow> approval_engine \<Rightarrow> bool" where
  "approval_acts clock s t \<longleftrightarrow> (\<exists>u. approval_effect clock s u \<and> same_approvals u t)"

lemma acts_same: "same_approvals s t \<Longrightarrow> approval_acts clock s t"
  using pe_none approval_acts_def by blast

lemma acts_receipt: "approval_effect clock s u \<Longrightarrow> approval_acts clock s (record_receipt clock' m e r d u)"
  using approval_acts_def receipt_same by blast

lemma submit_acts: "made_request q \<Longrightarrow> approval_acts clock s (snd (submit_request clock q s))"
  by (auto simp: submit_request_def acts_same intro!: acts_receipt pe_request)

lemma check_decision_same: "check_approval_decision x = Inr y \<Longrightarrow> y = x"
  by (auto simp: check_approval_decision_def py_bind_Inr_iff)

lemma file_decision_cases:
  assumes "file_decision clock q i a status reason s = (r, t)"
  obtains "same_approvals s t" and "\<forall>d. r \<noteq> Inr d"
  | d j where "r = Inr d" and "same_approvals (s\<lparr>ap_decisions := dict_set (dn_decision_id d) d (ap_decisions s), ap_reads := Suc j\<rparr>) t"
    and "dn_request_id d = i" and "dn_approver_id d = a" and "dn_status d = status"
    and "ap_reads s \<le> j" and "decision_id_at (ids_made s) (clock j) = Inr (dn_decision_id d)"
proof (cases "decision_id_at (ids_made s) (clock (ap_reads s))")
  case (Inl e)
  then have "same_approvals s t \<and> (\<forall>d. r \<noteq> Inr d)"
    using assms by (auto simp: file_decision_def record_decision_receipt_def make_decision_id_def decision_id_at_def ids_made_def approval_now_def Let_def act_bind_def)
  then show ?thesis using that(1) by blast
next
  case (Inr k)
  let ?s = "s\<lparr>ap_reads := Suc (Suc (ap_reads s))\<rparr>"
  let ?d = "\<lparr>dn_decision_id = k, dn_request_id = i, dn_approver_id = a, dn_status = status, dn_decided_at = clock (Suc (ap_reads s)),
      dn_reason = reason, dn_executions_used = 0\<rparr>"
  show ?thesis
  proof (cases "check_approval_decision ?d")
    case (Inl e)
    then have "same_approvals s t \<and> (\<forall>d. r \<noteq> Inr d)"
      using assms Inr by (auto simp: file_decision_def record_decision_receipt_def make_decision_id_def decision_id_at_def ids_made_def approval_now_def Let_def act_bind_def)
    then show ?thesis using that(1) by blast
  next
    case (Inr x)
    then have x: "x = ?d" by (rule check_decision_same)
    obtain m where t: "r = Inr ?d" "t = record_receipt clock ''record_decision'' ''approval_decision_recorded'' (''approval-decision:'' @ k) m
        (?s\<lparr>ap_decisions := dict_set k ?d (ap_decisions s)\<rparr>)"
      using assms Inr x \<open>decision_id_at _ _ = Inr k\<close>
      by (auto simp: file_decision_def record_decision_receipt_def make_decision_id_def decision_id_at_def ids_made_def approval_now_def Let_def act_bind_def)
    have "same_approvals (s\<lparr>ap_decisions := dict_set k ?d (ap_decisions s), ap_reads := Suc (ap_reads s)\<rparr>)
        (?s\<lparr>ap_decisions := dict_set k ?d (ap_decisions s)\<rparr>)"
      by (simp add: same_approvals_def)
    then have "same_approvals (s\<lparr>ap_decisions := dict_set k ?d (ap_decisions s), ap_reads := Suc (ap_reads s)\<rparr>) t"
      unfolding t by (rule same_approvals_trans) simp
    then show ?thesis using that(2)[of ?d "ap_reads s"] t(1) \<open>decision_id_at _ _ = Inr k\<close> by simp
  qed
qed

text \<open>What a call of \<open>record_decision\<close> does: nothing, or a decision.\<close>

lemma record_decision_cases:
  assumes "record_decision clock i a approved reason s = (r, t)"
  obtains "same_approvals s t" and "\<forall>d. r \<noteq> Inr d"
  | d q j where "r = Inr d" and "same_approvals (s\<lparr>ap_decisions := dict_set (dn_decision_id d) d (ap_decisions s), ap_reads := Suc j\<rparr>) t"
    and "dn_request_id d = i" and "dn_approver_id d = a" and "dict_get (ap_requests s) i = Some q"
    and "decision_for_request s i = None"
    and "ap_reads s \<le> j" and "decision_id_at (ids_made s) (clock j) = Inr (dn_decision_id d)"
    and "dn_status d = AP_EXPIRED \<or> dn_status d = (if approved then AP_APPROVED else AP_REJECTED) \<and> may_approve q a"
proof (cases "\<exists>q u. ensure_non_empty_text ''request_id'' i = Inr i \<and> ensure_non_empty_text ''approver_id'' a = Inr a \<and>
    dict_get (ap_requests s) i = Some q \<and> decision_for_request s i = None \<and>
    (\<exists>x. request_expired clock q s = (Inr x, u) \<and> (x \<or> may_approve q a))")
  case False
  have "same_approvals s t \<and> (\<forall>d. r \<noteq> Inr d)"
  proof (cases "ensure_non_empty_text ''request_id'' i = Inr i \<and> ensure_non_empty_text ''approver_id'' a = Inr a \<and>
      (\<exists>q. dict_get (ap_requests s) i = Some q) \<and> decision_for_request s i = None")
    case True
    then obtain q where q: "dict_get (ap_requests s) i = Some q" by blast
    obtain y u where y: "request_expired clock q s = (y, u)" by fastforce
    then have u: "same_approvals s u" using expired_frame[OF y] by auto
    have "(\<exists>e. y = Inl e) \<or> (y = Inr False \<and> \<not> may_approve q a)" using False True q y by (cases y) auto
    then show ?thesis using assms True q y u by (auto simp: record_decision_def act_bind_def may_approve_def split: if_splits)
  next
    case no: False
    have e: "ensure_non_empty_text f v = Inr v \<or> (\<exists>e. ensure_non_empty_text f v = Inl e)" for f v
      by (simp add: ensure_non_empty_text_def)
    show ?thesis using assms no e[of "''request_id''" i] e[of "''approver_id''" a]
      by (auto simp: record_decision_def act_bind_def split: option.splits)
  qed
  then show ?thesis using that(1) by blast
next
  case True
  then obtain q u x where ok: "ensure_non_empty_text ''request_id'' i = Inr i" "ensure_non_empty_text ''approver_id'' a = Inr a"
    "dict_get (ap_requests s) i = Some q" "decision_for_request s i = None" "request_expired clock q s = (Inr x, u)"
    "x \<or> may_approve q a" by blast
  let ?st = "if x then AP_EXPIRED else if approved then AP_APPROVED else AP_REJECTED"
  let ?re = "if x then Some ''request expired before decision'' else reason"
  have u: "same_approvals s u" "ap_decisions u = ap_decisions s" "ap_overrides u = ap_overrides s" "ap_reads s \<le> ap_reads u"
    using expired_frame[OF ok(5)] by auto
  have f: "file_decision clock q i a ?st ?re u = (r, t)"
    using assms ok by (auto simp: record_decision_def act_bind_def may_approve_def split: if_splits)
  show ?thesis
  proof (rule file_decision_cases[OF f])
    assume "same_approvals u t" "\<forall>d. r \<noteq> Inr d"
    then show ?thesis using that(1) same_approvals_trans[OF u(1)] by blast
  next
    fix d j
    assume d: "r = Inr d" "same_approvals (u\<lparr>ap_decisions := dict_set (dn_decision_id d) d (ap_decisions u), ap_reads := Suc j\<rparr>) t"
      "dn_request_id d = i" "dn_approver_id d = a" "dn_status d = ?st"
      "ap_reads u \<le> j" "decision_id_at (ids_made u) (clock j) = Inr (dn_decision_id d)"
    have "same_approvals (s\<lparr>ap_decisions := dict_set (dn_decision_id d) d (ap_decisions s), ap_reads := Suc j\<rparr>) t"
      using d(2) u by (simp add: same_approvals_def)
    moreover have "dn_status d = AP_EXPIRED \<or> dn_status d = (if approved then AP_APPROVED else AP_REJECTED) \<and> may_approve q a"
      using d(5) ok(6) by (auto split: if_splits)
    ultimately show ?thesis using that(2)[OF d(1) _ d(3,4) ok(3,4)] d(6,7) u by (simp add: ids_made_def)
  qed
qed

lemma decide_acts: "approval_acts clock s (snd (record_decision clock i a approved reason s))"
proof -
  obtain r t where e: "record_decision clock i a approved reason s = (r, t)" by fastforce
  show ?thesis
  proof (rule record_decision_cases[OF e])
    assume "same_approvals s t"
    then show ?thesis by (simp add: e acts_same)
  next
    fix d q j
    assume d: "same_approvals (s\<lparr>ap_decisions := dict_set (dn_decision_id d) d (ap_decisions s), ap_reads := Suc j\<rparr>) t"
      "dn_request_id d = i" "dn_approver_id d = a" "dict_get (ap_requests s) i = Some q" "decision_for_request s i = None"
      "ap_reads s \<le> j" "decision_id_at (ids_made s) (clock j) = Inr (dn_decision_id d)"
      "dn_status d = AP_EXPIRED \<or> dn_status d = (if approved then AP_APPROVED else AP_REJECTED) \<and> may_approve q a"
    have "approval_effect clock s (s\<lparr>ap_decisions := dict_set (dn_decision_id d) d (ap_decisions s), ap_reads := Suc j\<rparr>)"
      using d by (intro pe_decision[of s d q j]) (auto split: if_splits)
    then show ?thesis unfolding e snd_conv approval_acts_def using d(1) by blast
  qed
qed

lemma validate_frame: "snd (validate_approval clock k target action s) = s \<or>
    snd (validate_approval clock k target action s) = s\<lparr>ap_reads := Suc (ap_reads s)\<rparr>"
  by (auto simp: validate_approval_def act_bind_def split: option.splits prod.splits sum.splits if_splits dest: expired_frame)

lemma validate_acts: "approval_acts clock s (snd (validate_approval clock k target action s))"
  using validate_frame[of clock k target action s] by (auto intro: acts_same)

lemma consume_acts: "approval_acts clock s (consume_approval clock k s)"
  by (simp add: consume_approval_def Let_def acts_receipt pe_count)

lemma override_acts: "approval_acts clock s (record_override clock x s)"
  by (simp add: record_override_def acts_receipt pe_override)

lemma revoke_acts: "approval_acts clock s (snd (revoke clock k reason s))"
  by (auto simp: revoke_def act_bind_def decision_active_def acts_same split: option.split sum.split dest!: check_decision_same
      intro!: acts_receipt pe_revoke)

section \<open>Runs\<close>

inductive approval_step :: "approval_clock \<Rightarrow> approval_engine \<Rightarrow> approval_engine \<Rightarrow> bool" for clock where
  ps_submit: "made_request q \<Longrightarrow> approval_step clock s (snd (submit_request clock q s))"
| ps_decide: "approval_step clock s (snd (record_decision clock i a approved reason s))"
| ps_validate: "approval_step clock s (snd (validate_approval clock k target action s))"
| ps_consume: "approval_step clock s (consume_approval clock k s)"
| ps_override: "check_override x = Inr x \<Longrightarrow> approval_step clock s (record_override clock x s)"
| ps_revoke: "approval_step clock s (snd (revoke clock k reason s))"

abbreviation approval_run :: "approval_clock \<Rightarrow> approval_engine \<Rightarrow> approval_engine \<Rightarrow> bool" where
  "approval_run clock \<equiv> (approval_step clock)\<^sup>*\<^sup>*"

lemma approval_step_acts: "approval_step clock s t \<Longrightarrow> approval_acts clock s t"
  by (cases rule: approval_step.cases)
     (auto intro: submit_acts decide_acts validate_acts consume_acts override_acts revoke_acts)

section \<open>The invariant\<close>

definition approvals_ok :: "approval_engine \<Rightarrow> bool" where
  "approvals_ok s \<longleftrightarrow>
     wf_dict (ap_decisions s) \<and>
     (\<forall>k q. dict_get (ap_requests s) k = Some q \<longrightarrow> rq_request_id q = k \<and> made_request q) \<and>
     (\<forall>k d. dict_get (ap_decisions s) k = Some d \<longrightarrow> dn_decision_id d = k \<and> dn_status d \<noteq> AP_PENDING \<and>
        (\<exists>q. dict_get (ap_requests s) (dn_request_id d) = Some q \<and>
           (dn_status d = AP_EXPIRED \<or> may_approve q (dn_approver_id d)))) \<and>
     (\<forall>k d k' d'. dict_get (ap_decisions s) k = Some d \<and> dict_get (ap_decisions s) k' = Some d' \<and>
        dn_request_id d = dn_request_id d' \<longrightarrow> k = k')"

lemma approvals_okD:
  assumes "approvals_ok s"
  shows "wf_dict (ap_decisions s)"
    and "dict_get (ap_requests s) k = Some q \<Longrightarrow> rq_request_id q = k \<and> made_request q"
    and "dict_get (ap_decisions s) k = Some d \<Longrightarrow> dn_decision_id d = k \<and> dn_status d \<noteq> AP_PENDING \<and>
        (\<exists>q. dict_get (ap_requests s) (dn_request_id d) = Some q \<and> (dn_status d = AP_EXPIRED \<or> may_approve q (dn_approver_id d)))"
    and "dict_get (ap_decisions s) k = Some d \<Longrightarrow> dict_get (ap_decisions s) k' = Some d' \<Longrightarrow>
        dn_request_id d = dn_request_id d' \<Longrightarrow> k = k'"
  by (use assms in \<open>simp_all only: approvals_ok_def, elim conjE\<close>) ((erule allE)+, blast)+

lemma approvals_okI:
  assumes "wf_dict (ap_decisions s)"
    and "\<And>k q. dict_get (ap_requests s) k = Some q \<Longrightarrow> rq_request_id q = k \<and> made_request q"
    and "\<And>k d. dict_get (ap_decisions s) k = Some d \<Longrightarrow> dn_decision_id d = k \<and> dn_status d \<noteq> AP_PENDING \<and>
        (\<exists>q. dict_get (ap_requests s) (dn_request_id d) = Some q \<and> (dn_status d = AP_EXPIRED \<or> may_approve q (dn_approver_id d)))"
    and "\<And>k d k' d'. dict_get (ap_decisions s) k = Some d \<Longrightarrow> dict_get (ap_decisions s) k' = Some d' \<Longrightarrow>
        dn_request_id d = dn_request_id d' \<Longrightarrow> k = k'"
  shows "approvals_ok s"
  unfolding approvals_ok_def using assms by (intro conjI allI impI) (assumption | metis)+

lemma approvals_ok_cong:
  "ap_requests t = ap_requests s \<Longrightarrow> ap_decisions t = ap_decisions s \<Longrightarrow> approvals_ok t = approvals_ok s"
  by (simp only: approvals_ok_def)

text \<open>The identifiers of decisions were made at smaller counts and at earlier readings.\<close>

definition ids_counted :: "approval_clock \<Rightarrow> approval_engine \<Rightarrow> bool" where
  "ids_counted clock s \<longleftrightarrow> (\<forall>k d. dict_get (ap_decisions s) k = Some d \<longrightarrow>
     (\<exists>n < ids_made s. \<exists>i < ap_reads s. decision_id_at n (clock i) = Inr k))"

lemma ids_counted_mono:
  assumes "ids_counted clock s" and "ids_made s \<le> ids_made t" and "ap_reads s \<le> ap_reads t"
    and "\<And>k d. dict_get (ap_decisions t) k = Some d \<Longrightarrow> dict_get (ap_decisions s) k \<noteq> None"
  shows "ids_counted clock t"
  unfolding ids_counted_def
proof (intro allI impI)
  fix k d
  assume "dict_get (ap_decisions t) k = Some d"
  then obtain e where "dict_get (ap_decisions s) k = Some e" using assms(4) by blast
  then show "\<exists>n < ids_made t. \<exists>i < ap_reads t. decision_id_at n (clock i) = Inr k"
    using assms(1-3) unfolding ids_counted_def by (meson less_le_trans)
qed

definition approvals_keep :: "approval_engine \<Rightarrow> approval_engine \<Rightarrow> bool" where
  "approvals_keep s t \<longleftrightarrow>
     (\<forall>k q. dict_get (ap_requests s) k = Some q \<longrightarrow> dict_get (ap_requests t) k = Some q) \<and>
     (\<forall>k d. dict_get (ap_decisions s) k = Some d \<longrightarrow> dict_get (ap_decisions t) k = Some d \<or>
        dn_status d = AP_APPROVED \<and> (\<exists>reason n. dict_get (ap_decisions t) k =
           Some (d\<lparr>dn_status := AP_REVOKED, dn_reason := Some reason, dn_executions_used := n\<rparr>))) \<and>
     (\<exists>xs. ap_overrides t = ap_overrides s @ xs)"

lemma no_decision: "wf_dict (ap_decisions s) \<Longrightarrow> decision_for_request s i = None \<longleftrightarrow>
    (\<forall>k d. dict_get (ap_decisions s) k = Some d \<longrightarrow> dn_request_id d \<noteq> i)"
  unfolding decision_for_request_def find_None_iff by (metis dict_values_mem)

lemma fresh_decision_id:
  assumes "ids_counted clock s" and "\<not> decision_ids_collide clock t"
    and "decision_id_at (ids_made s) (clock j) = Inr k" and "ap_reads s \<le> j"
    and "ids_made s \<le> ids_made t" and "j < ap_reads t"
  shows "dict_get (ap_decisions s) k = None"
proof (rule ccontr)
  assume "dict_get (ap_decisions s) k \<noteq> None"
  then obtain n i where "n < ids_made s" "i < ap_reads s" "decision_id_at n (clock i) = Inr k"
    using assms(1) by (auto simp: ids_counted_def)
  then have "decision_ids_collide clock t" unfolding decision_ids_collide_def using assms(3-6) by (metis less_le_trans)
  then show False using assms(2) by simp
qed

lemma effect_approvals_ok:
  assumes "approval_effect clock s t" and "approvals_ok s"
  shows "approvals_ok t"
  using assms(1)
proof cases
  case pe_none
  then show ?thesis using assms(2) by simp
next
  case (pe_request q)
  note ok = approvals_okD[OF assms(2)]
  have keep: "dict_get (ap_requests t) k = Some r" if "dict_get (ap_requests s) k = Some r" for k r
    using that pe_request(1,2) by auto
  have same: "ap_decisions t = ap_decisions s" using pe_request(1) by simp
  show ?thesis
  proof (rule approvals_okI, goal_cases)
    case 1
    show ?case unfolding same by (rule ok(1))
  next
    case (2 k r)
    then show ?case using pe_request ok(2)[of k r] by (auto split: if_splits)
  next
    case (3 k d)
    then show ?case using ok(3)[of k d] keep unfolding same by blast
  next
    case (4 k d k' d')
    then show ?case using ok(4) unfolding same by blast
  qed
next
  case (pe_decision d q j)
  note ok = approvals_okD[OF assms(2)]
  have new: "dn_request_id x \<noteq> dn_request_id d" if "dict_get (ap_decisions s) k = Some x" for k x
    using pe_decision(3) no_decision[OF ok(1)] that by blast
  show ?thesis
  proof (rule approvals_okI, goal_cases)
    case (3 k x)
    then show ?case using pe_decision(1,2,6) ok(3)[of k x] by (auto split: if_splits)
  next
    case (4 k x k' x')
    then show ?case using pe_decision(1) ok(4)[of k x k' x'] new[of k x] new[of k' x'] by (auto split: if_splits)
  qed (use pe_decision(1) ok(1,2) in auto)
next
  case (pe_override x)
  then show ?thesis using assms(2) approvals_ok_cong[of t s] by simp
next
  case (pe_count k)
  then show ?thesis using assms(2) approvals_ok_cong[of t s] by simp
next
  case (pe_revoke k d reason)
  note ok = approvals_okD[OF assms(2)]
  have entry: "\<exists>y. dict_get (ap_decisions s) j = Some y \<and> dn_request_id y = dn_request_id x"
    if "dict_get (ap_decisions t) j = Some x" for j x
    using that pe_revoke(1,2) by (cases "j = k") auto
  show ?thesis
  proof (rule approvals_okI, goal_cases)
    case (3 j x)
    then show ?case using pe_revoke ok(3)[of j x] ok(3)[of k d] by (auto split: if_splits)
  next
    case (4 i x j y)
    then show ?case using entry ok(4) by metis
  qed (use pe_revoke(1) ok(1,2) in auto)
qed

lemma effect_grows:
  assumes "approval_effect clock s t"
  shows "ids_made s \<le> ids_made t" and "ap_reads s \<le> ap_reads t"
  using assms by (cases; simp add: ids_made_def length_dict_set)+

lemma effect_keeps_approvals:
  assumes "approval_effect clock s t" and "\<not> decision_ids_collide clock t" and "ids_counted clock s"
  shows "approvals_keep s t" and "ids_counted clock t"
proof -
  note grows = effect_grows[OF assms(1)]
  show "approvals_keep s t" using assms(1)
  proof cases
    case (pe_decision d q j)
    then have "dict_get (ap_decisions s) (dn_decision_id d) = None"
      using fresh_decision_id[OF assms(3,2) _ _ grows(1)] by simp
    then show ?thesis using pe_decision by (auto simp: approvals_keep_def)
  qed (auto simp: approvals_keep_def)
  show "ids_counted clock t" using assms(1)
  proof cases
    case (pe_decision d q j)
    then have none: "dict_get (ap_decisions s) (dn_decision_id d) = None"
      using fresh_decision_id[OF assms(3,2) _ _ grows(1)] by simp
    then have made: "ids_made t = Suc (ids_made s)" "ap_reads t = Suc j"
      using pe_decision(1) by (simp_all add: ids_made_def dict_set_new)
    show ?thesis unfolding ids_counted_def made
    proof (intro allI impI)
      fix k x
      assume x: "dict_get (ap_decisions t) k = Some x"
      show "\<exists>n < Suc (ids_made s). \<exists>i < Suc j. decision_id_at n (clock i) = Inr k"
      proof (cases "k = dn_decision_id d")
        case True
        then show ?thesis using pe_decision(5) by blast
      next
        case False
        then have "dict_get (ap_decisions s) k = Some x" using x pe_decision(1) by simp
        then show ?thesis using assms(3) pe_decision(4) unfolding ids_counted_def by (meson less_SucI less_le_trans)
      qed
    qed
  qed (rule ids_counted_mono[OF assms(3) grows]; auto split: if_splits)+
qed

lemma same_cong:
  assumes "same_approvals u t"
  shows "approvals_ok t = approvals_ok u" and "ids_counted clock u \<Longrightarrow> ids_counted clock t" and "approvals_keep s t = approvals_keep s u"
    and "ids_made t = ids_made u"
proof -
  have f: "ap_requests t = ap_requests u" "ap_decisions t = ap_decisions u" "ap_overrides t = ap_overrides u" "ap_reads u \<le> ap_reads t"
    using assms by (simp_all add: same_approvals_def)
  show "approvals_ok t = approvals_ok u" using f by (intro approvals_ok_cong)
  show made: "ids_made t = ids_made u" by (simp add: ids_made_def f)
  show "ids_counted clock t" if "ids_counted clock u" by (rule ids_counted_mono[OF that]) (simp_all add: f made)
  show "approvals_keep s t = approvals_keep s u" by (simp only: approvals_keep_def f)
qed

lemma keep_refl: "approvals_keep s s"
  by (auto simp: approvals_keep_def)

lemma keep_trans:
  assumes "approvals_keep s t" and "approvals_keep t u"
  shows "approvals_keep s u"
proof -
  have d: "dict_get (ap_decisions u) k = Some d \<or> dn_status d = AP_APPROVED \<and> (\<exists>reason n. dict_get (ap_decisions u) k =
           Some (d\<lparr>dn_status := AP_REVOKED, dn_reason := Some reason, dn_executions_used := n\<rparr>))"
    if k: "dict_get (ap_decisions s) k = Some d" for k d
  proof -
    consider "dict_get (ap_decisions t) k = Some d" | reason n where "dn_status d = AP_APPROVED"
      "dict_get (ap_decisions t) k = Some (d\<lparr>dn_status := AP_REVOKED, dn_reason := Some reason, dn_executions_used := n\<rparr>)"
      using assms(1) k unfolding approvals_keep_def by blast
    then show ?thesis
    proof cases
      case 1
      then show ?thesis using assms(2) unfolding approvals_keep_def by blast
    next
      case 2
      have "dict_get (ap_decisions u) k = Some (d\<lparr>dn_status := AP_REVOKED, dn_reason := Some reason, dn_executions_used := n\<rparr>)"
        using assms(2) 2(2) unfolding approvals_keep_def by fastforce
      then show ?thesis using 2(1) by blast
    qed
  qed
  have q: "dict_get (ap_requests u) k = Some q" if "dict_get (ap_requests s) k = Some q" for k q
    using assms that unfolding approvals_keep_def by blast
  have "\<exists>xs. ap_overrides u = ap_overrides s @ xs" using assms unfolding approvals_keep_def by force
  then show ?thesis using d q unfolding approvals_keep_def by blast
qed

lemma acts_grow:
  assumes "approval_acts clock s t"
  shows "ids_made s \<le> ids_made t" and "ap_reads s \<le> ap_reads t"
proof -
  obtain u where u: "approval_effect clock s u" "same_approvals u t" using assms unfolding approval_acts_def by blast
  then show "ids_made s \<le> ids_made t" "ap_reads s \<le> ap_reads t"
    using effect_grows[OF u(1)] same_cong(4)[OF u(2)] by (simp_all add: same_approvals_def)
qed

lemma acts_approvals:
  assumes "approval_acts clock s t"
  shows "approvals_ok s \<Longrightarrow> approvals_ok t"
    and "\<not> decision_ids_collide clock t \<Longrightarrow> ids_counted clock s \<Longrightarrow> approvals_keep s t \<and> ids_counted clock t"
proof -
  obtain u where u: "approval_effect clock s u" "same_approvals u t" using assms unfolding approval_acts_def by blast
  show "approvals_ok t" if "approvals_ok s" using effect_approvals_ok[OF u(1) that] same_cong(1)[OF u(2)] by simp
  have "\<not> decision_ids_collide clock u" if "\<not> decision_ids_collide clock t"
    using collide_mono[of clock u t] that u(2) same_cong(4)[OF u(2)] by (auto simp: same_approvals_def)
  then show "approvals_keep s t \<and> ids_counted clock t" if "\<not> decision_ids_collide clock t" "ids_counted clock s"
    using effect_keeps_approvals[OF u(1) _ that(2)] same_cong(2,3)[OF u(2)] that(1) by blast
qed

lemma approvals_init: "approvals_ok approval_init" "ids_counted clock approval_init"
  by (simp_all add: approvals_ok_def ids_counted_def approval_init_def)

lemma approval_run_ok:
  assumes "approval_run clock s t"
  shows "approvals_ok s \<Longrightarrow> approvals_ok t"
    and "\<not> decision_ids_collide clock t \<Longrightarrow> ids_counted clock s \<Longrightarrow> approvals_keep s t \<and> ids_counted clock t"
  using assms
proof (induction rule: rtranclp_induct)
  case base
  { case 1 then show ?case . }
  { case 2 then show ?case by (simp add: keep_refl) }
next
  case (step t u)
  note acts = approval_step_acts[OF step(2)]
  { case 1 then show ?case using step acts_approvals(1)[OF acts] by blast }
  { case 2
    then have "\<not> decision_ids_collide clock t" using collide_mono acts_grow[OF acts] by blast
    then show ?case using step 2 acts_approvals(2)[OF acts] keep_trans by blast }
qed

lemma run_grows:
  assumes "approval_run clock s t"
  shows "ids_made s \<le> ids_made t \<and> ap_reads s \<le> ap_reads t"
  using assms
proof (induction rule: rtranclp_induct)
  case (step t u)
  then show ?case using acts_grow[OF approval_step_acts[OF step(2)]] by simp
qed simp

lemma validate_same: "same_approvals s (snd (validate_approval clock k target action s))"
  using validate_frame[of clock k target action s] by auto

lemma validate_yes_iff:
  "(\<exists>r. fst (validate_approval clock k target action s) = Inr (True, r)) \<longleftrightarrow>
    (\<exists>d q. dict_get (ap_decisions s) k = Some d \<and> dn_status d = AP_APPROVED \<and>
       dict_get (ap_requests s) (dn_request_id d) = Some q \<and> fst (request_expired clock q s) = Inr False \<and>
       so_target_id (rq_scope q) = target \<and>
       (so_allowed_actions (rq_scope q) = [] \<or> action \<in> set (so_allowed_actions (rq_scope q))) \<and>
       executions_used s k < so_max_executions (rq_scope q))"
proof (cases "\<exists>d q. dict_get (ap_decisions s) k = Some d \<and> dn_status d = AP_APPROVED \<and>
    dict_get (ap_requests s) (dn_request_id d) = Some q")
  case True
  then obtain d q where d: "dict_get (ap_decisions s) k = Some d" "dn_status d = AP_APPROVED"
    "dict_get (ap_requests s) (dn_request_id d) = Some q" by blast
  obtain y t where y: "request_expired clock q s = (y, t)" by fastforce
  have t: "executions_used t k = executions_used s k" using expired_frame[OF y] by (auto simp: executions_used_def)
  have "(\<exists>r. fst (validate_approval clock k target action s) = Inr (True, r)) \<longleftrightarrow>
      y = Inr False \<and> so_target_id (rq_scope q) = target \<and>
      (so_allowed_actions (rq_scope q) = [] \<or> action \<in> set (so_allowed_actions (rq_scope q))) \<and>
      executions_used s k < so_max_executions (rq_scope q)"
    using d y t by (cases y) (auto simp: validate_approval_def act_bind_def decision_terminal_def decision_active_def)
  then show ?thesis using d y by auto
next
  case False
  have "fst (validate_approval clock k target action s) \<noteq> Inr (True, r)" for r
    using False by (auto simp: validate_approval_def decision_active_def split: option.splits)
  then show ?thesis using False by blast
qed

section \<open>Properties\<close>

text \<open>
  C28: validation says yes exactly for an approved decision whose request is on file, has not expired,
  names the target and allows the action, and whose executions are not used up; in every other case it
  says no with a reason, or raises, and it changes nothing.
\<close>

theorem approval_validity:
  "same_approvals s (snd (validate_approval clock k target action s)) \<and>
   ((\<exists>r. fst (validate_approval clock k target action s) = Inr (True, r)) \<longleftrightarrow>
    (\<exists>d q. dict_get (ap_decisions s) k = Some d \<and> dn_status d = AP_APPROVED \<and>
       dict_get (ap_requests s) (dn_request_id d) = Some q \<and> fst (request_expired clock q s) = Inr False \<and>
       so_target_id (rq_scope q) = target \<and>
       (so_allowed_actions (rq_scope q) = [] \<or> action \<in> set (so_allowed_actions (rq_scope q))) \<and>
       executions_used s k < so_max_executions (rq_scope q)))"
  using validate_same validate_yes_iff by blast

text \<open>
  C29: in every run requests and overrides are never lost, each request has at most one decision, and
  nobody decides on an own request or without being an allowed approver (only an expired request is
  closed by anyone).  Decisions change by revocation of an approved one only, and what is not approved
  never validates again - unless two of the finitely many identifiers that the run can have made, each from a
  count and a reading of its clock, are the same: a collision of the truncated hash among them.
\<close>

theorem approval_lifecycle:
  assumes "approval_run clock approval_init s" and "approval_run clock s t"
  shows "(\<forall>k d. dict_get (ap_decisions t) k = Some d \<longrightarrow> dn_status d \<noteq> AP_PENDING \<and>
      (\<exists>q. dict_get (ap_requests t) (dn_request_id d) = Some q \<and> (dn_status d = AP_EXPIRED \<or> may_approve q (dn_approver_id d))) \<and>
      (\<forall>k' d'. dict_get (ap_decisions t) k' = Some d' \<and> dn_request_id d' = dn_request_id d \<longrightarrow> k' = k)) \<and>
    (decision_ids_collide clock t \<or> approvals_keep s t \<and>
      (\<forall>k d target action r. dict_get (ap_decisions s) k = Some d \<and> dn_status d \<noteq> AP_APPROVED \<longrightarrow>
        fst (validate_approval clock k target action t) \<noteq> Inr (True, r)))"
proof -
  have ok: "approvals_ok t" using approval_run_ok(1) assms approvals_init(1) by blast
  note D = approvals_okD[OF ok]
  have "decision_ids_collide clock t \<or> approvals_keep s t"
  proof (cases "decision_ids_collide clock t")
    case no: False
    then have "\<not> decision_ids_collide clock s" using collide_mono run_grows[OF assms(2)] by blast
    then have "ids_counted clock s" using approval_run_ok(2)[OF assms(1)] approvals_init(2) by blast
    then show ?thesis using approval_run_ok(2)[OF assms(2) no] by blast
  qed simp
  moreover have "fst (validate_approval clock k target action t) \<noteq> Inr (True, r)"
    if "approvals_keep s t" "dict_get (ap_decisions s) k = Some d" "dn_status d \<noteq> AP_APPROVED" for k d target action r
  proof -
    have "dict_get (ap_decisions t) k = Some d" using that unfolding approvals_keep_def by blast
    then show ?thesis using that(3) by (auto simp: validate_approval_def decision_active_def)
  qed
  ultimately show ?thesis using D(3,4) by meson
qed





lemma executions_consumed [simp]:
  "executions_used (consume_approval clock k s) j = (if j = k then executions_used s k + 1 else executions_used s j)"
  by (simp add: consume_approval_def record_receipt_def approval_now_def Let_def executions_used_def)






section \<open>A run on concrete data\<close>

definition demo_approval_clock :: approval_clock where
  "demo_approval_clock n = ''2024-01-02T03:04:05+00:00''"

definition demo_approval :: approval_request where
  "demo_approval = \<lparr>rq_request_id = ''r'', rq_requester_id = ''ann'',
     rq_scope = \<lparr>so_scope_type = AT_SKILL, so_target_id = ''skill'', so_allowed_actions = [''run''], so_max_executions = 1\<rparr>,
     rq_reason = ''needed'', rq_requested_at = ''2024-01-01T00:00:00Z'', rq_allowed_approver_ids = [''bob''],
     rq_expires_at = Some ''2030-01-01T00:00:00Z'', rq_correlation_id = None, rq_goal_id = None, rq_incident_id = None\<rparr>"

lemma demo_approval_made: "made_request demo_approval"
  by code_simp

lemma demo_not_expired: "request_expired demo_approval_clock demo_approval s = (Inr False, s\<lparr>ap_reads := Suc (ap_reads s)\<rparr>)"
proof -
  have "iso_value ''2030-01-01T00:00:00Z'' = Some (741078 * 86400000000, Some 0)" by code_simp
  moreover have "iso_value ''2024-01-02T03:04:05+00:00'' = Some (738887 * 86400000000 + 11045000000, Some 0)" by code_simp
  moreover have "rq_expires_at demo_approval = Some ''2030-01-01T00:00:00Z''" by (simp add: demo_approval_def)
  ultimately show ?thesis
    by (simp add: request_expired_def is_expired_def approval_now_def demo_approval_clock_def datetime_ge_def Let_def)
qed

text \<open>An allowed approver's decision on a request that is open and has not expired is recorded.\<close>

lemma decision_recorded:
  assumes "dict_get (ap_requests s) i = Some q" and "decision_for_request s i = None"
    and "request_expired clock q s = (Inr False, u)" and "may_approve q a" and "\<not> blank i" and "\<not> blank a"
    and "\<And>n. require_datetime_text (clock n) ''decided_at'' = Inr (clock n)"
  shows "\<exists>d t. record_decision clock i a approved reason s = (Inr d, t) \<and> dn_status d = (if approved then AP_APPROVED else AP_REJECTED)"
proof -
  have "\<exists>k. stable_identifier ''approval-decision'' p = Inr k \<and> \<not> blank k" for p
    by (rule stable_identifier_total, code_simp)
  then obtain k where k: "decision_id_at (length (ap_decisions u) + length (ap_overrides u)) (clock (ap_reads u)) = Inr k" "\<not> blank k"
    unfolding decision_id_at_def by blast
  have "check_approval_decision \<lparr>dn_decision_id = k, dn_request_id = i, dn_approver_id = a, dn_status = st, dn_decided_at = clock n,
      dn_reason = r, dn_executions_used = 0\<rparr> = Inr \<lparr>dn_decision_id = k, dn_request_id = i, dn_approver_id = a, dn_status = st,
      dn_decided_at = clock n, dn_reason = r, dn_executions_used = 0\<rparr>" for st r n
    using assms(5-7) k(2) by (simp add: check_approval_decision_def require_non_empty_text_def)
  then have "\<exists>d t. file_decision clock q i a st r u = (Inr d, t) \<and> dn_status d = st" for st r
    using k(1) by (simp add: file_decision_def make_decision_id_def decision_id_at_def approval_now_def Let_def act_bind_def)
  then show ?thesis using assms(1-6)
    by (auto simp: record_decision_def ensure_non_empty_text_def act_bind_def may_approve_def)
qed

lemma demo_decided:
  fixes clock defines "clock \<equiv> demo_approval_clock"
  shows "\<exists>s t k d. approval_step clock approval_init s \<and> ap_counts s = [] \<and> approval_step clock s t \<and> ap_counts t = [] \<and>
    dict_get (ap_decisions t) k = Some d \<and> dn_status d = AP_APPROVED \<and> dn_request_id d = ''r'' \<and>
    dict_get (ap_requests t) ''r'' = Some demo_approval"
proof -
  let ?s = "snd (submit_request clock demo_approval approval_init)"
  have id: "rq_request_id demo_approval = ''r''" by (simp add: demo_approval_def)
  have s: "ap_requests ?s = [(''r'', demo_approval)]" "ap_decisions ?s = []" "ap_overrides ?s = []" "ap_counts ?s = []"
    by (simp_all add: submit_request_def approval_init_def id record_receipt_def approval_now_def Let_def dict_set_new)
  have "may_approve demo_approval ''bob''" by code_simp
  moreover have "require_datetime_text (clock n) ''decided_at'' = Inr (clock n)" for n
    unfolding clock_def demo_approval_clock_def by code_simp
  moreover have "decision_for_request ?s ''r'' = None" using s by (simp add: decision_for_request_def)
  moreover have "\<not> blank ''r''" "\<not> blank ''bob''" by code_simp+
  ultimately obtain d t where t: "record_decision clock ''r'' ''bob'' True None ?s = (Inr d, t)" "dn_status d = AP_APPROVED"
    using decision_recorded[of ?s "''r''" demo_approval clock _ "''bob''"] s(1) demo_not_expired unfolding clock_def by fastforce
  have "dn_request_id d = ''r'' \<and> dn_status d = AP_APPROVED \<and> dict_get (ap_decisions t) (dn_decision_id d) = Some d \<and>
      ap_requests t = ap_requests ?s \<and> ap_counts t = []"
  proof (rule record_decision_cases[OF t(1)])
    fix d' q j
    assume a: "Inr d = Inr d'"
      "same_approvals (?s\<lparr>ap_decisions := dict_set (dn_decision_id d') d' (ap_decisions ?s), ap_reads := Suc j\<rparr>) t"
      "dn_request_id d' = ''r''"
    show ?thesis using a s t(2) by (auto simp: same_approvals_def)
  qed simp
  moreover have "approval_step clock approval_init ?s" using demo_approval_made by (rule ps_submit)
  moreover have "approval_step clock ?s t" using ps_decide[of clock ?s "''r''" "''bob''" True None] t(1) by simp
  ultimately show ?thesis using s by fastforce
qed


section \<open>What an expiry without an offset does\<close>

lemma naive_expiry_raises:
  "fst (request_expired demo_approval_clock (demo_approval\<lparr>rq_expires_at := Some ''2030-01-01T00:00:00''\<rparr>) approval_init)
   = Inl (TypeError ''can't compare offset-naive and offset-aware datetimes'')"
  and "made_request (demo_approval\<lparr>rq_expires_at := Some ''2030-01-01T00:00:00''\<rparr>)"
proof -
  have "iso_value ''2030-01-01T00:00:00'' = Some (741078 * 86400000000, None)" by code_simp
  moreover have "iso_value ''2024-01-02T03:04:05+00:00'' = Some (738887 * 86400000000 + 11045000000, Some 0)" by code_simp
  ultimately show "fst (request_expired demo_approval_clock (demo_approval\<lparr>rq_expires_at := Some ''2030-01-01T00:00:00''\<rparr>) approval_init)
      = Inl (TypeError ''can't compare offset-naive and offset-aware datetimes'')"
    by (simp add: request_expired_def is_expired_def approval_now_def demo_approval_clock_def datetime_ge_def Let_def)
  show "made_request (demo_approval\<lparr>rq_expires_at := Some ''2030-01-01T00:00:00''\<rparr>)" by code_simp
qed

section \<open>Witnesses\<close>

theorem approval_lifecycle_witness:
  "\<exists>s t k d q. approval_run demo_approval_clock approval_init s \<and> approval_run demo_approval_clock s t \<and>
    dict_get (ap_decisions t) k = Some d \<and> dn_status d = AP_APPROVED \<and>
    dict_get (ap_requests t) (dn_request_id d) = Some q \<and> may_approve q (dn_approver_id d) \<and>
    (decision_ids_collide demo_approval_clock t \<or> approvals_keep s t)"
proof -
  obtain s t k d where r: "approval_step demo_approval_clock approval_init s" "approval_step demo_approval_clock s t"
    "dict_get (ap_decisions t) k = Some d" "dn_status d = AP_APPROVED"
    using demo_decided by blast
  then have runs: "approval_run demo_approval_clock approval_init s" "approval_run demo_approval_clock s t" by blast+
  note L = approval_lifecycle[OF runs]
  obtain q where "dict_get (ap_requests t) (dn_request_id d) = Some q" "may_approve q (dn_approver_id d)"
    using L[THEN conjunct1, rule_format, OF r(3)] r(4) by auto
  then show ?thesis using runs r(3,4) L[THEN conjunct2] by blast
qed


end
