(* ===== verification/Py_Compare.thy ===== *)
theory Py_Compare
  imports Py_Value
begin

text \<open>
  Equality, order and membership of plain Python values (\<open>==\<close>, \<open><\<close>, \<open>in\<close>), as conditions on event
  payloads use them.  Numbers are integers here, \<open>True\<close> and \<open>False\<close> are the numbers 1 and 0, a member
  of a \<open>StrEnum\<close> is its text, sequences are compared item by item, dictionaries up to the order of
  their keys.
\<close>

section \<open>Equality\<close>

fun eq_form :: "pval \<Rightarrow> pval" where
  "eq_form (PBool b) = PInt (if b then 1 else 0)"
| "eq_form (PEnum cls v) = PStr v"
| "eq_form (PList vs) = PList (map eq_form vs)"
| "eq_form (PDict d) = PDict (sort_key fst (map (map_prod id eq_form) d))"
| "eq_form v = v"

definition py_eq :: "pval \<Rightarrow> pval \<Rightarrow> bool" where
  "py_eq a b \<longleftrightarrow> eq_form a = eq_form b"

section \<open>Order\<close>

datatype ordering = LESS | EQUAL | GREATER

definition ordering_of :: "'a::linorder \<Rightarrow> 'a \<Rightarrow> ordering" where
  "ordering_of a b = (if a < b then LESS else if a = b then EQUAL else GREATER)"

text \<open>How two values in equality form compare, \<open>None\<close> if Python raises \<open>TypeError\<close>.\<close>

fun form_order :: "pval \<Rightarrow> pval \<Rightarrow> ordering option" where
  "form_order (PInt a) (PInt b) = Some (ordering_of a b)"
| "form_order (PStr a) (PStr b) = Some (ordering_of a b)"
| "form_order (PList []) (PList []) = Some EQUAL"
| "form_order (PList []) (PList (b # bs)) = Some LESS"
| "form_order (PList (a # as)) (PList []) = Some GREATER"
| "form_order (PList (a # as)) (PList (b # bs)) =
     (if a = b then form_order (PList as) (PList bs) else form_order a b)"
| "form_order _ _ = None"

definition py_order :: "pval \<Rightarrow> pval \<Rightarrow> ordering option" where
  "py_order a b = form_order (eq_form a) (eq_form b)"

section \<open>Membership\<close>

definition substring :: "string \<Rightarrow> string \<Rightarrow> bool" where
  "substring p s \<longleftrightarrow> list_ex (\<lambda>i. take (length p) (drop i s) = p) [0..<Suc (length s)]"

fun hashable :: "pval \<Rightarrow> bool" where
  "hashable (PDict d) = False"
| "hashable (PList vs) = list_all hashable vs"
| "hashable v = True"

text \<open>\<open>a in b if hasattr(b, "__contains__") else False\<close>.\<close>

definition py_in :: "pval \<Rightarrow> pval \<Rightarrow> bool py" where
  "py_in a b =
     (case eq_form b of
        PStr s \<Rightarrow> (case eq_form a of PStr p \<Rightarrow> Inr (substring p s)
                     | _ \<Rightarrow> Inl (TypeError ''in <string> requires string as left operand''))
      | PList vs \<Rightarrow> Inr (eq_form a \<in> set vs)
      | PDict d \<Rightarrow> if hashable a then Inr (eq_form a \<in> set (map (PStr \<circ> fst) d)) else Inl (TypeError ''unhashable type'')
      | _ \<Rightarrow> Inr False)"

section \<open>Facts\<close>

lemma py_eq_equivalence: "py_eq a a" "py_eq a b \<Longrightarrow> py_eq b a" "py_eq a b \<Longrightarrow> py_eq b c \<Longrightarrow> py_eq a c"
  by (simp_all add: py_eq_def)

lemma form_order_equal: "form_order a b = Some EQUAL \<Longrightarrow> a = b"
  by (induction a b rule: form_order.induct) (auto simp: ordering_of_def split: if_splits)

definition opposite :: "ordering \<Rightarrow> ordering" where
  "opposite x = (case x of LESS \<Rightarrow> GREATER | EQUAL \<Rightarrow> EQUAL | GREATER \<Rightarrow> LESS)"

lemma form_order_opposite: "map_option opposite (form_order a b) = form_order b a"
  by (induction a b rule: form_order.induct) (auto simp: ordering_of_def opposite_def)

text \<open>Where values can be compared, the order agrees with equality and is antisymmetric.\<close>

lemma py_order_equal: "py_order a b = Some EQUAL \<Longrightarrow> py_eq a b"
  by (auto simp: py_order_def py_eq_def dest: form_order_equal)

lemma py_order_opposite: "py_order b a = map_option opposite (py_order a b)"
  unfolding py_order_def by (rule form_order_opposite [symmetric])

lemma compare_examples:
  "py_eq (PBool True) (PInt 1)" "py_eq (PEnum ''S'' ''a'') (PStr ''a'')"
  "py_eq (PDict [(''a'', PInt 1), (''b'', PNone)]) (PDict [(''b'', PNone), (''a'', PBool True)])"
  "py_order (PList [PInt 1, PInt 2]) (PList [PInt 1, PInt 3]) = Some LESS"
  "py_order (PList [PInt 1]) (PList [PStr ''a'']) = None" "py_order PNone PNone = None"
  "py_in (PInt 1) (PStr ''a'') = Inl (TypeError ''in <string> requires string as left operand'')"
  "py_in (PStr ''b'') (PStr ''abc'') = Inr True"
  by code_simp+

end
