(* ===== verification/Reaction_Engine.thy ===== *)
theory Reaction_Engine
  imports Supervisor Py_Compare
begin

text \<open>
  Reactions: \<open>mcoi_runtime/contracts/reaction.py\<close> and \<open>mcoi_runtime/core/reaction_engine.py\<close>.  Rules are
  matched against events; each matched rule passes the idempotency window, the backpressure policy and
  a gate, and every verdict is filed.  Clock, gate and expiry of the windows are the engine's
  environment; the gate may answer differently at every call and may raise, it does not call the engine.
  The execution mode of a record keeps its default.  The dash (code point 8212) of two reasons is
  written as two hyphens.
\<close>

section \<open>Records\<close>

datatype reaction_verdict = RV_PROCEED | RV_DEFER | RV_REJECT | RV_ESCALATE | RV_REQUIRES_APPROVAL

primrec reaction_verdict_value :: "reaction_verdict \<Rightarrow> string" where
  "reaction_verdict_value RV_PROCEED = ''proceed''"
| "reaction_verdict_value RV_DEFER = ''defer''"
| "reaction_verdict_value RV_REJECT = ''reject''"
| "reaction_verdict_value RV_ESCALATE = ''escalate''"
| "reaction_verdict_value RV_REQUIRES_APPROVAL = ''requires_approval''"

datatype reaction_target_kind =
    RK_CREATE_OBLIGATION | RK_ACTIVATE_WORKFLOW | RK_RESUME_JOB | RK_ESCALATE | RK_NOTIFY | RK_CREATE_INCIDENT
  | RK_CLOSE_OBLIGATION | RK_TRANSFER_OBLIGATION | RK_REQUEST_APPROVAL | RK_CUSTOM

datatype backpressure_strategy = BS_DROP_OLDEST | BS_DROP_NEWEST | BS_PAUSE_INTAKE | BS_RATE_LIMIT

record reaction_condition =
  rc_condition_id :: string
  rc_field_path :: string
  rc_operator :: string
  rc_expected_value :: pval

definition check_reaction_condition :: "reaction_condition \<Rightarrow> reaction_condition py" where
  "check_reaction_condition x =
     py_bind (require_non_empty_text (rc_condition_id x) ''condition_id'') (\<lambda>_.
     py_bind (require_non_empty_text (rc_field_path x) ''field_path'') (\<lambda>_.
     if rc_operator x \<in> {''eq'', ''neq'', ''gt'', ''gte'', ''lt'', ''lte'', ''contains'', ''in'', ''exists''} then Inr x
     else Inl (ValueError ''operator has unsupported value'')))"

record reaction_target =
  rt_target_id :: string
  rt_kind :: reaction_target_kind
  rt_target_ref_id :: string
  rt_parameters :: "(string \<times> pval) list"

definition check_reaction_target :: "reaction_target \<Rightarrow> reaction_target py" where
  "check_reaction_target x =
     py_bind (require_non_empty_text (rt_target_id x) ''target_id'') (\<lambda>_.
     py_bind (require_non_empty_text (rt_target_ref_id x) ''target_ref_id'') (\<lambda>_. Inr x))"

record reaction_rule =
  rr_rule_id :: string
  rr_name :: string
  rr_event_type :: string
  rr_conditions :: "reaction_condition list"
  rr_target :: reaction_target
  rr_priority :: int
  rr_enabled :: bool
  rr_created_at :: string

definition check_reaction_rule :: "reaction_rule \<Rightarrow> reaction_rule py" where
  "check_reaction_rule x =
     py_bind (require_non_empty_text (rr_rule_id x) ''rule_id'') (\<lambda>_.
     py_bind (require_non_empty_text (rr_name x) ''name'') (\<lambda>_.
     py_bind (require_non_empty_text (rr_event_type x) ''event_type'') (\<lambda>_.
     if rr_conditions x = [] then Inl (ValueError ''conditions must contain at least one ReactionCondition'')
     else py_bind (require_non_negative_int (rr_priority x) ''priority'') (\<lambda>_.
          py_bind (require_datetime_text (rr_created_at x) ''created_at'') (\<lambda>_. Inr x)))))"

record reaction_gate_result =
  rg_gate_id :: string
  rg_rule_id :: string
  rg_event_id :: string
  rg_verdict :: reaction_verdict
  rg_simulation_safe :: bool
  rg_utility_acceptable :: bool
  rg_meta_reasoning_clear :: bool
  rg_confidence :: pfloat
  rg_reason :: string
  rg_gated_at :: string

definition check_gate_result :: "reaction_gate_result \<Rightarrow> reaction_gate_result py" where
  "check_gate_result x =
     py_bind (require_non_empty_text (rg_gate_id x) ''gate_id'') (\<lambda>_.
     py_bind (require_non_empty_text (rg_rule_id x) ''rule_id'') (\<lambda>_.
     py_bind (require_non_empty_text (rg_event_id x) ''event_id'') (\<lambda>_.
     py_bind (require_non_empty_text (rg_reason x) ''reason'') (\<lambda>_.
     py_bind (require_unit_float (rg_confidence x) ''confidence'') (\<lambda>_.
     py_bind (require_datetime_text (rg_gated_at x) ''gated_at'') (\<lambda>_. Inr x))))))"

record reaction_execution =
  rex_execution_id :: string
  rex_rule_id :: string
  rex_event_id :: string
  rex_correlation_id :: string
  rex_target :: reaction_target
  rex_gate_result :: reaction_gate_result
  rex_executed :: bool
  rex_result_ref_id :: string
  rex_execution_notes :: string
  rex_executed_at :: string

definition check_reaction_execution :: "reaction_execution \<Rightarrow> reaction_execution py" where
  "check_reaction_execution x =
     py_bind (require_non_empty_text (rex_execution_id x) ''execution_id'') (\<lambda>_.
     py_bind (require_non_empty_text (rex_rule_id x) ''rule_id'') (\<lambda>_.
     py_bind (require_non_empty_text (rex_event_id x) ''event_id'') (\<lambda>_.
     py_bind (require_non_empty_text (rex_correlation_id x) ''correlation_id'') (\<lambda>_.
     py_bind (require_datetime_text (rex_executed_at x) ''executed_at'') (\<lambda>_. Inr x)))))"

record backpressure_policy =
  bp_policy_id :: string
  bp_max_concurrent :: int
  bp_max_per_window :: int
  bp_window_seconds :: int
  bp_strategy :: backpressure_strategy

definition check_backpressure_policy :: "backpressure_policy \<Rightarrow> backpressure_policy py" where
  "check_backpressure_policy x =
     py_bind (require_non_empty_text (bp_policy_id x) ''policy_id'') (\<lambda>_.
     py_bind (require_positive_int (bp_max_concurrent x) ''max_concurrent'') (\<lambda>_.
     py_bind (require_positive_int (bp_max_per_window x) ''max_per_window'') (\<lambda>_.
     py_bind (require_positive_int (bp_window_seconds x) ''window_seconds'') (\<lambda>_. Inr x))))"

record idempotency_window =
  iw_window_id :: string
  iw_event_id :: string
  iw_rule_id :: string
  iw_execution_id :: string
  iw_processed_at :: string
  iw_expires_at :: string

definition check_idempotency_window :: "idempotency_window \<Rightarrow> idempotency_window py" where
  "check_idempotency_window x =
     py_bind (require_non_empty_text (iw_window_id x) ''window_id'') (\<lambda>_.
     py_bind (require_non_empty_text (iw_event_id x) ''event_id'') (\<lambda>_.
     py_bind (require_non_empty_text (iw_rule_id x) ''rule_id'') (\<lambda>_.
     py_bind (require_non_empty_text (iw_execution_id x) ''execution_id'') (\<lambda>_.
     py_bind (require_datetime_text (iw_processed_at x) ''processed_at'') (\<lambda>_.
     py_bind (require_datetime_text (iw_expires_at x) ''expires_at'') (\<lambda>_. Inr x))))))"

record reaction_decision =
  rdn_decision_id :: string
  rdn_event_id :: string
  rdn_correlation_id :: string
  rdn_rules_evaluated :: int
  rdn_rules_matched :: int
  rdn_rules_executed :: int
  rdn_rules_deferred :: int
  rdn_rules_rejected :: int
  rdn_executions :: "reaction_execution list"
  rdn_decided_at :: string

definition check_reaction_decision :: "reaction_decision \<Rightarrow> reaction_decision py" where
  "check_reaction_decision x =
     py_bind (require_non_empty_text (rdn_decision_id x) ''decision_id'') (\<lambda>_.
     py_bind (require_non_empty_text (rdn_event_id x) ''event_id'') (\<lambda>_.
     py_bind (require_non_empty_text (rdn_correlation_id x) ''correlation_id'') (\<lambda>_.
     py_bind (require_non_negative_int (rdn_rules_evaluated x) ''rules_evaluated'') (\<lambda>_.
     py_bind (require_non_negative_int (rdn_rules_matched x) ''rules_matched'') (\<lambda>_.
     py_bind (require_non_negative_int (rdn_rules_executed x) ''rules_executed'') (\<lambda>_.
     py_bind (require_non_negative_int (rdn_rules_deferred x) ''rules_deferred'') (\<lambda>_.
     py_bind (require_non_negative_int (rdn_rules_rejected x) ''rules_rejected'') (\<lambda>_.
     py_bind (require_datetime_text (rdn_decided_at x) ''decided_at'') (\<lambda>_. Inr x)))))))))"

section \<open>The engine\<close>

record reaction_env =
  re_clock :: "nat \<Rightarrow> string"
  re_gate :: "nat \<Rightarrow> event_record \<Rightarrow> reaction_rule \<Rightarrow> reaction_gate_result py"
  re_expiry :: string

text \<open>The engine's attributes, and how often clock and gate were called.\<close>

record reaction_engine =
  rx_rules :: "(string, reaction_rule) pydict"
  rx_executions :: "(string, reaction_execution) pydict"
  rx_decisions :: "(string, reaction_decision) pydict"
  rx_idempotency :: "(string, idempotency_window) pydict"
  rx_backpressure :: "backpressure_policy option"
  rx_clock_errors :: int
  rx_active :: int
  rx_window :: int
  rx_window_start :: string
  rx_seq :: int
  rx_reads :: nat
  rx_gates :: nat

definition reactions_init :: reaction_engine where
  "reactions_init = \<lparr>rx_rules = [], rx_executions = [], rx_decisions = [], rx_idempotency = [], rx_backpressure = None,
     rx_clock_errors = 0, rx_active = 0, rx_window = 0, rx_window_start = [], rx_seq = 0, rx_reads = 0, rx_gates = 0\<rparr>"

type_synonym 'a reaction_act = "reaction_engine \<Rightarrow> 'a py \<times> reaction_engine"

definition reaction_now :: "reaction_env \<Rightarrow> reaction_engine \<Rightarrow> string \<times> reaction_engine" where
  "reaction_now env s = (re_clock env (rx_reads s), s\<lparr>rx_reads := Suc (rx_reads s)\<rparr>)"

definition default_reaction_gate :: "event_record \<Rightarrow> reaction_rule \<Rightarrow> reaction_gate_result py" where
  "default_reaction_gate e r =
     py_bind (stable_identifier ''gate'' [(''event_id'', JStr (ev_event_id e)), (''rule_id'', JStr (rr_rule_id r))]) (\<lambda>i.
     check_gate_result \<lparr>rg_gate_id = i, rg_rule_id = rr_rule_id r, rg_event_id = ev_event_id e, rg_verdict = RV_PROCEED,
       rg_simulation_safe = True, rg_utility_acceptable = True, rg_meta_reasoning_clear = True, rg_confidence = PFin 1,
       rg_reason = ''default gate -- no gating logic configured'', rg_gated_at = ev_emitted_at e\<rparr>)"

section \<open>Rules\<close>

definition register_rule :: "reaction_rule \<Rightarrow> reaction_rule reaction_act" where
  "register_rule r s =
     (if dict_get (rx_rules s) (rr_rule_id r) \<noteq> None then (Inl (RuntimeCoreInvariantError ''rule already exists''), s)
      else (Inr r, s\<lparr>rx_rules := dict_set (rr_rule_id r) r (rx_rules s)\<rparr>))"

definition unregister_rule :: "string \<Rightarrow> unit reaction_act" where
  "unregister_rule rule_id s =
     act_bind (ensure_non_empty_text ''rule_id'' rule_id, s) (\<lambda>_ s.
       if dict_get (rx_rules s) rule_id = None then (Inl (RuntimeCoreInvariantError ''rule not found''), s)
       else (Inr (), s\<lparr>rx_rules := dict_pop rule_id (rx_rules s)\<rparr>))"

definition get_reaction_rule :: "reaction_engine \<Rightarrow> string \<Rightarrow> reaction_rule option py" where
  "get_reaction_rule s rule_id = py_bind (ensure_non_empty_text ''rule_id'' rule_id) (\<lambda>_. Inr (dict_get (rx_rules s) rule_id))"

definition list_rules :: "reaction_engine \<Rightarrow> bool \<Rightarrow> reaction_rule list" where
  "list_rules s enabled_only =
     (let rules = sort_key (\<lambda>r. (rr_priority r, rr_rule_id r)) (dict_values (rx_rules s))
      in if enabled_only then filter rr_enabled rules else rules)"

section \<open>Backpressure\<close>

definition set_backpressure :: "backpressure_policy \<Rightarrow> reaction_engine \<Rightarrow> reaction_engine" where
  "set_backpressure p s = s\<lparr>rx_backpressure := Some p\<rparr>"

text \<open>\<open>(current - start).total_seconds()\<close>: exact microseconds, divided as a float.\<close>

definition elapsed_seconds :: "int \<times> int option \<Rightarrow> int \<times> int option \<Rightarrow> pfloat py" where
  "elapsed_seconds current start =
     (case (snd current, snd start) of
        (None, None) \<Rightarrow> Inr (fl (of_int (fst current - fst start) / 1000000))
      | (Some u, Some v) \<Rightarrow> Inr (fl (of_int ((fst current - u) - (fst start - v)) / 1000000))
      | _ \<Rightarrow> Inl (TypeError ''can't subtract offset-naive and offset-aware datetimes''))"

text \<open>The window starts again once its seconds have gone by; \<open>None\<close> where parsing or subtracting raises.\<close>

definition window_elapsed :: "string \<Rightarrow> string \<Rightarrow> int \<Rightarrow> bool option" where
  "window_elapsed start now seconds =
     (case (datetime_value start, datetime_value now) of
        (Some a, Some b) \<Rightarrow> (case elapsed_seconds b a of Inl _ \<Rightarrow> None | Inr x \<Rightarrow> Some (pf_ge_int x seconds))
      | _ \<Rightarrow> None)"

definition check_backpressure :: "reaction_env \<Rightarrow> reaction_engine \<Rightarrow> bool \<times> reaction_engine" where
  "check_backpressure env s =
     (case rx_backpressure s of
        None \<Rightarrow> (True, s)
      | Some p \<Rightarrow>
          let fits = (\<lambda>s. rx_active s < bp_max_concurrent p \<and> rx_window s < bp_max_per_window p)
          in if rx_window_start s \<noteq> [] \<and> 0 < bp_window_seconds p
             then let (now, s) = reaction_now env s
                  in if rx_window_start s < now
                     then (case window_elapsed (rx_window_start s) now (bp_window_seconds p) of
                             None \<Rightarrow> (False, s\<lparr>rx_clock_errors := rx_clock_errors s + 1\<rparr>)
                           | Some True \<Rightarrow> let s = s\<lparr>rx_window := 0, rx_window_start := now\<rparr> in (fits s, s)
                           | Some False \<Rightarrow> (fits s, s))
                     else (fits s, s)
             else (fits s, s))"

definition record_throughput :: "reaction_engine \<Rightarrow> reaction_engine" where
  "record_throughput s = s\<lparr>rx_active := rx_active s + 1, rx_window := rx_window s + 1\<rparr>"

definition release_active :: "reaction_engine \<Rightarrow> reaction_engine" where
  "release_active s = (if 0 < rx_active s then s\<lparr>rx_active := rx_active s - 1\<rparr> else s)"

definition reset_window :: "reaction_env \<Rightarrow> reaction_engine \<Rightarrow> reaction_engine" where
  "reset_window env s = (let (now, s) = reaction_now env s in s\<lparr>rx_window := 0, rx_window_start := now\<rparr>)"

section \<open>Idempotency\<close>

abbreviation window_key :: "string \<Rightarrow> string \<Rightarrow> string" where
  "window_key event_id rule_id \<equiv> event_id @ '':'' @ rule_id"

definition is_duplicate :: "reaction_env \<Rightarrow> string \<Rightarrow> string \<Rightarrow> reaction_engine \<Rightarrow> bool \<times> reaction_engine" where
  "is_duplicate env event_id rule_id s =
     (case dict_get (rx_idempotency s) (window_key event_id rule_id) of
        None \<Rightarrow> (False, s)
      | Some w \<Rightarrow>
          let (now, s) = reaction_now env s
          in if iw_expires_at w \<le> now
             then (False, s\<lparr>rx_idempotency := dict_pop (window_key event_id rule_id) (rx_idempotency s)\<rparr>)
             else (True, s))"

definition record_idempotency :: "reaction_env \<Rightarrow> string \<Rightarrow> string \<Rightarrow> string \<Rightarrow> idempotency_window reaction_act" where
  "record_idempotency env event_id rule_id execution_id s =
     (let (now, s) = reaction_now env s
      in act_bind (py_bind (stable_identifier ''idem'' [(''event_id'', JStr event_id), (''rule_id'', JStr rule_id)]) (\<lambda>i.
           check_idempotency_window \<lparr>iw_window_id = i, iw_event_id = event_id, iw_rule_id = rule_id, iw_execution_id = execution_id,
             iw_processed_at = now, iw_expires_at = re_expiry env\<rparr>), s) (\<lambda>w s.
           (Inr w, s\<lparr>rx_idempotency := dict_set (window_key event_id rule_id) w (rx_idempotency s)\<rparr>)))"

section \<open>Conditions\<close>

fun walk_path :: "string list \<Rightarrow> pval \<Rightarrow> pval option" where
  "walk_path [] v = Some v"
| "walk_path (p # ps) (PDict d) = (case dict_get d p of None \<Rightarrow> None | Some v \<Rightarrow> walk_path ps v)"
| "walk_path (p # ps) v = None"

definition evaluate_condition :: "reaction_condition \<Rightarrow> (string \<times> pval) list \<Rightarrow> bool py" where
  "evaluate_condition c payload =
     (case walk_path (py_split (CHR ''.'') (rc_field_path c)) (PDict payload) of
        None \<Rightarrow> Inr False
      | Some current \<Rightarrow>
          let oper = rc_operator c; expected = rc_expected_value c; order = py_order current expected
          in if oper = ''eq'' then Inr (py_eq current expected)
             else if oper = ''neq'' then Inr (\<not> py_eq current expected)
             else if oper = ''gt'' then Inr (order = Some GREATER)
             else if oper = ''gte'' then Inr (order = Some GREATER \<or> order = Some EQUAL)
             else if oper = ''lt'' then Inr (order = Some LESS)
             else if oper = ''lte'' then Inr (order = Some LESS \<or> order = Some EQUAL)
             else if oper = ''contains'' then py_in expected current
             else if oper = ''in'' then py_in current expected
             else if oper = ''exists'' then Inr True
             else Inl (RuntimeCoreInvariantError ''unknown condition operator''))"

text \<open>\<open>all\<close> stops at the first condition that does not hold.\<close>

fun all_conditions :: "reaction_condition list \<Rightarrow> (string \<times> pval) list \<Rightarrow> bool py" where
  "all_conditions [] payload = Inr True"
| "all_conditions (c # cs) payload =
     py_bind (evaluate_condition c payload) (\<lambda>b. if b then all_conditions cs payload else Inr False)"

fun match_among :: "event_record \<Rightarrow> reaction_rule list \<Rightarrow> reaction_rule list py" where
  "match_among e [] = Inr []"
| "match_among e (r # rs) =
     (if rr_event_type r \<noteq> event_type_value (ev_event_type e) then match_among e rs
      else py_bind (all_conditions (rr_conditions r) (ev_payload e)) (\<lambda>b.
           py_bind (match_among e rs) (\<lambda>ms. Inr (if b then r # ms else ms))))"

definition match_rules :: "reaction_engine \<Rightarrow> event_record \<Rightarrow> reaction_rule list py" where
  "match_rules s e = match_among e (list_rules s True)"

section \<open>The reaction cycle\<close>

primrec py_error_name :: "py_error \<Rightarrow> string" where
  "py_error_name (ValueError m) = ''ValueError''"
| "py_error_name (KeyError m) = ''KeyError''"
| "py_error_name (TypeError m) = ''TypeError''"
| "py_error_name (AttributeError m) = ''AttributeError''"
| "py_error_name (PermissionError m) = ''PermissionError''"
| "py_error_name InvalidOperation = ''InvalidOperation''"
| "py_error_name ZeroDivisionError = ''ZeroDivisionError''"
| "py_error_name OverflowError = ''OverflowError''"
| "py_error_name (RuntimeCoreInvariantError m) = ''RuntimeCoreInvariantError''"
| "py_error_name (DuplicateRuntimeIdentifierError m) = ''DuplicateRuntimeIdentifierError''"

text \<open>The engine's own gate results: the flags and the confidence are all true and 1, or all false and 0.\<close>

definition own_gate_result ::
  "event_record \<Rightarrow> reaction_rule \<Rightarrow> (string \<times> json) list \<Rightarrow> reaction_verdict \<Rightarrow> bool \<Rightarrow> string \<Rightarrow> string \<Rightarrow> reaction_gate_result py" where
  "own_gate_result e r payload verdict fine reason now =
     py_bind (stable_identifier ''gate'' ([(''event_id'', JStr (ev_event_id e)), (''rule_id'', JStr (rr_rule_id r))] @ payload)) (\<lambda>i.
     check_gate_result \<lparr>rg_gate_id = i, rg_rule_id = rr_rule_id r, rg_event_id = ev_event_id e, rg_verdict = verdict,
       rg_simulation_safe = fine, rg_utility_acceptable = fine, rg_meta_reasoning_clear = fine,
       rg_confidence = PFin (if fine then 1 else 0), rg_reason = reason, rg_gated_at = now\<rparr>)"

definition call_gate :: "reaction_env \<Rightarrow> event_record \<Rightarrow> reaction_rule \<Rightarrow> int \<Rightarrow> string \<Rightarrow> reaction_gate_result reaction_act" where
  "call_gate env e r seq now s =
     (let s' = s\<lparr>rx_gates := Suc (rx_gates s)\<rparr>
      in case re_gate env (rx_gates s) e r of
           Inr g \<Rightarrow> (Inr g, s')
         | Inl er \<Rightarrow> (own_gate_result e r [(''seq'', JInt seq), (''error'', JBool True)] RV_REJECT False
               (''gate callback error ('' @ py_error_name er @ '')'') now, s'))"

definition file_execution ::
  "event_record \<Rightarrow> reaction_rule \<Rightarrow> string \<Rightarrow> reaction_gate_result \<Rightarrow> bool \<Rightarrow> string \<Rightarrow> string \<Rightarrow> string \<Rightarrow> reaction_execution reaction_act" where
  "file_execution e r exec_id g executed result_ref notes now s =
     act_bind (check_reaction_execution \<lparr>rex_execution_id = exec_id, rex_rule_id = rr_rule_id r, rex_event_id = ev_event_id e,
         rex_correlation_id = ev_correlation_id e, rex_target = rr_target r, rex_gate_result = g, rex_executed = executed,
         rex_result_ref_id = result_ref, rex_execution_notes = notes, rex_executed_at = now\<rparr>, s) (\<lambda>x s.
       (Inr x, s\<lparr>rx_executions := dict_set exec_id x (rx_executions s)\<rparr>))"

text \<open>
  One round of the loop of \<open>react\<close>: the record it files, and which of the loop's three counters it
  increments.
\<close>

datatype reaction_tally = TA_EXECUTED | TA_DEFERRED | TA_REJECTED

definition file_round ::
  "reaction_tally \<Rightarrow> event_record \<Rightarrow> reaction_rule \<Rightarrow> string \<Rightarrow> reaction_gate_result \<Rightarrow> bool \<Rightarrow> string \<Rightarrow> string \<Rightarrow> string
    \<Rightarrow> (reaction_execution \<times> reaction_tally) reaction_act" where
  "file_round tally e r exec_id g executed result_ref notes now s =
     act_bind (file_execution e r exec_id g executed result_ref notes now s) (\<lambda>x s. (Inr (x, tally), s))"

definition react_round ::
  "reaction_env \<Rightarrow> event_record \<Rightarrow> string \<Rightarrow> reaction_rule \<Rightarrow> (reaction_execution \<times> reaction_tally) reaction_act" where
  "react_round env e now r s =
     (let seq = rx_seq s + 1; s = s\<lparr>rx_seq := seq\<rparr>
      in act_bind (stable_identifier ''rxn'' [(''event_id'', JStr (ev_event_id e)), (''rule_id'', JStr (rr_rule_id r)), (''seq'', JInt seq)], s) (\<lambda>i s.
         let (duplicate, s) = is_duplicate env (ev_event_id e) (rr_rule_id r) s
         in if duplicate
            then act_bind (own_gate_result e r [(''seq'', JInt seq)] RV_REJECT True ''duplicate event -- idempotency window active'' now, s) (\<lambda>g s.
                 file_round TA_REJECTED e r i g False ''none'' ''rejected: duplicate event'' now s)
            else let (free, s) = check_backpressure env s
                 in if \<not> free
                    then act_bind (own_gate_result e r [(''seq'', JInt seq)] RV_DEFER True ''backpressure limit reached -- deferring'' now, s) (\<lambda>g s.
                         file_round TA_DEFERRED e r i g False ''none'' ''deferred: backpressure'' now s)
                    else act_bind (call_gate env e r seq now s) (\<lambda>g s.
                         if rg_verdict g = RV_PROCEED
                         then act_bind (record_idempotency env (ev_event_id e) (rr_rule_id r) i (record_throughput s)) (\<lambda>_ s.
                              file_round TA_EXECUTED e r i g True i ''executed successfully'' now s)
                         else if rg_verdict g = RV_DEFER
                         then file_round TA_DEFERRED e r i g False ''none'' (''deferred: '' @ rg_reason g) now s
                         else file_round TA_REJECTED e r i g False ''none'' (reaction_verdict_value (rg_verdict g) @ '': '' @ rg_reason g) now s)))"

type_synonym reaction_counts = "int \<times> int \<times> int"

fun count_up :: "reaction_tally \<Rightarrow> reaction_counts \<Rightarrow> reaction_counts" where
  "count_up TA_EXECUTED (executed, deferred, rejected) = (executed + 1, deferred, rejected)"
| "count_up TA_DEFERRED (executed, deferred, rejected) = (executed, deferred + 1, rejected)"
| "count_up TA_REJECTED (executed, deferred, rejected) = (executed, deferred, rejected + 1)"

fun react_loop ::
  "reaction_env \<Rightarrow> event_record \<Rightarrow> string \<Rightarrow> reaction_rule list \<Rightarrow> reaction_execution list \<Rightarrow> reaction_counts
    \<Rightarrow> (reaction_execution list \<times> reaction_counts) reaction_act" where
  "react_loop env e now [] xs counts s = (Inr (xs, counts), s)"
| "react_loop env e now (r # rs) xs counts s =
     act_bind (react_round env e now r s) (\<lambda>(x, tally) s.
       react_loop env e now rs (xs @ [x]) (count_up tally counts) s)"

definition react :: "reaction_env \<Rightarrow> event_record \<Rightarrow> reaction_decision reaction_act" where
  "react env e s =
     (let (now, s) = reaction_now env s; rules = list_rules s True
      in act_bind (match_rules s e, s) (\<lambda>matched s.
         act_bind (react_loop env e now matched [] (0, 0, 0) s) (\<lambda>(xs, executed, deferred, rejected) s.
         act_bind (stable_identifier ''rdec'' [(''event_id'', JStr (ev_event_id e)), (''seq'', JInt (rx_seq s))], s) (\<lambda>i s.
         act_bind (check_reaction_decision \<lparr>rdn_decision_id = i, rdn_event_id = ev_event_id e, rdn_correlation_id = ev_correlation_id e,
             rdn_rules_evaluated = int (length rules), rdn_rules_matched = int (length matched),
             rdn_rules_executed = executed, rdn_rules_deferred = deferred, rdn_rules_rejected = rejected,
             rdn_executions = xs, rdn_decided_at = now\<rparr>, s) (\<lambda>d s.
           (Inr d, s\<lparr>rx_decisions := dict_set i d (rx_decisions s)\<rparr>))))))"

section \<open>History\<close>

definition list_executions :: "reaction_engine \<Rightarrow> string option \<Rightarrow> string option \<Rightarrow> bool \<Rightarrow> reaction_execution list" where
  "list_executions s event_id rule_id executed_only =
     (let xs = sort_key rex_executed_at (dict_values (rx_executions s));
          xs = (case event_id of None \<Rightarrow> xs | Some i \<Rightarrow> filter (\<lambda>x. rex_event_id x = i) xs);
          xs = (case rule_id of None \<Rightarrow> xs | Some i \<Rightarrow> filter (\<lambda>x. rex_rule_id x = i) xs)
      in if executed_only then filter rex_executed xs else xs)"

definition list_decisions :: "reaction_engine \<Rightarrow> reaction_decision list" where
  "list_decisions s = sort_key rdn_decided_at (dict_values (rx_decisions s))"

section \<open>What one rule does to the engine\<close>

text \<open>
  Up to the verdict: rules, records and running reactions are as before, an expired window may be gone,
  a rate window may have started again.
\<close>

definition idle_step :: "reaction_env \<Rightarrow> string \<Rightarrow> reaction_engine \<Rightarrow> reaction_engine \<Rightarrow> bool" where
  "idle_step env key s u \<longleftrightarrow>
     rx_rules u = rx_rules s \<and> rx_executions u = rx_executions s \<and> rx_decisions u = rx_decisions s \<and>
     rx_active u = rx_active s \<and> rx_backpressure u = rx_backpressure s \<and>
     (rx_window u = rx_window s \<or> rx_window u = 0) \<and>
     (rx_window_start s = [] \<longrightarrow> rx_window_start u = [] \<and> rx_window u = rx_window s) \<and>
     (rx_idempotency u = rx_idempotency s \<or>
      (\<exists>w n. dict_get (rx_idempotency s) key = Some w \<and> iw_expires_at w \<le> re_clock env n \<and>
         rx_idempotency u = dict_pop key (rx_idempotency s)))"

definition pressure_free :: "reaction_engine \<Rightarrow> bool" where
  "pressure_free s \<longleftrightarrow> (\<forall>p. rx_backpressure s = Some p \<longrightarrow> rx_active s < bp_max_concurrent p \<and> rx_window s < bp_max_per_window p)"

lemma duplicate_idle:
  assumes "is_duplicate env ev ru s = (b, t)"
  shows "idle_step env (window_key ev ru) s t" and "b \<longleftrightarrow> dict_get (rx_idempotency t) (window_key ev ru) \<noteq> None"
  using assms by (auto simp: is_duplicate_def reaction_now_def idle_step_def Let_def split: option.splits if_splits)

lemma pressure_idle:
  assumes "check_backpressure env s = (b, t)"
  shows "idle_step env key s t" and "rx_idempotency t = rx_idempotency s" and "b \<Longrightarrow> pressure_free t"
  using assms
  by (auto simp: check_backpressure_def reaction_now_def idle_step_def pressure_free_def Let_def split: option.splits if_splits bool.splits)

lemma idle_trans:
  assumes "idle_step env key s t" and "idle_step env key t u"
  shows "idle_step env key s u"
proof -
  have w: "rx_window u = rx_window s \<or> rx_window u = 0" using assms unfolding idle_step_def by metis
  have st: "rx_window_start s = [] \<longrightarrow> rx_window_start u = [] \<and> rx_window u = rx_window s" using assms unfolding idle_step_def by simp
  have "dict_get (dict_pop key d) key = None" for d :: "(string, idempotency_window) pydict" by simp
  then have "rx_idempotency u = rx_idempotency s \<or>
      (\<exists>w n. dict_get (rx_idempotency s) key = Some w \<and> iw_expires_at w \<le> re_clock env n \<and>
         rx_idempotency u = dict_pop key (rx_idempotency s))"
    using assms unfolding idle_step_def by (metis option.distinct(1))
  then show ?thesis using w st assms unfolding idle_step_def by simp
qed

lemma gate_idle:
  assumes "call_gate env e r seq now s = (res, t)"
  shows "idle_step env key s t" and "rx_idempotency t = rx_idempotency s" and "pressure_free s \<Longrightarrow> pressure_free t"
    and "res = Inr g \<Longrightarrow> rg_verdict g = RV_PROCEED \<Longrightarrow> \<exists>n. re_gate env n e r = Inr g"
  using assms
  by (auto simp: call_gate_def own_gate_result_def check_gate_result_def py_bind_Inr_iff idle_step_def pressure_free_def Let_def
      split: sum.splits)

lemma checked_execution: "check_reaction_execution x = Inr y \<Longrightarrow> y = x"
  by (auto simp: check_reaction_execution_def py_bind_Inr_iff)

lemma own_gate_verdict: "own_gate_result e r p v fine reason now = Inr g \<Longrightarrow> rg_verdict g = v"
  by (auto simp: own_gate_result_def check_gate_result_def py_bind_Inr_iff)

section \<open>The counters of the loop\<close>

text \<open>The loop without its counters, and how often a verdict occurs among its records.\<close>

definition react_rule :: "reaction_env \<Rightarrow> event_record \<Rightarrow> string \<Rightarrow> reaction_rule \<Rightarrow> reaction_execution reaction_act" where
  "react_rule env e now r s = act_bind (react_round env e now r s) (\<lambda>(x, tally) s. (Inr x, s))"

fun react_rules :: "reaction_env \<Rightarrow> event_record \<Rightarrow> string \<Rightarrow> reaction_rule list \<Rightarrow> reaction_execution list reaction_act" where
  "react_rules env e now [] s = (Inr [], s)"
| "react_rules env e now (r # rs) s =
     act_bind (react_rule env e now r s) (\<lambda>x s.
     act_bind (react_rules env e now rs s) (\<lambda>xs s. (Inr (x # xs), s)))"

definition count_executions :: "(reaction_verdict \<Rightarrow> bool) \<Rightarrow> reaction_execution list \<Rightarrow> int" where
  "count_executions P xs = int (length (filter (\<lambda>x. P (rg_verdict (rex_gate_result x))) xs))"

lemma bind_assoc: "act_bind (act_bind m f) g = act_bind m (\<lambda>x s. act_bind (f x s) g)"
  by (simp add: act_bind_def split: prod.splits sum.splits)

lemma bind_case: "act_bind (case p of (a, b) \<Rightarrow> h a b) f = (case p of (a, b) \<Rightarrow> act_bind (h a b) f)"
  by (cases p) simp

lemma bind_if: "act_bind (if b then m else n) f = (if b then act_bind m f else act_bind n f)"
  by simp

lemma round_plain: "act_bind (file_round tally e r i g b ref notes now s) (\<lambda>(x, tally) s. (Inr x, s)) =
    file_execution e r i g b ref notes now s"
  by (simp add: file_round_def act_bind_def split: prod.splits sum.splits)

lemma react_rule_eq:
  "react_rule env e now r s =
     (let seq = rx_seq s + 1; s = s\<lparr>rx_seq := seq\<rparr>
      in act_bind (stable_identifier ''rxn'' [(''event_id'', JStr (ev_event_id e)), (''rule_id'', JStr (rr_rule_id r)), (''seq'', JInt seq)], s) (\<lambda>i s.
         let (duplicate, s) = is_duplicate env (ev_event_id e) (rr_rule_id r) s
         in if duplicate
            then act_bind (own_gate_result e r [(''seq'', JInt seq)] RV_REJECT True ''duplicate event -- idempotency window active'' now, s) (\<lambda>g s.
                 file_execution e r i g False ''none'' ''rejected: duplicate event'' now s)
            else let (free, s) = check_backpressure env s
                 in if \<not> free
                    then act_bind (own_gate_result e r [(''seq'', JInt seq)] RV_DEFER True ''backpressure limit reached -- deferring'' now, s) (\<lambda>g s.
                         file_execution e r i g False ''none'' ''deferred: backpressure'' now s)
                    else act_bind (call_gate env e r seq now s) (\<lambda>g s.
                         if rg_verdict g = RV_PROCEED
                         then act_bind (record_idempotency env (ev_event_id e) (rr_rule_id r) i (record_throughput s)) (\<lambda>_ s.
                              file_execution e r i g True i ''executed successfully'' now s)
                         else if rg_verdict g = RV_DEFER
                         then file_execution e r i g False ''none'' (''deferred: '' @ rg_reason g) now s
                         else file_execution e r i g False ''none'' (reaction_verdict_value (rg_verdict g) @ '': '' @ rg_reason g) now s)))"
  unfolding react_rule_def react_round_def Let_def by (simp only: bind_assoc bind_case bind_if round_plain)

definition tally_of :: "reaction_verdict \<Rightarrow> reaction_tally" where
  "tally_of v = (if v = RV_PROCEED then TA_EXECUTED else if v = RV_DEFER then TA_DEFERRED else TA_REJECTED)"

text \<open>The branch that increments a counter is the one of the verdict.\<close>

definition tallied :: "(reaction_execution \<times> reaction_tally) py \<times> reaction_engine \<Rightarrow> bool" where
  "tallied m \<longleftrightarrow> (\<forall>x tally. fst m = Inr (x, tally) \<longrightarrow> tally = tally_of (rg_verdict (rex_gate_result x)))"

lemma tallied_bind: "(\<And>x t. m = (Inr x, t) \<Longrightarrow> tallied (f x t)) \<Longrightarrow> tallied (act_bind m f)"
  by (cases m; cases "fst m") (auto simp: act_bind_def tallied_def)

lemma tallied_round:
  assumes "tally = tally_of (rg_verdict g)"
  shows "tallied (file_round tally e r i g b ref nt now s)"
proof -
  have "rex_gate_result x = g" if "file_execution e r i g b ref nt now s = (Inr x, t)" for x t
    using that by (auto simp: file_execution_def act_bind_def dest!: checked_execution split: sum.splits)
  then show ?thesis using assms unfolding file_round_def by (intro tallied_bind) (simp add: tallied_def)
qed

lemma react_round_tallied: "tallied (react_round env e now r s)"
proof -
  have own: "tallied (act_bind (own_gate_result e r p v fine reason now', u) (\<lambda>g s. file_round (tally_of v) e r i g b ref nt now s))"
    for p v fine reason now' u i b ref nt
    by (intro tallied_bind tallied_round) (auto dest: own_gate_verdict)
  note own_rejected = own[of _ RV_REJECT, unfolded tally_of_def, simplified]
    and own_deferred = own[of _ RV_DEFER, unfolded tally_of_def, simplified]
  show ?thesis unfolding react_round_def Let_def
    by (rule tallied_bind) (auto simp: tally_of_def split: prod.split
        intro!: own_rejected own_deferred tallied_bind tallied_round)
qed

lemma react_loop_eq:
  "react_loop env e now rs xs (a, b, c) s =
     act_bind (react_rules env e now rs s) (\<lambda>ys s. (Inr (xs @ ys, a + count_executions (\<lambda>v. v = RV_PROCEED) ys,
       b + count_executions (\<lambda>v. v = RV_DEFER) ys,
       c + count_executions (\<lambda>v. v \<noteq> RV_PROCEED \<and> v \<noteq> RV_DEFER) ys), s))"
proof (induction rs arbitrary: xs a b c s)
  case Nil
  show ?case by (simp add: act_bind_def count_executions_def)
next
  case (Cons r rs)
  obtain m t where m: "react_round env e now r s = (m, t)" by fastforce
  show ?case
  proof (cases m)
    case (Inl er)
    then show ?thesis using m by (simp add: react_rule_def act_bind_def)
  next
    case (Inr y)
    obtain x tally where y: "y = (x, tally)" by (cases y)
    have "tally = tally_of (rg_verdict (rex_gate_result x))"
      using react_round_tallied[of env e now r s] m Inr y by (simp add: tallied_def)
    then have up: "count_up tally (a, b, c) = (a + count_executions (\<lambda>v. v = RV_PROCEED) [x],
        b + count_executions (\<lambda>v. v = RV_DEFER) [x], c + count_executions (\<lambda>v. v \<noteq> RV_PROCEED \<and> v \<noteq> RV_DEFER) [x])"
      by (auto simp: tally_of_def count_executions_def)
    have add: "count_executions P (x # ys) = count_executions P [x] + count_executions P ys" for P ys
      by (simp add: count_executions_def)
    have rule: "react_rule env e now r s = (Inr x, t)" using m Inr y by (simp add: react_rule_def act_bind_def)
    have "react_loop env e now (r # rs) xs (a, b, c) s = react_loop env e now rs (xs @ [x]) (count_up tally (a, b, c)) t"
      using m Inr y by (simp add: act_bind_def)
    moreover obtain z u where z: "react_rules env e now rs t = (z, u)" by fastforce
    ultimately have e: "react_loop env e now (r # rs) xs (a, b, c) s = act_bind (z, u) (\<lambda>ys s. (Inr ((xs @ [x]) @ ys,
        a + count_executions (\<lambda>v. v = RV_PROCEED) [x] + count_executions (\<lambda>v. v = RV_PROCEED) ys,
        b + count_executions (\<lambda>v. v = RV_DEFER) [x] + count_executions (\<lambda>v. v = RV_DEFER) ys,
        c + count_executions (\<lambda>v. v \<noteq> RV_PROCEED \<and> v \<noteq> RV_DEFER) [x] +
          count_executions (\<lambda>v. v \<noteq> RV_PROCEED \<and> v \<noteq> RV_DEFER) ys), s))"
      unfolding up Cons.IH by simp
    show ?thesis
    proof (cases z)
      case (Inl er)
      then show ?thesis unfolding e using rule z by (simp add: act_bind_def)
    next
      case (Inr zs)
      then show ?thesis unfolding e using rule z by (simp add: act_bind_def add[of _ zs])
    qed
  qed
qed

lemma react_eq:
  "react env e s =
     (let (now, s) = reaction_now env s; rules = list_rules s True
      in act_bind (match_rules s e, s) (\<lambda>matched s.
         act_bind (react_rules env e now matched s) (\<lambda>xs s.
         act_bind (stable_identifier ''rdec'' [(''event_id'', JStr (ev_event_id e)), (''seq'', JInt (rx_seq s))], s) (\<lambda>i s.
         act_bind (check_reaction_decision \<lparr>rdn_decision_id = i, rdn_event_id = ev_event_id e, rdn_correlation_id = ev_correlation_id e,
             rdn_rules_evaluated = int (length rules), rdn_rules_matched = int (length matched),
             rdn_rules_executed = count_executions (\<lambda>v. v = RV_PROCEED) xs, rdn_rules_deferred = count_executions (\<lambda>v. v = RV_DEFER) xs,
             rdn_rules_rejected = count_executions (\<lambda>v. v \<noteq> RV_PROCEED \<and> v \<noteq> RV_DEFER) xs,
             rdn_executions = xs, rdn_decided_at = now\<rparr>, s) (\<lambda>d s.
           (Inr d, s\<lparr>rx_decisions := dict_set i d (rx_decisions s)\<rparr>))))))"
  unfolding react_def react_loop_eq by (simp add: bind_assoc act_bind_def[of "(Inr _, _)"])

section \<open>What one rule files\<close>

text \<open>A record of a verdict that is not to proceed.\<close>

definition held_back :: "event_record \<Rightarrow> reaction_rule \<Rightarrow> reaction_execution \<Rightarrow> bool" where
  "held_back e r x \<longleftrightarrow> \<not> rex_executed x \<and> rg_verdict (rex_gate_result x) \<noteq> RV_PROCEED \<and>
     rex_event_id x = ev_event_id e \<and> rex_rule_id x = rr_rule_id r \<and> rex_result_ref_id x = ''none''"

definition carried_out :: "reaction_env \<Rightarrow> event_record \<Rightarrow> reaction_rule \<Rightarrow> reaction_execution \<Rightarrow> bool" where
  "carried_out env e r x \<longleftrightarrow> rex_executed x \<and> rg_verdict (rex_gate_result x) = RV_PROCEED \<and>
     rex_event_id x = ev_event_id e \<and> rex_rule_id x = rr_rule_id r \<and> rex_result_ref_id x = rex_execution_id x \<and>
     (\<exists>n. re_gate env n e r = Inr (rex_gate_result x))"

lemma file_outcome:
  assumes "file_execution e r i g b ref notes now u = (res, t)"
  shows "(\<exists>er. res = Inl er) \<and> t = u \<or>
    (\<exists>x. res = Inr x \<and> t = u\<lparr>rx_executions := dict_set (rex_execution_id x) x (rx_executions u)\<rparr> \<and>
      rex_execution_id x = i \<and> rex_executed x = b \<and> rex_gate_result x = g \<and> rex_result_ref_id x = ref \<and>
      rex_event_id x = ev_event_id e \<and> rex_rule_id x = rr_rule_id r)"
proof -
  let ?x = "\<lparr>rex_execution_id = i, rex_rule_id = rr_rule_id r, rex_event_id = ev_event_id e,
         rex_correlation_id = ev_correlation_id e, rex_target = rr_target r, rex_gate_result = g, rex_executed = b,
         rex_result_ref_id = ref, rex_execution_notes = notes, rex_executed_at = now\<rparr>"
  show ?thesis
  proof (cases "check_reaction_execution ?x")
    case (Inl er)
    then have "res = Inl er \<and> t = u" using assms by (simp add: file_execution_def act_bind_def)
    then show ?thesis by blast
  next
    case (Inr y)
    then have "y = ?x" by (rule checked_execution)
    then have "res = Inr ?x \<and> t = u\<lparr>rx_executions := dict_set i ?x (rx_executions u)\<rparr>"
      using assms Inr by (simp add: file_execution_def act_bind_def)
    then show ?thesis by (intro disjI2 exI[of _ ?x]) simp
  qed
qed

lemma file_cases:
  assumes "file_execution e r i g False ''none'' notes now u = (res, t)" and "rg_verdict g \<noteq> RV_PROCEED"
  shows "(\<exists>er. res = Inl er) \<and> t = u \<or>
    (\<exists>x. res = Inr x \<and> held_back e r x \<and> t = u\<lparr>rx_executions := dict_set (rex_execution_id x) x (rx_executions u)\<rparr>)"
  using file_outcome[OF assms(1)] assms(2) unfolding held_back_def by metis

lemma own_gate_cases:
  assumes "act_bind (own_gate_result e r p v fine reason now, u) (\<lambda>g s. file_execution e r i g False ''none'' notes now s) = (res, t)"
    and "v \<noteq> RV_PROCEED"
  shows "(\<exists>er. res = Inl er) \<and> t = u \<or>
    (\<exists>x. res = Inr x \<and> held_back e r x \<and> t = u\<lparr>rx_executions := dict_set (rex_execution_id x) x (rx_executions u)\<rparr>)"
proof (cases "own_gate_result e r p v fine reason now")
  case (Inl er)
  then have "res = Inl er \<and> t = u" using assms(1) by (simp add: act_bind_def)
  then show ?thesis by blast
next
  case (Inr g)
  then have "rg_verdict g \<noteq> RV_PROCEED" using own_gate_verdict assms(2) by metis
  moreover have "file_execution e r i g False ''none'' notes now u = (res, t)" using assms(1) Inr by (simp add: act_bind_def)
  ultimately show ?thesis by (intro file_cases)
qed

text \<open>What is left of a window after it was recorded, or not.\<close>

lemma record_idempotency_cases:
  assumes "record_idempotency env ev ru i u = (res, t)"
  shows "(\<exists>er. res = Inl er) \<and> t = u\<lparr>rx_reads := Suc (rx_reads u)\<rparr> \<or>
    (\<exists>w. res = Inr w \<and> iw_expires_at w = re_expiry env \<and>
      t = u\<lparr>rx_reads := Suc (rx_reads u), rx_idempotency := dict_set (window_key ev ru) w (rx_idempotency u)\<rparr>)"
proof (cases res)
  case (Inl er)
  then show ?thesis using assms by (auto simp: record_idempotency_def reaction_now_def act_bind_def Let_def split: sum.splits)
next
  case (Inr w)
  then have "iw_expires_at w = re_expiry env"
    using assms
    by (auto simp: record_idempotency_def reaction_now_def act_bind_def Let_def py_bind_Inr_iff check_idempotency_window_def
        split: sum.splits)
  then show ?thesis using assms Inr by (auto simp: record_idempotency_def reaction_now_def act_bind_def Let_def split: sum.splits)
qed

lemma react_rule_cases:
  fixes env e r defines "key \<equiv> window_key (ev_event_id e) (rr_rule_id r)"
  assumes "react_rule env e now r s = (res, t)"
  obtains (raised) er where "idle_step env key s t" and "res = Inl er"
  | (held) u x where "idle_step env key s u" and "res = Inr x" and "held_back e r x"
      and "t = u\<lparr>rx_executions := dict_set (rex_execution_id x) x (rx_executions u)\<rparr>"
  | (begun) u er where "idle_step env key s u" and "pressure_free u" and "dict_get (rx_idempotency u) key = None"
      and "res = Inl er" and "t = (record_throughput u)\<lparr>rx_reads := Suc (rx_reads u)\<rparr> \<or>
        (\<exists>w. iw_expires_at w = re_expiry env \<and>
          t = (record_throughput u)\<lparr>rx_reads := Suc (rx_reads u), rx_idempotency := dict_set key w (rx_idempotency u)\<rparr>)"
  | (carried) u x w where "idle_step env key s u" and "pressure_free u" and "dict_get (rx_idempotency u) key = None"
      and "res = Inr x" and "carried_out env e r x" and "iw_expires_at w = re_expiry env"
      and "t = (record_throughput u)\<lparr>rx_reads := Suc (rx_reads u), rx_idempotency := dict_set key w (rx_idempotency u),
            rx_executions := dict_set (rex_execution_id x) x (rx_executions u)\<rparr>"
proof -
  define seq where "seq = rx_seq s + 1"
  let ?s1 = "s\<lparr>rx_seq := seq\<rparr>"
  have i1: "idle_step env key s ?s1" by (simp add: idle_step_def)
  obtain i where i: "stable_identifier ''rxn'' [(''event_id'', JStr (ev_event_id e)), (''rule_id'', JStr (rr_rule_id r)), (''seq'', JInt seq)] = Inr i"
  proof -
    have "\<not> blank ''rxn''" by code_simp
    from stable_identifier_total[OF this] show ?thesis using that by metis
  qed
  obtain b s2 where d: "is_duplicate env (ev_event_id e) (rr_rule_id r) ?s1 = (b, s2)" by fastforce
  have i2: "idle_step env key s s2" using idle_trans[OF i1] duplicate_idle(1)[OF d] unfolding key_def by blast
  have b: "b \<longleftrightarrow> dict_get (rx_idempotency s2) key \<noteq> None" using duplicate_idle(2)[OF d] unfolding key_def .
  note rule = assms(2)[unfolded react_rule_eq Let_def, folded seq_def, unfolded i act_bind_def[of "(Inr i, _)"], simplified d split_conv sum.case prod.case]
  show thesis
  proof (cases b)
    case True
    then have "act_bind (own_gate_result e r [(''seq'', JInt seq)] RV_REJECT True ''duplicate event -- idempotency window active'' now, s2)
        (\<lambda>g s. file_execution e r i g False ''none'' ''rejected: duplicate event'' now s) = (res, t)"
      using rule by simp
    from own_gate_cases[OF this] show thesis using raised held i2 by blast
  next
    case False
    obtain f s3 where p: "check_backpressure env s2 = (f, s3)" by fastforce
    have i3: "idle_step env key s s3" using idle_trans[OF i2 pressure_idle(1)[OF p]] .
    show thesis
    proof (cases f)
      case no: False
      have "act_bind (own_gate_result e r [(''seq'', JInt seq)] RV_DEFER True ''backpressure limit reached -- deferring'' now, s3)
          (\<lambda>g s. file_execution e r i g False ''none'' ''deferred: backpressure'' now s) = (res, t)"
        using rule p no False by simp
      from own_gate_cases[OF this] show thesis using raised held i3 by blast
    next
      case yes: True
      obtain y s4 where g: "call_gate env e r seq now s3 = (y, s4)" by fastforce
      have i4: "idle_step env key s s4" using idle_trans[OF i3 gate_idle(1)[OF g]] .
      have free: "pressure_free s4" using gate_idle(3)[OF g] pressure_idle(3)[OF p] yes by simp
      have new: "dict_get (rx_idempotency s4) key = None"
        using False b gate_idle(2)[OF g] pressure_idle(2)[OF p] by simp
      show thesis
      proof (cases y)
        case (Inl er)
        then have "res = Inl er \<and> t = s4" using rule p g yes False by (simp add: act_bind_def)
        then show thesis using raised i4 by blast
      next
        case (Inr gr)
        show thesis
        proof (cases "rg_verdict gr = RV_PROCEED")
          case False
          then obtain nt where "file_execution e r i gr False ''none'' nt now s4 = (res, t)"
            using rule p g yes Inr \<open>\<not> b\<close> by (auto simp: act_bind_def split: if_splits)
          from file_cases[OF this False] show thesis using raised held i4 by blast
        next
          case True
          obtain z s5 where w: "record_idempotency env (ev_event_id e) (rr_rule_id r) i (record_throughput s4) = (z, s5)" by fastforce
          from record_idempotency_cases[OF this] consider
            er where "z = Inl er" "s5 = (record_throughput s4)\<lparr>rx_reads := Suc (rx_reads s4)\<rparr>"
          | wi where "z = Inr wi" "iw_expires_at wi = re_expiry env" "s5 = (record_throughput s4)\<lparr>rx_reads := Suc (rx_reads s4),
              rx_idempotency := dict_set key wi (rx_idempotency s4)\<rparr>"
            unfolding key_def record_throughput_def by auto
          then show thesis
          proof cases
            case (1 er)
            then have "res = Inl er" "t = s5" using rule p g yes Inr \<open>\<not> b\<close> True w by (simp_all add: act_bind_def)
            then show thesis using begun i4 free new 1(2) by blast
          next
            case (2 wi)
            then have f: "file_execution e r i gr True i ''executed successfully'' now s5 = (res, t)"
              using rule p g yes Inr \<open>\<not> b\<close> True w by (simp add: act_bind_def)
            obtain n where n: "re_gate env n e r = Inr gr" using gate_idle(4)[OF g Inr True] by blast
            from file_outcome[OF f] show thesis
            proof (elim disjE exE conjE)
              fix er assume "res = Inl er" "t = s5"
              then show thesis using begun i4 free new 2 by blast
            next
              fix x assume x: "res = Inr x" "t = s5\<lparr>rx_executions := dict_set (rex_execution_id x) x (rx_executions s5)\<rparr>"
                "rex_execution_id x = i" "rex_executed x = True" "rex_gate_result x = gr" "rex_result_ref_id x = i"
                "rex_event_id x = ev_event_id e" "rex_rule_id x = rr_rule_id r"
              have "carried_out env e r x" using x n True unfolding carried_out_def by blast
              then show thesis using carried i4 free new x(1,2) 2 by (auto simp: record_throughput_def)
            qed
          qed
        qed
      qed
    qed
  qed
qed

section \<open>Windows\<close>

text \<open>Windows that no reading of the clock reaches.\<close>

definition windows_live :: "reaction_env \<Rightarrow> reaction_engine \<Rightarrow> bool" where
  "windows_live env s \<longleftrightarrow> (\<forall>k w. dict_get (rx_idempotency s) k = Some w \<longrightarrow> iw_expires_at w = re_expiry env)"

definition windows_kept :: "reaction_engine \<Rightarrow> reaction_engine \<Rightarrow> bool" where
  "windows_kept s t \<longleftrightarrow> (\<forall>k. dict_get (rx_idempotency s) k \<noteq> None \<longrightarrow> dict_get (rx_idempotency t) k \<noteq> None)"

abbreviation never_expires :: "reaction_env \<Rightarrow> bool" where
  "never_expires env \<equiv> (\<forall>n. re_clock env n < re_expiry env)"

abbreviation execution_key :: "reaction_execution \<Rightarrow> string" where
  "execution_key x \<equiv> window_key (rex_event_id x) (rex_rule_id x)"

lemma idle_windows:
  assumes "idle_step env key s u" and "never_expires env" and "windows_live env s"
  shows "rx_idempotency u = rx_idempotency s"
proof -
  have "\<not> iw_expires_at w \<le> re_clock env n" if "dict_get (rx_idempotency s) key = Some w" for w n
    using that assms(2,3) unfolding windows_live_def by (metis leD)
  then show ?thesis using assms(1) unfolding idle_step_def by blast
qed

lemma react_rule_windows:
  assumes "react_rule env e now r s = (res, t)" and "never_expires env" and "windows_live env s"
  shows "windows_live env t \<and> windows_kept s t \<and> (\<forall>x. res = Inr x \<and> rex_executed x \<longrightarrow>
    dict_get (rx_idempotency s) (execution_key x) = None \<and> dict_get (rx_idempotency t) (execution_key x) \<noteq> None)"
proof (rule react_rule_cases[OF assms(1)])
  fix er
  assume "idle_step env (window_key (ev_event_id e) (rr_rule_id r)) s t" "res = Inl er"
  then show ?thesis using idle_windows assms(2,3) by (auto simp: windows_live_def windows_kept_def)
next
  fix u x
  assume u: "idle_step env (window_key (ev_event_id e) (rr_rule_id r)) s u" "res = Inr x" "held_back e r x"
    "t = u\<lparr>rx_executions := dict_set (rex_execution_id x) x (rx_executions u)\<rparr>"
  then have "rx_idempotency t = rx_idempotency s" using idle_windows assms(2,3) by auto
  then show ?thesis using u assms(3) by (auto simp: windows_live_def windows_kept_def held_back_def)
next
  fix u er
  assume u: "idle_step env (window_key (ev_event_id e) (rr_rule_id r)) s u" "res = Inl er"
    "t = (record_throughput u)\<lparr>rx_reads := Suc (rx_reads u)\<rparr> \<or> (\<exists>w. iw_expires_at w = re_expiry env \<and>
       t = (record_throughput u)\<lparr>rx_reads := Suc (rx_reads u),
         rx_idempotency := dict_set (window_key (ev_event_id e) (rr_rule_id r)) w (rx_idempotency u)\<rparr>)"
  have "rx_idempotency u = rx_idempotency s" using idle_windows u(1) assms(2,3) .
  then show ?thesis using u(2,3) assms(3)
    by (auto simp: windows_live_def windows_kept_def record_throughput_def split: if_splits)
next
  fix u x w
  assume u: "idle_step env (window_key (ev_event_id e) (rr_rule_id r)) s u"
    "dict_get (rx_idempotency u) (window_key (ev_event_id e) (rr_rule_id r)) = None" "res = Inr x" "carried_out env e r x"
    "iw_expires_at w = re_expiry env"
    "t = (record_throughput u)\<lparr>rx_reads := Suc (rx_reads u),
       rx_idempotency := dict_set (window_key (ev_event_id e) (rr_rule_id r)) w (rx_idempotency u),
       rx_executions := dict_set (rex_execution_id x) x (rx_executions u)\<rparr>"
  have "rx_idempotency u = rx_idempotency s" using idle_windows u(1) assms(2,3) .
  then show ?thesis using u(2-6) assms(3)
    by (auto simp: windows_live_def windows_kept_def carried_out_def record_throughput_def split: if_splits)
qed

lemma windows_kept_refl: "windows_kept s s"
  by (simp add: windows_kept_def)

lemma windows_kept_trans: "windows_kept s t \<Longrightarrow> windows_kept t u \<Longrightarrow> windows_kept s u"
  by (simp add: windows_kept_def)

text \<open>The keys of a list of records that were carried out, none of them known before.\<close>

definition fresh_keys :: "reaction_engine \<Rightarrow> reaction_engine \<Rightarrow> reaction_execution list \<Rightarrow> bool" where
  "fresh_keys s t xs \<longleftrightarrow> distinct (map execution_key (filter rex_executed xs)) \<and>
     (\<forall>x \<in> set xs. rex_executed x \<longrightarrow>
        dict_get (rx_idempotency s) (execution_key x) = None \<and> dict_get (rx_idempotency t) (execution_key x) \<noteq> None)"

lemma react_rules_windows:
  assumes "react_rules env e now rs s = (res, t)" and "never_expires env" and "windows_live env s"
  shows "windows_live env t \<and> windows_kept s t \<and> (\<forall>xs. res = Inr xs \<longrightarrow> fresh_keys s t xs)"
  using assms(1,3)
proof (induction rs arbitrary: s t res)
  case Nil
  then show ?case by (auto simp: windows_kept_refl fresh_keys_def)
next
  case (Cons r rs)
  obtain y s1 where y: "react_rule env e now r s = (y, s1)" by fastforce
  note one = react_rule_windows[OF y assms(2) Cons.prems(2)]
  show ?case
  proof (cases y)
    case (Inl er)
    then have "res = Inl er" "t = s1" using Cons.prems(1) y by (simp_all add: act_bind_def)
    then show ?thesis using one by simp
  next
    case (Inr x)
    obtain z s2 where z: "react_rules env e now rs s1 = (z, s2)" by fastforce
    have more: "windows_live env s2 \<and> windows_kept s1 s2 \<and> (\<forall>xs. z = Inr xs \<longrightarrow> fresh_keys s1 s2 xs)"
      using Cons.IH[OF z] one by blast
    have t: "t = s2" "res = (case z of Inl er \<Rightarrow> Inl er | Inr xs \<Rightarrow> Inr (x # xs))"
      using Cons.prems(1) y Inr z by (auto simp: act_bind_def split: sum.splits)
    have "fresh_keys s t (x # xs)" if xs: "z = Inr xs" for xs
    proof -
      have rest: "fresh_keys s1 t xs" using more xs t(1) by blast
      have "dict_get (rx_idempotency s) (execution_key a) = None" if "a \<in> set xs" "rex_executed a" for a
        using rest that one unfolding fresh_keys_def windows_kept_def by blast
      moreover have "execution_key a \<noteq> execution_key x" if "a \<in> set xs" "rex_executed a" "rex_executed x" for a
        using rest that one Inr unfolding fresh_keys_def by metis
      moreover have "dict_get (rx_idempotency t) (execution_key x) \<noteq> None" if "rex_executed x"
        using one Inr more t(1) that unfolding windows_kept_def by blast
      ultimately show ?thesis using rest one Inr unfolding fresh_keys_def by (auto simp: image_iff)
    qed
    then show ?thesis using more one t windows_kept_trans by (auto split: sum.splits)
  qed
qed

section \<open>Pressure\<close>

definition within_policy :: "backpressure_policy \<Rightarrow> reaction_engine \<Rightarrow> bool" where
  "within_policy p s \<longleftrightarrow> rx_backpressure s = Some p \<and> 0 \<le> rx_active s \<and> rx_active s \<le> bp_max_concurrent p \<and>
     0 \<le> rx_window s \<and> rx_window s \<le> bp_max_per_window p"

lemma idle_pressure: "idle_step env key s u \<Longrightarrow> within_policy p s \<Longrightarrow> within_policy p u"
  by (auto simp: idle_step_def within_policy_def)

lemma react_rule_pressure:
  assumes "react_rule env e now r s = (res, t)" and "within_policy p s"
  shows "within_policy p t"
  by (rule react_rule_cases[OF assms(1)]; use idle_pressure[OF _ assms(2)] in
      \<open>fastforce simp: within_policy_def pressure_free_def record_throughput_def\<close>)

text \<open>A window that has never started and is full: nothing is ever carried out again.\<close>

definition stuck_window :: "backpressure_policy \<Rightarrow> reaction_engine \<Rightarrow> bool" where
  "stuck_window p s \<longleftrightarrow> rx_backpressure s = Some p \<and> rx_window_start s = [] \<and> bp_max_per_window p \<le> rx_window s"

lemma idle_stuck: "idle_step env key s u \<Longrightarrow> stuck_window p s \<Longrightarrow> stuck_window p u \<and> \<not> pressure_free u"
  by (auto simp: idle_step_def stuck_window_def pressure_free_def)

lemma react_rule_stuck:
  assumes "react_rule env e now r s = (res, t)" and "stuck_window p s"
  shows "stuck_window p t \<and> (\<forall>x. res = Inr x \<longrightarrow> rg_verdict (rex_gate_result x) \<noteq> RV_PROCEED)"
  by (rule react_rule_cases[OF assms(1)]; use idle_stuck[OF _ assms(2)] in \<open>fastforce simp: stuck_window_def held_back_def\<close>)

section \<open>Records\<close>

definition file_all :: "reaction_execution list \<Rightarrow> (string, reaction_execution) pydict \<Rightarrow> (string, reaction_execution) pydict" where
  "file_all xs d = fold (\<lambda>x. dict_set (rex_execution_id x) x) xs d"

abbreviation verdict_of_rule :: "reaction_env \<Rightarrow> event_record \<Rightarrow> reaction_rule \<Rightarrow> reaction_execution \<Rightarrow> bool" where
  "verdict_of_rule env e r x \<equiv> held_back e r x \<or> carried_out env e r x"

lemma react_rule_records:
  assumes "react_rule env e now r s = (res, t)"
  shows "rx_rules t = rx_rules s \<and> rx_decisions t = rx_decisions s \<and> rx_backpressure t = rx_backpressure s \<and>
    (case res of Inl er \<Rightarrow> rx_executions t = rx_executions s
     | Inr x \<Rightarrow> verdict_of_rule env e r x \<and> rx_executions t = dict_set (rex_execution_id x) x (rx_executions s))"
  by (rule react_rule_cases[OF assms]) (auto simp: idle_step_def record_throughput_def)

lemma react_rules_keep:
  assumes "react_rules env e now rs s = (res, t)"
    and "\<And>r s res t. react_rule env e now r s = (res, t) \<Longrightarrow> P s \<Longrightarrow> P t \<and> (\<forall>x. res = Inr x \<longrightarrow> Q x)" and "P s"
  shows "P t \<and> (\<forall>xs. res = Inr xs \<longrightarrow> (\<forall>x \<in> set xs. Q x))"
  using assms(1,3)
proof (induction rs arbitrary: s t res)
  case (Cons r rs)
  obtain y s1 where y: "react_rule env e now r s = (y, s1)" by fastforce
  note one = assms(2)[OF y Cons.prems(2)]
  show ?case
  proof (cases y)
    case (Inr x)
    obtain z s2 where z: "react_rules env e now rs s1 = (z, s2)" by fastforce
    then show ?thesis using Cons.IH[OF z] one Cons.prems(1) y Inr by (auto simp: act_bind_def split: sum.splits)
  qed (use one y Cons.prems(1) in \<open>auto simp: act_bind_def\<close>)
qed auto

lemma react_rules_records:
  assumes "react_rules env e now rs s = (Inr xs, t)"
  shows "list_all2 (verdict_of_rule env e) rs xs \<and> rx_executions t = file_all xs (rx_executions s)"
  using assms
proof (induction rs arbitrary: s t xs)
  case (Cons r rs)
  obtain y s1 where y: "react_rule env e now r s = (y, s1)" by fastforce
  obtain x where x: "y = Inr x" using Cons.prems y by (cases y) (auto simp: act_bind_def)
  obtain zs where z: "react_rules env e now rs s1 = (Inr zs, t)" "xs = x # zs"
    using Cons.prems y x by (auto simp: act_bind_def split: sum.splits prod.splits)
  show ?case using Cons.IH[OF z(1)] react_rule_records[OF y] x z(2) by (simp add: file_all_def)
qed (auto simp: file_all_def)

lemma react_rules_same:
  assumes "react_rules env e now rs s = (res, t)"
  shows "rx_rules t = rx_rules s \<and> rx_decisions t = rx_decisions s \<and> rx_backpressure t = rx_backpressure s"
proof -
  let ?P = "\<lambda>t. rx_rules t = rx_rules s \<and> rx_decisions t = rx_decisions s \<and> rx_backpressure t = rx_backpressure s"
  have "?P t \<and> (\<forall>xs. res = Inr xs \<longrightarrow> (\<forall>x \<in> set xs. True))"
    by (rule react_rules_keep[OF assms, of ?P "\<lambda>_. True"]) (use react_rule_records in fastforce)+
  then show ?thesis by blast
qed

text \<open>Which rules are matched.\<close>

lemma match_among_filter:
  "match_among e rs = Inr ms \<Longrightarrow>
   ms = filter (\<lambda>r. rr_event_type r = event_type_value (ev_event_type e) \<and> all_conditions (rr_conditions r) (ev_payload e) = Inr True) rs"
  by (induction rs arbitrary: ms) (auto simp: py_bind_Inr_iff split: if_splits)

text \<open>What a call of \<open>react\<close> does.\<close>

lemma react_cases:
  assumes "react env e s = (res, t)"
  obtains (raised) er u where "res = Inl er" and "t = s\<lparr>rx_reads := Suc (rx_reads s)\<rparr> \<or>
      (\<exists>now ms y. react_rules env e now ms (s\<lparr>rx_reads := Suc (rx_reads s)\<rparr>) = (y, t))"
  | (decided) now ms xs u i d where "match_rules s e = Inr ms" and "now = re_clock env (rx_reads s)"
      and "react_rules env e now ms (s\<lparr>rx_reads := Suc (rx_reads s)\<rparr>) = (Inr xs, u)"
      and "res = Inr d" and "t = u\<lparr>rx_decisions := dict_set (rdn_decision_id d) d (rx_decisions u)\<rparr>"
      and "rdn_executions d = xs" and "rdn_rules_matched d = int (length ms)"
      and "rdn_rules_evaluated d = int (length (list_rules s True))"
      and "rdn_rules_executed d = count_executions (\<lambda>v. v = RV_PROCEED) xs"
      and "rdn_rules_deferred d = count_executions (\<lambda>v. v = RV_DEFER) xs"
      and "rdn_rules_rejected d = count_executions (\<lambda>v. v \<noteq> RV_PROCEED \<and> v \<noteq> RV_DEFER) xs"
proof -
  let ?s = "s\<lparr>rx_reads := Suc (rx_reads s)\<rparr>"
  let ?now = "re_clock env (rx_reads s)"
  have m: "match_rules ?s e = match_rules s e" "list_rules ?s b = list_rules s b" for b by (simp_all add: match_rules_def list_rules_def)
  show thesis
  proof (cases "match_rules s e")
    case (Inl er)
    then have "res = Inl er \<and> t = ?s" using assms by (simp add: react_eq reaction_now_def m act_bind_def)
    then show thesis using raised by blast
  next
    case (Inr ms)
    obtain y u where y: "react_rules env e ?now ms ?s = (y, u)" by fastforce
    show thesis
    proof (cases y)
      case (Inl er)
      then have "res = Inl er \<and> t = u" using assms Inr y by (simp add: react_eq reaction_now_def m act_bind_def)
      then show thesis using raised y by blast
    next
      case xs: (Inr xs)
      have "\<not> blank ''rdec''" by code_simp
      then obtain i where i: "stable_identifier ''rdec'' [(''event_id'', JStr (ev_event_id e)), (''seq'', JInt (rx_seq u))] = Inr i"
        using stable_identifier_total by metis
      let ?d = "\<lparr>rdn_decision_id = i, rdn_event_id = ev_event_id e, rdn_correlation_id = ev_correlation_id e,
             rdn_rules_evaluated = int (length (list_rules s True)), rdn_rules_matched = int (length ms),
             rdn_rules_executed = count_executions (\<lambda>v. v = RV_PROCEED) xs, rdn_rules_deferred = count_executions (\<lambda>v. v = RV_DEFER) xs,
             rdn_rules_rejected = count_executions (\<lambda>v. v \<noteq> RV_PROCEED \<and> v \<noteq> RV_DEFER) xs,
             rdn_executions = xs, rdn_decided_at = ?now\<rparr>"
      have r: "(res, t) = act_bind (check_reaction_decision ?d, u) (\<lambda>d s. (Inr d, s\<lparr>rx_decisions := dict_set i d (rx_decisions s)\<rparr>))"
        using assms Inr y xs i by (simp add: react_eq reaction_now_def m act_bind_def)
      show thesis
      proof (cases "check_reaction_decision ?d")
        case (Inl er)
        then have "res = Inl er \<and> t = u" using r by (simp add: act_bind_def)
        then show thesis using raised y by blast
      next
        case (Inr d)
        then have d: "d = ?d" by (auto simp: check_reaction_decision_def py_bind_Inr_iff)
        then have "res = Inr ?d" "t = u\<lparr>rx_decisions := dict_set i ?d (rx_decisions u)\<rparr>" using r Inr by (simp_all add: act_bind_def)
        then show thesis using decided[OF \<open>match_rules s e = Inr ms\<close> refl y[unfolded xs]] by simp
      qed
    qed
  qed
qed

section \<open>Runs\<close>

text \<open>The operations of the engine; \<open>P\<close> are the policies that may be set.\<close>

inductive reaction_step :: "reaction_env \<Rightarrow> (backpressure_policy \<Rightarrow> bool) \<Rightarrow> reaction_engine \<Rightarrow> reaction_engine \<Rightarrow> bool" for env P where
  xs_register: "check_reaction_rule r = Inr r \<Longrightarrow> reaction_step env P s (snd (register_rule r s))"
| xs_unregister: "reaction_step env P s (snd (unregister_rule i s))"
| xs_policy: "P p \<Longrightarrow> check_backpressure_policy p = Inr p \<Longrightarrow> reaction_step env P s (set_backpressure p s)"
| xs_react: "reaction_step env P s (snd (react env e s))"
| xs_duplicate: "reaction_step env P s (snd (is_duplicate env i j s))"
| xs_release: "reaction_step env P s (release_active s)"
| xs_reset: "reaction_step env P s (reset_window env s)"

abbreviation reaction_run ::
  "reaction_env \<Rightarrow> (backpressure_policy \<Rightarrow> bool) \<Rightarrow> reaction_engine \<Rightarrow> reaction_engine \<Rightarrow> bool" where
  "reaction_run env P \<equiv> (reaction_step env P)\<^sup>*\<^sup>*"

lemma unregister_fields:
  "rx_idempotency (snd (unregister_rule i s)) = rx_idempotency s \<and> rx_backpressure (snd (unregister_rule i s)) = rx_backpressure s \<and>
   rx_active (snd (unregister_rule i s)) = rx_active s \<and> rx_window (snd (unregister_rule i s)) = rx_window s"
  by (auto simp: unregister_rule_def act_bind_def split: sum.split)

text \<open>A property of the states between the verdicts survives a reaction.\<close>

lemma react_keeps:
  assumes "react env e s = (res, t)" and "P s"
    and "\<And>now ms y u s. react_rules env e now ms s = (y, u) \<Longrightarrow> P s \<Longrightarrow> P u"
    and "\<And>s n. P s \<Longrightarrow> P (s\<lparr>rx_reads := n\<rparr>)" and "\<And>s d. P s \<Longrightarrow> P (s\<lparr>rx_decisions := d\<rparr>)"
  shows "P t"
  by (rule react_cases[OF assms(1)]) (use assms(2-5) in blast)+

lemma react_within: "react env e s = (res, t) \<Longrightarrow> within_policy p s \<Longrightarrow> within_policy p t"
  by (rule react_keeps) (use react_rules_keep[where P = "within_policy p" and Q = "\<lambda>_. True"] react_rule_pressure in
      \<open>fastforce simp: within_policy_def\<close>)+

lemma react_windows:
  assumes "react env e s = (res, t)" and "never_expires env" and "windows_live env s"
  shows "windows_live env t \<and> windows_kept s t"
  using assms(1)
proof (rule react_keeps)
  show "windows_live env s \<and> windows_kept s s" using assms(3) windows_kept_refl by blast
  show "windows_live env v \<and> windows_kept s v"
    if "react_rules env e now ms u = (y, v)" "windows_live env u \<and> windows_kept s u" for now ms y u v
    using react_rules_windows[OF that(1) assms(2)] that(2) windows_kept_trans by blast
qed (auto simp: windows_live_def windows_kept_def)

lemma step_windows:
  assumes "reaction_step env P s t" and "never_expires env" and "windows_live env s"
  shows "windows_live env t \<and> windows_kept s t"
  using assms(1)
proof cases
  case (xs_register r)
  then show ?thesis using assms(3) by (auto simp: register_rule_def windows_live_def windows_kept_def)
next
  case (xs_unregister i)
  then show ?thesis using assms(3) unregister_fields by (simp add: windows_live_def windows_kept_def)
next
  case (xs_react e)
  then show ?thesis using react_windows[OF prod.collapse[symmetric] assms(2,3)] by blast
next
  case (xs_duplicate i j)
  have "idle_step env (window_key i j) s t" using duplicate_idle(1)[OF prod.collapse[symmetric]] xs_duplicate by blast
  then show ?thesis using idle_windows[OF _ assms(2,3)] assms(3) by (simp add: windows_live_def windows_kept_def)
qed (use assms(3) in \<open>auto simp: windows_live_def windows_kept_def set_backpressure_def release_active_def reset_window_def reaction_now_def Let_def\<close>)

lemma run_windows:
  assumes "reaction_run env P s t" and "never_expires env" and "windows_live env s"
  shows "windows_live env t \<and> windows_kept s t"
  using assms(1)
proof (induction rule: rtranclp_induct)
  case base
  show ?case using assms(3) windows_kept_refl by blast
next
  case (step t u)
  then show ?case using step_windows[OF step(2) assms(2)] windows_kept_trans by blast
qed

lemma step_pressure:
  assumes "reaction_step env ((=) p) s t" and "within_policy p s"
  shows "within_policy p t"
  using assms(1)
proof cases
  case (xs_register r)
  then show ?thesis using assms(2) by (auto simp: register_rule_def within_policy_def)
next
  case (xs_unregister i)
  then show ?thesis using assms(2) unregister_fields by (simp add: within_policy_def)
next
  case (xs_react e)
  then show ?thesis using react_within[OF prod.collapse[symmetric] assms(2)] by blast
next
  case (xs_duplicate i j)
  have "idle_step env (window_key i j) s t" using duplicate_idle(1)[OF prod.collapse[symmetric]] xs_duplicate by blast
  then show ?thesis using idle_pressure assms(2) by blast
qed (use assms(2) in \<open>auto simp: within_policy_def set_backpressure_def release_active_def reset_window_def reaction_now_def Let_def\<close>)

section \<open>Properties\<close>

text \<open>
  C31: a reaction that decides evaluates exactly the enabled rules of the event's type whose conditions
  hold, in order of priority, one record for each: carried out only if the gate itself answered with
  proceed, otherwise held back.  The record and the decision are filed, and the loop's three counters are
  the numbers of records carried out, deferred and rejected.
\<close>

theorem reaction_accounts:
  assumes "react env e s = (Inr d, t)"
  shows "\<exists>ms. ms = filter (\<lambda>r. rr_event_type r = event_type_value (ev_event_type e) \<and>
        all_conditions (rr_conditions r) (ev_payload e) = Inr True) (list_rules s True) \<and>
    list_all2 (verdict_of_rule env e) ms (rdn_executions d) \<and>
    rx_executions t = file_all (rdn_executions d) (rx_executions s) \<and>
    rx_decisions t = dict_set (rdn_decision_id d) d (rx_decisions s) \<and> rx_rules t = rx_rules s \<and>
    rdn_rules_executed d = int (length (filter rex_executed (rdn_executions d))) \<and>
    rdn_rules_deferred d = int (length (filter (\<lambda>x. rg_verdict (rex_gate_result x) = RV_DEFER) (rdn_executions d))) \<and>
    rdn_rules_matched d = rdn_rules_executed d + rdn_rules_deferred d + rdn_rules_rejected d \<and>
    rdn_rules_matched d = int (length (rdn_executions d))"
proof (rule react_cases[OF assms])
  fix now ms xs u i d'
  assume a: "match_rules s e = Inr ms" "react_rules env e now ms (s\<lparr>rx_reads := Suc (rx_reads s)\<rparr>) = (Inr xs, u)" "Inr d = Inr d'"
    "t = u\<lparr>rx_decisions := dict_set (rdn_decision_id d') d' (rx_decisions u)\<rparr>" "rdn_executions d' = xs"
    "rdn_rules_matched d' = int (length ms)" "rdn_rules_executed d' = count_executions (\<lambda>v. v = RV_PROCEED) xs"
    "rdn_rules_deferred d' = count_executions (\<lambda>v. v = RV_DEFER) xs"
    "rdn_rules_rejected d' = count_executions (\<lambda>v. v \<noteq> RV_PROCEED \<and> v \<noteq> RV_DEFER) xs"
  note rec = react_rules_records[OF a(2)]
  have same: "rx_rules u = rx_rules s" "rx_decisions u = rx_decisions s" using react_rules_same[OF a(2)] by simp_all
  have len: "length ms = length xs" using rec list_all2_lengthD by blast
  have "\<forall>x \<in> set xs. rg_verdict (rex_gate_result x) = RV_PROCEED \<longleftrightarrow> rex_executed x"
    using rec by (auto simp: list_all2_conv_all_nth in_set_conv_nth held_back_def carried_out_def)
  then have f: "filter (\<lambda>x. rg_verdict (rex_gate_result x) = RV_PROCEED) xs = filter rex_executed xs" by (intro filter_cong) auto
  have sum: "count_executions (\<lambda>v. v = RV_PROCEED) xs + count_executions (\<lambda>v. v = RV_DEFER) xs +
      count_executions (\<lambda>v. v \<noteq> RV_PROCEED \<and> v \<noteq> RV_DEFER) xs = int (length xs)"
    by (induction xs) (auto simp: count_executions_def)
  have m: "ms = filter (\<lambda>r. rr_event_type r = event_type_value (ev_event_type e) \<and>
        all_conditions (rr_conditions r) (ev_payload e) = Inr True) (list_rules s True)"
    using match_among_filter a(1) unfolding match_rules_def by blast
  have d: "d' = d" using a(3) by simp
  have "rx_executions t = file_all xs (rx_executions s)" "rx_decisions t = dict_set (rdn_decision_id d) d (rx_decisions s)"
    "rx_rules t = rx_rules s"
    using a(4) rec same by (simp_all add: d)
  moreover have "rdn_rules_executed d = int (length (filter rex_executed xs))"
    "rdn_rules_deferred d = int (length (filter (\<lambda>x. rg_verdict (rex_gate_result x) = RV_DEFER) xs))"
    using a(7,8) f by (simp_all add: d count_executions_def)
  moreover have "rdn_rules_matched d = rdn_rules_executed d + rdn_rules_deferred d + rdn_rules_rejected d"
    "rdn_rules_matched d = int (length xs)"
    using a(6-9) sum len by (simp_all add: d)
  moreover have "list_all2 (verdict_of_rule env e) ms (rdn_executions d)" "rdn_executions d = xs"
    using rec a(5) by (simp_all only: d)
  ultimately show ?thesis using m by (intro exI[of _ ms] conjI) (simp_all only:)
qed simp

text \<open>
  C32: no event is reacted to twice by one rule: if a reaction carried out a rule for an event, no later
  reaction of the run does, and one decision does not repeat it either - as long as the clock does not
  reach the expiry of the windows.
\<close>

theorem reaction_once:
  assumes "reaction_run env P reactions_init s" and "react env e s = (Inr d, t)" and "reaction_run env P t u"
    and "react env e' u = (Inr d', v)" and "never_expires env"
  shows "distinct (map execution_key (filter rex_executed (rdn_executions d))) \<and>
    (\<forall>x \<in> set (rdn_executions d). \<forall>y \<in> set (rdn_executions d'). rex_executed x \<and> rex_executed y \<longrightarrow>
       execution_key x \<noteq> execution_key y)"
proof -
  have fresh: "\<exists>r. fresh_keys s r (rdn_executions d) \<and> rx_idempotency t = rx_idempotency r"
    if "react env e s = (Inr d, t)" "windows_live env s" for s d t e
  proof (rule react_cases[OF that(1)])
    fix now ms xs u i d'
    assume a: "react_rules env e now ms (s\<lparr>rx_reads := Suc (rx_reads s)\<rparr>) = (Inr xs, u)" "Inr d = Inr d'"
      "t = u\<lparr>rx_decisions := dict_set (rdn_decision_id d') d' (rx_decisions u)\<rparr>" "rdn_executions d' = xs"
    have "windows_live env (s\<lparr>rx_reads := Suc (rx_reads s)\<rparr>)" using that(2) by (simp add: windows_live_def)
    then have "fresh_keys (s\<lparr>rx_reads := Suc (rx_reads s)\<rparr>) u xs" using react_rules_windows[OF a(1) assms(5)] by blast
    then show ?thesis using a by (auto simp: fresh_keys_def)
  qed simp
  have "windows_live env reactions_init" by (simp add: windows_live_def reactions_init_def)
  then have s: "windows_live env s" using run_windows[OF assms(1,5)] by blast
  then have t: "windows_live env t" using react_windows[OF assms(2,5)] by blast
  have u: "windows_live env u" "windows_kept t u" using run_windows[OF assms(3,5) t] by blast+
  obtain r where r: "fresh_keys s r (rdn_executions d)" "rx_idempotency t = rx_idempotency r"
    using fresh[OF assms(2) s] by (elim exE conjE)
  obtain w where w: "fresh_keys u w (rdn_executions d')" using fresh[OF assms(4) u(1)] by (elim exE conjE)
  have "execution_key x \<noteq> execution_key y"
    if "x \<in> set (rdn_executions d)" "y \<in> set (rdn_executions d')" "rex_executed x" "rex_executed y" for x y
  proof -
    have "dict_get (rx_idempotency t) (execution_key x) \<noteq> None" using r that(1,3) unfolding fresh_keys_def by metis
    then have "dict_get (rx_idempotency u) (execution_key x) \<noteq> None" using u(2) unfolding windows_kept_def by blast
    moreover have "dict_get (rx_idempotency u) (execution_key y) = None" using w that(2,4) unfolding fresh_keys_def by blast
    ultimately show ?thesis by metis
  qed
  then show ?thesis using r(1) unfolding fresh_keys_def by blast
qed

text \<open>
  C33: under one backpressure policy the running reactions never exceed its concurrency limit, and the
  reactions counted in the current window never exceed the window's limit.
\<close>

theorem reactions_bounded:
  assumes "check_backpressure_policy p = Inr p" and "reaction_run env ((=) p) (set_backpressure p reactions_init) s"
  shows "rx_backpressure s = Some p \<and> 0 \<le> rx_active s \<and> rx_active s \<le> bp_max_concurrent p \<and>
    0 \<le> rx_window s \<and> rx_window s \<le> bp_max_per_window p"
proof -
  have "within_policy p s" using assms(2)
  proof (induction rule: rtranclp_induct)
    case base
    show ?case using assms(1)
      by (auto simp: within_policy_def set_backpressure_def reactions_init_def check_backpressure_policy_def py_bind_Inr_iff validators)
  next
    case (step t u)
    then show ?case using step_pressure by blast
  qed
  then show ?thesis by (simp add: within_policy_def)
qed

section \<open>A reaction returns\<close>

text \<open>Texts the environment and the event supply, as their contracts demand them.\<close>

definition reaction_texts :: "reaction_env \<Rightarrow> event_record \<Rightarrow> reaction_engine \<Rightarrow> bool" where
  "reaction_texts env e s \<longleftrightarrow>
     (\<forall>n. \<not> blank (re_clock env n) \<and> iso_text (re_clock env n)) \<and> \<not> blank (re_expiry env) \<and> iso_text (re_expiry env) \<and>
     \<not> blank (ev_event_id e) \<and> \<not> blank (ev_correlation_id e) \<and> (\<forall>r \<in> set (dict_values (rx_rules s)). \<not> blank (rr_rule_id r))"

lemma own_gate_total:
  assumes "\<not> blank (ev_event_id e)" and "\<not> blank (rr_rule_id r)" and "\<not> blank now" and "iso_text now" and "\<not> blank reason"
  shows "\<exists>g. own_gate_result e r p v fine reason now = Inr g"
proof -
  have "\<not> blank ''gate''" by code_simp
  then obtain i where "stable_identifier ''gate'' ([(''event_id'', JStr (ev_event_id e)), (''rule_id'', JStr (rr_rule_id r))] @ p) = Inr i" "\<not> blank i"
    using stable_identifier_total by metis
  then show ?thesis using assms
    by (auto simp: own_gate_result_def check_gate_result_def py_bind_Inr_iff validators)
qed

lemma file_total:
  assumes "\<not> blank (ev_event_id e)" and "\<not> blank (ev_correlation_id e)" and "\<not> blank (rr_rule_id r)" and "\<not> blank now" and "iso_text now"
    and "\<not> blank i"
  shows "\<exists>x t. file_execution e r i g b ref notes now s = (Inr x, t) \<and> rex_executed x = b"
  using assms by (auto simp: file_execution_def check_reaction_execution_def act_bind_def py_bind_Inr_iff validators
      require_non_empty_text_def require_datetime_text_def)

lemma react_rule_total:
  assumes "reaction_texts env e s0" and "r \<in> set (dict_values (rx_rules s0))" and "\<not> blank now" and "iso_text now"
  shows "\<exists>x t. react_rule env e now r s = (Inr x, t) \<and>
    (dict_get (rx_idempotency s) (window_key (ev_event_id e) (rr_rule_id r)) = None \<and> rx_backpressure s = None \<and>
     (\<exists>g. re_gate env (rx_gates s) e r = Inr g \<and> rg_verdict g = RV_PROCEED) \<longrightarrow> rex_executed x)"
proof -
  have ids: "\<not> blank (ev_event_id e)" "\<not> blank (ev_correlation_id e)" "\<not> blank (rr_rule_id r)"
    using assms(1,2) unfolding reaction_texts_def by blast+
  define seq where "seq = rx_seq s + 1"
  let ?s1 = "s\<lparr>rx_seq := seq\<rparr>"
  obtain i where i: "stable_identifier ''rxn'' [(''event_id'', JStr (ev_event_id e)), (''rule_id'', JStr (rr_rule_id r)), (''seq'', JInt seq)] = Inr i"
    "\<not> blank i"
  proof -
    have "\<not> blank ''rxn''" by code_simp
    from stable_identifier_total[OF this] show ?thesis using that by metis
  qed
  have f: "\<exists>x t. file_execution e r i g b ref nt now u = (Inr x, t) \<and> rex_executed x = b" for g b ref nt u
    by (rule file_total[OF ids assms(3,4) i(2)])
  have reasons: "\<not> blank ''duplicate event -- idempotency window active''" "\<not> blank ''backpressure limit reached -- deferring''"
    "\<not> blank (''gate callback error ('' @ py_error_name er @ '')'')" for er
    by (code_simp, code_simp, simp add: blank_iff py_isspace_def)
  have own: "\<exists>x t. act_bind (own_gate_result e r [(''seq'', JInt seq)] v True m now, u)
      (\<lambda>g s. file_execution e r i g False ''none'' nt now s) = (Inr x, t)" if "\<not> blank m" for v m nt u
    using own_gate_total[OF ids(1,3) assms(3,4) that, of "[(''seq'', JInt seq)]" v True] f by (fastforce simp: act_bind_def)
  obtain b s2 where d: "is_duplicate env (ev_event_id e) (rr_rule_id r) ?s1 = (b, s2)" by fastforce
  obtain fr s3 where p: "check_backpressure env s2 = (fr, s3)" by fastforce
  obtain y s4 where g: "call_gate env e r seq now s3 = (y, s4)" by fastforce
  have y: "\<exists>g. y = Inr g" using g own_gate_total[OF ids(1,3) assms(3,4) reasons(3)]
    by (auto simp: call_gate_def Let_def split: sum.splits) metis
  have rec: "\<exists>w u. record_idempotency env (ev_event_id e) (rr_rule_id r) i (record_throughput s4) = (Inr w, u)"
  proof -
    have "\<not> blank ''idem''" by code_simp
    then obtain j where "stable_identifier ''idem'' [(''event_id'', JStr (ev_event_id e)), (''rule_id'', JStr (rr_rule_id r))] = Inr j" "\<not> blank j"
      using stable_identifier_total by metis
    then show ?thesis using assms(1) ids i(2)
      by (auto simp: record_idempotency_def check_idempotency_window_def reaction_now_def act_bind_def Let_def reaction_texts_def
          require_non_empty_text_def require_datetime_text_def)
  qed
  note rule = react_rule_eq[of env e now r s, unfolded Let_def, folded seq_def, unfolded i(1) act_bind_def[of "(Inr i, _)"], simplified d split_conv sum.case prod.case]
  show ?thesis
  proof (cases b)
    case True
    then have "dict_get (rx_idempotency s) (window_key (ev_event_id e) (rr_rule_id r)) \<noteq> None"
      using d by (auto simp: is_duplicate_def reaction_now_def Let_def split: option.splits if_splits)
    then show ?thesis using rule True own[OF reasons(1)] by auto
  next
    case nd: False
    show ?thesis
    proof (cases fr)
      case False
      have "rx_backpressure s \<noteq> None"
        using p False d by (auto simp: check_backpressure_def is_duplicate_def reaction_now_def Let_def split: option.splits if_splits)
      then show ?thesis using rule nd p False own[OF reasons(2)] by auto
    next
      case True
      obtain gr where gr: "y = Inr gr" using y by blast
      show ?thesis
      proof (cases "rg_verdict gr = RV_PROCEED")
        case True
        obtain w u where "record_idempotency env (ev_event_id e) (rr_rule_id r) i (record_throughput s4) = (Inr w, u)" using rec by blast
        then show ?thesis using rule nd p \<open>fr\<close> g gr True f[of gr True i "''executed successfully''" u] by (auto simp: act_bind_def)
      next
        case False
        have "\<not> (dict_get (rx_idempotency s) (window_key (ev_event_id e) (rr_rule_id r)) = None \<and> rx_backpressure s = None \<and>
            (\<exists>g. re_gate env (rx_gates s) e r = Inr g \<and> rg_verdict g = RV_PROCEED))"
        proof
          assume a: "dict_get (rx_idempotency s) (window_key (ev_event_id e) (rr_rule_id r)) = None \<and> rx_backpressure s = None \<and>
            (\<exists>g. re_gate env (rx_gates s) e r = Inr g \<and> rg_verdict g = RV_PROCEED)"
          then have "s2 = ?s1" using d by (simp add: is_duplicate_def)
          then have "s3 = ?s1" using p a by (simp add: check_backpressure_def)
          then have "rg_verdict gr = RV_PROCEED" using g gr a by (auto simp: call_gate_def Let_def)
          then show False using False by simp
        qed
        moreover have "\<exists>x t. react_rule env e now r s = (Inr x, t)"
          using rule nd p \<open>fr\<close> g gr False f[of gr False "''none''"] by (auto simp: act_bind_def) metis+
        ultimately show ?thesis by blast
      qed
    qed
  qed
qed

lemma react_rules_total:
  assumes "reaction_texts env e s0" and "set rs \<subseteq> set (dict_values (rx_rules s0))" and "\<not> blank now" and "iso_text now"
  shows "\<exists>xs t. react_rules env e now rs s = (Inr xs, t)"
  using assms(2)
proof (induction rs arbitrary: s)
  case (Cons r rs)
  obtain x s1 where x: "react_rule env e now r s = (Inr x, s1)" using react_rule_total[OF assms(1) _ assms(3,4)] Cons.prems by fastforce
  obtain xs t where "react_rules env e now rs s1 = (Inr xs, t)" using Cons by fastforce
  then show ?case using x by (simp add: act_bind_def)
qed simp

lemma matched_rules: "match_rules s e = Inr ms \<Longrightarrow> set ms \<subseteq> set (dict_values (rx_rules s))"
  using match_among_filter[of e "list_rules s True" ms] by (auto simp: match_rules_def list_rules_def)

lemma react_decides:
  assumes "reaction_texts env e s" and "match_rules s e = Inr ms"
  shows "\<exists>d t. react env e s = (Inr d, t)"
proof -
  let ?s = "s\<lparr>rx_reads := Suc (rx_reads s)\<rparr>"
  let ?now = "re_clock env (rx_reads s)"
  have now: "\<not> blank ?now" "iso_text ?now" using assms(1) by (simp_all add: reaction_texts_def)
  have m: "match_rules ?s e = match_rules s e" "list_rules ?s b = list_rules s b" for b by (simp_all add: match_rules_def list_rules_def)
  obtain xs u where u: "react_rules env e ?now ms ?s = (Inr xs, u)"
    using react_rules_total[OF assms(1) matched_rules[OF assms(2)] now] by blast
  have "\<not> blank ''rdec''" by code_simp
  then obtain i where i: "stable_identifier ''rdec'' [(''event_id'', JStr (ev_event_id e)), (''seq'', JInt (rx_seq u))] = Inr i" "\<not> blank i"
    using stable_identifier_total by metis
  show ?thesis using assms u i now
    by (simp add: react_eq reaction_now_def m act_bind_def check_reaction_decision_def reaction_texts_def count_executions_def
        require_non_empty_text_def require_datetime_text_def require_non_negative_int_def)
qed

lemma match_among_raises:
  "(\<exists>er. match_among e rs = Inl er) \<longleftrightarrow>
   (\<exists>r \<in> set rs. rr_event_type r = event_type_value (ev_event_type e) \<and> (\<exists>er. all_conditions (rr_conditions r) (ev_payload e) = Inl er))"
proof (induction rs)
  case (Cons r rs)
  show ?case
    using Cons by (cases "all_conditions (rr_conditions r) (ev_payload e)"; cases "match_among e rs") (auto split: if_splits)
qed simp

text \<open>
  C34: with texts of clock, expiry, event and rules that their contracts accept, a reaction comes back
  with a decision whatever the gate does, also if it raises, exactly when the conditions of the rules for the
  event can be evaluated.  Otherwise the error of the evaluation is what the reaction raises, and nothing
  but a reading of the clock has happened: no rule was carried out or filed.
\<close>

theorem reaction_returns:
  assumes "reaction_texts env e s"
  shows "((\<exists>d. fst (react env e s) = Inr d) \<longleftrightarrow>
      (\<forall>r \<in> set (list_rules s True). rr_event_type r = event_type_value (ev_event_type e) \<longrightarrow>
         (\<exists>b. all_conditions (rr_conditions r) (ev_payload e) = Inr b))) \<and>
    (case match_rules s e of
       Inr ms \<Rightarrow> \<exists>d t. react env e s = (Inr d, t) \<and> rdn_rules_matched d = int (length ms)
     | Inl er \<Rightarrow> react env e s = (Inl er, s\<lparr>rx_reads := Suc (rx_reads s)\<rparr>))"
proof -
  have outcome: "case match_rules s e of
       Inr ms \<Rightarrow> \<exists>d t. react env e s = (Inr d, t) \<and> rdn_rules_matched d = int (length ms)
     | Inl er \<Rightarrow> react env e s = (Inl er, s\<lparr>rx_reads := Suc (rx_reads s)\<rparr>)"
  proof (cases "match_rules s e")
    case (Inl er)
    then have "match_rules (s\<lparr>rx_reads := Suc (rx_reads s)\<rparr>) e = Inl er" by (simp add: match_rules_def list_rules_def)
    then show ?thesis using Inl by (simp add: react_def reaction_now_def act_bind_def)
  next
    case (Inr ms)
    obtain d t where r: "react env e s = (Inr d, t)" using react_decides[OF assms Inr] by blast
    then have "rdn_rules_matched d = int (length ms)" by (rule react_cases) (use Inr in simp_all)
    then show ?thesis using r Inr by simp
  qed
  then have "(\<exists>d. fst (react env e s) = Inr d) \<longleftrightarrow> \<not> (\<exists>er. match_rules s e = Inl er)" by (auto split: sum.splits)
  also have "\<dots> \<longleftrightarrow> (\<forall>r \<in> set (list_rules s True). rr_event_type r = event_type_value (ev_event_type e) \<longrightarrow>
      (\<exists>b. all_conditions (rr_conditions r) (ev_payload e) = Inr b))"
    unfolding match_rules_def match_among_raises by (metis sum.exhaust sum.simps(4))
  finally show ?thesis using outcome by blast
qed

section \<open>What modelling showed\<close>

text \<open>Without \<open>reset_window\<close> the rate window never starts, and once it is full every reaction is deferred.\<close>

theorem full_window_stays_full:
  assumes "react env e s = (res, t)" and "stuck_window p s"
  shows "stuck_window p t \<and> (\<forall>d. res = Inr d \<longrightarrow> rdn_rules_executed d = 0)"
proof -
  have keep: "stuck_window p u \<and> (\<forall>xs. y = Inr xs \<longrightarrow> (\<forall>x \<in> set xs. rg_verdict (rex_gate_result x) \<noteq> RV_PROCEED))"
    if "react_rules env e now ms s = (y, u)" "stuck_window p s" for now ms y u s
    by (rule react_rules_keep[where P = "stuck_window p" and Q = "\<lambda>x. rg_verdict (rex_gate_result x) \<noteq> RV_PROCEED", OF that(1) _ that(2)])
       (use react_rule_stuck in blast)
  have s: "stuck_window p (s\<lparr>rx_reads := Suc (rx_reads s)\<rparr>)" using assms(2) by (simp add: stuck_window_def)
  show ?thesis
  proof (rule react_cases[OF assms(1)])
    fix er assume "res = Inl er" "t = s\<lparr>rx_reads := Suc (rx_reads s)\<rparr> \<or>
      (\<exists>now ms y. react_rules env e now ms (s\<lparr>rx_reads := Suc (rx_reads s)\<rparr>) = (y, t))"
    then show ?thesis using keep s by blast
  next
    fix now ms xs u i d
    assume a: "react_rules env e now ms (s\<lparr>rx_reads := Suc (rx_reads s)\<rparr>) = (Inr xs, u)" "res = Inr d"
      "t = u\<lparr>rx_decisions := dict_set (rdn_decision_id d) d (rx_decisions u)\<rparr>"
      "rdn_rules_executed d = count_executions (\<lambda>v. v = RV_PROCEED) xs"
    have k: "stuck_window p u" "\<forall>x \<in> set xs. rg_verdict (rex_gate_result x) \<noteq> RV_PROCEED" using keep[OF a(1) s] by blast+
    have "filter (\<lambda>x. rg_verdict (rex_gate_result x) = RV_PROCEED) xs = []" using k(2) by (simp add: filter_empty_conv)
    then show ?thesis using a k(1) by (simp add: count_executions_def stuck_window_def)
  qed
qed

text \<open>The key of a window joins two identifiers with a colon that they may contain.\<close>

theorem window_key_ambiguous:
  assumes "record_idempotency env ''a:b'' ''c'' i s = (Inr w, t)" and "never_expires env"
  shows "fst (is_duplicate env ''a'' ''b:c'' t)"
  using record_idempotency_cases[OF assms(1)] assms(2) by (auto simp: is_duplicate_def reaction_now_def Let_def not_le)

section \<open>Witnesses\<close>

definition demo_reaction_env :: reaction_env where
  "demo_reaction_env = \<lparr>re_clock = \<lambda>_. ''2024-01-02T03:04:05+00:00'', re_gate = \<lambda>_. default_reaction_gate,
     re_expiry = ''9999-12-31T23:59:59+00:00''\<rparr>"

definition demo_reaction_event :: event_record where
  "demo_reaction_event = \<lparr>ev_event_id = ''e'', ev_event_type = ET_CUSTOM, ev_source = ES_EXTERNAL, ev_correlation_id = ''c'',
     ev_payload = [(''load'', PDict [(''cpu'', PInt 90), (''host'', PStr ''db'')])], ev_emitted_at = ''2024-01-02T03:04:05+00:00''\<rparr>"

definition demo_rule :: reaction_rule where
  "demo_rule = \<lparr>rr_rule_id = ''r'', rr_name = ''hot'', rr_event_type = ''custom'',
     rr_conditions = [\<lparr>rc_condition_id = ''q'', rc_field_path = ''load.cpu'', rc_operator = ''gt'', rc_expected_value = PInt 80\<rparr>],
     rr_target = \<lparr>rt_target_id = ''t'', rt_kind = RK_NOTIFY, rt_target_ref_id = ''ops'', rt_parameters = []\<rparr>,
     rr_priority = 1, rr_enabled = True, rr_created_at = ''2024-01-01T00:00:00Z''\<rparr>"

text \<open>A condition \<open>contains\<close> with a number on a text raises out of the reaction: no rule is evaluated.\<close>

theorem contains_raises:
  "evaluate_condition \<lparr>rc_condition_id = ''q'', rc_field_path = ''load.host'', rc_operator = ''contains'', rc_expected_value = PInt 1\<rparr>
     (ev_payload demo_reaction_event) = Inl (TypeError ''in <string> requires string as left operand'')"
  by code_simp

definition demo_reactions :: reaction_engine where
  "demo_reactions = snd (register_rule demo_rule reactions_init)"

lemma demo_reactions_facts:
  "reaction_run demo_reaction_env P reactions_init demo_reactions" "never_expires demo_reaction_env"
  "reaction_texts demo_reaction_env demo_reaction_event demo_reactions"
  "match_rules demo_reactions demo_reaction_event = Inr [demo_rule]" "rx_idempotency demo_reactions = []"
  "rx_backpressure demo_reactions = None" "rx_rules demo_reactions = [(''r'', demo_rule)]"
proof -
  have "check_reaction_rule demo_rule = Inr demo_rule" by code_simp
  then show "reaction_run demo_reaction_env P reactions_init demo_reactions"
    unfolding demo_reactions_def by (intro r_into_rtranclp xs_register)
  show "never_expires demo_reaction_env" unfolding demo_reaction_env_def by simp
  have t: "\<not> blank ''2024-01-02T03:04:05+00:00''" "iso_text ''2024-01-02T03:04:05+00:00''" "\<not> blank ''9999-12-31T23:59:59+00:00''"
    "iso_text ''9999-12-31T23:59:59+00:00''" "\<not> blank ''e''" "\<not> blank ''c''" "\<not> blank ''r''" by code_simp+
  show rules: "rx_rules demo_reactions = [(''r'', demo_rule)]" "rx_idempotency demo_reactions = []" "rx_backpressure demo_reactions = None"
    by (simp_all add: demo_reactions_def register_rule_def reactions_init_def demo_rule_def)
  show "reaction_texts demo_reaction_env demo_reaction_event demo_reactions"
    using t by (simp add: reaction_texts_def rules demo_reaction_env_def demo_reaction_event_def demo_rule_def)
  show "match_rules demo_reactions demo_reaction_event = Inr [demo_rule]" by code_simp
qed

lemma default_gate_proceeds:
  "\<exists>g. default_reaction_gate demo_reaction_event demo_rule = Inr g \<and> rg_verdict g = RV_PROCEED"
proof -
  have "\<not> blank ''gate''" by code_simp
  then obtain i where i: "stable_identifier ''gate'' [(''event_id'', JStr (ev_event_id demo_reaction_event)), (''rule_id'', JStr (rr_rule_id demo_rule))] = Inr i"
    "\<not> blank i" using stable_identifier_total by metis
  have "\<not> blank (rr_rule_id demo_rule)" "\<not> blank (ev_event_id demo_reaction_event)" "\<not> blank ''default gate -- no gating logic configured''"
    "\<not> blank (ev_emitted_at demo_reaction_event)" "iso_text (ev_emitted_at demo_reaction_event)" by code_simp+
  then show ?thesis using i
    by (simp add: default_reaction_gate_def check_gate_result_def require_non_empty_text_def require_datetime_text_def
        require_unit_float_def pf_finite_def)
qed

lemma demo_reacts:
  "\<exists>d t x. react demo_reaction_env demo_reaction_event demo_reactions = (Inr d, t) \<and> rdn_executions d = [x] \<and> rex_executed x \<and>
     execution_key x = ''e:r'' \<and> match_rules t demo_reaction_event = Inr [demo_rule] \<and> reaction_texts demo_reaction_env demo_reaction_event t"
proof -
  note D = demo_reactions_facts
  obtain d t where r: "react demo_reaction_env demo_reaction_event demo_reactions = (Inr d, t)"
    using react_decides[OF D(3,4)] by blast
  show ?thesis
  proof (rule react_cases[OF r])
    fix now ms xs u i d'
    assume a: "match_rules demo_reactions demo_reaction_event = Inr ms" "now = re_clock demo_reaction_env (rx_reads demo_reactions)"
      "react_rules demo_reaction_env demo_reaction_event now ms (demo_reactions\<lparr>rx_reads := Suc (rx_reads demo_reactions)\<rparr>) = (Inr xs, u)"
      "Inr d = Inr d'" "t = u\<lparr>rx_decisions := dict_set (rdn_decision_id d') d' (rx_decisions u)\<rparr>" "rdn_executions d' = xs"
    let ?s = "demo_reactions\<lparr>rx_reads := Suc (rx_reads demo_reactions)\<rparr>"
    have now: "\<not> blank now" "iso_text now" using D(3) a(2) by (simp_all add: reaction_texts_def)
    have "\<exists>g. re_gate demo_reaction_env n demo_reaction_event demo_rule = Inr g \<and> rg_verdict g = RV_PROCEED" for n
      using default_gate_proceeds by (simp add: demo_reaction_env_def)
    moreover have "demo_rule \<in> set (dict_values (rx_rules demo_reactions))" by (simp add: D(7))
    ultimately obtain x v where x: "react_rule demo_reaction_env demo_reaction_event now demo_rule ?s = (Inr x, v)" "rex_executed x"
      using react_rule_total[OF D(3) _ now, of demo_rule ?s] D(5,6) by auto
    then have xs: "xs = [x]" "u = v" using a(1,3) D(4) by (auto simp: act_bind_def)
    have "verdict_of_rule demo_reaction_env demo_reaction_event demo_rule x" using react_rule_records[OF x(1)] by simp
    then have "execution_key x = ''e:r''" by (auto simp: held_back_def carried_out_def demo_reaction_event_def demo_rule_def)
    moreover have "rx_rules t = rx_rules demo_reactions" using react_rules_same[OF a(3)] a(5) by simp
    then have "match_rules t demo_reaction_event = Inr [demo_rule]" "reaction_texts demo_reaction_env demo_reaction_event t"
      using D(3,4) by (simp_all add: match_rules_def list_rules_def reaction_texts_def)
    ultimately show ?thesis using r a(4,6) xs x(2) by auto
  qed simp
qed

theorem reaction_accounts_witness:
  "\<exists>d t. react demo_reaction_env demo_reaction_event demo_reactions = (Inr d, t) \<and> rdn_rules_executed d = 1 \<and> rdn_rules_matched d = 1"
proof -
  obtain d t x where r: "react demo_reaction_env demo_reaction_event demo_reactions = (Inr d, t)" "rdn_executions d = [x]" "rex_executed x"
    using demo_reacts by blast
  show ?thesis using reaction_accounts[OF r(1)] r by (elim exE conjE) simp
qed

theorem reaction_once_witness:
  "\<exists>d t d' v. react demo_reaction_env demo_reaction_event demo_reactions = (Inr d, t) \<and> rdn_rules_executed d = 1 \<and>
     react demo_reaction_env demo_reaction_event t = (Inr d', v) \<and> filter rex_executed (rdn_executions d') = []"
proof -
  note D = demo_reactions_facts
  obtain d t x where r: "react demo_reaction_env demo_reaction_event demo_reactions = (Inr d, t)" "rdn_executions d = [x]" "rex_executed x"
    "execution_key x = ''e:r''" "match_rules t demo_reaction_event = Inr [demo_rule]" "reaction_texts demo_reaction_env demo_reaction_event t"
    using demo_reacts by blast
  obtain d' v where r': "react demo_reaction_env demo_reaction_event t = (Inr d', v)" using react_decides[OF r(6,5)] by blast
  have once: "\<forall>y \<in> set (rdn_executions d'). \<not> (rex_executed y \<and> execution_key y = ''e:r'')"
    using reaction_once[OF D(1) r(1) rtranclp.rtrancl_refl r' D(2)] r(2-4) by auto
  have "\<forall>y \<in> set (rdn_executions d'). execution_key y = ''e:r''"
  proof (rule react_cases[OF r'])
    fix now ms xs u i d''
    assume a: "match_rules t demo_reaction_event = Inr ms"
      "react_rules demo_reaction_env demo_reaction_event now ms (t\<lparr>rx_reads := Suc (rx_reads t)\<rparr>) = (Inr xs, u)"
      "Inr d' = Inr d''" "rdn_executions d'' = xs"
    then have "list_all2 (verdict_of_rule demo_reaction_env demo_reaction_event) [demo_rule] xs" using react_rules_records[OF a(2)] r(5) by auto
    then show ?thesis using a(3,4)
      by (auto simp: list_all2_Cons1 held_back_def carried_out_def demo_reaction_event_def demo_rule_def)
  qed simp
  then have "filter rex_executed (rdn_executions d') = []" using once by (auto simp: filter_empty_conv)
  moreover have "rdn_rules_executed d = 1"
  proof (rule react_cases[OF r(1)])
    fix now ms xs u i d''
    assume a: "match_rules demo_reactions demo_reaction_event = Inr ms"
      "react_rules demo_reaction_env demo_reaction_event now ms (demo_reactions\<lparr>rx_reads := Suc (rx_reads demo_reactions)\<rparr>) = (Inr xs, u)"
      "Inr d = Inr d''" "rdn_executions d'' = xs" "rdn_rules_executed d'' = count_executions (\<lambda>v. v = RV_PROCEED) xs"
    have "list_all2 (verdict_of_rule demo_reaction_env demo_reaction_event) ms xs" using react_rules_records[OF a(2)] by blast
    then show ?thesis using a(3-5) r(2,3)
      by (auto simp: count_executions_def list_all2_Cons2 held_back_def carried_out_def)
  qed simp
  ultimately show ?thesis using r(1) r' by blast
qed

definition demo_policy :: backpressure_policy where
  "demo_policy = \<lparr>bp_policy_id = ''p'', bp_max_concurrent = 2, bp_max_per_window = 3, bp_window_seconds = 60,
     bp_strategy = BS_RATE_LIMIT\<rparr>"

text \<open>A run with a rule, two reactions and a release.\<close>

theorem reactions_bounded_witness:
  "\<exists>s1 s2 s3 s4. s1 = snd (register_rule demo_rule (set_backpressure demo_policy reactions_init)) \<and>
     s2 = snd (react demo_reaction_env demo_reaction_event s1) \<and>
     s3 = snd (react demo_reaction_env (demo_reaction_event\<lparr>ev_event_id := ''e2''\<rparr>) s2) \<and> s4 = release_active s3 \<and>
     reaction_run demo_reaction_env ((=) demo_policy) (set_backpressure demo_policy reactions_init) s4 \<and>
     rx_active s3 \<le> 2 \<and> rx_window s3 \<le> 3 \<and> 0 \<le> rx_active s4 \<and> rx_active s4 \<le> 2"
proof -
  let ?s = "set_backpressure demo_policy reactions_init"
  let ?s1 = "snd (register_rule demo_rule ?s)"
  let ?s2 = "snd (react demo_reaction_env demo_reaction_event ?s1)"
  let ?s3 = "snd (react demo_reaction_env (demo_reaction_event\<lparr>ev_event_id := ''e2''\<rparr>) ?s2)"
  have p: "check_backpressure_policy demo_policy = Inr demo_policy" by code_simp
  have "check_reaction_rule demo_rule = Inr demo_rule" by code_simp
  then have "reaction_run demo_reaction_env ((=) demo_policy) ?s ?s1" by (intro r_into_rtranclp xs_register)
  then have "reaction_run demo_reaction_env ((=) demo_policy) ?s ?s2" by (rule rtranclp.rtrancl_into_rtrancl) (rule xs_react)
  then have run: "reaction_run demo_reaction_env ((=) demo_policy) ?s ?s3" by (rule rtranclp.rtrancl_into_rtrancl) (rule xs_react)
  then have run4: "reaction_run demo_reaction_env ((=) demo_policy) ?s (release_active ?s3)"
    by (rule rtranclp.rtrancl_into_rtrancl) (rule xs_release)
  have "bp_max_concurrent demo_policy = 2" "bp_max_per_window demo_policy = 3" by (simp_all add: demo_policy_def)
  then show ?thesis using reactions_bounded[OF p run] reactions_bounded[OF p run4] run4 by auto
qed

text \<open>The demonstration rule lets the reaction decide; with a condition that raises, the reaction raises.\<close>

definition demo_raising :: reaction_engine where
  "demo_raising = snd (register_rule (demo_rule\<lparr>rr_conditions := [\<lparr>rc_condition_id = ''q'', rc_field_path = ''load.host'',
     rc_operator = ''contains'', rc_expected_value = PInt 1\<rparr>]\<rparr>) reactions_init)"

theorem reaction_returns_witness:
  "(\<exists>d t. react demo_reaction_env demo_reaction_event demo_reactions = (Inr d, t) \<and> rdn_rules_matched d = 1) \<and>
   react demo_reaction_env demo_reaction_event demo_raising =
     (Inl (TypeError ''in <string> requires string as left operand''), demo_raising\<lparr>rx_reads := Suc (rx_reads demo_raising)\<rparr>)"
proof
  show "\<exists>d t. react demo_reaction_env demo_reaction_event demo_reactions = (Inr d, t) \<and> rdn_rules_matched d = 1"
    using reaction_returns[OF demo_reactions_facts(3)] demo_reactions_facts(4) by simp
  have "dict_values (rx_rules demo_raising) = [demo_rule\<lparr>rr_conditions := [\<lparr>rc_condition_id = ''q'', rc_field_path = ''load.host'',
     rc_operator = ''contains'', rc_expected_value = PInt 1\<rparr>]\<rparr>]"
    by (simp add: demo_raising_def register_rule_def reactions_init_def demo_rule_def)
  then have "reaction_texts demo_reaction_env demo_reaction_event demo_raising"
    using demo_reactions_facts(3,7) by (simp add: reaction_texts_def)
  moreover have "match_rules demo_raising demo_reaction_event = Inl (TypeError ''in <string> requires string as left operand'')"
    by code_simp
  ultimately show "react demo_reaction_env demo_reaction_event demo_raising =
     (Inl (TypeError ''in <string> requires string as left operand''), demo_raising\<lparr>rx_reads := Suc (rx_reads demo_raising)\<rparr>)"
    using reaction_returns by fastforce
qed

theorem full_window_stays_full_witness:
  "stuck_window \<lparr>bp_policy_id = ''p'', bp_max_concurrent = 2, bp_max_per_window = 3, bp_window_seconds = 60, bp_strategy = BS_RATE_LIMIT\<rparr>
     (snd (react demo_reaction_env demo_reaction_event (demo_reactions\<lparr>rx_backpressure := Some \<lparr>bp_policy_id = ''p'', bp_max_concurrent = 2,
       bp_max_per_window = 3, bp_window_seconds = 60, bp_strategy = BS_RATE_LIMIT\<rparr>, rx_window := 3\<rparr>)))"
  by (rule full_window_stays_full[OF prod.collapse[symmetric], THEN conjunct1])
     (simp add: stuck_window_def demo_reactions_def register_rule_def reactions_init_def)

end
