(* ===== verification/Work_Queue.thy ===== *)
theory Work_Queue
  imports Supervisor "HOL-Library.Multiset"
begin

text \<open>
  The work queue of \<open>mcoi_runtime/core/jobs.py\<close> with its records from \<open>mcoi_runtime/contracts/job.py\<close>: entries
  leave in the order of priority, then of arrival.  The clock is a function of the number of its readings.
\<close>

section \<open>Records\<close>

datatype job_priority = JP_CRITICAL | JP_HIGH | JP_NORMAL | JP_LOW | JP_BACKGROUND

primrec job_priority_value :: "job_priority \<Rightarrow> string" where
  "job_priority_value JP_CRITICAL = ''critical''"
| "job_priority_value JP_HIGH = ''high''"
| "job_priority_value JP_NORMAL = ''normal''"
| "job_priority_value JP_LOW = ''low''"
| "job_priority_value JP_BACKGROUND = ''background''"

primrec JOB_PRIORITY_RANK :: "job_priority \<Rightarrow> nat" where
  "JOB_PRIORITY_RANK JP_CRITICAL = 0"
| "JOB_PRIORITY_RANK JP_HIGH = 1"
| "JOB_PRIORITY_RANK JP_NORMAL = 2"
| "JOB_PRIORITY_RANK JP_LOW = 3"
| "JOB_PRIORITY_RANK JP_BACKGROUND = 4"

definition job_text :: "string option \<Rightarrow> string \<Rightarrow> unit py" where
  "job_text v field_name = (case v of None \<Rightarrow> Inr () | Some t \<Rightarrow> py_bind (require_non_empty_text t field_name) (\<lambda>_. Inr ()))"

definition job_datetime :: "string option \<Rightarrow> string \<Rightarrow> unit py" where
  "job_datetime v field_name = (case v of None \<Rightarrow> Inr () | Some t \<Rightarrow> py_bind (require_datetime_text t field_name) (\<lambda>_. Inr ()))"

definition sla_minutes :: "int option \<Rightarrow> unit py" where
  "sla_minutes v = (case v of None \<Rightarrow> Inr ()
     | Some n \<Rightarrow> if n < 1 then Inl (ValueError ''sla_target_minutes must be a positive integer'') else Inr ())"

record job_descriptor =
  jd_job_id :: string
  jd_name :: string
  jd_description :: string
  jd_priority :: job_priority
  jd_created_at :: string
  jd_goal_id :: "string option"
  jd_workflow_id :: "string option"
  jd_deadline :: "string option"
  jd_sla_target_minutes :: "int option"
  jd_metadata :: "(string \<times> pval) list"

definition check_job_descriptor :: "job_descriptor \<Rightarrow> job_descriptor py" where
  "check_job_descriptor x =
     py_bind (require_non_empty_text (jd_job_id x) ''job_id'') (\<lambda>_.
     py_bind (require_non_empty_text (jd_name x) ''name'') (\<lambda>_.
     py_bind (require_non_empty_text (jd_description x) ''description'') (\<lambda>_.
     py_bind (require_datetime_text (jd_created_at x) ''created_at'') (\<lambda>_.
     py_bind (job_text (jd_goal_id x) ''goal_id'') (\<lambda>_.
     py_bind (job_text (jd_workflow_id x) ''workflow_id'') (\<lambda>_.
     py_bind (job_datetime (jd_deadline x) ''deadline'') (\<lambda>_.
     py_bind (sla_minutes (jd_sla_target_minutes x)) (\<lambda>_. Inr x))))))))"

record queue_entry =
  qe_entry_id :: string
  qe_job_id :: string
  qe_priority :: job_priority
  qe_enqueued_at :: string
  qe_assigned_to_person_id :: "string option"
  qe_assigned_to_team_id :: "string option"

definition check_queue_entry :: "queue_entry \<Rightarrow> queue_entry py" where
  "check_queue_entry x =
     py_bind (require_non_empty_text (qe_entry_id x) ''entry_id'') (\<lambda>_.
     py_bind (require_non_empty_text (qe_job_id x) ''job_id'') (\<lambda>_.
     py_bind (require_datetime_text (qe_enqueued_at x) ''enqueued_at'') (\<lambda>_.
     py_bind (job_text (qe_assigned_to_person_id x) ''assigned_to_person_id'') (\<lambda>_.
     py_bind (job_text (qe_assigned_to_team_id x) ''assigned_to_team_id'') (\<lambda>_. Inr x)))))"

record assignment_record =
  as_assignment_id :: string
  as_job_id :: string
  as_assigned_to_id :: string
  as_assigned_by_id :: string
  as_assigned_at :: string
  as_reason :: string

definition check_assignment :: "assignment_record \<Rightarrow> assignment_record py" where
  "check_assignment x =
     py_bind (require_non_empty_text (as_assignment_id x) ''assignment_id'') (\<lambda>_.
     py_bind (require_non_empty_text (as_job_id x) ''job_id'') (\<lambda>_.
     py_bind (require_non_empty_text (as_assigned_to_id x) ''assigned_to_id'') (\<lambda>_.
     py_bind (require_non_empty_text (as_assigned_by_id x) ''assigned_by_id'') (\<lambda>_.
     py_bind (require_datetime_text (as_assigned_at x) ''assigned_at'') (\<lambda>_.
     py_bind (require_non_empty_text (as_reason x) ''reason'') (\<lambda>_. Inr x))))))"

section \<open>The queue\<close>

record work_queue =
  wq_entries :: "(string, queue_entry) pydict"
  wq_order :: "string list"
  wq_reads :: nat

definition queue_init :: work_queue where
  "queue_init = \<lparr>wq_entries = [], wq_order = [], wq_reads = 0\<rparr>"

type_synonym job_clock = "nat \<Rightarrow> string"

definition enqueue_job :: "job_clock \<Rightarrow> job_descriptor \<Rightarrow> work_queue \<Rightarrow> queue_entry py \<times> work_queue" where
  "enqueue_job clock j q =
     (let t = clock (wq_reads q); now = clock (Suc (wq_reads q)); q = q\<lparr>wq_reads := Suc (Suc (wq_reads q))\<rparr>
      in act_bind (py_bind (stable_identifier ''wq-entry'' [(''job_id'', JStr (jd_job_id j)), (''enqueued_at'', JStr t)]) (\<lambda>i.
           check_queue_entry \<lparr>qe_entry_id = i, qe_job_id = jd_job_id j, qe_priority = jd_priority j, qe_enqueued_at = now,
             qe_assigned_to_person_id = None, qe_assigned_to_team_id = None\<rparr>), q) (\<lambda>x q.
           if dict_get (wq_entries q) (qe_entry_id x) \<noteq> None then (Inl (RuntimeCoreInvariantError ''duplicate queue entry''), q)
           else (Inr x, q\<lparr>wq_entries := dict_set (qe_entry_id x) x (wq_entries q), wq_order := wq_order q @ [qe_entry_id x]\<rparr>)))"

definition restore_entry :: "queue_entry \<Rightarrow> work_queue \<Rightarrow> queue_entry py \<times> work_queue" where
  "restore_entry x q =
     (if dict_get (wq_entries q) (qe_entry_id x) \<noteq> None
      then (Inl (RuntimeCoreInvariantError (''duplicate queue entry: '' @ qe_entry_id x)), q)
      else (Inr x, q\<lparr>wq_entries := dict_set (qe_entry_id x) x (wq_entries q), wq_order := wq_order q @ [qe_entry_id x]\<rparr>))"

text \<open>\<open>_order.index(entry_id)\<close>; every entry is in the order list, as proved below.\<close>

fun index_of :: "string \<Rightarrow> string list \<Rightarrow> nat" where
  "index_of x [] = 0"
| "index_of x (y # ys) = (if x = y then 0 else Suc (index_of x ys))"

definition entry_at :: "work_queue \<Rightarrow> string \<Rightarrow> queue_entry" where
  "entry_at q i = the (dict_get (wq_entries q) i)"

definition entry_rank :: "work_queue \<Rightarrow> string \<Rightarrow> nat" where
  "entry_rank q i = JOB_PRIORITY_RANK (qe_priority (entry_at q i))"

definition queue_key :: "work_queue \<Rightarrow> string \<Rightarrow> nat \<times> nat" where
  "queue_key q i = (entry_rank q i, index_of i (wq_order q))"

text \<open>\<open>min(self._entries, key=self._sort_key)\<close>: the first of the smallest.\<close>

definition best_id :: "work_queue \<Rightarrow> string option" where
  "best_id q = (case dict_keys (wq_entries q) of
     [] \<Rightarrow> None | k # ks \<Rightarrow> Some (foldl (\<lambda>b i. if queue_key q i < queue_key q b then i else b) k ks))"

definition take_entry :: "string \<Rightarrow> work_queue \<Rightarrow> work_queue" where
  "take_entry i q = q\<lparr>wq_entries := dict_pop i (wq_entries q), wq_order := remove1 i (wq_order q)\<rparr>"

definition dequeue_next :: "work_queue \<Rightarrow> queue_entry option \<times> work_queue" where
  "dequeue_next q = (case best_id q of None \<Rightarrow> (None, q) | Some i \<Rightarrow> (Some (entry_at q i), take_entry i q))"

definition peek_entry :: "work_queue \<Rightarrow> queue_entry option" where
  "peek_entry q = map_option (entry_at q) (best_id q)"

definition list_entries :: "work_queue \<Rightarrow> queue_entry list" where
  "list_entries q = map (entry_at q) (sort_key (queue_key q) (dict_keys (wq_entries q)))"

definition assign_entry :: "job_clock \<Rightarrow> string \<Rightarrow> string \<Rightarrow> string \<Rightarrow> string \<Rightarrow> work_queue \<Rightarrow> assignment_record py \<times> work_queue" where
  "assign_entry clock entry_id person_id assigned_by_id reason q =
     act_bind (ensure_non_empty_text ''entry_id'' entry_id, q) (\<lambda>_ q.
     act_bind (ensure_non_empty_text ''person_id'' person_id, q) (\<lambda>_ q.
     act_bind (ensure_non_empty_text ''assigned_by_id'' assigned_by_id, q) (\<lambda>_ q.
     act_bind (ensure_non_empty_text ''reason'' reason, q) (\<lambda>_ q.
     case dict_get (wq_entries q) entry_id of
       None \<Rightarrow> (Inl (RuntimeCoreInvariantError ''queue entry not found''), q)
     | Some x \<Rightarrow>
         let now = clock (wq_reads q); q = q\<lparr>wq_reads := Suc (wq_reads q)\<rparr>
         in (py_bind (stable_identifier ''assignment'' [(''job_id'', JStr (qe_job_id x)), (''person_id'', JStr person_id), (''assigned_at'', JStr now)]) (\<lambda>i.
             check_assignment \<lparr>as_assignment_id = i, as_job_id = qe_job_id x, as_assigned_to_id = person_id, as_assigned_by_id = assigned_by_id,
               as_assigned_at = now, as_reason = reason\<rparr>), q)))))"

definition remove_entry :: "string \<Rightarrow> work_queue \<Rightarrow> bool \<times> work_queue" where
  "remove_entry i q = (if dict_get (wq_entries q) i = None then (False, q) else (True, take_entry i q))"

section \<open>Stable sorting\<close>

lemma sorted_insort_other:
  fixes f :: "'a \<Rightarrow> 'b::linorder" and g :: "'a \<Rightarrow> 'c::linorder"
  assumes "sorted (map g ys)" and "\<And>y. y \<in> set ys \<Longrightarrow> f x \<le> f y \<Longrightarrow> g x \<le> g y"
    and "\<And>y. y \<in> set ys \<Longrightarrow> \<not> f x \<le> f y \<Longrightarrow> g y \<le> g x" and "sorted (map f ys)"
  shows "sorted (map g (insort_key f x ys))"
  using assms
proof (induction ys)
  case (Cons y ys)
  show ?case
  proof (cases "f x \<le> f y")
    case True
    have "g x \<le> g z" if "z \<in> set (y # ys)" for z
      using Cons.prems(2)[OF that] Cons.prems(4) that True by (auto intro: order_trans)
    then show ?thesis using True Cons.prems(1) by simp
  next
    case False
    have "sorted (map g (insort_key f x ys))" using Cons by auto
    moreover have "g y \<le> g z" if "z \<in> set (insort_key f x ys)" for z
      using that Cons.prems(1,3) False by (auto simp: set_insort_key)
    ultimately show ?thesis using False by auto
  qed
qed simp

lemma index_of_append: "i \<in> set xs \<Longrightarrow> index_of i (xs @ ys) = index_of i xs"
  by (induction xs) auto

lemma index_of_inj: "i \<in> set xs \<Longrightarrow> j \<in> set xs \<Longrightarrow> index_of i xs = index_of j xs \<Longrightarrow> i = j"
  by (induction xs) (auto split: if_splits)

text \<open>Sorting by rank alone, stably, sorts by rank and position.\<close>

lemma stable_sorted:
  fixes f :: "string \<Rightarrow> nat"
  shows "distinct xs \<Longrightarrow> sorted (map (\<lambda>a. (f a, index_of a xs)) (sort_key f xs))"
proof (induction xs)
  case (Cons x xs)
  let ?g = "\<lambda>a. (f a, index_of a (x # xs))"
  have "map (\<lambda>a. (f a, Suc (index_of a xs))) (sort_key f xs) = map ?g (sort_key f xs)"
    using Cons.prems by (intro map_cong) auto
  moreover have "sorted (map (\<lambda>a. (f a, Suc (index_of a xs))) (sort_key f xs))"
    using Cons.IH Cons.prems
    by (auto simp: less_eq_prod_def sorted_wrt_map elim!: sorted_wrt_mono_rel[rotated])
  ultimately have "sorted (map ?g (sort_key f xs))" by (simp only:)
  then have "sorted (map ?g (insort_key f x (sort_key f xs)))"
    by (rule sorted_insort_other) (use Cons.prems in \<open>auto simp: less_eq_prod_def\<close>)
  then show ?case by simp
qed simp

lemma sort_by_position:
  fixes f :: "string \<Rightarrow> nat"
  assumes "distinct xs" and "distinct ys" and "set xs = set ys"
  shows "sort_key (\<lambda>a. (f a, index_of a xs)) ys = sort_key f xs"
proof (rule properties_for_sort_key)
  show "mset (sort_key f xs) = mset ys" using assms by (simp add: set_eq_iff_mset_eq_distinct)
next
  fix k assume k: "k \<in> set (sort_key f xs)"
  have one: "distinct zs \<Longrightarrow> k \<in> set zs \<Longrightarrow> filter (\<lambda>x. x = k) zs = [k]" for zs
    by (induction zs) (auto simp: filter_empty_conv)
  have only: "filter (\<lambda>x. (f k, index_of k xs) = (f x, index_of x xs)) zs = [k]" if "distinct zs" "set zs = set xs" for zs
  proof -
    have "filter (\<lambda>x. (f k, index_of k xs) = (f x, index_of x xs)) zs = filter (\<lambda>x. x = k) zs"
      using that k by (intro filter_cong) (auto dest: index_of_inj)
    also have "\<dots> = [k]" using that(1) one[of zs] that(2) k by simp
    finally show ?thesis .
  qed
  show "filter (\<lambda>x. (f k, index_of k xs) = (f x, index_of x xs)) (sort_key f xs) =
      filter (\<lambda>x. (f k, index_of k xs) = (f x, index_of x xs)) ys"
    using only[of "sort_key f xs"] only[of ys] assms by simp
next
  show "sorted (map (\<lambda>a. (f a, index_of a xs)) (sort_key f xs))" by (rule stable_sorted[OF assms(1)])
qed

lemma sort_key_map: "sort_key f (map g xs) = map g (sort_key (\<lambda>x. f (g x)) xs)"
proof -
  have "insort_key f (g x) (map g ys) = map g (insort_key (\<lambda>x. f (g x)) x ys)" for x ys by (induction ys) auto
  then show ?thesis by (induction xs) auto
qed

text \<open>A last element goes behind all of its rank.\<close>

definition insert_behind :: "('a \<Rightarrow> nat) \<Rightarrow> 'a \<Rightarrow> 'a list \<Rightarrow> 'a list" where
  "insert_behind f x xs = takeWhile (\<lambda>y. f y \<le> f x) xs @ x # dropWhile (\<lambda>y. f y \<le> f x) xs"

lemma behind: "sorted (map f ys) \<Longrightarrow> y \<in> set (dropWhile (\<lambda>y. f y \<le> (n :: nat)) ys) \<Longrightarrow> n < f y"
  by (induction ys) (auto split: if_splits)

lemma sort_snoc: "sort_key f (xs @ [x]) = insert_behind f x (sort_key f xs)"
proof (rule properties_for_sort_key)
  let ?s = "sort_key f xs"
  have large: "f x < f y" if "y \<in> set (dropWhile (\<lambda>y. f y \<le> f x) ?s)" for y
    by (rule behind[OF sorted_sort_key that])
  show "mset (insert_behind f x ?s) = mset (xs @ [x])"
    by (simp add: insert_behind_def) (metis mset_append mset_sort takeWhile_dropWhile_id)
  show "filter (\<lambda>y. f k = f y) (insert_behind f x ?s) = filter (\<lambda>y. f k = f y) (xs @ [x])" for k
  proof -
    have s: "filter (\<lambda>y. f k = f y) ?s = filter (\<lambda>y. f k = f y) xs" 
      unfolding eq_commute[of "f k"] by (rule sort_key_stable)
    define a b where "a = takeWhile (\<lambda>y. f y \<le> f x) ?s" and "b = dropWhile (\<lambda>y. f y \<le> f x) ?s"
    have ab: "?s = a @ b" by (simp add: a_def b_def)
    have "filter (\<lambda>y. f k = f y) b = []" if "f k = f x" using large that unfolding b_def[symmetric] filter_empty_conv by (metis less_irrefl)
    then have "filter (\<lambda>y. f k = f y) (a @ x # b) = filter (\<lambda>y. f k = f y) (a @ b) @ (if f k = f x then [x] else [])" by simp
    moreover have "insert_behind f x ?s = a @ x # b" by (simp add: insert_behind_def a_def b_def)
    moreover have "filter (\<lambda>y. f k = f y) (a @ b) = filter (\<lambda>y. f k = f y) xs" using s unfolding ab .
    ultimately show ?thesis by (simp only: filter_append filter.simps append.simps append_Nil2 split: if_split)
  qed
  have "sorted (map f (takeWhile (\<lambda>y. f y \<le> f x) ?s))" "sorted (map f (dropWhile (\<lambda>y. f y \<le> f x) ?s))"
    using sorted_sort_key[of f xs] by (metis takeWhile_dropWhile_id map_append sorted_append)+
  then show "sorted (map f (insert_behind f x ?s))"
    using large by (auto simp: insert_behind_def sorted_append dest: set_takeWhileD intro: less_imp_le order_trans)
qed


section \<open>A priority queue\<close>

text \<open>Taking elements out until the queue is empty, at most \<open>n\<close> of them.\<close>

fun drain :: "('q \<Rightarrow> 'e option \<times> 'q) \<Rightarrow> nat \<Rightarrow> 'q \<Rightarrow> 'e list" where
  "drain next_of 0 q = []"
| "drain next_of (Suc n) q = (case next_of q of (None, q') \<Rightarrow> [] | (Some x, q') \<Rightarrow> x # drain next_of n q')"

text \<open>
  What a queue promises: its contents in the order of leaving, elements entering behind all of their
  rank, the first one leaving.
\<close>

locale priority_queue =
  fixes ok :: "'q \<Rightarrow> bool" and contents :: "'q \<Rightarrow> 'e list" and rank :: "'e \<Rightarrow> nat" and name :: "'e \<Rightarrow> 'k"
    and put :: "'e \<Rightarrow> 'q \<Rightarrow> 'q" and take_first :: "'q \<Rightarrow> 'e option \<times> 'q"
  assumes put_ok: "ok q \<Longrightarrow> name e \<notin> name ` set (contents q) \<Longrightarrow> ok (put e q)"
    and put_contents: "ok q \<Longrightarrow> name e \<notin> name ` set (contents q) \<Longrightarrow> contents (put e q) = insert_behind rank e (contents q)"
    and take_ok: "ok q \<Longrightarrow> ok (snd (take_first q))"
    and take_fst: "ok q \<Longrightarrow> fst (take_first q) = (case contents q of [] \<Rightarrow> None | x # xs \<Rightarrow> Some x)"
    and take_contents: "ok q \<Longrightarrow> contents (snd (take_first q)) = tl (contents q)"
begin

lemma drain_contents: "ok q \<Longrightarrow> length (contents q) \<le> n \<Longrightarrow> drain take_first n q = contents q"
proof (induction n arbitrary: q)
  case (Suc n)
  obtain y q' where t: "take_first q = (y, q')" by fastforce
  have y: "y = (case contents q of [] \<Rightarrow> None | x # xs \<Rightarrow> Some x)" "contents q' = tl (contents q)" "ok q'"
    using take_fst[OF Suc.prems(1)] take_contents[OF Suc.prems(1)] take_ok[OF Suc.prems(1)] t by simp_all
  show ?case using Suc.IH[OF y(3)] Suc.prems(2) t y(1,2) by (cases "contents q") auto
qed simp

lemma set_insert_behind: "set (insert_behind rank x xs) = insert x (set xs)"
  unfolding insert_behind_def by (metis list.simps(15) set_append takeWhile_dropWhile_id Un_insert_right)

lemma put_all:
  "ok q \<Longrightarrow> contents q = [] \<Longrightarrow> distinct (map name es) \<Longrightarrow>
   ok (fold put es q) \<and> contents (fold put es q) = sort_key rank es"
proof (induction es rule: rev_induct)
  case (snoc e es)
  then have h: "ok (fold put es q)" "contents (fold put es q) = sort_key rank es" by simp_all
  have "name e \<notin> name ` set (contents (fold put es q))" using snoc.prems(3) by (simp add: h(2))
  then show ?case using put_ok[OF h(1)] put_contents[OF h(1)] by (simp add: h(2) sort_snoc)
qed simp

text \<open>Everything put in comes out once, by rank, and within a rank in the order of arrival.\<close>

lemma first_in_first_out:
  assumes "ok q" and "contents q = []" and "distinct (map name es)" and "length es \<le> n"
  shows "drain take_first n (fold put es q) = sort_key rank es"
  using put_all[OF assms(1-3)] drain_contents[of "fold put es q" n] assms(4) by simp

end

section \<open>The work queue is a priority queue\<close>

definition queue_ok :: "work_queue \<Rightarrow> bool" where
  "queue_ok q \<longleftrightarrow> wf_dict (wq_entries q) \<and> distinct (wq_order q) \<and> set (wq_order q) = set (dict_keys (wq_entries q)) \<and>
     (\<forall>k x. dict_get (wq_entries q) k = Some x \<longrightarrow> qe_entry_id x = k)"

abbreviation entry_order :: "queue_entry \<Rightarrow> nat" where
  "entry_order x \<equiv> JOB_PRIORITY_RANK (qe_priority x)"

abbreviation put_entry :: "queue_entry \<Rightarrow> work_queue \<Rightarrow> work_queue" where
  "put_entry x q \<equiv> snd (restore_entry x q)"

lemma entries_listed:
  assumes "queue_ok q"
  shows "list_entries q = sort_key entry_order (map (entry_at q) (wq_order q))"
proof -
  have "sort_key (queue_key q) (dict_keys (wq_entries q)) = sort_key (entry_rank q) (wq_order q)"
    using sort_by_position[of "wq_order q" "dict_keys (wq_entries q)" "entry_rank q"] assms
    by (simp add: queue_ok_def wf_dict_def queue_key_def[abs_def])
  then show ?thesis by (simp add: list_entries_def sort_key_map entry_rank_def[abs_def])
qed

lemma entry_at_id: "queue_ok q \<Longrightarrow> i \<in> set (wq_order q) \<Longrightarrow> qe_entry_id (entry_at q i) = i"
  unfolding queue_ok_def entry_at_def by (metis dict_get_None_keys option.exhaust_sel)

lemma listed_ids: "queue_ok q \<Longrightarrow> qe_entry_id ` set (list_entries q) = set (dict_keys (wq_entries q))"
proof -
  assume ok: "queue_ok q"
  have "qe_entry_id ` set (list_entries q) = (\<lambda>i. qe_entry_id (entry_at q i)) ` set (wq_order q)"
    by (simp add: entries_listed[OF ok] image_image)
  also have "\<dots> = id ` set (wq_order q)" using entry_at_id[OF ok] by (intro image_cong) simp_all
  finally show ?thesis using ok by (simp add: queue_ok_def)
qed

lemma put_keeps_ok:
  assumes "queue_ok q" and "dict_get (wq_entries q) (qe_entry_id x) = None"
  shows "queue_ok (put_entry x q)"
proof -
  have p: "wq_entries (put_entry x q) = wq_entries q @ [(qe_entry_id x, x)]" "wq_order (put_entry x q) = wq_order q @ [qe_entry_id x]"
    using assms(2) by (simp_all add: restore_entry_def dict_set_new)
  have "qe_entry_id x \<notin> set (dict_keys (wq_entries q))" using assms(2) by (simp only: dict_get_None_keys not_False_eq_True)
  moreover have "qe_entry_id y = k" if "dict_get (wq_entries q @ [(qe_entry_id x, x)]) k = Some y" for k y
    using that assms(1) by (auto simp: queue_ok_def map_add_def split: option.splits if_splits)
  ultimately show ?thesis using assms(1) unfolding queue_ok_def p wf_dict_def by auto
qed

lemma put_listed:
  assumes "queue_ok q" and "dict_get (wq_entries q) (qe_entry_id x) = None"
  shows "list_entries (put_entry x q) = insert_behind entry_order x (list_entries q)"
proof -
  have at: "entry_at (put_entry x q) i = entry_at q i" if "i \<in> set (wq_order q)" for i
  proof -
    have "i \<noteq> qe_entry_id x" using assms that unfolding queue_ok_def by (metis dict_get_None_keys)
    then show ?thesis using assms(2) by (simp add: entry_at_def restore_entry_def)
  qed
  have "map (entry_at (put_entry x q)) (wq_order (put_entry x q)) = map (entry_at q) (wq_order q) @ [x]"
    using assms at by (simp add: restore_entry_def entry_at_def)
  then show ?thesis using entries_listed[OF assms(1)] entries_listed[OF put_keeps_ok[OF assms]] by (simp add: sort_snoc)
qed

lemma take_keeps_ok: "queue_ok q \<Longrightarrow> queue_ok (take_entry i q)"
  by (auto simp: queue_ok_def take_entry_def delete_keys set_remove1_eq)

lemma take_listed:
  assumes "queue_ok q"
  shows "list_entries (take_entry i q) = filter (\<lambda>x. qe_entry_id x \<noteq> i) (list_entries q)"
proof -
  have "distinct (wq_order q)" using assms by (simp add: queue_ok_def)
  then have r: "wq_order (take_entry i q) = filter (\<lambda>j. j \<noteq> i) (wq_order q)"
    by (simp add: take_entry_def distinct_remove1_removeAll removeAll_filter_not_eq eq_commute)
  have "map (entry_at (take_entry i q)) (filter (\<lambda>j. j \<noteq> i) (wq_order q)) = map (entry_at q) (filter (\<lambda>j. j \<noteq> i) (wq_order q))"
    by (auto simp: entry_at_def take_entry_def)
  also have "\<dots> = filter (\<lambda>x. qe_entry_id x \<noteq> i) (map (entry_at q) (wq_order q))"
    using entry_at_id[OF assms] by (auto simp: filter_map o_def intro!: arg_cong[of _ _ "map _"] filter_cong)
  finally show ?thesis using entries_listed[OF assms] entries_listed[OF take_keeps_ok[OF assms]] r by (simp add: filter_sort)
qed

text \<open>The minimum is the head of the sorted list.\<close>

lemma foldl_min:
  fixes K :: "'a \<Rightarrow> 'b::linorder"
  shows "foldl (\<lambda>b i. if K i < K b then i else b) k ks \<in> set (k # ks) \<and>
    (\<forall>j \<in> set (k # ks). K (foldl (\<lambda>b i. if K i < K b then i else b) k ks) \<le> K j)"
proof (induction ks arbitrary: k)
  case (Cons i ks)
  show ?case using Cons[of i] Cons[of k] by (cases "K i < K k") (auto intro: order_trans)
qed simp

lemma best_first:
  assumes "queue_ok q"
  shows "best_id q = (case list_entries q of [] \<Rightarrow> None | x # xs \<Rightarrow> Some (qe_entry_id x))"
proof (cases "dict_keys (wq_entries q)")
  case Nil
  then show ?thesis by (simp add: best_id_def list_entries_def)
next
  case (Cons k ks)
  let ?m = "foldl (\<lambda>b i. if queue_key q i < queue_key q b then i else b) k ks"
  let ?s = "sort_key (queue_key q) (dict_keys (wq_entries q))"
  have m: "?m \<in> set (dict_keys (wq_entries q))" "\<forall>j \<in> set (dict_keys (wq_entries q)). queue_key q ?m \<le> queue_key q j"
    using foldl_min[of "queue_key q" k ks] unfolding Cons by blast+
  obtain h t where h: "?s = h # t" using Cons by (cases ?s) (auto simp flip: length_0_conv)
  have hk: "h \<in> set (dict_keys (wq_entries q))" using h by (metis list.set_intros(1) set_sort)
  have "queue_key q h \<le> queue_key q ?m"
    using sorted_sort_key[of "queue_key q" "dict_keys (wq_entries q)"] m(1) h by (metis (no_types, lifting) list.simps(9) order_refl set_ConsD set_sort sorted_simps(2) image_eqI set_map)
  then have "queue_key q h = queue_key q ?m" using m(2) hk by (meson order_antisym)
  then have "h = ?m" using index_of_inj[of h "wq_order q" ?m] hk m(1) assms by (simp add: queue_key_def queue_ok_def)
  moreover have "qe_entry_id (entry_at q h) = h" using entry_at_id assms hk by (simp add: queue_ok_def)
  ultimately show ?thesis using Cons h by (simp add: best_id_def list_entries_def)
qed

lemma dequeue_listed:
  assumes "queue_ok q"
  shows "fst (dequeue_next q) = (case list_entries q of [] \<Rightarrow> None | x # xs \<Rightarrow> Some x)"
    and "list_entries (snd (dequeue_next q)) = tl (list_entries q)" and "queue_ok (snd (dequeue_next q))"
proof -
  show "queue_ok (snd (dequeue_next q))" using assms take_keeps_ok by (simp add: dequeue_next_def split: option.split)
  have ids: "distinct (map qe_entry_id (list_entries q))"
  proof -
    have "map qe_entry_id (map (entry_at q) (wq_order q)) = wq_order q"
      using entry_at_id[OF assms] by (simp add: map_idI)
    then have "distinct (map qe_entry_id (map (entry_at q) (wq_order q)))" using assms by (simp add: queue_ok_def)
    then show ?thesis unfolding entries_listed[OF assms] distinct_map[of qe_entry_id] distinct_sort set_sort .
  qed
  have at: "entry_at q (qe_entry_id x) = x" if "x \<in> set (list_entries q)" for x
    using that entry_at_id[OF assms] by (auto simp: entries_listed[OF assms])
  show "fst (dequeue_next q) = (case list_entries q of [] \<Rightarrow> None | x # xs \<Rightarrow> Some x)"
    using best_first[OF assms] at by (simp add: dequeue_next_def split: list.split)
  show "list_entries (snd (dequeue_next q)) = tl (list_entries q)"
  proof (cases "list_entries q")
    case Nil
    then show ?thesis using best_first[OF assms] by (simp add: dequeue_next_def)
  next
    case (Cons x xs)
    have "filter (\<lambda>y. qe_entry_id y \<noteq> qe_entry_id x) xs = xs" using ids Cons by (auto simp: filter_id_conv) (metis image_eqI)
    then show ?thesis using best_first[OF assms] take_listed[OF assms] Cons by (simp add: dequeue_next_def)
  qed
qed

lemma queue_init_ok: "queue_ok queue_init" "list_entries queue_init = []"
  by (simp_all add: queue_ok_def queue_init_def list_entries_def)

interpretation wq: priority_queue queue_ok list_entries entry_order qe_entry_id put_entry dequeue_next
  by unfold_locales (auto simp: dequeue_listed listed_ids dict_get_None_keys intro!: put_keeps_ok put_listed)

section \<open>Properties\<close>

lemma listed_reads [simp]: "list_entries (q\<lparr>wq_reads := n\<rparr>) = list_entries q" "queue_ok (q\<lparr>wq_reads := n\<rparr>) = queue_ok q"
  by (simp_all add: list_entries_def entry_at_def[abs_def] queue_key_def[abs_def] entry_rank_def queue_ok_def)

lemma enqueue_cases:
  assumes "enqueue_job clock j q = (r, q')"
  shows "(\<exists>e. r = Inl e) \<and> q' = q\<lparr>wq_reads := Suc (Suc (wq_reads q))\<rparr> \<or>
    (\<exists>x. r = Inr x \<and> dict_get (wq_entries q) (qe_entry_id x) = None \<and> qe_job_id x = jd_job_id j \<and> qe_priority x = jd_priority j \<and>
      q' = (put_entry x q)\<lparr>wq_reads := Suc (Suc (wq_reads q))\<rparr>)"
proof -
  let ?m = "py_bind (stable_identifier ''wq-entry'' [(''job_id'', JStr (jd_job_id j)), (''enqueued_at'', JStr (clock (wq_reads q)))]) (\<lambda>i.
      check_queue_entry \<lparr>qe_entry_id = i, qe_job_id = jd_job_id j, qe_priority = jd_priority j, qe_enqueued_at = clock (Suc (wq_reads q)),
        qe_assigned_to_person_id = None, qe_assigned_to_team_id = None\<rparr>)"
  show ?thesis
  proof (cases ?m)
    case (Inl e)
    then have "r = Inl e \<and> q' = q\<lparr>wq_reads := Suc (Suc (wq_reads q))\<rparr>" using assms by (simp add: enqueue_job_def act_bind_def Let_def)
    then show ?thesis by blast
  next
    case (Inr x)
    then have x: "qe_job_id x = jd_job_id j \<and> qe_priority x = jd_priority j" by (auto simp: py_bind_Inr_iff check_queue_entry_def)
    show ?thesis
    proof (cases "dict_get (wq_entries q) (qe_entry_id x)")
      case None
      then have "r = Inr x" "q' = (put_entry x q)\<lparr>wq_reads := Suc (Suc (wq_reads q))\<rparr>"
        using assms Inr by (auto simp: enqueue_job_def act_bind_def Let_def restore_entry_def)
      then show ?thesis using None x by blast
    next
      case (Some y)
      then have "r = Inl (RuntimeCoreInvariantError ''duplicate queue entry'') \<and> q' = q\<lparr>wq_reads := Suc (Suc (wq_reads q))\<rparr>"
        using assms Inr by (simp add: enqueue_job_def act_bind_def Let_def)
      then show ?thesis by blast
    qed
  qed
qed

text \<open>
  C35: the queue refines a list kept in the order of leaving: a job enters behind all entries of its
  priority or a higher one, the first entry is the one returned and removed, removal and listing act
  on the list, and a failed call leaves it as it is.
\<close>

theorem queue_refines_list:
  assumes "queue_ok q"
  shows "(case enqueue_job clock j q of
       (Inl e, q') \<Rightarrow> queue_ok q' \<and> list_entries q' = list_entries q
     | (Inr x, q') \<Rightarrow> queue_ok q' \<and> qe_job_id x = jd_job_id j \<and> qe_priority x = jd_priority j \<and>
         list_entries q' = insert_behind entry_order x (list_entries q)) \<and>
    queue_ok (snd (dequeue_next q)) \<and> list_entries (snd (dequeue_next q)) = tl (list_entries q) \<and>
    fst (dequeue_next q) = (case list_entries q of [] \<Rightarrow> None | x # xs \<Rightarrow> Some x) \<and> peek_entry q = fst (dequeue_next q) \<and>
    queue_ok (snd (remove_entry i q)) \<and>
    list_entries (snd (remove_entry i q)) = filter (\<lambda>x. qe_entry_id x \<noteq> i) (list_entries q) \<and>
    list_entries (snd (assign_entry clock i p b r q)) = list_entries q"
proof -
  have e: "case enqueue_job clock j q of
       (Inl e, q') \<Rightarrow> queue_ok q' \<and> list_entries q' = list_entries q
     | (Inr x, q') \<Rightarrow> queue_ok q' \<and> qe_job_id x = jd_job_id j \<and> qe_priority x = jd_priority j \<and>
         list_entries q' = insert_behind entry_order x (list_entries q)"
  proof -
    obtain y q' where y: "enqueue_job clock j q = (y, q')" by fastforce
    from enqueue_cases[OF y] show ?thesis using assms put_keeps_ok put_listed y by auto
  qed
  have "filter (\<lambda>x. qe_entry_id x \<noteq> i) (list_entries q) = list_entries q" if "dict_get (wq_entries q) i = None"
  proof -
    have "i \<notin> qe_entry_id ` set (list_entries q)" using listed_ids[OF assms] that by (simp only: dict_get_None_keys not_False_eq_True)
    then show ?thesis unfolding filter_id_conv by blast
  qed
  then have "list_entries (snd (remove_entry i q)) = filter (\<lambda>x. qe_entry_id x \<noteq> i) (list_entries q)"
    using take_listed[OF assms] by (simp add: remove_entry_def)
  moreover have "queue_ok (snd (remove_entry i q))" using assms take_keeps_ok by (simp add: remove_entry_def)
  moreover have "list_entries (snd (assign_entry clock i p b r q)) = list_entries q"
    by (auto simp: assign_entry_def act_bind_def ensure_non_empty_text_def Let_def split: option.split)
  moreover have "peek_entry q = fst (dequeue_next q)"
    by (simp add: peek_entry_def dequeue_next_def split: option.split)
  ultimately show ?thesis using e dequeue_listed[OF assms] by blast
qed

text \<open>
  entries put into an empty queue come out once each, by priority, and within a priority in the
  order of arrival.
\<close>

theorem queue_drains:
  assumes "distinct (map qe_entry_id xs)" and "length xs \<le> n"
  shows "drain dequeue_next n (fold put_entry xs queue_init) = sort_key entry_order xs"
  by (rule wq.first_in_first_out[OF queue_init_ok assms])

section \<open>Witnesses\<close>

definition demo_queued :: "string \<Rightarrow> job_priority \<Rightarrow> queue_entry" where
  "demo_queued i p = \<lparr>qe_entry_id = i, qe_job_id = i, qe_priority = p, qe_enqueued_at = ''2024-01-01T00:00:00Z'',
     qe_assigned_to_person_id = None, qe_assigned_to_team_id = None\<rparr>"

theorem queue_refines_list_witness:
  "fst (dequeue_next (put_entry (demo_queued ''b'' JP_HIGH) (put_entry (demo_queued ''a'' JP_LOW) queue_init))) = Some (demo_queued ''b'' JP_HIGH)"
proof -
  let ?q = "put_entry (demo_queued ''b'' JP_HIGH) (put_entry (demo_queued ''a'' JP_LOW) queue_init)"
  have "queue_ok ?q" by (intro put_keeps_ok queue_init_ok) code_simp+
  then have "fst (dequeue_next ?q) = (case list_entries ?q of [] \<Rightarrow> None | x # xs \<Rightarrow> Some x)"
    using queue_refines_list[of ?q] by blast
  moreover have "list_entries ?q = [demo_queued ''b'' JP_HIGH, demo_queued ''a'' JP_LOW]" by code_simp
  ultimately show ?thesis by simp
qed

theorem queue_drains_witness:
  "drain dequeue_next 3 (fold put_entry [demo_queued ''a'' JP_LOW, demo_queued ''b'' JP_HIGH, demo_queued ''c'' JP_LOW] queue_init) =
   [demo_queued ''b'' JP_HIGH, demo_queued ''a'' JP_LOW, demo_queued ''c'' JP_LOW]"
proof -
  have "drain dequeue_next 3 (fold put_entry [demo_queued ''a'' JP_LOW, demo_queued ''b'' JP_HIGH, demo_queued ''c'' JP_LOW] queue_init) =
      sort_key entry_order [demo_queued ''a'' JP_LOW, demo_queued ''b'' JP_HIGH, demo_queued ''c'' JP_LOW]"
    by (rule queue_drains) (simp_all add: demo_queued_def)
  then show ?thesis by (simp add: demo_queued_def)
qed

end
