(* ===== verification/Job_Engine.thy ===== *)
theory Job_Engine
  imports Work_Queue
begin

text \<open>
  Jobs: the engine of \<open>mcoi_runtime/core/jobs.py\<close> with its records from \<open>mcoi_runtime/contracts/job.py\<close>, the
  lifecycle with its audit records and receipts, deadlines, overdue and stale jobs.
\<close>

section \<open>Records\<close>

datatype job_status =
    JS_CREATED | JS_QUEUED | JS_ASSIGNED | JS_IN_PROGRESS | JS_WAITING | JS_PAUSED | JS_COMPLETED | JS_FAILED | JS_CANCELLED | JS_ARCHIVED

primrec job_status_value :: "job_status \<Rightarrow> string" where
  "job_status_value JS_CREATED = ''created''"
| "job_status_value JS_QUEUED = ''queued''"
| "job_status_value JS_ASSIGNED = ''assigned''"
| "job_status_value JS_IN_PROGRESS = ''in_progress''"
| "job_status_value JS_WAITING = ''waiting''"
| "job_status_value JS_PAUSED = ''paused''"
| "job_status_value JS_COMPLETED = ''completed''"
| "job_status_value JS_FAILED = ''failed''"
| "job_status_value JS_CANCELLED = ''cancelled''"
| "job_status_value JS_ARCHIVED = ''archived''"

datatype pause_reason =
  PR_AWAITING_APPROVAL | PR_AWAITING_RESPONSE | PR_AWAITING_REVIEW | PR_BLOCKED_DEPENDENCY | PR_OPERATOR_HOLD | PR_SYSTEM_ERROR

primrec pause_reason_value :: "pause_reason \<Rightarrow> string" where
  "pause_reason_value PR_AWAITING_APPROVAL = ''awaiting_approval''"
| "pause_reason_value PR_AWAITING_RESPONSE = ''awaiting_response''"
| "pause_reason_value PR_AWAITING_REVIEW = ''awaiting_review''"
| "pause_reason_value PR_BLOCKED_DEPENDENCY = ''blocked_dependency''"
| "pause_reason_value PR_OPERATOR_HOLD = ''operator_hold''"
| "pause_reason_value PR_SYSTEM_ERROR = ''system_error''"

datatype sla_status = SLA_ON_TRACK | SLA_AT_RISK | SLA_BREACHED | SLA_NOT_APPLICABLE

primrec sla_status_value :: "sla_status \<Rightarrow> string" where
  "sla_status_value SLA_ON_TRACK = ''on_track''"
| "sla_status_value SLA_AT_RISK = ''at_risk''"
| "sla_status_value SLA_BREACHED = ''breached''"
| "sla_status_value SLA_NOT_APPLICABLE = ''not_applicable''"

record job_state =
  jb_job_id :: string
  jb_status :: job_status
  jb_sla_status :: sla_status
  jb_current_assignment_id :: "string option"
  jb_pause_reason :: "pause_reason option"
  jb_thread_id :: "string option"
  jb_goal_id :: "string option"
  jb_workflow_id :: "string option"
  jb_started_at :: "string option"
  jb_updated_at :: "string option"

definition check_job_state :: "job_state \<Rightarrow> job_state py" where
  "check_job_state x =
     py_bind (require_non_empty_text (jb_job_id x) ''job_id'') (\<lambda>_.
     py_bind (job_text (jb_current_assignment_id x) ''current_assignment_id'') (\<lambda>_.
     py_bind (job_text (jb_thread_id x) ''thread_id'') (\<lambda>_.
     py_bind (job_text (jb_goal_id x) ''goal_id'') (\<lambda>_.
     py_bind (job_text (jb_workflow_id x) ''workflow_id'') (\<lambda>_.
     py_bind (job_datetime (jb_started_at x) ''started_at'') (\<lambda>_.
     py_bind (job_datetime (jb_updated_at x) ''updated_at'') (\<lambda>_. Inr x)))))))"

text \<open>A state with nothing but its status, as most operations build it.\<close>

definition plain_state :: "string \<Rightarrow> job_status \<Rightarrow> sla_status \<Rightarrow> string \<Rightarrow> job_state" where
  "plain_state i st sla now = \<lparr>jb_job_id = i, jb_status = st, jb_sla_status = sla, jb_current_assignment_id = None, jb_pause_reason = None,
     jb_thread_id = None, jb_goal_id = None, jb_workflow_id = None, jb_started_at = None, jb_updated_at = Some now\<rparr>"

record follow_up =
  fu_follow_up_id :: string
  fu_job_id :: string
  fu_reason :: string
  fu_scheduled_at :: string
  fu_resolved :: bool
  fu_executed_at :: "string option"

definition check_follow_up :: "follow_up \<Rightarrow> follow_up py" where
  "check_follow_up x =
     py_bind (require_non_empty_text (fu_follow_up_id x) ''follow_up_id'') (\<lambda>_.
     py_bind (require_non_empty_text (fu_job_id x) ''job_id'') (\<lambda>_.
     py_bind (require_non_empty_text (fu_reason x) ''reason'') (\<lambda>_.
     py_bind (require_datetime_text (fu_scheduled_at x) ''scheduled_at'') (\<lambda>_.
     py_bind (job_datetime (fu_executed_at x) ''executed_at'') (\<lambda>_. Inr x)))))"

record deadline_record =
  dl_job_id :: string
  dl_deadline :: string
  dl_sla_status :: sla_status
  dl_evaluated_at :: string
  dl_sla_target_minutes :: "int option"

definition check_deadline :: "deadline_record \<Rightarrow> deadline_record py" where
  "check_deadline x =
     py_bind (require_non_empty_text (dl_job_id x) ''job_id'') (\<lambda>_.
     py_bind (require_datetime_text (dl_deadline x) ''deadline'') (\<lambda>_.
     py_bind (require_datetime_text (dl_evaluated_at x) ''evaluated_at'') (\<lambda>_.
     py_bind (sla_minutes (dl_sla_target_minutes x)) (\<lambda>_. Inr x))))"

datatype execution_mode = EM_REAL | EM_DRY_RUN | EM_SHADOW | EM_SIMULATION | EM_REPLAY | EM_TEST

record job_execution =
  jx_job_id :: string
  jx_execution_id :: string
  jx_status :: job_status
  jx_started_at :: string
  jx_outcome_summary :: string
  jx_errors :: "string list"
  jx_completed_at :: "string option"
  jx_execution_mode :: execution_mode

fun check_errors :: "nat \<Rightarrow> string list \<Rightarrow> unit py" where
  "check_errors n [] = Inr ()"
| "check_errors n (e # es) =
     py_bind (require_non_empty_text e (''errors['' @ nat_str n @ '']'')) (\<lambda>_. check_errors (Suc n) es)"

definition check_job_execution :: "job_execution \<Rightarrow> job_execution py" where
  "check_job_execution x =
     py_bind (require_non_empty_text (jx_job_id x) ''job_id'') (\<lambda>_.
     py_bind (require_non_empty_text (jx_execution_id x) ''execution_id'') (\<lambda>_.
     py_bind (require_datetime_text (jx_started_at x) ''started_at'') (\<lambda>_.
     py_bind (require_non_empty_text (jx_outcome_summary x) ''outcome_summary'') (\<lambda>_.
     py_bind (check_errors 0 (jx_errors x)) (\<lambda>_.
     py_bind (job_datetime (jx_completed_at x) ''completed_at'') (\<lambda>_. Inr x))))))"

record pause_record =
  pu_job_id :: string
  pu_paused_at :: string
  pu_reason :: pause_reason
  pu_resumed_at :: "string option"

definition check_pause :: "pause_record \<Rightarrow> pause_record py" where
  "check_pause x =
     py_bind (require_non_empty_text (pu_job_id x) ''job_id'') (\<lambda>_.
     py_bind (require_datetime_text (pu_paused_at x) ''paused_at'') (\<lambda>_.
     py_bind (job_datetime (pu_resumed_at x) ''resumed_at'') (\<lambda>_. Inr x)))"

record resume_record =
  ru_job_id :: string
  ru_resumed_at :: string
  ru_resumed_by_id :: string
  ru_reason :: string

definition check_resume :: "resume_record \<Rightarrow> resume_record py" where
  "check_resume x =
     py_bind (require_non_empty_text (ru_job_id x) ''job_id'') (\<lambda>_.
     py_bind (require_datetime_text (ru_resumed_at x) ''resumed_at'') (\<lambda>_.
     py_bind (require_non_empty_text (ru_resumed_by_id x) ''resumed_by_id'') (\<lambda>_.
     py_bind (require_non_empty_text (ru_reason x) ''reason'') (\<lambda>_. Inr x))))"

section \<open>The engine\<close>

record job_receipt =
  jr_receipt_id :: string
  jr_mutation_type :: string
  jr_effect_name :: string
  jr_job_id :: string
  jr_evidence_ref :: string
  jr_previous_status :: "string option"
  jr_new_status :: string
  jr_recorded_at :: string
  jr_metadata :: "(string \<times> pval) list"

record job_engine =
  je_jobs :: "(string, job_descriptor) pydict"
  je_states :: "(string, job_state) pydict"
  je_receipts :: "job_receipt list"
  je_reads :: nat

definition jobs_init :: job_engine where
  "jobs_init = \<lparr>je_jobs = [], je_states = [], je_receipts = [], je_reads = 0\<rparr>"

type_synonym 'a job_act = "job_engine \<Rightarrow> 'a py \<times> job_engine"

definition job_now :: "job_clock \<Rightarrow> job_engine \<Rightarrow> string \<times> job_engine" where
  "job_now clock s = (clock (je_reads s), s\<lparr>je_reads := Suc (je_reads s)\<rparr>)"

definition VALID_JOB_TRANSITIONS :: "job_status \<Rightarrow> job_status set" where
  "VALID_JOB_TRANSITIONS st = (case st of
       JS_CREATED \<Rightarrow> {JS_QUEUED, JS_IN_PROGRESS, JS_CANCELLED}
     | JS_QUEUED \<Rightarrow> {JS_ASSIGNED, JS_CANCELLED}
     | JS_ASSIGNED \<Rightarrow> {JS_IN_PROGRESS, JS_CANCELLED}
     | JS_IN_PROGRESS \<Rightarrow> {JS_WAITING, JS_PAUSED, JS_COMPLETED, JS_FAILED, JS_CANCELLED}
     | JS_WAITING \<Rightarrow> {JS_IN_PROGRESS, JS_PAUSED, JS_FAILED, JS_CANCELLED}
     | JS_PAUSED \<Rightarrow> {JS_IN_PROGRESS, JS_FAILED, JS_CANCELLED}
     | JS_COMPLETED \<Rightarrow> {JS_ARCHIVED}
     | JS_FAILED \<Rightarrow> {JS_ARCHIVED}
     | JS_CANCELLED \<Rightarrow> {JS_ARCHIVED}
     | JS_ARCHIVED \<Rightarrow> {})"

definition assert_transition :: "job_status \<Rightarrow> job_status \<Rightarrow> unit py" where
  "assert_transition current target =
     (if target \<in> VALID_JOB_TRANSITIONS current then Inr () else Inl (RuntimeCoreInvariantError ''invalid job state transition''))"

definition hash_text :: "string option \<Rightarrow> pval" where
  "hash_text v = (case v of None \<Rightarrow> PNone | Some t \<Rightarrow> PStr (sha256_hex t))"

definition job_receipt_id :: "string \<Rightarrow> string \<Rightarrow> string \<Rightarrow> nat \<Rightarrow> string" where
  "job_receipt_id mutation_type job_id recorded_at ordinal =
     ''job-'' @ mutation_type @ ''-'' @ take 16 (sha256_hex (dumps_compact (JObj
       [(''mutation_type'', JStr mutation_type), (''job_id'', JStr job_id), (''recorded_at'', JStr recorded_at),
        (''ordinal'', JInt (int ordinal))])))"

definition job_mutation ::
  "string \<Rightarrow> string \<Rightarrow> string \<Rightarrow> job_status option \<Rightarrow> job_status \<Rightarrow> string \<Rightarrow> (string \<times> pval) list \<Rightarrow> job_engine \<Rightarrow> job_engine" where
  "job_mutation mutation_type effect_name job_id previous new recorded_at metadata s =
     (let i = job_receipt_id mutation_type job_id recorded_at (length (je_receipts s))
      in s\<lparr>je_receipts := je_receipts s @ [\<lparr>jr_receipt_id = i, jr_mutation_type = mutation_type, jr_effect_name = effect_name,
            jr_job_id = job_id, jr_evidence_ref = ''job-receipt:'' @ i, jr_previous_status = map_option job_status_value previous,
            jr_new_status = job_status_value new, jr_recorded_at = recorded_at, jr_metadata = metadata\<rparr>]\<rparr>)"

text \<open>A new state under its identifier, with its receipt.\<close>

definition store_state ::
  "job_state \<Rightarrow> string \<Rightarrow> string \<Rightarrow> job_status option \<Rightarrow> string \<Rightarrow> (string \<times> pval) list \<Rightarrow> job_engine \<Rightarrow> job_engine" where
  "store_state x mutation_type effect_name previous now metadata s =
     job_mutation mutation_type effect_name (jb_job_id x) previous (jb_status x) now metadata
       (s\<lparr>je_states := dict_set (jb_job_id x) x (je_states s)\<rparr>)"

section \<open>Creation and restoration\<close>

definition create_job ::
  "job_clock \<Rightarrow> string \<Rightarrow> string \<Rightarrow> job_priority \<Rightarrow> string option \<Rightarrow> string option \<Rightarrow> string option \<Rightarrow> int option \<Rightarrow> (job_descriptor \<times> job_state) job_act" where
  "create_job clock name description priority goal workflow deadline sla s =
     act_bind (ensure_non_empty_text ''name'' name, s) (\<lambda>_ s.
     act_bind (ensure_non_empty_text ''description'' description, s) (\<lambda>_ s.
     let (now, s) = job_now clock s
     in act_bind (stable_identifier ''job'' [(''name'', JStr name), (''created_at'', JStr now)], s) (\<lambda>i s.
        act_bind (check_job_descriptor \<lparr>jd_job_id = i, jd_name = name, jd_description = description, jd_priority = priority,
          jd_created_at = now, jd_goal_id = goal, jd_workflow_id = workflow, jd_deadline = deadline,
          jd_sla_target_minutes = sla, jd_metadata = []\<rparr>, s) (\<lambda>d s.
        act_bind (check_job_state (plain_state i JS_CREATED SLA_NOT_APPLICABLE now), s) (\<lambda>x s.
          (Inr (d, x), store_state x ''create_job'' ''job_created'' None now
             [(''name_hash'', PStr (sha256_hex name)), (''description_hash'', PStr (sha256_hex description)),
              (''priority'', PStr (job_priority_value priority)), (''goal_id_hash'', hash_text goal), (''workflow_id_hash'', hash_text workflow),
              (''deadline_present'', PBool (deadline \<noteq> None)), (''sla_target_minutes'', case sla of None \<Rightarrow> PNone | Some n \<Rightarrow> PInt n)]
             (s\<lparr>je_jobs := dict_set i d (je_jobs s)\<rparr>)))))))"

definition both_differ :: "string option \<Rightarrow> string option \<Rightarrow> bool" where
  "both_differ a b \<longleftrightarrow> a \<noteq> None \<and> b \<noteq> None \<and> a \<noteq> b"

definition restore_job :: "job_descriptor \<Rightarrow> job_state \<Rightarrow> (job_descriptor \<times> job_state) job_act" where
  "restore_job d x s =
     (if jd_job_id d \<noteq> jb_job_id x then (Inl (RuntimeCoreInvariantError ''descriptor and state job_id must match''), s)
      else if dict_get (je_jobs s) (jd_job_id d) \<noteq> None \<or> dict_get (je_states s) (jd_job_id d) \<noteq> None
      then (Inl (RuntimeCoreInvariantError (''job already restored: '' @ jd_job_id d)), s)
      else if both_differ (jb_goal_id x) (jd_goal_id d)
      then (Inl (RuntimeCoreInvariantError ''descriptor and state goal_id must match when both are present''), s)
      else if both_differ (jb_workflow_id x) (jd_workflow_id d)
      then (Inl (RuntimeCoreInvariantError ''descriptor and state workflow_id must match when both are present''), s)
      else (Inr (d, x), store_state x ''restore_job'' ''job_restored'' None
             (case jb_updated_at x of None \<Rightarrow> jd_created_at d | Some t \<Rightarrow> if t = [] then jd_created_at d else t)
             [(''name_hash'', PStr (sha256_hex (jd_name d))), (''description_hash'', PStr (sha256_hex (jd_description d))),
              (''priority'', PStr (job_priority_value (jd_priority d))), (''goal_id_hash'', hash_text (jd_goal_id d)),
              (''workflow_id_hash'', hash_text (jd_workflow_id d)), (''deadline_present'', PBool (jd_deadline d \<noteq> None)),
              (''sla_status'', PStr (sla_status_value (jb_sla_status x)))]
             (s\<lparr>je_jobs := dict_set (jd_job_id d) d (je_jobs s)\<rparr>)))"

definition list_job_descriptors :: "job_engine \<Rightarrow> job_descriptor list" where
  "list_job_descriptors s = map (\<lambda>i. the (dict_get (je_jobs s) i)) (sort_key id (dict_keys (je_jobs s)))"

definition list_job_states :: "job_engine \<Rightarrow> job_state list" where
  "list_job_states s = map (\<lambda>i. the (dict_get (je_states s) i)) (sort_key id (dict_keys (je_states s)))"

section \<open>Lifecycle\<close>

definition job_state_of :: "job_engine \<Rightarrow> string \<Rightarrow> job_state py" where
  "job_state_of s job_id = py_bind (ensure_non_empty_text ''job_id'' job_id) (\<lambda>_.
     case dict_get (je_states s) job_id of None \<Rightarrow> Inl (RuntimeCoreInvariantError ''job not found'') | Some x \<Rightarrow> Inr x)"

definition job_descriptor_of :: "job_engine \<Rightarrow> string \<Rightarrow> job_descriptor py" where
  "job_descriptor_of s job_id =
     (case dict_get (je_jobs s) job_id of None \<Rightarrow> Inl (RuntimeCoreInvariantError ''job not found'') | Some d \<Rightarrow> Inr d)"

definition job_transition ::
  "job_clock \<Rightarrow> string \<Rightarrow> job_status \<Rightarrow> string option \<Rightarrow> string option \<Rightarrow> (string \<times> pval) list \<Rightarrow> job_state job_act" where
  "job_transition clock job_id target mutation_type effect_name metadata s =
     act_bind (job_state_of s job_id, s) (\<lambda>current s.
     act_bind (assert_transition (jb_status current) target, s) (\<lambda>_ s.
     let (now, s) = job_now clock s
     in act_bind (check_job_state (plain_state job_id target (jb_sla_status current) now), s) (\<lambda>x s.
          (Inr x, store_state x
             (case mutation_type of Some m \<Rightarrow> m | None \<Rightarrow> ''transition_to_'' @ job_status_value target)
             (case effect_name of Some e \<Rightarrow> e | None \<Rightarrow> ''job_'' @ job_status_value target)
             (Some (jb_status current)) now metadata s))))"

definition start_job :: "job_clock \<Rightarrow> string \<Rightarrow> job_state job_act" where
  "start_job clock job_id s =
     act_bind (job_state_of s job_id, s) (\<lambda>current s.
     if jb_status current = JS_CREATED
     then let (now, s) = job_now clock s
          in act_bind (check_job_state ((plain_state job_id JS_IN_PROGRESS (jb_sla_status current) now)\<lparr>jb_started_at := Some now\<rparr>), s) (\<lambda>x s.
               (Inr x, store_state x ''start_job'' ''job_started'' (Some (jb_status current)) now [] s))
     else if jb_status current = JS_ASSIGNED
     then job_transition clock job_id JS_IN_PROGRESS (Some ''start_job'') (Some ''job_started'') [] s
     else act_bind (assert_transition (jb_status current) JS_IN_PROGRESS, s) (\<lambda>_ s.
          job_transition clock job_id JS_IN_PROGRESS None None [] s))"

definition pause_job :: "job_clock \<Rightarrow> string \<Rightarrow> pause_reason \<Rightarrow> (job_state \<times> pause_record) job_act" where
  "pause_job clock job_id reason s =
     act_bind (job_state_of s job_id, s) (\<lambda>current s.
     act_bind (assert_transition (jb_status current) JS_PAUSED, s) (\<lambda>_ s.
     let (now, s) = job_now clock s
     in act_bind (check_job_state ((plain_state job_id JS_PAUSED (jb_sla_status current) now)\<lparr>jb_pause_reason := Some reason\<rparr>), s) (\<lambda>x s.
        let s = store_state x ''pause_job'' ''job_paused'' (Some (jb_status current)) now [(''pause_reason'', PStr (pause_reason_value reason))] s
        in act_bind (check_pause \<lparr>pu_job_id = job_id, pu_paused_at = now, pu_reason = reason, pu_resumed_at = None\<rparr>, s) (\<lambda>r s.
             (Inr (x, r), s)))))"

definition resume_job :: "job_clock \<Rightarrow> string \<Rightarrow> string \<Rightarrow> string \<Rightarrow> (job_state \<times> resume_record) job_act" where
  "resume_job clock job_id resumed_by reason s =
     act_bind (ensure_non_empty_text ''resumed_by_id'' resumed_by, s) (\<lambda>_ s.
     act_bind (ensure_non_empty_text ''reason'' reason, s) (\<lambda>_ s.
     act_bind (job_transition clock job_id JS_IN_PROGRESS (Some ''resume_job'') (Some ''job_resumed'')
       [(''resumed_by_id_hash'', PStr (sha256_hex resumed_by)), (''reason_hash'', PStr (sha256_hex reason))] s) (\<lambda>x s.
     let (now, s) = job_now clock s
     in act_bind (check_resume \<lparr>ru_job_id = job_id, ru_resumed_at = now, ru_resumed_by_id = resumed_by, ru_reason = reason\<rparr>, s) (\<lambda>r s.
          (Inr (x, r), s)))))"

text \<open>\<open>current.started_at or descriptor.created_at\<close>.\<close>

definition started_at :: "job_state \<Rightarrow> job_descriptor \<Rightarrow> string" where
  "started_at x d = (case jb_started_at x of None \<Rightarrow> jd_created_at d | Some t \<Rightarrow> if t = [] then jd_created_at d else t)"

definition finish_record ::
  "job_clock \<Rightarrow> string \<Rightarrow> string \<Rightarrow> job_state \<Rightarrow> job_descriptor \<Rightarrow> job_status \<Rightarrow> string \<Rightarrow> string list \<Rightarrow> job_execution job_act" where
  "finish_record clock job_id stamp current d st summary errors s =
     (let (now, s) = job_now clock s
      in (py_bind (stable_identifier ''job-exec'' [(''job_id'', JStr job_id), (stamp, JStr now)]) (\<lambda>i.
          check_job_execution \<lparr>jx_job_id = job_id, jx_execution_id = i, jx_status = st, jx_started_at = started_at current d,
            jx_outcome_summary = summary, jx_errors = errors, jx_completed_at = Some now,
            jx_execution_mode = EM_REAL\<rparr>), s))"

definition complete_job :: "job_clock \<Rightarrow> string \<Rightarrow> string \<Rightarrow> (job_state \<times> job_execution) job_act" where
  "complete_job clock job_id summary s =
     act_bind (ensure_non_empty_text ''outcome_summary'' summary, s) (\<lambda>_ s.
     act_bind (job_descriptor_of s job_id, s) (\<lambda>d s.
     act_bind (job_state_of s job_id, s) (\<lambda>current s.
     act_bind (job_transition clock job_id JS_COMPLETED (Some ''complete_job'') (Some ''job_completed'')
       [(''outcome_summary_hash'', PStr (sha256_hex summary))] s) (\<lambda>x s.
     act_bind (finish_record clock job_id ''completed_at'' current d JS_COMPLETED summary [] s) (\<lambda>r s. (Inr (x, r), s))))))"

definition fail_job :: "job_clock \<Rightarrow> string \<Rightarrow> string list \<Rightarrow> (job_state \<times> job_execution) job_act" where
  "fail_job clock job_id errors s =
     act_bind (job_descriptor_of s job_id, s) (\<lambda>d s.
     act_bind (job_state_of s job_id, s) (\<lambda>current s.
     act_bind (job_transition clock job_id JS_FAILED (Some ''fail_job'') (Some ''job_failed'')
       [(''error_count'', PInt (int (length errors))), (''errors_hash'', PStr (sha256_hex (dumps_compact (JArr (map JStr errors)))))] s) (\<lambda>x s.
     act_bind (finish_record clock job_id ''failed_at'' current d JS_FAILED (if errors = [] then ''failed'' else py_join ''; '' errors) errors s) (\<lambda>r s.
       (Inr (x, r), s)))))"

definition cancel_job :: "job_clock \<Rightarrow> string \<Rightarrow> string \<Rightarrow> job_state job_act" where
  "cancel_job clock job_id reason s =
     act_bind (ensure_non_empty_text ''reason'' reason, s) (\<lambda>_ s.
     job_transition clock job_id JS_CANCELLED (Some ''cancel_job'') (Some ''job_cancelled'') [(''reason_hash'', PStr (sha256_hex reason))] s)"

section \<open>Deadlines\<close>

definition parse_time :: "string \<Rightarrow> (int \<times> int option) py" where
  "parse_time t = (case iso_value t of None \<Rightarrow> Inl (ValueError ''Invalid isoformat string'') | Some v \<Rightarrow> Inr v)"

text \<open>The difference of two date-times in microseconds.\<close>

definition time_between :: "int \<times> int option \<Rightarrow> int \<times> int option \<Rightarrow> int py" where
  "time_between a b =
     (case (snd a, snd b) of
        (None, None) \<Rightarrow> Inr (fst a - fst b)
      | (Some u, Some v) \<Rightarrow> Inr ((fst a - u) - (fst b - v))
      | _ \<Rightarrow> Inl (TypeError ''can't subtract offset-naive and offset-aware datetimes''))"

text \<open>\<open>timedelta(minutes=n)\<close> in microseconds, and its product with the float 0.8.\<close>

definition minutes :: "int \<Rightarrow> int py" where
  "minutes n = (if \<bar>n div 1440\<bar> > 999999999 then Inl OverflowError else Inr (60000000 * n))"

definition four_fifths :: "int \<Rightarrow> int" where
  "four_fifths us = rhe (of_int us * (3602879701896397 / 4503599627370496))"

definition sla_verdict :: "string \<Rightarrow> string \<Rightarrow> int \<Rightarrow> sla_status py" where
  "sla_verdict created now m =
     py_bind (parse_time created) (\<lambda>c.
     py_bind (parse_time now) (\<lambda>n.
     py_bind (time_between n c) (\<lambda>elapsed.
     py_bind (minutes m) (\<lambda>target.
       Inr (if target = 0 then SLA_BREACHED
            else if target < elapsed then SLA_BREACHED
            else if four_fifths target \<le> elapsed then SLA_AT_RISK
            else SLA_ON_TRACK)))))"

definition evaluate_sla :: "string \<Rightarrow> string \<Rightarrow> job_engine \<Rightarrow> deadline_record py" where
  "evaluate_sla job_id now s =
     py_bind (job_descriptor_of s job_id) (\<lambda>d.
     py_bind (job_state_of s job_id) (\<lambda>_.
     let deadline = (case jd_deadline d of None \<Rightarrow> jd_created_at d | Some t \<Rightarrow> if t = [] then jd_created_at d else t)
     in case jd_sla_target_minutes d of
          None \<Rightarrow> check_deadline \<lparr>dl_job_id = job_id, dl_deadline = deadline, dl_sla_status = SLA_NOT_APPLICABLE, dl_evaluated_at = now,
                    dl_sla_target_minutes = None\<rparr>
        | Some m \<Rightarrow> py_bind (sla_verdict (jd_created_at d) now m) (\<lambda>v.
            check_deadline \<lparr>dl_job_id = job_id, dl_deadline = deadline, dl_sla_status = v, dl_evaluated_at = now,
              dl_sla_target_minutes = Some m\<rparr>)))"

definition schedule_follow_up :: "string \<Rightarrow> string \<Rightarrow> string \<Rightarrow> job_engine \<Rightarrow> follow_up py" where
  "schedule_follow_up job_id reason scheduled_at s =
     py_bind (ensure_non_empty_text ''reason'' reason) (\<lambda>_.
     py_bind (job_state_of s job_id) (\<lambda>_.
     py_bind (stable_identifier ''follow-up'' [(''job_id'', JStr job_id), (''scheduled_at'', JStr scheduled_at)]) (\<lambda>i.
     check_follow_up \<lparr>fu_follow_up_id = i, fu_job_id = job_id, fu_reason = reason, fu_scheduled_at = scheduled_at, fu_resolved = False,
       fu_executed_at = None\<rparr>)))"

definition job_receipts :: "job_engine \<Rightarrow> int \<Rightarrow> job_receipt list" where
  "job_receipts s limit = (if limit \<le> 0 then [] else last_n (nat limit) (je_receipts s))"

definition job_receipt_dict :: "job_receipt \<Rightarrow> (string \<times> pval) list" where
  "job_receipt_dict r =
     [(''receipt_id'', PStr (jr_receipt_id r)), (''mutation_type'', PStr (jr_mutation_type r)), (''effect_name'', PStr (jr_effect_name r)),
      (''job_id'', PStr (jr_job_id r)), (''evidence_ref'', PStr (jr_evidence_ref r)),
      (''previous_status'', case jr_previous_status r of None \<Rightarrow> PNone | Some t \<Rightarrow> PStr t), (''new_status'', PStr (jr_new_status r)),
      (''recorded_at'', PStr (jr_recorded_at r)), (''metadata'', PDict (jr_metadata r))]"

text \<open>A receipt as an effect of the execution layer: a name and details.\<close>

definition receipt_effect :: "job_receipt \<Rightarrow> (string \<times> (string \<times> pval) list) py" where
  "receipt_effect r =
     py_bind (require_non_empty_text (jr_effect_name r) ''name'') (\<lambda>_. Inr (jr_effect_name r,
       [(''receipt_id'', PStr (jr_receipt_id r)), (''mutation_type'', PStr (jr_mutation_type r)), (''job_id'', PStr (jr_job_id r)),
        (''evidence_ref'', PStr (jr_evidence_ref r)),
        (''previous_status'', case jr_previous_status r of None \<Rightarrow> PNone | Some t \<Rightarrow> PStr t), (''new_status'', PStr (jr_new_status r)),
        (''observed_at'', PStr (jr_recorded_at r)), (''metadata'', PDict (jr_metadata r)), (''source'', PStr ''job_engine'')]))"

fun receipt_effects :: "job_receipt list \<Rightarrow> (string \<times> (string \<times> pval) list) list py" where
  "receipt_effects [] = Inr []"
| "receipt_effects (r # rs) = py_bind (receipt_effect r) (\<lambda>e. py_bind (receipt_effects rs) (\<lambda>es. Inr (e # es)))"

definition job_effects :: "job_engine \<Rightarrow> int \<Rightarrow> (string \<times> (string \<times> pval) list) list py" where
  "job_effects s limit = receipt_effects (job_receipts s limit)"

definition finished :: "job_status \<Rightarrow> bool" where
  "finished st \<longleftrightarrow> st \<in> {JS_COMPLETED, JS_FAILED, JS_CANCELLED, JS_ARCHIVED}"

fun overdue_among :: "(string, job_state) pydict \<Rightarrow> int \<times> int option \<Rightarrow> (string, job_descriptor) pydict \<Rightarrow> string list py" where
  "overdue_among states now [] = Inr []"
| "overdue_among states now ((i, d) # ds) =
     (case (jd_deadline d, dict_get states i) of
        (Some t, Some x) \<Rightarrow>
          if finished (jb_status x) then overdue_among states now ds
          else py_bind (parse_time t) (\<lambda>v.
               py_bind (datetime_ge v now) (\<lambda>in_time.
               py_bind (overdue_among states now ds) (\<lambda>is. Inr (if in_time then is else i # is))))
      | _ \<Rightarrow> overdue_among states now ds)"

definition find_overdue_jobs :: "job_engine \<Rightarrow> string \<Rightarrow> string list py" where
  "find_overdue_jobs s now = py_bind (parse_time now) (\<lambda>n. overdue_among (je_states s) n (je_jobs s))"

fun stale_among :: "int \<Rightarrow> int \<times> int option \<Rightarrow> (string, job_state) pydict \<Rightarrow> string list py" where
  "stale_among threshold now [] = Inr []"
| "stale_among threshold now ((i, x) # xs) =
     (case jb_updated_at x of
        None \<Rightarrow> stale_among threshold now xs
      | Some t \<Rightarrow>
          if finished (jb_status x) then stale_among threshold now xs
          else py_bind (parse_time t) (\<lambda>v.
               py_bind (time_between now v) (\<lambda>idle.
               py_bind (stale_among threshold now xs) (\<lambda>is. Inr (if threshold < idle then i # is else is)))))"

definition find_stale_jobs :: "job_engine \<Rightarrow> int \<Rightarrow> string \<Rightarrow> string list py" where
  "find_stale_jobs s max_idle_minutes now =
     py_bind (parse_time now) (\<lambda>n. py_bind (minutes max_idle_minutes) (\<lambda>threshold. stale_among threshold n (je_states s)))"

section \<open>What an operation does\<close>

definition same_jobs :: "job_engine \<Rightarrow> job_engine \<Rightarrow> bool" where
  "same_jobs s t \<longleftrightarrow> je_jobs t = je_jobs s \<and> je_states t = je_states s \<and> je_receipts t = je_receipts s"

text \<open>One state is stored, with one receipt that tells its old and its new status.\<close>

definition stored_state :: "job_engine \<Rightarrow> job_engine \<Rightarrow> job_state \<Rightarrow> job_status option \<Rightarrow> bool" where
  "stored_state s t x previous \<longleftrightarrow>
     je_states t = dict_set (jb_job_id x) x (je_states s) \<and>
     (\<exists>r. je_receipts t = je_receipts s @ [r] \<and> jr_job_id r = jb_job_id x \<and>
        jr_previous_status r = map_option job_status_value previous \<and> jr_new_status r = job_status_value (jb_status x))"

definition job_moved :: "job_engine \<Rightarrow> job_engine \<Rightarrow> job_state \<Rightarrow> bool" where
  "job_moved s t x \<longleftrightarrow> je_jobs t = je_jobs s \<and>
     (\<exists>old. dict_get (je_states s) (jb_job_id x) = Some old \<and> jb_status x \<in> VALID_JOB_TRANSITIONS (jb_status old) \<and>
        jb_status x \<in> {JS_IN_PROGRESS, JS_PAUSED, JS_COMPLETED, JS_FAILED, JS_CANCELLED} \<and> stored_state s t x (Some (jb_status old)))"

definition job_filed :: "job_engine \<Rightarrow> job_engine \<Rightarrow> job_descriptor \<Rightarrow> job_state \<Rightarrow> bool" where
  "job_filed s t d x \<longleftrightarrow> je_jobs t = dict_set (jb_job_id x) d (je_jobs s) \<and> jd_job_id d = jb_job_id x \<and> stored_state s t x None"

lemma same_jobs_refl [simp]: "same_jobs s s" "same_jobs s (s\<lparr>je_reads := n\<rparr>)"
  by (simp_all add: same_jobs_def)

lemma same_jobs_trans: "same_jobs s u \<Longrightarrow> same_jobs u t \<Longrightarrow> same_jobs s t"
  by (simp add: same_jobs_def)

lemma same_then_moved: "same_jobs s u \<Longrightarrow> job_moved u t x \<Longrightarrow> job_moved s t x"
  by (simp add: same_jobs_def job_moved_def stored_state_def)

lemma moved_then_same: "job_moved s u x \<Longrightarrow> same_jobs u t \<Longrightarrow> job_moved s t x"
  by (simp add: same_jobs_def job_moved_def stored_state_def)

lemma store_state_stored:
  "stored_state s (store_state x m e previous now d s) x previous" "je_jobs (store_state x m e previous now d s) = je_jobs s"
  by (simp_all add: stored_state_def store_state_def job_mutation_def Let_def)

lemma stored_after:
  "je_states u = je_states s \<Longrightarrow> je_receipts u = je_receipts s \<Longrightarrow>
   stored_state s (store_state x m e previous now d u) x previous"
  by (simp add: stored_state_def store_state_def job_mutation_def Let_def)

lemma checked_state: "check_job_state x = Inr y \<Longrightarrow> y = x"
  by (auto simp: check_job_state_def py_bind_Inr_iff)

lemma state_of_iff: "job_state_of s i = Inr x \<longleftrightarrow> \<not> blank i \<and> dict_get (je_states s) i = Some x"
  by (auto simp: job_state_of_def py_bind_Inr_iff ensure_non_empty_text_def split: option.splits if_splits)

lemma transition_cases:
  assumes "job_transition clock i target m e d s = (r, t)"
  shows "(\<exists>er. r = Inl er) \<and> same_jobs s t \<or>
    (\<exists>x old. r = Inr x \<and> jb_job_id x = i \<and> jb_status x = target \<and> jb_started_at x = None \<and> je_jobs t = je_jobs s \<and>
      dict_get (je_states s) i = Some old \<and> target \<in> VALID_JOB_TRANSITIONS (jb_status old) \<and> stored_state s t x (Some (jb_status old)))"
proof (cases "job_state_of s i")
  case (Inl er)
  then have "r = Inl er \<and> t = s" using assms by (simp add: job_transition_def act_bind_def)
  then show ?thesis by simp
next
  case (Inr old)
  then have old: "dict_get (je_states s) i = Some old" by (simp add: state_of_iff)
  let ?u = "s\<lparr>je_reads := Suc (je_reads s)\<rparr>"
  let ?x = "plain_state i target (jb_sla_status old) (clock (je_reads s))"
  show ?thesis
  proof (cases "target \<in> VALID_JOB_TRANSITIONS (jb_status old)")
    case False
    then have "r = Inl (RuntimeCoreInvariantError ''invalid job state transition'') \<and> t = s"
      using assms Inr by (simp add: job_transition_def act_bind_def assert_transition_def)
    then show ?thesis by simp
  next
    case True
    show ?thesis
    proof (cases "check_job_state ?x")
      case (Inl er)
      then have "r = Inl er \<and> t = ?u" using assms Inr True \<open>job_state_of s i = Inr old\<close>
        by (simp add: job_transition_def act_bind_def assert_transition_def job_now_def)
      then show ?thesis by simp
    next
      case ok: (Inr y)
      then have y: "y = ?x" by (rule checked_state)
      obtain m' e' where "r = Inr ?x" "t = store_state ?x m' e' (Some (jb_status old)) (clock (je_reads s)) d ?u"
        using assms \<open>job_state_of s i = Inr old\<close> True ok y by (auto simp: job_transition_def act_bind_def assert_transition_def job_now_def)
      then show ?thesis using old True stored_after[of ?u s ?x m' e' "Some (jb_status old)"]
        by (intro disjI2 exI[of _ ?x] exI[of _ old]) (simp add: store_state_stored, simp add: plain_state_def)
    qed
  qed
qed

lemma transition_moves:
  assumes "job_transition clock i target m e d s = (r, t)" and "target \<in> {JS_IN_PROGRESS, JS_PAUSED, JS_COMPLETED, JS_FAILED, JS_CANCELLED}"
  shows "same_jobs s t \<and> (\<exists>er. r = Inl er) \<or> (\<exists>x. r = Inr x \<and> job_moved s t x)"
  using transition_cases[OF assms(1)] assms(2) unfolding job_moved_def by blast

text \<open>The operations of the engine that change it.\<close>

inductive job_step :: "job_clock \<Rightarrow> job_engine \<Rightarrow> job_engine \<Rightarrow> bool" for clock where
  js_create: "job_step clock s (snd (create_job clock name description priority goal workflow deadline sla s))"
| js_restore: "check_job_descriptor d = Inr d \<Longrightarrow> check_job_state x = Inr x \<Longrightarrow> job_step clock s (snd (restore_job d x s))"
| js_start: "job_step clock s (snd (start_job clock i s))"
| js_pause: "job_step clock s (snd (pause_job clock i p s))"
| js_resume: "job_step clock s (snd (resume_job clock i by_id reason s))"
| js_complete: "job_step clock s (snd (complete_job clock i summary s))"
| js_fail: "job_step clock s (snd (fail_job clock i errors s))"
| js_cancel: "job_step clock s (snd (cancel_job clock i reason s))"

abbreviation job_run :: "job_clock \<Rightarrow> job_engine \<Rightarrow> job_engine \<Rightarrow> bool" where
  "job_run clock \<equiv> (job_step clock)\<^sup>*\<^sup>*"

text \<open>Nothing, a legal move, or a new entry.\<close>

definition job_acts :: "job_engine \<Rightarrow> job_engine \<Rightarrow> bool" where
  "job_acts s t \<longleftrightarrow> same_jobs s t \<or> (\<exists>x. job_moved s t x) \<or> (\<exists>d x. job_filed s t d x)"

lemma then_reads:
  assumes "act_bind a f = (r, t)" and "same_jobs s (snd a) \<or> (\<exists>x. job_moved s (snd a) x)"
    and "\<And>y u r t. f y u = (r, t) \<Longrightarrow> same_jobs u t"
  shows "same_jobs s t \<or> (\<exists>x. job_moved s t x)"
proof -
  obtain y u where a: "a = (y, u)" by (cases a)
  show ?thesis
  proof (cases y)
    case (Inl er)
    then show ?thesis using assms(1,2) a by (simp add: act_bind_def)
  next
    case (Inr z)
    then have "f z u = (r, t)" using assms(1) a by (simp add: act_bind_def)
    then have "same_jobs u t" by (rule assms(3))
    then show ?thesis using assms(2) moved_then_same same_jobs_trans unfolding a snd_conv by blast
  qed
qed

lemma finish_reads: "finish_record clock i stamp c d st sm es s = (r, t) \<Longrightarrow> same_jobs s t"
  by (auto simp: finish_record_def job_now_def Let_def)

lemma guard_same:
  assumes "act_bind (v, s) f = (r, t)" and "\<And>y. f y s = (r, t) \<Longrightarrow> P t" and "P s"
  shows "P t"
  using assms by (cases v) (auto simp: act_bind_def)


lemma transition_acts:
  "target \<in> {JS_IN_PROGRESS, JS_PAUSED, JS_COMPLETED, JS_FAILED, JS_CANCELLED} \<Longrightarrow>
   same_jobs s (snd (job_transition clock i target m e d s)) \<or> (\<exists>x. job_moved s (snd (job_transition clock i target m e d s)) x)"
  using transition_moves[OF prod.collapse[symmetric]] by blast

definition job_act_moves :: "job_engine \<Rightarrow> job_engine \<Rightarrow> bool" where
  "job_act_moves s t \<longleftrightarrow> same_jobs s t \<or> (\<exists>x. job_moved s t x)"

lemma moves_refl [simp]: "job_act_moves s s"
  by (simp add: job_act_moves_def)

lemma guarded_moves:
  assumes "\<And>y. job_act_moves s (snd (f y s))"
  shows "job_act_moves s (snd (act_bind (v, s) f))"
  using assms by (cases v) (simp_all add: act_bind_def)

lemma moves_then_reads:
  assumes "job_act_moves s (snd a)" and "\<And>y u. same_jobs u (snd (f y u))"
  shows "job_act_moves s (snd (act_bind a f))"
  using then_reads[of a f "fst (act_bind a f)" "snd (act_bind a f)" s] assms unfolding job_act_moves_def
  by (metis prod.collapse snd_conv)

text \<open>Storing a state built for a legal move.\<close>

lemma store_moves:
  assumes "job_state_of s i = Inr old" and "check_job_state x = Inr x" and "jb_job_id x = i"
    and "jb_status x \<in> VALID_JOB_TRANSITIONS (jb_status old)"
    and "jb_status x \<in> {JS_IN_PROGRESS, JS_PAUSED, JS_COMPLETED, JS_FAILED, JS_CANCELLED}"
  shows "job_act_moves s (store_state x m e (Some (jb_status old)) now d (s\<lparr>je_reads := n\<rparr>))"
proof -
  have "stored_state s (store_state x m e (Some (jb_status old)) now d (s\<lparr>je_reads := n\<rparr>)) x (Some (jb_status old))"
    by (rule stored_after) simp_all
  then have "job_moved s (store_state x m e (Some (jb_status old)) now d (s\<lparr>je_reads := n\<rparr>)) x"
    unfolding job_moved_def using assms by (auto simp: state_of_iff store_state_stored)
  then show ?thesis unfolding job_act_moves_def by blast
qed

lemma start_acts: "job_act_moves s (snd (start_job clock i s))"
proof (cases "job_state_of s i")
  case (Inl er)
  then show ?thesis by (simp add: start_job_def act_bind_def)
next
  case (Inr old)
  have tr: "job_act_moves s (snd (job_transition clock i JS_IN_PROGRESS m e d s))" for m e d
    unfolding job_act_moves_def by (rule transition_acts) simp
  let ?x = "(plain_state i JS_IN_PROGRESS (jb_sla_status old) (clock (je_reads s)))\<lparr>jb_started_at := Some (clock (je_reads s))\<rparr>"
  show ?thesis
  proof (cases "jb_status old = JS_CREATED")
    case True
    show ?thesis
    proof (cases "check_job_state ?x")
      case (Inl er)
      then show ?thesis using Inr True by (simp add: start_job_def act_bind_def job_now_def job_act_moves_def)
    next
      case ok: (Inr y)
      then have y: "y = ?x" by (rule checked_state)
      have "snd (start_job clock i s) = store_state ?x ''start_job'' ''job_started'' (Some (jb_status old)) (clock (je_reads s)) []
          (s\<lparr>je_reads := Suc (je_reads s)\<rparr>)"
        using Inr True ok y by (simp add: start_job_def act_bind_def job_now_def)
      moreover have "job_act_moves s (store_state ?x ''start_job'' ''job_started'' (Some (jb_status old)) (clock (je_reads s)) []
          (s\<lparr>je_reads := Suc (je_reads s)\<rparr>))"
        by (rule store_moves[OF Inr]) (use ok y True in \<open>simp_all add: plain_state_def VALID_JOB_TRANSITIONS_def\<close>)
      ultimately show ?thesis by simp
    qed
  next
    case False
    then show ?thesis using Inr tr by (auto simp: start_job_def act_bind_def assert_transition_def)
  qed
qed

lemma pause_acts: "job_act_moves s (snd (pause_job clock i p s))"
proof (cases "job_state_of s i")
  case (Inl er)
  then show ?thesis by (simp add: pause_job_def act_bind_def)
next
  case (Inr old)
  let ?x = "(plain_state i JS_PAUSED (jb_sla_status old) (clock (je_reads s)))\<lparr>jb_pause_reason := Some p\<rparr>"
  show ?thesis
  proof (cases "JS_PAUSED \<in> VALID_JOB_TRANSITIONS (jb_status old)")
    case False
    then show ?thesis using Inr by (simp add: pause_job_def act_bind_def assert_transition_def)
  next
    case True
    show ?thesis
    proof (cases "check_job_state ?x")
      case (Inl er)
      then show ?thesis using Inr True by (simp add: pause_job_def act_bind_def assert_transition_def job_now_def job_act_moves_def)
    next
      case ok: (Inr y)
      then have y: "y = ?x" by (rule checked_state)
      have "snd (pause_job clock i p s) = store_state ?x ''pause_job'' ''job_paused'' (Some (jb_status old)) (clock (je_reads s))
          [(''pause_reason'', PStr (pause_reason_value p))] (s\<lparr>je_reads := Suc (je_reads s)\<rparr>)"
        using Inr True ok y by (simp add: pause_job_def act_bind_def assert_transition_def job_now_def Let_def split: sum.split)
      moreover have "job_act_moves s (store_state ?x ''pause_job'' ''job_paused'' (Some (jb_status old)) (clock (je_reads s))
          [(''pause_reason'', PStr (pause_reason_value p))] (s\<lparr>je_reads := Suc (je_reads s)\<rparr>))"
        by (rule store_moves[OF Inr]) (use ok y True in \<open>simp_all add: plain_state_def\<close>)
      ultimately show ?thesis by simp
    qed
  qed
qed

lemma resume_acts: "job_act_moves s (snd (resume_job clock i w reason s))"
  unfolding resume_job_def
  by (intro guarded_moves moves_then_reads)
     (auto simp: job_act_moves_def job_now_def act_bind_def Let_def intro!: transition_acts split: sum.split)

lemma complete_acts: "job_act_moves s (snd (complete_job clock i summary s))"
  unfolding complete_job_def
  by (intro guarded_moves moves_then_reads)
     (auto simp: job_act_moves_def act_bind_def intro!: transition_acts finish_reads split: sum.split prod.split)

lemma fail_acts: "job_act_moves s (snd (fail_job clock i errors s))"
  unfolding fail_job_def
  by (intro guarded_moves moves_then_reads)
     (auto simp: job_act_moves_def act_bind_def intro!: transition_acts finish_reads split: sum.split prod.split)

lemma cancel_acts: "job_act_moves s (snd (cancel_job clock i reason s))"
  unfolding cancel_job_def
  by (intro guarded_moves) (auto simp: job_act_moves_def intro!: transition_acts)

lemma checked_descriptor: "check_job_descriptor x = Inr y \<Longrightarrow> y = x"
  by (auto simp: check_job_descriptor_def py_bind_Inr_iff)

lemma create_cases:
  assumes "create_job clock name description priority goal workflow deadline sla s = (r, t)"
  shows "(\<exists>er. r = Inl er) \<and> same_jobs s t \<or>
    (\<exists>d x. r = Inr (d, x) \<and> job_filed s t d x \<and> jb_status x = JS_CREATED \<and> jd_name d = name \<and>
      stable_identifier ''job'' [(''name'', JStr name), (''created_at'', JStr (clock (je_reads s)))] = Inr (jb_job_id x))"
proof (cases "ensure_non_empty_text ''name'' name = Inr name \<and> ensure_non_empty_text ''description'' description = Inr description")
  case False
  then have "(\<exists>er. r = Inl er) \<and> t = s" using assms
    by (auto simp: create_job_def act_bind_def ensure_non_empty_text_def split: if_splits)
  then show ?thesis by simp
next
  case ok: True
  let ?now = "clock (je_reads s)" and ?u = "s\<lparr>je_reads := Suc (je_reads s)\<rparr>"
  have "\<not> blank ''job''" by code_simp
  then obtain i where i: "stable_identifier ''job'' [(''name'', JStr name), (''created_at'', JStr ?now)] = Inr i"
    using stable_identifier_total by metis
  let ?d = "\<lparr>jd_job_id = i, jd_name = name, jd_description = description, jd_priority = priority, jd_created_at = ?now, jd_goal_id = goal,
      jd_workflow_id = workflow, jd_deadline = deadline, jd_sla_target_minutes = sla, jd_metadata = []\<rparr>"
  let ?x = "plain_state i JS_CREATED SLA_NOT_APPLICABLE ?now"
  show ?thesis
  proof (cases "check_job_descriptor ?d = Inr ?d \<and> check_job_state ?x = Inr ?x")
    case False
    then have "(\<exists>er. r = Inl er) \<and> t = ?u" using assms ok i
      by (auto simp: create_job_def act_bind_def job_now_def dest: checked_descriptor checked_state split: sum.splits)
    then show ?thesis by auto
  next
    case True
    obtain m where r: "r = Inr (?d, ?x)" "t = store_state ?x ''create_job'' ''job_created'' None ?now m (?u\<lparr>je_jobs := dict_set i ?d (je_jobs ?u)\<rparr>)"
      using assms ok i True by (auto simp: create_job_def act_bind_def job_now_def)
    have "stored_state s t ?x None" unfolding r(2) by (rule stored_after) simp_all
    then have "job_filed s t ?d ?x" using r(2) by (simp add: job_filed_def store_state_stored) (simp add: plain_state_def)
    then show ?thesis using r(1) i by (intro disjI2 exI[of _ ?d] exI[of _ ?x]) (simp add: plain_state_def)
  qed
qed

lemma restore_cases:
  assumes "restore_job d x s = (r, t)"
  shows "(\<exists>er. r = Inl er) \<and> t = s \<or> r = Inr (d, x) \<and> job_filed s t d x \<and> dict_get (je_states s) (jb_job_id x) = None"
proof (cases "jd_job_id d = jb_job_id x \<and> dict_get (je_jobs s) (jd_job_id d) = None \<and> dict_get (je_states s) (jd_job_id d) = None \<and>
    \<not> both_differ (jb_goal_id x) (jd_goal_id d) \<and> \<not> both_differ (jb_workflow_id x) (jd_workflow_id d)")
  case False
  then have "(\<exists>er. r = Inl er) \<and> t = s" using assms by (auto simp: restore_job_def split: if_splits)
  then show ?thesis by blast
next
  case True
  then obtain now m where r: "r = Inr (d, x)" "t = store_state x ''restore_job'' ''job_restored'' None now m
      (s\<lparr>je_jobs := dict_set (jd_job_id d) d (je_jobs s)\<rparr>)"
    using assms by (auto simp: restore_job_def)
  have "stored_state s t x None" unfolding r(2) by (rule stored_after) simp_all
  moreover have ids: "jd_job_id d = jb_job_id x" using True by blast
  moreover have "je_jobs t = dict_set (jb_job_id x) d (je_jobs s)" unfolding r(2) store_state_stored(2) by (simp add: ids)
  ultimately have "job_filed s t d x" by (simp add: job_filed_def)
  moreover have "dict_get (je_states s) (jb_job_id x) = None" using True ids by metis
  ultimately show ?thesis using r(1) by blast
qed

lemma create_acts: "job_act_moves s (snd (create_job clock name description priority goal workflow deadline sla s)) \<or>
    (\<exists>d x. job_filed s (snd (create_job clock name description priority goal workflow deadline sla s)) d x)"
  using create_cases[OF prod.collapse[symmetric], of clock name description priority goal workflow deadline sla s]
  unfolding job_act_moves_def by blast

lemma refile_acts: "job_act_moves s (snd (restore_job d x s)) \<or> (\<exists>d' x'. job_filed s (snd (restore_job d x s)) d' x')"
  using restore_cases[OF prod.collapse[symmetric], of d x s] unfolding job_act_moves_def by (metis same_jobs_refl(1))

lemma job_step_acts: "job_step clock s t \<Longrightarrow> job_act_moves s t \<or> (\<exists>d x. job_filed s t d x)"
  by (induction rule: job_step.induct)
     (rule create_acts refile_acts | rule disjI1, rule start_acts pause_acts resume_acts complete_acts fail_acts cancel_acts)+

section \<open>The receipts tell the state\<close>

text \<open>The status the receipts of a job leave it in.\<close>

fun receipt_status :: "job_receipt list \<Rightarrow> string \<Rightarrow> string option" where
  "receipt_status [] k = None"
| "receipt_status (r # rs) k = (case receipt_status rs k of Some v \<Rightarrow> Some v | None \<Rightarrow> if jr_job_id r = k then Some (jr_new_status r) else None)"

lemma receipt_status_snoc: "receipt_status (rs @ [r]) k = (if jr_job_id r = k then Some (jr_new_status r) else receipt_status rs k)"
  by (induction rs) auto

definition legal_receipt :: "job_receipt list \<Rightarrow> job_receipt \<Rightarrow> bool" where
  "legal_receipt before r \<longleftrightarrow> jr_previous_status r = None \<or>
     (\<exists>a b. jr_previous_status r = Some (job_status_value a) \<and> jr_new_status r = job_status_value b \<and>
        b \<in> VALID_JOB_TRANSITIONS a \<and> receipt_status before (jr_job_id r) = jr_previous_status r)"

definition receipts_tell :: "job_engine \<Rightarrow> bool" where
  "receipts_tell s \<longleftrightarrow>
     (\<forall>k. receipt_status (je_receipts s) k = map_option (\<lambda>x. job_status_value (jb_status x)) (dict_get (je_states s) k)) \<and>
     (\<forall>i < length (je_receipts s). legal_receipt (take i (je_receipts s)) (je_receipts s ! i))"

lemma stored_tells:
  assumes "receipts_tell s" and "stored_state s t x previous"
    and "\<And>st. previous = Some st \<Longrightarrow> jb_status x \<in> VALID_JOB_TRANSITIONS st \<and>
      (\<exists>old. dict_get (je_states s) (jb_job_id x) = Some old \<and> jb_status old = st)"
  shows "receipts_tell t"
proof -
  obtain r where r: "je_states t = dict_set (jb_job_id x) x (je_states s)" "je_receipts t = je_receipts s @ [r]"
    "jr_job_id r = jb_job_id x" "jr_previous_status r = map_option job_status_value previous" "jr_new_status r = job_status_value (jb_status x)"
    using assms(2) unfolding stored_state_def by blast
  have "legal_receipt (je_receipts s) r"
  proof (cases previous)
    case None
    then show ?thesis using r(4) by (simp add: legal_receipt_def)
  next
    case (Some st)
    then obtain old where old: "jb_status x \<in> VALID_JOB_TRANSITIONS st" "dict_get (je_states s) (jb_job_id x) = Some old" "jb_status old = st"
      using assms(3) by blast
    then have "receipt_status (je_receipts s) (jb_job_id x) = Some (job_status_value st)" using assms(1) by (simp add: receipts_tell_def)
    then show ?thesis using r(3-5) Some old(1) by (auto simp: legal_receipt_def)
  qed
  then have "legal_receipt (take i (je_receipts t)) (je_receipts t ! i)" if "i < length (je_receipts t)" for i
    using that assms(1) r(2) by (cases "i = length (je_receipts s)") (auto simp: receipts_tell_def nth_append)
  moreover have "receipt_status (je_receipts t) k = map_option (\<lambda>x. job_status_value (jb_status x)) (dict_get (je_states t) k)" for k
    using assms(1) r by (auto simp: receipts_tell_def receipt_status_snoc)
  ultimately show ?thesis by (simp add: receipts_tell_def)
qed

lemma acts_tell:
  assumes "job_act_moves s t \<or> (\<exists>d x. job_filed s t d x)" and "receipts_tell s"
  shows "receipts_tell t"
  using assms(1)
proof (elim disjE exE)
  assume "job_act_moves s t"
  then show ?thesis unfolding job_act_moves_def
  proof (elim disjE exE)
    assume "same_jobs s t"
    then show ?thesis using assms(2) by (simp add: same_jobs_def receipts_tell_def)
  next
    fix x assume "job_moved s t x"
    then show ?thesis using stored_tells[OF assms(2)] unfolding job_moved_def by blast
  qed
next
  fix d x assume "job_filed s t d x"
  then show ?thesis using stored_tells[OF assms(2)] unfolding job_filed_def by blast
qed

section \<open>Lives of jobs\<close>

text \<open>The receipts of a job between two states of the engine.\<close>

definition new_receipts :: "job_engine \<Rightarrow> job_engine \<Rightarrow> string \<Rightarrow> job_receipt list" where
  "new_receipts s t k = filter (\<lambda>r. jr_job_id r = k) (drop (length (je_receipts s)) (je_receipts t))"

text \<open>One of them is of a creation or a restoration, which name no previous status.\<close>

definition recreated :: "job_engine \<Rightarrow> job_engine \<Rightarrow> string \<Rightarrow> bool" where
  "recreated s t k \<longleftrightarrow> list_ex (\<lambda>r. jr_previous_status r = None) (new_receipts s t k)"

definition receipts_grow :: "job_engine \<Rightarrow> job_engine \<Rightarrow> bool" where
  "receipts_grow s t \<longleftrightarrow> (\<exists>rs. je_receipts t = je_receipts s @ rs)"

text \<open>Receipts that lead from one status to another, each of them by a single move of the table.\<close>

fun receipt_path :: "job_status \<Rightarrow> job_receipt list \<Rightarrow> job_status \<Rightarrow> bool" where
  "receipt_path a [] b \<longleftrightarrow> a = b"
| "receipt_path a (r # rs) b \<longleftrightarrow>
     (\<exists>c \<in> VALID_JOB_TRANSITIONS a. jr_previous_status r = Some (job_status_value a) \<and>
        jr_new_status r = job_status_value c \<and> receipt_path c rs b)"

lemma receipt_path_append: "receipt_path a rs b \<Longrightarrow> receipt_path b qs c \<Longrightarrow> receipt_path a (rs @ qs) c"
  by (induction a rs b rule: receipt_path.induct) auto

text \<open>Where a job is after some operations, unless it was filed anew.\<close>

definition job_life :: "job_engine \<Rightarrow> job_engine \<Rightarrow> bool" where
  "job_life s t \<longleftrightarrow> receipts_grow s t \<and> (\<forall>k x. dict_get (je_states s) k = Some x \<longrightarrow> recreated s t k \<or>
     (\<exists>y. dict_get (je_states t) k = Some y \<and> receipt_path (jb_status x) (new_receipts s t k) (jb_status y) \<and>
        (finished (jb_status x) \<longrightarrow> y = x \<and> new_receipts s t k = [])))"

lemma finished_stuck: "finished a \<Longrightarrow> b \<in> VALID_JOB_TRANSITIONS a \<Longrightarrow> b = JS_ARCHIVED"
  by (auto simp: finished_def VALID_JOB_TRANSITIONS_def)

lemma act_life:
  assumes "job_act_moves s t \<or> (\<exists>d x. job_filed s t d x)"
  shows "job_life s t"
  using assms
proof (elim disjE exE)
  assume "job_act_moves s t"
  then show ?thesis unfolding job_act_moves_def
  proof (elim disjE exE)
    assume "same_jobs s t"
    then show ?thesis by (auto simp: job_life_def receipts_grow_def same_jobs_def new_receipts_def)
  next
    fix x assume "job_moved s t x"
    then obtain old r where m: "dict_get (je_states s) (jb_job_id x) = Some old" "jb_status x \<in> VALID_JOB_TRANSITIONS (jb_status old)"
      "jb_status x \<in> {JS_IN_PROGRESS, JS_PAUSED, JS_COMPLETED, JS_FAILED, JS_CANCELLED}"
      "je_states t = dict_set (jb_job_id x) x (je_states s)" "je_receipts t = je_receipts s @ [r]"
      "jr_job_id r = jb_job_id x" "jr_previous_status r = Some (job_status_value (jb_status old))"
      "jr_new_status r = job_status_value (jb_status x)"
      unfolding job_moved_def stored_state_def by auto
    have "\<not> finished (jb_status old)" using finished_stuck m(2,3) by fastforce
    then show ?thesis using m by (auto simp: job_life_def new_receipts_def receipts_grow_def)
  qed
next
  fix d x assume "job_filed s t d x"
  then obtain r where r: "je_states t = dict_set (jb_job_id x) x (je_states s)" "je_receipts t = je_receipts s @ [r]"
    "jr_job_id r = jb_job_id x" "jr_previous_status r = None"
    unfolding job_filed_def stored_state_def by auto
  have "recreated s t (jb_job_id x)" unfolding recreated_def new_receipts_def using r(2-4) by simp
  then show ?thesis using r by (auto simp: job_life_def receipts_grow_def new_receipts_def)
qed

lemma new_receipts_split:
  assumes "receipts_grow s t" and "receipts_grow t u"
  shows "new_receipts s u k = new_receipts s t k @ new_receipts t u k"
  using assms by (auto simp: new_receipts_def receipts_grow_def)

lemma life_trans:
  assumes "job_life s t" and "job_life t u"
  shows "job_life s u"
proof -
  have grow: "receipts_grow s t" "receipts_grow t u" using assms unfolding job_life_def by blast+
  note split = new_receipts_split[OF grow]
  have "recreated s u k \<or> (\<exists>z. dict_get (je_states u) k = Some z \<and> receipt_path (jb_status x) (new_receipts s u k) (jb_status z) \<and>
      (finished (jb_status x) \<longrightarrow> z = x \<and> new_receipts s u k = []))" if k: "dict_get (je_states s) k = Some x" for k x
  proof (cases "recreated s t k \<or> recreated t u k")
    case True
    then have "recreated s u k" by (auto simp: recreated_def split)
    then show ?thesis by blast
  next
    case False
    then obtain y where y: "dict_get (je_states t) k = Some y" "receipt_path (jb_status x) (new_receipts s t k) (jb_status y)"
      "finished (jb_status x) \<longrightarrow> y = x \<and> new_receipts s t k = []" using assms(1) k unfolding job_life_def by blast
    then obtain z where z: "dict_get (je_states u) k = Some z" "receipt_path (jb_status y) (new_receipts t u k) (jb_status z)"
      "finished (jb_status y) \<longrightarrow> z = y \<and> new_receipts t u k = []" using assms(2) False unfolding job_life_def by blast
    have "receipt_path (jb_status x) (new_receipts s u k) (jb_status z)"
      unfolding split by (rule receipt_path_append[OF y(2) z(2)])
    then show ?thesis using y z by (auto simp: split)
  qed
  moreover have "receipts_grow s u" using grow unfolding receipts_grow_def by auto
  ultimately show ?thesis unfolding job_life_def by blast
qed

section \<open>Properties\<close>

text \<open>
  C36: whatever operations follow, unless a job is filed anew under its identifier: its receipts since
  then are an unbroken sequence of single moves of the table, from the status it had to the status it has, so
  that every operation moved it by one legal step or not at all; and the record of a finished job is never
  touched again.
\<close>

theorem job_lives:
  assumes "job_run clock s t" and "dict_get (je_states s) k = Some x"
  shows "recreated s t k \<or>
    (\<exists>y. dict_get (je_states t) k = Some y \<and> receipt_path (jb_status x) (new_receipts s t k) (jb_status y) \<and>
       (finished (jb_status x) \<longrightarrow> y = x \<and> new_receipts s t k = []))"
proof -
  have "job_life s t" using assms(1)
  proof (induction rule: rtranclp_induct)
    case base
    show ?case by (simp add: job_life_def receipts_grow_def new_receipts_def)
  next
    case (step t u)
    then show ?case using life_trans act_life[OF job_step_acts] by blast
  qed
  then show ?thesis using assms(2) unfolding job_life_def by blast
qed

text \<open>
  C37: the receipts of an engine are its history: the last receipt of a job tells the status the job is in,
  there is no receipt of a job that does not exist, and every receipt that names a previous status is a
  legal move from the status the receipts before it leave the job in.
\<close>

theorem job_receipts_tell:
  assumes "job_run clock jobs_init s"
  shows "receipt_status (je_receipts s) k = map_option (\<lambda>x. job_status_value (jb_status x)) (dict_get (je_states s) k) \<and>
    (\<forall>i < length (je_receipts s). legal_receipt (take i (je_receipts s)) (je_receipts s ! i))"
proof -
  have "receipts_tell s" using assms
  proof (induction rule: rtranclp_induct)
    case base
    show ?case by (simp add: receipts_tell_def jobs_init_def)
  next
    case (step t u)
    then show ?case using acts_tell[OF job_step_acts] by blast
  qed
  then show ?thesis by (simp add: receipts_tell_def)
qed

text \<open>A job created twice under one name at one reading of the clock starts over.\<close>

theorem job_starts_over:
  assumes "create_job clock name description p g w dl sla s = (Inr (d, x), t)"
    and "create_job clock name description' p' g' w' dl' sla' u = (Inr (d', x'), v)" and "clock (je_reads u) = clock (je_reads s)"
  shows "jb_job_id x' = jb_job_id x \<and> dict_get (je_states v) (jb_job_id x) = Some x' \<and> jb_status x' = JS_CREATED"
proof -
  have "stable_identifier ''job'' [(''name'', JStr name), (''created_at'', JStr (clock (je_reads s)))] = Inr (jb_job_id x)"
    using create_cases[OF assms(1)] by blast
  moreover have v: "job_filed u v d' x'" "jb_status x' = JS_CREATED"
    "stable_identifier ''job'' [(''name'', JStr name), (''created_at'', JStr (clock (je_reads u)))] = Inr (jb_job_id x')"
    using create_cases[OF assms(2)] by blast+
  ultimately have "jb_job_id x' = jb_job_id x" using assms(3) by simp
  then show ?thesis using v by (simp add: job_filed_def stored_state_def)
qed

section \<open>The float in the deadline\<close>

lemma four_fifths_exact:
  assumes "0 \<le> m" and "m \<le> 187649984"
  shows "four_fifths (60000000 * m) = 48000000 * m"
proof -
  let ?x = "rat_of_int (60000000 * m) * (3602879701896397 / 4503599627370496)"
  have x: "?x = rat_of_int (48000000 * m) + rat_of_int (12000000 * m) / 4503599627370496" by simp
  have m: "0 \<le> rat_of_int m" "rat_of_int m \<le> 187649984" using assms by linarith+
  then have e: "0 \<le> rat_of_int (12000000 * m) / 4503599627370496" "rat_of_int (12000000 * m) / 4503599627370496 < 1 / 2" by simp_all
  then have "\<lfloor>?x\<rfloor> = 48000000 * m" unfolding x by (intro floor_unique) simp_all
  then show ?thesis unfolding four_fifths_def rhe_def Let_def using e unfolding x by simp
qed

lemma minutes_exact: "1 \<le> m \<Longrightarrow> m \<le> 187649984 \<Longrightarrow> minutes m = Inr (60000000 * m)"
  by (auto simp: minutes_def)

text \<open>
  for targets up to 187,649,984 minutes (over 350 years) the float in the comparison does not
  matter: a job is at risk exactly from four fifths of its target on, to the microsecond, and breached
  exactly beyond it.
\<close>

theorem sla_exact:
  assumes "parse_time created = Inr (c, co)" and "parse_time now = Inr (n, no)" and "time_between (n, no) (c, co) = Inr elapsed"
    and "1 \<le> m" and "m \<le> 187649984"
  shows "sla_verdict created now m = Inr
    (if 60000000 * m < elapsed then SLA_BREACHED else if 48000000 * m \<le> elapsed then SLA_AT_RISK else SLA_ON_TRACK)"
  using assms four_fifths_exact[of m] minutes_exact[of m] by (simp add: sla_verdict_def)

section \<open>Witnesses\<close>

definition demo_job_clock :: job_clock where
  "demo_job_clock n = ''2024-01-01T00:00:00Z''"

definition demo_jobs :: job_engine where
  "demo_jobs = jobs_init\<lparr>je_states := [(''j'', plain_state ''j'' JS_COMPLETED SLA_ON_TRACK ''2024-01-01T00:00:00Z'')]\<rparr>"

lemma demo_cancelled: "snd (cancel_job demo_job_clock ''j'' ''late'' demo_jobs) = demo_jobs"
proof -
  have "ensure_non_empty_text ''reason'' ''late'' = Inr ''late''" "\<not> blank ''j''" by code_simp+
  then show ?thesis
    by (simp add: cancel_job_def job_transition_def act_bind_def state_of_iff[THEN iffD2] demo_jobs_def assert_transition_def
        plain_state_def VALID_JOB_TRANSITIONS_def)
qed

definition demo_filed :: job_engine where
  "demo_filed = snd (restore_job \<lparr>jd_job_id = ''j'', jd_name = ''n'', jd_description = ''d'', jd_priority = JP_NORMAL,
     jd_created_at = ''2024-01-01T00:00:00Z'', jd_goal_id = None, jd_workflow_id = None, jd_deadline = None, jd_sla_target_minutes = None,
     jd_metadata = []\<rparr> (plain_state ''j'' JS_ASSIGNED SLA_ON_TRACK ''2024-01-01T00:00:00Z'') jobs_init)"

lemma demo_filed_states: "je_states demo_filed = [(''j'', plain_state ''j'' JS_ASSIGNED SLA_ON_TRACK ''2024-01-01T00:00:00Z'')]"
  by (simp add: demo_filed_def restore_job_def jobs_init_def plain_state_def both_differ_def store_state_def job_mutation_def Let_def)

lemma demo_started:
  "dict_get (je_states (snd (start_job demo_job_clock ''j'' demo_filed))) ''j'' = Some (plain_state ''j'' JS_IN_PROGRESS SLA_ON_TRACK ''2024-01-01T00:00:00Z'')"
  "jb_status (plain_state ''j'' JS_IN_PROGRESS SLA_ON_TRACK ''2024-01-01T00:00:00Z'') = JS_IN_PROGRESS"
proof -
  have "\<not> blank ''j''" "check_job_state (plain_state ''j'' JS_IN_PROGRESS SLA_ON_TRACK ''2024-01-01T00:00:00Z'') =
    Inr (plain_state ''j'' JS_IN_PROGRESS SLA_ON_TRACK ''2024-01-01T00:00:00Z'')" by code_simp+
  moreover have "job_state_of demo_filed ''j'' = Inr (plain_state ''j'' JS_ASSIGNED SLA_ON_TRACK ''2024-01-01T00:00:00Z'')"
    using calculation by (simp add: state_of_iff demo_filed_states)
  ultimately show "dict_get (je_states (snd (start_job demo_job_clock ''j'' demo_filed))) ''j'' = Some (plain_state ''j'' JS_IN_PROGRESS SLA_ON_TRACK ''2024-01-01T00:00:00Z'')"
    by (simp add: start_job_def job_transition_def act_bind_def assert_transition_def job_now_def demo_job_clock_def store_state_def
        job_mutation_def Let_def demo_filed_states) (simp add: plain_state_def VALID_JOB_TRANSITIONS_def)
qed (simp add: plain_state_def)

lemma demo_start_receipt:
  "\<exists>r. je_receipts (snd (start_job demo_job_clock ''j'' demo_filed)) = je_receipts demo_filed @ [r] \<and> jr_job_id r = ''j'' \<and>
     jr_previous_status r \<noteq> None"
proof -
  have "\<not> blank ''j''" "check_job_state (plain_state ''j'' JS_IN_PROGRESS SLA_ON_TRACK ''2024-01-01T00:00:00Z'') =
    Inr (plain_state ''j'' JS_IN_PROGRESS SLA_ON_TRACK ''2024-01-01T00:00:00Z'')" by code_simp+
  moreover have "job_state_of demo_filed ''j'' = Inr (plain_state ''j'' JS_ASSIGNED SLA_ON_TRACK ''2024-01-01T00:00:00Z'')"
    using calculation by (simp add: state_of_iff demo_filed_states)
  ultimately show ?thesis
    by (simp add: start_job_def job_transition_def act_bind_def assert_transition_def job_now_def demo_job_clock_def store_state_def
        job_mutation_def Let_def demo_filed_states) (simp add: plain_state_def VALID_JOB_TRANSITIONS_def)
qed

text \<open>An assigned job is started, by one receipt; a completed one cannot be cancelled.\<close>

theorem job_lives_witness:
  "length (new_receipts demo_filed (snd (start_job demo_job_clock ''j'' demo_filed)) ''j'') = 1 \<and>
   receipt_path JS_ASSIGNED (new_receipts demo_filed (snd (start_job demo_job_clock ''j'' demo_filed)) ''j'') JS_IN_PROGRESS \<and>
   dict_get (je_states (snd (cancel_job demo_job_clock ''j'' ''late'' demo_jobs))) ''j'' =
     Some (plain_state ''j'' JS_COMPLETED SLA_ON_TRACK ''2024-01-01T00:00:00Z'')"
proof (intro conjI)
  let ?t = "snd (start_job demo_job_clock ''j'' demo_filed)"
  have run: "job_run demo_job_clock demo_filed ?t" by (intro r_into_rtranclp js_start)
  have x: "dict_get (je_states demo_filed) ''j'' = Some (plain_state ''j'' JS_ASSIGNED SLA_ON_TRACK ''2024-01-01T00:00:00Z'')"
    by (simp add: demo_filed_states)
  have rs: "\<exists>r. new_receipts demo_filed ?t ''j'' = [r] \<and> jr_previous_status r \<noteq> None"
    using demo_start_receipt by (auto simp: new_receipts_def)
  then have "\<not> recreated demo_filed ?t ''j''" by (auto simp: recreated_def)
  with job_lives[OF run x] demo_started
  show "receipt_path JS_ASSIGNED (new_receipts demo_filed ?t ''j'') JS_IN_PROGRESS"
    by (auto simp: plain_state_def)
  show "length (new_receipts demo_filed ?t ''j'') = 1" using rs by auto
  let ?x = "plain_state ''j'' JS_COMPLETED SLA_ON_TRACK ''2024-01-01T00:00:00Z''"
  have "job_run demo_job_clock demo_jobs (snd (cancel_job demo_job_clock ''j'' ''late'' demo_jobs))" by (intro r_into_rtranclp js_cancel)
  moreover have "dict_get (je_states demo_jobs) ''j'' = Some ?x" by (simp add: demo_jobs_def)
  moreover have "new_receipts demo_jobs (snd (cancel_job demo_job_clock ''j'' ''late'' demo_jobs)) ''j'' = []"
    by (simp add: demo_cancelled new_receipts_def)
  ultimately show "dict_get (je_states (snd (cancel_job demo_job_clock ''j'' ''late'' demo_jobs))) ''j'' = Some ?x"
    using job_lives[of demo_job_clock demo_jobs "snd (cancel_job demo_job_clock ''j'' ''late'' demo_jobs)" "''j''" ?x]
    by (simp add: recreated_def) (simp add: plain_state_def finished_def)
qed

theorem job_receipts_tell_witness:
  "job_run demo_job_clock jobs_init (snd (start_job demo_job_clock ''j'' demo_filed)) \<and>
   receipt_status (je_receipts (snd (start_job demo_job_clock ''j'' demo_filed))) ''j'' = Some ''in_progress''"
proof -
  have "job_step demo_job_clock jobs_init demo_filed" unfolding demo_filed_def by (rule js_restore) code_simp+
  then have run: "job_run demo_job_clock jobs_init (snd (start_job demo_job_clock ''j'' demo_filed))"
    using js_start[where clock = demo_job_clock and i = "''j''" and s = demo_filed] by (meson converse_rtranclp_into_rtranclp r_into_rtranclp)
  then show ?thesis using job_receipts_tell[OF run, where k = "''j''"] demo_started by simp
qed

theorem sla_exact_witness:
  "sla_verdict ''2024-01-01T00:00:00Z'' ''2024-01-01T00:48:00Z'' 60 = Inr SLA_AT_RISK"
proof -
  have "parse_time ''2024-01-01T00:00:00Z'' = Inr (738886 * 86400000000, Some 0)" by code_simp
  moreover have "parse_time ''2024-01-01T00:48:00Z'' = Inr (738886 * 86400000000 + 2880000000, Some 0)" by code_simp
  moreover have "time_between (738886 * 86400000000 + 2880000000, Some 0) (738886 * 86400000000, Some 0) = Inr 2880000000" by code_simp
  ultimately show ?thesis using sla_exact by simp
qed

end
