(* ===== verification/Hash_Chain_Store.thy ===== *)
theory Hash_Chain_Store
  imports Contract_Base
begin

text \<open>
  The persisted hash chain of \<open>mcoi_runtime/persistence/hash_chain.py\<close> with its contracts from
  \<open>mcoi_runtime/contracts/integrity.py\<close>: one file per entry, written by linking a finished file to a name that
  must not exist yet, so that writers racing for a number collide instead of overwriting each other.

  A directory maps file names to files.  A file is what the reader makes of its bytes: the fields of an
  entry in JSON, some other text, bytes that are not UTF-8, or something that cannot be read.  The JSON
  text itself and the resolution of symbolic links are left out.
\<close>

section \<open>Records\<close>

datatype chain_error =
    PersistenceError string
  | CorruptedDataError string
  | PathTraversalError string
  | PersistenceWriteError string
  | OSError string
  | UnicodeDecodeError
  | IntLiteralError
  | ContractError py_error

type_synonym 'a chain = "chain_error + 'a"

fun chain_bind :: "'a chain \<Rightarrow> ('a \<Rightarrow> 'b chain) \<Rightarrow> 'b chain" where
  "chain_bind (Inl e) f = Inl e"
| "chain_bind (Inr x) f = f x"

lemma chain_bind_Inr_iff: "chain_bind m f = Inr y \<longleftrightarrow> (\<exists>x. m = Inr x \<and> f x = Inr y)"
  by (cases m) auto

fun of_contract :: "'a py \<Rightarrow> 'a chain" where
  "of_contract (Inl e) = Inl (ContractError e)"
| "of_contract (Inr x) = Inr x"

record chain_entry =
  ch_entry_id :: string
  ch_sequence_number :: int
  ch_content_hash :: string
  ch_previous_hash :: string
  ch_chain_hash :: string
  ch_recorded_at :: string

definition check_chain_entry :: "chain_entry \<Rightarrow> chain_entry py" where
  "check_chain_entry e =
     py_bind (require_non_empty_text (ch_entry_id e) ''entry_id'') (\<lambda>_.
     py_bind (require_non_empty_text (ch_content_hash e) ''content_hash'') (\<lambda>_.
     py_bind (require_non_empty_text (ch_previous_hash e) ''previous_hash'') (\<lambda>_.
     py_bind (require_non_empty_text (ch_chain_hash e) ''chain_hash'') (\<lambda>_.
     py_bind (require_non_negative_int (ch_sequence_number e) ''sequence_number'') (\<lambda>_.
     py_bind (require_datetime_text (ch_recorded_at e) ''recorded_at'') (\<lambda>_. Inr e))))))"

record chain_validation =
  cv_chain_id :: string
  cv_entries_checked :: int
  cv_valid :: bool
  cv_first_broken_sequence :: "int option"
  cv_detail :: string

definition check_chain_validation :: "chain_validation \<Rightarrow> chain_validation py" where
  "check_chain_validation r =
     py_bind (require_non_empty_text (cv_chain_id r) ''chain_id'') (\<lambda>_.
     py_bind (require_non_negative_int (cv_entries_checked r) ''entries_checked'') (\<lambda>_.
     case cv_first_broken_sequence r of
       None \<Rightarrow> Inr r
     | Some n \<Rightarrow> py_bind (require_non_negative_int n ''first_broken_sequence'') (\<lambda>_. Inr r)))"

section \<open>Files\<close>

datatype stored_file = SF_entry chain_entry | SF_text string | SF_bytes | SF_unreadable string | SF_directory

type_synonym chain_dir = "(string, stored_file) pydict"

definition is_file :: "stored_file \<Rightarrow> bool" where
  "is_file f \<longleftrightarrow> f \<noteq> SF_directory"

text \<open>\<open>Path.suffix\<close> and \<open>Path.stem\<close>: the last dot counts unless it is the first or the last character.\<close>

definition last_dot :: "string \<Rightarrow> nat option" where
  "last_dot name = (let k = length (takeWhile (\<lambda>c. c \<noteq> CHR ''.'') (rev name))
     in if CHR ''.'' \<in> set name \<and> 0 < k \<and> k + 1 < length name then Some (length name - k - 1) else None)"

definition path_suffix :: "string \<Rightarrow> string" where
  "path_suffix name = (case last_dot name of None \<Rightarrow> [] | Some i \<Rightarrow> drop i name)"

definition path_stem :: "string \<Rightarrow> string" where
  "path_stem name = (case last_dot name of None \<Rightarrow> name | Some i \<Rightarrow> take i name)"

definition json_names :: "chain_dir \<Rightarrow> string list" where
  "json_names d = sort_key id (map fst (filter (\<lambda>(n, f). is_file f \<and> path_suffix n = ''.json'') d))"

text \<open>\<open>".." in id_value\<close>.\<close>

fun has_two_dots :: "string \<Rightarrow> bool" where
  "has_two_dots (a # b # cs) \<longleftrightarrow> a = CHR ''.'' \<and> b = CHR ''.'' \<or> has_two_dots (b # cs)"
| "has_two_dots cs \<longleftrightarrow> False"

definition safe_path :: "string \<Rightarrow> string \<Rightarrow> string chain" where
  "safe_path i suffix =
     (if CHR 0x00 \<in> set i then Inl (PathTraversalError ''identifier contains null byte'')
      else if CHR ''/'' \<in> set i \<or> CHR 0x5C \<in> set i \<or> has_two_dots i
      then Inl (PathTraversalError ''identifier contains forbidden characters'')
      else Inr (i @ suffix))"

text \<open>\<open>f"{sequence_number:012d}"\<close> of a number that is not negative.\<close>

definition padded :: "nat \<Rightarrow> string" where
  "padded n = replicate (12 - length (nat_str n)) CHR ''0'' @ nat_str n"

definition entry_path :: "int \<Rightarrow> string chain" where
  "entry_path n = safe_path (padded (nat n)) ''.json''"

text \<open>\<open>str.isdigit\<close> knows superscripts, \<open>int\<close> does not.\<close>

definition py_isdigit :: "char \<Rightarrow> bool" where
  "py_isdigit c \<longleftrightarrow> is_digit_char c \<or> (of_char c :: nat) \<in> {178, 179, 185}"

definition entry_sequence :: "string \<Rightarrow> int chain" where
  "entry_sequence name =
     (let t = path_stem name
      in if length t \<noteq> 12 \<or> \<not> list_all py_isdigit t then Inl (CorruptedDataError ''hash chain filename is invalid'')
         else case safe_path t ''.json'' of
             Inl e \<Rightarrow> Inl (CorruptedDataError ''hash chain filename is invalid'')
           | Inr p \<Rightarrow> if list_all is_digit_char t then Inr (int (nat_of_digits t)) else Inl IntLiteralError)"

definition bounded_error :: "string \<Rightarrow> string \<Rightarrow> string" where
  "bounded_error summary error_type = summary @ '' ('' @ error_type @ '')''"

definition load_entry :: "chain_dir \<Rightarrow> string \<Rightarrow> chain_entry chain" where
  "load_entry d name =
     chain_bind (entry_sequence name) (\<lambda>expected.
     case dict_get d name of
       Some (SF_entry e) \<Rightarrow>
         (case check_chain_entry e of
            Inl er \<Rightarrow> Inl (CorruptedDataError (bounded_error ''invalid hash chain entry'' ''CorruptedDataError''))
          | Inr e \<Rightarrow> if ch_sequence_number e \<noteq> expected then Inl (CorruptedDataError ''hash chain sequence mismatch'') else Inr e)
     | Some (SF_text t) \<Rightarrow> Inl (CorruptedDataError (bounded_error ''invalid hash chain entry'' ''CorruptedDataError''))
     | Some SF_bytes \<Rightarrow> Inl UnicodeDecodeError
     | Some (SF_unreadable er) \<Rightarrow> Inl (CorruptedDataError (bounded_error ''hash chain read failed'' er))
     | Some SF_directory \<Rightarrow> Inl (CorruptedDataError (bounded_error ''hash chain read failed'' ''IsADirectoryError''))
     | None \<Rightarrow> Inl (CorruptedDataError (bounded_error ''hash chain read failed'' ''FileNotFoundError'')))"

definition latest_entry :: "chain_dir \<Rightarrow> chain_entry option chain" where
  "latest_entry d = (case rev (json_names d) of [] \<Rightarrow> Inr None | n # ns \<Rightarrow> chain_bind (load_entry d n) (\<lambda>e. Inr (Some e)))"

fun load_entries :: "chain_dir \<Rightarrow> string list \<Rightarrow> chain_entry list chain" where
  "load_entries d [] = Inr []"
| "load_entries d (n # ns) = chain_bind (load_entry d n) (\<lambda>e. chain_bind (load_entries d ns) (\<lambda>es. Inr (e # es)))"

definition load_all :: "chain_dir \<Rightarrow> chain_entry list chain" where
  "load_all d = load_entries d (json_names d)"

section \<open>Appending\<close>

definition GENESIS_PREVIOUS_HASH :: string where
  "GENESIS_PREVIOUS_HASH = replicate 64 CHR ''0''"

definition APPEND_MAX_CONTENTION_RETRIES :: nat where
  "APPEND_MAX_CONTENTION_RETRIES = 64"

definition compute_chain_hash :: "int \<Rightarrow> string \<Rightarrow> string \<Rightarrow> string" where
  "compute_chain_hash n content previous = sha256_hex (int_str n @ '':'' @ content @ '':'' @ previous)"

definition compute_content_hash :: "string \<Rightarrow> string" where
  "compute_content_hash content = sha256_hex content"

text \<open>The entry after the latest one.\<close>

definition next_entry :: "chain_entry option \<Rightarrow> string \<Rightarrow> string \<Rightarrow> string \<Rightarrow> chain_entry" where
  "next_entry prev content uuid now =
     (let n = (case prev of None \<Rightarrow> 0 | Some p \<Rightarrow> ch_sequence_number p + 1);
          h = (case prev of None \<Rightarrow> GENESIS_PREVIOUS_HASH | Some p \<Rightarrow> ch_chain_hash p)
      in \<lparr>ch_entry_id = uuid, ch_sequence_number = n, ch_content_hash = content, ch_previous_hash = h,
          ch_chain_hash = compute_chain_hash n content h, ch_recorded_at = now\<rparr>)"

text \<open>\<open>os.link\<close> of the finished file to the name of its number: false when the name is taken.\<close>

definition write_exclusive :: "string \<Rightarrow> chain_entry \<Rightarrow> chain_dir \<Rightarrow> bool \<times> chain_dir" where
  "write_exclusive p e d = (if dict_get d p \<noteq> None then (False, d) else (True, dict_set p (SF_entry e) d))"

text \<open>
  Before that the directory and a temporary file are made, outside the handler that wraps what the
  operating system reports; the writing, the closing and the linking are inside it.
\<close>

datatype write_fault =
    WF_prepare string
  | WF_write string

fun fault_error :: "write_fault \<Rightarrow> chain_error" where
  "fault_error (WF_prepare er) = OSError er"
| "fault_error (WF_write er) = PersistenceWriteError (bounded_error ''hash chain write failed'' er)"

definition atomic_write_exclusive :: "write_fault option \<Rightarrow> string \<Rightarrow> chain_entry \<Rightarrow> chain_dir \<Rightarrow> bool chain \<times> chain_dir" where
  "atomic_write_exclusive fault p e d =
     (case fault of
        Some f \<Rightarrow> (Inl (fault_error f), d)
      | None \<Rightarrow> (case write_exclusive p e d of (written, d) \<Rightarrow> (Inr written, d)))"

text \<open>What a writer makes of the directory it reads: its entry, and the name of its file.\<close>

definition prepare_entry :: "chain_dir \<Rightarrow> string \<Rightarrow> string \<Rightarrow> string \<Rightarrow> (chain_entry \<times> string) chain" where
  "prepare_entry d content uuid now =
     (if blank content then Inl (PersistenceError ''content_hash must be a non-empty string'')
      else chain_bind (latest_entry d) (\<lambda>prev.
           chain_bind (of_contract (check_chain_entry (next_entry prev content uuid now))) (\<lambda>e.
           chain_bind (entry_path (ch_sequence_number e)) (\<lambda>p. Inr (e, p)))))"

text \<open>
  What an attempt meets, by its number: the clock, a fresh identifier, an OS error of the write, and
  what other writers do to the directory between its reading and its write.
\<close>

record chain_env =
  ce_clock :: "nat \<Rightarrow> string"
  ce_uuid :: "nat \<Rightarrow> string"
  ce_fault :: "nat \<Rightarrow> write_fault option"
  ce_others :: "nat \<Rightarrow> chain_dir \<Rightarrow> chain_dir"

record chain_world =
  cw_dir :: chain_dir
  cw_attempts :: nat

definition try_append :: "chain_env \<Rightarrow> string \<Rightarrow> chain_world \<Rightarrow> chain_entry option chain \<times> chain_world" where
  "try_append env content s =
     (let k = cw_attempts s; s = s\<lparr>cw_attempts := Suc k\<rparr>
      in case prepare_entry (cw_dir s) content (ce_uuid env k) (ce_clock env k) of
           Inl er \<Rightarrow> (Inl er, s)
         | Inr (e, p) \<Rightarrow>
             (case atomic_write_exclusive (ce_fault env k) p e (ce_others env k (cw_dir s)) of
                (Inl er, d) \<Rightarrow> (Inl er, s\<lparr>cw_dir := d\<rparr>)
              | (Inr written, d) \<Rightarrow> (Inr (if written then Some e else None), s\<lparr>cw_dir := d\<rparr>)))"

definition contention_error :: chain_error where
  "contention_error =
     PersistenceWriteError (''hash chain append failed after '' @ nat_str APPEND_MAX_CONTENTION_RETRIES @ '' contention retries'')"

fun append_loop :: "nat \<Rightarrow> chain_env \<Rightarrow> string \<Rightarrow> chain_world \<Rightarrow> chain_entry chain \<times> chain_world" where
  "append_loop 0 env content s =
     (Inl contention_error, s)"
| "append_loop (Suc n) env content s =
     (case try_append env content s of
        (Inl er, s) \<Rightarrow> (Inl er, s)
      | (Inr (Some e), s) \<Rightarrow> (Inr e, s)
      | (Inr None, s) \<Rightarrow> append_loop n env content s)"

definition chain_append :: "chain_env \<Rightarrow> string \<Rightarrow> chain_world \<Rightarrow> chain_entry chain \<times> chain_world" where
  "chain_append = append_loop APPEND_MAX_CONTENTION_RETRIES"

section \<open>Validation\<close>

definition check_chain_id :: "string \<Rightarrow> string chain" where
  "check_chain_id i = (if blank i then Inl (PersistenceError ''chain_id must be a non-empty string'') else Inr i)"

text \<open>The first finding in the entries from the \<open>i\<close>-th on, after one whose hash is \<open>h\<close>.\<close>

fun first_break :: "nat \<Rightarrow> string \<Rightarrow> chain_entry list \<Rightarrow> (nat \<times> string) option" where
  "first_break i h [] = None"
| "first_break i h (e # es) =
     (if ch_sequence_number e \<noteq> int i then Some (i, ''sequence continuity failure'')
      else if ch_previous_hash e \<noteq> h then Some (i, ''previous hash mismatch'')
      else if ch_chain_hash e \<noteq> compute_chain_hash (ch_sequence_number e) (ch_content_hash e) (ch_previous_hash e)
      then Some (i, ''chain hash mismatch'')
      else first_break (Suc i) (ch_chain_hash e) es)"

definition chain_validate :: "string \<Rightarrow> chain_dir \<Rightarrow> chain_validation chain" where
  "chain_validate chain_id d =
     chain_bind (load_all d) (\<lambda>es.
     of_contract (check_chain_validation
       (if es = [] then \<lparr>cv_chain_id = chain_id, cv_entries_checked = 0, cv_valid = True, cv_first_broken_sequence = None,
          cv_detail = ''empty chain''\<rparr>
        else case first_break 0 GENESIS_PREVIOUS_HASH es of
            Some (i, detail) \<Rightarrow> \<lparr>cv_chain_id = chain_id, cv_entries_checked = int i + 1, cv_valid = False,
              cv_first_broken_sequence = Some (int i), cv_detail = detail\<rparr>
          | None \<Rightarrow> \<lparr>cv_chain_id = chain_id, cv_entries_checked = int (length es), cv_valid = True,
              cv_first_broken_sequence = None, cv_detail = ''chain valid''\<rparr>)))"

section \<open>Names and numbers\<close>

definition entry_name :: "nat \<Rightarrow> string" where
  "entry_name n = padded n @ ''.json''"

lemma char_less_iff: "(a :: char) < b \<longleftrightarrow> (of_char a :: nat) < of_char b"
  by (simp add: less_char_def)

lemma digits_Cons: "nat_of_digits (c # s) = digit_val c * 10 ^ length s + nat_of_digits s"
proof (induction s rule: rev_induct)
  case Nil
  show ?case by (simp add: nat_of_digits_def)
next
  case (snoc d s)
  have "nat_of_digits (c # s @ [d]) = 10 * nat_of_digits (c # s) + digit_val d" using nat_of_digits_snoc[of "c # s" d] by simp
  then show ?case using snoc by (simp add: nat_of_digits_snoc algebra_simps)
qed

lemma digits_bound: "\<forall>c \<in> set s. is_digit_char c \<Longrightarrow> nat_of_digits s < 10 ^ length s"
proof (induction s)
  case Nil
  show ?case by (simp add: nat_of_digits_def)
next
  case (Cons c s)
  have "digit_val c \<le> 9" using Cons.prems by (auto simp: digit_val_def is_digit_char_def)
  then have "digit_val c * 10 ^ length s \<le> 9 * 10 ^ length s" by (rule mult_right_mono) simp
  moreover have "nat_of_digits s < 10 ^ length s" using Cons by simp
  ultimately show ?case unfolding digits_Cons length_Cons power_Suc by linarith
qed

lemma digits_order:
  "length s = length t \<Longrightarrow> \<forall>c \<in> set s. is_digit_char c \<Longrightarrow> \<forall>c \<in> set t. is_digit_char c \<Longrightarrow>
   s < t \<longleftrightarrow> nat_of_digits s < nat_of_digits t"
proof (induction s t rule: list_induct2)
  case Nil
  show ?case by (simp add: nat_of_digits_def)
next
  case (Cons a s b t)
  have d: "is_digit_char a" "is_digit_char b" using Cons.prems by simp_all
  then have ab: "a < b \<longleftrightarrow> digit_val a < digit_val b" by (auto simp: digit_val_def is_digit_char_def char_less_iff)
  have "a = b" if "digit_val a = digit_val b"
  proof -
    have "(of_char a :: nat) = of_char b" using d that unfolding digit_val_def is_digit_char_def by linarith
    then show ?thesis by simp
  qed
  note ab = ab this
  have st: "nat_of_digits s < 10 ^ length s" "nat_of_digits t < 10 ^ length s"
    using digits_bound[of s] digits_bound[of t] Cons by simp_all
  have big: "digit_val x * 10 ^ length s + nat_of_digits u < digit_val y * 10 ^ length s + nat_of_digits w"
    if "digit_val x < digit_val y" "nat_of_digits u < 10 ^ length s" for x y u w
  proof -
    have "(digit_val x + 1) * 10 ^ length s \<le> digit_val y * 10 ^ length s" using that(1) by (intro mult_right_mono) simp_all
    then show ?thesis using that(2) by (simp add: algebra_simps)
  qed
  show ?case using Cons ab big[of a b s t] big[of b a t s] st by (cases "digit_val a" "digit_val b" rule: linorder_cases) (auto simp: digits_Cons)
qed

lemma padded_digits: "\<forall>c \<in> set (padded n). is_digit_char c"
  using nat_str_digits by (auto simp: padded_def is_digit_char_def)

lemma digits_zeros: "nat_of_digits (replicate k CHR ''0'' @ s) = nat_of_digits s"
  by (induction k) (simp_all add: digits_Cons digit_val_def)

lemma padded_value [simp]: "nat_of_digits (padded n) = n"
  by (simp add: padded_def digits_zeros)

lemma nat_str_short: "n < 10 ^ Suc k \<Longrightarrow> length (nat_str n) \<le> Suc k"
proof (induction k arbitrary: n)
  case 0
  then show ?case by (subst nat_str.simps) simp
next
  case (Suc k)
  then have "n div 10 < 10 ^ Suc k" by (simp add: less_mult_imp_div_less)
  then show ?case using Suc.IH[of "n div 10"] by (subst nat_str.simps) simp
qed

lemma padded_length: "n < 10 ^ 12 \<Longrightarrow> length (padded n) = 12"
  using nat_str_short[of n 11] by (simp add: padded_def)

lemma padded_nonempty: "padded n \<noteq> []"
  by (simp add: padded_def)

lemma append_less_append: "length s = length t \<Longrightarrow> s @ u < t @ u \<longleftrightarrow> s < (t :: string)"
  by (induction s t rule: list_induct2) simp_all

lemma entry_name_less: "m < n \<Longrightarrow> n < 10 ^ 12 \<Longrightarrow> entry_name m < entry_name n"
  unfolding entry_name_def by (subst append_less_append) (simp_all add: padded_length digits_order padded_digits)

lemma entry_name_inj [simp]: "entry_name m = entry_name n \<longleftrightarrow> m = n"
  unfolding entry_name_def using padded_value by (metis append_same_eq)

lemma padded_no_dot: "CHR ''.'' \<notin> set (padded n)" "CHR 0x00 \<notin> set (padded n)" "CHR ''/'' \<notin> set (padded n)" "CHR 0x5C \<notin> set (padded n)"
  using padded_digits[of n] by (auto simp: is_digit_char_def)

lemma no_two_dots: "CHR ''.'' \<notin> set s \<Longrightarrow> \<not> has_two_dots s"
  by (induction s rule: has_two_dots.induct) auto

lemma safe_padded: "safe_path (padded n) ''.json'' = Inr (entry_name n)"
  using padded_no_dot[of n] no_two_dots[of "padded n"] by (simp add: safe_path_def entry_name_def)

lemma entry_path_name: "entry_path (int n) = Inr (entry_name n)"
  by (simp add: entry_path_def safe_padded)

lemma name_dot: "last_dot (entry_name n) = Some (length (padded n))"
  using padded_no_dot(1)[of n] padded_nonempty[of n] by (simp add: last_dot_def entry_name_def Let_def)

lemma name_parts: "path_suffix (entry_name n) = ''.json''" "path_stem (entry_name n) = padded n"
  by (simp_all add: path_suffix_def path_stem_def name_dot) (simp_all add: entry_name_def)

lemma name_sequence: "n < 10 ^ 12 \<Longrightarrow> entry_sequence (entry_name n) = Inr (int n)"
  using padded_digits[of n] by (simp add: entry_sequence_def name_parts padded_length safe_padded list_all_iff py_isdigit_def)

section \<open>Linear chains\<close>

text \<open>What an unbroken chain is: every entry numbered by its place, linked to the one before, with its own hash.\<close>

definition previous_of :: "chain_entry list \<Rightarrow> nat \<Rightarrow> string" where
  "previous_of es i = (if i = 0 then GENESIS_PREVIOUS_HASH else ch_chain_hash (es ! (i - 1)))"

definition sound_at :: "chain_entry list \<Rightarrow> nat \<Rightarrow> bool" where
  "sound_at es i \<longleftrightarrow> ch_sequence_number (es ! i) = int i \<and> ch_previous_hash (es ! i) = previous_of es i \<and>
     ch_chain_hash (es ! i) = compute_chain_hash (int i) (ch_content_hash (es ! i)) (previous_of es i)"

definition chain_linear :: "chain_entry list \<Rightarrow> bool" where
  "chain_linear es \<longleftrightarrow> (\<forall>i < length es. sound_at es i)"

lemma previous_append: "i \<le> length es \<Longrightarrow> previous_of (es @ fs) i = previous_of es i"
  by (auto simp: previous_of_def nth_append)

lemma sound_append: "i < length es \<Longrightarrow> sound_at (es @ fs) i \<longleftrightarrow> sound_at es i"
  by (simp add: sound_at_def previous_append nth_append)

lemma linear_snoc: "chain_linear (es @ [e]) \<longleftrightarrow> chain_linear es \<and> ch_sequence_number e = int (length es) \<and>
    ch_previous_hash e = previous_of es (length es) \<and>
    ch_chain_hash e = compute_chain_hash (int (length es)) (ch_content_hash e) (previous_of es (length es))"
proof -
  have "chain_linear (es @ [e]) \<longleftrightarrow> (\<forall>i < length es. sound_at (es @ [e]) i) \<and> sound_at (es @ [e]) (length es)"
    unfolding chain_linear_def by (auto simp: less_Suc_eq)
  also have "\<dots> \<longleftrightarrow> chain_linear es \<and> sound_at (es @ [e]) (length es)" by (simp add: sound_append chain_linear_def)
  also have "sound_at (es @ [e]) (length es) \<longleftrightarrow> ch_sequence_number e = int (length es) \<and> ch_previous_hash e = previous_of es (length es) \<and>
      ch_chain_hash e = compute_chain_hash (int (length es)) (ch_content_hash e) (previous_of es (length es))"
    unfolding sound_at_def by (simp add: previous_append)
  finally show ?thesis .
qed

lemma linear_append: "chain_linear (es @ fs) \<Longrightarrow> chain_linear es"
  unfolding chain_linear_def using sound_append by (metis length_append trans_less_add1)

text \<open>The loop of the validation finds the first unsound entry.\<close>

lemma first_break_spec:
  assumes "\<forall>i < n. sound_at es i" and "n \<le> length es"
  shows "case first_break n (previous_of es n) (drop n es) of
      None \<Rightarrow> chain_linear es
    | Some (i, detail) \<Rightarrow> i < length es \<and> \<not> sound_at es i \<and> (\<forall>j < i. sound_at es j)"
  using assms
proof (induction "length es - n" arbitrary: n)
  case 0
  then show ?case by (simp add: chain_linear_def)
next
  case (Suc k)
  then have n: "n < length es" by simp
  have d: "drop n es = es ! n # drop (Suc n) es" using n by (rule Cons_nth_drop_Suc[symmetric])
  show ?case
  proof (cases "sound_at es n")
    case True
    then have "\<forall>i < Suc n. sound_at es i" using Suc.prems by (auto simp: less_Suc_eq)
    then have r: "case first_break (Suc n) (previous_of es (Suc n)) (drop (Suc n) es) of
        None \<Rightarrow> chain_linear es
      | Some (i, detail) \<Rightarrow> i < length es \<and> \<not> sound_at es i \<and> (\<forall>j < i. sound_at es j)"
      using Suc.hyps(1)[of "Suc n"] Suc.hyps(2) n by simp
    have "first_break n (previous_of es n) (drop n es) = first_break (Suc n) (previous_of es (Suc n)) (drop (Suc n) es)"
      using True unfolding d by (simp add: sound_at_def previous_of_def[of es "Suc n"])
    then show ?thesis using r by simp
  next
    case False
    then have "\<exists>detail. first_break n (previous_of es n) (drop n es) = Some (n, detail)"
      unfolding d by (auto simp: sound_at_def)
    then show ?thesis using False n Suc.prems(1) by auto
  qed
qed

section \<open>A directory that holds a chain\<close>

definition holds :: "chain_dir \<Rightarrow> chain_entry list \<Rightarrow> bool" where
  "holds d es \<longleftrightarrow> wf_dict d \<and> chain_linear es \<and> json_names d = map entry_name [0..<length es] \<and>
     (\<forall>i. dict_get d (entry_name i) = (if i < length es then Some (SF_entry (es ! i)) else None)) \<and>
     (\<forall>e \<in> set es. check_chain_entry e = Inr e)"

text \<open>Numbers with twelve digits.\<close>

abbreviation CHAIN_LIMIT :: nat where
  "CHAIN_LIMIT \<equiv> 10 ^ 12"

lemma load_held:
  assumes "holds d es" and "i < length es" and "length es \<le> CHAIN_LIMIT"
  shows "load_entry d (entry_name i) = Inr (es ! i)"
proof -
  have "check_chain_entry (es ! i) = Inr (es ! i)" "ch_sequence_number (es ! i) = int i" "dict_get d (entry_name i) = Some (SF_entry (es ! i))"
    using assms(1,2) by (auto simp: holds_def chain_linear_def sound_at_def)
  then show ?thesis using assms(2,3) by (simp add: load_entry_def name_sequence)
qed

lemma load_entries_map: "(\<forall>n \<in> set ns. load_entry d n = Inr (f n)) \<Longrightarrow> load_entries d ns = Inr (map f ns)"
  by (induction ns) simp_all

lemma load_all_held:
  assumes "holds d es" and "length es \<le> CHAIN_LIMIT"
  shows "load_all d = Inr es"
proof -
  let ?f = "\<lambda>n. case load_entry d n of Inr e \<Rightarrow> e"
  have "\<forall>n \<in> set (map entry_name [0..<length es]). load_entry d n = Inr (?f n)" using load_held[OF assms(1) _ assms(2)] by auto
  then have "load_all d = Inr (map ?f (map entry_name [0..<length es]))"
    using load_entries_map assms(1) by (simp only: load_all_def holds_def)
  also have "map ?f (map entry_name [0..<length es]) = map ((!) es) [0..<length es]"
    using load_held[OF assms(1) _ assms(2)] by (simp add: comp_def)
  finally show ?thesis by (simp add: map_nth)
qed

lemma latest_held:
  assumes "holds d es" and "length es \<le> CHAIN_LIMIT"
  shows "latest_entry d = Inr (if es = [] then None else Some (last es))"
proof (cases es rule: rev_cases)
  case Nil
  then show ?thesis using assms(1) by (simp add: latest_entry_def holds_def)
next
  case (snoc fs e)
  have "rev (json_names d) = entry_name (length fs) # rev (map entry_name [0..<length fs])"
    using assms(1) snoc by (simp add: holds_def)
  then show ?thesis using load_held[OF assms(1), of "length fs"] assms(2) snoc by (simp add: latest_entry_def)
qed

lemma set_json_names: "set (json_names d) = {n. \<exists>f. (n, f) \<in> set d \<and> is_file f \<and> path_suffix n = ''.json''}"
  by (force simp: json_names_def)

lemma json_names_sorted: "wf_dict d \<Longrightarrow> sorted (json_names d) \<and> distinct (json_names d)"
  unfolding json_names_def wf_dict_def
  by (simp add: sorted_sort_key[of id, simplified] distinct_map inj_on_def)

lemma names_ascend: "n \<le> CHAIN_LIMIT \<Longrightarrow> sorted_wrt (<) (map entry_name [0..<n])"
  unfolding sorted_wrt_iff_nth_less by (auto intro!: entry_name_less)

lemma hold_nothing: "holds [] []"
  by (simp add: holds_def chain_linear_def json_names_def)

lemma hold_next:
  assumes "holds d es" and "length es < CHAIN_LIMIT" and "chain_linear (es @ [e])" and "check_chain_entry e = Inr e"
  shows "holds (dict_set (entry_name (length es)) (SF_entry e) d) (es @ [e])"
proof -
  let ?n = "entry_name (length es)" and ?d = "dict_set (entry_name (length es)) (SF_entry e) d"
  have new: "dict_get d ?n = None" using assms(1) by (simp add: holds_def)
  have wf: "wf_dict ?d" using assms(1) by (simp add: holds_def)
  have "set (json_names ?d) = insert ?n (set (json_names d))"
    unfolding set_json_names dict_set_new[OF new] by (auto simp: is_file_def name_parts)
  also have "set (json_names d) = entry_name ` {0..<length es}" using assms(1) by (simp add: holds_def)
  also have "insert ?n (entry_name ` {0..<length es}) = set (map entry_name [0..<length (es @ [e])])"
    by (simp add: atLeast0_lessThan_Suc)
  finally have s: "set (json_names ?d) = set (map entry_name [0..<length (es @ [e])])" .
  have "sorted_wrt (<) (map entry_name [0..<length (es @ [e])])" using assms(2) by (intro names_ascend) simp
  then have "sorted (map entry_name [0..<length (es @ [e])])" "distinct (map entry_name [0..<length (es @ [e])])"
    by (simp_all only: strict_sorted_iff)
  then have "json_names ?d = map entry_name [0..<length (es @ [e])]"
    using json_names_sorted[OF wf] s by (intro sorted_distinct_set_unique) simp_all
  moreover have "dict_get ?d (entry_name i) = (if i < length (es @ [e]) then Some (SF_entry ((es @ [e]) ! i)) else None)" for i
    using assms(1) by (auto simp: holds_def nth_append)
  ultimately show ?thesis using assms wf by (auto simp: holds_def)
qed

section \<open>Appending keeps the chain\<close>

lemma names_apart: "entry_name CHAIN_LIMIT < entry_name (CHAIN_LIMIT - 1)"
proof -
  have "nat_str 1000000000000 = ''1000000000000''" "nat_str 999999999999 = ''999999999999''"
    by (simp_all add: nat_str_code digits_str.simps digit_char_def) code_simp+
  then show ?thesis by (simp add: entry_name_def padded_def)
qed

text \<open>A directory that holds a chain is never beyond the limit: the name of the next number sorts before the last one.\<close>

lemma holds_limit: "holds d es \<Longrightarrow> length es \<le> CHAIN_LIMIT"
proof (rule ccontr)
  assume h: "holds d es" and "\<not> length es \<le> CHAIN_LIMIT"
  then have l: "CHAIN_LIMIT < length es" by simp
  have "sorted (map entry_name [0..<length es])" using h json_names_sorted[of d] by (simp add: holds_def)
  then have "map entry_name [0..<length es] ! (CHAIN_LIMIT - 1) \<le> map entry_name [0..<length es] ! CHAIN_LIMIT"
    using l by (intro sorted_nth_mono) simp_all
  then show False using l names_apart by simp
qed

abbreviation last_entry :: "chain_entry list \<Rightarrow> chain_entry option" where
  "last_entry es \<equiv> (if es = [] then None else Some (last es))"

lemma latest_is_last: "holds d es \<Longrightarrow> latest_entry d = Inr (last_entry es)"
  using latest_held holds_limit by simp

lemma next_continues:
  assumes "chain_linear es"
  shows "chain_linear (es @ [next_entry (last_entry es) content uuid now])"
    and "ch_sequence_number (next_entry (last_entry es) content uuid now) = int (length es)"
proof -
  have "ch_sequence_number (last es) = int (length es) - 1 \<and> previous_of es (length es) = ch_chain_hash (last es)" if "es \<noteq> []"
  proof -
    have "sound_at es (length es - 1)" using assms that by (simp add: chain_linear_def)
    then show ?thesis using that by (simp add: sound_at_def last_conv_nth previous_of_def of_nat_diff Suc_leI)
  qed
  then show "chain_linear (es @ [next_entry (last_entry es) content uuid now])"
    "ch_sequence_number (next_entry (last_entry es) content uuid now) = int (length es)"
    using assms unfolding linear_snoc next_entry_def Let_def by (auto simp: previous_of_def)
qed

lemma write_held:
  assumes "holds d es" and "chain_linear (es @ [e])" and "check_chain_entry e = Inr e" and "length es < CHAIN_LIMIT"
  shows "write_exclusive (entry_name (length es)) e d = (True, dict_set (entry_name (length es)) (SF_entry e) d)"
    and "holds (snd (write_exclusive (entry_name (length es)) e d)) (es @ [e])"
proof -
  show w: "write_exclusive (entry_name (length es)) e d = (True, dict_set (entry_name (length es)) (SF_entry e) d)"
    using assms(1) by (simp add: write_exclusive_def holds_def)
  show "holds (snd (write_exclusive (entry_name (length es)) e d)) (es @ [e])"
    unfolding w snd_conv by (rule hold_next) (use assms in simp_all)
qed

lemma write_taken: "holds d es \<Longrightarrow> n < length es \<Longrightarrow> write_exclusive (entry_name n) e d = (False, d)"
  by (simp add: write_exclusive_def holds_def)

section \<open>One append among others\<close>

text \<open>Other writers only append.\<close>

definition others_append :: "chain_env \<Rightarrow> bool" where
  "others_append env \<longleftrightarrow> (\<forall>k d es. holds d es \<longrightarrow> (\<exists>fs. holds (ce_others env k d) (es @ fs)))"

definition env_texts :: "chain_env \<Rightarrow> bool" where
  "env_texts env \<longleftrightarrow> (\<forall>k. \<not> blank (ce_uuid env k) \<and> (\<forall>f. is_ok (require_datetime_text (ce_clock env k) f)))"

lemma hash_not_blank: "\<not> blank (compute_chain_hash n c h)"
  by (simp add: compute_chain_hash_def sha256_hex_not_blank)

lemma genesis_not_blank: "\<not> blank GENESIS_PREVIOUS_HASH"
  by code_simp

lemma next_checked:
  assumes "env_texts env" and "\<not> blank content" and "\<forall>e \<in> set es. check_chain_entry e = Inr e" and "chain_linear es"
  shows "check_chain_entry (next_entry (last_entry es) content (ce_uuid env k) (ce_clock env k)) =
    Inr (next_entry (last_entry es) content (ce_uuid env k) (ce_clock env k))"
proof -
  let ?e = "next_entry (last_entry es) content (ce_uuid env k) (ce_clock env k)"
  have "\<not> blank (ch_chain_hash (last es))" if "es \<noteq> []"
    using assms(3) last_in_set[OF that] by (fastforce simp: check_chain_entry_def py_bind_Inr_iff require_non_empty_text_def split: if_splits)
  then have "\<not> blank (ch_previous_hash ?e)" by (simp add: next_entry_def Let_def genesis_not_blank)
  moreover obtain y where "require_datetime_text (ce_clock env k) ''recorded_at'' = Inr y"
    using assms(1) unfolding env_texts_def is_ok_iff by blast
  moreover have "\<not> ch_sequence_number ?e < 0" unfolding next_continues(2)[OF assms(4)] by simp
  moreover have "ch_entry_id ?e = ce_uuid env k" "ch_content_hash ?e = content" "ch_recorded_at ?e = ce_clock env k"
    "\<not> blank (ch_chain_hash ?e)"
    by (simp_all add: next_entry_def Let_def hash_not_blank)
  ultimately show ?thesis using assms(1,2)
    by (simp add: check_chain_entry_def require_non_empty_text_def require_non_negative_int_def env_texts_def)
qed

lemma prepare_held:
  fixes k :: nat
  assumes "holds d es" and "env_texts env" and "\<not> blank content"
  defines "e \<equiv> next_entry (last_entry es) content (ce_uuid env k) (ce_clock env k)"
  shows "prepare_entry d content (ce_uuid env k) (ce_clock env k) = Inr (e, entry_name (length es))"
    and "check_chain_entry e = Inr e" and "chain_linear (es @ [e])" and "ch_content_hash e = content"
proof -
  have lin: "chain_linear es" and ok: "\<forall>e \<in> set es. check_chain_entry e = Inr e" using assms(1) by (simp_all add: holds_def)
  show c: "check_chain_entry e = Inr e" unfolding e_def by (rule next_checked[OF assms(2,3) ok lin])
  have "entry_path (ch_sequence_number e) = Inr (entry_name (length es))"
    unfolding e_def next_continues(2)[OF lin] by (rule entry_path_name)
  with c show "prepare_entry d content (ce_uuid env k) (ce_clock env k) = Inr (e, entry_name (length es))"
    using assms(3) latest_is_last[OF assms(1)] by (simp add: prepare_entry_def e_def)
  show "chain_linear (es @ [e])" unfolding e_def by (rule next_continues(1)[OF lin])
  show "ch_content_hash e = content" by (simp add: e_def next_entry_def Let_def)
qed

text \<open>What the other writers make of a directory during the attempts from number \<open>a\<close> up to \<open>b\<close>.\<close>

definition others_between :: "chain_env \<Rightarrow> nat \<Rightarrow> nat \<Rightarrow> chain_dir \<Rightarrow> chain_dir" where
  "others_between env a b d = fold (ce_others env) [a..<b] d"

lemma others_between_step: "a < b \<Longrightarrow> others_between env a b d = others_between env (Suc a) b (ce_others env a d)"
  by (simp add: others_between_def upt_conv_Cons)

lemma others_between_one [simp]: "others_between env a (Suc a) d = ce_others env a d"
  by (simp add: others_between_def)

text \<open>
  What an append may come to, from the directory \<open>d\<close> with the chain \<open>es\<close>: \<open>n\<close> attempts from number \<open>a\<close> on,
  the next one to be \<open>b\<close>, the others having added \<open>fs\<close>.
\<close>

definition append_result ::
  "chain_env \<Rightarrow> string \<Rightarrow> nat \<Rightarrow> nat \<Rightarrow> chain_dir \<Rightarrow> chain_entry list \<Rightarrow> chain_entry list \<Rightarrow> chain_entry chain \<Rightarrow> chain_world \<Rightarrow> bool" where
  "append_result env content n a d es fs r t \<longleftrightarrow>
     (let b = cw_attempts t; d' = others_between env a b d
      in holds d' (es @ fs) \<and> b \<le> a + n \<and>
         (case r of
            Inl er \<Rightarrow> cw_dir t = d' \<and>
              (er = contention_error \<and> b = a + n \<and> n \<le> length fs \<or>
               (\<exists>f. a < b \<and> ce_fault env (b - 1) = Some f \<and> er = fault_error f \<and> b - a \<le> length fs + 1))
          | Inr e \<Rightarrow> cw_dir t = dict_set (entry_name (length (es @ fs))) (SF_entry e) d' \<and>
              a < b \<and> b - a \<le> length fs + 1 \<and> ch_content_hash e = content \<and> chain_linear (es @ fs @ [e]) \<and>
              (length (es @ fs) < CHAIN_LIMIT \<longrightarrow> holds (cw_dir t) (es @ fs @ [e]))))"

lemma attempt_outcome:
  assumes "holds (cw_dir s) es" and "others_append env" and "env_texts env" and "\<not> blank content"
    and "try_append env content s = (r, t)"
  shows "cw_attempts t = Suc (cw_attempts s) \<and>
    (\<exists>fs. case r of
      Inl er \<Rightarrow> append_result env content 1 (cw_attempts s) (cw_dir s) es fs (Inl er) t \<and>
        (\<exists>f. ce_fault env (cw_attempts s) = Some f \<and> er = fault_error f)
    | Inr (Some e) \<Rightarrow> append_result env content 1 (cw_attempts s) (cw_dir s) es fs (Inr e) t
    | Inr None \<Rightarrow> cw_dir t = ce_others env (cw_attempts s) (cw_dir s) \<and> holds (cw_dir t) (es @ fs) \<and> fs \<noteq> [])"
proof -
  let ?k = "cw_attempts s"
  let ?e = "next_entry (last_entry es) content (ce_uuid env ?k) (ce_clock env ?k)" and ?d = "ce_others env ?k (cw_dir s)"
  note p = prepare_held[OF assms(1,3,4), of ?k]
  obtain gs where g: "holds ?d (es @ gs)" using assms(1,2) unfolding others_append_def by blast
  show ?thesis
  proof (cases "ce_fault env ?k")
    case (Some f)
    then have "r = Inl (fault_error f)" "t = s\<lparr>cw_dir := ?d, cw_attempts := Suc ?k\<rparr>"
      using assms(5) p(1) by (auto simp: try_append_def Let_def atomic_write_exclusive_def)
    then show ?thesis using Some g by (auto simp: append_result_def)
  next
    case None
    then have rt: "r = Inr (if fst (write_exclusive (entry_name (length es)) ?e ?d) then Some ?e else None)"
      "t = s\<lparr>cw_dir := snd (write_exclusive (entry_name (length es)) ?e ?d), cw_attempts := Suc ?k\<rparr>"
      using assms(5) p(1) by (auto simp: try_append_def Let_def atomic_write_exclusive_def split: prod.splits)
    show ?thesis
    proof (cases "gs = []")
      case False
      then have "write_exclusive (entry_name (length es)) ?e ?d = (False, ?d)" using write_taken[OF g] by simp
      then show ?thesis using rt g False by auto
    next
      case True
      then have h: "holds ?d es" using g by simp
      then have w: "write_exclusive (entry_name (length es)) ?e ?d = (True, dict_set (entry_name (length es)) (SF_entry ?e) ?d)"
        by (simp add: write_exclusive_def holds_def)
      have "length es < CHAIN_LIMIT \<longrightarrow> holds (dict_set (entry_name (length es)) (SF_entry ?e) ?d) (es @ [?e])"
        using write_held(2)[OF h p(3) p(2)] unfolding w by simp
      then have "append_result env content 1 ?k (cw_dir s) es [] (Inr ?e) t"
        using rt(2) h p(3,4) by (simp add: append_result_def w)
      then show ?thesis using rt w by auto
    qed
  qed
qed

lemma append_result_later:
  assumes "append_result env content n (Suc a) (ce_others env a d) (es @ fs) gs r t" and "fs \<noteq> []" and "Suc a \<le> cw_attempts t"
  shows "append_result env content (Suc n) a d es (fs @ gs) r t"
proof -
  have o: "others_between env a (cw_attempts t) d = others_between env (Suc a) (cw_attempts t) (ce_others env a d)"
    using assms(3) by (intro others_between_step) simp
  have l: "1 \<le> length fs" using assms(2) by (cases fs) simp_all
  show ?thesis
  proof (cases r)
    case (Inl er)
    then show ?thesis using assms(1,3) l unfolding append_result_def Let_def o by fastforce
  next
    case (Inr e)
    then show ?thesis using assms(1,3) l unfolding append_result_def Let_def o by auto
  qed
qed

lemma attempts_grow: "append_loop n env content s = (r, t) \<Longrightarrow> cw_attempts s \<le> cw_attempts t"
proof (induction n arbitrary: s)
  case (Suc n)
  have "cw_attempts (snd (try_append env content s)) = Suc (cw_attempts s)"
    by (simp add: try_append_def Let_def split: sum.splits prod.splits)
  with Suc show ?case by (fastforce split: prod.splits sum.splits option.splits)
qed simp

lemma loop_outcome:
  assumes "holds (cw_dir s) es" and "others_append env" and "env_texts env" and "\<not> blank content"
    and "append_loop n env content s = (r, t)"
  shows "\<exists>fs. append_result env content n (cw_attempts s) (cw_dir s) es fs r t"
  using assms(1,5)
proof (induction n arbitrary: s es)
  case 0
  then show ?case by (intro exI[of _ "[]"]) (auto simp: append_result_def others_between_def)
next
  case (Suc n)
  obtain v u where a: "try_append env content s = (v, u)" by fastforce
  note o = attempt_outcome[OF Suc.prems(1) assms(2-4) a]
  have widen: "append_result env content (Suc n) (cw_attempts s) (cw_dir s) es fs r u"
    if "append_result env content 1 (cw_attempts s) (cw_dir s) es fs r u" "case r of Inl er \<Rightarrow> \<exists>f. ce_fault env (cw_attempts s) = Some f \<and> er = fault_error f | Inr e \<Rightarrow> True" for fs
    using that o by (auto simp: append_result_def Let_def split: sum.splits)
  show ?case
  proof (cases v)
    case (Inl er)
    moreover have "r = Inl er" "t = u" using Suc.prems(2) a Inl by simp_all
    ultimately show ?thesis using o widen by fastforce
  next
    case w: (Inr w)
    show ?thesis
    proof (cases w)
      case (Some e)
      then have "r = Inr e" "t = u" using Suc.prems(2) a w by simp_all
      then show ?thesis using o w Some widen by fastforce
    next
      case None
      then obtain fs where f: "cw_dir u = ce_others env (cw_attempts s) (cw_dir s)" "holds (cw_dir u) (es @ fs)" "fs \<noteq> []"
        and k: "cw_attempts u = Suc (cw_attempts s)" using o w by auto
      have l: "append_loop n env content u = (r, t)" using Suc.prems(2) a w None by simp
      from Suc.IH[OF f(2) l] k f(1) obtain gs
        where "append_result env content n (Suc (cw_attempts s)) (ce_others env (cw_attempts s) (cw_dir s)) (es @ fs) gs r t"
        by auto
      with attempts_grow[OF l] show ?thesis using append_result_later f(3) k by fastforce
    qed
  qed
qed

section \<open>Writers racing\<close>

text \<open>
  Any number of writers over one directory: a writer reads the latest entry and prepares its own, and
  later links it or fails to; anything may happen in between.
\<close>

type_synonym chain_race = "chain_dir \<times> (nat \<Rightarrow> (chain_entry \<times> string) option)"

inductive race_step :: "chain_race \<Rightarrow> chain_race \<Rightarrow> bool" where
  rs_read: "prepare_entry d content uuid now = Inr (e, p) \<Longrightarrow> race_step (d, w) (d, w(i := Some (e, p)))"
| rs_write: "w i = Some (e, p) \<Longrightarrow> atomic_write_exclusive fault p e d = (r, d') \<Longrightarrow>
     race_step (d, w) (d', w(i := None))"

text \<open>An attempt of \<open>try_append\<close> is these two steps, with what the others do in between.\<close>

lemma try_append_races:
  assumes "try_append env content s = (r, t)"
  shows "(\<exists>er. r = Inl er \<and> cw_dir t = cw_dir s) \<or>
    (\<exists>e p. race_step (cw_dir s, w) (cw_dir s, w(i := Some (e, p))) \<and>
       race_step (ce_others env (cw_attempts s) (cw_dir s), w(i := Some (e, p))) (cw_dir t, w(i := None)))"
proof (cases "prepare_entry (cw_dir s) content (ce_uuid env (cw_attempts s)) (ce_clock env (cw_attempts s))")
  case (Inl er)
  then show ?thesis using assms by (auto simp: try_append_def Let_def)
next
  case (Inr ep)
  obtain e p where ep: "ep = (e, p)" by (cases ep)
  let ?d = "ce_others env (cw_attempts s) (cw_dir s)"
  obtain q d where q: "atomic_write_exclusive (ce_fault env (cw_attempts s)) p e ?d = (q, d)" by fastforce
  have "race_step (?d, w(i := Some (e, p))) (d, w(i := None))"
    using rs_write[OF _ q, of "w(i := Some (e, p))" i] by simp
  moreover have "cw_dir t = d" using assms Inr ep q by (auto simp: try_append_def Let_def split: sum.splits)
  ultimately show ?thesis using rs_read Inr ep by blast
qed

abbreviation race_run :: "chain_race \<Rightarrow> chain_race \<Rightarrow> bool" where
  "race_run \<equiv> race_step\<^sup>*\<^sup>*"

definition race_init :: chain_race where
  "race_init = ([], \<lambda>i. None)"

text \<open>A prepared entry continues the chain of some moment, which the directory still holds.\<close>

definition prepared :: "chain_entry list \<Rightarrow> chain_entry \<times> string \<Rightarrow> bool" where
  "prepared es ep \<longleftrightarrow> (case ep of (e, p) \<Rightarrow> check_chain_entry e = Inr e \<and>
     (\<exists>k \<le> length es. p = entry_name k \<and> chain_linear (take k es @ [e])))"

definition race_holds :: "chain_race \<Rightarrow> chain_entry list \<Rightarrow> bool" where
  "race_holds s es \<longleftrightarrow> holds (fst s) es \<and> length (fst s) = length es \<and> (\<forall>i e. snd s i = Some e \<longrightarrow> prepared es e)"

lemma prepared_append: "prepared es ep \<Longrightarrow> prepared (es @ fs) ep"
proof -
  assume "prepared es ep"
  then obtain e k where "ep = (e, entry_name k)" "check_chain_entry e = Inr e" "k \<le> length es" "chain_linear (take k es @ [e])"
    by (auto simp: prepared_def)
  then show ?thesis by (auto simp: prepared_def intro!: exI[of _ k])
qed

lemma checked_entry: "check_chain_entry x = Inr y \<Longrightarrow> y = x"
  by (auto simp: check_chain_entry_def py_bind_Inr_iff)

lemma prepare_prepared:
  assumes "holds d es" and "prepare_entry d content uuid now = Inr ep"
  shows "prepared es ep"
proof -
  have lin: "chain_linear es" using assms(1) by (simp add: holds_def)
  let ?e = "next_entry (last_entry es) content uuid now"
  obtain e where "of_contract (check_chain_entry ?e) = Inr e"
    and p: "chain_bind (entry_path (ch_sequence_number e)) (\<lambda>p. Inr (e, p)) = Inr ep"
    using assms(2) unfolding prepare_entry_def latest_is_last[OF assms(1)]
    by (auto simp: chain_bind_Inr_iff split: if_splits)
  then have c: "check_chain_entry ?e = Inr ?e" and e: "e = ?e" using checked_entry
    by (cases "check_chain_entry ?e"; fastforce)+
  have "ep = (?e, entry_name (length es))"
    using p unfolding e next_continues(2)[OF lin] entry_path_name by simp
  then show ?thesis using c next_continues(1)[OF lin] by (auto simp: prepared_def)
qed

lemma race_step_holds:
  assumes "race_step s t" and "race_holds s es" and "length (fst t) \<le> CHAIN_LIMIT"
  shows "\<exists>fs. race_holds t (es @ fs)"
  using assms
proof (induction rule: race_step.induct)
  case (rs_read d content uuid now e p w i)
  then have "holds d es" by (simp add: race_holds_def)
  then have "prepared es (e, p)" using prepare_prepared rs_read(1) by blast
  then show ?case using rs_read(2) by (intro exI[of _ "[]"]) (simp add: race_holds_def)
next
  case (rs_write w i e p fault d r d')
  then have h: "holds d es" and l: "length d = length es" and w: "\<And>i ep. w i = Some ep \<Longrightarrow> prepared es ep"
    by (auto simp: race_holds_def)
  from w[OF rs_write(1)] obtain k where k: "check_chain_entry e = Inr e" "k \<le> length es" "p = entry_name k"
    "chain_linear (take k es @ [e])" unfolding prepared_def by blast
  have d': "d' = d \<or> d' = snd (write_exclusive p e d)"
    using rs_write(2) by (auto simp: atomic_write_exclusive_def split: option.splits prod.splits)
  show ?case
  proof (cases "d' = d")
    case True
    then show ?thesis using h l w by (intro exI[of _ "[]"]) (simp add: race_holds_def)
  next
    case False
    then have new: "d' = snd (write_exclusive p e d)" using d' by simp
    have at_end: "k = length es"
      using write_taken[OF h, of k e] k(2,3) new False by (cases "k = length es") auto
    then have "dict_get d p = None" using h k(3) by (simp add: holds_def)
    then have d: "d' = d @ [(p, SF_entry e)]" using new by (simp add: write_exclusive_def dict_set_new)
    then have lt: "length es < CHAIN_LIMIT" using rs_write(4) l by simp
    then have "holds d' (es @ [e])" using write_held(2)[OF h _ k(1)] k(3,4) at_end new by simp
    then show ?thesis using d l w prepared_append by (intro exI[of _ "[e]"]) (simp add: race_holds_def)
  qed
qed

lemma race_step_grows: "race_step s t \<Longrightarrow> length (fst s) \<le> length (fst t)"
  by (induction rule: race_step.induct)
     (auto simp: atomic_write_exclusive_def write_exclusive_def dict_set_new split: option.splits prod.splits if_splits)

lemma race_run_holds:
  assumes "race_run s t" and "race_holds s es" and "length (fst t) \<le> CHAIN_LIMIT"
  shows "\<exists>fs. race_holds t (es @ fs)"
  using assms(1,3)
proof (induction rule: rtranclp_induct)
  case base
  show ?case using assms(2) by (intro exI[of _ "[]"]) simp
next
  case (step t u)
  then obtain fs where "race_holds t (es @ fs)" using race_step_grows le_trans by blast
  then obtain gs where "race_holds u ((es @ fs) @ gs)" using race_step_holds step by blast
  then show ?case by (intro exI[of _ "fs @ gs"]) simp
qed

lemma race_init_holds: "race_holds race_init []"
  by (simp add: race_holds_def race_init_def hold_nothing)

section \<open>Validation of what is held\<close>

lemma broken_first:
  "es \<noteq> [] \<Longrightarrow> case first_break 0 GENESIS_PREVIOUS_HASH es of
      None \<Rightarrow> chain_linear es
    | Some (i, detail) \<Rightarrow> i < length es \<and> \<not> sound_at es i \<and> (\<forall>j < i. sound_at es j)"
  using first_break_spec[of 0 es] by (simp add: previous_of_def)

text \<open>What a validation finds in a directory that can be read.\<close>

lemma validate_loaded:
  assumes "load_all d = Inr es" and "\<not> blank chain_id"
  shows "\<exists>r. chain_validate chain_id d = Inr r \<and> cv_chain_id r = chain_id \<and> (cv_valid r \<longleftrightarrow> chain_linear es) \<and>
    (cv_valid r \<longrightarrow> cv_entries_checked r = int (length es) \<and> cv_first_broken_sequence r = None) \<and>
    (\<not> cv_valid r \<longrightarrow> (\<exists>i < length es. \<not> sound_at es i \<and> (\<forall>j < i. sound_at es j) \<and>
       cv_first_broken_sequence r = Some (int i) \<and> cv_entries_checked r = int i + 1))"
proof (cases "es = []")
  case True
  then show ?thesis using assms
    by (simp add: chain_validate_def check_chain_validation_def require_non_empty_text_def require_non_negative_int_def chain_linear_def)
next
  case False
  show ?thesis
  proof (cases "first_break 0 GENESIS_PREVIOUS_HASH es")
    case None
    then show ?thesis using assms False broken_first[OF False]
      by (simp add: chain_validate_def check_chain_validation_def require_non_empty_text_def require_non_negative_int_def)
  next
    case (Some f)
    then obtain i detail where f: "first_break 0 GENESIS_PREVIOUS_HASH es = Some (i, detail)" by (cases f) auto
    have b: "i < length es" "\<not> sound_at es i" "\<forall>j < i. sound_at es j" using broken_first[OF False] f by auto
    then have "\<not> chain_linear es" by (auto simp: chain_linear_def)
    then show ?thesis using assms False f b
      by (auto simp: chain_validate_def check_chain_validation_def require_non_empty_text_def require_non_negative_int_def)
  qed
qed

section \<open>What the last hash fixes\<close>

definition hash_input :: "chain_entry \<Rightarrow> string" where
  "hash_input e = int_str (ch_sequence_number e) @ '':'' @ ch_content_hash e @ '':'' @ ch_previous_hash e"

definition hashed_fields :: "chain_entry \<Rightarrow> int \<times> string \<times> string \<times> string" where
  "hashed_fields e = (ch_sequence_number e, ch_content_hash e, ch_previous_hash e, ch_chain_hash e)"

lemma hex_no_colon: "d < 16 \<Longrightarrow> hex_char d \<noteq> CHR '':''"
proof -
  assume "d < 16"
  then have "of_char (hex_char d) = (if d < 10 then 48 + d else 87 + d)" by (simp add: hex_char_def)
  then show ?thesis using \<open>d < 16\<close> by (auto split: if_splits)
qed

lemma hex_word_no_colon: "CHR '':'' \<notin> set (hex_word x)"
proof
  assume "CHR '':'' \<in> set (hex_word x)"
  then obtain i where "hex_char (nat (uint x div 16 ^ i mod 16)) = CHR '':''" unfolding hex_word_def by auto
  then show False using hex_no_colon[of "nat (uint x div 16 ^ i mod 16)"] by (simp add: nat_less_iff)
qed

lemma sha256_no_colon: "CHR '':'' \<notin> set (sha256_hex s)"
  using hex_word_no_colon by (auto simp: sha256_hex_def)

lemma last_colon: "CHR '':'' \<notin> set p \<Longrightarrow> CHR '':'' \<notin> set q \<Longrightarrow> c @ CHR '':'' # p = d @ CHR '':'' # q \<Longrightarrow> c = d \<and> p = q"
proof (induction c arbitrary: d)
  case Nil
  then show ?case by (cases d) auto
next
  case (Cons a c)
  then show ?case by (cases d) auto
qed

lemma input_inj:
  assumes "hash_input e = hash_input f" and "CHR '':'' \<notin> set (ch_previous_hash e)" and "CHR '':'' \<notin> set (ch_previous_hash f)"
  shows "ch_sequence_number e = ch_sequence_number f \<and> ch_content_hash e = ch_content_hash f \<and> ch_previous_hash e = ch_previous_hash f"
proof -
  have "no_digit ('':'' @ r)" for r by (simp add: no_digit_def is_digit_char_def)
  then have "ch_sequence_number e = ch_sequence_number f \<and>
      '':'' @ ch_content_hash e @ '':'' @ ch_previous_hash e = '':'' @ ch_content_hash f @ '':'' @ ch_previous_hash f"
    using int_str_append_inj assms(1) unfolding hash_input_def by blast
  then have n: "ch_sequence_number e = ch_sequence_number f"
    and c: "ch_content_hash e @ CHR '':'' # ch_previous_hash e = ch_content_hash f @ CHR '':'' # ch_previous_hash f" by simp_all
  show ?thesis using n last_colon[OF assms(2,3) c] by blast
qed

lemma linear_no_colon: "chain_linear es \<Longrightarrow> i < length es \<Longrightarrow> CHR '':'' \<notin> set (ch_previous_hash (es ! i))"
proof -
  assume l: "chain_linear es" and i: "i < length es"
  have g: "CHR '':'' \<notin> set GENESIS_PREVIOUS_HASH" by (simp add: GENESIS_PREVIOUS_HASH_def)
  have "CHR '':'' \<notin> set (ch_chain_hash (es ! j))" if "j < length es" for j
    using l that sha256_no_colon by (simp add: chain_linear_def sound_at_def compute_chain_hash_def)
  then have "CHR '':'' \<notin> set (previous_of es i)" using g i by (simp add: previous_of_def)
  moreover have "ch_previous_hash (es ! i) = previous_of es i" using l i by (simp add: chain_linear_def sound_at_def)
  ultimately show ?thesis by metis
qed

definition chain_collision :: "chain_entry list \<Rightarrow> chain_entry list \<Rightarrow> bool" where
  "chain_collision es fs \<longleftrightarrow> (\<exists>e \<in> set es. \<exists>f \<in> set fs. hash_input e \<noteq> hash_input f \<and> sha256_hex (hash_input e) = sha256_hex (hash_input f))"

lemma linear_agree:
  assumes "chain_linear es" and "chain_linear fs" and "es \<noteq> []" and "fs \<noteq> []" and "ch_chain_hash (last es) = ch_chain_hash (last fs)"
  shows "map hashed_fields es = map hashed_fields fs \<or> chain_collision es fs"
  using assms
proof (induction es arbitrary: fs rule: rev_induct)
  case Nil
  then show ?case by simp
next
  case (snoc e es)
  obtain f gs where f: "fs = gs @ [f]" using snoc.prems(4) by (metis rev_exhaust)
  have e: "chain_linear es" "ch_sequence_number e = int (length es)" "ch_previous_hash e = previous_of es (length es)"
    "ch_chain_hash e = sha256_hex (hash_input e)"
    using snoc.prems(1) by (simp_all add: linear_snoc compute_chain_hash_def hash_input_def)
  have g: "chain_linear gs" "ch_sequence_number f = int (length gs)" "ch_previous_hash f = previous_of gs (length gs)"
    "ch_chain_hash f = sha256_hex (hash_input f)"
    using snoc.prems(2) f by (simp_all add: linear_snoc compute_chain_hash_def hash_input_def)
  show ?case
  proof (cases "hash_input e = hash_input f")
    case False
    then show ?thesis using e(4) g(4) snoc.prems(5) f by (auto simp: chain_collision_def)
  next
    case True
    have "CHR '':'' \<notin> set (ch_previous_hash e)" "CHR '':'' \<notin> set (ch_previous_hash f)"
      using linear_no_colon[OF snoc.prems(1), of "length es"] linear_no_colon[OF snoc.prems(2), of "length gs"] f by simp_all
    then have s: "length es = length gs" "ch_content_hash e = ch_content_hash f" "ch_previous_hash e = ch_previous_hash f"
      using input_inj[OF True] e(2) g(2) by simp_all
    have fe: "hashed_fields e = hashed_fields f" using s e(2,4) g(2,4) True by (simp add: hashed_fields_def)
    show ?thesis
    proof (cases "es = []")
      case True
      then show ?thesis using s(1) f fe by simp
    next
      case False
      then have n: "gs \<noteq> []" using s(1) by auto
      have "ch_chain_hash (last es) = ch_chain_hash (last gs)" using s(3) e(3) g(3) False n by (simp add: previous_of_def last_conv_nth)
      then have "map hashed_fields es = map hashed_fields gs \<or> chain_collision es gs" by (rule snoc.IH[OF e(1) g(1) False n])
      then show ?thesis using f fe by (auto simp: chain_collision_def)
    qed
  qed
qed

section \<open>Properties\<close>

text \<open>
  C40: validation is exact: of a directory whose files can be read it finds a chain valid exactly when every
  entry has the number of its place, the hash of its predecessor and its own hash right, and otherwise it
  names the first entry that has not.
\<close>

theorem chain_validation_exact:
  assumes "load_all d = Inr es" and "\<not> blank chain_id"
  shows "\<exists>r. chain_validate chain_id d = Inr r \<and> (cv_valid r \<longleftrightarrow> chain_linear es) \<and>
    (cv_valid r \<longrightarrow> cv_entries_checked r = int (length es) \<and> cv_first_broken_sequence r = None) \<and>
    (\<not> cv_valid r \<longrightarrow> (\<exists>i < length es. \<not> sound_at es i \<and> (\<forall>j < i. sound_at es j) \<and>
       cv_first_broken_sequence r = Some (int i) \<and> cv_entries_checked r = int i + 1))"
  using validate_loaded[OF assms] by blast

text \<open>
  C38: however many writers race over one directory and however their reading and writing interleave, what
  is in it is one linear chain that validates, and later states only add entries at its end; up to the
  10^12 entries a name of twelve digits can number.
\<close>

theorem racing_writers_stay_linear:
  assumes "race_run race_init (d, w)" and "race_run (d, w) (d', w')" and "length d' \<le> CHAIN_LIMIT" and "\<not> blank chain_id"
  shows "\<exists>es fs r. load_all d = Inr es \<and> load_all d' = Inr (es @ fs) \<and> length (es @ fs) = length d' \<and> chain_linear (es @ fs) \<and>
    chain_validate chain_id d' = Inr r \<and> cv_valid r"
proof -
  have "length d \<le> length d'" using assms(2)
  proof (induction "(d', w')" arbitrary: d' w' rule: rtranclp_induct)
    case base
    then show ?case by simp
  next
    case (step t)
    then show ?case using race_step_grows by (cases t) fastforce
  qed
  then obtain es where e: "race_holds (d, w) es" using race_run_holds[OF assms(1) race_init_holds] assms(3) by auto
  then obtain fs where f: "race_holds (d', w') (es @ fs)" using race_run_holds[OF assms(2)] assms(3) by auto
  have h: "holds d es" "holds d' (es @ fs)" "length d' = length (es @ fs)" using e f by (simp_all add: race_holds_def)
  have l: "load_all d = Inr es" "load_all d' = Inr (es @ fs)" "chain_linear (es @ fs)"
    using load_all_held[OF h(1) holds_limit[OF h(1)]] load_all_held[OF h(2) holds_limit[OF h(2)]] h(2) unfolding holds_def by blast+
  then show ?thesis using h(3) validate_loaded[OF l(2) assms(4)] by auto
qed

text \<open>
  C39: an append over a directory that holds a chain comes back after at most 64 attempts.  It
  returns its entry, written once and at the end of the chain as the others left it; or it returns the
  error that the operating system gave in its last attempt, or the error of contention after exactly 64
  attempts, and then it has written nothing: the directory is what the others made of it.  Every attempt but
  the last was lost to an entry that the others added, so contention takes 64 entries of theirs.
\<close>

theorem append_outcome:
  assumes "holds (cw_dir s) es" and "others_append env" and "env_texts env" and "\<not> blank content"
    and "chain_append env content s = (r, t)"
  shows "\<exists>a b d fs. a = cw_attempts s \<and> b = cw_attempts t \<and> d = others_between env a b (cw_dir s) \<and>
    holds d (es @ fs) \<and> a < b \<and> b \<le> a + 64 \<and>
    (case r of
       Inl er \<Rightarrow> cw_dir t = d \<and>
         (er = contention_error \<and> b = a + 64 \<and> 64 \<le> length fs \<or>
          (\<exists>f. ce_fault env (b - 1) = Some f \<and> er = fault_error f \<and> b - a \<le> length fs + 1))
     | Inr e \<Rightarrow> cw_dir t = dict_set (entry_name (length (es @ fs))) (SF_entry e) d \<and> b - a \<le> length fs + 1 \<and>
         ch_content_hash e = content \<and> chain_linear (es @ fs @ [e]) \<and>
         (length (es @ fs) < CHAIN_LIMIT \<longrightarrow> holds (cw_dir t) (es @ fs @ [e])))"
proof -
  from loop_outcome[OF assms(1-4)] assms(5) obtain fs where
    "append_result env content 64 (cw_attempts s) (cw_dir s) es fs r t"
    unfolding chain_append_def APPEND_MAX_CONTENTION_RETRIES_def by blast
  then show ?thesis unfolding append_result_def Let_def
    by (intro exI[of _ "cw_attempts s"] exI[of _ "cw_attempts t"]
        exI[of _ "others_between env (cw_attempts s) (cw_attempts t) (cw_dir s)"] exI[of _ fs]) (cases r; auto)
qed

text \<open>
  The handler of \<open>_atomic_write_exclusive\<close> does not cover the making of the directory and of the
  temporary file: what goes wrong there leaves \<open>append\<close> as it is, not as a persistence error.
\<close>

theorem unwrapped_fault:
  assumes "holds (cw_dir s) es" and "env_texts env" and "\<not> blank content"
    and "ce_fault env (cw_attempts s) = Some (WF_prepare er)"
  shows "fst (chain_append env content s) = Inl (OSError er)"
  using prepare_held(1)[OF assms(1-3), of "cw_attempts s"] assms(4)
  by (simp add: chain_append_def APPEND_MAX_CONTENTION_RETRIES_def try_append_def Let_def atomic_write_exclusive_def
        eval_nat_numeral del: append_loop.simps(1))

text \<open>
  the last hash of a valid chain fixes the number, the content and the links of every entry in it: two
  directories that validate and end in one hash agree entry by entry, or exhibit a collision of SHA-256.
\<close>

theorem last_hash_binds:
  assumes "chain_validate i d = Inr r" "cv_valid r" "load_all d = Inr es" "es \<noteq> []"
    and "chain_validate i' d' = Inr r'" "cv_valid r'" "load_all d' = Inr fs" "fs \<noteq> []"
    and "ch_chain_hash (last es) = ch_chain_hash (last fs)"
  shows "map hashed_fields es = map hashed_fields fs \<or> chain_collision es fs"
proof -
  have "chain_linear es" if "chain_validate i d = Inr r" "cv_valid r" "load_all d = Inr es" for i d r es
  proof -
    have "\<not> blank i" using that
      by (auto simp: chain_validate_def check_chain_validation_def require_non_empty_text_def split: if_splits option.splits)
    from validate_loaded[OF that(3) this] show ?thesis using that(1,2) by auto
  qed
  then show ?thesis using linear_agree assms by blast
qed

text \<open>Identifiers and times of entries are not covered: changing them is not noticed.\<close>

theorem times_not_hashed:
  "chain_linear (es @ [e\<lparr>ch_entry_id := i, ch_recorded_at := now\<rparr>] @ fs) \<longleftrightarrow> chain_linear (es @ [e] @ fs)"
proof -
  let ?e = "e\<lparr>ch_entry_id := i, ch_recorded_at := now\<rparr>"
  let ?xs = "es @ [?e] @ fs" and ?ys = "es @ [e] @ fs"
  have f: "map hashed_fields ?xs = map hashed_fields ?ys" by (simp add: hashed_fields_def)
  have "hashed_fields (?xs ! j) = hashed_fields (?ys ! j)" if "j < length ?ys" for j
  proof -
    have "map hashed_fields ?xs ! j = map hashed_fields ?ys ! j" using f by simp
    then show ?thesis using that by (simp only: nth_map length_append list.size)
  qed
  then have g: "ch_sequence_number (?xs ! j) = ch_sequence_number (?ys ! j) \<and> ch_content_hash (?xs ! j) = ch_content_hash (?ys ! j) \<and>
      ch_previous_hash (?xs ! j) = ch_previous_hash (?ys ! j) \<and> ch_chain_hash (?xs ! j) = ch_chain_hash (?ys ! j)"
    if "j < length ?ys" for j
    using that unfolding hashed_fields_def by simp
  have "previous_of ?xs j = previous_of ?ys j" if "j < length ?ys" for j
    using g[of "j - 1"] that unfolding previous_of_def by simp
  then have "sound_at ?xs j \<longleftrightarrow> sound_at ?ys j" if "j < length ?ys" for j
    using g[OF that] that unfolding sound_at_def by simp
  moreover have "length ?xs = length ?ys" by simp
  ultimately show ?thesis unfolding chain_linear_def by (simp only:) blast
qed

text \<open>A file whose name ends in a superscript digit breaks the reader with an error it does not expect.\<close>

theorem superscript_name_raises:
  "entry_sequence (''00000000000'' @ [CHR 0xB2] @ ''.json'') = Inl IntLiteralError"
  by code_simp

section \<open>Witnesses\<close>

definition demo_link :: "string \<Rightarrow> string \<Rightarrow> chain_entry" where
  "demo_link content uuid = next_entry None content uuid ''2024-01-01T00:00:00Z''"

lemma demo_link_facts:
  "check_chain_entry (demo_link ''a'' ''u'') = Inr (demo_link ''a'' ''u'')" "check_chain_entry (demo_link ''a'' ''v'') = Inr (demo_link ''a'' ''v'')"
  "check_chain_entry (demo_link ''b'' ''v'') = Inr (demo_link ''b'' ''v'')" "chain_linear [demo_link c i]" "ch_sequence_number (demo_link c i) = 0"
proof -
  have t: "require_datetime_text ''2024-01-01T00:00:00Z'' ''recorded_at'' = Inr ''2024-01-01T00:00:00Z''" "\<not> blank ''u''" "\<not> blank ''v''"
    "\<not> blank ''a''" "\<not> blank ''b''" by code_simp+
  show "check_chain_entry (demo_link ''a'' ''u'') = Inr (demo_link ''a'' ''u'')" "check_chain_entry (demo_link ''a'' ''v'') = Inr (demo_link ''a'' ''v'')"
    "check_chain_entry (demo_link ''b'' ''v'') = Inr (demo_link ''b'' ''v'')"
    using t by (simp_all add: check_chain_entry_def demo_link_def next_entry_def hash_not_blank genesis_not_blank require_non_empty_text_def
        require_non_negative_int_def)
  show "chain_linear [demo_link c i]" "ch_sequence_number (demo_link c i) = 0"
    using next_continues[of "[]" c i "''2024-01-01T00:00:00Z''"] by (simp_all add: chain_linear_def demo_link_def)
qed

lemma one_held: "check_chain_entry e = Inr e \<Longrightarrow> chain_linear [e] \<Longrightarrow> holds [(entry_name 0, SF_entry e)] [e]"
  using hold_next[OF hold_nothing, of e] by simp

theorem chain_validation_exact_witness:
  "\<exists>r. chain_validate ''c'' [(entry_name 0, SF_entry (demo_link ''a'' ''u'')), (''notes.txt'', SF_bytes)] = Inr r \<and> cv_valid r"
proof -
  let ?e = "demo_link ''a'' ''u''" and ?d = "[(entry_name 0, SF_entry (demo_link ''a'' ''u'')), (''notes.txt'', SF_bytes)]"
  have "path_suffix ''notes.txt'' = ''.txt''" by code_simp
  then have "json_names ?d = [entry_name 0]" by (simp add: json_names_def is_file_def name_parts)
  moreover have "load_entry ?d (entry_name 0) = Inr ?e"
    using name_sequence[of 0] demo_link_facts(1,5) by (simp add: load_entry_def)
  ultimately have l: "load_all ?d = Inr [?e]" by (simp add: load_all_def)
  have "\<not> blank ''c''" by code_simp
  from chain_validation_exact[OF l this] show ?thesis using demo_link_facts(4) by blast
qed

theorem racing_writers_stay_linear_witness:
  "\<exists>es. load_all [(entry_name 0, SF_entry (demo_link ''a'' ''u''))] = Inr es \<and> chain_linear es"
proof -
  let ?e = "(demo_link ''a'' ''u'', entry_name 0)" and ?f = "(demo_link ''b'' ''v'', entry_name 0)"
  let ?w = "(\<lambda>i. None)(0 := Some ?e)" and ?d = "[(entry_name 0, SF_entry (demo_link ''a'' ''u''))]"
  let ?now = "''2024-01-01T00:00:00Z''"
  have none: "latest_entry [] = Inr None" by (simp add: latest_entry_def json_names_def)
  have path: "entry_path (ch_sequence_number (demo_link c i)) = Inr (entry_name 0)" for c i
    using demo_link_facts(5) entry_path_name[of 0] by simp
  have nb: "\<not> blank ''a''" "\<not> blank ''b''" by code_simp+
  have "prepare_entry [] ''a'' ''u'' ?now = Inr ?e" "prepare_entry [] ''b'' ''v'' ?now = Inr ?f"
    using demo_link_facts(1,3) path none nb by (simp_all add: prepare_entry_def flip: demo_link_def)
  then have r1: "race_step race_init ([], ?w)" and r2: "race_step ([], ?w) ([], ?w(1 := Some ?f))"
    unfolding race_init_def by (auto intro: rs_read)
  have w1: "race_step ([], ?w(1 := Some ?f)) (?d, ?w(1 := Some ?f, 0 := None))"
    by (rule rs_write[of _ _ "demo_link ''a'' ''u''" "entry_name 0" None])
       (simp_all add: atomic_write_exclusive_def write_exclusive_def)
  have w2: "race_step (?d, ?w(1 := Some ?f, 0 := None)) (?d, ?w(1 := Some ?f, 0 := None, 1 := None))"
    by (rule rs_write[of _ _ "demo_link ''b'' ''v''" "entry_name 0" None])
       (simp_all add: atomic_write_exclusive_def write_exclusive_def)
  have "race_run race_init ([], ?w)" using r1 by (rule r_into_rtranclp)
  then have "race_run race_init ([], ?w(1 := Some ?f))" using r2 by (rule rtranclp.rtrancl_into_rtrancl)
  then have a: "race_run race_init (?d, ?w(1 := Some ?f, 0 := None))" using w1 by (rule rtranclp.rtrancl_into_rtrancl)
  have b: "race_run (?d, ?w(1 := Some ?f, 0 := None)) (?d, ?w(1 := Some ?f, 0 := None, 1 := None))" using w2 by (rule r_into_rtranclp)
  have "\<not> blank ''c''" by code_simp
  from racing_writers_stay_linear[OF a b _ this] show ?thesis using linear_append by auto
qed

definition demo_chain_env :: chain_env where
  "demo_chain_env = \<lparr>ce_clock = \<lambda>k. ''2024-01-01T00:00:00Z'', ce_uuid = \<lambda>k. ''u'', ce_fault = \<lambda>k. None, ce_others = \<lambda>k d. d\<rparr>"

lemma demo_env_ok: "others_append demo_chain_env" "env_texts demo_chain_env"
proof -
  show "others_append demo_chain_env"
    unfolding others_append_def demo_chain_env_def by (metis append_Nil2 chain_env.select_convs(4))
  have "is_ok (require_datetime_text ''2024-01-01T00:00:00Z'' f)" for f
  proof -
    have "iso_text ''2024-01-01T00:00:00Z''" "\<not> blank ''2024-01-01T00:00:00Z''" by code_simp+
    then show ?thesis by (simp add: require_datetime_text_def require_non_empty_text_def)
  qed
  moreover have "\<not> blank ''u''" by code_simp
  ultimately show "env_texts demo_chain_env" by (simp add: env_texts_def demo_chain_env_def)
qed

text \<open>Without faults and others, the append to an empty directory succeeds in its first attempt.\<close>

theorem append_outcome_witness:
  "\<exists>e t. chain_append demo_chain_env ''a'' \<lparr>cw_dir = [], cw_attempts = 0\<rparr> = (Inr e, t) \<and>
     cw_dir t = [(entry_name 0, SF_entry e)] \<and> cw_attempts t = 1 \<and> ch_content_hash e = ''a''"
proof -
  let ?s = "\<lparr>cw_dir = [], cw_attempts = 0\<rparr>"
  obtain r t where rt: "chain_append demo_chain_env ''a'' ?s = (r, t)" by fastforce
  have "\<not> blank ''a''" by code_simp
  define d where "d = others_between demo_chain_env 0 (cw_attempts t) []"
  have "\<exists>fs. holds d fs \<and> 0 < cw_attempts t \<and>
      (case r of
         Inl er \<Rightarrow> 64 \<le> length fs \<or> (\<exists>f. ce_fault demo_chain_env (cw_attempts t - 1) = Some f)
       | Inr e \<Rightarrow> cw_dir t = dict_set (entry_name (length fs)) (SF_entry e) d \<and> cw_attempts t \<le> length fs + 1 \<and> ch_content_hash e = ''a'')"
    using append_outcome[OF _ demo_env_ok \<open>\<not> blank ''a''\<close> rt, of "[]"] unfolding d_def
    by (cases r) (auto simp: hold_nothing)
  then obtain fs where o: "holds d fs" "0 < cw_attempts t"
    "case r of
       Inl er \<Rightarrow> 64 \<le> length fs \<or> (\<exists>f. ce_fault demo_chain_env (cw_attempts t - 1) = Some f)
     | Inr e \<Rightarrow> cw_dir t = dict_set (entry_name (length fs)) (SF_entry e) d \<and> cw_attempts t \<le> length fs + 1 \<and> ch_content_hash e = ''a''"
    by blast
  have "fold (\<lambda>k d. d) ks (x :: chain_dir) = x" for ks :: "nat list" and x by (induction ks) simp_all
  then have d: "d = []" unfolding d_def by (simp add: others_between_def demo_chain_env_def)
  have "fs = []"
  proof (rule ccontr)
    assume "fs \<noteq> []"
    then have "dict_get d (entry_name 0) \<noteq> None" using o(1) by (auto simp: holds_def)
    then show False using d by simp
  qed
  then show ?thesis using o(2,3) rt d
    by (cases r) (auto simp: demo_chain_env_def)
qed

theorem last_hash_binds_witness:
  "map hashed_fields [demo_link ''a'' ''u''] = map hashed_fields [demo_link ''a'' ''v''] \<or>
   chain_collision [demo_link ''a'' ''u''] [demo_link ''a'' ''v'']"
proof -
  have b: "\<not> blank ''c''" by code_simp
  have l: "load_all [(entry_name 0, SF_entry e)] = Inr [e] \<and> (\<exists>r. chain_validate ''c'' [(entry_name 0, SF_entry e)] = Inr r \<and> cv_valid r)"
    if "check_chain_entry e = Inr e" "chain_linear [e]" for e
  proof -
    have "load_all [(entry_name 0, SF_entry e)] = Inr [e]" using load_all_held[OF one_held[OF that]] by simp
    then show ?thesis using validate_loaded[OF _ b] that(2) by blast
  qed
  have "ch_chain_hash (demo_link ''a'' ''u'') = ch_chain_hash (demo_link ''a'' ''v'')" by (simp add: demo_link_def next_entry_def)
  then show ?thesis
    using last_hash_binds[of "''c''" _ _ "[demo_link ''a'' ''u'']" "''c''" _ _ "[demo_link ''a'' ''v'']"]
      l[OF demo_link_facts(1,4)] l[OF demo_link_facts(2,4)] by (metis last.simps list.distinct(1))
qed

end
