(* ===== verification/Spec2Isabelle.thy ===== *)
theory Spec2Isabelle
  imports Payment_Properties Payment_Router Currency_Money Compliance_Export Guard_Chain Contract_Base
    State_Machines Audit_Trail Event_Spine Obligation_Runtime Supervisor_Tick Checkpoint_Manager Access_Runtime Approval_Engine Reaction_Engine Job_Engine
    Hash_Chain_Store
begin

text \<open>
  A verification library for the control plane: the governed payments of \<open>skills/financial\<close>, and
  of \<open>mcoi/mcoi_runtime\<close> the governance guards, the audit trail, the state machines and the event
  runtime.  All paths below are under \<open>src\<close>.

  \<^bold>\<open>The program's parts and how they interact.\<close>  A request to the control plane passes the guard
  chain (\<open>governance/guards/chain.py\<close>, assembled in \<open>app/middleware.py\<close>): authentication, tenant
  gating, access, content safety, temporal policy, rate limit, budget.  The guards consult registries that keep their
  state in memory or in a store which several replicas share.  A payment skill then runs the
  payment executor, which checks the tenant's budget, opens a ledger entry under an idempotency key,
  waits for an approval, calls the provider and settles; the ledger is exported for compliance.
  Beside that, the event runtime records typed events in a spine and creates, transfers, escalates
  and closes obligations, a supervisor drives both tick by tick under a governance gate, and a
  manager takes and restores checkpoints of all three; declared state machines with an auditor judge transitions, and an audit
  trail chains what happened by hashes.

  \<^bold>\<open>Conventions.\<close>  An operation that can raise has a value of type \<open>py_error + 'a\<close>; an operation of a
  stateful object takes the state and returns it beside its result, also when it raises, so that
  partial effects are visible.  Clocks, generated tokens and callbacks are arguments.  A lock makes a
  method one step of the object that owns it; accesses of different objects to a shared store are steps of
  their own where a method makes several of them.  Dictionaries are association lists in insertion order.  Integers are Python's
  unbounded ones, \<open>Decimal\<close> and \<open>float\<close> are modelled with their rounding.

  \<^bold>\<open>The Python layer.\<close>
  \<^item> \<open>Py_Prelude\<close>: exceptions, insertion-ordered dictionaries, strings, lifecycles (a locale for
    machines whose moves are a finite relation, interpreted for transactions and obligations).
  \<^item> \<open>Py_Sha256\<close>, \<open>Py_Json\<close>: SHA-256 as executable code and \<open>json.dumps\<close> with sorted keys, with the
    proof that equal texts have equal contents up to the order of keys; a hash statement therefore
    ends in equality or in an exhibited collision.
  \<^item> \<open>Py_Decimal\<close>, \<open>Py_Float\<close>, \<open>Py_Datetime\<close>: decimals of 28 digits, IEEE doubles as rounded rationals,
    \<open>datetime.fromisoformat\<close> as a test.
  \<^item> \<open>Py_Value\<close>, \<open>Contract_Base\<close> (\<open>contracts/_base.py\<close>, \<open>core/invariants.py\<close>): the values a record
    field can hold, the field validators, \<open>to_dict\<close>, \<open>to_json_dict\<close> and the construction of a record
    from a dictionary; the locales \<open>contract_dict\<close> and \<open>contract_record\<close> state what a record class
    promises to snapshot and restore and are interpreted for every record class.

  \<^bold>\<open>Payments\<close> (\<open>skills/financial\<close>).
  \<^item> \<open>Tx_State\<close> (\<open>core/transaction_state.py\<close>), \<open>Tx_Ledger\<close> (\<open>core/transaction_ledger.py\<close>),
    \<open>Idempotency\<close> (\<open>core/idempotency.py\<close>), \<open>Spend_Budget\<close> (\<open>core/spend_budget.py\<close>), \<open>Stripe_Provider\<close>
    (\<open>providers/stripe_provider.py\<close>): one record and one function per method each, with their
    invariants.
  \<^item> \<open>Governed_Payment\<close> (\<open>skills/governed_payment.py\<close>) composes them, \<open>Payment_Properties\<close> holds the
    properties of every reachable state: money moves only after an approval, one live payment per
    key, the outcome of each operation, an append-only ledger, denial beyond the budget.
  \<^item> \<open>Payment_Router\<close> (\<open>providers/payment_provider.py\<close>), \<open>Currency_Money\<close> (\<open>core/currency.py\<close>),
    \<open>Compliance_Export\<close> (\<open>core/compliance_export.py\<close>): the fallback order of providers, rounding to
    minor units, completeness of the tenant report.

  \<^bold>\<open>Governance\<close> (\<open>mcoi/mcoi_runtime/governance\<close>).
  \<^item> \<open>Tenant_Gating\<close> (\<open>guards/tenant_gating.py\<close>), \<open>Tenant_Budget\<close> (\<open>guards/budget.py\<close>), \<open>Rate_Limit\<close>
    (\<open>guards/rate_limit.py\<close>), each with the in-memory store of
    \<open>persistence/postgres_governance_stores.py\<close> and step relations for replicas over a shared store:
    a terminated tenant stays terminated unless a registration that looked it up earlier is still to
    save (the lookup and the save are separate steps, and the save un-terminates it), spending never exceeds a
    hard budget between whole methods, buckets stay within their bounds.
  \<^item> \<open>Content_Safety\<close> (\<open>guards/content_safety.py\<close>): the filters over arguments for the search of a regular
    expression and the normalisation of a text, the chain of filters and the validation of output.
  \<^item> \<open>Guard_Chain\<close> (\<open>guards/chain.py\<close>): all guards and the standard chain; the first failing guard decides, an exception denies, what
    authentication bound is frozen, and what an admitted request has passed.
  \<^item> \<open>Access_Runtime\<close> (\<open>contracts/access_runtime.py\<close>, \<open>guards/access.py\<close>): the engine behind the RBAC
    guard; its decisions equal a declarative reference, ended delegations stay ended, an evaluation
    returns, the guard over the engine admits only what the reference allows.
  \<^item> \<open>Approval_Engine\<close> (\<open>contracts/approval.py\<close>, \<open>core/approval.py\<close>): human approvals; validation equals
    a declarative reference, one decision per request by an allowed approver, decisions change by
    revocation only, the limit of executions holds for callers that validate first; what depends on distinct identifiers
    says so, over the finitely many identifiers a run can have made.
  \<^item> \<open>Audit_Trail\<close> (\<open>audit/trail.py\<close>, \<open>audit/export.py\<close>): a trail verifies what it wrote, the
    external verifier accepts exactly the chained ledgers, two accepted ledgers with the same last
    hash agree up to a collision, trails over one shared store write one linear ledger.

  \<^bold>\<open>Runtime\<close> (\<open>mcoi/mcoi_runtime/core\<close>, \<open>contracts\<close>).
  \<^item> \<open>State_Machines\<close> (\<open>contracts/state_machine.py\<close>, \<open>core/state_machines.py\<close>): verdicts follow the
    declared table, the canonical machines reach a terminal state, replay succeeds exactly on
    recorded runs, snapshots restore.
  \<^item> \<open>Event_Spine\<close> (\<open>contracts/event.py\<close>, \<open>core/event_spine.py\<close>): nothing is lost or changed, matching
    and correlation, when a snapshot can be restored.
  \<^item> \<open>Obligation_Runtime\<close> (\<open>contracts/obligation.py\<close>, \<open>core/obligation_runtime.py\<close>): the engine
    implements the declared obligation machine, closures are explicit, snapshots restore exactly.
  \<^item> \<open>Supervisor\<close> (\<open>contracts/supervisor.py\<close>, \<open>core/supervisor_engine.py\<close>) holds the records and the
    operations of the supervisor over spine and engine, gate and reaction engine being arguments;
    \<open>Supervisor_Tick\<close> its invariant and properties: every change is governed by the gate, an event is
    polled once, histories stay bounded, a tick returns, a halted supervisor does nothing.
  \<^item> \<open>Py_Compare\<close> (equality, order and membership of payload values) and \<open>Reaction_Engine\<close>
    (\<open>contracts/reaction.py\<close>, \<open>core/reaction_engine.py\<close>): rules over events behind idempotency windows,
    backpressure and a gate; one filed record per matched rule, nothing carried out twice or without
    the gate's word, the counters of the loop, limits kept, a decision also when the gate raises, exactly when
    the conditions of the rules can be evaluated.
  \<^item> \<open>Work_Queue\<close> and \<open>Job_Engine\<close> (\<open>contracts/job.py\<close>, \<open>core/jobs.py\<close>): the queue refines a list in
    the order of leaving (interface \<open>priority_queue\<close>); the receipts of a job are an unbroken path of single legal
    moves, finished jobs stay as they are unless filed anew, receipts tell the history, deadlines are exact.
  \<^item> \<open>Hash_Chain_Store\<close> (\<open>contracts/integrity.py\<close>, \<open>persistence/hash_chain.py\<close>): a chain of files that
    racing writers extend, reading and linking being separate steps derived from the operation; it stays linear under every interleaving, an append writes once or
    nothing and gives up only when others moved on, validation is exact, the last hash fixes everything hashed.
  \<^item> \<open>Checkpoint_Manager\<close> (\<open>core/checkpoint_manager.py\<close>): composite checkpoints of spine, engine and
    supervisor; while the spine holds no envelope a restoration happens whole or not at all and a
    checkpoint restores, validation of the
    journal tells exactly what the journal holds.

  \<^bold>\<open>Fuel and bounds.\<close>  No definition uses fuel: recursion is structural or has a measure.  The
  bounds are the program's own (24 or 16 hex digits of a hash, sizes of windows and stores).

  \<^bold>\<open>Not modelled.\<close>  The PostgreSQL classes (a database server), HTTP routers, the gateway, scripts
  and read-only reports (input and output around the modelled operations); the search for a regular
  expression, the normalisation of text and the scanner for personal data, arguments of the content safety
  filters; restorations inside the runs of obligations and supervisor, which are stated for client operations; the supervisor's read-only health
  report; the temporal runtime, an argument of the chain, which rests on the zone database of the
  standard library; JSON text, temporary files and symbolic links of the persisted hash chain;
  coordination between agents, a separate engine nothing modelled here calls.
\<close>

end
